(* ===== verification/Prelude.thy ===== *)
theory Prelude
  imports Complex_Main "HOL-Library.List_Lexorder" "HOL-Library.Multiset" "HOL-Library.Word"
begin

section \<open>Shared vocabulary of the development\<close>

text \<open>
  The generic part every component uses: results with a thrown value on the left, guard lists
  (the sequences of early-throwing checks the sources are written in), JavaScript strings as
  lists of UTF-16 code units, and the lemmas on lists and sorting the components share.
\<close>

named_theorems result_simps "evaluation of results, guards and guard lists"
named_theorems js_defs "definitions of the string predicates (regular expressions) of the sources"

subsection \<open>Strings, bytes, thrown values\<close>

text \<open>
  A JavaScript string is a sequence of UTF-16 code units. A code unit is a natural number below
  \<open>65536\<close>; \<open>js_wf\<close> says so where a proof needs it. A literal is written \<open>js ''abc''\<close>.
\<close>

type_synonym code_unit = nat
type_synonym jstring = "code_unit list"
type_synonym byte = "8 word"

definition js :: "string \<Rightarrow> jstring" where
  "js s = map of_char s"

definition js_wf :: "jstring \<Rightarrow> bool" where
  "js_wf s = list_all (\<lambda>c. c < 65536) s"

text \<open>
  What the modules throw. The client wire module and the registry throw \<open>TypeError\<close> with a
  message; the runtime itself throws \<open>RangeError\<close> (an invalid date) and \<open>SyntaxError\<close>; every
  other module has an error class that carries a code. \<open>Out_Of_Fuel\<close> is no JavaScript value:
  it marks a recursion bound of the model, and the development proves it is never returned.
\<close>

datatype js_error =
    Type_Error jstring
  | Range_Error
  | Syntax_Error
  | Wallet_Client_Error string
  | Wallet_Operation_Error string
  | Wallet_Origin_Error string
  | Wallet_Relay_Error
  | Sealed_Envelope_Error
  | Wallet_Random_Error string
  | Wallet_Storage_Error string
  | Remembered_Wallet_Error string
  | Relay_Error nat string string \<comment> \<open>of the relay service: status, code, message\<close>
  | HD_Wallet_Error nat string \<comment> \<open>of the native wrappers: code, message\<close>
  | Plain_Error string
  | Host_Error
  | Out_Of_Fuel

type_synonym 'a result = "js_error + 'a"

subsection \<open>Sequencing: results and guard lists\<close>

definition rbind :: "'e + 'a \<Rightarrow> ('a \<Rightarrow> 'e + 'b) \<Rightarrow> 'e + 'b" where
  "rbind m f = (case m of Inl e \<Rightarrow> Inl e | Inr x \<Rightarrow> f x)"

definition ensure :: "bool \<Rightarrow> 'e \<Rightarrow> 'e + unit" where
  "ensure b e = (if b then Inr () else Inl e)"

text \<open>
  \<open>checks cs k\<close> runs the guards in order; the first one that throws decides the outcome, and
  \<open>k\<close> is reached only when none does.
\<close>

fun checks :: "('e + unit) list \<Rightarrow> 'e + 'b \<Rightarrow> 'e + 'b" where
  "checks [] k = k"
| "checks (c # cs) k = (case c of Inl e \<Rightarrow> Inl e | Inr _ \<Rightarrow> checks cs k)"

definition is_ok :: "'e + 'a \<Rightarrow> bool" where
  "is_ok r = (case r of Inl _ \<Rightarrow> False | Inr _ \<Rightarrow> True)"

definition from_catch :: "'e \<Rightarrow> 'e + 'a \<Rightarrow> 'e + 'a" where
  \<comment> \<open>\<open>try { ... } catch { throw e }\<close>\<close>
  "from_catch e r = (case r of Inl _ \<Rightarrow> Inl e | Inr x \<Rightarrow> Inr x)"

fun mapM :: "('a \<Rightarrow> 'e + 'b) \<Rightarrow> 'a list \<Rightarrow> 'e + 'b list" where
  "mapM f [] = Inr []"
| "mapM f (x # xs) = rbind (f x) (\<lambda>y. rbind (mapM f xs) (\<lambda>ys. Inr (y # ys)))"

fun mapM_index :: "(nat \<Rightarrow> 'a \<Rightarrow> 'e + 'b) \<Rightarrow> nat \<Rightarrow> 'a list \<Rightarrow> 'e + 'b list" where
  \<comment> \<open>\<open>xs.map((x, index) => ...)\<close> with a callback that may throw\<close>
  "mapM_index f i [] = Inr []"
| "mapM_index f i (x # xs) = rbind (f i x) (\<lambda>y. rbind (mapM_index f (Suc i) xs) (\<lambda>ys. Inr (y # ys)))"

lemma rbind_simps [simp, result_simps]:
  "rbind (Inl e) f = Inl e" "rbind (Inr x) f = f x"
  by (simp_all add: rbind_def)

lemma rbind_Inr_iff [result_simps]: "rbind m f = Inr r \<longleftrightarrow> (\<exists>x. m = Inr x \<and> f x = Inr r)"
  by (cases m) simp_all

lemma rbind_InrE: "rbind m f = Inr r \<Longrightarrow> (\<And>x. m = Inr x \<Longrightarrow> f x = Inr r \<Longrightarrow> P) \<Longrightarrow> P"
  by (auto simp: rbind_Inr_iff)

lemma rbind_Inl_iff: "rbind m f = Inl e \<longleftrightarrow> m = Inl e \<or> (\<exists>x. m = Inr x \<and> f x = Inl e)"
  by (cases m) auto

lemma rbind_assoc: "rbind (rbind m f) g = rbind m (\<lambda>x. rbind (f x) g)"
  by (cases m) simp_all

lemma ensure_Inr_iff [simp, result_simps]: "ensure b e = Inr u \<longleftrightarrow> b"
  by (simp add: ensure_def)

lemma ensure_simps [simp, result_simps]: "ensure True e = Inr ()" "ensure False e = Inl e"
  by (simp_all add: ensure_def)

lemma is_ok_simps [simp, result_simps]: "is_ok (Inl e) = False" "is_ok (Inr x) = True"
  by (simp_all add: is_ok_def)

lemma is_ok_iff: "is_ok r \<longleftrightarrow> (\<exists>x. r = Inr x)"
  by (cases r) simp_all

lemma is_ok_ensure [simp, result_simps]: "is_ok (ensure b e) = b"
  by (simp add: ensure_def)

lemma is_ok_rbind: "is_ok (rbind m f) \<longleftrightarrow> (\<exists>x. m = Inr x \<and> is_ok (f x))"
  by (cases m) simp_all

lemma not_is_ok_iff: "\<not> is_ok r \<longleftrightarrow> (\<exists>e. r = Inl e)"
  by (cases r) simp_all

lemma checks_Inr_iff [result_simps]: "checks cs k = Inr r \<longleftrightarrow> list_all is_ok cs \<and> k = Inr r"
  by (induction cs) (auto simp: is_ok_def split: sum.splits)

lemma is_ok_checks: "is_ok (checks cs k) \<longleftrightarrow> list_all is_ok cs \<and> is_ok k"
  by (induction cs) (auto simp: is_ok_def split: sum.splits)

lemma checks_all_ok: "list_all is_ok cs \<Longrightarrow> checks cs k = k"
  by (induction cs) (auto simp: is_ok_def split: sum.splits)

lemma checks_append: "checks (cs @ ds) k = checks cs (checks ds k)"
  by (induction cs) (auto split: sum.splits)

lemma checks_Cons_ok [simp, result_simps]:
  "is_ok c \<Longrightarrow> checks (c # cs) k = checks cs k"
  by (auto simp: is_ok_iff)

lemma checks_Cons_Inl [simp, result_simps]: "checks (Inl e # cs) k = Inl e"
  by simp

lemma checks_ensure: "checks (ensure b e # cs) k = (if b then checks cs k else Inl e)"
  by (simp add: ensure_def)

declare checks.simps(2) [simp del]

lemma from_catch_Inr_iff [simp, result_simps]: "from_catch e r = Inr x \<longleftrightarrow> r = Inr x"
  by (cases r) (simp_all add: from_catch_def)

lemma is_ok_from_catch [simp, result_simps]: "is_ok (from_catch e r) = is_ok r"
  by (cases r) (simp_all add: from_catch_def)

lemma mapM_Inr_iff: "mapM f xs = Inr ys \<longleftrightarrow> list_all2 (\<lambda>x y. f x = Inr y) xs ys"
  by (induction xs arbitrary: ys) (auto simp: rbind_Inr_iff list_all2_Cons1)

lemma mapM_index_length: "mapM_index f i xs = Inr ys \<Longrightarrow> length ys = length xs"
  by (induction xs arbitrary: i ys) (auto simp: rbind_Inr_iff)

lemma mapM_index_nth:
  "mapM_index f i xs = Inr ys \<Longrightarrow> k < length xs \<Longrightarrow> f (i + k) (xs ! k) = Inr (ys ! k)"
proof (induction xs arbitrary: i ys k)
  case Nil
  then show ?case by simp
next
  case (Cons x xs)
  then obtain y zs where y: "f i x = Inr y" and zs: "mapM_index f (Suc i) xs = Inr zs"
    and ys: "ys = y # zs" by (auto simp: rbind_Inr_iff)
  show ?case
  proof (cases k)
    case 0
    then show ?thesis using y ys by simp
  next
    case (Suc m)
    with Cons.prems Cons.IH [OF zs, of m] ys show ?thesis by simp
  qed
qed

subsection \<open>String literals and lists\<close>

lemma js_eq_iff [simp]: "js s = js t \<longleftrightarrow> s = t"
  by (simp add: js_def inj_map_eq_map inj_on_def)

lemma js_Nil [simp]: "js [] = []" and js_Nil_iff [simp]: "js s = [] \<longleftrightarrow> s = []"
  and Nil_js_iff [simp]: "[] = js s \<longleftrightarrow> s = []"
  by (auto simp: js_def)

lemma js_append: "js (s @ t) = js s @ js t"
  by (simp add: js_def)

lemma length_js [simp]: "length (js s) = length s"
  by (simp add: js_def)

lemma of_char_less_256: "of_char c < (256::nat)"
  using of_char_eq_iff by (cases c) (simp add: of_char_def) 

lemma js_less_256: "c \<in> set (js s) \<Longrightarrow> c < 256"
  by (auto simp: js_def of_char_less_256)

lemma js_wf_js [simp]: "js_wf (js s)"
  unfolding js_wf_def list_all_iff using js_less_256 by fastforce

lemma js_wf_simps [simp]: "js_wf []" "js_wf (c # s) \<longleftrightarrow> c < 65536 \<and> js_wf s"
  "js_wf (s @ t) \<longleftrightarrow> js_wf s \<and> js_wf t"
  by (auto simp: js_wf_def)

text \<open>\<open>startsWith\<close>, \<open>endsWith\<close>, \<open>slice\<close>, \<open>join\<close>, as the sources call them.\<close>

definition starts_with :: "'a list \<Rightarrow> 'a list \<Rightarrow> bool" where
  "starts_with p s = (take (length p) s = p)"

definition ends_with :: "'a list \<Rightarrow> 'a list \<Rightarrow> bool" where
  "ends_with q s = (length q \<le> length s \<and> drop (length s - length q) s = q)"

fun join_with :: "'a \<Rightarrow> 'a list list \<Rightarrow> 'a list" where
  "join_with d [] = []"
| "join_with d [x] = x"
| "join_with d (x # y # xs) = x @ d # join_with d (y # xs)"

lemma starts_with_iff: "starts_with p s \<longleftrightarrow> (\<exists>t. s = p @ t)"
  unfolding starts_with_def by (metis append_eq_conv_conj append_take_drop_id)

lemma ends_with_iff: "ends_with q s \<longleftrightarrow> (\<exists>t. s = t @ q)"
proof
  assume "ends_with q s"
  then show "\<exists>t. s = t @ q" unfolding ends_with_def by (metis append_take_drop_id)
qed (auto simp: ends_with_def)

lemma length_join_with:
  "length (join_with d xs) = sum_list (map length xs) + (length xs - 1)"
  by (induction d xs rule: join_with.induct) auto

subsection \<open>Sorting by name\<close>

text \<open>The default \<open>sort\<close> of the sources compares strings by UTF-16 code units.\<close>

definition sort_names :: "jstring list \<Rightarrow> jstring list" where
  "sort_names = sort"

lemma set_sort_names [simp]: "set (sort_names xs) = set xs"
  and length_sort_names [simp]: "length (sort_names xs) = length xs"
  and distinct_sort_names [simp]: "distinct (sort_names xs) = distinct xs"
  and sorted_sort_names [simp]: "sorted (sort_names xs)"
  by (simp_all add: sort_names_def)

lemma sort_names_eq_iff:
  "distinct xs \<Longrightarrow> distinct ys \<Longrightarrow> sort_names xs = sort_names ys \<longleftrightarrow> set xs = set ys"
  unfolding sort_names_def
  by (metis distinct_sort set_sort sorted_distinct_set_unique sorted_sort)

lemma sum_list_length_sort [simp]: "sum_list (map length (sort_names xs)) = sum_list (map length xs)"
proof -
  have "mset (map length (sort xs)) = mset (map length xs)" by simp
  then show ?thesis unfolding sort_names_def by (metis sum_mset_sum_list)
qed

lemma join_with_subset_eq:
  assumes d: "distinct xs" "distinct ys" and sub: "set ys \<subseteq> set xs"
    and len: "length (join_with c (sort_names xs)) = length (join_with c (sort_names ys))"
    and ne: "ys \<noteq> []"
  shows "set xs = set ys"
proof (rule ccontr)
  assume "set xs \<noteq> set ys"
  with sub have lt: "set ys \<subset> set xs" by blast
  then have c: "length ys < length xs"
    using d by (metis List.finite_set distinct_card psubset_card_mono)
  have "sum_list (map length ys) = sum length (set ys)"
    using d(2) by (simp add: sum_list_distinct_conv_sum_set)
  also have "\<dots> \<le> sum length (set xs)" using sub by (intro sum_mono2) auto
  also have "\<dots> = sum_list (map length xs)"
    using d(1) by (simp add: sum_list_distinct_conv_sum_set)
  finally have "sum_list (map length ys) \<le> sum_list (map length xs)" .
  moreover have "sum_list (map length xs) + (length xs - 1) = sum_list (map length ys) + (length ys - 1)"
    using len by (simp add: length_join_with)
  moreover have "length ys \<noteq> 0" using ne by simp
  ultimately show False using c by arith
qed

end
