(* ===== verification/JsString.thy ===== *)
theory JsString
  imports Prelude
begin

section \<open>JavaScript strings: UTF-16, UTF-8, scalar values\<close>

text \<open>
  What the sources use of the string side of the runtime: surrogate pairs, \<open>TextEncoder\<close>,
  the fatal \<open>TextDecoder\<close>, and the scans the modules write themselves
  (\<open>validateUnicodeScalarString\<close> and \<open>byteEqual\<close> of client/wire.mjs, \<open>isWellFormed\<close> of
  origin-app/controller.mjs). The round trip of the two codecs and the fact that an ASCII
  string is determined by its UTF-8 bytes are proved here.
\<close>

subsection \<open>Surrogates and scalar values\<close>

definition is_high_surrogate :: "code_unit \<Rightarrow> bool" where
  "is_high_surrogate c \<longleftrightarrow> 0xd800 \<le> c \<and> c \<le> 0xdbff"

definition is_low_surrogate :: "code_unit \<Rightarrow> bool" where
  "is_low_surrogate c \<longleftrightarrow> 0xdc00 \<le> c \<and> c \<le> 0xdfff"

definition pair_scalar :: "code_unit \<Rightarrow> code_unit \<Rightarrow> nat" where
  "pair_scalar h l = 0x10000 + (h - 0xd800) * 1024 + (l - 0xdc00)"

definition is_scalar_value :: "nat \<Rightarrow> bool" where
  "is_scalar_value c \<longleftrightarrow> c < 0xd800 \<or> (0xe000 \<le> c \<and> c < 0x110000)"

definition is_noncharacter :: "nat \<Rightarrow> bool" where
  "is_noncharacter c \<longleftrightarrow> c mod 65536 = 0xfffe \<or> c mod 65536 = 0xffff \<or> (0xfdd0 \<le> c \<and> c \<le> 0xfdef)"

text \<open>No unpaired surrogate: the scan of \<open>isWellFormed\<close> and of the two relay JSON readers.\<close>

fun utf16_ok :: "jstring \<Rightarrow> bool" where
  "utf16_ok [] = True"
| "utf16_ok [c] = (\<not> is_high_surrogate c \<and> \<not> is_low_surrogate c)"
| "utf16_ok (c # d # ds) =
     (if is_high_surrogate c then is_low_surrogate d \<and> utf16_ok ds
      else \<not> is_low_surrogate c \<and> utf16_ok (d # ds))"

text \<open>The scalar values \<open>TextEncoder\<close> sees: an unpaired surrogate is replaced by U+FFFD.\<close>

fun usv_scalars :: "jstring \<Rightarrow> nat list" where
  "usv_scalars [] = []"
| "usv_scalars [c] = (if is_high_surrogate c \<or> is_low_surrogate c then [0xfffd] else [c])"
| "usv_scalars (c # d # ds) =
     (if is_high_surrogate c
      then (if is_low_surrogate d then pair_scalar c d # usv_scalars ds
            else 0xfffd # usv_scalars (d # ds))
      else (if is_low_surrogate c then 0xfffd else c) # usv_scalars (d # ds))"

text \<open>\<open>Array.from(value, (character) => character.codePointAt(0))\<close>.\<close>

fun code_points :: "jstring \<Rightarrow> nat list" where
  "code_points [] = []"
| "code_points [c] = [c]"
| "code_points (c # d # ds) =
     (if is_high_surrogate c \<and> is_low_surrogate d then pair_scalar c d # code_points ds
      else c # code_points (d # ds))"

definition utf16_scalar :: "nat \<Rightarrow> jstring" where
  "utf16_scalar c = (if c < 0x10000 then [c]
     else [0xd800 + (c - 0x10000) div 1024, 0xdc00 + (c - 0x10000) mod 1024])"

subsection \<open>The scalar-string guard of the wire module\<close>

definition unpaired_error :: "string \<Rightarrow> js_error" where
  "unpaired_error label = Type_Error (js (label @ '' contains an unpaired surrogate''))"

definition noncharacter_error :: "string \<Rightarrow> js_error" where
  "noncharacter_error label = Type_Error (js (label @ '' contains a Unicode noncharacter''))"

fun scan_scalars :: "string \<Rightarrow> jstring \<Rightarrow> unit result" where
  "scan_scalars label [] = Inr ()"
| "scan_scalars label [c] =
     (if is_high_surrogate c \<or> is_low_surrogate c then Inl (unpaired_error label)
      else if is_noncharacter c then Inl (noncharacter_error label)
      else Inr ())"
| "scan_scalars label (c # d # ds) =
     (if is_high_surrogate c
      then (if \<not> is_low_surrogate d then Inl (unpaired_error label)
            else if is_noncharacter (pair_scalar c d) then Inl (noncharacter_error label)
            else scan_scalars label ds)
      else if is_low_surrogate c then Inl (unpaired_error label)
      else if is_noncharacter c then Inl (noncharacter_error label)
      else scan_scalars label (d # ds))"

subsection \<open>\<open>TextEncoder\<close>, \<open>TextDecoder\<close>, \<open>byteEqual\<close>\<close>

definition byte_of :: "nat \<Rightarrow> byte" where
  "byte_of n = of_nat n"

definition utf8_scalar :: "nat \<Rightarrow> byte list" where
  "utf8_scalar c =
     (if c < 0x80 then [byte_of c]
      else if c < 0x800 then [byte_of (0xc0 + c div 64), byte_of (0x80 + c mod 64)]
      else if c < 0x10000
      then [byte_of (0xe0 + c div 4096), byte_of (0x80 + c div 64 mod 64), byte_of (0x80 + c mod 64)]
      else [byte_of (0xf0 + c div 262144), byte_of (0x80 + c div 4096 mod 64),
            byte_of (0x80 + c div 64 mod 64), byte_of (0x80 + c mod 64)])"

definition utf8_encode :: "jstring \<Rightarrow> byte list" where
  "utf8_encode s = concat (map utf8_scalar (usv_scalars s))"

definition is_continuation :: "nat \<Rightarrow> bool" where
  "is_continuation b \<longleftrightarrow> 0x80 \<le> b \<and> b \<le> 0xbf"

fun decode_scalars :: "nat list \<Rightarrow> nat list option" where
  "decode_scalars [] = Some []"
| "decode_scalars (a # bs) =
     (if a < 0x80 then map_option ((#) a) (decode_scalars bs)
      else if 0xc2 \<le> a \<and> a \<le> 0xdf
      then (case bs of
              b # bs' \<Rightarrow> if is_continuation b
                then map_option ((#) ((a - 0xc0) * 64 + (b - 0x80))) (decode_scalars bs') else None
            | _ \<Rightarrow> None)
      else if 0xe0 \<le> a \<and> a \<le> 0xef
      then (case bs of
              b # c # bs' \<Rightarrow>
                if is_continuation b \<and> is_continuation c \<and> (a = 0xe0 \<longrightarrow> 0xa0 \<le> b)
                   \<and> (a = 0xed \<longrightarrow> b \<le> 0x9f)
                then map_option ((#) ((a - 0xe0) * 4096 + (b - 0x80) * 64 + (c - 0x80)))
                       (decode_scalars bs') else None
            | _ \<Rightarrow> None)
      else if 0xf0 \<le> a \<and> a \<le> 0xf4
      then (case bs of
              b # c # d # bs' \<Rightarrow>
                if is_continuation b \<and> is_continuation c \<and> is_continuation d
                   \<and> (a = 0xf0 \<longrightarrow> 0x90 \<le> b) \<and> (a = 0xf4 \<longrightarrow> b \<le> 0x8f)
                then map_option ((#) ((a - 0xf0) * 262144 + (b - 0x80) * 4096
                       + (c - 0x80) * 64 + (d - 0x80))) (decode_scalars bs') else None
            | _ \<Rightarrow> None)
      else None)"

text \<open>The fatal decoder: \<open>None\<close> is its \<open>TypeError\<close>. A leading byte order mark is dropped.\<close>

definition text_decode :: "byte list \<Rightarrow> jstring option" where
  "text_decode bs = map_option (\<lambda>cs. concat (map utf16_scalar cs))
     (decode_scalars (map unat (if take 3 bs = [0xef, 0xbb, 0xbf] then drop 3 bs else bs)))"

definition byte_equal :: "byte list \<Rightarrow> byte list \<Rightarrow> bool" where
  "byte_equal l r \<longleftrightarrow> length l = length r
     \<and> fold (\<lambda>(a, b) difference. or difference (xor a b)) (zip l r) 0 = 0"

subsection \<open>Facts\<close>

lemma surrogate_disjoint: "is_high_surrogate c \<Longrightarrow> \<not> is_low_surrogate c"
  by (simp add: is_high_surrogate_def is_low_surrogate_def)

lemma scan_scalars_iff:
  "is_ok (scan_scalars label s) \<longleftrightarrow> utf16_ok s \<and> (\<forall>c\<in>set (code_points s). \<not> is_noncharacter c)"
  by (induction label s rule: scan_scalars.induct) (auto dest: surrogate_disjoint)

lemma scan_scalars_utf16_ok: "is_ok (scan_scalars label s) \<Longrightarrow> utf16_ok s"
  by (simp add: scan_scalars_iff)

lemma code_points_eq_usv: "utf16_ok s \<Longrightarrow> code_points s = usv_scalars s"
  by (induction s rule: utf16_ok.induct) auto

lemma pair_scalar_bounds:
  "is_high_surrogate h \<Longrightarrow> is_low_surrogate l \<Longrightarrow> 0x10000 \<le> pair_scalar h l \<and> pair_scalar h l < 0x110000"
  unfolding is_high_surrogate_def is_low_surrogate_def pair_scalar_def by auto

lemma utf16_pair_scalar:
  assumes "is_high_surrogate h" "is_low_surrogate l"
  shows "utf16_scalar (pair_scalar h l) = [h, l]"
proof -
  define i j where "i = h - 0xd800" and "j = l - 0xdc00"
  then have "h = 0xd800 + i" "l = 0xdc00 + j" "j < 1024"
    using assms unfolding is_high_surrogate_def is_low_surrogate_def by auto
  then show ?thesis by (simp add: utf16_scalar_def pair_scalar_def)
qed

lemma pair_scalar_valid:
  "is_high_surrogate h \<Longrightarrow> is_low_surrogate l \<Longrightarrow> is_scalar_value (pair_scalar h l)"
  using pair_scalar_bounds [of h l] by (simp add: is_scalar_value_def)

lemma unit_scalar_valid:
  "c < 65536 \<Longrightarrow> \<not> is_high_surrogate c \<Longrightarrow> \<not> is_low_surrogate c \<Longrightarrow> is_scalar_value c"
  unfolding is_scalar_value_def is_high_surrogate_def is_low_surrogate_def by auto

lemma replacement_valid [simp]: "is_scalar_value 65533"
  by (simp add: is_scalar_value_def)

lemma usv_scalars_valid: "js_wf s \<Longrightarrow> \<forall>c\<in>set (usv_scalars s). is_scalar_value c"
  by (induction s rule: usv_scalars.induct) (auto simp: pair_scalar_valid unit_scalar_valid)

lemma utf16_usv_scalars: "utf16_ok s \<Longrightarrow> js_wf s \<Longrightarrow> concat (map utf16_scalar (usv_scalars s)) = s"
proof (induction s rule: utf16_ok.induct)
  case (2 c)
  then show ?case by (simp add: utf16_scalar_def)
next
  case (3 c d ds)
  then show ?case by (auto simp: utf16_pair_scalar) (simp add: utf16_scalar_def)
qed simp

subsection \<open>The UTF-8 codec\<close>

lemma unat_byte_of: "n < 256 \<Longrightarrow> unat (byte_of n) = n"
  by (simp add: byte_of_def unat_of_nat take_bit_nat_eq_self)

lemma byte_of_unat [simp]: "byte_of (unat b) = b"
  by (simp add: byte_of_def)

lemma base64_digits:
  fixes c :: nat
  obtains q3 q2 q1 q0 where "c = ((q3 * 64 + q2) * 64 + q1) * 64 + q0"
    "q2 < 64" "q1 < 64" "q0 < 64" "c mod 64 = q0" "c div 64 mod 64 = q1" "c div 64 = (q3 * 64 + q2) * 64 + q1"
    "c div 4096 mod 64 = q2" "c div 4096 = q3 * 64 + q2" "c div 262144 = q3"
proof -
  have a: "c div 4096 = c div 64 div 64" "c div 262144 = c div 4096 div 64"
    by (simp_all add: div_mult2_eq [symmetric])
  have "c = ((c div 262144 * 64 + c div 4096 mod 64) * 64 + c div 64 mod 64) * 64 + c mod 64"
    by (simp only: a div_mult_mod_eq)
  moreover have "c div 64 = (c div 262144 * 64 + c div 4096 mod 64) * 64 + c div 64 mod 64"
    "c div 4096 = c div 262144 * 64 + c div 4096 mod 64"
    by (simp_all only: a div_mult_mod_eq)
  ultimately show thesis by (intro that [of "c div 262144" "c div 4096 mod 64" "c div 64 mod 64" "c mod 64"]) simp_all
qed

lemma decode_utf8_scalar:
  assumes "is_scalar_value c"
  shows "decode_scalars (map unat (utf8_scalar c) @ rest) = map_option ((#) c) (decode_scalars rest)"
proof -
  obtain q3 q2 q1 q0 where q: "c = ((q3 * 64 + q2) * 64 + q1) * 64 + q0" "q2 < 64" "q1 < 64" "q0 < 64"
    "c mod 64 = q0" "c div 64 mod 64 = q1" "c div 64 = (q3 * 64 + q2) * 64 + q1"
    "c div 4096 mod 64 = q2" "c div 4096 = q3 * 64 + q2" "c div 262144 = q3"
    by (rule base64_digits)
  have lin: "c = 262144 * q3 + 4096 * q2 + 64 * q1 + q0" using q(1) by simp
  have c: "c < 0xd800 \<or> (0xe000 \<le> c \<and> c < 0x110000)" using assms by (simp add: is_scalar_value_def)
  consider "c < 0x80" | "0x80 \<le> c" "c < 0x800" | "0x800 \<le> c" "c < 0x10000" | "0x10000 \<le> c" by linarith
  then show ?thesis
  proof cases
    case 1
    then show ?thesis by (simp add: utf8_scalar_def unat_byte_of)
  next
    case 2
    have "q3 < 1" using 2 lin q(2-4) by linarith
    moreover have "q2 < 1" using 2 lin q(2-4) by linarith
    ultimately have "q3 = 0" "q2 = 0" by simp_all
    moreover have "2 \<le> q1" using 2 lin q(2-4) calculation by linarith
    moreover have "q1 < 32" using 2 lin q(2-4) by linarith
    ultimately show ?thesis using 2 q by (simp add: utf8_scalar_def unat_byte_of is_continuation_def)
  next
    case 3
    have "q3 < 1" using 3 lin q(2-4) by linarith
    then have q3: "q3 = 0" by simp
    moreover have "q2 < 16" using 3 lin q(2-4) by linarith
    moreover have "q2 = 0 \<Longrightarrow> 32 \<le> q1" using 3 lin q(2-4) q3 by linarith
    moreover have "q2 = 13 \<Longrightarrow> q1 < 32" using c lin q(2-4) q3 by linarith
    ultimately show ?thesis using 3 q by (auto simp: utf8_scalar_def unat_byte_of is_continuation_def ac_simps)
  next
    case 4
    have "q3 < 5" using c lin q(2-4) by linarith
    moreover have "q3 = 0 \<Longrightarrow> 16 \<le> q2" using 4 lin q(2-4) by linarith
    moreover have "q3 = 4 \<Longrightarrow> q2 < 16" using c lin q(2-4) by linarith
    ultimately show ?thesis using 4 q by (auto simp: utf8_scalar_def unat_byte_of is_continuation_def ac_simps)
  qed
qed

lemma decode_utf8_scalars:
  "\<forall>c\<in>set cs. is_scalar_value c \<Longrightarrow> decode_scalars (map unat (concat (map utf8_scalar cs))) = Some cs"
  by (induction cs) (simp_all add: decode_utf8_scalar)

lemma text_decode_encode_scalars:
  assumes "js_wf s" "utf16_ok s" "take 3 (utf8_encode s) \<noteq> [0xef, 0xbb, 0xbf]"
  shows "text_decode (utf8_encode s) = Some s"
  using assms utf16_usv_scalars [of s] usv_scalars_valid [of s]
  by (simp add: text_decode_def utf8_encode_def decode_utf8_scalars)

subsection \<open>ASCII strings\<close>

definition is_ascii :: "jstring \<Rightarrow> bool" where
  "is_ascii s \<longleftrightarrow> list_all (\<lambda>c. c < 128) s"

lemma is_ascii_simps [simp]: "is_ascii []" "is_ascii (c # s) \<longleftrightarrow> c < 128 \<and> is_ascii s"
  "is_ascii (s @ t) \<longleftrightarrow> is_ascii s \<and> is_ascii t"
  by (auto simp: is_ascii_def)

lemma ascii_not_surrogate: "c < 128 \<Longrightarrow> \<not> is_high_surrogate c \<and> \<not> is_low_surrogate c"
  by (simp add: is_high_surrogate_def is_low_surrogate_def)

lemma usv_scalars_ascii: "is_ascii s \<Longrightarrow> usv_scalars s = s"
  by (induction s rule: usv_scalars.induct) (auto dest: ascii_not_surrogate)

lemma usv_scalars_ascii_rev: "\<forall>c\<in>set (usv_scalars s). c < 128 \<Longrightarrow> is_ascii s"
proof (induction s rule: usv_scalars.induct)
  case (3 c d ds)
  have "pair_scalar c d \<ge> 0x10000 \<or> \<not> is_high_surrogate c \<or> \<not> is_low_surrogate d"
    using pair_scalar_bounds by blast
  with 3 show ?case by (auto split: if_splits)
qed (auto split: if_splits)

lemma utf8_encode_ascii: "is_ascii s \<Longrightarrow> utf8_encode s = map byte_of s"
proof -
  assume a: "is_ascii s"
  then have "concat (map utf8_scalar s) = map byte_of s"
    by (induction s) (auto simp: utf8_scalar_def)
  with a show ?thesis by (simp add: utf8_encode_def usv_scalars_ascii)
qed

lemma map_unat_ascii: "is_ascii s \<Longrightarrow> map unat (map byte_of s) = s"
  by (induction s) (simp_all add: unat_byte_of)

lemma length_utf8_ascii [simp]: "is_ascii s \<Longrightarrow> length (utf8_encode s) = length s"
  by (simp add: utf8_encode_ascii)

lemma utf8_scalar_ascii_iff:
  "is_scalar_value c \<Longrightarrow> (\<forall>b\<in>set (utf8_scalar c). unat b < 128) \<longleftrightarrow> c < 128"
  by (auto simp: utf8_scalar_def unat_byte_of is_scalar_value_def)

lemma utf8_encode_eq_ascii:
  assumes t: "is_ascii t" and s: "js_wf s"
  shows "utf8_encode s = utf8_encode t \<longleftrightarrow> s = t"
proof
  assume eq: "utf8_encode s = utf8_encode t"
  have "\<forall>b\<in>set (utf8_encode t). unat b < 128"
    using t by (auto simp: utf8_encode_ascii is_ascii_def list_all_iff unat_byte_of)
  then have "\<forall>b\<in>set (utf8_encode s). unat b < 128" by (simp add: eq)
  then have "\<forall>c\<in>set (usv_scalars s). c < 128"
    using usv_scalars_valid [OF s] utf8_scalar_ascii_iff by (fastforce simp: utf8_encode_def)
  then have a: "is_ascii s" by (rule usv_scalars_ascii_rev)
  have "map unat (utf8_encode s) = s" "map unat (utf8_encode t) = t"
    using a t by (simp_all only: utf8_encode_ascii map_unat_ascii)
  with eq show "s = t" by metis
qed simp

lemma js_wf_sort_names: "list_all js_wf xs \<Longrightarrow> list_all js_wf (sort_names xs)"
  by (simp add: list_all_iff)

lemma js_wf_join: "d < 65536 \<Longrightarrow> js_wf (join_with d xs) \<longleftrightarrow> list_all js_wf xs"
  by (induction d xs rule: join_with.induct) auto

lemma is_ascii_join: "d < 128 \<Longrightarrow> is_ascii (join_with d xs) \<longleftrightarrow> list_all is_ascii xs"
  by (induction d xs rule: join_with.induct) auto

lemma xor_byte_zero: "xor a b = 0 \<longleftrightarrow> a = (b :: byte)"
proof
  assume "xor a b = 0"
  then have "xor (xor a b) b = xor 0 b" by simp
  then show "a = b" by (simp add: xor.assoc)
qed simp

lemma fold_or_zero:
  "fold (\<lambda>(a, b) difference. or difference (xor a b)) ps (d :: byte) = 0
     \<longleftrightarrow> d = 0 \<and> (\<forall>(a, b)\<in>set ps. a = b)"
proof (induction ps arbitrary: d)
  case (Cons p ps)
  then show ?case by (cases p) (auto simp: or_eq_0_iff xor_byte_zero)
qed simp

lemma byte_equal_iff: "byte_equal l r \<longleftrightarrow> l = r"
proof
  assume "byte_equal l r"
  then have len: "length l = length r" and eq: "\<forall>(a, b)\<in>set (zip l r). a = b"
    by (simp_all add: byte_equal_def fold_or_zero)
  from len eq show "l = r" by (induction l r rule: list_induct2) auto
next
  have "\<forall>(a, b)\<in>set (zip l l). a = b" by (induction l) auto
  moreover assume "l = r"
  ultimately show "byte_equal l r" by (simp add: byte_equal_def fold_or_zero)
qed

end
