(* ===== verification/JsNumber.thy ===== *)
theory JsNumber
  imports JsString
begin

section \<open>JavaScript numbers\<close>

text \<open>
  IEEE double precision values as exact rationals. A finite number other than minus zero is
  \<open>Fin x\<close> with \<open>x\<close> a dyadic rational that \<open>round_double\<close> leaves unchanged; the arithmetic the
  sources use rounds to nearest, ties to even, with gradual underflow and overflow to an
  infinity. \<open>Number(text)\<close> reads the decimal literals of the JSON grammar;
  \<open>num_to_string\<close> is \<open>Number::toString\<close>, the shortest digits that read back.
\<close>

datatype jnum = NaN | Pos_Infinity | Neg_Infinity | Neg_Zero | Fin rat

subsection \<open>Rounding\<close>

fun nat_log2 :: "nat \<Rightarrow> nat" where
  "nat_log2 n = (if n < 2 then 0 else Suc (nat_log2 (n div 2)))"

declare nat_log2.simps [simp del]

definition pow2 :: "int \<Rightarrow> rat" where
  "pow2 e = (if 0 \<le> e then 2 ^ nat e else 1 / 2 ^ nat (- e))"

definition rat_log2 :: "rat \<Rightarrow> int" where
  \<comment> \<open>for \<open>0 < x\<close>: the \<open>e\<close> with \<open>pow2 e \<le> x < pow2 (e + 1)\<close>\<close>
  "rat_log2 x = (case quotient_of x of (p, q) \<Rightarrow>
     let e = int (nat_log2 (nat p)) - int (nat_log2 (nat q))
     in if pow2 e \<le> x then e else e - 1)"

definition round_half_even :: "rat \<Rightarrow> int" where
  "round_half_even x = (let f = \<lfloor>x\<rfloor>; d = x - of_int f
     in if d < 1 / 2 then f else if 1 / 2 < d then f + 1 else if even f then f else f + 1)"

definition round_pos :: "rat \<Rightarrow> rat" where
  \<comment> \<open>the nearest multiple of the unit in the last place; 53 significant bits, exponent at least \<open>-1074\<close>\<close>
  "round_pos x = (let e = max (- 1074) (rat_log2 x - 52)
     in of_int (round_half_even (x / pow2 e)) * pow2 e)"

definition round_double :: "rat \<Rightarrow> jnum" where
  "round_double x =
     (if x = 0 then Fin 0
      else if 0 < x
      then (let y = round_pos x in if pow2 1024 \<le> y then Pos_Infinity else Fin y)
      else (let y = round_pos (- x) in
              if pow2 1024 \<le> y then Neg_Infinity else if y = 0 then Neg_Zero else Fin (- y)))"

definition is_double :: "rat \<Rightarrow> bool" where
  "is_double x \<longleftrightarrow> round_double x = Fin x"

subsection \<open>Comparison and arithmetic, as the sources use them\<close>

definition num_real :: "jnum \<Rightarrow> rat" where
  "num_real n = (case n of Fin x \<Rightarrow> x | _ \<Rightarrow> 0)"

definition num_is_finite :: "jnum \<Rightarrow> bool" where
  "num_is_finite n = (case n of Fin _ \<Rightarrow> True | Neg_Zero \<Rightarrow> True | _ \<Rightarrow> False)"

definition num_eq :: "jnum \<Rightarrow> jnum \<Rightarrow> bool" where
  \<comment> \<open>\<open>===\<close>: \<open>NaN\<close> equals nothing, the two zeros are equal\<close>
  "num_eq a b = (if num_is_finite a \<and> num_is_finite b then num_real a = num_real b
     else a = b \<and> a \<noteq> NaN)"

definition num_less :: "jnum \<Rightarrow> jnum \<Rightarrow> bool" where
  "num_less a b =
     (if a = NaN \<or> b = NaN then False
      else if a = b then False
      else if a = Neg_Infinity \<or> b = Pos_Infinity then True
      else if a = Pos_Infinity \<or> b = Neg_Infinity then False
      else num_real a < num_real b)"

definition num_le :: "jnum \<Rightarrow> jnum \<Rightarrow> bool" where
  "num_le a b \<longleftrightarrow> num_less a b \<or> num_eq a b"

definition num_is_integer :: "jnum \<Rightarrow> bool" where
  "num_is_integer n = (num_is_finite n \<and> of_int \<lfloor>num_real n\<rfloor> = num_real n)"

definition num_is_safe_integer :: "jnum \<Rightarrow> bool" where
  "num_is_safe_integer n \<longleftrightarrow> num_is_integer n \<and> \<bar>num_real n\<bar> \<le> 9007199254740991"

definition num_abs :: "jnum \<Rightarrow> jnum" where
  "num_abs n = (case n of NaN \<Rightarrow> NaN | Pos_Infinity \<Rightarrow> Pos_Infinity | Neg_Infinity \<Rightarrow> Pos_Infinity
     | Neg_Zero \<Rightarrow> Fin 0 | Fin x \<Rightarrow> Fin \<bar>x\<bar>)"

definition num_minus_one :: "jnum \<Rightarrow> jnum" where
  \<comment> \<open>\<open>n - 1\<close>\<close>
  "num_minus_one n = (if num_is_finite n then round_double (num_real n - 1) else n)"

subsection \<open>Decimal literals: the number token of the JSON grammar\<close>

definition is_digit :: "code_unit \<Rightarrow> bool" where
  "is_digit c \<longleftrightarrow> 48 \<le> c \<and> c \<le> 57"

definition digits_value :: "jstring \<Rightarrow> nat" where
  "digits_value ds = foldl (\<lambda>a c. 10 * a + (c - 48)) 0 ds"

definition pow10 :: "int \<Rightarrow> rat" where
  "pow10 e = (if 0 \<le> e then 10 ^ nat e else 1 / 10 ^ nat (- e))"

text \<open>
  The pieces of \<open>-?(?:0|[1-9]\d*)(?:\.\d+)?(?:[eE][+-]?\d+)?\<close> matched at the start of a text.
\<close>

definition integer_part :: "jstring \<Rightarrow> (jstring \<times> jstring) option" where
  "integer_part s = (case s of
       [] \<Rightarrow> None
     | c # cs \<Rightarrow> if c = 48 then Some ([c], cs)
         else if is_digit c then Some (c # takeWhile is_digit cs, dropWhile is_digit cs) else None)"

definition fraction_part :: "jstring \<Rightarrow> jstring \<times> jstring" where
  "fraction_part s = (case s of
       [] \<Rightarrow> ([], s)
     | c # cs \<Rightarrow> if c = 46 \<and> takeWhile is_digit cs \<noteq> []
         then (takeWhile is_digit cs, dropWhile is_digit cs) else ([], s))"

definition exponent_digits :: "jstring \<Rightarrow> (int \<times> jstring) option" where
  "exponent_digits s = (case s of
       [] \<Rightarrow> None
     | c # cs \<Rightarrow>
         let neg = (c = 45); body = (if c = 43 \<or> c = 45 then cs else s)
         in if takeWhile is_digit body = [] then None
            else Some (let v = int (digits_value (takeWhile is_digit body)) in if neg then - v else v,
                       dropWhile is_digit body))"

definition exponent_part :: "jstring \<Rightarrow> int \<times> jstring" where
  "exponent_part s = (case s of
       [] \<Rightarrow> (0, s)
     | c # cs \<Rightarrow> if c = 101 \<or> c = 69
         then (case exponent_digits cs of None \<Rightarrow> (0, s) | Some r \<Rightarrow> r) else (0, s))"

definition signed_double :: "bool \<Rightarrow> rat \<Rightarrow> jnum" where
  "signed_double neg x = (if neg then (if x = 0 then Neg_Zero else round_double (- x)) else round_double x)"

definition scan_unsigned :: "bool \<Rightarrow> jstring \<Rightarrow> (jnum \<times> jstring) option" where
  "scan_unsigned neg s = (case integer_part s of
       None \<Rightarrow> None
     | Some (ip, s1) \<Rightarrow>
         (case fraction_part s1 of (fp, s2) \<Rightarrow>
         (case exponent_part s2 of (e, s3) \<Rightarrow>
            Some (signed_double neg (of_nat (digits_value (ip @ fp)) * pow10 (e - int (length fp))), s3))))"

definition scan_number :: "jstring \<Rightarrow> (jnum \<times> jstring) option" where
  "scan_number s = (case s of
       [] \<Rightarrow> None
     | c # cs \<Rightarrow> if c = 45 then scan_unsigned True cs else scan_unsigned False s)"

subsection \<open>\<open>Number::toString\<close>\<close>

fun decimal_digits :: "nat \<Rightarrow> jstring" where
  "decimal_digits n = (if n < 10 then [48 + n] else decimal_digits (n div 10) @ [48 + n mod 10])"

declare decimal_digits.simps [simp del]

definition rat_exp10 :: "rat \<Rightarrow> int" where
  \<comment> \<open>for \<open>0 < x\<close>: the \<open>n\<close> with \<open>10 ^ (n - 1) \<le> x < 10 ^ n\<close>\<close>
  "rat_exp10 x = (if 1 \<le> x then int (length (decimal_digits (nat \<lfloor>x\<rfloor>)))
     else 1 - int (length (decimal_digits (nat (\<lceil>1 / x\<rceil> - 1)))))"

definition digit_candidate :: "rat \<Rightarrow> int \<Rightarrow> nat \<Rightarrow> (nat \<times> nat \<times> int) option" where
  \<comment> \<open>\<open>k\<close> digits that read back as \<open>x\<close>, the closer of the two neighbours first\<close>
  "digit_candidate x n k =
     (let y = x * pow10 (int k - n); lo = \<lfloor>y\<rfloor>; hi = lo + 1;
          reads = (\<lambda>c. round_double (of_int c * pow10 (n - int k)) = Fin x);
          order = (if y - of_int lo \<le> of_int hi - y then [lo, hi] else [hi, lo])
      in map_option (\<lambda>c. if c = 10 ^ k then (1, 1, n + 1) else (nat c, k, n)) (List.find reads order))"

definition shortest_digits :: "rat \<Rightarrow> nat \<times> nat \<times> int" where
  "shortest_digits x = (let n = rat_exp10 x in
     case List.find (\<lambda>k. digit_candidate x n k \<noteq> None) [1..<18] of
       None \<Rightarrow> (nat \<lfloor>x * pow10 (17 - n)\<rfloor>, 17, n)
     | Some k \<Rightarrow> the (digit_candidate x n k))"

definition format_digits :: "jstring \<Rightarrow> nat \<Rightarrow> int \<Rightarrow> jstring" where
  "format_digits ds k n =
     (if int k \<le> n \<and> n \<le> 21 then ds @ replicate (nat n - k) 48
      else if 0 < n \<and> n \<le> 21 then take (nat n) ds @ [46] @ drop (nat n) ds
      else if - 6 < n \<and> n \<le> 0 then [48, 46] @ replicate (nat (- n)) 48 @ ds
      else take 1 ds @ (if k = 1 then [] else 46 # drop 1 ds) @ [101]
             @ (if 0 < n - 1 then 43 else 45) # decimal_digits (nat \<bar>n - 1\<bar>))"

definition positive_to_string :: "rat \<Rightarrow> jstring" where
  "positive_to_string x = (case shortest_digits x of (s, k, n) \<Rightarrow> format_digits (decimal_digits s) k n)"

definition num_to_string :: "jnum \<Rightarrow> jstring" where
  "num_to_string v = (case v of
       NaN \<Rightarrow> js ''NaN'' | Pos_Infinity \<Rightarrow> js ''Infinity'' | Neg_Infinity \<Rightarrow> js ''-Infinity''
     | Neg_Zero \<Rightarrow> js ''0''
     | Fin x \<Rightarrow> if x = 0 then js ''0'' else if x < 0 then 45 # positive_to_string (- x)
                else positive_to_string x)"

end
