(* ===== verification/JsValue.thy ===== *)
theory JsValue
  imports JsNumber
begin

section \<open>JavaScript values\<close>

text \<open>
  The values a validator can be handed: not only parsed JSON but any object of the page. An
  object is its prototype, its own string-named properties with their descriptors and the number
  of its symbol-named ones; an array adds its index slots (\<open>None\<close> is a hole), a typed array its
  bytes and the brand of its buffer. Reading a property through a getter is host code: the model
  reads it as \<open>undefined\<close>, and every validator of the sources that reads a field has refused
  accessors first. Proxies and the writable and configurable attributes are not represented.
\<close>

datatype proto = Object_Prototype | Null_Prototype | Array_Prototype | Other_Prototype

datatype buffer_kind = Array_Buffer | Shared_Array_Buffer | Foreign_Buffer

datatype jval =
    JUndefined
  | JNull
  | JBool bool
  | JNum jnum
  | JStr jstring
  | JSymbol
  | JFunction
  | JArr proto "jprop option list" "(jstring \<times> jprop) list" nat
  | JObj proto "(jstring \<times> jprop) list" nat
  | JBytes bool "byte list" "(jstring \<times> jprop) list" nat buffer_kind
      \<comment> \<open>the flag: its prototype is \<open>Uint8Array.prototype\<close>\<close>
and jprop =
    Data bool jval \<comment> \<open>the flag: enumerable\<close>
  | Accessor bool

definition jdata :: "jval \<Rightarrow> jprop" where
  "jdata v = Data True v"

definition jarr :: "jval list \<Rightarrow> jval" where
  "jarr vs = JArr Array_Prototype (map (\<lambda>v. Some (jdata v)) vs) [] 0"

definition jobj :: "(jstring \<times> jval) list \<Rightarrow> jval" where
  "jobj kvs = JObj Object_Prototype (map (\<lambda>(k, v). (k, jdata v)) kvs) 0"

definition jnull_obj :: "(jstring \<times> jval) list \<Rightarrow> jval" where
  \<comment> \<open>\<open>Object.create(null)\<close> filled by assignment\<close>
  "jnull_obj kvs = JObj Null_Prototype (map (\<lambda>(k, v). (k, jdata v)) kvs) 0"

definition jbytes :: "byte list \<Rightarrow> jval" where
  "jbytes bs = JBytes True bs [] 0 Array_Buffer"

definition jint :: "int \<Rightarrow> jval" where
  "jint n = JNum (Fin (of_int n))"

definition jlit :: "string \<Rightarrow> jval" where
  "jlit s = JStr (js s)"

subsection \<open>Own properties\<close>

definition index_key :: "nat \<Rightarrow> jstring" where
  "index_key i = decimal_digits i"

fun slot_props :: "nat \<Rightarrow> jprop option list \<Rightarrow> (jstring \<times> jprop) list" where
  "slot_props i [] = []"
| "slot_props i (None # xs) = slot_props (Suc i) xs"
| "slot_props i (Some p # xs) = (index_key i, p) # slot_props (Suc i) xs"

definition own_props :: "jval \<Rightarrow> (jstring \<times> jprop) list" where
  "own_props v = (case v of
       JObj _ ps _ \<Rightarrow> ps
     | JArr _ xs ps _ \<Rightarrow> slot_props 0 xs @ (js ''length'', Data False (jint (int (length xs)))) # ps
     | JBytes _ bs ps _ _ \<Rightarrow> slot_props 0 (map (\<lambda>b. Some (jdata (jint (uint b)))) bs) @ ps
     | _ \<Rightarrow> [])"

definition own_symbols :: "jval \<Rightarrow> nat" where
  "own_symbols v = (case v of JObj _ _ n \<Rightarrow> n | JArr _ _ _ n \<Rightarrow> n | JBytes _ _ _ n _ \<Rightarrow> n | _ \<Rightarrow> 0)"

definition own_names :: "jval \<Rightarrow> jstring list" where
  "own_names v = map fst (own_props v)"

definition prop_value :: "jprop \<Rightarrow> jval" where
  "prop_value p = (case p of Data _ v \<Rightarrow> v | Accessor _ \<Rightarrow> JUndefined)"

definition field :: "jval \<Rightarrow> jstring \<Rightarrow> jval" where
  \<comment> \<open>\<open>value[name]\<close> for an own data property; \<open>undefined\<close> otherwise\<close>
  "field v name = (case map_of (own_props v) name of None \<Rightarrow> JUndefined | Some p \<Rightarrow> prop_value p)"

definition fld :: "jval \<Rightarrow> string \<Rightarrow> jval" where
  "fld v name = field v (js name)"

definition is_plain_data :: "jprop \<Rightarrow> bool" where
  \<comment> \<open>an enumerable data property whose value is not \<open>undefined\<close>\<close>
  "is_plain_data p = (case p of Data e v \<Rightarrow> e \<and> v \<noteq> JUndefined | Accessor _ \<Rightarrow> False)"

definition is_object_record :: "jval \<Rightarrow> bool" where
  "is_object_record v = (case v of
       JObj p _ _ \<Rightarrow> p = Object_Prototype \<or> p = Null_Prototype
     | _ \<Rightarrow> False)"

definition is_array :: "jval \<Rightarrow> bool" where
  "is_array v = (case v of JArr _ _ _ _ \<Rightarrow> True | _ \<Rightarrow> False)"

definition array_slots :: "jval \<Rightarrow> jprop option list" where
  "array_slots v = (case v of JArr _ xs _ _ \<Rightarrow> xs | _ \<Rightarrow> [])"

definition array_values :: "jval \<Rightarrow> jval list" where
  "array_values v = map (\<lambda>s. case s of None \<Rightarrow> JUndefined | Some p \<Rightarrow> prop_value p) (array_slots v)"

text \<open>\<open>===\<close> against a primitive value. Two objects are never compared by the sources this way.\<close>

definition strict_eq :: "jval \<Rightarrow> jval \<Rightarrow> bool" where
  "strict_eq a b = (case (a, b) of
       (JNum x, JNum y) \<Rightarrow> num_eq x y
     | (JStr s, JStr t) \<Rightarrow> s = t
     | (JBool x, JBool y) \<Rightarrow> x = y
     | (JNull, JNull) \<Rightarrow> True
     | (JUndefined, JUndefined) \<Rightarrow> True
     | _ \<Rightarrow> False)"

text \<open>A property list never names a property twice: the invariant of every value of the runtime.\<close>

fun jval_wf :: "jval \<Rightarrow> bool" and jprop_wf :: "jprop \<Rightarrow> bool" where
  "jval_wf (JObj p ps n) = (distinct (map fst ps) \<and> list_all (\<lambda>(k, p). js_wf k \<and> jprop_wf p) ps)"
| "jval_wf (JArr p xs ps n) =
     (distinct (map fst ps) \<and> list_all (\<lambda>(k, p). js_wf k \<and> jprop_wf p) ps
      \<and> list_all (\<lambda>s. case s of None \<Rightarrow> True | Some p \<Rightarrow> jprop_wf p) xs)"
| "jval_wf (JStr s) = js_wf s"
| "jval_wf _ = True"
| "jprop_wf (Data e v) = jval_wf v"
| "jprop_wf (Accessor e) = True"

subsection \<open>\<open>frozenRecord\<close>\<close>

text \<open>
  client/wire.mjs builds its results by sorting the entries by name and freezing a plain object.
\<close>

definition frozen_record :: "(string \<times> jval) list \<Rightarrow> jval" where
  "frozen_record entries = jobj (sort_key fst (map (\<lambda>(k, v). (js k, v)) entries))"

subsection \<open>Facts\<close>

lemma strict_eq_lit [simp]:
  "strict_eq v (JStr s) \<longleftrightarrow> v = JStr s"
  "strict_eq v JNull \<longleftrightarrow> v = JNull"
  "strict_eq v (JBool b) \<longleftrightarrow> v = JBool b"
  "strict_eq v JUndefined \<longleftrightarrow> v = JUndefined"
  by (auto simp: strict_eq_def split: jval.splits)

lemma strict_eq_num: "strict_eq v (JNum n) \<longleftrightarrow> (\<exists>m. v = JNum m \<and> num_eq m n)"
  by (auto simp: strict_eq_def split: jval.splits)

lemma num_eq_nonzero: "x \<noteq> 0 \<Longrightarrow> num_eq m (Fin x) \<longleftrightarrow> m = Fin x"
  by (cases m) (auto simp: num_eq_def num_is_finite_def num_real_def)

lemma num_eq_zero: "num_eq m (Fin 0) \<longleftrightarrow> m = Fin 0 \<or> m = Neg_Zero"
  by (cases m) (auto simp: num_eq_def num_is_finite_def num_real_def)

lemma strict_eq_jint: "n \<noteq> 0 \<Longrightarrow> strict_eq v (jint n) \<longleftrightarrow> v = jint n"
  by (auto simp: jint_def strict_eq_num num_eq_nonzero)

lemma own_props_jobj [simp]: "own_props (jobj kvs) = map (\<lambda>(k, v). (k, jdata v)) kvs"
  by (simp add: own_props_def jobj_def)

lemma own_names_jobj [simp]: "own_names (jobj kvs) = map fst kvs"
  by (simp add: own_names_def case_prod_beta comp_def)

lemma field_jobj: "field (jobj kvs) k = (case map_of kvs k of None \<Rightarrow> JUndefined | Some v \<Rightarrow> v)"
proof -
  have "map_of (map (\<lambda>(k, v). (k, jdata v)) kvs) k = map_option jdata (map_of kvs k)"
    by (induction kvs) auto
  then show ?thesis by (simp add: field_def prop_value_def jdata_def split: option.splits)
qed

lemma distinct_fst_sort_key [simp]:
  "distinct (map fst (sort_key fst kvs)) = distinct (map fst (kvs :: ('a::linorder \<times> 'b) list))"
proof -
  have "mset (map fst (sort_key fst kvs)) = mset (map fst kvs)" by (simp only: mset_map mset_sort)
  then show ?thesis by (rule mset_eq_imp_distinct_iff)
qed

lemma map_of_sort_key:
  fixes kvs :: "('a::linorder \<times> 'b) list"
  assumes "distinct (map fst kvs)"
  shows "map_of (sort_key fst kvs) = map_of kvs"
proof
  fix k
  have "\<And>v. map_of (sort_key fst kvs) k = Some v \<longleftrightarrow> map_of kvs k = Some v"
    using assms by (simp flip: Some_eq_map_of_iff add: eq_commute) (simp add: Some_eq_map_of_iff)
  then show "map_of (sort_key fst kvs) k = map_of kvs k" by (metis option.exhaust)
qed

lemma fld_frozen_record:
  assumes "distinct (map fst entries)"
  shows "fld (frozen_record entries) k = (case map_of entries k of None \<Rightarrow> JUndefined | Some v \<Rightarrow> v)"
proof -
  let ?kvs = "map (\<lambda>(k, v). (js k, v)) entries"
  have "map fst ?kvs = map js (map fst entries)" by (simp add: case_prod_beta comp_def)
  then have "distinct (map fst ?kvs)" using assms by (simp add: distinct_map inj_on_def)
  then have "map_of (sort_key fst ?kvs) (js k) = map_of ?kvs (js k)" by (simp add: map_of_sort_key)
  also have "\<dots> = map_of entries k" by (induction entries) auto
  finally show ?thesis by (simp add: fld_def frozen_record_def field_jobj)
qed

lemma set_own_names_frozen_record [simp]:
  "set (own_names (frozen_record entries)) = js ` set (map fst entries)"
  by (force simp: frozen_record_def)

lemma is_object_record_jobj [simp]: "is_object_record (jobj kvs)"
  and is_object_record_frozen [simp]: "is_object_record (frozen_record entries)"
  by (simp_all add: is_object_record_def jobj_def frozen_record_def)

end
