(* ===== verification/JsonText.thy ===== *)
theory JsonText
  imports JsValue
begin

section \<open>The strict JSON readers and the canonical writer\<close>

text \<open>
  \<open>parseJsonWithoutDuplicates\<close> exists three times in the repository (client/wire.mjs,
  client/relay-client.mjs, origin-app/relay.mjs), with the same grammar and other errors and
  string checks; \<open>canonicalJson\<close> three times as well (client/wire.mjs, origin-app/registry.mjs,
  origin-app/operations.mjs). Each copy is an instance of one reader or writer over a dialect
  that holds what differs. The offset into the text is the remaining suffix; the token counter
  is threaded; the two loops carry fuel, and \<open>JsonFacts\<close> proves that it never runs out.
\<close>

subsection \<open>String literals: \<open>JSON.stringify\<close> and \<open>JSON.parse\<close>\<close>

definition hex_digit :: "nat \<Rightarrow> code_unit" where
  "hex_digit d = (if d < 10 then 48 + d else 87 + d)"

definition hex_value :: "code_unit \<Rightarrow> nat option" where
  "hex_value c = (if 48 \<le> c \<and> c \<le> 57 then Some (c - 48)
     else if 97 \<le> c \<and> c \<le> 102 then Some (c - 87)
     else if 65 \<le> c \<and> c \<le> 70 then Some (c - 55) else None)"

definition unicode_escape :: "code_unit \<Rightarrow> jstring" where
  "unicode_escape c = [92, 117, hex_digit (c div 4096), hex_digit (c div 256 mod 16),
                       hex_digit (c div 16 mod 16), hex_digit (c mod 16)]"

definition quote_unit :: "code_unit \<Rightarrow> jstring" where
  "quote_unit c =
     (if c = 34 then [92, 34] else if c = 92 then [92, 92]
      else if c = 8 then [92, 98] else if c = 12 then [92, 102]
      else if c = 10 then [92, 110] else if c = 13 then [92, 114] else if c = 9 then [92, 116]
      else if c < 32 \<or> is_high_surrogate c \<or> is_low_surrogate c then unicode_escape c
      else [c])"

fun quote_body :: "jstring \<Rightarrow> jstring" where
  "quote_body [] = []"
| "quote_body [c] = quote_unit c"
| "quote_body (c # d # ds) =
     (if is_high_surrogate c \<and> is_low_surrogate d then c # d # quote_body ds
      else quote_unit c @ quote_body (d # ds))"

definition json_quote :: "jstring \<Rightarrow> jstring" where
  "json_quote s = [34] @ quote_body s @ [34]"

definition escape_value :: "code_unit \<Rightarrow> code_unit option" where
  "escape_value c = (if c = 34 \<or> c = 92 \<or> c = 47 then Some c
     else if c = 98 then Some 8 else if c = 102 then Some 12
     else if c = 110 then Some 10 else if c = 114 then Some 13 else if c = 116 then Some 9 else None)"

definition hex4 :: "code_unit \<Rightarrow> code_unit \<Rightarrow> code_unit \<Rightarrow> code_unit \<Rightarrow> nat option" where
  "hex4 a b c d = (case (hex_value a, hex_value b, hex_value c, hex_value d) of
       (Some w, Some x, Some y, Some z) \<Rightarrow> Some (4096 * w + 256 * x + 16 * y + z)
     | _ \<Rightarrow> None)"

text \<open>\<open>JSON.parse\<close> of a string literal, given the text between its quotes; \<open>None\<close> is its throw.\<close>

fun unescape :: "jstring \<Rightarrow> jstring option" where
  "unescape [] = Some []"
| "unescape (c # cs) =
     (if c = 92
      then (case cs of
              [] \<Rightarrow> None
            | e # es \<Rightarrow>
                if e = 117
                then (case es of
                        h1 # h2 # h3 # h4 # rest \<Rightarrow>
                          (case hex4 h1 h2 h3 h4 of
                             None \<Rightarrow> None
                           | Some u \<Rightarrow> map_option ((#) u) (unescape rest))
                      | _ \<Rightarrow> None)
                else (case escape_value e of
                        None \<Rightarrow> None
                      | Some u \<Rightarrow> map_option ((#) u) (unescape es)))
      else if c = 34 \<or> c < 32 then None
      else map_option ((#) c) (unescape cs))"

subsection \<open>The readers\<close>

record json_dialect =
  json_error :: "jstring \<Rightarrow> js_error"     \<comment> \<open>the error the copy throws, from its message\<close>
  string_guard :: "jstring \<Rightarrow> unit result" \<comment> \<open>its check of a decoded string\<close>

definition is_json_space :: "code_unit \<Rightarrow> bool" where
  "is_json_space c \<longleftrightarrow> c = 9 \<or> c = 10 \<or> c = 13 \<or> c = 32"

definition skip_space :: "jstring \<Rightarrow> jstring" where
  "skip_space s = dropWhile is_json_space s"

text \<open>The loop of \<open>parseString\<close> from behind the opening quote: the literal's body and the rest.\<close>

fun scan_string :: "json_dialect \<Rightarrow> jstring \<Rightarrow> (jstring \<times> jstring) result" where
  "scan_string d [] = Inl (json_error d (js ''unterminated JSON string''))"
| "scan_string d (c # cs) =
     (if c = 34 then Inr ([], cs)
      else if c < 32 then Inl (json_error d (js ''invalid JSON control character''))
      else if c = 92
      then (case cs of
              [] \<Rightarrow> Inl (json_error d (js ''unterminated JSON escape''))
            | e # es \<Rightarrow> rbind (scan_string d es) (\<lambda>(b, r). Inr (c # e # b, r)))
      else rbind (scan_string d cs) (\<lambda>(b, r). Inr (c # b, r)))"

definition parse_string :: "json_dialect \<Rightarrow> jstring \<Rightarrow> (jstring \<times> jstring) result" where
  "parse_string d s = (case s of
       [] \<Rightarrow> Inl (json_error d (js ''invalid JSON string''))
     | c # cs \<Rightarrow>
         if c \<noteq> 34 then Inl (json_error d (js ''invalid JSON string''))
         else rbind (scan_string d cs) (\<lambda>(b, r).
           case unescape b of
             None \<Rightarrow> Inl (json_error d (js ''invalid JSON string''))
           | Some v \<Rightarrow> rbind (string_guard d v) (\<lambda>_. Inr (v, r))))"

definition parse_literal :: "json_dialect \<Rightarrow> jstring \<Rightarrow> (jval \<times> jstring) result" where
  "parse_literal d s =
     (if starts_with (js ''true'') s then Inr (JBool True, drop 4 s)
      else if starts_with (js ''false'') s then Inr (JBool False, drop 5 s)
      else if starts_with (js ''null'') s then Inr (JNull, drop 4 s)
      else case scan_number s of
             None \<Rightarrow> Inl (json_error d (js ''invalid JSON value''))
           | Some (n, r) \<Rightarrow>
               if num_is_finite n then Inr (JNum n, r)
               else Inl (json_error d (js ''wire JSON number must be finite'')))"

type_synonym value_reader = "nat \<Rightarrow> jstring \<Rightarrow> (jval \<times> nat \<times> jstring) result"
  \<comment> \<open>from the token count and the remaining text\<close>

text \<open>
  The two loops of \<open>parseValue\<close>, over the reader of the nested values. A pass of a loop consumes
  text, so the length of the text is enough fuel for it.
\<close>

primrec parse_members :: "json_dialect \<Rightarrow> value_reader \<Rightarrow> nat \<Rightarrow> (jstring \<times> jval) list \<Rightarrow> value_reader" where
  "parse_members d nested 0 acc tokens s = Inl Out_Of_Fuel"
| "parse_members d nested (Suc fuel) acc tokens s =
     (if s = [] then Inl (json_error d (js ''unterminated JSON object''))
      else rbind (parse_string d (skip_space s)) (\<lambda>(name, r).
        if name \<in> set (map fst acc) then Inl (json_error d (js ''duplicate JSON field: '' @ name))
        else if \<not> starts_with [58] (skip_space r)
        then Inl (json_error d (js ''missing JSON object colon''))
        else rbind (nested tokens (tl (skip_space r))) (\<lambda>(v, tokens', r').
          if starts_with [125] (skip_space r')
          then Inr (jnull_obj (acc @ [(name, v)]), tokens', tl (skip_space r'))
          else if starts_with [44] (skip_space r')
          then parse_members d nested fuel (acc @ [(name, v)]) tokens' (tl (skip_space r'))
          else Inl (json_error d (js ''invalid JSON object separator'')))))"

primrec parse_elements :: "json_dialect \<Rightarrow> value_reader \<Rightarrow> nat \<Rightarrow> jval list \<Rightarrow> value_reader" where
  "parse_elements d nested 0 acc tokens s = Inl Out_Of_Fuel"
| "parse_elements d nested (Suc fuel) acc tokens s =
     (if s = [] then Inl (json_error d (js ''unterminated JSON array''))
      else rbind (nested tokens s) (\<lambda>(v, tokens', r').
          if starts_with [93] (skip_space r')
          then Inr (jarr (acc @ [v]), tokens', tl (skip_space r'))
          else if starts_with [44] (skip_space r')
          then parse_elements d nested fuel (acc @ [v]) tokens' (tl (skip_space r'))
          else Inl (json_error d (js ''invalid JSON array separator''))))"

text \<open>
  \<open>parseValue\<close>. The depth counts up to 32 in the source and down here: \<open>levels\<close> is \<open>33 - depth\<close>,
  so no level left is a depth above 32.
\<close>

definition parse_object :: "json_dialect \<Rightarrow> value_reader \<Rightarrow> value_reader" where
  "parse_object d nested tokens s =
     (if starts_with [125] s then Inr (jnull_obj [], tokens, tl s)
      else parse_members d nested (Suc (length s)) [] tokens s)"

definition parse_array :: "json_dialect \<Rightarrow> value_reader \<Rightarrow> value_reader" where
  "parse_array d nested tokens s =
     (if starts_with [93] s then Inr (jarr [], tokens, tl s)
      else parse_elements d nested (Suc (length s)) [] tokens s)"

primrec parse_value :: "json_dialect \<Rightarrow> nat \<Rightarrow> value_reader" where
  "parse_value d 0 tokens s = Inl (json_error d (js ''wire JSON nesting is too deep''))"
| "parse_value d (Suc levels) tokens s =
     (if 4096 < Suc tokens then Inl (json_error d (js ''wire JSON contains too many values''))
      else if starts_with [34] (skip_space s)
      then rbind (parse_string d (skip_space s)) (\<lambda>(v, r). Inr (JStr v, Suc tokens, r))
      else if starts_with [123] (skip_space s)
      then parse_object d (parse_value d levels) (Suc tokens) (skip_space (tl (skip_space s)))
      else if starts_with [91] (skip_space s)
      then parse_array d (parse_value d levels) (Suc tokens) (skip_space (tl (skip_space s)))
      else rbind (parse_literal d (skip_space s)) (\<lambda>(v, r). Inr (v, Suc tokens, r)))"

definition parse_document :: "json_dialect \<Rightarrow> jstring \<Rightarrow> jval result" where
  "parse_document d s =
     rbind (parse_value d 33 0 (skip_space s)) (\<lambda>(v, _, r).
       if skip_space r = [] then Inr v
       else Inl (json_error d (js ''wire JSON contains trailing bytes'')))"

definition has_bom :: "jstring \<Rightarrow> bool" where
  "has_bom s \<longleftrightarrow> starts_with [0xfeff] s"

subsubsection \<open>client/wire.mjs\<close>

definition MAX_WIRE_JSON_BYTES :: nat where
  "MAX_WIRE_JSON_BYTES = 131072"

definition wire_dialect :: json_dialect where
  "wire_dialect = \<lparr>json_error = Type_Error, string_guard = scan_scalars ''JSON string''\<rparr>"

definition parse_json_without_duplicates :: "jval \<Rightarrow> jval result" where
  "parse_json_without_duplicates text = (case text of
       JStr s \<Rightarrow>
         checks
           [ensure (length (utf8_encode s) \<le> MAX_WIRE_JSON_BYTES) (Type_Error (js ''wire JSON is too large'')),
            ensure (\<not> has_bom s) (Type_Error (js ''wire JSON must not contain a BOM''))]
           (parse_document wire_dialect s)
     | _ \<Rightarrow> Inl (Type_Error (js ''wire JSON must be a string'')))"

subsubsection \<open>client/relay-client.mjs and origin-app/relay.mjs\<close>

definition surrogate_guard :: "js_error \<Rightarrow> jstring \<Rightarrow> unit result" where
  "surrogate_guard e s = ensure (utf16_ok s) e"

definition relay_dialect :: "js_error \<Rightarrow> json_dialect" where
  "relay_dialect e = \<lparr>json_error = (\<lambda>_. e), string_guard = surrogate_guard e\<rparr>"

definition client_parse_json :: "jval \<Rightarrow> nat \<Rightarrow> jval result" where
  "client_parse_json text maximum_bytes = (let e = Wallet_Client_Error ''RELAY_ERROR'' in
     case text of
       JStr s \<Rightarrow>
         if maximum_bytes < length s \<or> maximum_bytes < length (utf8_encode s) \<or> has_bom s
         then Inl e else parse_document (relay_dialect e) s
     | _ \<Rightarrow> Inl e)"

definition origin_parse_json :: "jval \<Rightarrow> nat \<Rightarrow> jval result" where
  "origin_parse_json text maximum_bytes = (case text of
       JStr s \<Rightarrow>
         if maximum_bytes < length (utf8_encode s) \<or> has_bom s
         then Inl Wallet_Relay_Error else parse_document (relay_dialect Wallet_Relay_Error) s
     | _ \<Rightarrow> Inl Wallet_Relay_Error)"

subsection \<open>The canonical writers\<close>

record canon_dialect =
  canon_string :: "jstring \<Rightarrow> unit result" \<comment> \<open>its check of a string value\<close>
  canon_infinite :: js_error
  canon_unsupported :: js_error

definition bracketed :: "code_unit \<Rightarrow> code_unit \<Rightarrow> jstring list \<Rightarrow> jstring" where
  "bracketed a b parts = [a] @ join_with 44 parts @ [b]"

definition member_text :: "jstring \<times> jstring \<Rightarrow> jstring" where
  "member_text = (\<lambda>(k, t). json_quote k @ [58] @ t)"

text \<open>
  The members are written in the order of their names; the one whose value throws first in that
  order decides the error. A hole of an array is written as nothing, as \<open>join\<close> does.
\<close>

fun canonical_json :: "canon_dialect \<Rightarrow> jval \<Rightarrow> jstring result"
and canonical_slots :: "canon_dialect \<Rightarrow> jprop option list \<Rightarrow> jstring list result"
and canonical_props :: "canon_dialect \<Rightarrow> (jstring \<times> jprop) list \<Rightarrow> (jstring \<times> jstring result) list" where
  "canonical_json d JNull = Inr (js ''null'')"
| "canonical_json d (JBool b) = Inr (if b then js ''true'' else js ''false'')"
| "canonical_json d (JStr s) = rbind (canon_string d s) (\<lambda>_. Inr (json_quote s))"
| "canonical_json d (JNum n) =
     (if num_is_finite n then Inr (num_to_string n) else Inl (canon_infinite d))"
| "canonical_json d (JArr p xs ps n) =
     rbind (canonical_slots d xs) (\<lambda>parts. Inr (bracketed 91 93 parts))"
| "canonical_json d (JObj p ps n) =
     (if p = Object_Prototype \<or> p = Null_Prototype
      then rbind (mapM (\<lambda>(k, r). rbind r (\<lambda>t. Inr (member_text (k, t))))
                   (sort_key fst (canonical_props d ps)))
             (\<lambda>parts. Inr (bracketed 123 125 parts))
      else Inl (canon_unsupported d))"
| "canonical_json d _ = Inl (canon_unsupported d)"
| "canonical_slots d [] = Inr []"
| "canonical_slots d (None # xs) = rbind (canonical_slots d xs) (\<lambda>ts. Inr ([] # ts))"
| "canonical_slots d (Some (Data e v) # xs) =
     rbind (canonical_json d v) (\<lambda>t. rbind (canonical_slots d xs) (\<lambda>ts. Inr (t # ts)))"
| "canonical_slots d (Some (Accessor e) # xs) = Inl (canon_unsupported d)"
| "canonical_props d [] = []"
| "canonical_props d ((k, Data e v) # ps) =
     (if e then (k, canonical_json d v) # canonical_props d ps else canonical_props d ps)"
| "canonical_props d ((k, Accessor e) # ps) =
     (if e then (k, Inl (canon_unsupported d)) # canonical_props d ps else canonical_props d ps)"

definition wire_canon :: canon_dialect where
  "wire_canon = \<lparr>canon_string = scan_scalars ''canonical JSON string'',
     canon_infinite = Type_Error (js ''canonical JSON numbers must be finite''),
     canon_unsupported = Type_Error (js ''canonical JSON contains an unsupported value'')\<rparr>"

definition wire_canonical_json :: "jval \<Rightarrow> jstring result" where
  "wire_canonical_json = canonical_json wire_canon"

definition registry_canon :: canon_dialect where
  "registry_canon = \<lparr>canon_string = (\<lambda>_. Inr ()),
     canon_infinite = Type_Error (js ''registry contains a non-finite number''),
     canon_unsupported = Type_Error (js ''registry contains an unsupported value'')\<rparr>"

definition registry_canonical_json :: "jval \<Rightarrow> jstring result" where
  "registry_canonical_json = canonical_json registry_canon"

definition operation_canon :: canon_dialect where
  "operation_canon = \<lparr>canon_string = (\<lambda>_. Inr ()),
     canon_infinite = Wallet_Operation_Error ''INVALID_TRANSACTION'',
     canon_unsupported = Wallet_Operation_Error ''INVALID_TRANSACTION''\<rparr>"

definition operation_canonical_json :: "jval \<Rightarrow> jstring result" where
  "operation_canonical_json = canonical_json operation_canon"

end
