(* ===== verification/JsonFacts.thy ===== *)
theory JsonFacts
  imports JsonText
begin

section \<open>What the strict JSON readers return\<close>

text \<open>
  The abstract documents the readers produce, and the soundness of the readers against them: no
  duplicate name, only plain objects and arrays, at most 33 levels and 4096 values, every string
  passed by the dialect's guard. The loops never run out of fuel, so a reader that fails, fails
  with an error of its module.
\<close>

datatype json = J_Null | J_Bool bool | J_Num jnum | J_Str jstring
  | J_Arr "json list" | J_Obj "(jstring \<times> json) list"

primrec embed :: "json \<Rightarrow> jval" where
  "embed J_Null = JNull"
| "embed (J_Bool b) = JBool b"
| "embed (J_Num n) = JNum n"
| "embed (J_Str s) = JStr s"
| "embed (J_Arr xs) = jarr (map embed xs)"
| "embed (J_Obj kvs) = jnull_obj (map (map_prod id embed) kvs)"

primrec json_nodes :: "json \<Rightarrow> nat" where
  "json_nodes J_Null = 1"
| "json_nodes (J_Bool b) = 1"
| "json_nodes (J_Num n) = 1"
| "json_nodes (J_Str s) = 1"
| "json_nodes (J_Arr xs) = Suc (sum_list (map json_nodes xs))"
| "json_nodes (J_Obj kvs) = Suc (sum_list (map snd (map (map_prod id json_nodes) kvs)))"

primrec json_depth :: "json \<Rightarrow> nat" where
  "json_depth J_Null = 1"
| "json_depth (J_Bool b) = 1"
| "json_depth (J_Num n) = 1"
| "json_depth (J_Str s) = 1"
| "json_depth (J_Arr xs) = Suc (fold max (map json_depth xs) 0)"
| "json_depth (J_Obj kvs) = Suc (fold max (map snd (map (map_prod id json_depth) kvs)) 0)"

primrec json_valid :: "(jstring \<Rightarrow> bool) \<Rightarrow> json \<Rightarrow> bool" where
  "json_valid G J_Null = True"
| "json_valid G (J_Bool b) = True"
| "json_valid G (J_Num n) = num_is_finite n"
| "json_valid G (J_Str s) = G s"
| "json_valid G (J_Arr xs) = list_all id (map (json_valid G) xs)"
| "json_valid G (J_Obj kvs) =
     (distinct (map fst kvs) \<and> list_all (\<lambda>(k, b). G k \<and> b) (map (map_prod id (json_valid G)) kvs))"

abbreviation dialect_guard :: "json_dialect \<Rightarrow> jstring \<Rightarrow> bool" where
  "dialect_guard d s \<equiv> is_ok (string_guard d s)"

definition dialect_ok :: "json_dialect \<Rightarrow> bool" where
  "dialect_ok d \<longleftrightarrow> (\<forall>m. json_error d m \<noteq> Out_Of_Fuel) \<and> (\<forall>s. string_guard d s \<noteq> Inl Out_Of_Fuel)"

subsection \<open>Consumption\<close>

lemma length_skip_space: "length (skip_space s) \<le> length s"
  by (simp add: skip_space_def length_dropWhile_le)

lemma starts_with_Cons [simp]: "starts_with [c] s \<longleftrightarrow> (\<exists>t. s = c # t)"
  by (auto simp: starts_with_iff)

lemma scan_string_consumes: "scan_string d s = Inr (b, r) \<Longrightarrow> length r < length s"
  by (induction d s arbitrary: b r rule: scan_string.induct)
    (fastforce simp: rbind_Inr_iff split: if_splits list.splits)+

lemma parse_string_consumes:
  "parse_string d s = Inr (v, r) \<Longrightarrow> length r < length s \<and> dialect_guard d v"
  unfolding parse_string_def
  by (auto simp: rbind_Inr_iff is_ok_iff split: list.splits if_splits option.splits dest!: scan_string_consumes)

lemma length_tl_skip: "length (tl (skip_space s)) \<le> length s"
  using length_skip_space [of s] by simp

lemma scan_unsigned_consumes: "scan_unsigned neg s = Some (n, r) \<Longrightarrow> length r < length s"
proof -
  assume a: "scan_unsigned neg s = Some (n, r)"
  then obtain ip s1 where ip: "integer_part s = Some (ip, s1)"
    by (auto simp: scan_unsigned_def split: option.splits)
  have "length s1 < length s"
    using ip by (auto simp: integer_part_def split: list.splits if_splits intro: le_imp_less_Suc length_dropWhile_le)
  moreover have f: "length (snd (fraction_part s1)) \<le> length s1"
    by (auto simp: fraction_part_def split: list.splits intro: le_SucI length_dropWhile_le)
  moreover have e: "\<And>t. length (snd (exponent_part t)) \<le> length t"
    by (auto simp: exponent_part_def exponent_digits_def Let_def split: list.splits
        intro!: le_SucI length_dropWhile_le)
  moreover have "r = snd (exponent_part (snd (fraction_part s1)))"
    using a ip by (auto simp: scan_unsigned_def split: prod.splits)
  ultimately show ?thesis by (metis le_trans not_le)
qed

lemma scan_number_consumes: "scan_number s = Some (n, r) \<Longrightarrow> length r < length s"
  by (auto simp: scan_number_def split: list.splits if_splits dest!: scan_unsigned_consumes)

lemma parse_literal_sound:
  assumes "parse_literal d s = Inr (v, r)"
  shows "length r < length s \<and> (\<exists>j. v = embed j \<and> json_valid G j \<and> json_nodes j = 1 \<and> json_depth j = 1)"
proof -
  have l: "length (js ''true'') = 4" "length (js ''false'') = 5" "length (js ''null'') = 4" by simp_all
  have sw: "\<And>p. starts_with p s \<Longrightarrow> length p \<le> length s"
    by (auto simp: starts_with_iff)
  consider "starts_with (js ''true'') s" "v = JBool True" "r = drop 4 s"
    | "starts_with (js ''false'') s" "v = JBool False" "r = drop 5 s"
    | "starts_with (js ''null'') s" "v = JNull" "r = drop 4 s"
    | n where "scan_number s = Some (n, r)" "num_is_finite n" "v = JNum n"
    using assms unfolding parse_literal_def
    by (auto split: if_splits option.splits)
  then show ?thesis
  proof cases
    case 1
    then show ?thesis using sw [OF 1(1)] l by (auto intro!: exI [of _ "J_Bool True"])
  next
    case 2
    then show ?thesis using sw [OF 2(1)] l by (auto intro!: exI [of _ "J_Bool False"])
  next
    case 3
    then show ?thesis using sw [OF 3(1)] l by (auto intro!: exI [of _ J_Null])
  next
    case 4
    then show ?thesis using scan_number_consumes by (auto intro!: exI [of _ "J_Num n"])
  qed
qed

subsection \<open>Soundness\<close>

definition reads :: "json_dialect \<Rightarrow> nat \<Rightarrow> nat \<Rightarrow> jstring \<Rightarrow> jval \<times> nat \<times> jstring \<Rightarrow> bool" where
  "reads d levels tokens s = (\<lambda>(v, tokens', r). length r < length s \<and>
     (\<exists>j. v = embed j \<and> json_valid (dialect_guard d) j \<and> json_depth j \<le> levels
        \<and> tokens' = tokens + json_nodes j \<and> tokens' \<le> 4096))"

definition reads_all :: "json_dialect \<Rightarrow> nat \<Rightarrow> value_reader \<Rightarrow> bool" where
  "reads_all d levels nested \<longleftrightarrow> (\<forall>tokens s. tokens \<le> 4096 \<longrightarrow>
     nested tokens s \<noteq> Inl Out_Of_Fuel \<and>
     (\<forall>x. nested tokens s = Inr x \<longrightarrow> reads d levels tokens s x))"


lemma reads_allD:
  assumes "reads_all d levels nested" "tokens \<le> 4096" "nested tokens s = Inr (v, tokens', r)"
  obtains j where "length r < length s" "v = embed j" "json_valid (dialect_guard d) j"
    "json_depth j \<le> levels" "tokens' = tokens + json_nodes j" "tokens' \<le> 4096"
  using assms unfolding reads_all_def reads_def by fastforce

lemma reads_all_fuel:
  "reads_all d levels nested \<Longrightarrow> tokens \<le> 4096 \<Longrightarrow> nested tokens s \<noteq> Inl Out_Of_Fuel"
  by (simp add: reads_all_def)

lemma fold_max_le_iff: "fold max xs (m :: nat) \<le> n \<longleftrightarrow> m \<le> n \<and> (\<forall>x\<in>set xs. x \<le> n)"
  by (induction xs arbitrary: m) auto

lemma parse_string_fuel: "dialect_ok d \<Longrightarrow> parse_string d s \<noteq> Inl Out_Of_Fuel"
proof -
  assume d: "dialect_ok d"
  have "dialect_ok d' \<Longrightarrow> scan_string d' t \<noteq> Inl Out_Of_Fuel" for d' t
    by (induction d' t rule: scan_string.induct)
      (auto simp: dialect_ok_def rbind_Inl_iff split: if_splits list.splits)
  with d have "scan_string d t \<noteq> Inl Out_Of_Fuel" for t by blast
  with d show ?thesis
    unfolding parse_string_def dialect_ok_def
    by (fastforce simp: rbind_Inl_iff split: if_splits list.splits option.splits)
qed

definition members_ok :: "json_dialect \<Rightarrow> nat \<Rightarrow> (jstring \<times> json) list \<Rightarrow> bool" where
  "members_ok d levels kvs \<longleftrightarrow> distinct (map fst kvs) \<and>
     (\<forall>(k, j)\<in>set kvs. dialect_guard d k \<and> json_valid (dialect_guard d) j \<and> json_depth j \<le> levels)"

definition member_nodes :: "(jstring \<times> json) list \<Rightarrow> nat" where
  "member_nodes kvs = sum_list (map (json_nodes \<circ> snd) kvs)"

definition embed_members :: "(jstring \<times> json) list \<Rightarrow> (jstring \<times> jval) list" where
  "embed_members kvs = map (map_prod id embed) kvs"

lemma embed_obj_members:
  "embed (J_Obj kvs) = jnull_obj (embed_members kvs)"
  "json_nodes (J_Obj kvs) = Suc (member_nodes kvs)"
  by (simp_all add: member_nodes_def embed_members_def comp_def)

lemma map_fst_embed_members [simp]: "map fst (embed_members kvs) = map fst kvs"
  by (simp add: embed_members_def)

definition elements_ok :: "json_dialect \<Rightarrow> nat \<Rightarrow> json list \<Rightarrow> bool" where
  "elements_ok d levels xs \<longleftrightarrow>
     (\<forall>j\<in>set xs. json_valid (dialect_guard d) j \<and> json_depth j \<le> levels)"

lemma elements_ok_arr:
  "elements_ok d levels xs \<Longrightarrow> json_valid (dialect_guard d) (J_Arr xs) \<and> json_depth (J_Arr xs) \<le> Suc levels"
  by (auto simp: elements_ok_def list_all_iff fold_max_le_iff)

lemma members_ok_obj:
  "members_ok d levels kvs \<Longrightarrow> json_valid (dialect_guard d) (J_Obj kvs) \<and> json_depth (J_Obj kvs) \<le> Suc levels"
  by (fastforce simp: members_ok_def list_all_iff fold_max_le_iff)

lemma skip_space_Cons: "skip_space r = c # t \<Longrightarrow> length t < length r"
  using length_skip_space [of r] by simp

text \<open>One pass of each loop: what it read, and that the rest is shorter.\<close>

lemma member_pass:
  assumes n: "reads_all d levels nested" and "tokens \<le> 4096"
    and "parse_string d (skip_space s) = Inr (name, r)" "skip_space r = c # t"
    and "nested tokens t = Inr (v, tokens', r')" "skip_space r' = c' # u"
  obtains j where "v = embed j" "dialect_guard d name" "json_valid (dialect_guard d) j" "json_depth j \<le> levels"
    "tokens' = tokens + json_nodes j" "tokens' \<le> 4096" "length u < length s"
proof -
  from reads_allD [OF n assms(2,5)] obtain j where j: "length r' < length t" "v = embed j"
    "json_valid (dialect_guard d) j" "json_depth j \<le> levels"
    "tokens' = tokens + json_nodes j" "tokens' \<le> 4096" .
  have "length r < length s" "dialect_guard d name"
    using parse_string_consumes [OF assms(3)] length_skip_space [of s] by linarith+
  with j skip_space_Cons [OF assms(4)] skip_space_Cons [OF assms(6)] show thesis by (intro that) auto
qed

lemma element_pass:
  assumes n: "reads_all d levels nested" and "tokens \<le> 4096"
    and "nested tokens s = Inr (v, tokens', r')" "skip_space r' = c' # u"
  obtains j where "v = embed j" "json_valid (dialect_guard d) j" "json_depth j \<le> levels"
    "tokens' = tokens + json_nodes j" "tokens' \<le> 4096" "length u < length s"
proof -
  from reads_allD [OF n assms(2,3)] obtain j where j: "length r' < length s" "v = embed j"
    "json_valid (dialect_guard d) j" "json_depth j \<le> levels"
    "tokens' = tokens + json_nodes j" "tokens' \<le> 4096" .
  with skip_space_Cons [OF assms(4)] show thesis by (intro that) auto
qed

text \<open>Inversion of one pass: what a loop that returns, or that runs out, has done first.\<close>

lemma parse_members_Inr:
  assumes "parse_members d nested (Suc fuel) acc tokens s = Inr (v, tokens', r)"
  obtains name r1 t w t' r2 c u where
    "parse_string d (skip_space s) = Inr (name, r1)" "skip_space r1 = 58 # t"
    "nested tokens t = Inr (w, t', r2)" "skip_space r2 = c # u" "name \<notin> set (map fst acc)"
    "c = 125 \<and> v = jnull_obj (acc @ [(name, w)]) \<and> tokens' = t' \<and> r = u
      \<or> c = 44 \<and> parse_members d nested fuel (acc @ [(name, w)]) t' u = Inr (v, tokens', r)"
  using assms that by (auto simp: rbind_Inr_iff split: if_split_asm)

lemma parse_elements_Inr:
  assumes "parse_elements d nested (Suc fuel) acc tokens s = Inr (v, tokens', r)"
  obtains w t' r2 c u where
    "nested tokens s = Inr (w, t', r2)" "skip_space r2 = c # u"
    "c = 93 \<and> v = jarr (acc @ [w]) \<and> tokens' = t' \<and> r = u
      \<or> c = 44 \<and> parse_elements d nested fuel (acc @ [w]) t' u = Inr (v, tokens', r)"
  using assms that by (auto simp: rbind_Inr_iff split: if_split_asm)

lemma parse_members_Out:
  assumes "dialect_ok d" "\<And>t. nested tokens t \<noteq> Inl Out_Of_Fuel"
    and "parse_members d nested (Suc fuel) acc tokens s = Inl Out_Of_Fuel"
  obtains name r1 t w t' r2 u where
    "parse_string d (skip_space s) = Inr (name, r1)" "skip_space r1 = 58 # t"
    "nested tokens t = Inr (w, t', r2)" "skip_space r2 = 44 # u"
    "parse_members d nested fuel (acc @ [(name, w)]) t' u = Inl Out_Of_Fuel"
  using assms that parse_string_fuel [OF assms(1)]
  by (auto simp: rbind_Inl_iff dialect_ok_def split: if_split_asm)

lemma parse_elements_Out:
  assumes "dialect_ok d" "\<And>t. nested tokens t \<noteq> Inl Out_Of_Fuel"
    and "parse_elements d nested (Suc fuel) acc tokens s = Inl Out_Of_Fuel"
  obtains w t' r2 u where
    "nested tokens s = Inr (w, t', r2)" "skip_space r2 = 44 # u"
    "parse_elements d nested fuel (acc @ [w]) t' u = Inl Out_Of_Fuel"
  using assms that by (auto simp: rbind_Inl_iff dialect_ok_def split: if_split_asm)

lemma parse_members_fuel:
  assumes n: "reads_all d levels nested" and d: "dialect_ok d"
  shows "length s < fuel \<Longrightarrow> tokens \<le> 4096 \<Longrightarrow> parse_members d nested fuel acc tokens s \<noteq> Inl Out_Of_Fuel"
proof (induction fuel arbitrary: s tokens acc)
  case (Suc fuel)
  show ?case
  proof
    assume "parse_members d nested (Suc fuel) acc tokens s = Inl Out_Of_Fuel"
    from parse_members_Out [OF d reads_all_fuel [OF n Suc.prems(2)] this]
    obtain name r1 t w t' r2 u where
      st: "parse_string d (skip_space s) = Inr (name, r1)" "skip_space r1 = 58 # t"
        "nested tokens t = Inr (w, t', r2)" "skip_space r2 = 44 # u"
      and out: "parse_members d nested fuel (acc @ [(name, w)]) t' u = Inl Out_Of_Fuel" .
    have "t' \<le> 4096" "length u < length s" using member_pass [OF n Suc.prems(2) st] by metis+
    with Suc.IH out Suc.prems(1) show False by simp
  qed
qed simp

lemma parse_elements_fuel:
  assumes n: "reads_all d levels nested" and d: "dialect_ok d"
  shows "length s < fuel \<Longrightarrow> tokens \<le> 4096 \<Longrightarrow> parse_elements d nested fuel acc tokens s \<noteq> Inl Out_Of_Fuel"
proof (induction fuel arbitrary: s tokens acc)
  case (Suc fuel)
  show ?case
  proof
    assume "parse_elements d nested (Suc fuel) acc tokens s = Inl Out_Of_Fuel"
    from parse_elements_Out [OF d reads_all_fuel [OF n Suc.prems(2)] this]
    obtain w t' r2 u where
      st: "nested tokens s = Inr (w, t', r2)" "skip_space r2 = 44 # u"
      and out: "parse_elements d nested fuel (acc @ [w]) t' u = Inl Out_Of_Fuel" .
    have "t' \<le> 4096" "length u < length s" using element_pass [OF n Suc.prems(2) st] by metis+
    with Suc.IH out Suc.prems(1) show False by simp
  qed
qed simp

lemma members_ok_snoc:
  "members_ok d levels kvs \<Longrightarrow> name \<notin> set (map fst kvs) \<Longrightarrow> dialect_guard d name
    \<Longrightarrow> json_valid (dialect_guard d) j \<Longrightarrow> json_depth j \<le> levels \<Longrightarrow> members_ok d levels (kvs @ [(name, j)])"
  by (force simp: members_ok_def)

lemma member_nodes_snoc [simp]: "member_nodes (kvs @ [(name, j)]) = member_nodes kvs + json_nodes j"
  by (simp add: member_nodes_def)

lemma parse_members_sound:
  assumes n: "reads_all d levels nested"
  shows "tokens \<le> 4096 \<Longrightarrow> members_ok d levels kvs \<Longrightarrow>
    parse_members d nested fuel (embed_members kvs) tokens s = Inr (v, tokens', r) \<Longrightarrow>
    length r < length s \<and> (\<exists>kvs'. v = embed (J_Obj kvs') \<and> members_ok d levels kvs' \<and>
        tokens' + member_nodes kvs = tokens + member_nodes kvs' \<and> tokens' \<le> 4096)"
proof (induction fuel arbitrary: s tokens kvs)
  case (Suc fuel)
  from parse_members_Inr [OF Suc.prems(3)] obtain name r1 t w t' r2 c u where
    st: "parse_string d (skip_space s) = Inr (name, r1)" "skip_space r1 = 58 # t"
      "nested tokens t = Inr (w, t', r2)" "skip_space r2 = c # u"
    and new: "name \<notin> set (map fst (embed_members kvs))"
    and res: "c = 125 \<and> v = jnull_obj (embed_members kvs @ [(name, w)]) \<and> tokens' = t' \<and> r = u
      \<or> c = 44 \<and> parse_members d nested fuel (embed_members kvs @ [(name, w)]) t' u = Inr (v, tokens', r)" .
  from member_pass [OF n Suc.prems(1) st] obtain j where
    j: "w = embed j" "dialect_guard d name" "json_valid (dialect_guard d) j" "json_depth j \<le> levels"
      "t' = tokens + json_nodes j" "t' \<le> 4096" "length u < length s" .
  have ok: "members_ok d levels (kvs @ [(name, j)])"
    using members_ok_snoc [OF Suc.prems(2) _ j(2-4)] new by simp
  have acc: "embed_members kvs @ [(name, w)] = embed_members (kvs @ [(name, j)])"
    using j(1) by (simp add: embed_members_def)
  from res show ?case
  proof (elim disjE conjE)
    assume "v = jnull_obj (embed_members kvs @ [(name, w)])" "tokens' = t'" "r = u"
    then show ?thesis using acc ok j
      by (intro conjI exI [of _ "kvs @ [(name, j)]"]) (simp_all only: embed_obj_members member_nodes_snoc)
  next
    assume "parse_members d nested fuel (embed_members kvs @ [(name, w)]) t' u = Inr (v, tokens', r)"
    from Suc.IH [OF j(6) ok this [unfolded acc]] show ?thesis using j(5,7) by force
  qed
qed simp

lemma parse_elements_sound:
  assumes n: "reads_all d levels nested"
  shows "tokens \<le> 4096 \<Longrightarrow> elements_ok d levels xs \<Longrightarrow>
    parse_elements d nested fuel (map embed xs) tokens s = Inr (v, tokens', r) \<Longrightarrow>
    length r < length s \<and> (\<exists>xs'. v = embed (J_Arr xs') \<and> elements_ok d levels xs' \<and>
        tokens' + sum_list (map json_nodes xs) = tokens + sum_list (map json_nodes xs') \<and> tokens' \<le> 4096)"
proof (induction fuel arbitrary: s tokens xs)
  case (Suc fuel)
  from parse_elements_Inr [OF Suc.prems(3)] obtain w t' r2 c u where
    st: "nested tokens s = Inr (w, t', r2)" "skip_space r2 = c # u"
    and res: "c = 93 \<and> v = jarr (map embed xs @ [w]) \<and> tokens' = t' \<and> r = u
      \<or> c = 44 \<and> parse_elements d nested fuel (map embed xs @ [w]) t' u = Inr (v, tokens', r)" .
  from element_pass [OF n Suc.prems(1) st] obtain j where
    j: "w = embed j" "json_valid (dialect_guard d) j" "json_depth j \<le> levels"
      "t' = tokens + json_nodes j" "t' \<le> 4096" "length u < length s" .
  have ok: "elements_ok d levels (xs @ [j])"
    using Suc.prems(2) j(2,3) by (auto simp: elements_ok_def)
  have acc: "map embed xs @ [w] = map embed (xs @ [j])" using j(1) by simp
  from res show ?case
  proof (elim disjE conjE)
    assume "v = jarr (map embed xs @ [w])" "tokens' = t'" "r = u"
    then show ?thesis using acc ok j by (intro conjI exI [of _ "xs @ [j]"]) simp_all
  next
    assume "parse_elements d nested fuel (map embed xs @ [w]) t' u = Inr (v, tokens', r)"
    from Suc.IH [OF j(5) ok this [unfolded acc]] show ?thesis using j(4,6) by force
  qed
qed simp

lemma parse_object_sound:
  assumes n: "reads_all d levels nested" and d: "dialect_ok d" and t: "tokens \<le> 4096"
  shows "parse_object d nested tokens s \<noteq> Inl Out_Of_Fuel"
    and "parse_object d nested tokens s = Inr (v, tokens', r) \<Longrightarrow> length r < length s \<and>
      (\<exists>j. v = embed j \<and> json_valid (dialect_guard d) j \<and> json_depth j \<le> Suc levels
        \<and> Suc tokens' = tokens + json_nodes j \<and> tokens' \<le> 4096)"
proof -
  show "parse_object d nested tokens s \<noteq> Inl Out_Of_Fuel"
    using parse_members_fuel [OF n d, of s "Suc (length s)" tokens] t by (simp add: parse_object_def)
  assume a: "parse_object d nested tokens s = Inr (v, tokens', r)"
  have empty: "members_ok d levels []" "jnull_obj [] = embed (J_Obj [])" "embed_members [] = []"
    by (simp_all add: members_ok_def embed_members_def)
  show "length r < length s \<and> (\<exists>j. v = embed j \<and> json_valid (dialect_guard d) j \<and>
      json_depth j \<le> Suc levels \<and> Suc tokens' = tokens + json_nodes j \<and> tokens' \<le> 4096)"
  proof (cases "starts_with [125] s")
    case True
    with a t show ?thesis
      by (auto simp: parse_object_def empty(2) simp del: embed.simps intro!: exI [of _ "J_Obj []"])
  next
    case False
    with a have "parse_members d nested (Suc (length s)) (embed_members []) tokens s = Inr (v, tokens', r)"
      unfolding parse_object_def empty(3) by (simp del: parse_members.simps starts_with_Cons)
    from parse_members_sound [OF n t empty(1) this] show ?thesis
      using members_ok_obj embed_obj_members(2) by (fastforce simp: member_nodes_def simp del: embed.simps)
  qed
qed

lemma parse_array_sound:
  assumes n: "reads_all d levels nested" and d: "dialect_ok d" and t: "tokens \<le> 4096"
  shows "parse_array d nested tokens s \<noteq> Inl Out_Of_Fuel"
    and "parse_array d nested tokens s = Inr (v, tokens', r) \<Longrightarrow> length r < length s \<and>
      (\<exists>j. v = embed j \<and> json_valid (dialect_guard d) j \<and> json_depth j \<le> Suc levels
        \<and> Suc tokens' = tokens + json_nodes j \<and> tokens' \<le> 4096)"
proof -
  show "parse_array d nested tokens s \<noteq> Inl Out_Of_Fuel"
    using parse_elements_fuel [OF n d, of s "Suc (length s)" tokens] t by (simp add: parse_array_def)
  assume a: "parse_array d nested tokens s = Inr (v, tokens', r)"
  have empty: "elements_ok d levels []" "jarr [] = embed (J_Arr [])" "map embed [] = []"
    by (simp_all add: elements_ok_def)
  show "length r < length s \<and> (\<exists>j. v = embed j \<and> json_valid (dialect_guard d) j \<and>
      json_depth j \<le> Suc levels \<and> Suc tokens' = tokens + json_nodes j \<and> tokens' \<le> 4096)"
  proof (cases "starts_with [93] s")
    case True
    with a t show ?thesis
      by (auto simp: parse_array_def empty(2) simp del: embed.simps intro!: exI [of _ "J_Arr []"])
  next
    case False
    with a have "parse_elements d nested (Suc (length s)) (map embed []) tokens s = Inr (v, tokens', r)"
      unfolding parse_array_def empty(3) by (simp del: parse_elements.simps starts_with_Cons)
    from parse_elements_sound [OF n t empty(1) this] show ?thesis
      using elements_ok_arr by (fastforce simp del: embed.simps)
  qed
qed

lemma parse_value_reads_all: "dialect_ok d \<Longrightarrow> reads_all d levels (parse_value d levels)"
proof (induction levels)
  case 0
  then show ?case by (simp add: reads_all_def dialect_ok_def)
next
  case (Suc levels)
  then have n: "reads_all d levels (parse_value d levels)" by blast
  note obj = parse_object_sound [OF n Suc.prems] and arr = parse_array_sound [OF n Suc.prems]
  have l: "length (skip_space (tl (skip_space s))) \<le> length s" for s
    using length_skip_space [of "tl (skip_space s)"] length_tl_skip [of s] by linarith
  have lit: "parse_literal d s \<noteq> Inl Out_Of_Fuel" for s
    using Suc.prems by (auto simp: parse_literal_def dialect_ok_def split: option.splits)
  show ?case
    unfolding reads_all_def
  proof (intro allI impI conjI)
    fix tokens :: nat and s :: jstring assume t: "tokens \<le> 4096"
    show "parse_value d (Suc levels) tokens s \<noteq> Inl Out_Of_Fuel"
      using Suc.prems parse_string_fuel [OF Suc.prems] obj(1) arr(1) lit
      by (auto simp: rbind_Inl_iff dialect_ok_def simp del: starts_with_Cons)
  next
    fix tokens :: nat and s :: jstring and x assume t: "tokens \<le> 4096" and v: "parse_value d (Suc levels) tokens s = Inr x"
    obtain w t' r where x: "x = (w, t', r)" by (cases x)
    have t1: "Suc tokens \<le> 4096" using v by (auto split: if_split_asm)
    consider str where "parse_string d (skip_space s) = Inr (str, r)" "w = JStr str" "t' = Suc tokens"
      | "parse_object d (parse_value d levels) (Suc tokens) (skip_space (tl (skip_space s))) = Inr (w, t', r)"
      | "parse_array d (parse_value d levels) (Suc tokens) (skip_space (tl (skip_space s))) = Inr (w, t', r)"
      | "parse_literal d (skip_space s) = Inr (w, r)" "t' = Suc tokens"
      using v x by (auto simp: rbind_Inr_iff simp del: starts_with_Cons split: if_split_asm)
    then show "reads d (Suc levels) tokens s x"
    proof cases
      case 1
      with parse_string_consumes [OF 1(1)] length_skip_space [of s] x t1 show ?thesis
        by (auto simp: reads_def intro!: exI [of _ "J_Str str"])
    next
      case 2
      from obj(2) [OF t1 2] l [of s] x show ?thesis by (fastforce simp: reads_def)
    next
      case 3
      from arr(2) [OF t1 3] l [of s] x show ?thesis by (fastforce simp: reads_def)
    next
      case 4
      from parse_literal_sound [OF 4(1)] 4(2) length_skip_space [of s] x t1 show ?thesis
        by (fastforce simp: reads_def)
    qed
  qed
qed

lemma parse_document_sound:
  assumes d: "dialect_ok d" and p: "parse_document d s = Inr v"
  obtains j where "v = embed j" "json_valid (dialect_guard d) j" "json_depth j \<le> 33" "json_nodes j \<le> 4096"
proof -
  from p obtain t' r where "parse_value d 33 0 (skip_space s) = Inr (v, t', r)"
    by (auto simp: parse_document_def rbind_Inr_iff split: if_splits)
  from reads_allD [OF parse_value_reads_all [OF d] _ this] that show thesis by auto
qed

lemma parse_document_fuel: "dialect_ok d \<Longrightarrow> parse_document d s \<noteq> Inl Out_Of_Fuel"
  using reads_all_fuel [OF parse_value_reads_all, of d 0 33 "skip_space s"]
  by (auto simp: parse_document_def rbind_Inl_iff dialect_ok_def split: if_splits)

lemma wire_dialect_ok: "dialect_ok wire_dialect"
proof -
  have "scan_scalars l s \<noteq> Inl Out_Of_Fuel" for l s
    by (induction l s rule: scan_scalars.induct) (auto simp: unpaired_error_def noncharacter_error_def)
  then show ?thesis by (simp add: dialect_ok_def wire_dialect_def)
qed

lemma relay_dialect_ok: "e \<noteq> Out_Of_Fuel \<Longrightarrow> dialect_ok (relay_dialect e)"
  by (simp add: dialect_ok_def relay_dialect_def surrogate_guard_def ensure_def)

subsection \<open>Well-formedness\<close>

text \<open>A text of 16-bit code units parses to a value of 16-bit strings, no property named twice.\<close>

lemma js_wf_suffix: "js_wf s \<Longrightarrow> js_wf (dropWhile P s)" "js_wf s \<Longrightarrow> js_wf (drop n s)" "js_wf s \<Longrightarrow> js_wf (tl s)"
proof -
  have "js_wf t" if "js_wf s" "set t \<subseteq> set s" for t using that by (auto simp: js_wf_def list_all_iff)
  then show "js_wf s \<Longrightarrow> js_wf (dropWhile P s)" "js_wf s \<Longrightarrow> js_wf (drop n s)"
    by (meson set_dropWhileD subsetI in_set_dropD)+
  show "js_wf s \<Longrightarrow> js_wf (tl s)" by (cases s) simp_all
qed

lemma js_wf_skip_space: "js_wf s \<Longrightarrow> js_wf (skip_space s)"
  by (simp add: skip_space_def js_wf_suffix)

lemma scan_string_wf: "scan_string d s = Inr (b, r) \<Longrightarrow> js_wf s \<Longrightarrow> js_wf b \<and> js_wf r"
  by (induction d s arbitrary: b r rule: scan_string.induct)
    (fastforce simp: rbind_Inr_iff split: if_splits list.splits)+

lemma hex_value_less: "hex_value c = Some d \<Longrightarrow> d < 16"
  by (auto simp: hex_value_def split: if_splits)

lemma hex4_less: "hex4 a b c d = Some u \<Longrightarrow> u < 65536"
  by (auto simp: hex4_def split: option.splits dest!: hex_value_less)

lemma escape_value_less: "escape_value c = Some u \<Longrightarrow> u < 65536"
  by (auto simp: escape_value_def split: if_splits)

lemma unescape_wf: "unescape b = Some v \<Longrightarrow> js_wf b \<Longrightarrow> js_wf v"
  by (induction b arbitrary: v rule: unescape.induct)
    (auto split: if_splits list.splits option.splits dest: hex4_less escape_value_less)

lemma parse_string_wf: "parse_string d s = Inr (v, r) \<Longrightarrow> js_wf s \<Longrightarrow> js_wf v \<and> js_wf r"
proof -
  assume p: "parse_string d s = Inr (v, r)" and s: "js_wf s"
  then obtain cs b where "s = 34 # cs" "scan_string d cs = Inr (b, r)" "unescape b = Some v"
    by (auto simp: parse_string_def rbind_Inr_iff split: list.splits if_splits option.split_asm)
  with s show ?thesis using scan_string_wf unescape_wf by fastforce
qed

lemma scan_unsigned_wf: "scan_unsigned neg s = Some (n, r) \<Longrightarrow> js_wf s \<Longrightarrow> js_wf r"
proof -
  assume a: "scan_unsigned neg s = Some (n, r)" and s: "js_wf s"
  from a obtain ip s1 where ip: "integer_part s = Some (ip, s1)"
    by (auto simp: scan_unsigned_def split: option.splits)
  then have "js_wf s1" using s by (auto simp: integer_part_def js_wf_suffix split: list.splits if_splits)
  then have "js_wf (snd (fraction_part s1))" by (auto simp: fraction_part_def js_wf_suffix split: list.splits)
  moreover have "js_wf t \<Longrightarrow> js_wf (snd (exponent_part t))" for t
    by (auto simp: exponent_part_def exponent_digits_def Let_def js_wf_suffix split: list.splits)
  moreover have "r = snd (exponent_part (snd (fraction_part s1)))"
    using a ip by (auto simp: scan_unsigned_def split: prod.splits)
  ultimately show ?thesis by simp
qed

lemma parse_literal_wf: "parse_literal d s = Inr (v, r) \<Longrightarrow> js_wf s \<Longrightarrow> jval_wf v \<and> js_wf r"
  by (auto simp: parse_literal_def js_wf_suffix scan_number_def split: if_splits option.splits list.splits
      dest!: scan_unsigned_wf)

lemma jval_wf_builders [simp]:
  "jval_wf (jnull_obj kvs) \<longleftrightarrow> distinct (map fst kvs) \<and> list_all (\<lambda>(k, v). js_wf k \<and> jval_wf v) kvs"
  "jval_wf (jobj kvs) \<longleftrightarrow> distinct (map fst kvs) \<and> list_all (\<lambda>(k, v). js_wf k \<and> jval_wf v) kvs"
  "jval_wf (jarr vs) \<longleftrightarrow> list_all jval_wf vs"
  by (auto simp: jnull_obj_def jobj_def jarr_def jdata_def list_all_iff comp_def case_prod_beta)

definition reader_wf :: "value_reader \<Rightarrow> bool" where
  "reader_wf nested \<longleftrightarrow> (\<forall>tokens s v t r. js_wf s \<longrightarrow> nested tokens s = Inr (v, t, r) \<longrightarrow> jval_wf v \<and> js_wf r)"

lemma parse_members_wf:
  assumes "reader_wf nested"
  shows "js_wf s \<Longrightarrow> jval_wf (jnull_obj acc) \<Longrightarrow> parse_members d nested fuel acc tokens s = Inr (v, t, r)
    \<Longrightarrow> jval_wf v \<and> js_wf r"
proof (induction fuel arbitrary: acc tokens s)
  case (Suc fuel)
  from parse_members_Inr [OF Suc.prems(3)] obtain name r1 u w t' r2 c x where
    st: "parse_string d (skip_space s) = Inr (name, r1)" "skip_space r1 = 58 # u"
      "nested tokens u = Inr (w, t', r2)" "skip_space r2 = c # x" "name \<notin> set (map fst acc)"
    and res: "c = 125 \<and> v = jnull_obj (acc @ [(name, w)]) \<and> t = t' \<and> r = x
      \<or> c = 44 \<and> parse_members d nested fuel (acc @ [(name, w)]) t' x = Inr (v, t, r)" .
  have nm: "js_wf name" "js_wf r1" using parse_string_wf [OF st(1)] js_wf_skip_space Suc.prems(1) by blast+
  then have "js_wf u" using js_wf_skip_space [of r1] st(2) by simp
  then have w: "jval_wf w" "js_wf r2" using assms st(3) unfolding reader_wf_def by blast+
  then have x: "js_wf x" using js_wf_skip_space [of r2] st(4) by simp
  have acc: "jval_wf (jnull_obj (acc @ [(name, w)]))" using Suc.prems(2) st(5) nm(1) w(1) by auto
  from res show ?case using acc x Suc.IH [OF x acc] by blast
qed simp

lemma parse_elements_wf:
  assumes "reader_wf nested"
  shows "js_wf s \<Longrightarrow> jval_wf (jarr acc) \<Longrightarrow> parse_elements d nested fuel acc tokens s = Inr (v, t, r)
    \<Longrightarrow> jval_wf v \<and> js_wf r"
proof (induction fuel arbitrary: acc tokens s)
  case (Suc fuel)
  from parse_elements_Inr [OF Suc.prems(3)] obtain w t' r2 c x where
    st: "nested tokens s = Inr (w, t', r2)" "skip_space r2 = c # x"
    and res: "c = 93 \<and> v = jarr (acc @ [w]) \<and> t = t' \<and> r = x
      \<or> c = 44 \<and> parse_elements d nested fuel (acc @ [w]) t' x = Inr (v, t, r)" .
  have w: "jval_wf w" "js_wf r2" using assms st(1) Suc.prems(1) unfolding reader_wf_def by blast+
  then have x: "js_wf x" using js_wf_skip_space [of r2] st(2) by simp
  have acc: "jval_wf (jarr (acc @ [w]))" using Suc.prems(2) w(1) by simp
  from res show ?case using acc x Suc.IH [OF x acc] by blast
qed simp

lemma parse_value_wf: "reader_wf (parse_value d levels)"
proof (induction levels)
  case (Suc levels)
  have tl: "js_wf s \<Longrightarrow> js_wf (skip_space (tl (skip_space s)))" for s
    by (intro js_wf_skip_space js_wf_suffix(3))
  have o: "js_wf s \<Longrightarrow> parse_object d (parse_value d levels) tokens s = Inr (v, t, r) \<Longrightarrow> jval_wf v \<and> js_wf r" for s tokens v t r
    using parse_members_wf [OF Suc, of s "[]" d "Suc (length s)" tokens v t r]
    by (auto simp: parse_object_def js_wf_suffix split: if_splits simp del: parse_members.simps starts_with_Cons)
  have a: "js_wf s \<Longrightarrow> parse_array d (parse_value d levels) tokens s = Inr (v, t, r) \<Longrightarrow> jval_wf v \<and> js_wf r" for s tokens v t r
    using parse_elements_wf [OF Suc, of s "[]" d "Suc (length s)" tokens v t r]
    by (auto simp: parse_array_def js_wf_suffix split: if_splits simp del: parse_elements.simps starts_with_Cons)
  show ?case
    unfolding reader_wf_def
  proof (intro allI impI)
    fix tokens :: nat and s :: jstring and v t r
    assume s: "js_wf s" and p: "parse_value d (Suc levels) tokens s = Inr (v, t, r)"
    consider str where "parse_string d (skip_space s) = Inr (str, r)" "v = JStr str"
      | "parse_object d (parse_value d levels) (Suc tokens) (skip_space (tl (skip_space s))) = Inr (v, t, r)"
      | "parse_array d (parse_value d levels) (Suc tokens) (skip_space (tl (skip_space s))) = Inr (v, t, r)"
      | "parse_literal d (skip_space s) = Inr (v, r)"
      using p by (auto simp: rbind_Inr_iff simp del: starts_with_Cons split: if_split_asm)
    then show "jval_wf v \<and> js_wf r"
    proof cases
      case 1
      with parse_string_wf js_wf_skip_space s show ?thesis by fastforce
    next
      case 4
      with parse_literal_wf js_wf_skip_space s show ?thesis by blast
    qed (use o a tl [OF s] in blast)+
  qed
qed (simp add: reader_wf_def)

lemma parse_document_wf: "parse_document d s = Inr v \<Longrightarrow> js_wf s \<Longrightarrow> jval_wf v"
proof -
  assume p: "parse_document d s = Inr v" and s: "js_wf s"
  from p obtain t r where "parse_value d 33 0 (skip_space s) = Inr (v, t, r)"
    by (auto simp: parse_document_def rbind_Inr_iff split: if_splits)
  with parse_value_wf js_wf_skip_space [OF s] show ?thesis unfolding reader_wf_def by blast
qed

end
