(* ===== verification/WireGuards.thy ===== *)
theory WireGuards
  imports JsonFacts
begin

section \<open>The record guards of client/wire.mjs\<close>

text \<open>
  The checks every message validator is written in: \<open>readInput\<close>, \<open>exactRecord\<close>,
  \<open>exactLiteral\<close>, \<open>exactOneOf\<close>, \<open>exactPattern\<close>, \<open>validatePlainDenseArray\<close> and the string
  patterns. The facts say what a guard that passes establishes, and that a record built by
  \<open>frozenRecord\<close> passes \<open>exactRecord\<close> with its own fields.
\<close>

abbreviation fail_with :: "string \<Rightarrow> js_error" where
  "fail_with message \<equiv> Type_Error (js message)"

definition read_input :: "jval \<Rightarrow> jval result" where
  "read_input v = (case v of JStr s \<Rightarrow> parse_json_without_duplicates v | _ \<Rightarrow> Inr v)"

definition validate_unicode_scalar_string :: "jval \<Rightarrow> string \<Rightarrow> unit result" where
  "validate_unicode_scalar_string v label = (case v of
       JStr s \<Rightarrow> scan_scalars label s
     | _ \<Rightarrow> Inl (fail_with (label @ '' must be a string'')))"

definition str_of :: "jval \<Rightarrow> jstring" where
  "str_of v = (case v of JStr s \<Rightarrow> s | _ \<Rightarrow> [])"

definition num_of :: "jval \<Rightarrow> jnum" where
  "num_of v = (case v of JNum n \<Rightarrow> n | _ \<Rightarrow> NaN)"

definition is_str :: "jval \<Rightarrow> bool" where
  "is_str v = (case v of JStr s \<Rightarrow> True | _ \<Rightarrow> False)"

definition is_num :: "jval \<Rightarrow> bool" where
  "is_num v = (case v of JNum n \<Rightarrow> True | _ \<Rightarrow> False)"

subsection \<open>\<open>exactRecord\<close>\<close>

definition names_text :: "jstring list \<Rightarrow> byte list" where
  \<comment> \<open>\<open>textEncoder.encode(names.join('\u0000'))\<close>\<close>
  "names_text names = utf8_encode (join_with 0 (sort_names names))"

definition field_check :: "string \<Rightarrow> jval \<Rightarrow> jstring \<Rightarrow> unit result" where
  "field_check label record name = (case map_of (own_props record) name of
       Some (Data True v) \<Rightarrow>
         ensure (v \<noteq> JUndefined) (Type_Error (js label @ [46] @ name @ js '' must not be undefined''))
     | _ \<Rightarrow> Inl (Type_Error (js label @ [46] @ name @ js '' must be an enumerable data field'')))"

definition exact_record :: "jval \<Rightarrow> string list \<Rightarrow> string \<Rightarrow> jval result" where
  "exact_record value expected label = rbind (read_input value) (\<lambda>record.
     checks
       ([ensure (is_object_record record) (fail_with (label @ '' must be a JSON object'')),
         ensure (own_symbols record = 0) (fail_with (label @ '' has an unknown symbol field'')),
         ensure (byte_equal (names_text (own_names record)) (names_text (map js expected)))
           (fail_with (label @ '' has missing or unknown fields''))]
        @ map (field_check label record) (sort_names (own_names record)))
       (Inr record))"

subsection \<open>Guards on one value\<close>

definition literal_text :: "jval \<Rightarrow> jstring" where
  "literal_text v = (case v of JStr s \<Rightarrow> json_quote s | JNum n \<Rightarrow> num_to_string n | _ \<Rightarrow> js ''null'')"

definition exact_literal :: "jval \<Rightarrow> jval \<Rightarrow> string \<Rightarrow> unit result" where
  "exact_literal v lit label =
     ensure (strict_eq v lit) (Type_Error (js label @ js '' must equal '' @ literal_text lit))"

definition exact_one_of :: "jval \<Rightarrow> string list \<Rightarrow> string \<Rightarrow> unit result" where
  "exact_one_of v options label =
     ensure (list_ex (\<lambda>opt. v = jlit opt) options) (fail_with (label @ '' is not an allowed value''))"

definition exact_pattern :: "jval \<Rightarrow> (jstring \<Rightarrow> bool) \<Rightarrow> string \<Rightarrow> unit result" where
  "exact_pattern v pattern label =
     checks [validate_unicode_scalar_string v label,
             ensure (pattern (str_of v)) (fail_with (label @ '' has an invalid encoding''))] (Inr ())"

definition own_keys_exact :: "jval \<Rightarrow> jstring list \<Rightarrow> bool" where
  \<comment> \<open>\<open>Reflect.ownKeys(value)\<close> is this list of names: no other name, no symbol\<close>
  "own_keys_exact v names \<longleftrightarrow> own_names v = names \<and> own_symbols v = 0"

definition validate_plain_dense_array :: "jval \<Rightarrow> nat \<Rightarrow> string \<Rightarrow> unit result" where
  "validate_plain_dense_array v n label =
     checks
       [ensure (case v of JArr p xs _ _ \<Rightarrow> p = Array_Prototype \<and> length xs = n | _ \<Rightarrow> False)
          (Type_Error (js label @ js '' must be a plain array with exactly '' @ decimal_digits n @ js '' values'')),
        ensure (own_keys_exact v (map index_key [0..<n] @ [js ''length'']))
          (fail_with (label @ '' must be a dense plain array'')),
        ensure (list_all (\<lambda>s. case s of None \<Rightarrow> False | Some p \<Rightarrow> is_plain_data p) (array_slots v))
          (fail_with (label @ '' must contain enumerable data values''))]
       (Inr ())"

subsection \<open>Patterns\<close>

definition is_lower_hex :: "code_unit \<Rightarrow> bool" where
  "is_lower_hex c \<longleftrightarrow> (48 \<le> c \<and> c \<le> 57) \<or> (97 \<le> c \<and> c \<le> 102)"

definition lower_hex :: "nat \<Rightarrow> jstring \<Rightarrow> bool" where
  "lower_hex n s \<longleftrightarrow> length s = n \<and> list_all is_lower_hex s"

definition LOWER_HEX_32 :: "jstring \<Rightarrow> bool" where
  "LOWER_HEX_32 s = lower_hex 64 s"

definition LOWER_HEX_64 :: "jstring \<Rightarrow> bool" where
  "LOWER_HEX_64 s = lower_hex 128 s"

definition KEY_ID :: "jstring \<Rightarrow> bool" where
  "KEY_ID s \<longleftrightarrow> starts_with (js ''sha256:'') s \<and> lower_hex 64 (drop 7 s)"

definition is_base58 :: "code_unit \<Rightarrow> bool" where
  "is_base58 c \<longleftrightarrow> (49 \<le> c \<and> c \<le> 57) \<or> (65 \<le> c \<and> c \<le> 90 \<and> c \<noteq> 73 \<and> c \<noteq> 79)
     \<or> (97 \<le> c \<and> c \<le> 122 \<and> c \<noteq> 108)"

definition BASE58 :: "jstring \<Rightarrow> bool" where
  "BASE58 s \<longleftrightarrow> s \<noteq> [] \<and> list_all is_base58 s"

subsection \<open>Facts\<close>

lemma read_input_record: "is_object_record v \<Longrightarrow> read_input v = Inr v"
  by (auto simp: is_object_record_def read_input_def split: jval.splits)

lemma read_input_cases:
  assumes "read_input v = Inr r"
  obtains "r = v" | s where "v = JStr s" "parse_json_without_duplicates v = Inr r"
  using assms by (auto simp: read_input_def split: jval.splits)

lemma parse_json_sound:
  assumes "parse_json_without_duplicates v = Inr r"
  obtains j s where "v = JStr s" "length (utf8_encode s) \<le> 131072" "r = embed j"
    "json_valid (dialect_guard wire_dialect) j" "json_depth j \<le> 33" "json_nodes j \<le> 4096"
proof -
  from assms obtain s where s: "v = JStr s" "length (utf8_encode s) \<le> 131072" "parse_document wire_dialect s = Inr r"
    by (auto simp: parse_json_without_duplicates_def MAX_WIRE_JSON_BYTES_def checks_Inr_iff split: jval.splits)
  from parse_document_sound [OF wire_dialect_ok s(3)] s(1,2) that show thesis by metis
qed

lemma scan_scalars_ascii: "is_ascii s \<Longrightarrow> is_ok (scan_scalars l s)"
  by (induction l s rule: scan_scalars.induct) (auto dest: ascii_not_surrogate simp: is_noncharacter_def)

lemma is_ok_exact_pattern:
  "is_ok (exact_pattern v p l) \<longleftrightarrow> (\<exists>s. v = JStr s \<and> is_ok (scan_scalars l s) \<and> p s)"
  by (auto simp: exact_pattern_def is_ok_checks validate_unicode_scalar_string_def str_of_def split: jval.splits)

lemma is_ok_exact_literal [simp]: "is_ok (exact_literal v lit l) \<longleftrightarrow> strict_eq v lit"
  by (simp add: exact_literal_def)

lemma is_ok_exact_one_of [simp]: "is_ok (exact_one_of v opts l) \<longleftrightarrow> v \<in> jlit ` set opts"
  by (auto simp: exact_one_of_def list_ex_iff)

lemma jlit_eq_iff [simp]: "jlit s = jlit t \<longleftrightarrow> s = t" "JStr (js s) = jlit t \<longleftrightarrow> s = t"
  "jlit s = JStr (js t) \<longleftrightarrow> s = t"
  by (simp_all add: jlit_def)

lemma jlit_not_undefined [simp]: "jlit s \<noteq> JUndefined" "jlit s \<noteq> JNull" "jint n \<noteq> JUndefined"
  "JUndefined \<noteq> jlit s" "JUndefined \<noteq> jint n" "frozen_record es \<noteq> JUndefined" "jarr vs \<noteq> JUndefined"
  by (simp_all add: jlit_def jint_def frozen_record_def jobj_def jarr_def)

lemma strict_eq_jlit [simp]: "strict_eq v (jlit s) \<longleftrightarrow> v = jlit s"
  by (simp add: jlit_def)

lemma lower_hex_ascii: "lower_hex n s \<Longrightarrow> is_ascii s"
  by (auto simp: lower_hex_def is_lower_hex_def is_ascii_def list_all_iff)

lemma KEY_ID_ascii: "KEY_ID s \<Longrightarrow> is_ascii s"
proof -
  assume "KEY_ID s"
  then obtain t where "s = js ''sha256:'' @ t" "lower_hex 64 t"
    by (auto simp: KEY_ID_def starts_with_iff)
  moreover have "is_ascii (js ''sha256:'')" by (simp add: js_def)
  ultimately show ?thesis using lower_hex_ascii by simp
qed

subsubsection \<open>\<open>exactRecord\<close>\<close>

lemma field_check_ok:
  "is_ok (field_check l r n) \<longleftrightarrow> (\<exists>v. map_of (own_props r) n = Some (Data True v) \<and> v \<noteq> JUndefined)"
  by (auto simp: field_check_def split: option.splits jprop.splits bool.splits)

lemma field_eq: "map_of (own_props r) n = Some (Data e v) \<Longrightarrow> field r n = v"
  by (simp add: field_def prop_value_def)

lemma exact_record_Inr:
  "exact_record value expected label = Inr r \<longleftrightarrow>
     read_input value = Inr r \<and> is_object_record r \<and> own_symbols r = 0
     \<and> names_text (own_names r) = names_text (map js expected)
     \<and> (\<forall>n\<in>set (own_names r). is_ok (field_check label r n))"
  by (auto simp: exact_record_def rbind_Inr_iff checks_Inr_iff byte_equal_iff list_all_iff)

lemma field_undefined: "n \<notin> set (own_names r) \<Longrightarrow> field r n = JUndefined"
  by (simp add: field_def own_names_def flip: map_of_eq_None_iff)

text \<open>
  The names are compared as one text joined by NUL, so one name with a NUL in it can stand for two.
  When every expected field is there (each validator goes on to check each one), it cannot.
\<close>

definition plain_names :: "string list \<Rightarrow> bool" where
  "plain_names expected \<longleftrightarrow> distinct expected \<and> expected \<noteq> [] \<and> list_all (\<lambda>f. is_ascii (js f)) expected"

lemma names_text_subset_eq:
  assumes wf: "list_all js_wf names" "distinct names" and f: "plain_names expected"
    and sub: "js ` set expected \<subseteq> set names" and eq: "names_text names = names_text (map js expected)"
  shows "set names = js ` set expected"
proof -
  have "is_ascii (join_with 0 (sort_names (map js expected)))"
    using f by (simp add: is_ascii_join plain_names_def list_all_iff)
  moreover have "js_wf (join_with 0 (sort_names names))"
    using wf by (simp add: js_wf_join list_all_iff)
  ultimately have "join_with 0 (sort_names names) = join_with 0 (sort_names (map js expected))"
    using eq by (simp add: names_text_def utf8_encode_eq_ascii)
  moreover have "distinct (map js expected)"
    using f by (simp add: plain_names_def distinct_map inj_on_def)
  ultimately have "set names = set (map js expected)"
    using join_with_subset_eq [of names "map js expected" 0] wf(2) sub f by (auto simp: plain_names_def)
  then show ?thesis by simp
qed

lemma jval_wf_own_names:
  "jval_wf r \<Longrightarrow> is_object_record r \<Longrightarrow> list_all js_wf (own_names r) \<and> distinct (own_names r)"
  by (cases r) (auto simp: is_object_record_def own_names_def own_props_def list_all_iff)

lemma exact_record_names:
  assumes "exact_record value expected label = Inr r" "jval_wf r" "plain_names expected"
    and "\<forall>f\<in>set expected. fld r f \<noteq> JUndefined"
  shows "set (own_names r) = js ` set expected"
proof (rule names_text_subset_eq)
  from assms(1) have r: "is_object_record r" "names_text (own_names r) = names_text (map js expected)"
    by (simp_all add: exact_record_Inr)
  show "list_all js_wf (own_names r)" "distinct (own_names r)"
    using jval_wf_own_names [OF assms(2) r(1)] by simp_all
  show "js ` set expected \<subseteq> set (own_names r)"
    using assms(4) field_undefined by (fastforce simp: fld_def)
  show "names_text (own_names r) = names_text (map js expected)" by (fact r(2))
qed (fact assms(3))

lemma exact_record_jobj:
  assumes d: "distinct (map fst kvs)" and f: "set (map fst kvs) = js ` set expected" "distinct expected"
    and u: "\<forall>(k, v)\<in>set kvs. v \<noteq> JUndefined"
  shows "exact_record (jobj kvs) expected label = Inr (jobj kvs)"
proof -
  let ?r = "jobj kvs"
  have dn: "distinct (own_names ?r)" using d by simp
  have "set (own_names ?r) = set (map js expected)" using f(1) by simp
  with dn f(2) have "sort_names (own_names ?r) = sort_names (map js expected)"
    by (subst sort_names_eq_iff) (auto simp: distinct_map inj_on_def)
  then have "names_text (own_names ?r) = names_text (map js expected)" by (simp add: names_text_def)
  moreover have "is_ok (field_check label ?r n)" if n: "n \<in> set (own_names ?r)" for n
  proof -
    obtain p where p: "map_of (own_props ?r) n = Some p" "p \<in> snd ` set (own_props ?r)"
      using n unfolding own_names_def by (metis imageI list.set_map map_of_SomeD map_of_eq_None_iff not_None_eq snd_conv)
    then show ?thesis using u by (auto simp: field_check_ok jdata_def)
  qed
  moreover have "own_symbols ?r = 0" by (simp add: jobj_def own_symbols_def)
  ultimately show ?thesis by (simp add: exact_record_Inr read_input_record)
qed

lemma exact_record_frozen:
  assumes d: "distinct (map fst entries)" and f: "set (map fst entries) = set expected" "distinct expected"
    and u: "\<forall>(k, v)\<in>set entries. v \<noteq> JUndefined"
  shows "exact_record (frozen_record entries) expected label = Inr (frozen_record entries)"
proof -
  let ?kvs = "map (\<lambda>(k, v). (js k, v)) entries"
  have m: "map fst ?kvs = map js (map fst entries)" by (simp add: case_prod_beta comp_def)
  have "distinct (map fst ?kvs)" unfolding m using d by (subst distinct_map) (simp add: inj_on_def)
  moreover have "set (map fst ?kvs) = js ` set expected" unfolding m using f(1) by (simp only: set_map)
  moreover have "\<forall>(k, v)\<in>set (sort_key fst ?kvs). v \<noteq> JUndefined" using u by auto
  ultimately show ?thesis
    unfolding frozen_record_def using f(2)
    by (intro exact_record_jobj) (simp_all only: distinct_fst_sort_key set_map set_sort)
qed

lemma exact_record_undefined [simp]: "exact_record JUndefined expected label \<noteq> Inr r"
  by (auto simp: exact_record_Inr read_input_def is_object_record_def)

subsubsection \<open>\<open>validatePlainDenseArray\<close>\<close>

lemma length_slot_props: "length (slot_props i xs) = length (filter (\<lambda>x. x \<noteq> None) xs)"
  by (induction i xs rule: slot_props.induct) simp_all

lemma slot_props_Some: "slot_props i (map Some ps) = zip (map index_key [i..<i + length ps]) ps"
proof (induction ps arbitrary: i)
  case (Cons p ps)
  have "[i..<i + length (p # ps)] = i # [Suc i..<Suc i + length ps]" by (subst upt_rec) simp
  with Cons.IH [of "Suc i"] show ?case by (simp only: list.map slot_props.simps zip_Cons_Cons)
qed simp

lemma decimal_digits_digits: "\<forall>c\<in>set (decimal_digits n). 48 \<le> c \<and> c \<le> 57"
  by (induction n rule: decimal_digits.induct) (subst decimal_digits.simps, auto)

lemma index_key_not_length: "index_key i \<noteq> js ''length''"
proof
  assume "index_key i = js ''length''"
  then have "108 \<in> set (decimal_digits i)" by (simp add: index_key_def js_def)
  then show False using decimal_digits_digits [of i] by auto
qed

lemma no_holes: "length (filter (\<lambda>x. x \<noteq> None) xs) = length xs \<Longrightarrow> \<exists>ps. xs = map Some ps"
proof -
  assume a: "length (filter (\<lambda>x. x \<noteq> None) xs) = length xs"
  have "x \<noteq> None" if "x \<in> set xs" for x
    using length_filter_less [OF that, of "\<lambda>x. x \<noteq> None"] a by (cases "x = None") (simp_all del: not_None_eq)
  then have "map Some (map the xs) = xs" by (induction xs) auto
  then show ?thesis by metis
qed

lemma dense_own_names:
  "own_keys_exact (JArr p xs ps k) (map index_key [0..<length xs] @ [js ''length''])
     \<longleftrightarrow> (\<exists>qs. xs = map Some qs) \<and> ps = [] \<and> k = 0"
proof
  let ?l = "map fst (slot_props 0 xs)"
  assume "own_keys_exact (JArr p xs ps k) (map index_key [0..<length xs] @ [js ''length''])"
  then have eq: "?l @ js ''length'' # map fst ps = map index_key [0..<length xs] @ [js ''length'']"
    and k: "k = 0"
    by (simp_all add: own_keys_exact_def own_names_def own_props_def own_symbols_def)
  have le: "length ?l \<le> length xs" by (simp add: length_slot_props)
  have len: "length ?l = length xs"
  proof (rule ccontr)
    assume "length ?l \<noteq> length xs"
    with le have lt: "length ?l < length xs" by simp
    have "(?l @ js ''length'' # map fst ps) ! length ?l = js ''length''" by (metis nth_append_length)
    moreover have "(map index_key [0..<length xs] @ [js ''length'']) ! length ?l = index_key (length ?l)"
      using lt by (simp add: nth_append)
    ultimately show False using eq index_key_not_length by metis
  qed
  have "length (?l @ js ''length'' # map fst ps) = length (map index_key [0..<length xs] @ [js ''length''])"
    by (simp only: eq)
  with len have "ps = []" by simp
  then show "(\<exists>qs. xs = map Some qs) \<and> ps = [] \<and> k = 0"
    using k no_holes [of xs] len by (simp add: length_slot_props)
next
  assume "(\<exists>qs. xs = map Some qs) \<and> ps = [] \<and> k = 0"
  then show "own_keys_exact (JArr p xs ps k) (map index_key [0..<length xs] @ [js ''length''])"
    by (auto simp: own_keys_exact_def own_names_def own_props_def own_symbols_def slot_props_Some)
qed

lemma dense_array_iff:
  "is_ok (validate_plain_dense_array v n label) \<longleftrightarrow> (\<exists>vs. v = jarr vs \<and> length vs = n \<and> JUndefined \<notin> set vs)"
proof
  assume a: "is_ok (validate_plain_dense_array v n label)"
  then obtain xs ps k where v: "v = JArr Array_Prototype xs ps k" "length xs = n"
    by (auto simp: validate_plain_dense_array_def is_ok_checks split: jval.splits)
  with a have "own_keys_exact (JArr Array_Prototype xs ps k) (map index_key [0..<length xs] @ [js ''length''])"
    and pl: "list_all (\<lambda>s. case s of None \<Rightarrow> False | Some p \<Rightarrow> is_plain_data p) xs"
    by (simp_all add: validate_plain_dense_array_def is_ok_checks array_slots_def)
  then have ex: "ps = []" "k = 0" using dense_own_names by blast+
  have "\<exists>vs. xs = map (\<lambda>v. Some (jdata v)) vs \<and> JUndefined \<notin> set vs" using pl
  proof (induction xs)
    case (Cons x xs)
    then obtain vs w where "xs = map (\<lambda>v. Some (jdata v)) vs" "JUndefined \<notin> set vs" "x = Some (jdata w)" "w \<noteq> JUndefined"
      by (auto simp: is_plain_data_def jdata_def split: option.splits jprop.splits)
    then show ?case by (intro exI [of _ "w # vs"]) simp
  qed simp
  then show "\<exists>vs. v = jarr vs \<and> length vs = n \<and> JUndefined \<notin> set vs"
    using v ex by (auto simp: jarr_def)
next
  assume "\<exists>vs. v = jarr vs \<and> length vs = n \<and> JUndefined \<notin> set vs"
  then obtain vs where vs: "v = jarr vs" "length vs = n" "JUndefined \<notin> set vs" by blast
  let ?xs = "map (\<lambda>v. Some (jdata v)) vs"
  have "?xs = map Some (map jdata vs)" by simp
  then have "own_keys_exact (jarr vs) (map index_key [0..<length ?xs] @ [js ''length''])"
    unfolding jarr_def using dense_own_names by blast
  then show "is_ok (validate_plain_dense_array v n label)" using vs
    by (auto simp: validate_plain_dense_array_def is_ok_checks jarr_def array_slots_def
        is_plain_data_def jdata_def list_all_iff)
qed

lemma array_values_jarr [simp]: "array_values (jarr vs) = vs"
  by (simp add: array_values_def jarr_def array_slots_def prop_value_def jdata_def comp_def)

lemma is_array_jarr [simp]: "is_array (jarr vs)"
  by (simp add: is_array_def jarr_def)

end
