(* ===== verification/Timestamps.thy ===== *)
theory Timestamps
  imports WireGuards
begin

section \<open>Timestamps: \<open>Date\<close> and the exact RFC 3339 guard\<close>

text \<open>
  The ECMAScript day and year arithmetic (\<open>DayFromYear\<close>, \<open>YearFromTime\<close>, \<open>MakeDay\<close>), \<open>Date.parse\<close>
  on the fixed format of the wire and \<open>toISOString\<close>, in milliseconds as integers (exact: every
  value is below \<open>2 ^ 53\<close>). \<open>exactTimestamp\<close> and \<open>validateLifetime\<close> of client/wire.mjs are built on
  them; the main fact is that the guard accepts exactly the instants of the calendar.
\<close>

subsection \<open>Days and years\<close>

definition day_from_year :: "int \<Rightarrow> int" where
  "day_from_year y = 365 * (y - 1970) + (y - 1969) div 4 - (y - 1901) div 100 + (y - 1601) div 400"

definition is_leap_year :: "int \<Rightarrow> bool" where
  "is_leap_year y \<longleftrightarrow> y mod 4 = 0 \<and> (y mod 100 \<noteq> 0 \<or> y mod 400 = 0)"

definition year_from_day :: "int \<Rightarrow> int" where
  \<comment> \<open>the year whose first day is the last one not after \<open>d\<close>: a guess and its correction\<close>
  "year_from_day d = (let y = 1970 + 400 * d div 146097
     in if d < day_from_year y then y - 1 else if day_from_year (y + 1) \<le> d then y + 1 else y)"

definition month_start :: "bool \<Rightarrow> nat \<Rightarrow> int" where
  \<comment> \<open>days of the year before month \<open>m\<close>, counted from 1\<close>
  "month_start leap m = [0, 31, 59, 90, 120, 151, 181, 212, 243, 273, 304, 334, 365] ! (m - 1)
     + (if leap \<and> 2 < m then 1 else 0)"

definition days_in_month :: "bool \<Rightarrow> nat \<Rightarrow> int" where
  "days_in_month leap m = month_start leap (Suc m) - month_start leap m"

definition month_from_day :: "bool \<Rightarrow> int \<Rightarrow> nat" where
  "month_from_day leap d = length (filter (\<lambda>m. month_start leap m \<le> d) [1..<13])"

definition make_day :: "nat \<Rightarrow> nat \<Rightarrow> nat \<Rightarrow> int" where
  "make_day y m d = day_from_year (int y) + month_start (is_leap_year (int y)) m + int d - 1"

definition make_time :: "nat \<Rightarrow> nat \<Rightarrow> nat \<Rightarrow> nat \<Rightarrow> nat \<Rightarrow> nat \<Rightarrow> nat \<Rightarrow> int" where
  "make_time y m d h mi s ms = make_day y m d * 86400000
     + (int h * 3600000 + int mi * 60000 + int s * 1000 + int ms)"

subsection \<open>\<open>Date.parse\<close> and \<open>toISOString\<close>\<close>

definition mask_unit :: "char \<Rightarrow> code_unit \<Rightarrow> bool" where
  "mask_unit m c \<longleftrightarrow> (if m = CHR ''d'' then is_digit c else c = of_char m)"

definition matches_mask :: "string \<Rightarrow> jstring \<Rightarrow> bool" where
  "matches_mask shape s = list_all2 mask_unit shape s"

definition RFC3339_MILLISECONDS :: "jstring \<Rightarrow> bool" where
  "RFC3339_MILLISECONDS s = matches_mask ''dddd-dd-ddTdd:dd:dd.dddZ'' s"

definition digits_at :: "nat \<Rightarrow> nat \<Rightarrow> jstring \<Rightarrow> nat" where
  "digits_at i n s = digits_value (take n (drop i s))"

text \<open>
  \<open>Date.parse\<close> of a text in the format above; \<open>None\<close> is \<open>NaN\<close>. A day up to 31 is in bounds for
  every month and runs into the next one; the hour 24 is allowed at its full hour only.
\<close>

definition date_parse :: "jstring \<Rightarrow> int option" where
  "date_parse s = (let y = digits_at 0 4 s; m = digits_at 5 2 s; d = digits_at 8 2 s;
                       h = digits_at 11 2 s; mi = digits_at 14 2 s; sec = digits_at 17 2 s;
                       ms = digits_at 20 3 s
     in if \<not> RFC3339_MILLISECONDS s \<or> m < 1 \<or> 12 < m \<or> d < 1 \<or> 31 < d
           \<or> 24 < h \<or> 59 < mi \<or> 59 < sec \<or> (h = 24 \<and> (mi \<noteq> 0 \<or> sec \<noteq> 0 \<or> ms \<noteq> 0))
        then None else Some (make_time y m d h mi sec ms))"

primrec pad :: "nat \<Rightarrow> nat \<Rightarrow> jstring" where
  "pad 0 k = []"
| "pad (Suc n) k = pad n (k div 10) @ [48 + k mod 10]"

definition year_text :: "int \<Rightarrow> jstring" where
  "year_text y = (if 0 \<le> y \<and> y \<le> 9999 then pad 4 (nat y)
     else (if y < 0 then 45 else 43) # pad 6 (nat \<bar>y\<bar>))"

definition iso_text :: "int \<Rightarrow> nat \<Rightarrow> nat \<Rightarrow> nat \<Rightarrow> nat \<Rightarrow> nat \<Rightarrow> nat \<Rightarrow> jstring" where
  "iso_text y m d h mi s ms = year_text y @ [45] @ pad 2 m @ [45] @ pad 2 d @ [84] @ pad 2 h @ [58]
     @ pad 2 mi @ [58] @ pad 2 s @ [46] @ pad 3 ms @ [90]"

definition to_iso_string :: "int \<Rightarrow> jstring" where
  "to_iso_string t = (let day = t div 86400000; r = nat (t mod 86400000);
                          y = year_from_day day; leap = is_leap_year y;
                          n = day - day_from_year y; m = month_from_day leap n
     in iso_text y m (nat (n - month_start leap m + 1))
          (r div 3600000) (r div 60000 mod 60) (r div 1000 mod 60) (r mod 1000))"

subsection \<open>The guards\<close>

definition exact_timestamp :: "jval \<Rightarrow> string \<Rightarrow> unit result" where
  "exact_timestamp v label = checks
     [validate_unicode_scalar_string v label,
      if \<not> RFC3339_MILLISECONDS (str_of v)
      then Inl (fail_with (label @ '' must be exact RFC3339 milliseconds UTC''))
      else case date_parse (str_of v) of
        None \<Rightarrow> Inl Range_Error
      | Some t \<Rightarrow> ensure (to_iso_string t = str_of v)
                    (fail_with (label @ '' must be exact RFC3339 milliseconds UTC''))]
     (Inr ())"

definition validate_lifetime :: "jval \<Rightarrow> jval \<Rightarrow> unit result" where
  "validate_lifetime issued_at expires_at =
     ensure (case (date_parse (str_of issued_at), date_parse (str_of expires_at)) of
               (Some issued, Some expires) \<Rightarrow> issued < expires \<and> expires - issued \<le> 300000
             | _ \<Rightarrow> False)
       (fail_with ''request lifetime must be in (0, 300] seconds'')"

subsection \<open>The calendar\<close>

lemma day_from_year_bounds:
  "146097 * z - 700 < 400 * day_from_year (1970 + z)" "400 * day_from_year (1970 + z) < 146097 * z + 700"
proof -
  define a b c where "a = (z + 1) div 4" and "b = (z + 69) div 100" and "c = (z + 369) div 400"
  then have "4 * a \<le> z + 1" "z + 1 < 4 * a + 4" "100 * b \<le> z + 69" "z + 69 < 100 * b + 100"
    "400 * c \<le> z + 369" "z + 369 < 400 * c + 400" by linarith+
  moreover have "day_from_year (1970 + z) = 365 * z + a - b + c"
    by (simp add: day_from_year_def a_def b_def c_def add.commute)
  ultimately show "146097 * z - 700 < 400 * day_from_year (1970 + z)"
    "400 * day_from_year (1970 + z) < 146097 * z + 700" by linarith+
qed

lemma mult_div_gap: "n dvd m \<Longrightarrow> (y :: int) mod m = 0 \<Longrightarrow> y mod n = 0"
  by (metis dvd_trans mod_0_imp_dvd dvd_imp_mod_0)

lemma div_step: "0 < n \<Longrightarrow> (x + 1) div n = x div n + (if (x + 1) mod n = 0 then 1 else 0)" for x n :: int
proof -
  assume n: "0 < n"
  define q r where "q = x div n" and "r = x mod n"
  then have x: "x = q * n + r" "0 \<le> r" "r < n" using n by simp_all
  show ?thesis
  proof (cases "r + 1 = n")
    case True
    then have "x + 1 = (q + 1) * n" using x(1) by (simp add: algebra_simps)
    then show ?thesis using n q_def by simp
  next
    case False
    then have "(x + 1) div n = q" "(x + 1) mod n = r + 1"
      using x n by (auto intro!: int_div_pos_eq [where r = "r + 1"] int_mod_pos_eq [where q = q] simp: algebra_simps)
    then show ?thesis using x(2) q_def by simp
  qed
qed

lemma year_length: "day_from_year (y + 1) = day_from_year y + (if is_leap_year y then 366 else 365)"
proof -
  have a: "(y + 1 - 1969) div 4 = (y - 1969) div 4 + (if y mod 4 = 0 then 1 else 0)"
    using div_step [of 4 "y - 1969"] mod_mult_self1 [of y "- 492" 4] by (simp add: algebra_simps)
  have b: "(y + 1 - 1901) div 100 = (y - 1901) div 100 + (if y mod 100 = 0 then 1 else 0)"
    using div_step [of 100 "y - 1901"] mod_mult_self1 [of y "- 19" 100] by (simp add: algebra_simps)
  have c: "(y + 1 - 1601) div 400 = (y - 1601) div 400 + (if y mod 400 = 0 then 1 else 0)"
    using div_step [of 400 "y - 1601"] mod_mult_self1 [of y "- 4" 400] by (simp add: algebra_simps)
  have d: "y mod 100 = 0 \<Longrightarrow> y mod 4 = 0" "y mod 400 = 0 \<Longrightarrow> y mod 100 = 0"
    by (rule mult_div_gap; simp)+
  have "day_from_year (y + 1) = day_from_year y + 365 + (if y mod 4 = 0 then 1 else 0)
      - (if y mod 100 = 0 then 1 else 0) + (if y mod 400 = 0 then 1 else 0)"
    unfolding day_from_year_def a b c by (simp only: algebra_simps)
  then show ?thesis
    using d by (cases "y mod 4 = 0"; cases "y mod 100 = 0"; cases "y mod 400 = 0") (simp_all add: is_leap_year_def)
qed

lemma year_from_day_unique:
  assumes "day_from_year y \<le> d" "d < day_from_year (y + 1)"
  shows "year_from_day d = y"
proof -
  define z g where "z = y - 1970" and "g = 400 * d div 146097"
  then have y: "y = 1970 + z" by simp
  have "146097 * g \<le> 400 * d" "400 * d < 146097 * g + 146097"
    unfolding g_def by linarith+
  with assms day_from_year_bounds [of z] day_from_year_bounds [of "z + 1"]
  have "g = z \<or> g = z - 1 \<or> g = z + 1" unfolding y by (simp add: add.assoc) linarith
  then have "1970 + g = y \<or> 1970 + g = y - 1 \<or> 1970 + g = y + 1" using y by auto
  then show ?thesis
    using assms year_length [of "y - 1"] year_length [of y]
    by (auto simp: year_from_day_def Let_def simp flip: g_def split: if_splits)
qed

lemma months: "1 \<le> m \<Longrightarrow> m \<le> (12::nat) \<Longrightarrow> m \<in> {1, 2, 3, 4, 5, 6, 7, 8, 9, 10, 11, 12}"
  by (simp only: insert_iff empty_iff) presburger

lemma month_starts:
  "month_start leap 1 = 0" "month_start leap 2 = 31" "month_start leap 3 = (if leap then 60 else 59)"
  "month_start leap 4 = (if leap then 91 else 90)" "month_start leap 5 = (if leap then 121 else 120)"
  "month_start leap 6 = (if leap then 152 else 151)" "month_start leap 7 = (if leap then 182 else 181)"
  "month_start leap 8 = (if leap then 213 else 212)" "month_start leap 9 = (if leap then 244 else 243)"
  "month_start leap 10 = (if leap then 274 else 273)" "month_start leap 11 = (if leap then 305 else 304)"
  "month_start leap 12 = (if leap then 335 else 334)" "month_start leap 13 = (if leap then 366 else 365)"
  by (simp_all add: month_start_def)

lemma month_range: "[1..<13] = [1, 2, 3, 4, 5, 6, 7, 8, 9, 10, 11, 12::nat]"
  by (simp add: upt_rec)

lemma month_from_day_unique:
  assumes "1 \<le> m" "m \<le> 12" "1 \<le> d" "d \<le> days_in_month leap m"
  shows "month_from_day leap (month_start leap m + d - 1) = m"
  using months [OF assms(1,2)] assms(3,4)
  by (cases leap) (elim insertE emptyE; simp add: month_from_day_def days_in_month_def month_range month_starts del: One_nat_def)+

lemma month_fits:
  assumes "1 \<le> m" "m \<le> 12" "1 \<le> d" "d \<le> days_in_month leap m"
  shows "0 \<le> month_start leap m + d - 1" "month_start leap m + d - 1 < (if leap then 366 else 365)"
  using months [OF assms(1,2)] assms(3,4)
  by (cases leap; elim insertE emptyE; simp add: days_in_month_def month_starts del: One_nat_def)+

definition valid_civil :: "nat \<Rightarrow> nat \<Rightarrow> nat \<Rightarrow> nat \<Rightarrow> nat \<Rightarrow> nat \<Rightarrow> nat \<Rightarrow> bool" where
  "valid_civil y m d h mi s ms \<longleftrightarrow> y \<le> 9999 \<and> 1 \<le> m \<and> m \<le> 12 \<and> 1 \<le> d
     \<and> int d \<le> days_in_month (is_leap_year (int y)) m \<and> h < 24 \<and> mi < 60 \<and> s < 60 \<and> ms < 1000"

lemma time_parts:
  fixes h mi s ms :: nat
  assumes "h < 24" "mi < 60" "s < 60" "ms < 1000" and r: "r = h * 3600000 + mi * 60000 + s * 1000 + ms"
  shows "r < 86400000" "r div 3600000 = h" "r div 60000 mod 60 = mi" "r div 1000 mod 60 = s" "r mod 1000 = ms"
proof -
  show "r < 86400000" using assms by linarith
  have "r = h * 3600000 + (mi * 60000 + s * 1000 + ms)" "mi * 60000 + s * 1000 + ms < 3600000"
    using assms by linarith+
  then show "r div 3600000 = h" by simp
  have "r = (h * 60 + mi) * 60000 + (s * 1000 + ms)" "s * 1000 + ms < 60000"
    using assms by (simp_all add: algebra_simps)
  then have "r div 60000 = h * 60 + mi" by simp
  then show "r div 60000 mod 60 = mi" using assms by simp
  have "r = ((h * 60 + mi) * 60 + s) * 1000 + ms" using r by (simp add: algebra_simps)
  then have "r div 1000 = (h * 60 + mi) * 60 + s" and m: "r mod 1000 = ms"
    using assms(4) by (simp_all only: div_mult_self3 mod_mult_self3) simp_all
  then show "r div 1000 mod 60 = s" "r mod 1000 = ms" using assms(3) by (metis mod_less mod_mult_self3)+
qed

lemma to_iso_make_time:
  assumes "valid_civil y m d h mi s ms"
  shows "to_iso_string (make_time y m d h mi s ms) = iso_text (int y) m d h mi s ms"
proof -
  define r where "r = h * 3600000 + mi * 60000 + s * 1000 + ms"
  let ?leap = "is_leap_year (int y)" and ?n = "month_start (is_leap_year (int y)) m + int d - 1"
  note v = assms [unfolded valid_civil_def]
  have r: "r < 86400000" "r div 3600000 = h" "r div 60000 mod 60 = mi" "r div 1000 mod 60 = s" "r mod 1000 = ms"
    using time_parts [of h mi s ms] v by (simp_all add: r_def)
  have t: "make_time y m d h mi s ms = make_day y m d * 86400000 + int r"
    by (simp add: make_time_def r_def)
  have day: "make_time y m d h mi s ms div 86400000 = make_day y m d"
    and rest: "nat (make_time y m d h mi s ms mod 86400000) = r"
    unfolding t using r(1) by simp_all
  have n: "0 \<le> ?n" "?n < (if ?leap then 366 else 365)"
    using month_fits [of m "int d" ?leap] v by simp_all
  have md: "make_day y m d = day_from_year (int y) + ?n" by (simp add: make_day_def)
  have yr: "year_from_day (day_from_year (int y) + ?n) = int y"
    using n year_length [of "int y"] by (intro year_from_day_unique) (simp_all split: if_splits)
  have mon: "month_from_day ?leap ?n = m" using v by (intro month_from_day_unique) simp_all
  show ?thesis
    unfolding to_iso_string_def day rest Let_def md yr using mon by (simp add: r)
qed

subsection \<open>Digits\<close>

lemma length_pad [simp]: "length (pad n k) = n"
  by (induction n arbitrary: k) simp_all

lemma pad_digits: "list_all is_digit (pad n k)"
  by (induction n arbitrary: k) (simp_all add: is_digit_def)

lemma digits_value_snoc [simp]: "digits_value (ds @ [c]) = 10 * digits_value ds + (c - 48)"
  by (simp add: digits_value_def)

lemma digits_value_Nil [simp]: "digits_value [] = 0"
  by (simp add: digits_value_def)

lemma digits_value_pad: "k < 10 ^ n \<Longrightarrow> digits_value (pad n k) = k"
  by (induction n arbitrary: k) (simp_all add: less_mult_imp_div_less mult.commute)

lemma pad_digits_value: "list_all is_digit ds \<Longrightarrow> pad (length ds) (digits_value ds) = ds"
proof (induction ds rule: rev_induct)
  case (snoc c ds)
  then obtain k where "c = 48 + k" "k < 10" by (auto simp: is_digit_def nat_le_iff_add)
  with snoc show ?case by simp
qed simp

lemma digits_value_less: "list_all is_digit ds \<Longrightarrow> digits_value ds < 10 ^ length ds"
proof (induction ds rule: rev_induct)
  case (snoc c ds)
  then have "c - 48 < 10" "digits_value ds < 10 ^ length ds" by (auto simp: is_digit_def)
  then show ?case by simp
qed simp

subsection \<open>The guard accepts the instants of the calendar\<close>

definition timestamp_parts :: "jstring \<Rightarrow> jstring \<Rightarrow> jstring \<Rightarrow> jstring \<Rightarrow> jstring \<Rightarrow> jstring \<Rightarrow> jstring \<Rightarrow> jstring" where
  "timestamp_parts y m d h mi sec ms =
     y @ [45] @ m @ [45] @ d @ [84] @ h @ [58] @ mi @ [58] @ sec @ [46] @ ms @ [90]"

definition digits_n :: "nat \<Rightarrow> jstring \<Rightarrow> bool" where
  "digits_n n ds \<longleftrightarrow> length ds = n \<and> list_all is_digit ds"

lemma digits_n_pad [simp]: "digits_n n (pad n k)"
  by (simp add: digits_n_def pad_digits)

primrec mask_of :: "(nat \<times> char) list \<Rightarrow> string" where
  "mask_of [] = []"
| "mask_of (f # fs) = replicate (fst f) CHR ''d'' @ snd f # mask_of fs"

lemma mask_of_digits:
  "list_all2 mask_unit (replicate n CHR ''d'') u \<longleftrightarrow> digits_n n u"
proof (induction n arbitrary: u)
  case (Suc n)
  then show ?case by (cases u) (auto simp: digits_n_def mask_unit_def)
qed (auto simp: digits_n_def)

lemma matches_mask_of:
  "list_all (\<lambda>f. snd f \<noteq> CHR ''d'') fs \<Longrightarrow> matches_mask (mask_of fs) s \<longleftrightarrow>
     (\<exists>us. list_all2 (\<lambda>f u. digits_n (fst f) u) fs us
        \<and> s = concat (map (\<lambda>(f, u). u @ [of_char (snd f)]) (zip fs us)))"
proof (induction fs arbitrary: s)
  case (Cons f fs)
  have "matches_mask (mask_of (f # fs)) s \<longleftrightarrow>
      (\<exists>u v. s = u @ of_char (snd f) # v \<and> digits_n (fst f) u \<and> matches_mask (mask_of fs) v)"
  proof
    assume "matches_mask (mask_of (f # fs)) s"
    then obtain u w where "s = u @ w" "digits_n (fst f) u"
      "list_all2 mask_unit (snd f # mask_of fs) w"
      by (auto simp: matches_mask_def list_all2_append1 mask_of_digits simp del: list_all2_Cons)
    with Cons.prems show "\<exists>u v. s = u @ of_char (snd f) # v \<and> digits_n (fst f) u \<and> matches_mask (mask_of fs) v"
      by (cases w) (auto simp: matches_mask_def mask_unit_def)
  next
    assume "\<exists>u v. s = u @ of_char (snd f) # v \<and> digits_n (fst f) u \<and> matches_mask (mask_of fs) v"
    then obtain u v where "s = u @ of_char (snd f) # v" "digits_n (fst f) u" "matches_mask (mask_of fs) v" by blast
    with Cons.prems show "matches_mask (mask_of (f # fs)) s"
      by (simp add: matches_mask_def list_all2_appendI mask_of_digits mask_unit_def)
  qed
  also have "\<dots> \<longleftrightarrow> (\<exists>u us. digits_n (fst f) u \<and> list_all2 (\<lambda>f u. digits_n (fst f) u) fs us
      \<and> s = u @ of_char (snd f) # concat (map (\<lambda>(f, u). u @ [of_char (snd f)]) (zip fs us)))"
    using Cons by auto
  also have "\<dots> \<longleftrightarrow> (\<exists>us. list_all2 (\<lambda>f u. digits_n (fst f) u) (f # fs) us
      \<and> s = concat (map (\<lambda>(f, u). u @ [of_char (snd f)]) (zip (f # fs) us)))" (is "?l \<longleftrightarrow> (\<exists>us. ?q us)")
  proof
    assume ?l
    then obtain u us where "digits_n (fst f) u" "list_all2 (\<lambda>f u. digits_n (fst f) u) fs us"
      "s = u @ of_char (snd f) # concat (map (\<lambda>(f, u). u @ [of_char (snd f)]) (zip fs us))" by blast
    then have "?q (u # us)" by simp
    then show "\<exists>us. ?q us" ..
  next
    assume "\<exists>us. ?q us"
    then obtain us where us: "?q us" ..
    then obtain u us' where "us = u # us'" by (cases us) auto
    with us have "digits_n (fst f) u" "list_all2 (\<lambda>f u. digits_n (fst f) u) fs us'"
      "s = u @ of_char (snd f) # concat (map (\<lambda>(f, u). u @ [of_char (snd f)]) (zip fs us'))" by simp_all
    then show ?l by blast
  qed
  finally show ?case .
qed (simp add: matches_mask_def)

lemma timestamp_mask: "''dddd-dd-ddTdd:dd:dd.dddZ'' = mask_of [(4, CHR ''-''), (2, CHR ''-''), (2, CHR ''T''),
    (2, CHR '':''), (2, CHR '':''), (2, CHR ''.''), (3, CHR ''Z'')]"
  by (simp add: numeral_eq_Suc)

lemma timestamp_parts_iff:
  "RFC3339_MILLISECONDS s \<longleftrightarrow> (\<exists>y m d h mi sec ms. digits_n 4 y \<and> digits_n 2 m \<and> digits_n 2 d \<and> digits_n 2 h
     \<and> digits_n 2 mi \<and> digits_n 2 sec \<and> digits_n 3 ms \<and> s = timestamp_parts y m d h mi sec ms)" (is "_ \<longleftrightarrow> ?r")
proof -
  let ?fs = "[(4 :: nat, CHR ''-''), (2, CHR ''-''), (2, CHR ''T''), (2, CHR '':''), (2, CHR '':''), (2, CHR ''.''), (3, CHR ''Z'')]"
  have m: "RFC3339_MILLISECONDS s \<longleftrightarrow> (\<exists>us. list_all2 (\<lambda>f u. digits_n (fst f) u) ?fs us
      \<and> s = concat (map (\<lambda>(f, u). u @ [of_char (snd f)]) (zip ?fs us)))"
    unfolding RFC3339_MILLISECONDS_def timestamp_mask by (rule matches_mask_of) simp
  show ?thesis
  proof
    assume "RFC3339_MILLISECONDS s"
    with m obtain us where us: "list_all2 (\<lambda>f u. digits_n (fst f) u) ?fs us"
      "s = concat (map (\<lambda>(f, u). u @ [of_char (snd f)]) (zip ?fs us))" by blast
    have "length us = Suc (Suc (Suc (Suc (Suc (Suc (Suc 0))))))" using list_all2_lengthD [OF us(1)] by simp
    then obtain y m d h mi sec ms where "us = [y, m, d, h, mi, sec, ms]"
      by (simp only: length_Suc_conv length_0_conv) blast
    with us have "digits_n 4 y \<and> digits_n 2 m \<and> digits_n 2 d \<and> digits_n 2 h \<and> digits_n 2 mi
        \<and> digits_n 2 sec \<and> digits_n 3 ms \<and> s = timestamp_parts y m d h mi sec ms"
      by (simp add: timestamp_parts_def)
    then show ?r by blast
  next
    assume ?r
    then obtain y m d h mi sec ms where "list_all2 (\<lambda>f u. digits_n (fst f) u) ?fs [y, m, d, h, mi, sec, ms]"
      "s = timestamp_parts y m d h mi sec ms" by fastforce
    then show "RFC3339_MILLISECONDS s"
      unfolding m by (intro exI [of _ "[y, m, d, h, mi, sec, ms]"]) (simp add: timestamp_parts_def)
  qed
qed

lemma timestamp_parts_mask:
  assumes "digits_n 4 y" "digits_n 2 m" "digits_n 2 d" "digits_n 2 h" "digits_n 2 mi" "digits_n 2 sec" "digits_n 3 ms"
  shows "RFC3339_MILLISECONDS (timestamp_parts y m d h mi sec ms)"
  using assms timestamp_parts_iff by blast

lemma timestamp_parts_digits:
  assumes "digits_n 4 y" "digits_n 2 m" "digits_n 2 d" "digits_n 2 h" "digits_n 2 mi" "digits_n 2 sec" "digits_n 3 ms"
  defines "s \<equiv> timestamp_parts y m d h mi sec ms"
  shows "digits_at 0 4 s = digits_value y" "digits_at 5 2 s = digits_value m" "digits_at 8 2 s = digits_value d"
    "digits_at 11 2 s = digits_value h" "digits_at 14 2 s = digits_value mi" "digits_at 17 2 s = digits_value sec"
    "digits_at 20 3 s = digits_value ms"
  using assms by (simp_all add: timestamp_parts_def digits_at_def digits_n_def)

lemma iso_text_parts:
  "y \<le> 9999 \<Longrightarrow> iso_text (int y) m d h mi s ms
     = timestamp_parts (pad 4 y) (pad 2 m) (pad 2 d) (pad 2 h) (pad 2 mi) (pad 2 s) (pad 3 ms)"
  by (simp add: iso_text_def year_text_def timestamp_parts_def)

lemma iso_text_mask: "y \<le> 9999 \<Longrightarrow> RFC3339_MILLISECONDS (iso_text (int y) m d h mi s ms)"
  by (simp add: iso_text_parts timestamp_parts_mask del: pad.simps)

lemma iso_text_digits:
  assumes "y \<le> 9999" "m < 100" "d < 100" "h < 100" "mi < 100" "s < 100" "ms < 1000"
  defines "t \<equiv> iso_text (int y) m d h mi s ms"
  shows "digits_at 0 4 t = y" "digits_at 5 2 t = m" "digits_at 8 2 t = d" "digits_at 11 2 t = h"
    "digits_at 14 2 t = mi" "digits_at 17 2 t = s" "digits_at 20 3 t = ms"
  using assms by (simp_all add: iso_text_parts timestamp_parts_digits digits_value_pad del: pad.simps)

lemma mask_iso_text:
  assumes "RFC3339_MILLISECONDS s"
  shows "s = iso_text (int (digits_at 0 4 s)) (digits_at 5 2 s) (digits_at 8 2 s) (digits_at 11 2 s)
      (digits_at 14 2 s) (digits_at 17 2 s) (digits_at 20 3 s)"
    "digits_at 0 4 s \<le> 9999" "digits_at 20 3 s \<le> 999"
proof -
  from assms obtain y m d h mi sec ms where dg: "digits_n 4 y" "digits_n 2 m" "digits_n 2 d" "digits_n 2 h"
      "digits_n 2 mi" "digits_n 2 sec" "digits_n 3 ms"
    and s: "s = timestamp_parts y m d h mi sec ms" unfolding timestamp_parts_iff by blast
  note at = timestamp_parts_digits [OF dg, folded s]
  have p: "digits_n n ds \<Longrightarrow> pad n (digits_value ds) = ds" for n ds
    using pad_digits_value by (auto simp: digits_n_def)
  have l: "digits_n n ds \<Longrightarrow> digits_value ds < 10 ^ n" for n ds
    using digits_value_less by (auto simp: digits_n_def)
  show y9: "digits_at 0 4 s \<le> 9999" and "digits_at 20 3 s \<le> 999"
    using l [OF dg(1)] l [OF dg(7)] by (simp_all add: at)
  have "iso_text (int (digits_at 0 4 s)) (digits_at 5 2 s) (digits_at 8 2 s) (digits_at 11 2 s)
      (digits_at 14 2 s) (digits_at 17 2 s) (digits_at 20 3 s) = timestamp_parts y m d h mi sec ms"
    unfolding iso_text_parts [OF y9] by (simp only: at p [OF dg(1)] p [OF dg(2)] p [OF dg(3)] p [OF dg(4)]
        p [OF dg(5)] p [OF dg(6)] p [OF dg(7)])
  then show "s = iso_text (int (digits_at 0 4 s)) (digits_at 5 2 s) (digits_at 8 2 s) (digits_at 11 2 s)
      (digits_at 14 2 s) (digits_at 17 2 s) (digits_at 20 3 s)" by (simp only: s)
qed

lemma days_in_month_le: "1 \<le> m \<Longrightarrow> m \<le> 12 \<Longrightarrow> days_in_month leap m \<le> 31"
  by (drule (1) months, elim insertE emptyE; simp add: days_in_month_def month_starts del: One_nat_def)

lemma date_parse_iso:
  assumes "valid_civil y m d h mi s ms"
  shows "date_parse (iso_text (int y) m d h mi s ms) = Some (make_time y m d h mi s ms)"
proof -
  note v = assms [unfolded valid_civil_def]
  have "d \<le> 31" using v days_in_month_le [of m "is_leap_year (int y)"] by simp
  then show ?thesis
    using v iso_text_digits [of y m d h mi s ms] iso_text_mask [of y m d h mi s ms]
    by (simp add: date_parse_def Let_def)
qed

lemma iso_text_ascii: "is_ascii (iso_text (int y) m d h mi s ms)" if "y \<le> 9999"
proof -
  have "is_ascii (pad n k)" for n k by (induction n arbitrary: k) simp_all
  then show ?thesis using that by (simp add: iso_text_def year_text_def)
qed

lemma time_fields:
  fixes r :: nat
  assumes "r < 86400000"
  shows "r div 3600000 < 24" "r = r div 3600000 * 3600000 + r div 60000 mod 60 * 60000 + r div 1000 mod 60 * 1000 + r mod 1000"
proof -
  show "r div 3600000 < 24" using assms by (simp add: less_mult_imp_div_less)
  define a b c where "a = r div 1000" and "b = a div 60" and "c = b div 60"
  have "r = a * 1000 + r mod 1000" "a = b * 60 + a mod 60" "b = c * 60 + b mod 60"
    by (simp_all add: a_def b_def c_def)
  moreover have "r div 60000 = b" "r div 3600000 = c"
    by (simp_all add: a_def b_def c_def div_mult2_eq [symmetric])
  ultimately show "r = r div 3600000 * 3600000 + r div 60000 mod 60 * 60000 + r div 1000 mod 60 * 1000 + r mod 1000"
    by (simp only: a_def [symmetric])
qed

text \<open>Every time value of the days of the years 0 to 9999 is the instant of the fields it prints.\<close>

definition year_of_time :: "int \<Rightarrow> int" where
  "year_of_time t = year_from_day (t div 86400000)"

lemma year_from_day_spec: "day_from_year (year_from_day d) \<le> d" "d < day_from_year (year_from_day d + 1)"
proof -
  define g where "g = 400 * d div 146097"
  have "146097 * g \<le> 400 * d" "400 * d < 146097 * g + 146097" unfolding g_def by linarith+
  with day_from_year_bounds [of "g - 1"] day_from_year_bounds [of "g + 2"]
  have b: "day_from_year (1970 + g - 1) \<le> d" "d < day_from_year (1970 + g + 2)"
    by (simp_all add: algebra_simps)
  have "1970 + 400 * d div 146097 = 1970 + g" by (simp add: g_def)
  with b show "day_from_year (year_from_day d) \<le> d" "d < day_from_year (year_from_day d + 1)"
    unfolding year_from_day_def by (auto simp: Let_def)
qed

lemma month_fields:
  assumes "0 \<le> n" "n < (if leap then 366 else 365)"
  defines "m \<equiv> month_from_day leap n"
  shows "1 \<le> m \<and> m \<le> 12 \<and> month_start leap m \<le> n \<and> n - month_start leap m < days_in_month leap m"
proof -
  have len: "length (filter (\<lambda>m. month_start leap m \<le> n) [1, 2, 3, 4, 5, 6, 7, 8, 9, 10, 11, 12])
      = (if month_start leap 12 \<le> n then 12 else if month_start leap 11 \<le> n then 11
        else if month_start leap 10 \<le> n then 10 else if month_start leap 9 \<le> n then 9
        else if month_start leap 8 \<le> n then 8 else if month_start leap 7 \<le> n then 7
        else if month_start leap 6 \<le> n then 6 else if month_start leap 5 \<le> n then 5
        else if month_start leap 4 \<le> n then 4 else if month_start leap 3 \<le> n then 3
        else if month_start leap 2 \<le> n then 2 else 1)"
    using assms(1) by (cases leap) (auto simp: month_starts simp del: One_nat_def)
  have ms: "m \<in> {1, 2, 3, 4, 5, 6, 7, 8, 9, 10, 11, 12}"
    unfolding m_def month_from_day_def month_range len by simp
  have "month_start leap m \<le> n \<and> n < month_start leap (m + 1)"
    using assms(1,2) unfolding m_def month_from_day_def month_range len
    by (cases leap) (simp_all add: month_starts del: One_nat_def)
  with ms show ?thesis by (auto simp: days_in_month_def)
qed

lemma to_iso_civil:
  assumes y: "0 \<le> year_of_time t" "year_of_time t \<le> 9999"
  obtains y m d h mi s ms where "valid_civil y m d h mi s ms" "to_iso_string t = iso_text (int y) m d h mi s ms"
    "make_time y m d h mi s ms = t"
proof -
  define day r yy where "day = t div 86400000" and "r = nat (t mod 86400000)" and "yy = year_of_time t"
  define n where "n = day - day_from_year yy"
  define leap where "leap = is_leap_year yy"
  define m where "m = month_from_day leap n"
  define d where "d = nat (n - month_start leap m + 1)"
  have r: "r < 86400000" "t = day * 86400000 + int r" by (simp_all add: r_def day_def nat_less_iff)
  have n: "0 \<le> n" "n < (if leap then 366 else 365)"
    using year_from_day_spec [of day] year_length [of yy]
    by (simp_all add: n_def leap_def yy_def year_of_time_def day_def)
  note mf = month_fields [OF n, folded m_def]
  have v: "valid_civil (nat yy) m d (r div 3600000) (r div 60000 mod 60) (r div 1000 mod 60) (r mod 1000)"
    using mf y time_fields(1) [OF r(1)] unfolding valid_civil_def d_def leap_def yy_def
    by (simp add: nat_le_iff nat_less_iff le_nat_iff)
  have iso: "to_iso_string t = iso_text (int (nat yy)) m d (r div 3600000) (r div 60000 mod 60) (r div 1000 mod 60) (r mod 1000)"
    using y by (simp add: to_iso_string_def Let_def year_of_time_def yy_def d_def m_def n_def leap_def r_def day_def)
  have "make_day (nat yy) m d = day"
    using mf y by (simp add: make_day_def d_def leap_def n_def yy_def)
  moreover have "int r = int (r div 3600000) * 3600000 + int (r div 60000 mod 60) * 60000 + int (r div 1000 mod 60) * 1000 + int (r mod 1000)"
    using arg_cong [OF time_fields(2) [OF r(1)], of int] by (simp only: of_nat_add of_nat_mult of_nat_numeral)
  ultimately have "make_time (nat yy) m d (r div 3600000) (r div 60000 mod 60) (r div 1000 mod 60) (r mod 1000) = t"
    using r(2) by (simp add: make_time_def)
  with v iso that show thesis by blast
qed

subsection \<open>What the guards establish\<close>

lemma scan_scalars_ascii_string: "is_ascii s \<Longrightarrow> is_ok (validate_unicode_scalar_string (JStr s) l)"
  by (simp add: validate_unicode_scalar_string_def scan_scalars_ascii)

definition instant :: "jval \<Rightarrow> int" where
  \<comment> \<open>the milliseconds a timestamp value denotes\<close>
  "instant v = the (date_parse (str_of v))"

lemma year_of_make_time:
  assumes "1 \<le> m" "m \<le> 12" "1 \<le> d" "d \<le> 31" "to_iso_string t = iso_text (int y) m d h mi s ms" "y \<le> 9999"
  shows "0 \<le> year_of_time t \<and> year_of_time t \<le> 9999"
proof (rule ccontr)
  assume "\<not> ?thesis"
  then have "to_iso_string t \<noteq> [] \<and> (hd (to_iso_string t) = 45 \<or> hd (to_iso_string t) = 43)"
    by (auto simp: to_iso_string_def Let_def iso_text_def year_text_def year_of_time_def)
  moreover have "is_digit (hd (iso_text (int y) m d h mi s ms))"
    using assms(6) pad_digits [of 4 y] length_pad [of 4 y] by (auto simp del: length_pad simp add: iso_text_def year_text_def hd_append list_all_iff)
  ultimately show False using assms(5) by (auto simp: is_digit_def)
qed

theorem exact_timestamp_calendar:
  "is_ok (exact_timestamp v label) \<longleftrightarrow>
     (\<exists>y m d h mi s ms. valid_civil y m d h mi s ms \<and> v = JStr (iso_text (int y) m d h mi s ms))"
proof
  assume a: "is_ok (exact_timestamp v label)"
  then obtain s where v: "v = JStr s" and mk: "RFC3339_MILLISECONDS s"
    by (auto simp: exact_timestamp_def is_ok_checks validate_unicode_scalar_string_def str_of_def split: jval.splits if_splits)
  with a obtain t where t: "date_parse s = Some t" "to_iso_string t = s"
    by (auto simp: exact_timestamp_def is_ok_checks str_of_def split: option.splits)
  let ?m = "digits_at 5 2 s" and ?d = "digits_at 8 2 s"
  have "to_iso_string t = iso_text (int (digits_at 0 4 s)) ?m ?d (digits_at 11 2 s)
      (digits_at 14 2 s) (digits_at 17 2 s) (digits_at 20 3 s)"
    using mask_iso_text(1) [OF mk] t(2) by simp
  moreover have "1 \<le> ?m \<and> ?m \<le> 12 \<and> 1 \<le> ?d \<and> ?d \<le> 31"
    using t(1) by (auto simp: date_parse_def Let_def split: if_splits)
  ultimately have y: "0 \<le> year_of_time t" "year_of_time t \<le> 9999"
    using year_of_make_time mask_iso_text(2) [OF mk] by blast+
  from to_iso_civil [OF y] obtain y m d h mi sec ms where
    "valid_civil y m d h mi sec ms" "to_iso_string t = iso_text (int y) m d h mi sec ms" .
  with t(2) v show "\<exists>y m d h mi s ms. valid_civil y m d h mi s ms \<and> v = JStr (iso_text (int y) m d h mi s ms)"
    by blast
next
  assume "\<exists>y m d h mi s ms. valid_civil y m d h mi s ms \<and> v = JStr (iso_text (int y) m d h mi s ms)"
  then obtain y m d h mi s ms where c: "valid_civil y m d h mi s ms" and v: "v = JStr (iso_text (int y) m d h mi s ms)"
    by blast
  then have y: "y \<le> 9999" by (simp add: valid_civil_def)
  show "is_ok (exact_timestamp v label)"
    using scan_scalars_ascii_string [OF iso_text_ascii [OF y]] iso_text_mask [OF y] date_parse_iso [OF c] to_iso_make_time [OF c]
    by (simp add: exact_timestamp_def is_ok_checks v str_of_def)
qed

lemma exact_timestamp_instant:
  assumes "is_ok (exact_timestamp v label)"
  shows "date_parse (str_of v) = Some (instant v)" "to_iso_string (instant v) = str_of v"
    "v = JStr (to_iso_string (instant v))"
proof -
  from assms [unfolded exact_timestamp_calendar] obtain y m d h mi s ms where
    c: "valid_civil y m d h mi s ms" and v: "v = JStr (iso_text (int y) m d h mi s ms)" by blast
  have p: "date_parse (str_of v) = Some (make_time y m d h mi s ms)" by (simp add: v str_of_def date_parse_iso [OF c])
  then show "date_parse (str_of v) = Some (instant v)" by (simp add: instant_def)
  show iso: "to_iso_string (instant v) = str_of v"
    using p to_iso_make_time [OF c] by (simp add: instant_def v str_of_def)
  then show "v = JStr (to_iso_string (instant v))" by (simp add: v str_of_def)
qed

lemma validate_lifetime_iff:
  assumes "is_ok (exact_timestamp i l)" "is_ok (exact_timestamp e l')"
  shows "is_ok (validate_lifetime i e) \<longleftrightarrow> instant i < instant e \<and> instant e - instant i \<le> 300000"
  using exact_timestamp_instant(1) [OF assms(1)] exact_timestamp_instant(1) [OF assms(2)]
  by (simp add: validate_lifetime_def)

lemma exact_timestamp_defined: "is_ok (exact_timestamp v l) \<Longrightarrow> v \<noteq> JUndefined"
  by (auto simp: exact_timestamp_calendar)

end
