(* ===== verification/Codecs.thy ===== *)
theory Codecs
  imports WireEncoding
begin

section \<open>Canonical codecs\<close>

text \<open>
  What the wire relies on in an encoding: decoding what was encoded gives it back, and nothing else
  decodes, so a value has one text. The contract is a locale; base64url with its bounds and the
  32-byte form are its interpretations on the definitions of the module, and the CID check is shown
  to accept one text per digest.
\<close>

locale canonical_codec =
  fixes enc :: "'a \<Rightarrow> 'b" and dec :: "'b \<Rightarrow> 'e + 'a" and dom :: "'a \<Rightarrow> bool"
  assumes dec_enc: "dom x \<Longrightarrow> dec (enc x) = Inr x"
    and enc_dec: "dec y = Inr x \<Longrightarrow> dom x \<and> y = enc x"
begin

lemma dec_Inr_iff: "dec y = Inr x \<longleftrightarrow> dom x \<and> y = enc x"
  using dec_enc enc_dec by blast

lemma enc_inj: "dom x \<Longrightarrow> dom y \<Longrightarrow> enc x = enc y \<Longrightarrow> x = y"
  using dec_enc by (metis Inr_inject)

lemma dec_inj: "dec y = Inr x \<Longrightarrow> dec z = Inr x \<Longrightarrow> y = z"
  using enc_dec by blast

lemma is_ok_dec: "is_ok (dec y) \<longleftrightarrow> (\<exists>x. dom x \<and> y = enc x)"
  using dec_Inr_iff is_ok_iff by metis

end

subsection \<open>Sextets\<close>

lemma base64_sextets_less: "list_all (\<lambda>n. n < 256) ns \<Longrightarrow> list_all (\<lambda>n. n < 64) (base64_sextets ns)"
  by (induction ns rule: base64_sextets.induct) auto

lemma length_base64_sextets: "length (base64_sextets ns) = (4 * length ns + 2) div 3"
  by (induction ns rule: base64_sextets.induct) auto

lemma sextet_digits: "(a :: nat) < 256 \<Longrightarrow> (a div 4) * 4 + (a mod 4 * 16 + b) div 16 = a"
  "(a mod 4 * 16 + b) mod 16 = b" if "b < 16" for a b
proof -
  have "(a mod 4 * 16 + b) div 16 = a mod 4" "(a mod 4 * 16 + b) mod 16 = b" using that by simp_all
  then show "(a div 4) * 4 + (a mod 4 * 16 + b) div 16 = a" "(a mod 4 * 16 + b) mod 16 = b"
    by (simp_all add: mult.commute)
qed

lemma sextet_digits': "(b div 16) * 16 + (b mod 16 * 4 + c) div 4 = (b :: nat)" "(b mod 16 * 4 + c) mod 4 = c"
  if "c < 4" for b c
proof -
  have "(b mod 16 * 4 + c) div 4 = b mod 16" "(b mod 16 * 4 + c) mod 4 = c" using that by simp_all
  then show "(b div 16) * 16 + (b mod 16 * 4 + c) div 4 = b" "(b mod 16 * 4 + c) mod 4 = c"
    by (simp_all add: mult.commute)
qed

lemma sextet_bytes_sextets: "list_all (\<lambda>n. n < 256) ns \<Longrightarrow> sextet_bytes (base64_sextets ns) = ns"
proof (induction ns rule: base64_sextets.induct)
  case (2 a)
  then show ?case using sextet_digits(1) [of 0 a] by simp
next
  case (3 a b)
  then have "b < 256" by simp
  then have "b div 16 < 16" by linarith
  with 3 show ?case using sextet_digits [of "b div 16" a] sextet_digits' [of 0 b] by simp
next
  case (4 a b c r)
  then have "b < 256" "c < 256" by simp_all
  then have "b div 16 < 16" "c div 64 < 4" by linarith+
  with 4 show ?case using sextet_digits [of "b div 16" a] sextet_digits' [of "c div 64" b]
    by (simp add: mult.commute)
qed simp

lemma base64_value_char [simp]: "n < 64 \<Longrightarrow> base64_value (base64_char n) = Some n"
  by (auto simp: base64_value_def base64_char_def)

lemma base64_char_plain: "n < 64 \<Longrightarrow> base64_char n \<noteq> 61 \<and> \<not> is_ascii_space (base64_char n)"
  by (auto simp: base64_char_def is_ascii_space_def)

lemma base64_values_chars: "list_all (\<lambda>n. n < 64) xs \<Longrightarrow> base64_values (map base64_char xs) = Some xs"
  by (induction xs) auto

lemma strip_padding:
  assumes "61 \<notin> set t" "length t mod 4 \<noteq> 1" "k = (4 - length t mod 4) mod 4"
  shows "strip_base64_padding (t @ replicate k 61) = t"
proof -
  consider "length t mod 4 = 0" "k = 0" | "length t mod 4 = 2" "k = 2" | "length t mod 4 = 3" "k = 1"
    using assms(2,3) by (cases "length t mod 4 = 0"; cases "length t mod 4 = 2"; cases "length t mod 4 = 3") auto
  then show ?thesis
  proof cases
    case 1
    have "\<not> ends_with [61, 61] t" "\<not> ends_with [61] t" using assms(1) by (auto simp: ends_with_iff)
    with 1 show ?thesis by (simp add: strip_base64_padding_def)
  next
    case 2
    then have "(length t + 2) mod 4 = 0" by presburger
    with 2 show ?thesis by (simp add: strip_base64_padding_def ends_with_iff numeral_2_eq_2)
  next
    case 3
    then have "(length t + 1) mod 4 = 0" by presburger
    moreover have "\<not> ends_with [61, 61] (t @ [61])"
    proof
      assume "ends_with [61, 61] (t @ [61])"
      then obtain u where "t @ [61] = (u @ [61]) @ [61]" by (auto simp: ends_with_iff)
      then have "t = u @ [61]" by (simp only: append1_eq_conv)
      then show False using assms(1) by simp
    qed
    ultimately show ?thesis using 3 by (simp add: strip_base64_padding_def ends_with_iff)
  qed
qed

lemma atob_padded:
  assumes "list_all (\<lambda>n. n < 64) xs" "length xs mod 4 \<noteq> 1" "k = (4 - length xs mod 4) mod 4"
  shows "atob (map base64_char xs @ replicate k 61) = Some (map byte_of (sextet_bytes xs))"
proof -
  let ?t = "map base64_char xs"
  have sp: "\<forall>c\<in>set ?t. \<not> is_ascii_space c" and eq: "61 \<notin> set ?t"
    using assms(1) base64_char_plain by (auto simp: list_all_iff)
  have "filter (\<lambda>c. \<not> is_ascii_space c) (?t @ replicate k 61) = ?t @ replicate k 61"
    using sp by (simp add: filter_id_conv is_ascii_space_def)
  moreover have "strip_base64_padding (?t @ replicate k 61) = ?t"
    using strip_padding [of ?t k] eq assms(2,3) by simp
  ultimately show ?thesis
    using assms(2) base64_values_chars [OF assms(1)] by (simp add: atob_def Let_def)
qed

subsection \<open>base64url\<close>

lemma bytes_below_256: "list_all (\<lambda>n. n < 256) (map unat (bs :: byte list))"
proof -
  have "unat b < 2 ^ LENGTH(8)" for b :: byte by (rule unsigned_less)
  then show ?thesis by (simp add: list_all_iff)
qed

lemma map_byte_of_unat [simp]: "map (byte_of \<circ> unat) bs = bs" "map (\<lambda>x. byte_of (unat x)) bs = bs"
  by (simp_all add: comp_def)

lemma strip_trailing_append: "d \<notin> set s \<Longrightarrow> strip_trailing d (s @ replicate k d) = s"
proof -
  assume d: "d \<notin> set s"
  have "dropWhile ((=) d) (replicate k d @ r) = dropWhile ((=) d) r" for r by (induction k) auto
  moreover have "dropWhile ((=) d) (rev s) = rev s" using d by (cases s rule: rev_cases) auto
  ultimately show ?thesis by (simp add: strip_trailing_def)
qed

definition url_char :: "nat \<Rightarrow> code_unit" where
  "url_char n = url_unit (base64_char n)"

lemma url_char_plain: "n < 64 \<Longrightarrow> url_char n \<noteq> 61 \<and> is_base64url (url_char n) \<and> base64_unit (url_char n) = base64_char n"
  by (auto simp: url_char_def url_unit_def base64_char_def base64_unit_def is_base64url_def)

lemma encode_base64url_eq: "encode_base64url bs = map url_char (base64_sextets (map unat bs))"
proof -
  let ?x = "map url_char (base64_sextets (map unat bs))"
  have "list_all (\<lambda>n. n < 64) (base64_sextets (map unat bs))" using base64_sextets_less bytes_below_256 by blast
  then have "61 \<notin> set ?x" using url_char_plain by (auto simp: list_all_iff)
  moreover have "map url_unit (btoa bs) = ?x @ replicate ((3 - length bs mod 3) mod 3) 61"
    by (simp add: btoa_def url_char_def map_replicate_const) (simp add: url_unit_def)
  ultimately show ?thesis by (simp add: encode_base64url_def strip_trailing_append)
qed

lemma length_encode_base64url [simp]: "length (encode_base64url bs) = (4 * length bs + 2) div 3"
  by (simp add: encode_base64url_eq length_base64_sextets)

lemma BASE64URL_encode [simp]: "BASE64URL (encode_base64url bs)"
  using base64_sextets_less [OF bytes_below_256 [of bs]] url_char_plain
  by (auto simp: BASE64URL_def encode_base64url_eq list_all_iff)

lemma BASE64URL_ascii: "BASE64URL s \<Longrightarrow> is_ascii s"
  by (auto simp: BASE64URL_def is_ascii_def list_all_iff is_base64url_def)

lemma atob_encode:
  assumes "k = (4 - length (encode_base64url bs) mod 4) mod 4"
  shows "atob (map base64_unit (encode_base64url bs) @ replicate k 61) = Some bs"
proof -
  let ?x = "base64_sextets (map unat bs)"
  have x: "list_all (\<lambda>n. n < 64) ?x" using base64_sextets_less bytes_below_256 by blast
  have "map base64_unit (encode_base64url bs) = map base64_char ?x"
    using x url_char_plain by (simp add: encode_base64url_eq list_all_iff)
  moreover have "length ?x mod 4 \<noteq> 1" by (simp add: length_base64_sextets) presburger
  ultimately show ?thesis
    using atob_padded [OF x, of k] assms sextet_bytes_sextets [OF bytes_below_256 [of bs]]
    by (simp add: length_base64_sextets)
qed

lemma decode_base64url_bytes_iff:
  "decode_base64url_bytes v mn mx l = Inr bs \<longleftrightarrow> (mn \<le> length bs \<and> length bs \<le> mx) \<and> v = JStr (encode_base64url bs)"
proof
  assume a: "decode_base64url_bytes v mn mx l = Inr bs"
  then have "is_ok (validate_unicode_scalar_string v l)" by (simp add: decode_base64url_bytes_def Let_def checks_Inr_iff)
  then obtain s where v: "v = JStr s" by (auto simp: validate_unicode_scalar_string_def split: jval.splits)
  with a show "(mn \<le> length bs \<and> length bs \<le> mx) \<and> v = JStr (encode_base64url bs)"
    by (auto simp: decode_base64url_bytes_def Let_def checks_Inr_iff str_of_def split: option.splits)
next
  assume a: "(mn \<le> length bs \<and> length bs \<le> mx) \<and> v = JStr (encode_base64url bs)"
  let ?s = "encode_base64url bs"
  have sc: "is_ok (validate_unicode_scalar_string v l)"
    using a BASE64URL_ascii scan_scalars_ascii by (simp add: validate_unicode_scalar_string_def)
  have l: "length ?s mod 4 \<noteq> 1" "length ?s \<le> (mx * 4 + 2) div 3"
  proof -
    show "length ?s mod 4 \<noteq> 1" by simp presburger
    have "4 * length bs + 2 \<le> mx * 4 + 2" using a by simp
    then show "length ?s \<le> (mx * 4 + 2) div 3" by (simp add: div_le_mono)
  qed
  have "pad_end ((length ?s + 3) div 4 * 4) 61 (map base64_unit ?s)
      = map base64_unit ?s @ replicate ((4 - length ?s mod 4) mod 4) 61"
  proof -
    have "(n + 3) div 4 * 4 - n = (4 - n mod 4) mod 4" for n :: nat
    proof -
      obtain q r where n: "n = 4 * q + r" "r < 4" by (metis div_mult_mod_eq mult.commute mod_less_divisor zero_less_numeral)
      then have "r = 0 \<or> r = 1 \<or> r = 2 \<or> r = 3" by auto
      with n show ?thesis by auto
    qed
    then show ?thesis by (simp only: pad_end_def length_map)
  qed
  then have "atob (pad_end ((length ?s + 3) div 4 * 4) 61 (map base64_unit ?s)) = Some bs"
    by (simp only: atob_encode)
  with sc l a show "decode_base64url_bytes v mn mx l = Inr bs"
    by (simp only: decode_base64url_bytes_def Let_def checks_Inr_iff str_of_def jval.case option.case
        BASE64URL_encode is_ok_ensure list.pred_inject) simp
qed

interpretation base64url: canonical_codec "\<lambda>bs. JStr (encode_base64url bs)"
  "\<lambda>v. decode_base64url_bytes v mn mx label" "\<lambda>bs. mn \<le> length bs \<and> length bs \<le> mx" for mn mx label
  by unfold_locales (simp_all add: decode_base64url_bytes_iff)

lemma encode_base64url32_jbytes [simp]:
  "length bs = 32 \<Longrightarrow> encode_base64url32 (jbytes bs) l = Inr (encode_base64url bs)"
proof -
  assume n: "length bs = 32"
  have "slot_props 0 (map (\<lambda>b. Some (jdata (jint (uint b)))) bs)
      = zip (map index_key [0..<32]) (map (\<lambda>b. jdata (jint (uint b))) bs)"
    using slot_props_Some [of 0 "map (\<lambda>b. jdata (jint (uint b))) bs"] n by (simp add: comp_def)
  then have "own_keys_exact (jbytes bs) (map index_key [0..<32])"
    using n by (simp add: own_keys_exact_def own_names_def own_props_def jbytes_def own_symbols_def)
  with n show ?thesis by (simp add: encode_base64url32_def jbytes_def)
qed

lemma encode_base64url32_Inr:
  assumes "encode_base64url32 v l = Inr s"
  obtains bs where "length bs = 32" "s = encode_base64url bs" "v = jbytes bs"
proof -
  from assms obtain bs ps n where v: "v = JBytes True bs ps n Array_Buffer" "length bs = 32" "s = encode_base64url bs"
    and k: "own_keys_exact v (map index_key [0..<32])"
    by (auto simp: encode_base64url32_def checks_Inr_iff split: jval.splits bool.splits)
  have "length (own_names v) = 32" using k by (simp add: own_keys_exact_def)
  then have "ps = []" using v(1,2) by (simp add: own_names_def own_props_def length_slot_props comp_def)
  moreover have "n = 0" using k v(1) by (simp add: own_keys_exact_def own_symbols_def)
  ultimately show thesis using v that by (simp add: jbytes_def)
qed

lemma validate_base64url32_iff:
  "is_ok (validate_base64url32 v l) \<longleftrightarrow> (\<exists>bs. length bs = 32 \<and> v = JStr (encode_base64url bs))"
proof
  assume a: "is_ok (validate_base64url32 v l)"
  then have "is_ok (validate_unicode_scalar_string v l)" by (simp add: validate_base64url32_def Let_def is_ok_checks)
  then obtain s where v: "v = JStr s" by (auto simp: validate_unicode_scalar_string_def split: jval.splits)
  with a obtain bs where "length bs = 32" "is_ok (rbind (encode_base64url32 (jbytes bs) l) (\<lambda>t. ensure (t = s)
      (fail_with (l @ '' must canonically encode exactly 32 bytes''))))"
    by (auto simp: validate_base64url32_def Let_def is_ok_checks str_of_def split: option.splits if_splits)
  then have "length bs = 32 \<and> v = JStr (encode_base64url bs)" using v by simp
  then show "\<exists>bs. length bs = 32 \<and> v = JStr (encode_base64url bs)" ..
next
  assume "\<exists>bs. length bs = 32 \<and> v = JStr (encode_base64url bs)"
  then obtain bs where bs: "length bs = 32" "v = JStr (encode_base64url bs)" by blast
  then have sc: "is_ok (validate_unicode_scalar_string v l)"
    using BASE64URL_ascii scan_scalars_ascii by (simp add: validate_unicode_scalar_string_def)
  have "replicate ((4 - length (encode_base64url bs) mod 4) mod 4) (61::nat) = [61]"
    using bs(1) by simp
  then have "atob (map base64_unit (encode_base64url bs) @ [61]) = Some bs" using atob_encode by metis
  with sc bs show "is_ok (validate_base64url32 v l)"
    by (simp add: validate_base64url32_def Let_def is_ok_checks str_of_def)
qed

subsection \<open>Base32\<close>

definition digits_val :: "nat \<Rightarrow> nat list \<Rightarrow> nat" where
  "digits_val b ds = foldl (\<lambda>a d. a * b + d) 0 ds"

lemma digits_val_simps [simp]: "digits_val b [] = 0" "digits_val b (ds @ [d]) = digits_val b ds * b + d"
  by (simp_all add: digits_val_def)

lemma digits_val_append: "digits_val b (xs @ ys) = digits_val b xs * b ^ length ys + digits_val b ys"
proof (induction ys rule: rev_induct)
  case (snoc y ys)
  then show ?case by (simp flip: append_assoc add: algebra_simps)
qed simp

lemma digits_val_inj:
  "length xs = length ys \<Longrightarrow> \<forall>d\<in>set xs \<union> set ys. d < b \<Longrightarrow> digits_val b xs = digits_val b ys \<Longrightarrow> xs = ys"
proof (induction xs arbitrary: ys rule: rev_induct)
  case (snoc x xs)
  then obtain y zs where ys: "ys = zs @ [y]" by (cases ys rule: rev_cases) auto
  with snoc.prems have "digits_val b xs * b + x = digits_val b zs * b + y" "x < b" "y < b" by auto
  then have "digits_val b xs = digits_val b zs \<and> x = y"
    by (metis div_mult_self3 div_less add.right_neutral mod_less mod_mult_self3 less_nat_zero_code)
  with snoc ys show ?case by auto
qed simp

lemma two_pow: "(2 :: nat) ^ (8 * n) = 256 ^ n" "(2 :: nat) ^ (5 * n) = 32 ^ n"
  by (simp_all only: power_mult) simp_all

lemma or_shift: "b < 2 ^ k \<Longrightarrow> or (push_bit k a) b = a * 2 ^ k + (b :: nat)"
proof -
  assume b: "b < 2 ^ k"
  then have "take_bit k b = b" by (simp add: take_bit_nat_eq_self)
  then have "\<not> bit (push_bit k a) n \<or> \<not> bit b n" for n
    by (metis bit_push_bit_iff_nat bit_take_bit_iff not_le)
  then have "push_bit k a + b = or (push_bit k a) b" by (intro disjunctive_add) blast
  then show ?thesis by (simp add: push_bit_eq_mult)
qed

lemma and_31: "and x 31 = x mod (32 :: nat)"
  using take_bit_eq_mask [of 5 x] by (simp add: take_bit_eq_mod mask_eq_exp_minus_1)

lemma and_255: "and x 255 = x mod (256 :: nat)"
  using take_bit_eq_mask [of 8 x] by (simp add: take_bit_eq_mod mask_eq_exp_minus_1)

lemma top_bits: "acc < 2 ^ bits \<Longrightarrow> k \<le> bits \<Longrightarrow> acc div 2 ^ (bits - k) < (2 ^ k :: nat)"
  by (simp add: less_mult_imp_div_less flip: power_add)

lemma base32_emit_spec:
  assumes "acc < 2 ^ bits"
  obtains acc' bits' ds where "base32_emit acc bits out = (acc', bits', out @ map base32_char ds)"
    "bits' < 5" "acc' < 2 ^ bits'" "\<forall>d\<in>set ds. d < 32" "bits = bits' + 5 * length ds"
    "acc = digits_val 32 ds * 2 ^ bits' + acc'"
  using assms
proof (induction acc bits out arbitrary: thesis rule: base32_emit.induct)
  case (1 acc bits out)
  show ?case
  proof (cases "bits < 5")
    case True
    then show ?thesis using 1(2) [of acc bits "[]"] 1(3) by (simp add: base32_emit.simps)
  next
    case False
    let ?k = "bits - 5" and ?d = "acc div 2 ^ (bits - 5)"
    have d: "?d < 32" using top_bits [of acc bits 5] 1(3) False by simp
    have "take_bit ?k acc < 2 ^ ?k" by (rule take_bit_nat_less_exp)
    from 1(1) [OF False _ this] obtain acc' bits' ds where
      r: "base32_emit (take_bit ?k acc) ?k (out @ [base32_char (and (drop_bit ?k acc) 31)])
          = (acc', bits', (out @ [base32_char (and (drop_bit ?k acc) 31)]) @ map base32_char ds)"
        "bits' < 5" "acc' < 2 ^ bits'" "\<forall>d\<in>set ds. d < 32" "?k = bits' + 5 * length ds"
        "take_bit ?k acc = digits_val 32 ds * 2 ^ bits' + acc'" by blast
    have "and (drop_bit ?k acc) 31 = ?d" using d by (simp add: and_31 drop_bit_eq_div)
    then have "base32_emit acc bits out = (acc', bits', out @ map base32_char (?d # ds))"
      using r(1) False by (subst base32_emit.simps) simp
    moreover have "acc = digits_val 32 (?d # ds) * 2 ^ bits' + acc'"
    proof -
      have "acc = ?d * 2 ^ ?k + take_bit ?k acc" by (simp only: take_bit_eq_mod div_mult_mod_eq)
      moreover have "(2 :: nat) ^ ?k = 32 ^ length ds * 2 ^ bits'" by (simp add: r(5) power_add power_mult)
      ultimately show ?thesis using digits_val_append [of 32 "[?d]" ds] r(6)
        by (simp add: algebra_simps digits_val_def)
    qed
    ultimately show ?thesis
      by (intro 1(2) [of acc' bits' "?d # ds"]) (use r d False in auto)
  qed
qed

lemma base32_encode_loop_spec:
  assumes "acc < 2 ^ bits" "bits < 5" "\<forall>b\<in>set bs. b < 256"
  obtains acc' bits' ds where "base32_encode_loop bs acc bits out = (acc', bits', out @ map base32_char ds)"
    "bits' < 5" "acc' < 2 ^ bits'" "\<forall>d\<in>set ds. d < 32" "bits + 8 * length bs = bits' + 5 * length ds"
    "acc * 256 ^ length bs + digits_val 256 bs = digits_val 32 ds * 2 ^ bits' + acc'"
  using assms
proof (induction bs arbitrary: acc bits out thesis)
  case Nil
  then show ?case using Nil(1) [of acc bits "[]"] by simp
next
  case (Cons b bs)
  have b: "b < 2 ^ 8" using Cons.prems by simp
  let ?a = "or (push_bit 8 acc) b"
  have a: "?a = acc * 256 + b" using or_shift [OF b, of acc] by simp
  have "acc + 1 \<le> 2 ^ bits" using Cons.prems by simp
  then have "(acc + 1) * 256 \<le> 2 ^ bits * 256" by (rule mult_right_mono) simp
  then have "?a < 2 ^ (bits + 8)" using b by (simp add: a power_add)
  then obtain acc1 bits1 ds1 where e: "base32_emit ?a (bits + 8) out = (acc1, bits1, out @ map base32_char ds1)"
    "bits1 < 5" "acc1 < 2 ^ bits1" "\<forall>d\<in>set ds1. d < 32" "bits + 8 = bits1 + 5 * length ds1"
    "?a = digits_val 32 ds1 * 2 ^ bits1 + acc1" by (rule base32_emit_spec)
  obtain acc2 bits2 ds2 where f: "base32_encode_loop bs acc1 bits1 (out @ map base32_char ds1)
        = (acc2, bits2, (out @ map base32_char ds1) @ map base32_char ds2)"
    "bits2 < 5" "acc2 < 2 ^ bits2" "\<forall>d\<in>set ds2. d < 32" "bits1 + 8 * length bs = bits2 + 5 * length ds2"
    "acc1 * 256 ^ length bs + digits_val 256 bs = digits_val 32 ds2 * 2 ^ bits2 + acc2"
    using Cons.IH [OF _ e(3,2)] Cons.prems by (metis list.set_intros(2))
  have p: "(2 :: nat) ^ bits1 * 256 ^ length bs = 32 ^ length ds2 * 2 ^ bits2"
  proof -
    have "(2 :: nat) ^ (bits1 + 8 * length bs) = 2 ^ (bits2 + 5 * length ds2)" by (simp only: f(5))
    then show ?thesis unfolding power_add two_pow by (metis mult.commute)
  qed
  have "acc * 256 ^ length (b # bs) + digits_val 256 (b # bs) = ?a * 256 ^ length bs + digits_val 256 bs"
    using digits_val_append [of 256 "[b]" bs] by (simp add: a digits_val_def algebra_simps)
  also have "\<dots> = digits_val 32 ds1 * (2 ^ bits1 * 256 ^ length bs) + (acc1 * 256 ^ length bs + digits_val 256 bs)"
    by (simp add: e(6) algebra_simps)
  also have "\<dots> = digits_val 32 (ds1 @ ds2) * 2 ^ bits2 + acc2"
    unfolding p f(6) by (simp add: digits_val_append algebra_simps)
  finally have v: "acc * 256 ^ length (b # bs) + digits_val 256 (b # bs) = digits_val 32 (ds1 @ ds2) * 2 ^ bits2 + acc2" .
  show ?case
    by (rule Cons.prems(1) [of acc2 bits2 "ds1 @ ds2"]) (use e f v in auto)
qed

lemma base32_value_char [simp]: "d < 32 \<Longrightarrow> base32_value (base32_char d) = Some d"
proof -
  assume "d < 32"
  then have "d \<in> set [0..<32]" by simp
  moreover have "list_all (\<lambda>d. base32_value (base32_char d) = Some d) [0..<32]" by code_simp
  ultimately show ?thesis by (simp add: list_all_iff)
qed

lemma base32_decode_loop_spec:
  assumes "acc < 2 ^ bits" "bits < 8" "\<forall>d\<in>set ds. d < 32"
  obtains acc' bits' bs where "base32_decode_loop (map base32_char ds) acc bits out = Some (acc', bits', out @ bs)"
    "bits' < 8" "acc' < 2 ^ bits'" "\<forall>b\<in>set bs. b < 256" "bits + 5 * length ds = bits' + 8 * length bs"
    "acc * 32 ^ length ds + digits_val 32 ds = digits_val 256 bs * 2 ^ bits' + acc'"
  using assms
proof (induction ds arbitrary: acc bits out thesis)
  case Nil
  then show ?case using Nil(1) [of acc bits "[]"] by simp
next
  case (Cons d ds)
  have d: "d < 2 ^ 5" using Cons.prems by simp
  let ?a = "or (push_bit 5 acc) d" and ?bits = "bits + 5"
  have a: "?a = acc * 32 + d" using or_shift [OF d, of acc] by simp
  have "acc + 1 \<le> 2 ^ bits" using Cons.prems by simp
  then have "(acc + 1) * 32 \<le> 2 ^ bits * 32" by (rule mult_right_mono) simp
  then have lt: "?a < 2 ^ ?bits" using d by (simp add: a power_add)
  have v: "acc * 32 ^ length (d # ds) + digits_val 32 (d # ds) = ?a * 32 ^ length ds + digits_val 32 ds"
    using digits_val_append [of 32 "[d]" ds] by (simp add: a digits_val_def algebra_simps)
  have ds: "\<forall>d\<in>set ds. d < 32" using Cons.prems by simp
  show ?case
  proof (cases "8 \<le> ?bits")
    case False
    then have k: "?bits < 8" by simp
    obtain acc' bits' bs where
      f: "base32_decode_loop (map base32_char ds) ?a ?bits out = Some (acc', bits', out @ bs)"
      "bits' < 8" "acc' < 2 ^ bits'" "\<forall>b\<in>set bs. b < 256" "?bits + 5 * length ds = bits' + 8 * length bs"
      "?a * 32 ^ length ds + digits_val 32 ds = digits_val 256 bs * 2 ^ bits' + acc'"
      by (rule Cons.IH [OF _ lt k ds])
    show ?thesis
      by (rule Cons.prems(1) [of acc' bits' bs]) (use f v d False in \<open>auto simp: Let_def\<close>)
  next
    case True
    let ?k = "?bits - 8" and ?b = "?a div 2 ^ (?bits - 8)"
    have b: "?b < 256" using top_bits [OF lt, of 8] True by simp
    have tb: "take_bit ?k ?a < 2 ^ ?k" by (rule take_bit_nat_less_exp)
    have k: "?k < 8" using Cons.prems(3) by simp
    obtain acc' bits' bs where
      f: "base32_decode_loop (map base32_char ds) (take_bit ?k ?a) ?k (out @ [?b]) = Some (acc', bits', (out @ [?b]) @ bs)"
      "bits' < 8" "acc' < 2 ^ bits'" "\<forall>b\<in>set bs. b < 256" "?k + 5 * length ds = bits' + 8 * length bs"
      "take_bit ?k ?a * 32 ^ length ds + digits_val 32 ds = digits_val 256 bs * 2 ^ bits' + acc'"
      by (rule Cons.IH [OF _ tb k ds])
    have "and (drop_bit ?k ?a) 255 = ?b" using b by (simp add: and_255 drop_bit_eq_div)
    then have r: "base32_decode_loop (map base32_char (d # ds)) acc bits out = Some (acc', bits', out @ (?b # bs))"
      using f(1) d True by (simp add: Let_def)
    have p: "(2 :: nat) ^ ?k * 32 ^ length ds = 256 ^ length bs * 2 ^ bits'"
    proof -
      have "(2 :: nat) ^ (?k + 5 * length ds) = 2 ^ (bits' + 8 * length bs)" by (simp only: f(5))
      then show ?thesis unfolding power_add two_pow by (metis mult.commute)
    qed
    have eqa: "?a = ?b * 2 ^ ?k + take_bit ?k ?a" by (simp only: take_bit_eq_mod div_mult_mod_eq)
    have gen: "(q * B + r) * C + D = q * (B * C) + (r * C + D)" for q B r C D :: nat
      by (simp add: algebra_simps)
    have "?a * 32 ^ length ds + digits_val 32 ds
        = ?b * (2 ^ ?k * 32 ^ length ds) + (take_bit ?k ?a * 32 ^ length ds + digits_val 32 ds)"
      by (rule trans [OF arg_cong [OF eqa, of "\<lambda>x. x * 32 ^ length ds + digits_val 32 ds"] gen])
    also have "\<dots> = digits_val 256 (?b # bs) * 2 ^ bits' + acc'"
      unfolding p f(6) using digits_val_append [of 256 "[?b]" bs] by (simp add: digits_val_def algebra_simps)
    finally have w: "acc * 32 ^ length (d # ds) + digits_val 32 (d # ds) = digits_val 256 (?b # bs) * 2 ^ bits' + acc'"
      by (simp only: v)
    show ?thesis
      by (rule Cons.prems(1) [of acc' bits' "?b # bs"]) (use r f(2-5) w b True in auto)
  qed
qed

lemma base32_decode_encode:
  fixes bytes :: "byte list"
  assumes n: "length bytes = 36"
  obtains ds where "encode_base32_lower bytes = map base32_char ds" "length ds = 58" "\<forall>d\<in>set ds. d < 32"
    "base32_decode_loop (map base32_char ds) 0 0 [] = Some (0, 2, map unat bytes)"
proof -
  have b: "\<forall>b\<in>set (map unat bytes). b < 256" using bytes_below_256 [of bytes] by (simp add: list_all_iff)
  obtain acc bits ds where e: "base32_encode_loop (map unat bytes) 0 0 [] = (acc, bits, map base32_char ds)"
    "bits < 5" "acc < 2 ^ bits" "\<forall>d\<in>set ds. d < 32" "8 * 36 = bits + 5 * length ds"
    "digits_val 256 (map unat bytes) = digits_val 32 ds * 2 ^ bits + acc"
    using base32_encode_loop_spec [of 0 0 "map unat bytes" "[]"] b n by auto
  from e(2,5) have bits: "bits = 3" and l: "length ds = 57" by presburger+
  let ?d = "and (push_bit 2 acc) 31" and ?ds = "ds @ [and (push_bit 2 acc) 31]"
  have d: "?d = 4 * acc" "?d < 32" using e(3) by (simp_all add: bits and_31 push_bit_eq_mult)
  have enc: "encode_base32_lower bytes = map base32_char ?ds"
    using e(1) bits by (simp add: encode_base32_lower_def)
  have ds: "\<forall>d\<in>set ?ds. d < 32" "length ?ds = 58" using e(4) d l by auto
  have val: "digits_val 32 ?ds = digits_val 256 (map unat bytes) * 4"
    by (simp add: d e(6) bits algebra_simps)
  obtain acc' bits' bs where f: "base32_decode_loop (map base32_char ?ds) 0 0 [] = Some (acc', bits', bs)"
    "bits' < 8" "acc' < 2 ^ bits'" "\<forall>b\<in>set bs. b < 256" "5 * 58 = bits' + 8 * length bs"
    "digits_val 32 ?ds = digits_val 256 bs * 2 ^ bits' + acc'"
    using base32_decode_loop_spec [of 0 0 ?ds "[]"] ds by (auto simp del: digits_val_simps(2))
  from f(2,5) have bits': "bits' = 2" and lb: "length bs = 36" by presburger+
  have "acc' = 0" "digits_val 256 bs = digits_val 256 (map unat bytes)"
    using f(3,6) val by (simp_all add: bits') presburger+
  moreover from this have "bs = map unat bytes"
    using f(4) b lb n by (intro digits_val_inj [where b = 256]) auto
  ultimately show thesis using f(1) bits' by (intro that [OF enc ds(2,1)]) simp
qed

text \<open>The CID a digest of lower-case hex digits has: version 1, raw, sha2-256, 32 bytes, the digest.\<close>

definition cid_bytes :: "jstring \<Rightarrow> byte list" where
  "cid_bytes sha256 = [0x01, 0x55, 0x12, 0x20] @ map (hex_pair sha256) [0..<32]"

definition model_cid :: "jstring \<Rightarrow> jstring" where
  "model_cid sha256 = 98 # encode_base32_lower (cid_bytes sha256)"

lemma fold_xor_zero:
  "fold (\<lambda>i difference. or difference (xor (f i) (g i))) xs (d :: byte) = 0 \<longleftrightarrow> d = 0 \<and> (\<forall>i\<in>set xs. f i = g i)"
  by (induction xs arbitrary: d) (auto simp: or_eq_0_iff xor_byte_zero)

lemma cid_bytes_eq:
  assumes "length bytes = 36"
  shows "bytes = cid_bytes h \<longleftrightarrow> (bytes ! 0 = 0x01 \<and> bytes ! 1 = 0x55 \<and> bytes ! 2 = 0x12 \<and> bytes ! 3 = 0x20)
    \<and> (\<forall>i\<in>set [0..<32]. bytes ! (i + 4) = hex_pair h i)"
proof -
  have a: "cid_bytes h ! (i + 4) = hex_pair h i" if "i < 32" for i
    using that by (simp add: cid_bytes_def nth_append)
  have z: "cid_bytes h ! 0 = 0x01" "cid_bytes h ! 1 = 0x55" "cid_bytes h ! 2 = 0x12" "cid_bytes h ! 3 = 0x20"
    by (simp_all add: cid_bytes_def)
  show ?thesis
  proof
    assume "bytes = cid_bytes h"
    then show "(bytes ! 0 = 0x01 \<and> bytes ! 1 = 0x55 \<and> bytes ! 2 = 0x12 \<and> bytes ! 3 = 0x20)
      \<and> (\<forall>i\<in>set [0..<32]. bytes ! (i + 4) = hex_pair h i)" using a z by simp
  next
    assume r: "(bytes ! 0 = 0x01 \<and> bytes ! 1 = 0x55 \<and> bytes ! 2 = 0x12 \<and> bytes ! 3 = 0x20)
      \<and> (\<forall>i\<in>set [0..<32]. bytes ! (i + 4) = hex_pair h i)"
    show "bytes = cid_bytes h"
    proof (rule nth_equalityI)
      show "length bytes = length (cid_bytes h)" using assms by (simp add: cid_bytes_def)
      fix i assume "i < length bytes"
      then have "i = 0 \<or> i = 1 \<or> i = 2 \<or> i = 3 \<or> (\<exists>j<32. i = j + 4)"
        using assms by presburger
      then show "bytes ! i = cid_bytes h ! i" using r a z by auto
    qed
  qed
qed

lemma validate_model_cid_iff:
  "is_ok (validate_model_cid v h) \<longleftrightarrow> v = JStr (model_cid h)"
proof
  assume a: "is_ok (validate_model_cid v h)"
  then have "is_ok (validate_unicode_scalar_string v ''modelCid'')"
    by (simp add: validate_model_cid_def Let_def is_ok_checks)
  then obtain s where v: "v = JStr s" by (auto simp: validate_unicode_scalar_string_def split: jval.splits)
  with a obtain acc bits out where out: "length out = 36"
    "map byte_of out ! 0 = 0x01 \<and> map byte_of out ! 1 = 0x55 \<and> map byte_of out ! 2 = 0x12 \<and> map byte_of out ! 3 = 0x20"
    "98 # encode_base32_lower (map byte_of out) = s"
    "fold (\<lambda>i difference. or difference (xor (map byte_of out ! (i + 4)) (hex_pair h i))) [0..<32] 0 = 0"
    by (auto simp: validate_model_cid_def Let_def is_ok_checks str_of_def simp del: upt.simps upt_rec_numeral nth_map
        split: option.splits)
  then have "map byte_of out = cid_bytes h" using cid_bytes_eq [of "map byte_of out" h] by (simp only: fold_xor_zero) simp
  with out(3) v show "v = JStr (model_cid h)" by (simp add: model_cid_def)
next
  assume v: "v = JStr (model_cid h)"
  have l: "length (cid_bytes h) = 36" by (simp add: cid_bytes_def)
  from base32_decode_encode [OF l] obtain ds where
    ds: "encode_base32_lower (cid_bytes h) = map base32_char ds" "length ds = 58" "\<forall>d\<in>set ds. d < 32"
      "base32_decode_loop (map base32_char ds) 0 0 [] = Some (0, 2, map unat (cid_bytes h))" .
  have "list_all (\<lambda>c. base32_value c \<noteq> None) (map base32_char ds)" using ds(3) by (auto simp: list_all_iff)
  then have pat: "CID_V1_RAW_SHA256 (model_cid h)"
    using ds(1,2) by (simp add: CID_V1_RAW_SHA256_def model_cid_def starts_with_iff)
  have "c < 128" if "base32_value c \<noteq> None" for c using that by (auto simp: base32_value_def split: if_splits)
  with ds(3) have "is_ascii (model_cid h)" by (auto simp: model_cid_def ds(1) is_ascii_def list_all_iff)
  then have sc: "is_ok (validate_unicode_scalar_string v ''modelCid'')" by (simp add: v scan_scalars_ascii_string)
  have "(cid_bytes h ! 0 = 0x01 \<and> cid_bytes h ! 1 = 0x55 \<and> cid_bytes h ! 2 = 0x12 \<and> cid_bytes h ! 3 = 0x20)
    \<and> (\<forall>i\<in>set [0..<32]. cid_bytes h ! (i + 4) = hex_pair h i)" using cid_bytes_eq [OF l] by blast
  then show "is_ok (validate_model_cid v h)"
    using sc pat l ds(4) by (simp add: validate_model_cid_def Let_def is_ok_checks str_of_def v model_cid_def ds(1)
        fold_xor_zero del: upt.simps upt_rec_numeral)
qed

lemma hex_pair_inj:
  assumes "lower_hex 64 h" "lower_hex 64 k" "\<forall>i<32. hex_pair h i = hex_pair k i"
  shows "h = k"
proof -
  have v: "\<exists>d<16. hex_value c = Some d \<and> c = hex_digit d" if "is_lower_hex c" for c
  proof (cases "c \<le> 57")
    case True
    with that show ?thesis
      by (intro exI [of _ "c - 48"]) (auto simp: is_lower_hex_def hex_value_def hex_digit_def)
  next
    case False
    with that show ?thesis
      by (intro exI [of _ "c - 87"]) (auto simp: is_lower_hex_def hex_value_def hex_digit_def)
  qed
  have eq: "a = c \<and> b = d" if h: "is_lower_hex a" "is_lower_hex b" "is_lower_hex c" "is_lower_hex d"
    and e: "byte_of (16 * the (hex_value a) + the (hex_value b)) = byte_of (16 * the (hex_value c) + the (hex_value d))"
    for a b c d
  proof -
    obtain p q r s where x: "p < 16" "q < 16" "r < 16" "s < 16" "hex_value a = Some p" "hex_value b = Some q"
      "hex_value c = Some r" "hex_value d = Some s" "a = hex_digit p" "b = hex_digit q" "c = hex_digit r" "d = hex_digit s"
      using v [OF h(1)] v [OF h(2)] v [OF h(3)] v [OF h(4)] by blast
    with e have "byte_of (16 * p + q) = byte_of (16 * r + s)" by simp
    then have "unat (byte_of (16 * p + q)) = unat (byte_of (16 * r + s))" by (rule arg_cong)
    then have "16 * p + q = 16 * r + s" using x(1-4) by (simp add: unat_byte_of)
    then have "(16 * p + q) div 16 = (16 * r + s) div 16" "(16 * p + q) mod 16 = (16 * r + s) mod 16" by simp_all
    then have "p = r \<and> q = s" using x(2,4) by simp
    with x(9-12) show ?thesis by simp
  qed
  show ?thesis
  proof (rule nth_equalityI)
    show "length h = length k" using assms by (simp add: lower_hex_def)
    fix n assume n: "n < length h"
    define i where "i = n div 2"
    have "n < 64" using n assms(1) by (simp add: lower_hex_def)
    then have i: "i < 32" "2 * i < 64" "2 * i + 1 < 64" "n = 2 * i \<or> n = 2 * i + 1"
      unfolding i_def by presburger+
    have "h ! (2 * i) = k ! (2 * i) \<and> h ! (2 * i + 1) = k ! (2 * i + 1)"
      using assms i by (intro eq) (simp_all add: lower_hex_def list_all_length hex_pair_def)
    with i(4) show "h ! n = k ! n" by auto
  qed
qed

lemma model_cid_inj:
  assumes "lower_hex 64 h" "lower_hex 64 k" "model_cid h = model_cid k"
  shows "h = k"
proof -
  have l: "length (cid_bytes x) = 36" for x by (simp add: cid_bytes_def)
  have a: "is_ok (validate_model_cid (JStr (model_cid h)) k)" using assms(3) by (simp add: validate_model_cid_iff)
  from base32_decode_encode [OF l [of h]] obtain ds where
    d: "encode_base32_lower (cid_bytes h) = map base32_char ds"
      "base32_decode_loop (map base32_char ds) 0 0 [] = Some (0, 2, map unat (cid_bytes h))" by blast
  from base32_decode_encode [OF l [of k]] obtain es where
    e: "encode_base32_lower (cid_bytes k) = map base32_char es"
      "base32_decode_loop (map base32_char es) 0 0 [] = Some (0, 2, map unat (cid_bytes k))" by blast
  have "map unat (cid_bytes h) = map unat (cid_bytes k)"
    using assms(3) d e by (simp add: model_cid_def)
  then have "map byte_of (map unat (cid_bytes h)) = map byte_of (map unat (cid_bytes k))" by (rule arg_cong)
  then have "cid_bytes h = cid_bytes k" by simp
  then have "map (hex_pair h) [0..<32] = map (hex_pair k) [0..<32]" by (simp add: cid_bytes_def del: upt.simps upt_rec_numeral)
  then show ?thesis using assms(1,2) by (intro hex_pair_inj) (simp_all del: upt.simps upt_rec_numeral)
qed

end
