(* ===== verification/WireMessages.thy ===== *)
theory WireMessages
  imports Codecs
begin

section \<open>The messages of client/wire.mjs\<close>

text \<open>
  One definition per validator, in the order of the module, each with its guards in source order;
  the exported \<open>build\<close> and \<open>parse\<close> functions at the end. \<open>Math.hypot\<close> (whose result ECMAScript
  leaves to the implementation) and the \<open>URL\<close> parser of the platform are fields of \<open>wire_host\<close>.
\<close>

record url_parts =
  url_protocol :: jstring
  url_origin :: jstring
  url_username :: jstring
  url_password :: jstring
  url_port :: jstring
  url_pathname :: jstring
  url_search :: jstring
  url_hash :: jstring
  url_hostname :: jstring
  url_host :: jstring
  url_href :: jstring

record wire_host =
  math_hypot :: "jnum list \<Rightarrow> jnum"
  new_url :: "jstring \<Rightarrow> url_parts option" \<comment> \<open>\<open>None\<close>: the constructor throws\<close>

subsection \<open>Constants\<close>

definition IDENTITY_SCHEME :: string where "IDENTITY_SCHEME = ''sdn-bip32-slip10-purpose-v1''"
definition SEED_PROFILE :: string where "SEED_PROFILE = ''password-scrypt-v2''"
definition JCS_SIGNATURE_PROFILE :: string where "JCS_SIGNATURE_PROFILE = ''ed25519-over-sha256-jcs-v1''"
definition RAW_SIGNATURE_PROFILE :: string where "RAW_SIGNATURE_PROFILE = ''ed25519-raw-32-v1''"
definition PUBLISH_SIGNATURE_PROFILE :: string where "PUBLISH_SIGNATURE_PROFILE = ''ed25519-sdn-signed-request-v2''"
definition REVIEW_ORIGIN :: string where "REVIEW_ORIGIN = ''https://review.spacedatanetwork.org''"
definition REVIEW_CLIENT_ID :: string where "REVIEW_CLIENT_ID = ''sdn-asset-review-v1''"
definition REVIEW_AUDIENCE :: string where "REVIEW_AUDIENCE = ''asset-review:assets.ipfs.01''"
definition REVIEW_AUTHORITY_AUDIENCE :: string where
  "REVIEW_AUTHORITY_AUDIENCE = ''asset-review-authority:assets.ipfs.01''"
definition SDN_AUDIENCE :: string where "SDN_AUDIENCE = ''sdn-login:sdn.spaceaware.io''"

definition PUBLISH_REQUEST_FIELDS :: "string list" where
  "PUBLISH_REQUEST_FIELDS = [''protocolVersion'', ''providerOrigin'', ''method'', ''requestUri'', ''bodySha256'',
     ''bodyBytes'', ''schema'', ''entityId'', ''entityName'', ''documentCount'']"

definition PUBLISH_RESULT_FIELDS :: "string list" where
  "PUBLISH_RESULT_FIELDS = [''schemaVersion'', ''keyId'', ''identityScheme'', ''algorithm'', ''encoding'',
     ''signatureProfile'', ''publicKeyHex'', ''signatureHex'', ''requestDigestSha256'', ''challengeId'',
     ''challengeBase64url'']"

definition PUBLIC_IDENTITY_FIELDS :: "string list" where
  "PUBLIC_IDENTITY_FIELDS = [''accountFingerprint'', ''accountIndex'', ''accountLabel'', ''accountPeerId'',
     ''accountXpub'', ''identityScheme'', ''keys'', ''schemaVersion'', ''seedProfile'']"

definition KEY_DESCRIPTOR_FIELDS :: "string list" where
  "KEY_DESCRIPTOR_FIELDS = [''bip32Fingerprint'', ''curve'', ''derivation'', ''encoding'', ''identityScheme'',
     ''keyId'', ''path'', ''publicKeyHex'', ''purpose'', ''seedProfile'', ''signatureProfile'']"

definition CONNECTION_RESULT_FIELDS :: "string list" where
  "CONNECTION_RESULT_FIELDS = [''connectionExpiresAt'', ''event'', ''identity'', ''schemaVersion'']"

definition RAW_SIGNATURE_FIELDS :: "string list" where
  "RAW_SIGNATURE_FIELDS = [''algorithm'', ''encoding'', ''identityScheme'', ''keyId'', ''schemaVersion'',
     ''signatureHex'', ''signatureProfile'']"

definition CANONICAL_SIGNATURE_FIELDS :: "string list" where
  "CANONICAL_SIGNATURE_FIELDS = [''algorithm'', ''canonicalEnvelope'', ''encoding'', ''identityScheme'',
     ''keyId'', ''schemaVersion'', ''signatureHex'', ''signatureProfile'', ''signedDigestSha256'']"

definition ACTIVATION_FIELDS :: "string list" where
  "ACTIVATION_FIELDS = [''audience'', ''clientId'', ''expiresAt'', ''identityScheme'', ''issuedAt'', ''keyId'',
     ''nonce'', ''protocolVersion'', ''publicKeyHex'', ''purpose'', ''requestOrigin'', ''serviceInstance'',
     ''signatureProfile'']"

definition DECISION_BASE_FIELDS :: "string list" where
  "DECISION_BASE_FIELDS = [''audience'', ''candidateKey'', ''challengeId'', ''clientId'', ''decision'',
     ''expiresAt'', ''issuedAt'', ''metadataSha256'', ''modelBytes'', ''modelCid'', ''modelSha256'', ''nonce'',
     ''previousDecisionHead'', ''protocolVersion'', ''requestOrigin'']"

definition TRANSFORM_FIELDS :: "string list" where
  "TRANSFORM_FIELDS = [''metersPerSourceUnit'', ''rotation'', ''scale'', ''sourceUnits'', ''translation'', ''upAxis'']"

subsection \<open>The transform policy\<close>

definition num_lit :: "string \<Rightarrow> jnum" where
  \<comment> \<open>the double a decimal literal of the source denotes\<close>
  "num_lit s = (case scan_number (js s) of Some (n, _) \<Rightarrow> n | None \<Rightarrow> NaN)"

definition asset_review_policy :: jval where
  "asset_review_policy = jobj
     [(js ''reviewedTransform'', jobj
         [(js ''metersPerSourceUnit'', jobj
             [(js ''cm'', JNum (num_lit ''0.01'')), (js ''km'', jint 1000), (js ''m'', jint 1),
              (js ''mm'', JNum (num_lit ''0.001''))]),
          (js ''quaternionNormTolerance'', JNum (num_lit ''0.000001'')),
          (js ''scaleComponentExclusiveMin'', jint 0),
          (js ''scaleComponentInclusiveMax'', jint 1000000),
          (js ''translationComponentAbsMax'', jint 1000000),
          (js ''upAxes'', jarr [jlit ''X_UP'', jlit ''Y_UP'', jlit ''Z_UP''])]),
      (js ''schemaVersion'', jint 1)]"

definition object_entries :: "jval \<Rightarrow> (jstring \<times> jval) list" where
  \<comment> \<open>\<open>Object.entries\<close>: the enumerable properties\<close>
  "object_entries v = map (\<lambda>(k, p). (k, prop_value p))
     (filter (\<lambda>(k, p). case p of Data e _ \<Rightarrow> e | Accessor e \<Rightarrow> e) (own_props v))"

definition frozen_entries :: "(jstring \<times> jval) list \<Rightarrow> jval" where
  "frozen_entries kvs = jobj (sort_key fst kvs)"

definition is_finite_num :: "jval \<Rightarrow> bool" where
  "is_finite_num v = (case v of JNum n \<Rightarrow> num_is_finite n | _ \<Rightarrow> False)"

fun js_text :: "jval \<Rightarrow> jstring" and js_slot_texts :: "jprop option list \<Rightarrow> jstring list" where
  \<comment> \<open>\<open>String(v)\<close> as \<open>join\<close> uses it, for values without a \<open>toString\<close> of their own\<close>
  "js_text (JStr s) = s"
| "js_text (JNum n) = num_to_string n"
| "js_text (JBool b) = (if b then js ''true'' else js ''false'')"
| "js_text JNull = []"
| "js_text JUndefined = []"
| "js_text (JArr p xs ps n) = join_with 44 (js_slot_texts xs)"
| "js_text _ = js ''[object Object]''"
| "js_slot_texts [] = []"
| "js_slot_texts (Some (Data e v) # xs) = js_text v # js_slot_texts xs"
| "js_slot_texts (_ # xs) = [] # js_slot_texts xs"

definition load_transform_policy :: "jval \<Rightarrow> jval result" where
  "load_transform_policy source =
     rbind (exact_record source [''reviewedTransform'', ''schemaVersion''] ''asset review protocol policy'') (\<lambda>protocol.
     rbind (exact_literal (fld protocol ''schemaVersion'') (jint 1) ''asset review protocol schemaVersion'') (\<lambda>_.
     rbind (exact_record (fld protocol ''reviewedTransform'')
        [''metersPerSourceUnit'', ''quaternionNormTolerance'', ''scaleComponentExclusiveMin'',
         ''scaleComponentInclusiveMax'', ''translationComponentAbsMax'', ''upAxes'']
        ''asset review transform policy'') (\<lambda>reviewed.
     rbind (exact_record (fld reviewed ''metersPerSourceUnit'') [''cm'', ''km'', ''m'', ''mm'']
        ''asset review unit policy'') (\<lambda>meters.
     checks
       (map (\<lambda>(unit, multiplier).
             ensure (is_finite_num multiplier \<and> num_less (Fin 0) (num_of multiplier))
               (Type_Error (js ''asset review unit policy '' @ unit @ js '' must be positive and finite'')))
          (object_entries meters)
        @ map (\<lambda>name. ensure (is_finite_num (fld reviewed name))
               (fail_with (''asset review transform policy '' @ name @ '' must be finite'')))
            [''quaternionNormTolerance'', ''scaleComponentExclusiveMin'', ''scaleComponentInclusiveMax'',
             ''translationComponentAbsMax'']
        @ [ensure (\<not> (num_le (num_of (fld reviewed ''quaternionNormTolerance'')) (Fin 0)
                 \<or> num_le (num_of (fld reviewed ''scaleComponentInclusiveMax''))
                     (num_of (fld reviewed ''scaleComponentExclusiveMin''))
                 \<or> num_le (num_of (fld reviewed ''translationComponentAbsMax'')) (Fin 0)))
             (fail_with ''asset review transform policy bounds are inconsistent''),
           validate_plain_dense_array (fld reviewed ''upAxes'') 3 ''asset review up-axis policy'',
           ensure (join_with 0 (map js_text (array_values (fld reviewed ''upAxes'')))
               = join_with 0 [js ''X_UP'', js ''Y_UP'', js ''Z_UP''])
             (fail_with ''asset review up-axis policy is invalid'')])
       (Inr (frozen_record
          [(''metersPerSourceUnit'', frozen_entries (object_entries meters)),
           (''quaternionNormTolerance'', fld reviewed ''quaternionNormTolerance''),
           (''scaleComponentExclusiveMin'', fld reviewed ''scaleComponentExclusiveMin''),
           (''scaleComponentInclusiveMax'', fld reviewed ''scaleComponentInclusiveMax''),
           (''translationComponentAbsMax'', fld reviewed ''translationComponentAbsMax''),
           (''upAxes'', jarr (array_values (fld reviewed ''upAxes'')))]))))))"

definition TRANSFORM_POLICY :: jval where
  "TRANSFORM_POLICY = (case load_transform_policy asset_review_policy of Inr p \<Rightarrow> p | Inl _ \<Rightarrow> JUndefined)"

subsection \<open>Keys and the public identity\<close>

record key_expectation =
  expected_purpose :: string
  expected_curve :: string
  expected_profile :: jval
  expected_path :: string

definition validate_key_descriptor :: "jval \<Rightarrow> key_expectation \<Rightarrow> jval result" where
  "validate_key_descriptor input e =
     rbind (exact_record input KEY_DESCRIPTOR_FIELDS (''identity key '' @ expected_purpose e)) (\<lambda>value.
     checks
       [exact_literal (fld value ''purpose'') (jlit (expected_purpose e)) ''key purpose'',
        exact_literal (fld value ''identityScheme'') (jlit IDENTITY_SCHEME) ''key identityScheme'',
        exact_literal (fld value ''seedProfile'') (jlit SEED_PROFILE) ''key seedProfile'',
        exact_literal (fld value ''signatureProfile'') (expected_profile e) ''key signatureProfile'',
        exact_literal (fld value ''curve'') (jlit (expected_curve e)) ''key curve'',
        exact_literal (fld value ''derivation'') (jlit ''slip10'') ''key derivation'',
        exact_literal (fld value ''path'') (jlit (expected_path e)) ''key path'',
        exact_literal (fld value ''encoding'') (jlit ''raw'') ''key encoding'',
        exact_pattern (fld value ''publicKeyHex'') LOWER_HEX_32 ''key publicKeyHex'',
        exact_literal (fld value ''bip32Fingerprint'') JNull ''key bip32Fingerprint'',
        exact_pattern (fld value ''keyId'') KEY_ID ''key keyId'']
       (Inr (frozen_record
          [(''bip32Fingerprint'', JNull),
           (''curve'', fld value ''curve''),
           (''derivation'', jlit ''slip10''),
           (''encoding'', jlit ''raw''),
           (''identityScheme'', jlit IDENTITY_SCHEME),
           (''keyId'', fld value ''keyId''),
           (''path'', fld value ''path''),
           (''publicKeyHex'', fld value ''publicKeyHex''),
           (''purpose'', fld value ''purpose''),
           (''seedProfile'', jlit SEED_PROFILE),
           (''signatureProfile'', fld value ''signatureProfile'')])))"

definition identity_key_expectations :: "key_expectation list" where
  "identity_key_expectations =
     [\<lparr>expected_purpose = ''asset-review-approval'', expected_curve = ''ed25519'',
       expected_profile = jlit JCS_SIGNATURE_PROFILE, expected_path = [CHR ''m'', CHR ''/'', CHR ''4'', CHR ''4'',
         CHR 0x27, CHR ''/'', CHR ''0'', CHR 0x27, CHR ''/'', CHR ''0'', CHR 0x27, CHR ''/'', CHR ''2'', CHR 0x27,
         CHR ''/'', CHR ''0'', CHR 0x27]\<rparr>,
      \<lparr>expected_purpose = ''contact-encryption'', expected_curve = ''x25519'',
       expected_profile = JNull, expected_path = [CHR ''m'', CHR ''/'', CHR ''4'', CHR ''4'',
         CHR 0x27, CHR ''/'', CHR ''0'', CHR 0x27, CHR ''/'', CHR ''0'', CHR 0x27, CHR ''/'', CHR ''1'', CHR 0x27,
         CHR ''/'', CHR ''0'', CHR 0x27]\<rparr>,
      \<lparr>expected_purpose = ''sdn-authentication'', expected_curve = ''ed25519'',
       expected_profile = jlit JCS_SIGNATURE_PROFILE, expected_path = [CHR ''m'', CHR ''/'', CHR ''4'', CHR ''4'',
         CHR 0x27, CHR ''/'', CHR ''0'', CHR 0x27, CHR ''/'', CHR ''0'', CHR 0x27, CHR ''/'', CHR ''0'', CHR 0x27,
         CHR ''/'', CHR ''0'', CHR 0x27]\<rparr>]"

definition account_xpub :: "jstring \<Rightarrow> bool" where
  "account_xpub s \<longleftrightarrow> starts_with (js ''xpub'') s \<and> length s = 111 \<and> list_all is_base58 (drop 4 s)"

definition account_peer_id :: "jstring \<Rightarrow> bool" where
  "account_peer_id s \<longleftrightarrow> starts_with (js ''16Uiu2H'') s \<and> 40 \<le> length s \<and> length s \<le> 64 \<and> BASE58 s"

definition validate_public_identity :: "jval \<Rightarrow> jval result" where
  "validate_public_identity input =
     rbind (exact_record input PUBLIC_IDENTITY_FIELDS ''WalletPublicIdentity'') (\<lambda>value.
     checks
       [exact_literal (fld value ''schemaVersion'') (jint 1) ''identity schemaVersion'',
        exact_literal (fld value ''identityScheme'') (jlit IDENTITY_SCHEME) ''identity identityScheme'',
        exact_literal (fld value ''seedProfile'') (jlit SEED_PROFILE) ''identity seedProfile'',
        ensure (strict_eq (fld value ''accountIndex'') (jint 0)) (fail_with ''public wallet identity must use account 0''),
        exact_literal (fld value ''accountLabel'') JNull ''identity accountLabel'',
        validate_unicode_scalar_string (fld value ''accountXpub'') ''identity accountXpub'',
        ensure (account_xpub (str_of (fld value ''accountXpub''))) (fail_with ''identity accountXpub is invalid''),
        validate_unicode_scalar_string (fld value ''accountPeerId'') ''identity accountPeerId'',
        ensure (account_peer_id (str_of (fld value ''accountPeerId''))) (fail_with ''identity accountPeerId is invalid''),
        exact_pattern (fld value ''accountFingerprint'') (lower_hex 8) ''identity accountFingerprint'',
        validate_plain_dense_array (fld value ''keys'') 3 ''public identity keys array'']
       (rbind (mapM_index (\<lambda>i e. validate_key_descriptor (array_values (fld value ''keys'') ! i) e) 0
                 identity_key_expectations) (\<lambda>keys.
        Inr (frozen_record
          [(''accountFingerprint'', fld value ''accountFingerprint''),
           (''accountIndex'', jint 0),
           (''accountLabel'', JNull),
           (''accountPeerId'', fld value ''accountPeerId''),
           (''accountXpub'', fld value ''accountXpub''),
           (''identityScheme'', jlit IDENTITY_SCHEME),
           (''keys'', jarr keys),
           (''schemaVersion'', jint 1),
           (''seedProfile'', jlit SEED_PROFILE)]))))"

definition validate_connection_result :: "jval \<Rightarrow> string \<Rightarrow> jval result" where
  "validate_connection_result input operation =
     rbind (exact_record input CONNECTION_RESULT_FIELDS (operation @ '' result'')) (\<lambda>value.
     checks
       [exact_literal (fld value ''schemaVersion'') (jint 1) ''connection result schemaVersion'',
        exact_one_of (fld value ''event'') [''connected'', ''disconnected''] ''connection event'',
        ensure (\<not> (operation = ''connect'' \<and> fld value ''event'' \<noteq> jlit ''connected''))
          (fail_with ''connect result must be connected'')]
       (rbind
          (if fld value ''event'' = jlit ''connected''
           then rbind (validate_public_identity (fld value ''identity'')) (\<lambda>identity.
                  rbind (exact_timestamp (fld value ''connectionExpiresAt'') ''connectionExpiresAt'') (\<lambda>_.
                  Inr (identity, fld value ''connectionExpiresAt'')))
           else if fld value ''identity'' \<noteq> JNull \<or> fld value ''connectionExpiresAt'' \<noteq> JNull
           then Inl (fail_with ''disconnected result must clear identity and expiry'')
           else Inr (JNull, JNull)) (\<lambda>(identity, connection_expires_at).
        Inr (frozen_record
          [(''connectionExpiresAt'', connection_expires_at),
           (''event'', fld value ''event''),
           (''identity'', identity),
           (''schemaVersion'', jint 1)]))))"

subsection \<open>Signatures and login\<close>

definition validate_raw_signature :: "jval \<Rightarrow> jval result" where
  "validate_raw_signature input =
     rbind (exact_record input RAW_SIGNATURE_FIELDS ''raw signature'') (\<lambda>value.
     checks
       [exact_literal (fld value ''schemaVersion'') (jint 1) ''signature schemaVersion'',
        exact_pattern (fld value ''keyId'') KEY_ID ''signature keyId'',
        exact_one_of (fld value ''identityScheme'')
          [''sdn-fast-password-auth-v1-legacy'', ''sdn-bip39-auth-v1-legacy''] ''raw signature identityScheme'',
        exact_literal (fld value ''algorithm'') (jlit ''ed25519'') ''signature algorithm'',
        exact_literal (fld value ''encoding'') (jlit ''raw'') ''signature encoding'',
        exact_literal (fld value ''signatureProfile'') (jlit RAW_SIGNATURE_PROFILE) ''signature profile'',
        exact_pattern (fld value ''signatureHex'') LOWER_HEX_64 ''signatureHex'']
       (Inr (frozen_record
          [(''algorithm'', jlit ''ed25519''),
           (''encoding'', jlit ''raw''),
           (''identityScheme'', fld value ''identityScheme''),
           (''keyId'', fld value ''keyId''),
           (''schemaVersion'', jint 1),
           (''signatureHex'', fld value ''signatureHex''),
           (''signatureProfile'', jlit RAW_SIGNATURE_PROFILE)])))"

definition validate_sdn_login_v1_wire :: "jval \<Rightarrow> jval result" where
  "validate_sdn_login_v1_wire input =
     rbind (exact_record input [''challengeBase64url'', ''protocolVersion''] ''SDN login v1 request'') (\<lambda>value.
     checks
       [exact_literal (fld value ''protocolVersion'') (jint 1) ''SDN login v1 protocolVersion'',
        validate_base64url32 (fld value ''challengeBase64url'') ''challengeBase64url'']
       (Inr (frozen_record
          [(''challengeBase64url'', fld value ''challengeBase64url''),
           (''protocolVersion'', jint 1)])))"

definition validate_sdn_login_v2_wire :: "jval \<Rightarrow> jval result" where
  "validate_sdn_login_v2_wire input =
     rbind (exact_record input [''audience'', ''challengeBase64url'', ''expiresAt'', ''issuedAt'', ''nonce'',
        ''protocolVersion''] ''SDN login v2 request'') (\<lambda>value.
     checks
       [exact_literal (fld value ''protocolVersion'') (jint 2) ''SDN login v2 protocolVersion'',
        exact_literal (fld value ''audience'') (jlit SDN_AUDIENCE) ''SDN login v2 audience'',
        validate_base64url32 (fld value ''challengeBase64url'') ''challengeBase64url'',
        exact_pattern (fld value ''nonce'') LOWER_HEX_32 ''SDN login nonce'',
        exact_timestamp (fld value ''issuedAt'') ''SDN login issuedAt'',
        exact_timestamp (fld value ''expiresAt'') ''SDN login expiresAt'',
        validate_lifetime (fld value ''issuedAt'') (fld value ''expiresAt'')]
       (Inr (frozen_record
          [(''audience'', jlit SDN_AUDIENCE),
           (''challengeBase64url'', fld value ''challengeBase64url''),
           (''expiresAt'', fld value ''expiresAt''),
           (''issuedAt'', fld value ''issuedAt''),
           (''nonce'', fld value ''nonce''),
           (''protocolVersion'', jint 2)])))"

definition validate_activation :: "jval \<Rightarrow> jval result" where
  "validate_activation input =
     rbind (exact_record input ACTIVATION_FIELDS ''authority activation request'') (\<lambda>value.
     checks
       [exact_literal (fld value ''protocolVersion'') (jint 1) ''activation protocolVersion'',
        exact_literal (fld value ''audience'') (jlit REVIEW_AUTHORITY_AUDIENCE) ''activation audience'',
        exact_literal (fld value ''requestOrigin'') (jlit REVIEW_ORIGIN) ''activation requestOrigin'',
        exact_literal (fld value ''clientId'') (jlit REVIEW_CLIENT_ID) ''activation clientId'',
        exact_literal (fld value ''serviceInstance'') (jlit ''assets.ipfs.01/asset-review-attestation'')
          ''activation serviceInstance'',
        exact_literal (fld value ''purpose'') (jlit ''asset-review-authority-activation'') ''activation purpose'',
        exact_pattern (fld value ''nonce'') LOWER_HEX_32 ''activation nonce'',
        exact_timestamp (fld value ''issuedAt'') ''activation issuedAt'',
        exact_timestamp (fld value ''expiresAt'') ''activation expiresAt'',
        validate_lifetime (fld value ''issuedAt'') (fld value ''expiresAt''),
        exact_pattern (fld value ''publicKeyHex'') LOWER_HEX_32 ''activation publicKeyHex'',
        exact_pattern (fld value ''keyId'') KEY_ID ''activation keyId'',
        exact_literal (fld value ''identityScheme'') (jlit IDENTITY_SCHEME) ''activation identityScheme'',
        exact_literal (fld value ''signatureProfile'') (jlit JCS_SIGNATURE_PROFILE) ''activation signatureProfile'']
       (Inr (frozen_record (map (\<lambda>name. (name, fld value name)) ACTIVATION_FIELDS))))"

subsection \<open>Publication\<close>

fun split_on :: "'a \<Rightarrow> 'a list \<Rightarrow> 'a list list" where
  "split_on d [] = [[]]"
| "split_on d (c # cs) = (if c = d then [] # split_on d cs
     else (case split_on d cs of [] \<Rightarrow> [[c]] | w # ws \<Rightarrow> (c # w) # ws))"

definition is_label_char :: "code_unit \<Rightarrow> bool" where
  "is_label_char c \<longleftrightarrow> (97 \<le> c \<and> c \<le> 122) \<or> (48 \<le> c \<and> c \<le> 57)"

definition dns_label :: "jstring \<Rightarrow> bool" where
  \<comment> \<open>\<open>/^[a-z0-9](?:[a-z0-9-]{0,61}[a-z0-9])?$/\<close>\<close>
  "dns_label s \<longleftrightarrow> 1 \<le> length s \<and> length s \<le> 63 \<and> is_label_char (hd s) \<and> is_label_char (last s)
     \<and> list_all (\<lambda>c. is_label_char c \<or> c = 45) s"

definition canonical_provider :: "url_parts \<Rightarrow> jstring \<Rightarrow> bool" where
  "canonical_provider u origin \<longleftrightarrow>
     url_protocol u = js ''https:'' \<and> origin = url_origin u \<and> url_username u = [] \<and> url_password u = []
     \<and> url_port u \<noteq> js ''0'' \<and> url_pathname u = js ''/'' \<and> url_search u = [] \<and> url_hash u = []
     \<and> length (url_hostname u) \<le> 253 \<and> list_all dns_label (split_on 46 (url_hostname u))"

definition integer_between :: "jval \<Rightarrow> int \<Rightarrow> int \<Rightarrow> bool" where
  "integer_between v lo hi = (case v of
       JNum n \<Rightarrow> num_is_integer n \<and> \<not> num_less n (Fin (of_int lo)) \<and> \<not> num_less (Fin (of_int hi)) n
     | _ \<Rightarrow> False)"

definition entity_text :: "jstring \<Rightarrow> bool" where
  "entity_text s \<longleftrightarrow> 1 \<le> length (utf8_encode s) \<and> length (utf8_encode s) \<le> 256
     \<and> list_all (\<lambda>c. \<not> (c \<le> 31 \<or> c = 127)) s"

definition validate_sdn_publish_request :: "wire_host \<Rightarrow> jval \<Rightarrow> jval result" where
  "validate_sdn_publish_request H input =
     rbind (exact_record input PUBLISH_REQUEST_FIELDS ''SDN publication request'') (\<lambda>value.
     let schema = str_of (fld value ''schema'');
         route = js ''/api/v1/data/publish/'' @ schema;
         batch = js ''/api/v1/data/publish/batch/'' @ schema
     in checks
       [exact_literal (fld value ''protocolVersion'') (jint 1) ''publication protocolVersion'',
        exact_literal (fld value ''method'') (jlit ''POST'') ''publication method'',
        exact_one_of (fld value ''schema'') [''CZM'', ''ETM''] ''publication schema'',
        validate_unicode_scalar_string (fld value ''providerOrigin'') ''providerOrigin'',
        (case new_url H (str_of (fld value ''providerOrigin'')) of
           None \<Rightarrow> Inl (fail_with ''providerOrigin must be canonical HTTPS'')
         | Some u \<Rightarrow> ensure (canonical_provider u (str_of (fld value ''providerOrigin'')))
             (fail_with ''providerOrigin must be a canonical HTTPS DNS or IPv4 origin'')),
        ensure (fld value ''requestUri'' \<in> set (map JStr [route, route @ js ''.fbs'', batch, batch @ js ''.fbs'']))
          (fail_with ''publication requestUri is not an allowed value''),
        exact_pattern (fld value ''bodySha256'') LOWER_HEX_32 ''publication bodySha256'',
        ensure (integer_between (fld value ''bodyBytes'') 1 1048576)
          (fail_with ''publication bodyBytes is outside its bounds''),
        ensure (integer_between (fld value ''documentCount'') 1 100000)
          (fail_with ''publication documentCount is outside its bounds''),
        validate_unicode_scalar_string (fld value ''entityId'') ''entityId'',
        ensure (entity_text (str_of (fld value ''entityId'')))
          (fail_with ''entityId must contain 1..256 UTF-8 bytes without controls''),
        validate_unicode_scalar_string (fld value ''entityName'') ''entityName'',
        ensure (entity_text (str_of (fld value ''entityName'')))
          (fail_with ''entityName must contain 1..256 UTF-8 bytes without controls'')]
       (Inr (frozen_record (map (\<lambda>f. (f, fld value f)) PUBLISH_REQUEST_FIELDS))))"

definition validate_sdn_publish_result :: "jval \<Rightarrow> jval result" where
  "validate_sdn_publish_result input =
     rbind (exact_record input PUBLISH_RESULT_FIELDS ''SDN publication signature'') (\<lambda>value.
     checks
       [exact_literal (fld value ''schemaVersion'') (jint 1) ''publication signature schemaVersion'',
        exact_literal (fld value ''identityScheme'') (jlit IDENTITY_SCHEME) ''publication identityScheme'',
        exact_literal (fld value ''algorithm'') (jlit ''ed25519'') ''publication algorithm'',
        exact_literal (fld value ''encoding'') (jlit ''raw'') ''publication encoding'',
        exact_literal (fld value ''signatureProfile'') (jlit PUBLISH_SIGNATURE_PROFILE) ''publication signatureProfile'',
        exact_pattern (fld value ''keyId'') KEY_ID ''publication keyId'',
        exact_pattern (fld value ''publicKeyHex'') LOWER_HEX_32 ''publication publicKeyHex'',
        exact_pattern (fld value ''signatureHex'') LOWER_HEX_64 ''publication signatureHex'',
        exact_pattern (fld value ''requestDigestSha256'') LOWER_HEX_32 ''publication requestDigestSha256'',
        exact_pattern (fld value ''challengeId'') (lower_hex 32) ''publication challengeId'',
        validate_base64url32 (fld value ''challengeBase64url'') ''publication challengeBase64url'']
       (Inr (frozen_record (map (\<lambda>f. (f, fld value f)) PUBLISH_RESULT_FIELDS))))"

subsection \<open>The review decision\<close>

definition validate_finite_tuple :: "jval \<Rightarrow> nat \<Rightarrow> string \<Rightarrow> jval result" where
  "validate_finite_tuple value n label = checks
     (validate_plain_dense_array value n (label @ '' array'')
      # map (\<lambda>item. ensure (is_finite_num item) (fail_with (label @ '' values must be finite numbers'')))
          (array_values value))
     (Inr (jarr (array_values value)))"

definition validate_transform :: "wire_host \<Rightarrow> jval \<Rightarrow> jval result" where
  "validate_transform H input =
     rbind (exact_record input TRANSFORM_FIELDS ''reviewedTransform'') (\<lambda>value.
     rbind (validate_finite_tuple (fld value ''translation'') 3 ''translation'') (\<lambda>translation.
     rbind (validate_finite_tuple (fld value ''rotation'') 4 ''rotation'') (\<lambda>rotation.
     rbind (validate_finite_tuple (fld value ''scale'') 3 ''scale'') (\<lambda>scale.
     let bound = (\<lambda>name. num_of (fld TRANSFORM_POLICY name));
         units = fld TRANSFORM_POLICY ''metersPerSourceUnit'';
         source_units = str_of (fld value ''sourceUnits'')
     in checks
       [ensure (list_all (\<lambda>c. \<not> num_less (bound ''translationComponentAbsMax'') (num_abs (num_of c)))
            (array_values translation))
          (fail_with ''translation values exceed the reviewed transform policy''),
        ensure (list_all (\<lambda>c. \<not> (num_le (num_of c) (bound ''scaleComponentExclusiveMin'')
              \<or> num_less (bound ''scaleComponentInclusiveMax'') (num_of c))) (array_values scale))
          (fail_with ''scale values exceed the reviewed transform policy''),
        ensure (\<not> num_less (bound ''quaternionNormTolerance'')
              (num_abs (num_minus_one (math_hypot H (map num_of (array_values rotation))))))
          (fail_with ''rotation must be a unit quaternion within the reviewed tolerance''),
        ensure (list_ex (\<lambda>axis. strict_eq (fld value ''upAxis'') axis) (array_values (fld TRANSFORM_POLICY ''upAxes'')))
          (fail_with ''upAxis is not an allowed value''),
        validate_unicode_scalar_string (fld value ''sourceUnits'') ''sourceUnits'',
        ensure (source_units \<in> set (own_names units))
          (fail_with ''sourceUnits is not allowed by the reviewed transform policy''),
        ensure (is_finite_num (fld value ''metersPerSourceUnit'')
              \<and> strict_eq (fld value ''metersPerSourceUnit'') (field units source_units))
          (fail_with ''metersPerSourceUnit must exactly match sourceUnits'')]
       (Inr (frozen_record
          [(''metersPerSourceUnit'', fld value ''metersPerSourceUnit''),
           (''rotation'', rotation),
           (''scale'', scale),
           (''sourceUnits'', fld value ''sourceUnits''),
           (''translation'', translation),
           (''upAxis'', fld value ''upAxis'')]))))))"

definition is_trim_scalar :: "nat \<Rightarrow> bool" where
  "is_trim_scalar c \<longleftrightarrow> (0x09 \<le> c \<and> c \<le> 0x0d) \<or> c = 0x20 \<or> c = 0x00a0 \<or> c = 0x1680
     \<or> (0x2000 \<le> c \<and> c \<le> 0x200a) \<or> c = 0x2028 \<or> c = 0x2029 \<or> c = 0x202f \<or> c = 0x205f
     \<or> c = 0x3000 \<or> c = 0xfeff"

definition trim_text :: "jstring \<Rightarrow> jstring" where
  \<comment> \<open>\<open>String.prototype.trim\<close>\<close>
  "trim_text s = rev (dropWhile is_trim_scalar (rev (dropWhile is_trim_scalar s)))"

definition validate_review_text :: "jval \<Rightarrow> string \<Rightarrow> bool \<Rightarrow> jval result" where
  "validate_review_text value label nullable =
     (if nullable \<and> value = JNull then Inr JNull
      else let s = str_of value; scalars = code_points s
        in checks
          [validate_unicode_scalar_string value label,
           ensure (s \<noteq> [] \<and> length (utf8_encode s) \<le> 2000) (fail_with (label @ '' has an invalid length'')),
           ensure (\<not> is_trim_scalar (hd scalars) \<and> \<not> is_trim_scalar (last scalars))
             (fail_with (label @ '' must already be trimmed''))]
          (Inr value))"

definition conditional_fields :: "jval \<Rightarrow> string list" where
  "conditional_fields decision =
     (if decision = jlit ''approve'' then [''note'', ''reviewedTransform'']
      else if decision = jlit ''disapprove'' then [''reason''] else [])"

definition is_entity_char :: "code_unit \<Rightarrow> bool" where
  "is_entity_char c \<longleftrightarrow> is_label_char c \<or> c = 45"

definition entity_id :: "jstring \<Rightarrow> bool" where
  \<comment> \<open>\<open>/^[a-z0-9-]+\/[a-z0-9][a-z0-9-]*$/\<close>\<close>
  "entity_id s = (case split_on 47 s of
       [a, b] \<Rightarrow> a \<noteq> [] \<and> b \<noteq> [] \<and> list_all is_entity_char a \<and> is_label_char (hd b) \<and> list_all is_entity_char b
     | _ \<Rightarrow> False)"

definition candidate_entity :: "jstring \<Rightarrow> jstring \<Rightarrow> jstring" where
  \<comment> \<open>\<open>candidateKey.slice(candidatePrefix.length, -candidateSuffix.length)\<close>\<close>
  "candidate_entity key sha256 = drop 13 (take (length key - (1 + length sha256)) key)"

definition caller_string_bytes :: "jval \<Rightarrow> nat" where
  "caller_string_bytes value =
     sum_list (map (\<lambda>(k, v). case v of JStr s \<Rightarrow> length (utf8_encode s) | _ \<Rightarrow> 0) (object_entries value))"

definition validate_decision :: "wire_host \<Rightarrow> jval \<Rightarrow> jval result" where
  "validate_decision H input = rbind (read_input input) (\<lambda>raw.
     checks
       [ensure (is_object_record raw) (fail_with ''asset review decision request must be a JSON object''),
        ensure (case map_of (own_props raw) (js ''decision'') of Some p \<Rightarrow> is_plain_data p | None \<Rightarrow> False)
          (fail_with ''asset review decision request has an invalid decision field'')]
     (let decision = fld raw ''decision'' in
      rbind (exact_record raw (DECISION_BASE_FIELDS @ conditional_fields decision)
        ''asset review decision request'') (\<lambda>value.
      let sha256 = str_of (fld value ''modelSha256''); key = str_of (fld value ''candidateKey'') in
      checks
       [exact_literal (fld value ''protocolVersion'') (jint 1) ''decision protocolVersion'',
        exact_literal (fld value ''audience'') (jlit REVIEW_AUDIENCE) ''decision audience'',
        exact_literal (fld value ''requestOrigin'') (jlit REVIEW_ORIGIN) ''decision requestOrigin'',
        exact_literal (fld value ''clientId'') (jlit REVIEW_CLIENT_ID) ''decision clientId'',
        exact_pattern (fld value ''challengeId'') LOWER_HEX_32 ''challengeId'',
        exact_pattern (fld value ''nonce'') LOWER_HEX_32 ''decision nonce'',
        exact_timestamp (fld value ''issuedAt'') ''decision issuedAt'',
        exact_timestamp (fld value ''expiresAt'') ''decision expiresAt'',
        validate_lifetime (fld value ''issuedAt'') (fld value ''expiresAt''),
        exact_pattern (fld value ''modelSha256'') LOWER_HEX_32 ''modelSha256'',
        exact_pattern (fld value ''metadataSha256'') LOWER_HEX_32 ''metadataSha256'',
        (if fld value ''previousDecisionHead'' \<noteq> JNull
         then exact_pattern (fld value ''previousDecisionHead'') LOWER_HEX_32 ''previousDecisionHead'' else Inr ()),
        validate_model_cid (fld value ''modelCid'') sha256,
        ensure (is_num (fld value ''modelBytes'') \<and> num_is_safe_integer (num_of (fld value ''modelBytes''))
            \<and> \<not> num_le (num_of (fld value ''modelBytes'')) (Fin 0))
          (fail_with ''modelBytes must be a positive safe integer''),
        validate_unicode_scalar_string (fld value ''candidateKey'') ''candidateKey'',
        ensure (starts_with (js ''asset-review:'') key \<and> ends_with (58 # sha256) key \<and> length (utf8_encode key) \<le> 206)
          (fail_with ''candidateKey does not bind the model digest''),
        ensure (entity_id (candidate_entity key sha256) \<and> length (utf8_encode (candidate_entity key sha256)) \<le> 128)
          (fail_with ''candidateKey entityId is invalid'')]
       (rbind
          (if decision = jlit ''approve''
           then rbind (validate_review_text (fld value ''note'') ''note'' True) (\<lambda>note.
                rbind (validate_transform H (fld value ''reviewedTransform'')) (\<lambda>transform.
                Inr [(''note'', note), (''reviewedTransform'', transform)]))
           else rbind (validate_review_text (fld value ''reason'') ''reason'' False) (\<lambda>reason.
                Inr [(''reason'', reason)])) (\<lambda>extra.
        checks
          [ensure (caller_string_bytes value \<le> 16384) (fail_with ''decision request strings exceed 16 KiB'')]
          (Inr (frozen_record (map (\<lambda>name. (name, fld value name)) DECISION_BASE_FIELDS @ extra))))))))"

subsection \<open>Signed envelopes\<close>

definition validate_envelope_descriptor :: "jval \<Rightarrow> jval \<Rightarrow> unit result" where
  "validate_envelope_descriptor value signature = checks
     (map (\<lambda>f. ensure (strict_eq (fld value f) (fld signature f))
            (fail_with (''canonicalEnvelope '' @ f @ '' must match the signature result'')))
        [''identityScheme'', ''keyId'', ''signatureProfile''])
     (Inr ())"

definition SDN_LOGIN_ENVELOPE_FIELDS :: "string list" where
  "SDN_LOGIN_ENVELOPE_FIELDS = [''audience'', ''challengeSha256'', ''clientId'', ''expiresAt'', ''identityScheme'',
     ''issuedAt'', ''keyId'', ''kind'', ''nonce'', ''protocolVersion'', ''requestOrigin'', ''signatureProfile'']"

definition validate_sdn_login_envelope :: "jval \<Rightarrow> jval \<Rightarrow> unit result" where
  "validate_sdn_login_envelope value signature =
     rbind (exact_record value SDN_LOGIN_ENVELOPE_FIELDS ''SDN login canonicalEnvelope'') (\<lambda>envelope.
     checks
       [validate_envelope_descriptor envelope signature,
        exact_literal (fld envelope ''audience'') (jlit SDN_AUDIENCE) ''SDN login envelope audience'',
        exact_pattern (fld envelope ''challengeSha256'') LOWER_HEX_32 ''SDN login envelope challengeSha256'',
        exact_literal (fld envelope ''clientId'') (jlit ''sdn-node-console-v1'') ''SDN login envelope clientId'',
        exact_timestamp (fld envelope ''issuedAt'') ''SDN login envelope issuedAt'',
        exact_timestamp (fld envelope ''expiresAt'') ''SDN login envelope expiresAt'',
        validate_lifetime (fld envelope ''issuedAt'') (fld envelope ''expiresAt''),
        exact_literal (fld envelope ''identityScheme'') (jlit IDENTITY_SCHEME) ''SDN login envelope identityScheme'',
        exact_pattern (fld envelope ''keyId'') KEY_ID ''SDN login envelope keyId'',
        exact_literal (fld envelope ''kind'') (jlit ''sdn-login'') ''SDN login envelope kind'',
        exact_pattern (fld envelope ''nonce'') LOWER_HEX_32 ''SDN login envelope nonce'',
        exact_literal (fld envelope ''protocolVersion'') (jint 2) ''SDN login envelope protocolVersion'',
        exact_literal (fld envelope ''requestOrigin'') (jlit ''https://sdn.spaceaware.io'')
          ''SDN login envelope requestOrigin'',
        exact_literal (fld envelope ''signatureProfile'') (jlit JCS_SIGNATURE_PROFILE)
          ''SDN login envelope signatureProfile'']
       (Inr ()))"

definition select_fields :: "jval \<Rightarrow> string list \<Rightarrow> jval" where
  \<comment> \<open>\<open>Object.fromEntries(fields.map((field) => [field, value[field]]))\<close>\<close>
  "select_fields v names = jobj (map (\<lambda>f. (js f, fld v f)) names)"

definition validate_activation_envelope :: "jval \<Rightarrow> jval \<Rightarrow> unit result" where
  "validate_activation_envelope value signature =
     rbind (exact_record value (ACTIVATION_FIELDS @ [''kind'']) ''authority activation canonicalEnvelope'') (\<lambda>envelope.
     checks
       [validate_envelope_descriptor envelope signature,
        exact_literal (fld envelope ''kind'') (jlit ''asset-review-authority-activation'') ''activation envelope kind'']
       (rbind (validate_activation (select_fields envelope ACTIVATION_FIELDS)) (\<lambda>_. Inr ())))"

definition validate_decision_envelope :: "wire_host \<Rightarrow> jval \<Rightarrow> jval \<Rightarrow> unit result" where
  "validate_decision_envelope H value signature =
     (let request_fields = DECISION_BASE_FIELDS @ conditional_fields (fld value ''decision'') in
     rbind (exact_record value
        (request_fields @ [''identityScheme'', ''keyId'', ''kind'', ''purpose'', ''signatureProfile''])
        ''asset review decision canonicalEnvelope'') (\<lambda>envelope.
     checks
       [validate_envelope_descriptor envelope signature,
        exact_literal (fld envelope ''identityScheme'') (jlit IDENTITY_SCHEME) ''decision envelope identityScheme'',
        exact_pattern (fld envelope ''keyId'') KEY_ID ''decision envelope keyId'',
        exact_literal (fld envelope ''kind'') (jlit ''asset-review-attestation'') ''decision envelope kind'',
        exact_literal (fld envelope ''purpose'') (jlit ''asset-review-approval'') ''decision envelope purpose'',
        exact_literal (fld envelope ''signatureProfile'') (jlit JCS_SIGNATURE_PROFILE)
          ''decision envelope signatureProfile'']
       (rbind (validate_decision H (select_fields envelope request_fields)) (\<lambda>_. Inr ()))))"

definition validate_canonical_envelope :: "wire_host \<Rightarrow> jval \<Rightarrow> string \<Rightarrow> jval \<Rightarrow> unit result" where
  "validate_canonical_envelope H value expected_kind signature = checks
     [validate_unicode_scalar_string value ''canonicalEnvelope'',
      ensure (length (utf8_encode (str_of value)) \<le> MAX_WIRE_JSON_BYTES) (fail_with ''canonicalEnvelope is too large'')]
     (rbind (parse_json_without_duplicates value) (\<lambda>parsed.
      checks
        [ensure (is_object_record parsed \<and> fld parsed ''kind'' = jlit expected_kind)
           (fail_with ''canonicalEnvelope kind does not match the operation'')]
        (rbind (wire_canonical_json parsed) (\<lambda>text.
         checks
           [ensure (JStr text = value) (fail_with ''canonicalEnvelope must be exact JCS'')]
           (if expected_kind = ''sdn-login'' then validate_sdn_login_envelope parsed signature
            else if expected_kind = ''asset-review-authority-activation''
            then validate_activation_envelope parsed signature
            else if expected_kind = ''asset-review-attestation'' then validate_decision_envelope H parsed signature
            else Inl (fail_with ''canonicalEnvelope operation is not registered''))))))"

definition validate_canonical_signature :: "wire_host \<Rightarrow> jval \<Rightarrow> string \<Rightarrow> jval result" where
  "validate_canonical_signature H input expected_kind =
     rbind (exact_record input CANONICAL_SIGNATURE_FIELDS ''canonical signature'') (\<lambda>value.
     checks
       [exact_literal (fld value ''schemaVersion'') (jint 1) ''signature schemaVersion'',
        exact_pattern (fld value ''keyId'') KEY_ID ''signature keyId'',
        exact_literal (fld value ''identityScheme'') (jlit IDENTITY_SCHEME) ''signature identityScheme'',
        exact_literal (fld value ''algorithm'') (jlit ''ed25519'') ''signature algorithm'',
        exact_literal (fld value ''encoding'') (jlit ''raw'') ''signature encoding'',
        exact_literal (fld value ''signatureProfile'') (jlit JCS_SIGNATURE_PROFILE) ''signature profile'',
        validate_canonical_envelope H (fld value ''canonicalEnvelope'') expected_kind value,
        exact_pattern (fld value ''signedDigestSha256'') LOWER_HEX_32 ''signedDigestSha256'',
        exact_pattern (fld value ''signatureHex'') LOWER_HEX_64 ''signatureHex'']
       (Inr (frozen_record
          [(''algorithm'', jlit ''ed25519''),
           (''canonicalEnvelope'', fld value ''canonicalEnvelope''),
           (''encoding'', jlit ''raw''),
           (''identityScheme'', jlit IDENTITY_SCHEME),
           (''keyId'', fld value ''keyId''),
           (''schemaVersion'', jint 1),
           (''signatureHex'', fld value ''signatureHex''),
           (''signatureProfile'', jlit JCS_SIGNATURE_PROFILE),
           (''signedDigestSha256'', fld value ''signedDigestSha256'')])))"

subsection \<open>The exported builders and parsers\<close>

definition build_empty_request :: "jval \<Rightarrow> string \<Rightarrow> jval result" where
  "build_empty_request input label = rbind (exact_record input [] label) (\<lambda>_. Inr (jobj []))"

definition parse_wallet_connect_request :: "jval \<Rightarrow> jval result" where
  "parse_wallet_connect_request v = build_empty_request v ''wallet connect request''"

definition parse_wallet_connect_result :: "jval \<Rightarrow> jval result" where
  "parse_wallet_connect_result v = validate_connection_result v ''connect''"

definition parse_wallet_account_request :: "jval \<Rightarrow> jval result" where
  "parse_wallet_account_request v = build_empty_request v ''wallet account request''"

definition parse_wallet_account_result :: "jval \<Rightarrow> jval result" where
  "parse_wallet_account_result v = validate_connection_result v ''account''"

definition build_sdn_login_v1_request :: "jval \<Rightarrow> jval result" where
  "build_sdn_login_v1_request input =
     rbind (exact_record input [''challenge'', ''protocolVersion''] ''SDN login v1 public request'') (\<lambda>value.
     checks [exact_literal (fld value ''protocolVersion'') (jint 1) ''SDN login v1 protocolVersion'']
       (rbind (encode_base64url32 (fld value ''challenge'') ''challenge'') (\<lambda>challenge.
        validate_sdn_login_v1_wire (jobj
          [(js ''challengeBase64url'', JStr challenge), (js ''protocolVersion'', jint 1)]))))"

definition build_sdn_login_v2_request :: "jval \<Rightarrow> jval result" where
  "build_sdn_login_v2_request input =
     rbind (exact_record input [''audience'', ''challenge'', ''expiresAt'', ''issuedAt'', ''nonce'', ''protocolVersion'']
        ''SDN login v2 public request'') (\<lambda>value.
     rbind (encode_base64url32 (fld value ''challenge'') ''challenge'') (\<lambda>challenge.
     validate_sdn_login_v2_wire (jobj
       [(js ''audience'', fld value ''audience''),
        (js ''challengeBase64url'', JStr challenge),
        (js ''expiresAt'', fld value ''expiresAt''),
        (js ''issuedAt'', fld value ''issuedAt''),
        (js ''nonce'', fld value ''nonce''),
        (js ''protocolVersion'', fld value ''protocolVersion'')])))"

definition parse_sdn_login_v2_result :: "wire_host \<Rightarrow> jval \<Rightarrow> jval result" where
  "parse_sdn_login_v2_result H v = validate_canonical_signature H v ''sdn-login''"

definition parse_activation_result :: "wire_host \<Rightarrow> jval \<Rightarrow> jval result" where
  "parse_activation_result H v = validate_canonical_signature H v ''asset-review-authority-activation''"

definition parse_decision_result :: "wire_host \<Rightarrow> jval \<Rightarrow> jval result" where
  "parse_decision_result H v = validate_canonical_signature H v ''asset-review-attestation''"

end
