(* ===== verification/WireFields.thy ===== *)
theory WireFields
  imports WireMessages
begin

section \<open>Field opening and key unwrapping of client/wire.mjs\<close>

text \<open>
  The \<open>sdn.wallet.field-open.v1\<close> and \<open>sdn.wallet.key-unwrap.v1\<close> messages: bounded batches of
  sealed fields, each bound to a field-encryption context, and their results.
\<close>

record field_open_limits =
  envelope_bytes :: nat
  field_bytes :: nat
  batch_bytes :: nat
  max_fields :: nat
  context_bytes :: nat

definition FIELD_OPEN_LIMITS :: field_open_limits where
  "FIELD_OPEN_LIMITS = \<lparr>envelope_bytes = 512, field_bytes = 4096, batch_bytes = 12288, max_fields = 16, context_bytes = 256\<rparr>"

definition FIELD_REQUEST_FIELDS :: "string list" where
  "FIELD_REQUEST_FIELDS = [''ciphertextBase64url'', ''context'', ''encBase64url'', ''fieldId'']"

definition FIELD_OPEN_REQUEST_FIELDS :: "string list" where
  "FIELD_OPEN_REQUEST_FIELDS = [''fields'', ''protocolVersion'', ''replyPublicKeyHex'']"

definition KEY_UNWRAP_REQUEST_FIELDS :: "string list" where
  "KEY_UNWRAP_REQUEST_FIELDS = [''context'', ''encBase64url'', ''kmfBase64url'', ''protocolVersion'', ''replyPublicKeyHex'']"

definition FIELD_RESULT_FIELDS :: "string list" where
  "FIELD_RESULT_FIELDS = [''fields'', ''replyEphemeralPublicKeyHex'', ''schemaVersion'']"

subsection \<open>The context of a field\<close>

definition is_segment_char :: "code_unit \<Rightarrow> bool" where
  "is_segment_char c \<longleftrightarrow> (65 \<le> c \<and> c \<le> 90) \<or> (97 \<le> c \<and> c \<le> 122) \<or> (48 \<le> c \<and> c \<le> 57)
     \<or> c = 95 \<or> c = 46 \<or> c = 45"

definition context_segment :: "jstring \<Rightarrow> bool" where
  "context_segment s \<longleftrightarrow> 1 \<le> length s \<and> length s \<le> 64 \<and> list_all is_segment_char s"

definition key_version :: "jstring \<Rightarrow> bool" where
  \<comment> \<open>\<open>k[1-9][0-9]{0,8}\<close>\<close>
  "key_version s = (case s of
       k # d # ds \<Rightarrow> k = 107 \<and> 49 \<le> d \<and> d \<le> 57 \<and> length ds \<le> 8 \<and> list_all is_digit ds
     | _ \<Rightarrow> False)"

definition FIELD_CONTEXT :: "jstring \<Rightarrow> bool" where
  "FIELD_CONTEXT s = (case split_on 124 s of
       [p, site, schema, name, version] \<Rightarrow> p = js ''sdn-field-encryption/v1'' \<and> context_segment site
         \<and> context_segment schema \<and> context_segment name \<and> key_version version
     | _ \<Rightarrow> False)"

definition validate_field_context :: "jval \<Rightarrow> string \<Rightarrow> unit result" where
  "validate_field_context v label = checks
     [validate_unicode_scalar_string v label,
      ensure (length (utf8_encode (str_of v)) \<le> context_bytes FIELD_OPEN_LIMITS \<and> FIELD_CONTEXT (str_of v))
        (fail_with (label @ '' must be sdn-field-encryption/v1|<site>|<schema>|<field>|k<version>''))]
     (Inr ())"

definition field_context_site :: "jval \<Rightarrow> jstring result" where
  "field_context_site v = rbind (validate_field_context v ''context'') (\<lambda>_. Inr (split_on 124 (str_of v) ! 1))"

subsection \<open>Requests\<close>

definition index_label :: "string \<Rightarrow> nat \<Rightarrow> string \<Rightarrow> string" where
  \<comment> \<open>\<open>`${prefix} ${index}${suffix}`\<close>\<close>
  "index_label prefix i suffix = prefix @ map char_of (decimal_digits i) @ suffix"

definition validate_field_entry :: "nat \<Rightarrow> jval \<Rightarrow> (jval \<times> nat) result" where
  \<comment> \<open>one entry, with the length of its ciphertext\<close>
  "validate_field_entry i entry =
     rbind (exact_record entry FIELD_REQUEST_FIELDS (index_label ''field '' i '''')) (\<lambda>field.
     rbind (decode_base64url_bytes (fld field ''encBase64url'') 1 (envelope_bytes FIELD_OPEN_LIMITS)
       (index_label ''field '' i '' encBase64url'')) (\<lambda>_.
     rbind (decode_base64url_bytes (fld field ''ciphertextBase64url'') 1 (field_bytes FIELD_OPEN_LIMITS)
       (index_label ''field '' i '' ciphertextBase64url'')) (\<lambda>ciphertext.
     checks
       [validate_field_context (fld field ''context'') (index_label ''field '' i '' context''),
        ensure (integer_between (fld field ''fieldId'') 0 0xffff)
          (fail_with (index_label ''field '' i '' fieldId must be 0..65535''))]
       (Inr (frozen_record (map (\<lambda>name. (name, fld field name)) FIELD_REQUEST_FIELDS), length ciphertext)))))"

definition array_length_between :: "jval \<Rightarrow> nat \<Rightarrow> nat \<Rightarrow> bool" where
  "array_length_between v lo hi \<longleftrightarrow> is_array v \<and> lo \<le> length (array_slots v) \<and> length (array_slots v) \<le> hi"

definition validate_field_open_request :: "jval \<Rightarrow> jval result" where
  "validate_field_open_request input =
     rbind (exact_record input FIELD_OPEN_REQUEST_FIELDS ''field-open request'') (\<lambda>value.
     checks
       [exact_literal (fld value ''protocolVersion'') (jint 1) ''field-open protocolVersion'',
        exact_pattern (fld value ''replyPublicKeyHex'') LOWER_HEX_32 ''replyPublicKeyHex'',
        ensure (array_length_between (fld value ''fields'') 1 (max_fields FIELD_OPEN_LIMITS))
          (fail_with ''field-open request carries 1..16 fields''),
        validate_plain_dense_array (fld value ''fields'') (length (array_slots (fld value ''fields''))) ''field-open fields'']
       (rbind (mapM_index validate_field_entry 0 (array_values (fld value ''fields''))) (\<lambda>entries.
        checks
          [ensure (sum_list (map snd entries) \<le> batch_bytes FIELD_OPEN_LIMITS)
             (fail_with ''field-open ciphertext exceeds 12288 bytes'')]
          (Inr (frozen_record
             [(''fields'', jarr (map fst entries)),
              (''protocolVersion'', jint 1),
              (''replyPublicKeyHex'', fld value ''replyPublicKeyHex'')])))))"

definition validate_key_unwrap_request :: "jval \<Rightarrow> jval result" where
  "validate_key_unwrap_request input =
     rbind (exact_record input KEY_UNWRAP_REQUEST_FIELDS ''key-unwrap request'') (\<lambda>value.
     checks
       [exact_literal (fld value ''protocolVersion'') (jint 1) ''key-unwrap protocolVersion'',
        exact_pattern (fld value ''replyPublicKeyHex'') LOWER_HEX_32 ''replyPublicKeyHex'',
        validate_field_context (fld value ''context'') ''key-unwrap context'']
       (rbind (decode_base64url_bytes (fld value ''encBase64url'') 1 (envelope_bytes FIELD_OPEN_LIMITS)
          ''key-unwrap encBase64url'') (\<lambda>_.
        rbind (decode_base64url_bytes (fld value ''kmfBase64url'') 1 (envelope_bytes FIELD_OPEN_LIMITS)
          ''key-unwrap kmfBase64url'') (\<lambda>_.
        Inr (frozen_record (map (\<lambda>name. (name, fld value name)) KEY_UNWRAP_REQUEST_FIELDS))))))"

definition reply_placeholder :: jval where
  \<comment> \<open>\<open>'0'.repeat(64)\<close>, the default of \<open>replyPublicKeyHex\<close>\<close>
  "reply_placeholder = JStr (replicate 64 48)"

definition build_field_entry :: "nat \<Rightarrow> jval \<Rightarrow> jval result" where
  "build_field_entry i entry =
     rbind (exact_record entry [''ciphertext'', ''context'', ''enc'', ''fieldId''] (index_label ''openFields field '' i '''')) (\<lambda>field.
     rbind (plain_bytes (fld field ''ciphertext'') (index_label ''field '' i '' ciphertext'')) (\<lambda>ciphertext.
     rbind (plain_bytes (fld field ''enc'') (index_label ''field '' i '' enc'')) (\<lambda>enc.
     Inr (jobj
       [(js ''ciphertextBase64url'', JStr (encode_base64url ciphertext)),
        (js ''context'', fld field ''context''),
        (js ''encBase64url'', JStr (encode_base64url enc)),
        (js ''fieldId'', fld field ''fieldId'')]))))"

definition build_field_open_request :: "jval \<Rightarrow> jval \<Rightarrow> jval result" where
  "build_field_open_request input reply_public_key_hex =
     rbind (exact_record input [''fields''] ''openFields input'') (\<lambda>value.
     checks
       [ensure (is_array (fld value ''fields'')) (fail_with ''openFields fields must be an array''),
        validate_plain_dense_array (fld value ''fields'') (length (array_slots (fld value ''fields''))) ''openFields fields'']
       (rbind (mapM_index build_field_entry 0 (array_values (fld value ''fields''))) (\<lambda>entries.
        validate_field_open_request (jobj
          [(js ''fields'', jarr entries),
           (js ''protocolVersion'', jint 1),
           (js ''replyPublicKeyHex'', reply_public_key_hex)]))))"

definition build_key_unwrap_request :: "jval \<Rightarrow> jval \<Rightarrow> jval result" where
  "build_key_unwrap_request input reply_public_key_hex =
     rbind (exact_record input [''context'', ''enc'', ''kmf''] ''unwrapKey input'') (\<lambda>value.
     rbind (plain_bytes (fld value ''enc'') ''enc'') (\<lambda>enc.
     rbind (plain_bytes (fld value ''kmf'') ''kmf'') (\<lambda>kmf.
     validate_key_unwrap_request (jobj
       [(js ''context'', fld value ''context''),
        (js ''encBase64url'', JStr (encode_base64url enc)),
        (js ''kmfBase64url'', JStr (encode_base64url kmf)),
        (js ''protocolVersion'', jint 1),
        (js ''replyPublicKeyHex'', reply_public_key_hex)]))))"

subsection \<open>Results\<close>

definition validate_field_outcome :: "nat \<Rightarrow> jval \<Rightarrow> jval result" where
  "validate_field_outcome i entry =
     (if is_object_record entry \<and> fld entry ''status'' = jlit ''opened''
      then rbind (exact_record entry [''ciphertextBase64url'', ''status''] (index_label ''field result '' i '''')) (\<lambda>field.
           rbind (decode_base64url_bytes (fld field ''ciphertextBase64url'') 1 (field_bytes FIELD_OPEN_LIMITS)
             (index_label ''field result '' i '' ciphertext'')) (\<lambda>_.
           Inr (frozen_record [(''ciphertextBase64url'', fld field ''ciphertextBase64url''), (''status'', jlit ''opened'')])))
      else rbind (exact_record entry [''reason'', ''status''] (index_label ''field result '' i '''')) (\<lambda>field.
           checks
             [exact_literal (fld field ''status'') (jlit ''refused'') (index_label ''field result '' i '' status''),
              exact_literal (fld field ''reason'') (jlit ''NOT_ADDRESSED_TO_ACCOUNT'')
                (index_label ''field result '' i '' reason'')]
             (Inr (frozen_record [(''reason'', jlit ''NOT_ADDRESSED_TO_ACCOUNT''), (''status'', jlit ''refused'')]))))"

definition validate_field_result :: "jval \<Rightarrow> nat \<Rightarrow> jval result" where
  "validate_field_result input limit =
     rbind (exact_record input FIELD_RESULT_FIELDS ''field result'') (\<lambda>value.
     checks
       [exact_literal (fld value ''schemaVersion'') (jint 1) ''field result schemaVersion'',
        exact_pattern (fld value ''replyEphemeralPublicKeyHex'') LOWER_HEX_32 ''replyEphemeralPublicKeyHex'',
        ensure (array_length_between (fld value ''fields'') 1 limit)
          (fail_with (index_label ''field result carries 1..'' limit '' fields'')),
        validate_plain_dense_array (fld value ''fields'') (length (array_slots (fld value ''fields''))) ''field result fields'']
       (rbind (mapM_index validate_field_outcome 0 (array_values (fld value ''fields''))) (\<lambda>outcomes.
        Inr (frozen_record
          [(''fields'', jarr outcomes),
           (''replyEphemeralPublicKeyHex'', fld value ''replyEphemeralPublicKeyHex''),
           (''schemaVersion'', jint 1)]))))"

definition parse_field_open_result :: "jval \<Rightarrow> jval result" where
  "parse_field_open_result v = validate_field_result v (max_fields FIELD_OPEN_LIMITS)"

definition parse_key_unwrap_result :: "jval \<Rightarrow> jval result" where
  "parse_key_unwrap_result v = validate_field_result v 1"

end
