(* ===== verification/WireFacts.thy ===== *)
theory WireFacts
  imports WireFields
begin

section \<open>The message validators are normalisers\<close>

text \<open>
  A validator returns a record with exactly its message's fields, and accepts what it returned
  unchanged. The contract is the locale \<open>normaliser\<close>, interpreted on every validator of
  \<open>WireMessages\<close> and \<open>WireFields\<close>; one rule for the common shape (\<open>exactRecord\<close>, guards,
  \<open>frozenRecord\<close>) proves most of them.
\<close>

definition normal_result :: "(jval \<Rightarrow> jval result) \<Rightarrow> string list set \<Rightarrow> jval \<Rightarrow> bool" where
  "normal_result validate names r \<longleftrightarrow> validate r = Inr r \<and> is_object_record r
     \<and> (\<exists>ns\<in>names. set (own_names r) = js ` set ns)"

locale normaliser =
  fixes validate :: "jval \<Rightarrow> jval result" and names :: "string list set"
  assumes normal: "jval_wf v \<Longrightarrow> validate v = Inr r \<Longrightarrow> normal_result validate names r"
begin

lemma idem: "jval_wf v \<Longrightarrow> validate v = Inr r \<Longrightarrow> validate r = Inr r"
  using normal by (simp add: normal_result_def)

lemma result_record: "jval_wf v \<Longrightarrow> validate v = Inr r \<Longrightarrow> is_object_record r"
  using normal by (simp add: normal_result_def)

lemma result_names: "jval_wf v \<Longrightarrow> validate v = Inr r \<Longrightarrow> \<exists>ns\<in>names. set (own_names r) = js ` set ns"
  using normal by (simp add: normal_result_def)

lemma validate_twice: "jval_wf v \<Longrightarrow> rbind (validate v) validate = validate v"
  using idem by (cases "validate v") auto

end

subsection \<open>The shape of a result\<close>

declare strict_eq_jint [simp]

lemma strict_eq_jint_refl [simp]: "strict_eq (jint n) (jint n)"
  by (simp add: jint_def strict_eq_num num_eq_def num_is_finite_def)

lemma strict_eq_undefined: "strict_eq JUndefined a \<longleftrightarrow> a = JUndefined"
  by (cases a) (simp_all add: strict_eq_def)

lemma jint_eq_iff [simp]: "jint m = jint n \<longleftrightarrow> m = n"
  by (simp add: jint_def)

lemma pattern_defined: "is_ok (exact_pattern v p l) \<Longrightarrow> v \<noteq> JUndefined"
  by (auto simp: is_ok_exact_pattern)

lemma base64url32_defined: "is_ok (validate_base64url32 v l) \<Longrightarrow> v \<noteq> JUndefined"
  by (auto simp: validate_base64url32_iff)

lemma scalar_string_defined: "is_ok (validate_unicode_scalar_string v l) \<Longrightarrow> v \<noteq> JUndefined"
  by (auto simp: validate_unicode_scalar_string_def)

lemma integer_between_defined: "integer_between v a b \<Longrightarrow> v \<noteq> JUndefined"
  by (auto simp: integer_between_def)

lemma context_defined: "is_ok (validate_field_context v l) \<Longrightarrow> v \<noteq> JUndefined"
  by (auto simp: validate_field_context_def is_ok_checks dest: scalar_string_defined)

lemma decode_defined: "decode_base64url_bytes v a b l = Inr bs \<Longrightarrow> v \<noteq> JUndefined"
  by (simp add: decode_base64url_bytes_iff)

lemmas guard_defined = pattern_defined base64url32_defined scalar_string_defined integer_between_defined
  context_defined decode_defined exact_timestamp_defined

lemma undefined_guards [simp]:
  "\<not> is_ok (exact_pattern JUndefined p l)" "\<not> is_ok (validate_base64url32 JUndefined l)"
  "\<not> is_ok (validate_unicode_scalar_string JUndefined l)" "\<not> integer_between JUndefined a b"
  "\<not> is_ok (validate_field_context JUndefined l)" "decode_base64url_bytes JUndefined m n l \<noteq> Inr bs"
  "\<not> is_ok (exact_timestamp JUndefined l)"
  using guard_defined by blast+

lemmas field_lists = PUBLISH_REQUEST_FIELDS_def PUBLISH_RESULT_FIELDS_def PUBLIC_IDENTITY_FIELDS_def
  KEY_DESCRIPTOR_FIELDS_def CONNECTION_RESULT_FIELDS_def RAW_SIGNATURE_FIELDS_def
  CANONICAL_SIGNATURE_FIELDS_def ACTIVATION_FIELDS_def TRANSFORM_FIELDS_def
  FIELD_REQUEST_FIELDS_def FIELD_OPEN_REQUEST_FIELDS_def KEY_UNWRAP_REQUEST_FIELDS_def FIELD_RESULT_FIELDS_def

definition record_shape :: "string list \<Rightarrow> (string \<times> jval) list \<Rightarrow> bool" where
  "record_shape F es \<longleftrightarrow> distinct (map fst es) \<and> set (map fst es) = set F \<and> distinct F
     \<and> list_all (\<lambda>e. snd e \<noteq> JUndefined) es"

lemma record_shape_exact:
  "record_shape F es \<Longrightarrow> exact_record (frozen_record es) F l = Inr (frozen_record es)"
  by (rule exact_record_frozen) (auto simp: record_shape_def list_all_iff)

lemma record_shape_names: "record_shape F es \<Longrightarrow> set (own_names (frozen_record es)) = js ` set F"
  by (simp add: record_shape_def)

lemma record_shape_fields:
  "distinct F \<Longrightarrow> (\<And>f. f \<in> set F \<Longrightarrow> g f \<noteq> JUndefined) \<Longrightarrow> record_shape F (map (\<lambda>f. (f, g f)) F)"
  by (auto simp: record_shape_def list_all_iff comp_def)

lemma record_normal:
  assumes "rbind (exact_record v F l) K = Inr r"
    and "\<And>x. K x = Inr r \<Longrightarrow> \<exists>es. r = frozen_record es \<and> record_shape F es \<and> K r = Inr r"
  shows "normal_result (\<lambda>v. rbind (exact_record v F l) K) {F} r"
proof -
  from assms obtain es where es: "r = frozen_record es" "record_shape F es" "K r = Inr r"
    by (auto simp: rbind_Inr_iff)
  then show ?thesis
    using record_shape_exact [OF es(2)] record_shape_names [OF es(2)] by (simp add: normal_result_def)
qed

text \<open>The common shape: guards, then a nested computation, then the record.\<close>

lemma nested_normal:
  assumes a: "rbind (exact_record v F l) (\<lambda>x. checks (G x) (rbind (N x) (\<lambda>y. Inr (frozen_record (E x y))))) = Inr r"
    and s: "\<And>x y. list_all is_ok (G x) \<Longrightarrow> N x = Inr y \<Longrightarrow> record_shape F (E x y)"
    and g: "\<And>x y. list_all is_ok (G x) \<Longrightarrow> N x = Inr y \<Longrightarrow> list_all is_ok (G (frozen_record (E x y)))"
    and n: "\<And>x y. list_all is_ok (G x) \<Longrightarrow> N x = Inr y \<Longrightarrow> N (frozen_record (E x y)) = Inr y"
    and e: "\<And>x y. list_all is_ok (G x) \<Longrightarrow> N x = Inr y \<Longrightarrow> E (frozen_record (E x y)) y = E x y"
  shows "normal_result (\<lambda>v. rbind (exact_record v F l)
     (\<lambda>x. checks (G x) (rbind (N x) (\<lambda>y. Inr (frozen_record (E x y)))))) {F} r"
proof (rule record_normal [OF a])
  fix x assume "checks (G x) (rbind (N x) (\<lambda>y. Inr (frozen_record (E x y)))) = Inr r"
  then obtain y where y: "list_all is_ok (G x)" "N x = Inr y" "r = frozen_record (E x y)"
    by (auto simp: checks_Inr_iff rbind_Inr_iff)
  then show "\<exists>es. r = frozen_record es \<and> record_shape F es \<and>
      checks (G r) (rbind (N r) (\<lambda>y. Inr (frozen_record (E r y)))) = Inr r"
    using s [OF y(1,2)] g [OF y(1,2)] n [OF y(1,2)] e [OF y(1,2)] by (auto simp: checks_all_ok)
qed

lemma guarded_normal:
  assumes a: "rbind (exact_record v F l) (\<lambda>x. checks (G x) (Inr (frozen_record (E x)))) = Inr r"
    and s: "\<And>x. list_all is_ok (G x) \<Longrightarrow> record_shape F (E x)"
    and g: "\<And>x. list_all is_ok (G x) \<Longrightarrow> list_all is_ok (G (frozen_record (E x)))"
    and e: "\<And>x. list_all is_ok (G x) \<Longrightarrow> E (frozen_record (E x)) = E x"
  shows "normal_result (\<lambda>v. rbind (exact_record v F l) (\<lambda>x. checks (G x) (Inr (frozen_record (E x))))) {F} r"
  using nested_normal [of v F l G "\<lambda>x. Inr ()" "\<lambda>x y. E x" r] assms by simp

lemma normal_resultI:
  "normal_result (\<lambda>v. g v) N r \<Longrightarrow> (\<And>v. f v = g v) \<Longrightarrow> normal_result f N r"
  by (simp add: normal_result_def)

lemma normal_defined: "normal_result f N r \<Longrightarrow> r \<noteq> JUndefined"
  by (auto simp: normal_result_def is_object_record_def)

lemmas idem_simps = field_lists record_shape_def fld_frozen_record

subsection \<open>The flat messages\<close>

lemma key_descriptor_normal:
  assumes "validate_key_descriptor v e = Inr r" "expected_profile e \<in> {JNull, jlit JCS_SIGNATURE_PROFILE}"
  shows "normal_result (\<lambda>v. validate_key_descriptor v e) {KEY_DESCRIPTOR_FIELDS} r"
  using assms(1) unfolding validate_key_descriptor_def
  by (rule guarded_normal) (use assms(2) in \<open>auto simp: idem_simps dest: guard_defined\<close>)

lemma raw_signature_normal:
  "validate_raw_signature v = Inr r \<Longrightarrow> normal_result validate_raw_signature {RAW_SIGNATURE_FIELDS} r"
  unfolding validate_raw_signature_def
  by (rule guarded_normal) (auto simp: idem_simps dest: guard_defined)

lemma sdn_login_v1_normal:
  "validate_sdn_login_v1_wire v = Inr r \<Longrightarrow>
     normal_result validate_sdn_login_v1_wire {[''challengeBase64url'', ''protocolVersion'']} r"
  unfolding validate_sdn_login_v1_wire_def
  by (rule guarded_normal) (auto simp: idem_simps dest: guard_defined)

lemma sdn_login_v2_normal:
  "validate_sdn_login_v2_wire v = Inr r \<Longrightarrow> normal_result validate_sdn_login_v2_wire
     {[''audience'', ''challengeBase64url'', ''expiresAt'', ''issuedAt'', ''nonce'', ''protocolVersion'']} r"
  unfolding validate_sdn_login_v2_wire_def
  by (rule guarded_normal) (auto simp: idem_simps dest: guard_defined)

lemma activation_normal:
  "validate_activation v = Inr r \<Longrightarrow> normal_result validate_activation {ACTIVATION_FIELDS} r"
  unfolding validate_activation_def
  by (rule guarded_normal) (auto simp: idem_simps dest: guard_defined)

lemma sdn_publish_result_normal:
  "validate_sdn_publish_result v = Inr r \<Longrightarrow> normal_result validate_sdn_publish_result {PUBLISH_RESULT_FIELDS} r"
  unfolding validate_sdn_publish_result_def
  by (rule guarded_normal) (auto simp: idem_simps dest: guard_defined)

lemma sdn_publish_request_normal:
  "validate_sdn_publish_request H v = Inr r \<Longrightarrow>
     normal_result (validate_sdn_publish_request H) {PUBLISH_REQUEST_FIELDS} r"
  unfolding validate_sdn_publish_request_def Let_def
proof (rule guarded_normal, assumption, goal_cases)
  case (1 x)
  show ?case
  proof (rule record_shape_fields)
    fix f assume "f \<in> set PUBLISH_REQUEST_FIELDS"
    with 1(2) show "fld x f \<noteq> JUndefined"
      unfolding PUBLISH_REQUEST_FIELDS_def list.set
      by (elim insertE emptyE; intro notI) simp_all
  qed (simp add: PUBLISH_REQUEST_FIELDS_def)
qed (simp_all add: idem_simps cong: option.case_cong)

subsection \<open>The nested messages\<close>

lemma dense_jarr [simp]:
  "is_ok (validate_plain_dense_array (jarr vs) n l) \<longleftrightarrow> length vs = n \<and> JUndefined \<notin> set vs"
  by (auto simp: dense_array_iff jarr_def map_eq_conv dest!: arg_cong [where f = array_values] simp flip: jarr_def)

lemma array_slots_jarr [simp]: "length (array_slots (jarr vs)) = length vs"
  by (simp add: jarr_def array_slots_def)

text \<open>A list of results, each one a fixpoint of the function that returned it.\<close>

lemma mapM_index_fixpoint:
  assumes "mapM_index f i xs = Inr ys"
    and "\<And>k y. k < length xs \<Longrightarrow> f (i + k) (xs ! k) = Inr y \<Longrightarrow> g (i + k) y = Inr y"
  shows "mapM_index g i ys = Inr ys"
  using assms
proof (induction xs arbitrary: i ys)
  case (Cons x xs)
  from Cons.prems(1) obtain y zs where y: "f i x = Inr y" "mapM_index f (Suc i) xs = Inr zs" "ys = y # zs"
    by (auto simp: rbind_Inr_iff)
  have "mapM_index g (Suc i) zs = Inr zs"
    by (rule Cons.IH [OF y(2)]) (use Cons.prems(2) [of "Suc _"] in simp)
  then show ?case using y Cons.prems(2) [of 0 y] by simp
qed simp

lemma public_identity_keys:
  assumes "mapM_index (\<lambda>i e. validate_key_descriptor (ks ! i) e) 0 identity_key_expectations = Inr keys"
  shows "mapM_index (\<lambda>i e. validate_key_descriptor (keys ! i) e) 0 identity_key_expectations = Inr keys"
    "length keys = 3" "JUndefined \<notin> set keys"
proof -
  have P: "e \<in> set identity_key_expectations \<Longrightarrow> expected_profile e \<in> {JNull, jlit JCS_SIGNATURE_PROFILE}" for e
    by (auto simp: identity_key_expectations_def)
  obtain e1 e2 e3 where es: "identity_key_expectations = [e1, e2, e3]" by (simp add: identity_key_expectations_def)
  from assms obtain a b c where k: "validate_key_descriptor (ks ! 0) e1 = Inr a"
    "validate_key_descriptor (ks ! 1) e2 = Inr b" "validate_key_descriptor (ks ! 2) e3 = Inr c" "keys = [a, b, c]"
    unfolding es by (auto simp: rbind_Inr_iff numeral_2_eq_2)
  have n: "normal_result (\<lambda>v. validate_key_descriptor v e1) {KEY_DESCRIPTOR_FIELDS} a"
    "normal_result (\<lambda>v. validate_key_descriptor v e2) {KEY_DESCRIPTOR_FIELDS} b"
    "normal_result (\<lambda>v. validate_key_descriptor v e3) {KEY_DESCRIPTOR_FIELDS} c"
    using key_descriptor_normal [OF k(1)] key_descriptor_normal [OF k(2)] key_descriptor_normal [OF k(3)]
      P [of e1] P [of e2] P [of e3] by (simp_all add: es)
  then show "mapM_index (\<lambda>i e. validate_key_descriptor (keys ! i) e) 0 identity_key_expectations = Inr keys"
    by (simp add: es k(4) normal_result_def numeral_2_eq_2)
  show "length keys = 3" by (simp add: k(4))
  show "JUndefined \<notin> set keys" using n by (auto simp: k(4) normal_result_def is_object_record_def)
qed

lemma public_identity_normal:
  "validate_public_identity v = Inr r \<Longrightarrow> normal_result validate_public_identity {PUBLIC_IDENTITY_FIELDS} r"
  unfolding validate_public_identity_def
proof (rule nested_normal, assumption, goal_cases)
  case (1 x keys)
  then show ?case by (auto simp: idem_simps dest: guard_defined)
next
  case (2 x keys)
  then show ?case using public_identity_keys [OF 2(3)] by (simp add: idem_simps)
next
  case (3 x keys)
  then show ?case using public_identity_keys [OF 3(3)] by (simp add: idem_simps)
qed (simp add: idem_simps)

lemma connection_result_normal:
  "validate_connection_result v op = Inr r \<Longrightarrow>
     normal_result (\<lambda>v. validate_connection_result v op) {CONNECTION_RESULT_FIELDS} r"
  unfolding validate_connection_result_def
proof (rule record_normal, assumption, goal_cases)
  case (1 x)
  then obtain i c where g: "fld x ''schemaVersion'' = jint 1"
      "fld x ''event'' = jlit ''connected'' \<or> fld x ''event'' = jlit ''disconnected''"
      "op = ''connect'' \<longrightarrow> fld x ''event'' = jlit ''connected''"
    and n: "(if fld x ''event'' = jlit ''connected''
         then rbind (validate_public_identity (fld x ''identity'')) (\<lambda>identity.
                rbind (exact_timestamp (fld x ''connectionExpiresAt'') ''connectionExpiresAt'') (\<lambda>_.
                Inr (identity, fld x ''connectionExpiresAt'')))
         else if fld x ''identity'' \<noteq> JNull \<or> fld x ''connectionExpiresAt'' \<noteq> JNull
         then Inl (fail_with ''disconnected result must clear identity and expiry'')
         else Inr (JNull, JNull)) = Inr (i, c)"
    and r: "r = frozen_record [(''connectionExpiresAt'', c), (''event'', fld x ''event''), (''identity'', i),
         (''schemaVersion'', jint 1)]"
    by (auto simp: checks_Inr_iff rbind_Inr_iff simp del: rbind_simps)
  let ?es = "[(''connectionExpiresAt'', c), (''event'', fld x ''event''), (''identity'', i), (''schemaVersion'', jint 1)]"
  have ic: "i \<noteq> JUndefined \<and> c \<noteq> JUndefined"
  proof (cases "fld x ''event'' = jlit ''connected''")
    case True
    with n have "validate_public_identity (fld x ''identity'') = Inr i" "c = fld x ''connectionExpiresAt''"
      "is_ok (exact_timestamp c ''connectionExpiresAt'')" by (auto simp: rbind_Inr_iff)
    then show ?thesis using public_identity_normal normal_defined exact_timestamp_defined by metis
  qed (use n in \<open>auto split: if_splits\<close>)
  have "record_shape CONNECTION_RESULT_FIELDS ?es" using g(2) ic by (auto simp: idem_simps)
  moreover have "fld r ''connectionExpiresAt'' = c" "fld r ''event'' = fld x ''event''" "fld r ''identity'' = i"
    "fld r ''schemaVersion'' = jint 1" by (simp_all add: r fld_frozen_record)
  moreover have "validate_public_identity (fld x ''identity'') = Inr i \<Longrightarrow> validate_public_identity i = Inr i"
    using public_identity_normal by (simp add: normal_result_def)
  ultimately show ?case
    using g n r by (intro exI [of _ ?es]) (auto simp: checks_Inr_iff rbind_Inr_iff split: if_splits)
qed

text \<open>An envelope is compared with three fields of the signature it comes in.\<close>

lemma envelope_descriptor_cong:
  "(\<And>f. f \<in> {''identityScheme'', ''keyId'', ''signatureProfile''} \<Longrightarrow> fld s f = fld t f) \<Longrightarrow>
     validate_envelope_descriptor v s = validate_envelope_descriptor v t"
  by (simp add: validate_envelope_descriptor_def)

lemma canonical_envelope_cong:
  assumes "\<And>f. f \<in> {''identityScheme'', ''keyId'', ''signatureProfile''} \<Longrightarrow> fld s f = fld t f"
  shows "validate_canonical_envelope H v k s = validate_canonical_envelope H v k t"
proof -
  have "validate_envelope_descriptor w s = validate_envelope_descriptor w t" for w
    by (rule envelope_descriptor_cong) (rule assms)
  then show ?thesis
    by (simp only: validate_canonical_envelope_def validate_sdn_login_envelope_def validate_activation_envelope_def
        validate_decision_envelope_def)
qed

lemma canonical_envelope_string: "is_ok (validate_canonical_envelope H v k s) \<Longrightarrow> v \<noteq> JUndefined"
  by (auto simp: validate_canonical_envelope_def is_ok_checks)

lemma canonical_signature_normal:
  "validate_canonical_signature H v k = Inr r \<Longrightarrow>
     normal_result (\<lambda>v. validate_canonical_signature H v k) {CANONICAL_SIGNATURE_FIELDS} r"
  unfolding validate_canonical_signature_def
proof (rule guarded_normal, assumption, goal_cases)
  case (1 x)
  then show ?case by (auto simp: idem_simps dest: guard_defined canonical_envelope_string)
next
  case (2 x)
  let ?r = "frozen_record
     [(''algorithm'', jlit ''ed25519''), (''canonicalEnvelope'', fld x ''canonicalEnvelope''), (''encoding'', jlit ''raw''),
      (''identityScheme'', jlit IDENTITY_SCHEME), (''keyId'', fld x ''keyId''), (''schemaVersion'', jint 1),
      (''signatureHex'', fld x ''signatureHex''), (''signatureProfile'', jlit JCS_SIGNATURE_PROFILE),
      (''signedDigestSha256'', fld x ''signedDigestSha256'')]"
  have "validate_canonical_envelope H e k ?r = validate_canonical_envelope H e k x" for e
    by (rule canonical_envelope_cong) (use 2(2) in \<open>auto simp: fld_frozen_record\<close>)
  with 2(2) show ?case by (simp add: idem_simps)
qed (simp add: idem_simps)

subsection \<open>The transform policy\<close>

lemma floor_numeral_quotient: "\<lfloor>numeral a / numeral b :: rat\<rfloor> = numeral a div numeral b"
  using floor_divide_of_int_eq [of "numeral a" "numeral b", where 'a = rat] by simp

lemma policy_literals:
  "num_lit ''0.000001'' = Fin (4722366482869645 / 4722366482869645213696)"
  "num_lit ''0.01'' = Fin (5764607523034235 / 576460752303423488)"
  "num_lit ''0.001'' = Fin (1152921504606847 / 1152921504606846976)"
proof -
  have q: "quotient_of (1 / 1000000) = (1, 1000000)" "quotient_of (1 / 100) = (1, 100)"
    "quotient_of (1 / 1000) = (1, 1000)" by code_simp+
  have l: "rat_log2 (1 / 1000000) = - 20" "rat_log2 (1 / 100) = - 7" "rat_log2 (1 / 1000) = - 10"
    by (simp_all add: rat_log2_def q Let_def nat_log2.simps pow2_def)
  have r: "round_pos (1 / 1000000) = 4722366482869645 / 4722366482869645213696"
    "round_pos (1 / 100) = 5764607523034235 / 576460752303423488"
    "round_pos (1 / 1000) = 1152921504606847 / 1152921504606846976"
    by (simp_all add: round_pos_def l Let_def pow2_def round_half_even_def floor_numeral_quotient)
  show "num_lit ''0.000001'' = Fin (4722366482869645 / 4722366482869645213696)"
    "num_lit ''0.01'' = Fin (5764607523034235 / 576460752303423488)"
    "num_lit ''0.001'' = Fin (1152921504606847 / 1152921504606846976)"
    by (simp_all add: num_lit_def scan_number_def js_def scan_unsigned_def integer_part_def fraction_part_def
        exponent_part_def exponent_digits_def is_digit_def digits_value_def pow10_def signed_double_def
        round_double_def r pow2_def)
qed

lemma fld_jobj [simp]: "fld (jobj kvs) n = (case map_of kvs (js n) of None \<Rightarrow> JUndefined | Some v \<Rightarrow> v)"
  by (simp add: fld_def field_jobj)

lemma jobj_not_undefined [simp]: "jobj kvs \<noteq> JUndefined"
  by (simp add: jobj_def)

lemma object_entries_jobj [simp]: "object_entries (jobj kvs) = kvs"
proof -
  have "filter (\<lambda>(k, p). case p of Data e _ \<Rightarrow> e | Accessor e \<Rightarrow> e) (map (\<lambda>(k, v). (k, jdata v)) kvs)
      = map (\<lambda>(k, v). (k, jdata v)) kvs"
    by (rule filter_True) (auto simp: jdata_def)
  then show ?thesis by (simp add: object_entries_def comp_def case_prod_beta prop_value_def jdata_def)
qed

definition transform_units :: jval where
  "transform_units = frozen_entries
     [(js ''cm'', JNum (num_lit ''0.01'')), (js ''km'', jint 1000), (js ''m'', jint 1), (js ''mm'', JNum (num_lit ''0.001''))]"

definition transform_policy_entries :: "(string \<times> jval) list" where
  "transform_policy_entries =
     [(''metersPerSourceUnit'', transform_units),
      (''quaternionNormTolerance'', JNum (num_lit ''0.000001'')),
      (''scaleComponentExclusiveMin'', jint 0),
      (''scaleComponentInclusiveMax'', jint 1000000),
      (''translationComponentAbsMax'', jint 1000000),
      (''upAxes'', jarr [jlit ''X_UP'', jlit ''Y_UP'', jlit ''Z_UP''])]"

lemma js_text_jlit [simp]: "js_text (jlit a) = js a"
  by (simp add: jlit_def)

lemma jint_num [simp]: "num_of (jint n) = Fin (of_int n)" "is_finite_num (jint n)"
  by (simp_all add: jint_def num_of_def is_finite_num_def num_is_finite_def)

lemma exact_literal_ok [simp]: "strict_eq v lit \<Longrightarrow> exact_literal v lit l = Inr ()"
  by (simp add: exact_literal_def)

lemma num_JNum: "is_finite_num (JNum n) = num_is_finite n" "num_of (JNum n) = n"
  by (simp_all add: is_finite_num_def num_of_def)

lemma load_transform_policy_ok:
  "load_transform_policy asset_review_policy = Inr (frozen_record transform_policy_entries)"
proof -
  have "num_is_finite (num_lit ''0.000001'')" "num_is_finite (num_lit ''0.01'')" "num_is_finite (num_lit ''0.001'')"
    "num_less (Fin 0) (num_lit ''0.01'')" "num_less (Fin 0) (num_lit ''0.001'')" "\<not> num_le (num_lit ''0.000001'') (Fin 0)"
    unfolding policy_literals
    by (simp_all add: num_is_finite_def num_less_def num_le_def num_eq_def num_real_def)
  moreover have "num_is_finite (Fin x)" for x by (simp add: num_is_finite_def)
  moreover have "num_less (Fin x) (Fin y) \<longleftrightarrow> x < y" "num_le (Fin x) (Fin y) \<longleftrightarrow> x \<le> y" for x y
    by (auto simp: num_less_def num_le_def num_eq_def num_is_finite_def num_real_def)
  ultimately show ?thesis
    unfolding load_transform_policy_def asset_review_policy_def
    by (simp add: exact_record_jobj checks_all_ok num_JNum
        transform_policy_entries_def transform_units_def)
qed

lemma TRANSFORM_POLICY_eq: "TRANSFORM_POLICY = frozen_record transform_policy_entries"
  by (simp add: TRANSFORM_POLICY_def load_transform_policy_ok)

lemma transform_policy_fields:
  "fld TRANSFORM_POLICY ''metersPerSourceUnit'' = transform_units"
  "fld TRANSFORM_POLICY ''quaternionNormTolerance'' = JNum (num_lit ''0.000001'')"
  "fld TRANSFORM_POLICY ''scaleComponentExclusiveMin'' = jint 0"
  "fld TRANSFORM_POLICY ''scaleComponentInclusiveMax'' = jint 1000000"
  "fld TRANSFORM_POLICY ''translationComponentAbsMax'' = jint 1000000"
  "fld TRANSFORM_POLICY ''upAxes'' = jarr [jlit ''X_UP'', jlit ''Y_UP'', jlit ''Z_UP'']"
  by (simp_all add: TRANSFORM_POLICY_eq transform_policy_entries_def fld_frozen_record)

lemma finite_tuple_Inr:
  "validate_finite_tuple v n l = Inr r \<longleftrightarrow> (\<exists>xs. v = jarr xs \<and> r = jarr xs \<and> length xs = n \<and> list_all is_finite_num xs)"
proof -
  have "is_finite_num x \<Longrightarrow> x \<noteq> JUndefined" for x by (auto simp: is_finite_num_def)
  then show ?thesis
    by (auto simp: validate_finite_tuple_def checks_Inr_iff dense_array_iff list_all_iff)
qed

lemma transform_normal:
  "validate_transform H v = Inr r \<Longrightarrow> normal_result (validate_transform H) {TRANSFORM_FIELDS} r"
  unfolding validate_transform_def Let_def
proof (rule record_normal, assumption, goal_cases)
  case (1 x)
  then obtain t q s where t: "fld x ''translation'' = jarr t" "length t = 3" "list_all is_finite_num t"
    "fld x ''rotation'' = jarr q" "length q = 4" "list_all is_finite_num q"
    "fld x ''scale'' = jarr s" "length s = 3" "list_all is_finite_num s"
    and r: "r = frozen_record [(''metersPerSourceUnit'', fld x ''metersPerSourceUnit''), (''rotation'', jarr q),
        (''scale'', jarr s), (''sourceUnits'', fld x ''sourceUnits''), (''translation'', jarr t), (''upAxis'', fld x ''upAxis'')]"
    by (auto simp: rbind_Inr_iff checks_Inr_iff finite_tuple_Inr)
  let ?es = "[(''metersPerSourceUnit'', fld x ''metersPerSourceUnit''), (''rotation'', jarr q),
        (''scale'', jarr s), (''sourceUnits'', fld x ''sourceUnits''), (''translation'', jarr t), (''upAxis'', fld x ''upAxis'')]"
  have f: "fld r ''metersPerSourceUnit'' = fld x ''metersPerSourceUnit''" "fld r ''rotation'' = jarr q"
    "fld r ''scale'' = jarr s" "fld r ''sourceUnits'' = fld x ''sourceUnits''" "fld r ''translation'' = jarr t"
    "fld r ''upAxis'' = fld x ''upAxis''" by (simp_all add: r fld_frozen_record)
  have tup: "validate_finite_tuple (jarr t) 3 l = Inr (jarr t)" "validate_finite_tuple (jarr q) 4 l = Inr (jarr q)"
    "validate_finite_tuple (jarr s) 3 l = Inr (jarr s)" for l
    using t by (auto simp: finite_tuple_Inr)
  have g: "is_ok (validate_unicode_scalar_string (fld x ''sourceUnits'') ''sourceUnits'')"
    "is_finite_num (fld x ''metersPerSourceUnit'')"
    "list_ex (\<lambda>axis. strict_eq (fld x ''upAxis'') axis) (array_values (fld TRANSFORM_POLICY ''upAxes''))"
    using 1(2) by (auto simp: t tup checks_Inr_iff)
  have "fld x ''upAxis'' \<noteq> JUndefined"
    using g(3) by (auto simp: transform_policy_fields strict_eq_undefined)
  then have "record_shape TRANSFORM_FIELDS ?es"
    using g(1,2) by (auto simp: idem_simps is_finite_num_def dest: guard_defined)
  then show ?case
    using 1(2) r by (intro exI [of _ ?es]) (simp add: f [unfolded r] t tup)
qed

lemma review_text_normal:
  "validate_review_text v l n = Inr w \<Longrightarrow> w = v \<and> v \<noteq> JUndefined"
  by (auto simp: validate_review_text_def Let_def checks_Inr_iff split: if_splits)

lemma read_input_wf: "jval_wf v \<Longrightarrow> read_input v = Inr r \<Longrightarrow> jval_wf r"
proof -
  assume v: "jval_wf v" and r: "read_input v = Inr r"
  show ?thesis
  proof (cases "\<exists>s. v = JStr s")
    case True
    then obtain s where "v = JStr s" by blast
    with v r have "js_wf s" "parse_document wire_dialect s = Inr r"
      by (auto simp: read_input_def parse_json_without_duplicates_def checks_Inr_iff)
    then show ?thesis using parse_document_wf by blast
  next
    case False
    with r have "r = v" by (cases v) (auto simp: read_input_def)
    with v show ?thesis by simp
  qed
qed

lemma exact_record_wf: "jval_wf v \<Longrightarrow> exact_record v F l = Inr x \<Longrightarrow> jval_wf x"
  using read_input_wf by (auto simp: exact_record_Inr)

text \<open>
  The two shapes of a decision. Without a decision field of the two values, only the base fields
  are expected; a reason is then no field of the record, and the text check refuses it.
\<close>

definition decision_names :: "string list set" where
  "decision_names = {DECISION_BASE_FIELDS @ [''note'', ''reviewedTransform''], DECISION_BASE_FIELDS @ [''reason'']}"

definition decision_guards :: "jval \<Rightarrow> (unit result) list" where
  "decision_guards x =
       [exact_literal (fld x ''protocolVersion'') (jint 1) ''decision protocolVersion'',
        exact_literal (fld x ''audience'') (jlit REVIEW_AUDIENCE) ''decision audience'',
        exact_literal (fld x ''requestOrigin'') (jlit REVIEW_ORIGIN) ''decision requestOrigin'',
        exact_literal (fld x ''clientId'') (jlit REVIEW_CLIENT_ID) ''decision clientId'',
        exact_pattern (fld x ''challengeId'') LOWER_HEX_32 ''challengeId'',
        exact_pattern (fld x ''nonce'') LOWER_HEX_32 ''decision nonce'',
        exact_timestamp (fld x ''issuedAt'') ''decision issuedAt'',
        exact_timestamp (fld x ''expiresAt'') ''decision expiresAt'',
        validate_lifetime (fld x ''issuedAt'') (fld x ''expiresAt''),
        exact_pattern (fld x ''modelSha256'') LOWER_HEX_32 ''modelSha256'',
        exact_pattern (fld x ''metadataSha256'') LOWER_HEX_32 ''metadataSha256'',
        (if fld x ''previousDecisionHead'' \<noteq> JNull
         then exact_pattern (fld x ''previousDecisionHead'') LOWER_HEX_32 ''previousDecisionHead'' else Inr ()),
        validate_model_cid (fld x ''modelCid'') (str_of (fld x ''modelSha256'')),
        ensure (is_num (fld x ''modelBytes'') \<and> num_is_safe_integer (num_of (fld x ''modelBytes''))
            \<and> \<not> num_le (num_of (fld x ''modelBytes'')) (Fin 0))
          (fail_with ''modelBytes must be a positive safe integer''),
        validate_unicode_scalar_string (fld x ''candidateKey'') ''candidateKey'',
        ensure (starts_with (js ''asset-review:'') (str_of (fld x ''candidateKey''))
            \<and> ends_with (58 # str_of (fld x ''modelSha256'')) (str_of (fld x ''candidateKey''))
            \<and> length (utf8_encode (str_of (fld x ''candidateKey''))) \<le> 206)
          (fail_with ''candidateKey does not bind the model digest''),
        ensure (entity_id (candidate_entity (str_of (fld x ''candidateKey'')) (str_of (fld x ''modelSha256'')))
            \<and> length (utf8_encode (candidate_entity (str_of (fld x ''candidateKey'')) (str_of (fld x ''modelSha256'')))) \<le> 128)
          (fail_with ''candidateKey entityId is invalid'')]"

definition decision_extra :: "wire_host \<Rightarrow> jval \<Rightarrow> (string \<times> jval) list result" where
  "decision_extra H x =
     (if fld x ''decision'' = jlit ''approve''
      then rbind (validate_review_text (fld x ''note'') ''note'' True) (\<lambda>note.
           rbind (validate_transform H (fld x ''reviewedTransform'')) (\<lambda>transform.
           Inr [(''note'', note), (''reviewedTransform'', transform)]))
      else rbind (validate_review_text (fld x ''reason'') ''reason'' False) (\<lambda>reason.
           Inr [(''reason'', reason)]))"

definition decision_entries :: "jval \<Rightarrow> (string \<times> jval) list \<Rightarrow> (string \<times> jval) list" where
  "decision_entries x extra = map (\<lambda>name. (name, fld x name)) DECISION_BASE_FIELDS @ extra"

lemma validate_decision_Inr:
  "validate_decision H v = Inr r \<longleftrightarrow> (\<exists>x extra. read_input v = Inr x \<and> is_object_record x
     \<and> (case map_of (own_props x) (js ''decision'') of Some p \<Rightarrow> is_plain_data p | None \<Rightarrow> False)
     \<and> exact_record x (DECISION_BASE_FIELDS @ conditional_fields (fld x ''decision'')) ''asset review decision request'' = Inr x
     \<and> list_all is_ok (decision_guards x) \<and> decision_extra H x = Inr extra \<and> caller_string_bytes x \<le> 16384
     \<and> r = frozen_record (decision_entries x extra))"
proof -
  have e: "exact_record x F l = Inr y \<Longrightarrow> is_object_record x \<Longrightarrow> y = x" for x y F l
    by (auto simp: exact_record_Inr read_input_record)
  show ?thesis
    unfolding validate_decision_def Let_def decision_guards_def [symmetric] decision_entries_def
    by (auto simp: rbind_Inr_iff checks_Inr_iff decision_extra_def dest: e split del: if_split)
qed

lemma decision_base_defined:
  assumes "list_all is_ok (decision_guards x)" "fld x ''decision'' \<noteq> JUndefined" "f \<in> set DECISION_BASE_FIELDS"
  shows "fld x f \<noteq> JUndefined"
proof
  assume "fld x f = JUndefined"
  with assms show False
    unfolding DECISION_BASE_FIELDS_def list.set decision_guards_def
    by (elim insertE emptyE) (simp_all add: validate_model_cid_iff is_num_def)
qed

lemma plain_decision_names:
  "plain_names DECISION_BASE_FIELDS" "plain_names (DECISION_BASE_FIELDS @ [''note'', ''reviewedTransform''])"
  "plain_names (DECISION_BASE_FIELDS @ [''reason''])"
  by (simp_all add: plain_names_def DECISION_BASE_FIELDS_def js_def)

lemma plain_decision_field:
  "(case map_of (own_props x) (js ''decision'') of Some p \<Rightarrow> is_plain_data p | None \<Rightarrow> False) \<Longrightarrow> fld x ''decision'' \<noteq> JUndefined"
  by (auto simp: fld_def field_def is_plain_data_def prop_value_def split: option.splits jprop.splits)

lemma decision_two_values:
  assumes x: "jval_wf x" "exact_record x (DECISION_BASE_FIELDS @ conditional_fields (fld x ''decision'')) l = Inr x"
    and g: "list_all is_ok (decision_guards x)" "fld x ''decision'' \<noteq> JUndefined" and e: "decision_extra H x = Inr extra"
  shows "fld x ''decision'' = jlit ''approve'' \<or> fld x ''decision'' = jlit ''disapprove''"
proof (rule ccontr)
  assume n: "\<not> ?thesis"
  then have "exact_record x DECISION_BASE_FIELDS l = Inr x" using x(2) by (simp add: conditional_fields_def)
  then have "set (own_names x) = js ` set DECISION_BASE_FIELDS"
    using exact_record_names [OF _ x(1) plain_decision_names(1)] decision_base_defined [OF g] by blast
  then have "fld x ''reason'' = JUndefined"
    unfolding fld_def by (intro field_undefined) (auto simp: DECISION_BASE_FIELDS_def)
  with e n show False
    by (auto simp: decision_extra_def rbind_Inr_iff dest: review_text_normal)
qed

definition string_bytes :: "jval \<Rightarrow> nat" where
  "string_bytes v = (case v of JStr s \<Rightarrow> length (utf8_encode s) | _ \<Rightarrow> 0)"

lemma caller_string_bytes_sum:
  assumes "distinct (own_names v)" "\<forall>n\<in>set (own_names v). is_ok (field_check l v n)"
  shows "caller_string_bytes v = (\<Sum>n\<in>set (own_names v). string_bytes (field v n))"
proof -
  have d: "\<exists>w. p = Data True w \<and> field v k = w" if "(k, p) \<in> set (own_props v)" for k p
  proof -
    have m: "map_of (own_props v) k = Some p" using that assms(1) by (simp add: own_names_def)
    moreover have "k \<in> set (own_names v)" using that by (force simp: own_names_def)
    ultimately obtain w where "p = Data True w" using bspec [OF assms(2), of k] by (auto simp: field_check_ok)
    with field_eq [of v k True w] m show ?thesis by simp
  qed
  have "filter (\<lambda>(k, p). case p of Data e _ \<Rightarrow> e | Accessor e \<Rightarrow> e) (own_props v) = own_props v"
    by (rule filter_True) (use d in fastforce)
  then have "caller_string_bytes v = sum_list (map (\<lambda>(k, p). string_bytes (prop_value p)) (own_props v))"
    by (simp add: caller_string_bytes_def object_entries_def string_bytes_def comp_def case_prod_unfold)
  also have "\<dots> = sum_list (map (\<lambda>k. string_bytes (field v k)) (own_names v))"
  proof -
    have "string_bytes (prop_value (snd e)) = string_bytes (field v (fst e))" if "e \<in> set (own_props v)" for e
    proof -
      have "snd e = Data True (field v (fst e))" using d [of "fst e" "snd e"] that by auto
      then show ?thesis by (simp add: prop_value_def)
    qed
    then show ?thesis
      unfolding own_names_def map_map comp_def case_prod_unfold by (intro arg_cong [where f = sum_list] map_cong) auto
  qed
  also have "\<dots> = (\<Sum>n\<in>set (own_names v). string_bytes (field v n))"
    using assms(1) by (rule sum_list_distinct_conv_sum_set)
  finally show ?thesis .
qed

lemma decision_guards_cong:
  "(\<And>f. f \<in> set DECISION_BASE_FIELDS \<Longrightarrow> fld r f = fld x f) \<Longrightarrow> decision_guards r = decision_guards x"
  by (simp add: decision_guards_def DECISION_BASE_FIELDS_def)

lemma decision_extra_defined:
  "decision_extra H x = Inr extra \<Longrightarrow> list_all (\<lambda>e. snd e \<noteq> JUndefined) extra
     \<and> (fld x ''decision'' = jlit ''approve'' \<longrightarrow> map fst extra = [''note'', ''reviewedTransform''])
     \<and> (fld x ''decision'' \<noteq> jlit ''approve'' \<longrightarrow> map fst extra = [''reason''])"
  by (auto simp: decision_extra_def rbind_Inr_iff split: if_splits
      dest!: review_text_normal transform_normal normal_defined)

lemma distinct_own_names_frozen: "distinct (own_names (frozen_record es)) = distinct (map fst es)"
proof -
  have "map fst (map (\<lambda>(k, v). (js k, v)) es) = map js (map fst es)" by (simp add: case_prod_unfold comp_def)
  moreover have "distinct (map js (map fst es)) = distinct (map fst es)" by (subst distinct_map) (simp add: inj_on_def)
  ultimately show ?thesis by (simp only: frozen_record_def own_names_jobj distinct_fst_sort_key)
qed

lemma decision_extra_fields:
  "decision_extra H x = Inr extra \<Longrightarrow> f \<in> fst ` set extra \<Longrightarrow> fld x f \<noteq> JUndefined"
proof
  assume e: "decision_extra H x = Inr extra" and f: "f \<in> fst ` set extra" and u: "fld x f = JUndefined"
  have t: "validate_transform H JUndefined \<noteq> Inr t" for t by (simp add: validate_transform_def rbind_Inr_iff)
  from e f u t show False
    by (auto simp: decision_extra_def rbind_Inr_iff split: if_splits dest: review_text_normal)
qed

lemma decision_normal:
  assumes wf: "jval_wf v" and v: "validate_decision H v = Inr r"
  shows "normal_result (validate_decision H) decision_names r"
proof -
  from v [unfolded validate_decision_Inr] obtain x extra where
    x: "read_input v = Inr x" "is_object_record x"
      "case map_of (own_props x) (js ''decision'') of Some p \<Rightarrow> is_plain_data p | None \<Rightarrow> False"
      "exact_record x (DECISION_BASE_FIELDS @ conditional_fields (fld x ''decision'')) ''asset review decision request'' = Inr x"
      "list_all is_ok (decision_guards x)" "decision_extra H x = Inr extra" "caller_string_bytes x \<le> 16384"
    and r: "r = frozen_record (decision_entries x extra)" by blast
  let ?F = "DECISION_BASE_FIELDS @ conditional_fields (fld x ''decision'')"
  have xwf: "jval_wf x" using read_input_wf wf x(1) .
  have dd: "fld x ''decision'' \<noteq> JUndefined" using plain_decision_field x(3) .
  note base = decision_base_defined [OF x(5) dd]
  note two = decision_two_values [OF xwf x(4,5) dd x(6)]
  note ex = decision_extra_defined [OF x(6)]
  have fst_es: "map fst (decision_entries x extra) = ?F"
    using two ex by (auto simp: decision_entries_def conditional_fields_def comp_def)
  have setF: "set ?F = set DECISION_BASE_FIELDS \<union> fst ` set extra"
    using fst_es [symmetric] by (simp add: decision_entries_def)
  have F: "?F \<in> decision_names" "distinct ?F" "plain_names ?F"
    using two plain_decision_names by (auto simp: conditional_fields_def decision_names_def DECISION_BASE_FIELDS_def)
  have shape: "record_shape ?F (decision_entries x extra)"
    unfolding record_shape_def fst_es using F(2) ex base by (auto simp: decision_entries_def list_all_iff)
  have rb: "fld r f = fld x f" if "f \<in> set DECISION_BASE_FIELDS" for f
  proof -
    have "map_of (map (\<lambda>f. (f, fld x f)) ns @ es) f = Some (fld x f)" if "f \<in> set ns" for ns es
      using that by (induction ns) auto
    then show ?thesis using F(2) that fst_es by (simp add: r fld_frozen_record decision_entries_def)
  qed
  have dec: "fld r ''decision'' = fld x ''decision''" by (rule rb) (simp add: DECISION_BASE_FIELDS_def)
  have er: "exact_record r ?F l = Inr r" for l unfolding r by (rule record_shape_exact [OF shape])
  then have fc: "\<forall>n\<in>set (own_names r). is_ok (field_check l r n)" for l by (simp add: exact_record_Inr)
  have rn: "set (own_names r) = js ` set ?F" unfolding r by (rule record_shape_names [OF shape])
  have exr: "fld r f = w" if "(f, w) \<in> set extra" for f w
  proof -
    have "map_of (decision_entries x extra) f = Some w"
      using F(2) that fst_es by (intro map_of_is_SomeI) (auto simp: decision_entries_def)
    then show ?thesis using F(2) fst_es by (simp add: r fld_frozen_record)
  qed
  have extra: "decision_extra H r = Inr extra"
  proof (cases "fld x ''decision'' = jlit ''approve''")
    case True
    with x(6) obtain t where t: "validate_transform H (fld x ''reviewedTransform'') = Inr t"
      "extra = [(''note'', fld x ''note''), (''reviewedTransform'', t)]" "validate_review_text (fld x ''note'') ''note'' True = Inr (fld x ''note'')"
      by (auto simp: decision_extra_def rbind_Inr_iff dest: review_text_normal)
    have "validate_transform H t = Inr t" using transform_normal [OF t(1)] by (simp add: normal_result_def)
    then show ?thesis using True dec t exr by (simp add: decision_extra_def)
  next
    case False
    with x(6) have "extra = [(''reason'', fld x ''reason'')]"
      "validate_review_text (fld x ''reason'') ''reason'' False = Inr (fld x ''reason'')"
      by (auto simp: decision_extra_def rbind_Inr_iff dest: review_text_normal)
    then show ?thesis using False dec exr by (simp add: decision_extra_def)
  qed
  have xn: "set (own_names x) = js ` set ?F"
  proof (rule exact_record_names [OF x(4) xwf F(3)])
    show "\<forall>f\<in>set ?F. fld x f \<noteq> JUndefined"
    proof
      fix f assume "f \<in> set ?F"
      with setF show "fld x f \<noteq> JUndefined" using base decision_extra_fields [OF x(6)] by blast
    qed
  qed
  have le: "string_bytes (field r n) \<le> string_bytes (field x n)" if "n \<in> js ` set ?F" for n
  proof -
    from that obtain f where f: "n = js f" "f \<in> set ?F" by blast
    show ?thesis
    proof (cases "f \<in> set DECISION_BASE_FIELDS")
      case True
      then show ?thesis using rb f by (simp add: fld_def)
    next
      case False
      then obtain w where w: "(f, w) \<in> set extra" using f(2) setF by auto
      then have "w = fld x f \<or> is_object_record w"
        using x(6) by (auto simp: decision_extra_def rbind_Inr_iff normal_result_def
            split: if_splits dest!: review_text_normal transform_normal)
      then show ?thesis using exr [OF w] f(1)
        by (auto simp: fld_def string_bytes_def is_object_record_def split: jval.splits)
    qed
  qed
  have "distinct (own_names r)"
    using F(2) fst_es by (simp add: r distinct_own_names_frozen)
  then have "caller_string_bytes r = (\<Sum>n\<in>js ` set ?F. string_bytes (field r n))"
    using caller_string_bytes_sum [OF _ fc [of "[]"]] unfolding rn by simp
  moreover have "caller_string_bytes x = (\<Sum>n\<in>js ` set ?F. string_bytes (field x n))"
    using caller_string_bytes_sum [of x "''asset review decision request''"] x(4) jval_wf_own_names [OF xwf x(2)]
    unfolding exact_record_Inr xn by blast
  ultimately have "caller_string_bytes r \<le> caller_string_bytes x" using le by (simp only: sum_mono)
  moreover have "decision_guards r = decision_guards x" by (rule decision_guards_cong) (rule rb)
  moreover have "is_object_record r" by (simp add: r)
  moreover have "js ''decision'' \<in> set (own_names r)" using rn by (auto simp: DECISION_BASE_FIELDS_def)
  then have "case map_of (own_props r) (js ''decision'') of Some p \<Rightarrow> is_plain_data p | None \<Rightarrow> False"
    using fc [of "[]"] by (auto simp: field_check_ok is_plain_data_def)
  moreover have "decision_entries r extra = decision_entries x extra"
    using rb by (simp add: decision_entries_def)
  ultimately have "validate_decision H r = Inr r"
    unfolding validate_decision_Inr using read_input_record er dec extra x(5,7) r
    by (intro exI [of _ r] exI [of _ extra]) simp
  then show ?thesis unfolding normal_result_def using F(1) rn \<open>is_object_record r\<close> by blast
qed

subsection \<open>Field batches\<close>

lemma field_entry_normal:
  assumes "validate_field_entry i v = Inr (r, n)"
  shows "validate_field_entry i r = Inr (r, n)" "r \<noteq> JUndefined"
proof -
  from assms obtain x c e where x: "decode_base64url_bytes (fld x ''encBase64url'') 1 512 (index_label ''field '' i '' encBase64url'') = Inr e"
      "decode_base64url_bytes (fld x ''ciphertextBase64url'') 1 4096 (index_label ''field '' i '' ciphertextBase64url'') = Inr c"
      "is_ok (validate_field_context (fld x ''context'') (index_label ''field '' i '' context''))"
      "integer_between (fld x ''fieldId'') 0 0xffff"
    and r: "r = frozen_record (map (\<lambda>name. (name, fld x name)) FIELD_REQUEST_FIELDS)" "n = length c"
    by (auto simp: validate_field_entry_def rbind_Inr_iff checks_Inr_iff FIELD_OPEN_LIMITS_def)
  have "exact_record r FIELD_REQUEST_FIELDS l = Inr r" for l
    unfolding r by (rule record_shape_exact) (use x in \<open>auto simp: idem_simps dest: guard_defined\<close>)
  then show "validate_field_entry i r = Inr (r, n)"
    using x by (simp add: validate_field_entry_def r fld_frozen_record FIELD_REQUEST_FIELDS_def FIELD_OPEN_LIMITS_def checks_all_ok)
  show "r \<noteq> JUndefined" by (simp add: r)
qed

lemma mapM_index_all: "mapM_index f i xs = Inr ys \<Longrightarrow> y \<in> set ys \<Longrightarrow> \<exists>k<length xs. f (i + k) (xs ! k) = Inr y"
  using mapM_index_nth mapM_index_length by (fastforce simp: in_set_conv_nth)

lemma field_entries_normal:
  assumes "mapM_index validate_field_entry 0 xs = Inr es"
  shows "mapM_index validate_field_entry 0 (map fst es) = Inr es" "JUndefined \<notin> set (map fst es)"
proof -
  have g: "mapM_index validate_field_entry i (map fst es) = Inr es" if "mapM_index validate_field_entry i xs = Inr es" for i xs es
    using that
  proof (induction xs arbitrary: i es)
    case (Cons x xs)
    then obtain r n zs where "validate_field_entry i x = Inr (r, n)" "mapM_index validate_field_entry (Suc i) xs = Inr zs"
      "es = (r, n) # zs" by (auto simp: rbind_Inr_iff)
    with Cons.IH field_entry_normal(1) show ?case by simp
  qed simp
  show "mapM_index validate_field_entry 0 (map fst es) = Inr es" using g assms .
  show "JUndefined \<notin> set (map fst es)"
    using mapM_index_all [OF assms] field_entry_normal(2) by (metis (no_types, lifting) imageE list.set_map prod.collapse)
qed

lemma field_open_request_normal:
  "validate_field_open_request v = Inr r \<Longrightarrow> normal_result validate_field_open_request {FIELD_OPEN_REQUEST_FIELDS} r"
  unfolding validate_field_open_request_def
proof (rule record_normal, assumption, goal_cases)
  case (1 x)
  then obtain es where x: "fld x ''protocolVersion'' = jint 1"
      "is_ok (exact_pattern (fld x ''replyPublicKeyHex'') LOWER_HEX_32 ''replyPublicKeyHex'')"
      "array_length_between (fld x ''fields'') 1 (max_fields FIELD_OPEN_LIMITS)"
      "mapM_index validate_field_entry 0 (array_values (fld x ''fields'')) = Inr es" "sum_list (map snd es) \<le> batch_bytes FIELD_OPEN_LIMITS"
      "is_ok (validate_plain_dense_array (fld x ''fields'') (length (array_slots (fld x ''fields''))) ''field-open fields'')"
    and r: "r = frozen_record [(''fields'', jarr (map fst es)), (''protocolVersion'', jint 1),
        (''replyPublicKeyHex'', fld x ''replyPublicKeyHex'')]"
    by (auto simp: rbind_Inr_iff checks_Inr_iff)
  let ?es = "[(''fields'', jarr (map fst es)), (''protocolVersion'', jint 1), (''replyPublicKeyHex'', fld x ''replyPublicKeyHex'')]"
  from x(6) obtain xs where xs: "fld x ''fields'' = jarr xs" by (auto simp: dense_array_iff)
  note en = field_entries_normal [OF x(4)]
  have len: "length es = length xs" using mapM_index_length [OF x(4)] by (simp add: xs)
  have f: "fld r ''fields'' = jarr (map fst es)" "fld r ''protocolVersion'' = jint 1"
    "fld r ''replyPublicKeyHex'' = fld x ''replyPublicKeyHex''" by (simp_all add: r fld_frozen_record)
  have "record_shape FIELD_OPEN_REQUEST_FIELDS ?es" using x(2) by (auto simp: idem_simps dest: guard_defined)
  moreover have "array_length_between (jarr (map fst es)) 1 (max_fields FIELD_OPEN_LIMITS)"
    using x(3) by (simp add: array_length_between_def xs len)
  ultimately show ?case
    using x en r by (intro exI [of _ ?es]) (simp add: f [unfolded r] checks_all_ok)
qed

lemma key_unwrap_request_normal:
  "validate_key_unwrap_request v = Inr r \<Longrightarrow> normal_result validate_key_unwrap_request {KEY_UNWRAP_REQUEST_FIELDS} r"
  unfolding validate_key_unwrap_request_def
proof (rule record_normal, assumption, goal_cases)
  case (1 x)
  then have x: "fld x ''protocolVersion'' = jint 1"
      "is_ok (exact_pattern (fld x ''replyPublicKeyHex'') LOWER_HEX_32 ''replyPublicKeyHex'')"
      "is_ok (validate_field_context (fld x ''context'') ''key-unwrap context'')"
    and r: "r = frozen_record (map (\<lambda>name. (name, fld x name)) KEY_UNWRAP_REQUEST_FIELDS)"
    by (auto simp: rbind_Inr_iff checks_Inr_iff)
  let ?es = "map (\<lambda>name. (name, fld x name)) KEY_UNWRAP_REQUEST_FIELDS"
  have "fld x ''encBase64url'' \<noteq> JUndefined" "fld x ''kmfBase64url'' \<noteq> JUndefined"
    using 1(2) by (auto simp: rbind_Inr_iff checks_Inr_iff dest: decode_defined)
  with x have "record_shape KEY_UNWRAP_REQUEST_FIELDS ?es" by (auto simp: idem_simps dest: guard_defined)
  then show ?case using 1(2) r by (intro exI [of _ ?es]) (simp add: idem_simps)
qed

lemma field_outcome_normal:
  assumes "validate_field_outcome i v = Inr r"
  shows "validate_field_outcome i r = Inr r" "r \<noteq> JUndefined"
proof -
  let ?refused = "[(''reason'', jlit ''NOT_ADDRESSED_TO_ACCOUNT''), (''status'', jlit ''refused'')]"
  let ?opened = "\<lambda>c. [(''ciphertextBase64url'', c), (''status'', jlit ''opened'')]"
  from assms consider x bs where "r = frozen_record (?opened (fld x ''ciphertextBase64url''))"
      "decode_base64url_bytes (fld x ''ciphertextBase64url'') 1 4096 (index_label ''field result '' i '' ciphertext'') = Inr bs"
    | "r = frozen_record ?refused"
    by (auto simp: validate_field_outcome_def rbind_Inr_iff checks_Inr_iff FIELD_OPEN_LIMITS_def split: if_splits)
  then have "validate_field_outcome i r = Inr r \<and> r \<noteq> JUndefined"
  proof cases
    case 1
    have "exact_record r [''ciphertextBase64url'', ''status''] l = Inr r" for l
      unfolding 1(1) by (rule record_shape_exact) (use 1(2) in \<open>auto simp: idem_simps dest: guard_defined\<close>)
    then show ?thesis using 1 by (simp add: validate_field_outcome_def fld_frozen_record FIELD_OPEN_LIMITS_def)
  next
    case 2
    have "exact_record r [''reason'', ''status''] l = Inr r" for l
      unfolding 2 by (rule record_shape_exact) (simp add: idem_simps)
    then show ?thesis using 2 by (simp add: validate_field_outcome_def fld_frozen_record checks_all_ok)
  qed
  then show "validate_field_outcome i r = Inr r" "r \<noteq> JUndefined" by blast+
qed

lemma field_result_normal:
  "validate_field_result v n = Inr r \<Longrightarrow> normal_result (\<lambda>v. validate_field_result v n) {FIELD_RESULT_FIELDS} r"
  unfolding validate_field_result_def
proof (rule record_normal, assumption, goal_cases)
  case (1 x)
  then obtain es where x: "fld x ''schemaVersion'' = jint 1"
      "is_ok (exact_pattern (fld x ''replyEphemeralPublicKeyHex'') LOWER_HEX_32 ''replyEphemeralPublicKeyHex'')"
      "array_length_between (fld x ''fields'') 1 n"
      "mapM_index validate_field_outcome 0 (array_values (fld x ''fields'')) = Inr es"
      "is_ok (validate_plain_dense_array (fld x ''fields'') (length (array_slots (fld x ''fields''))) ''field result fields'')"
    and r: "r = frozen_record [(''fields'', jarr es), (''replyEphemeralPublicKeyHex'', fld x ''replyEphemeralPublicKeyHex''),
        (''schemaVersion'', jint 1)]"
    by (auto simp: rbind_Inr_iff checks_Inr_iff)
  let ?es = "[(''fields'', jarr es), (''replyEphemeralPublicKeyHex'', fld x ''replyEphemeralPublicKeyHex''), (''schemaVersion'', jint 1)]"
  from x(5) obtain xs where xs: "fld x ''fields'' = jarr xs" by (auto simp: dense_array_iff)
  have en: "mapM_index validate_field_outcome 0 es = Inr es" "JUndefined \<notin> set es"
    using mapM_index_fixpoint [OF x(4), of validate_field_outcome] field_outcome_normal mapM_index_all [OF x(4)] by blast+
  have len: "length es = length xs" using mapM_index_length [OF x(4)] by (simp add: xs)
  have f: "fld r ''fields'' = jarr es" "fld r ''schemaVersion'' = jint 1"
    "fld r ''replyEphemeralPublicKeyHex'' = fld x ''replyEphemeralPublicKeyHex''" by (simp_all add: r fld_frozen_record)
  have "record_shape FIELD_RESULT_FIELDS ?es" using x(2) by (auto simp: idem_simps dest: guard_defined)
  moreover have "array_length_between (jarr es) 1 n" using x(3) by (simp add: array_length_between_def xs len)
  ultimately show ?case
    using x en r by (intro exI [of _ ?es]) (simp add: f [unfolded r] checks_all_ok)
qed

subsection \<open>The interpretations\<close>

interpretation raw_signature: normaliser validate_raw_signature "{RAW_SIGNATURE_FIELDS}"
  by unfold_locales (rule raw_signature_normal)

interpretation canonical_signature: normaliser "\<lambda>v. validate_canonical_signature H v k" "{CANONICAL_SIGNATURE_FIELDS}" for H k
  by unfold_locales (rule canonical_signature_normal)

interpretation public_identity: normaliser validate_public_identity "{PUBLIC_IDENTITY_FIELDS}"
  by unfold_locales (rule public_identity_normal)

interpretation connection_result: normaliser "\<lambda>v. validate_connection_result v op" "{CONNECTION_RESULT_FIELDS}" for op
  by unfold_locales (rule connection_result_normal)

interpretation login_v1: normaliser validate_sdn_login_v1_wire "{[''challengeBase64url'', ''protocolVersion'']}"
  by unfold_locales (rule sdn_login_v1_normal)

interpretation login_v2: normaliser validate_sdn_login_v2_wire
  "{[''audience'', ''challengeBase64url'', ''expiresAt'', ''issuedAt'', ''nonce'', ''protocolVersion'']}"
  by unfold_locales (rule sdn_login_v2_normal)

interpretation activation: normaliser validate_activation "{ACTIVATION_FIELDS}"
  by unfold_locales (rule activation_normal)

interpretation publish_request: normaliser "validate_sdn_publish_request H" "{PUBLISH_REQUEST_FIELDS}" for H
  by unfold_locales (rule sdn_publish_request_normal)

interpretation publish_result: normaliser validate_sdn_publish_result "{PUBLISH_RESULT_FIELDS}"
  by unfold_locales (rule sdn_publish_result_normal)

interpretation transform: normaliser "validate_transform H" "{TRANSFORM_FIELDS}" for H
  by unfold_locales (rule transform_normal)

interpretation decision: normaliser "validate_decision H" decision_names for H
  by unfold_locales (rule decision_normal)

interpretation field_open_request: normaliser validate_field_open_request "{FIELD_OPEN_REQUEST_FIELDS}"
  by unfold_locales (rule field_open_request_normal)

interpretation key_unwrap_request: normaliser validate_key_unwrap_request "{KEY_UNWRAP_REQUEST_FIELDS}"
  by unfold_locales (rule key_unwrap_request_normal)

interpretation field_result: normaliser "\<lambda>v. validate_field_result v n" "{FIELD_RESULT_FIELDS}" for n
  by unfold_locales (rule field_result_normal)

end
