(* ===== verification/WireProperties.thy ===== *)
theory WireProperties
  imports WireFacts
begin

section \<open>Properties of client/wire.mjs\<close>

text \<open>
  What the wire module promises to both sides of the relay: which texts are messages, what an
  accepted message establishes, and that the readers are total. A witness applies each property
  that has hypotheses at a concrete message.
\<close>

subsection \<open>Vocabulary and sample messages\<close>

lemma str_of_JStr [simp]: "str_of (JStr s) = s"
  by (simp add: str_of_def)

lemma str_of_jlit [simp]: "str_of (jlit s) = js s"
  by (simp add: jlit_def)

lemma pattern_string: "is_ok (exact_pattern v p l) \<Longrightarrow> v = JStr (str_of v) \<and> p (str_of v)"
  by (auto simp: is_ok_exact_pattern)

lemma frozen_record_sorted:
  "sorted (map (\<lambda>e. js (fst e)) es) \<Longrightarrow> frozen_record es = jobj (map (\<lambda>(k, v). (js k, v)) es)"
  by (simp add: frozen_record_def sort_key_id_if_sorted case_prod_beta comp_def)

lemma jval_wf_frozen: "jval_wf (frozen_record es) \<longleftrightarrow> distinct (map fst es) \<and> list_all (\<lambda>e. jval_wf (snd e)) es"
proof -
  let ?kvs = "map (\<lambda>(k, v). (js k, v)) es"
  have m: "map fst ?kvs = map js (map fst es)" by (simp add: case_prod_unfold comp_def)
  have "distinct (map js (map fst es)) = distinct (map fst es)" by (subst distinct_map) (simp add: inj_on_def)
  then have d: "distinct (map fst ?kvs) = distinct (map fst es)" by (simp only: m)
  have "list_all (\<lambda>(k, v). js_wf k \<and> jval_wf v) (sort_key fst ?kvs) = list_all (\<lambda>e. jval_wf (snd e)) es"
    by (auto simp: list_all_iff)
  then show ?thesis by (simp only: frozen_record_def jval_wf_builders distinct_fst_sort_key d)
qed

definition login_v2_entries :: "jstring \<Rightarrow> jval \<Rightarrow> jval \<Rightarrow> jstring \<Rightarrow> (string \<times> jval) list" where
  "login_v2_entries challenge issued expires nonce =
     [(''audience'', jlit ''sdn-login:sdn.spaceaware.io''), (''challengeBase64url'', JStr challenge),
      (''expiresAt'', expires), (''issuedAt'', issued), (''nonce'', JStr nonce), (''protocolVersion'', jint 2)]"

abbreviation login_v2_value :: "byte list \<Rightarrow> nat \<Rightarrow> nat \<Rightarrow> jval" where
  "login_v2_value bytes t0 t1 \<equiv> frozen_record (login_v2_entries (encode_base64url bytes)
     (JStr (to_iso_string (int t0))) (JStr (to_iso_string (int t1))) (replicate 64 48))"

lemma sample_timestamps:
  "to_iso_string 1700000000000 = iso_text 2023 11 14 22 13 20 0"
  "to_iso_string 1700000300000 = iso_text 2023 11 14 22 18 20 0"
  "valid_civil 2023 11 14 22 13 20 0" "valid_civil 2023 11 14 22 18 20 0"
  "make_time 2023 11 14 22 13 20 0 = 1700000000000" "make_time 2023 11 14 22 18 20 0 = 1700000300000"
proof -
  show v: "valid_civil 2023 11 14 22 13 20 0" "valid_civil 2023 11 14 22 18 20 0"
    by (simp_all add: valid_civil_def days_in_month_def is_leap_year_def month_start_def)
  show m: "make_time 2023 11 14 22 13 20 0 = 1700000000000" "make_time 2023 11 14 22 18 20 0 = 1700000300000"
    by (simp_all add: make_time_def make_day_def day_from_year_def month_start_def is_leap_year_def)
  show "to_iso_string 1700000000000 = iso_text 2023 11 14 22 13 20 0"
    "to_iso_string 1700000300000 = iso_text 2023 11 14 22 18 20 0"
    using to_iso_make_time [OF v(1)] to_iso_make_time [OF v(2)] m by simp_all
qed

lemma sample_instants:
  "is_ok (exact_timestamp (JStr (to_iso_string 1700000000000)) l)"
  "is_ok (exact_timestamp (JStr (to_iso_string 1700000300000)) l)"
  "instant (JStr (to_iso_string 1700000000000)) = 1700000000000"
  "instant (JStr (to_iso_string 1700000300000)) = 1700000300000"
proof -
  note s = sample_timestamps
  show "is_ok (exact_timestamp (JStr (to_iso_string 1700000000000)) l)"
    "is_ok (exact_timestamp (JStr (to_iso_string 1700000300000)) l)"
    unfolding exact_timestamp_calendar using s(1-4) by force+
  show "instant (JStr (to_iso_string 1700000000000)) = 1700000000000"
    "instant (JStr (to_iso_string 1700000300000)) = 1700000300000"
    using date_parse_iso [OF s(3)] date_parse_iso [OF s(4)] s by (simp_all add: instant_def)
qed

lemma zeros_hex [simp]: "lower_hex n (replicate n 48)"
  by (simp add: lower_hex_def is_lower_hex_def list_all_iff)

lemma hex_pattern [simp]:
  "is_ok (exact_pattern (JStr s) LOWER_HEX_32 l) \<longleftrightarrow> lower_hex 64 s"
  "is_ok (exact_pattern (JStr s) LOWER_HEX_64 l) \<longleftrightarrow> lower_hex 128 s"
  "is_ok (exact_pattern (JStr s) KEY_ID l) \<longleftrightarrow> KEY_ID s"
  using lower_hex_ascii KEY_ID_ascii
  by (auto simp: is_ok_exact_pattern LOWER_HEX_32_def LOWER_HEX_64_def scan_scalars_ascii)

lemma login_v2_checks:
  assumes "length bytes = 32" "is_ok (exact_timestamp issued l1)" "is_ok (exact_timestamp expires l2)"
    and "instant issued < instant expires" "instant expires - instant issued \<le> 300000"
    and "lower_hex 64 nonce"
  shows "validate_sdn_login_v2_wire (frozen_record (login_v2_entries (encode_base64url bytes) issued expires nonce))
     = Inr (frozen_record (login_v2_entries (encode_base64url bytes) issued expires nonce))"
proof -
  let ?es = "login_v2_entries (encode_base64url bytes) issued expires nonce"
  have d: "issued \<noteq> JUndefined" "expires \<noteq> JUndefined" using assms(2,3) by auto
  have label: "is_ok (exact_timestamp v a) \<Longrightarrow> is_ok (exact_timestamp v b)" for v a b
    by (simp add: exact_timestamp_calendar)
  have t: "is_ok (exact_timestamp issued a)" "is_ok (exact_timestamp expires a)" for a
    using label assms(2,3) by blast+
  have b: "is_ok (validate_base64url32 (JStr (encode_base64url bytes)) a)" for a
    using assms(1) by (auto simp: validate_base64url32_iff)
  have "record_shape [''audience'', ''challengeBase64url'', ''expiresAt'', ''issuedAt'', ''nonce'', ''protocolVersion''] ?es"
    using d by (auto simp: record_shape_def login_v2_entries_def)
  note record_shape_exact [OF this]
  moreover have "distinct (map fst ?es)" by (simp add: login_v2_entries_def)
  moreover have "is_ok (validate_lifetime issued expires)"
    using assms(4,5) by (simp add: validate_lifetime_iff [OF assms(2,3)])
  ultimately show ?thesis
    using b t assms(6) by (simp add: validate_sdn_login_v2_wire_def fld_frozen_record login_v2_entries_def
        SDN_AUDIENCE_def checks_all_ok)
qed

lemma sample_login_valid:
  "validate_sdn_login_v2_wire (login_v2_value (replicate 32 0) 1700000000000 1700000300000)
     = Inr (login_v2_value (replicate 32 0) 1700000000000 1700000300000)"
  by (rule login_v2_checks) (simp_all add: sample_instants)


subsection \<open>Login\<close>



text \<open>C2: a request the page's library builds is one the wallet origin accepts unchanged, and the
  challenge it carries decodes to the very 32 bytes the page passed in.\<close>

theorem login_v2_build_parse:
  assumes "build_sdn_login_v2_request input = Inr r"
  shows "validate_sdn_login_v2_wire r = Inr r
     \<and> (\<exists>x bytes. exact_record input [''audience'', ''challenge'', ''expiresAt'', ''issuedAt'', ''nonce'', ''protocolVersion'']
            ''SDN login v2 public request'' = Inr x
          \<and> fld x ''challenge'' = jbytes bytes \<and> length bytes = 32
          \<and> decode_base64url_bytes (fld r ''challengeBase64url'') 32 32 ''challenge'' = Inr bytes)"
proof -
  from assms obtain x c where x: "exact_record input [''audience'', ''challenge'', ''expiresAt'', ''issuedAt'', ''nonce'', ''protocolVersion'']
            ''SDN login v2 public request'' = Inr x" "encode_base64url32 (fld x ''challenge'') ''challenge'' = Inr c"
    and v: "validate_sdn_login_v2_wire (jobj [(js ''audience'', fld x ''audience''), (js ''challengeBase64url'', JStr c),
        (js ''expiresAt'', fld x ''expiresAt''), (js ''issuedAt'', fld x ''issuedAt''),
        (js ''nonce'', fld x ''nonce''), (js ''protocolVersion'', fld x ''protocolVersion'')]) = Inr r"
    by (auto simp: build_sdn_login_v2_request_def rbind_Inr_iff)
  from x(2) obtain bytes where b: "length bytes = 32" "c = encode_base64url bytes" "fld x ''challenge'' = jbytes bytes"
    by (elim encode_base64url32_Inr)
  have "fld r ''challengeBase64url'' = JStr c"
    using v by (auto simp: validate_sdn_login_v2_wire_def rbind_Inr_iff checks_Inr_iff exact_record_Inr
        read_input_record fld_frozen_record fld_def [of "jobj kvs" for kvs] field_jobj)
  then have "decode_base64url_bytes (fld r ''challengeBase64url'') 32 32 ''challenge'' = Inr bytes"
    using b by (simp add: decode_base64url_bytes_iff)
  moreover have "validate_sdn_login_v2_wire r = Inr r"
    using sdn_login_v2_normal [OF v] by (simp add: normal_result_def)
  ultimately show ?thesis using x(1) b by blast
qed

definition sample_login_input :: jval where
  "sample_login_input = frozen_record [(''audience'', jlit SDN_AUDIENCE), (''challenge'', jbytes (replicate 32 0)),
     (''expiresAt'', JStr (to_iso_string 1700000300000)), (''issuedAt'', JStr (to_iso_string 1700000000000)),
     (''nonce'', JStr (replicate 64 48)), (''protocolVersion'', jint 2)]"


lemma sample_login_built:
  "build_sdn_login_v2_request sample_login_input = Inr (login_v2_value (replicate 32 0) 1700000000000 1700000300000)"
proof -
  let ?F = "[''audience'', ''challenge'', ''expiresAt'', ''issuedAt'', ''nonce'', ''protocolVersion'']"
  have "exact_record sample_login_input ?F ''SDN login v2 public request'' = Inr sample_login_input"
    unfolding sample_login_input_def by (rule record_shape_exact) (simp add: record_shape_def jbytes_def)
  moreover have "jobj [(js ''audience'', fld sample_login_input ''audience''),
        (js ''challengeBase64url'', JStr (encode_base64url (replicate 32 0))),
        (js ''expiresAt'', fld sample_login_input ''expiresAt''), (js ''issuedAt'', fld sample_login_input ''issuedAt''),
        (js ''nonce'', fld sample_login_input ''nonce''), (js ''protocolVersion'', fld sample_login_input ''protocolVersion'')]
      = login_v2_value (replicate 32 0) 1700000000000 1700000300000"
    by (simp add: sample_login_input_def fld_frozen_record login_v2_entries_def SDN_AUDIENCE_def frozen_record_sorted js_def)
  moreover have "fld sample_login_input ''challenge'' = jbytes (replicate 32 0)"
    by (simp add: sample_login_input_def fld_frozen_record)
  ultimately show ?thesis
    using sample_login_valid by (simp add: build_sdn_login_v2_request_def del: fld_frozen_record)
qed

theorem login_v2_build_parse_witness:
  "validate_sdn_login_v2_wire (login_v2_value (replicate 32 0) 1700000000000 1700000300000)
       = Inr (login_v2_value (replicate 32 0) 1700000000000 1700000300000)
     \<and> (\<exists>x bytes. exact_record sample_login_input [''audience'', ''challenge'', ''expiresAt'', ''issuedAt'', ''nonce'', ''protocolVersion'']
            ''SDN login v2 public request'' = Inr x
          \<and> fld x ''challenge'' = jbytes bytes \<and> length bytes = 32
          \<and> decode_base64url_bytes (fld (login_v2_value (replicate 32 0) 1700000000000 1700000300000) ''challengeBase64url'')
              32 32 ''challenge'' = Inr bytes)"
  by (rule login_v2_build_parse [OF sample_login_built])


subsection \<open>The review decision\<close>

lemma decision_fixpoint:
  assumes "jval_wf v" "validate_decision H v = Inr r"
  obtains extra where "list_all is_ok (decision_guards r)" "decision_extra H r = Inr extra"
    "fld r ''decision'' = jlit ''approve'' \<or> fld r ''decision'' = jlit ''disapprove''"
    "r = frozen_record (decision_entries r extra)"
proof -
  have n: "validate_decision H r = Inr r" using decision.idem assms .
  have rec: "is_object_record r" using decision.result_record assms .
  from n [unfolded validate_decision_Inr] obtain extra where
    r: "exact_record r (DECISION_BASE_FIELDS @ conditional_fields (fld r ''decision'')) ''asset review decision request'' = Inr r"
      "case map_of (own_props r) (js ''decision'') of Some p \<Rightarrow> is_plain_data p | None \<Rightarrow> False"
      "list_all is_ok (decision_guards r)" "decision_extra H r = Inr extra" "caller_string_bytes r \<le> 16384"
      "r = frozen_record (decision_entries r extra)"
    using rec by (auto simp: read_input_record)
  have "fld r ''decision'' = jlit ''approve'' \<or> fld r ''decision'' = jlit ''disapprove''"
  proof (rule ccontr)
    assume a: "\<not> ?thesis"
    from assms(2) [unfolded validate_decision_Inr] obtain x ex where x: "read_input v = Inr x"
      "exact_record x (DECISION_BASE_FIELDS @ conditional_fields (fld x ''decision'')) ''asset review decision request'' = Inr x"
      "case map_of (own_props x) (js ''decision'') of Some p \<Rightarrow> is_plain_data p | None \<Rightarrow> False"
      "list_all is_ok (decision_guards x)" "decision_extra H x = Inr ex" "r = frozen_record (decision_entries x ex)"
      by blast
    have xwf: "jval_wf x" using read_input_wf assms(1) x(1) .
    have two: "fld x ''decision'' = jlit ''approve'' \<or> fld x ''decision'' = jlit ''disapprove''"
      using decision_two_values [OF xwf x(2,4) plain_decision_field [OF x(3)] x(5)] .
    have "distinct (map fst (decision_entries x ex))" "map_of (decision_entries x ex) ''decision'' = Some (fld x ''decision'')"
      using two decision_extra_defined [OF x(5)]
      by (auto simp: decision_entries_def DECISION_BASE_FIELDS_def map_add_def)
    with two a show False by (simp add: x(6) fld_frozen_record)
  qed
  with r that show thesis by blast
qed

lemma drop_suffix: "ends_with q s \<Longrightarrow> s = take (length s - length q) s @ q"
  by (auto simp: ends_with_def) (metis append_take_drop_id)

lemma candidate_key_shape:
  assumes "starts_with (js ''asset-review:'') key" "ends_with (58 # sha) key" "entity_id (candidate_entity key sha)"
  shows "key = js ''asset-review:'' @ candidate_entity key sha @ 58 # sha"
proof -
  let ?stem = "take (length key - Suc (length sha)) key"
  have k: "key = ?stem @ 58 # sha" using drop_suffix [OF assms(2)] by simp
  have "candidate_entity key sha \<noteq> []" using assms(3) by (auto simp: entity_id_def)
  then have l: "13 \<le> length ?stem" by (simp add: candidate_entity_def)
  have "take 13 key = js ''asset-review:''" using assms(1) by (simp add: starts_with_def numeral_eq_Suc)
  then have "take 13 ?stem = js ''asset-review:''" using l by (simp add: min_def split: if_splits)
  then have "?stem = js ''asset-review:'' @ drop 13 ?stem" by (metis append_take_drop_id)
  with k have "key = (js ''asset-review:'' @ drop 13 ?stem) @ 58 # sha" by metis
  then show ?thesis by (simp add: candidate_entity_def)
qed

text \<open>C3: an accepted review decision binds the model. Its CID is the CIDv1 of exactly the digest it
  names, its candidate key is \<open>asset-review:<entity>:<digest>\<close> for that same digest and a bounded
  entity id, its lifetime is positive and at most five minutes, and it either approves with a
  transform the reviewed policy accepts or disapproves with a reason of 1 to 2000 UTF-8 bytes.\<close>

theorem decision_binds_model:
  assumes "jval_wf v" and "validate_decision H v = Inr r"
  shows "\<exists>sha entity. fld r ''modelSha256'' = JStr sha \<and> lower_hex 64 sha
     \<and> fld r ''modelCid'' = JStr (model_cid sha)
     \<and> fld r ''candidateKey'' = JStr (js ''asset-review:'' @ entity @ 58 # sha)
     \<and> entity_id entity \<and> length (utf8_encode entity) \<le> 128
     \<and> instant (fld r ''issuedAt'') < instant (fld r ''expiresAt'')
     \<and> instant (fld r ''expiresAt'') - instant (fld r ''issuedAt'') \<le> 300000
     \<and> (fld r ''decision'' = jlit ''approve''
           \<and> validate_transform H (fld r ''reviewedTransform'') = Inr (fld r ''reviewedTransform'')
        \<or> fld r ''decision'' = jlit ''disapprove''
           \<and> (\<exists>reason. fld r ''reason'' = JStr reason \<and> reason \<noteq> [] \<and> length (utf8_encode reason) \<le> 2000))"
proof -
  from assms obtain extra where r: "list_all is_ok (decision_guards r)" "decision_extra H r = Inr extra"
      "fld r ''decision'' = jlit ''approve'' \<or> fld r ''decision'' = jlit ''disapprove''"
      "r = frozen_record (decision_entries r extra)" by (rule decision_fixpoint)
  from r(1) obtain sha key where
    sha: "fld r ''modelSha256'' = JStr sha" "lower_hex 64 sha" and
    key: "fld r ''candidateKey'' = JStr key" "starts_with (js ''asset-review:'') key" "ends_with (58 # sha) key"
      "entity_id (candidate_entity key sha)" "length (utf8_encode (candidate_entity key sha)) \<le> 128" and
    cid: "fld r ''modelCid'' = JStr (model_cid sha)" and
    t: "is_ok (exact_timestamp (fld r ''issuedAt'') ''decision issuedAt'')"
      "is_ok (exact_timestamp (fld r ''expiresAt'') ''decision expiresAt'')"
      "is_ok (validate_lifetime (fld r ''issuedAt'') (fld r ''expiresAt''))"
    by (auto simp: decision_guards_def validate_model_cid_iff validate_unicode_scalar_string_def LOWER_HEX_32_def
        dest!: pattern_string split: jval.splits)
  have life: "instant (fld r ''issuedAt'') < instant (fld r ''expiresAt'')"
    "instant (fld r ''expiresAt'') - instant (fld r ''issuedAt'') \<le> 300000"
    using t(3) by (simp_all add: validate_lifetime_iff [OF t(1,2)])
  have "fld r ''decision'' = jlit ''approve''
           \<and> validate_transform H (fld r ''reviewedTransform'') = Inr (fld r ''reviewedTransform'')
        \<or> fld r ''decision'' = jlit ''disapprove''
           \<and> (\<exists>reason. fld r ''reason'' = JStr reason \<and> reason \<noteq> [] \<and> length (utf8_encode reason) \<le> 2000)"
    (is "?A \<or> ?D")
  proof (cases "fld r ''decision'' = jlit ''approve''")
    case True
    then obtain t n where t: "validate_transform H (fld r ''reviewedTransform'') = Inr t"
      "extra = [(''note'', n), (''reviewedTransform'', t)]"
      using r(2) by (auto simp: decision_extra_def rbind_Inr_iff)
    have "fld r ''reviewedTransform'' = t"
      by (subst r(4)) (simp add: t(2) decision_entries_def DECISION_BASE_FIELDS_def fld_frozen_record)
    with t(1) True show ?thesis by simp
  next
    case False
    then have "is_ok (validate_review_text (fld r ''reason'') ''reason'' False)" "fld r ''decision'' = jlit ''disapprove''"
      using r(2,3) by (auto simp: decision_extra_def rbind_Inr_iff is_ok_iff)
    then show ?thesis
      by (auto simp: validate_review_text_def Let_def is_ok_checks validate_unicode_scalar_string_def split: jval.splits)
  qed
  then show ?thesis
    using sha cid key candidate_key_shape [OF key(2-4)] life
    by (intro exI [of _ sha] exI [of _ "candidate_entity key sha"]) auto
qed


subsection \<open>A sample decision\<close>

definition sample_host :: wire_host where
  "sample_host = \<lparr>math_hypot = (\<lambda>_. Fin 1), new_url = (\<lambda>_. None)\<rparr>"

definition sample_decision :: jval where
  "sample_decision = frozen_record
     [(''audience'', jlit REVIEW_AUDIENCE), (''candidateKey'', JStr (js ''asset-review:a/b:'' @ replicate 64 48)),
      (''challengeId'', JStr (replicate 64 48)), (''clientId'', jlit REVIEW_CLIENT_ID), (''decision'', jlit ''disapprove''),
      (''expiresAt'', JStr (to_iso_string 1700000300000)), (''issuedAt'', JStr (to_iso_string 1700000000000)),
      (''metadataSha256'', JStr (replicate 64 48)), (''modelBytes'', jint 4096), (''modelCid'', JStr (model_cid (replicate 64 48))),
      (''modelSha256'', JStr (replicate 64 48)), (''nonce'', JStr (replicate 64 48)), (''previousDecisionHead'', JNull),
      (''protocolVersion'', jint 1), (''requestOrigin'', jlit REVIEW_ORIGIN), (''reason'', jlit ''blurry'')]"

lemma sample_decision_fields:
  "map (fld sample_decision) DECISION_BASE_FIELDS =
     [jlit REVIEW_AUDIENCE, JStr (js ''asset-review:a/b:'' @ replicate 64 48), JStr (replicate 64 48), jlit REVIEW_CLIENT_ID,
      jlit ''disapprove'', JStr (to_iso_string 1700000300000), JStr (to_iso_string 1700000000000), JStr (replicate 64 48),
      jint 4096, JStr (model_cid (replicate 64 48)), JStr (replicate 64 48), JStr (replicate 64 48), JNull, jint 1,
      jlit REVIEW_ORIGIN]" "fld sample_decision ''reason'' = jlit ''blurry''"
  by (simp_all add: sample_decision_def fld_frozen_record DECISION_BASE_FIELDS_def)


lemma model_cid_text: "length (model_cid h) = 59" "is_ascii (model_cid h)"
proof -
  have "is_ok (validate_model_cid (JStr (model_cid h)) h)" by (simp add: validate_model_cid_iff)
  then have c: "CID_V1_RAW_SHA256 (model_cid h)" by (simp add: validate_model_cid_def is_ok_checks Let_def)
  then show "length (model_cid h) = 59" by (simp add: CID_V1_RAW_SHA256_def)
  have "c < 128" if "base32_value c \<noteq> None" for c using that by (auto simp: base32_value_def split: if_splits)
  then show "is_ascii (model_cid h)" using c
    by (auto simp: CID_V1_RAW_SHA256_def starts_with_iff is_ascii_def list_all_iff)
qed

lemma sample_iso_text: "is_ascii (to_iso_string 1700000000000)" "is_ascii (to_iso_string 1700000300000)"
  "length (to_iso_string 1700000000000) = 24" "length (to_iso_string 1700000300000) = 24"
proof -
  note t = sample_timestamps(1,2)
  show "is_ascii (to_iso_string 1700000000000)" "is_ascii (to_iso_string 1700000300000)"
    unfolding t using iso_text_ascii [of 2023] by simp_all
  show "length (to_iso_string 1700000000000) = 24" "length (to_iso_string 1700000300000) = 24"
    unfolding t by (simp_all add: iso_text_def year_text_def)
qed

lemma ascii_zeros [simp]: "is_ascii (replicate n 48)"
  using lower_hex_ascii zeros_hex by blast

lemma utf8_jlit_length: "list_all (\<lambda>c. of_char c < (128::nat)) s \<Longrightarrow> length (utf8_encode (js s)) = length s"
  by (subst length_utf8_ascii) (simp_all add: is_ascii_def js_def list_all_iff)

lemma sample_decision_guards: "list_all is_ok (decision_guards sample_decision)"
proof -
  let ?zeros = "replicate 64 (48::nat)" and ?key = "js ''asset-review:a/b:'' @ replicate 64 48"
  note f = sample_decision_fields [simplified DECISION_BASE_FIELDS_def list.map, simplified]
  have "starts_with (js ''asset-review:'') ?key" by (simp add: starts_with_def js_def)
  moreover have "ends_with (58 # ?zeros) ?key" by (simp add: ends_with_def js_def)
  moreover have "candidate_entity ?key ?zeros = js ''a/b''" by (simp add: candidate_entity_def js_def)
  moreover have "entity_id (js ''a/b'')" by (simp add: entity_id_def js_def is_entity_char_def is_label_char_def)
  moreover have "is_ascii ?key" by (simp add: js_def)
  moreover have "is_ascii (js ''a/b'')" by (simp add: js_def)
  moreover have "num_is_safe_integer (Fin 4096)" "\<not> num_le (Fin 4096) (Fin 0)" "is_num (jint 4096)"
    by (simp_all add: num_is_safe_integer_def num_is_integer_def num_le_def num_less_def num_eq_def num_real_def
        num_is_finite_def is_num_def jint_def num_abs_def)
  moreover have "is_ok (validate_lifetime (JStr (to_iso_string 1700000000000)) (JStr (to_iso_string 1700000300000)))"
    by (subst validate_lifetime_iff [OF sample_instants(1,2)]) (simp add: sample_instants(3,4))
  ultimately show ?thesis
    unfolding decision_guards_def
    by (simp add: f sample_instants(1,2) validate_model_cid_iff scan_scalars_ascii_string REVIEW_AUDIENCE_def)
qed


lemma sample_decision_valid: "validate_decision H sample_decision = Inr sample_decision"
  and sample_decision_wf: "jval_wf sample_decision"
proof -
  note f = sample_decision_fields [simplified DECISION_BASE_FIELDS_def list.map, simplified]
  let ?F = "DECISION_BASE_FIELDS @ [''reason'']"
  let ?es = "decision_entries sample_decision [(''reason'', jlit ''blurry'')]"
  have rec: "sample_decision = frozen_record ?es"
    by (subst (1) sample_decision_def) (simp add: decision_entries_def DECISION_BASE_FIELDS_def f)
  have sh: "record_shape ?F ?es"
    by (simp add: record_shape_def decision_entries_def DECISION_BASE_FIELDS_def f insert_commute)
  have ex: "exact_record sample_decision ?F l = Inr sample_decision" for l
    using record_shape_exact [OF sh] rec by simp
  have fc: "\<forall>n\<in>set (own_names sample_decision). is_ok (field_check ''x'' sample_decision n)"
    using ex [of "''x''"] by (simp add: exact_record_Inr)
  have "caller_string_bytes sample_decision = (\<Sum>n\<in>js ` set ?F. string_bytes (field sample_decision n))"
  proof (subst caller_string_bytes_sum [OF _ fc])
    show "distinct (own_names sample_decision)"
      by (subst rec) (simp add: distinct_own_names_frozen decision_entries_def DECISION_BASE_FIELDS_def)
    have "set (own_names sample_decision) = js ` set ?F" using record_shape_names [OF sh] rec by simp
    then show "sum (\<lambda>n. string_bytes (field sample_decision n)) (set (own_names sample_decision))
        = sum (\<lambda>n. string_bytes (field sample_decision n)) (js ` set ?F)" by simp
  qed
  also have "\<dots> = (\<Sum>f\<in>set ?F. string_bytes (fld sample_decision f))"
    by (subst sum.reindex) (auto simp: inj_on_def fld_def)
  also have "\<dots> \<le> (\<Sum>f\<in>set ?F. 100)"
  proof (rule sum_mono)
    fix n assume "n \<in> set ?F"
    moreover have "is_ascii (js ''asset-review:a/b:'' @ replicate 64 48)" by (simp add: js_def)
    ultimately show "string_bytes (fld sample_decision n) \<le> 100"
      unfolding DECISION_BASE_FIELDS_def
      by (auto simp: f string_bytes_def jlit_def jint_def utf8_jlit_length model_cid_text sample_iso_text
          REVIEW_AUDIENCE_def REVIEW_ORIGIN_def REVIEW_CLIENT_ID_def)
  qed
  finally have small: "caller_string_bytes sample_decision \<le> 16384"
    by (simp add: DECISION_BASE_FIELDS_def card_insert_if split: if_splits)
  have d: "map_of (own_props sample_decision) (js ''decision'') = Some (Data True (jlit ''disapprove''))"
  proof -
    have "js ''decision'' \<in> set (own_names sample_decision)"
      using record_shape_names [OF sh] rec by (simp add: DECISION_BASE_FIELDS_def)
    with fc obtain w where "map_of (own_props sample_decision) (js ''decision'') = Some (Data True w)"
      by (auto simp: field_check_ok)
    with field_eq [OF this] f show ?thesis by (simp add: fld_def)
  qed
  have t: "code_points (js ''blurry'') = js ''blurry''" "is_ascii (js ''blurry'')"
    "\<not> is_trim_scalar (hd (js ''blurry''))" "\<not> is_trim_scalar (last (js ''blurry''))"
    by (simp_all add: js_def is_high_surrogate_def is_trim_scalar_def)
  have "validate_review_text (jlit ''blurry'') ''reason'' False = Inr (jlit ''blurry'')"
    by (simp add: validate_review_text_def Let_def jlit_def t checks_all_ok scan_scalars_ascii_string)
  then have e: "decision_extra H sample_decision = Inr [(''reason'', jlit ''blurry'')]"
    by (simp add: decision_extra_def f)
  show "validate_decision H sample_decision = Inr sample_decision"
    unfolding validate_decision_Inr
  proof (intro exI conjI)
    show "read_input sample_decision = Inr sample_decision" "is_object_record sample_decision"
      by (simp_all add: sample_decision_def read_input_record)
    show "case map_of (own_props sample_decision) (js ''decision'') of None \<Rightarrow> False | Some p \<Rightarrow> is_plain_data p"
      by (simp add: d is_plain_data_def)
    show "exact_record sample_decision (DECISION_BASE_FIELDS @ conditional_fields (fld sample_decision ''decision''))
        ''asset review decision request'' = Inr sample_decision"
      using ex by (simp add: f conditional_fields_def)
  qed (fact sample_decision_guards e small rec)+
  have w: "is_ascii x \<Longrightarrow> js_wf x" for x by (auto simp: is_ascii_def js_wf_def list_all_iff)
  show "jval_wf sample_decision"
    unfolding sample_decision_def
    by (simp add: jval_wf_frozen jlit_def jint_def w sample_iso_text model_cid_text ascii_zeros del: js_wf_js)
      (simp add: js_wf_js)
qed


theorem decision_binds_model_witness:
  "\<exists>sha entity. fld sample_decision ''modelSha256'' = JStr sha \<and> lower_hex 64 sha
     \<and> fld sample_decision ''modelCid'' = JStr (model_cid sha)
     \<and> fld sample_decision ''candidateKey'' = JStr (js ''asset-review:'' @ entity @ 58 # sha)
     \<and> entity_id entity \<and> length (utf8_encode entity) \<le> 128
     \<and> instant (fld sample_decision ''issuedAt'') < instant (fld sample_decision ''expiresAt'')
     \<and> instant (fld sample_decision ''expiresAt'') - instant (fld sample_decision ''issuedAt'') \<le> 300000
     \<and> (fld sample_decision ''decision'' = jlit ''approve''
           \<and> validate_transform sample_host (fld sample_decision ''reviewedTransform'')
               = Inr (fld sample_decision ''reviewedTransform'')
        \<or> fld sample_decision ''decision'' = jlit ''disapprove''
           \<and> (\<exists>reason. fld sample_decision ''reason'' = JStr reason \<and> reason \<noteq> []
                \<and> length (utf8_encode reason) \<le> 2000))"
  by (rule decision_binds_model [OF sample_decision_wf sample_decision_valid])

subsection \<open>The reviewed transform\<close>

lemma num_less_real: "num_is_finite m \<Longrightarrow> num_is_finite n \<Longrightarrow> num_less m n \<longleftrightarrow> num_real m < num_real n"
  by (cases m; cases n) (simp_all add: num_is_finite_def num_less_def num_real_def)

lemma num_le_real: "num_is_finite m \<Longrightarrow> num_is_finite n \<Longrightarrow> num_le m n \<longleftrightarrow> num_real m \<le> num_real n"
  by (auto simp: num_le_def num_less_real num_eq_def)

lemma num_abs_real: "num_is_finite m \<Longrightarrow> num_is_finite (num_abs m) \<and> num_real (num_abs m) = \<bar>num_real m\<bar>"
  by (cases m) (auto simp: num_is_finite_def num_real_def num_abs_def)

lemma finite_Fin [simp]: "num_is_finite (Fin x)" "num_real (Fin x) = x"
  by (simp_all add: num_is_finite_def num_real_def)

lemma transform_units_eq:
  "transform_units = jobj [(js ''cm'', JNum (num_lit ''0.01'')), (js ''km'', jint 1000), (js ''m'', jint 1),
     (js ''mm'', JNum (num_lit ''0.001''))]"
  by (simp add: transform_units_def frozen_entries_def js_def)

text \<open>C4: a reviewed transform that is accepted stays inside the shipped policy. Its translation has
  three components of magnitude at most 1000000, its scale three components above 0 and at most
  1000000, its rotation four finite components whose norm the policy's tolerance admits, and its
  unit and up-axis are among the listed ones, the metre factor being the one listed for the unit.\<close>

theorem transform_bounds:
  assumes "validate_transform H v = Inr r"
  shows "\<exists>t q s u. fld r ''translation'' = jarr t \<and> length t = 3
       \<and> list_all (\<lambda>c. \<bar>num_real (num_of c)\<bar> \<le> 1000000) t
     \<and> fld r ''scale'' = jarr s \<and> length s = 3
       \<and> list_all (\<lambda>c. 0 < num_real (num_of c) \<and> num_real (num_of c) \<le> 1000000) s
     \<and> fld r ''rotation'' = jarr q \<and> length q = 4 \<and> list_all is_finite_num q
       \<and> \<not> num_less (num_lit ''0.000001'') (num_abs (num_minus_one (math_hypot H (map num_of q))))
     \<and> fld r ''upAxis'' \<in> {jlit ''X_UP'', jlit ''Y_UP'', jlit ''Z_UP''}
     \<and> fld r ''sourceUnits'' = jlit u \<and> u \<in> {''cm'', ''km'', ''m'', ''mm''}
     \<and> strict_eq (fld r ''metersPerSourceUnit'') (fld transform_units u)"
proof -
  from assms obtain x t q s where t: "length t = 3" "list_all is_finite_num t"
    and q: "length q = 4" "list_all is_finite_num q" and s: "length s = 3" "list_all is_finite_num s"
    and g: "list_all (\<lambda>c. \<not> num_less (Fin 1000000) (num_abs (num_of c))) t"
      "list_all (\<lambda>c. \<not> (num_le (num_of c) (Fin 0) \<or> num_less (Fin 1000000) (num_of c))) s"
      "\<not> num_less (num_lit ''0.000001'') (num_abs (num_minus_one (math_hypot H (map num_of q))))"
      "list_ex (strict_eq (fld x ''upAxis'')) [jlit ''X_UP'', jlit ''Y_UP'', jlit ''Z_UP'']"
      "is_ok (validate_unicode_scalar_string (fld x ''sourceUnits'') ''sourceUnits'')"
      "str_of (fld x ''sourceUnits'') \<in> set (own_names transform_units)"
      "strict_eq (fld x ''metersPerSourceUnit'') (field transform_units (str_of (fld x ''sourceUnits'')))"
    and r: "r = frozen_record [(''metersPerSourceUnit'', fld x ''metersPerSourceUnit''), (''rotation'', jarr q),
        (''scale'', jarr s), (''sourceUnits'', fld x ''sourceUnits''), (''translation'', jarr t), (''upAxis'', fld x ''upAxis'')]"
    unfolding validate_transform_def Let_def transform_policy_fields
    by (auto simp: rbind_Inr_iff checks_Inr_iff finite_tuple_Inr num_JNum simp del: list_ex_Cons_iff)
  have fin: "is_finite_num c \<Longrightarrow> num_is_finite (num_of c)" for c
    by (auto simp: is_finite_num_def num_of_def split: jval.splits)
  have tb: "list_all (\<lambda>c. \<bar>num_real (num_of c)\<bar> \<le> 1000000) t"
    using t(2) g(1) fin num_abs_real num_less_real [of "Fin 1000000"] by (fastforce simp: list_all_iff)
  have sb: "list_all (\<lambda>c. 0 < num_real (num_of c) \<and> num_real (num_of c) \<le> 1000000) s"
    using s(2) g(2) fin num_le_real [of _ "Fin 0"] num_less_real [of "Fin 1000000"] by (fastforce simp: list_all_iff)
  have "str_of (fld x ''sourceUnits'') \<in> js ` {''cm'', ''km'', ''m'', ''mm''}"
    using g(6) by (simp add: transform_units_eq)
  then obtain u where u: "u \<in> {''cm'', ''km'', ''m'', ''mm''}" "fld x ''sourceUnits'' = jlit u"
    using g(5) by (auto simp: validate_unicode_scalar_string_def jlit_def split: jval.splits)
  then have "strict_eq (fld x ''metersPerSourceUnit'') (fld transform_units u)" using g(7) by (simp add: fld_def jlit_def)
  then show ?thesis using t(1) q s(1) g(3,4) tb sb u
    by (intro exI [of _ t] exI [of _ q] exI [of _ s] exI [of _ u]) (simp add: r fld_frozen_record)
qed

lemma finite_tuple_jarr:
  "length xs = n \<Longrightarrow> list_all is_finite_num xs \<Longrightarrow> validate_finite_tuple (jarr xs) n l = Inr (jarr xs)"
  by (auto simp: finite_tuple_Inr)

definition sample_transform :: jval where
  "sample_transform = frozen_record
     [(''metersPerSourceUnit'', jint 1), (''rotation'', jarr [jint 0, jint 0, jint 0, jint 1]),
      (''scale'', jarr [jint 1, jint 2, jint 3]), (''sourceUnits'', jlit ''m''),
      (''translation'', jarr [jint 0, jint (- 5), jint 1000000]), (''upAxis'', jlit ''Z_UP'')]"

lemma sample_transform_valid: "validate_transform sample_host sample_transform = Inr sample_transform"
proof -
  have "exact_record sample_transform TRANSFORM_FIELDS l = Inr sample_transform" for l
    unfolding sample_transform_def by (rule record_shape_exact) (simp add: record_shape_def TRANSFORM_FIELDS_def jint_def)
  moreover have "js ''m'' \<in> set (own_names transform_units)" "field transform_units (js ''m'') = jint 1"
    by (auto simp: transform_units_eq field_jobj)
  moreover have "is_ok (validate_unicode_scalar_string (jlit ''m'') l)" for l
    by (simp add: jlit_def scan_scalars_ascii_string js_def)
  moreover have "num_abs (num_minus_one (Fin 1)) = Fin 0"
    by (simp add: num_minus_one_def num_abs_def num_real_def num_is_finite_def round_double_def)
  moreover have "\<not> num_less (num_lit ''0.000001'') (Fin 0)"
    unfolding policy_literals by (simp add: num_less_real)
  ultimately show ?thesis
    unfolding validate_transform_def Let_def transform_policy_fields
    by (simp add: sample_transform_def fld_frozen_record finite_tuple_jarr num_less_real num_le_real
        num_abs_def [of "Fin x" for x] num_JNum sample_host_def checks_all_ok)
qed


theorem transform_bounds_witness:
  "\<exists>t q s u. fld sample_transform ''translation'' = jarr t \<and> length t = 3
       \<and> list_all (\<lambda>c. \<bar>num_real (num_of c)\<bar> \<le> 1000000) t
     \<and> fld sample_transform ''scale'' = jarr s \<and> length s = 3
       \<and> list_all (\<lambda>c. 0 < num_real (num_of c) \<and> num_real (num_of c) \<le> 1000000) s
     \<and> fld sample_transform ''rotation'' = jarr q \<and> length q = 4 \<and> list_all is_finite_num q
       \<and> \<not> num_less (num_lit ''0.000001'') (num_abs (num_minus_one (math_hypot sample_host (map num_of q))))
     \<and> fld sample_transform ''upAxis'' \<in> {jlit ''X_UP'', jlit ''Y_UP'', jlit ''Z_UP''}
     \<and> fld sample_transform ''sourceUnits'' = jlit u \<and> u \<in> {''cm'', ''km'', ''m'', ''mm''}
     \<and> strict_eq (fld sample_transform ''metersPerSourceUnit'') (fld transform_units u)"
  by (rule transform_bounds [OF sample_transform_valid])

subsection \<open>Encodings and timestamps\<close>

text \<open>the CID check accepts exactly one text per digest, and different digests have different
  texts: a model CID that passes for one digest passes for no other.\<close>

theorem model_cid_binds_digest:
  "(is_ok (validate_model_cid v h) \<longleftrightarrow> v = JStr (model_cid h))
   \<and> (lower_hex 64 h \<and> lower_hex 64 k \<and> model_cid h = model_cid k \<longleftrightarrow> lower_hex 64 h \<and> h = k)"
  using validate_model_cid_iff model_cid_inj by blast+

text \<open>C5: base64url is canonical in both directions. The decoder returns bytes only for the one
  unpadded text the encoder writes for them, and only within the length bounds of the caller.\<close>

theorem base64url_canonical:
  "decode_base64url_bytes v mn mx label = Inr bytes
     \<longleftrightarrow> v = JStr (encode_base64url bytes) \<and> mn \<le> length bytes \<and> length bytes \<le> mx"
  using base64url.dec_Inr_iff [of v mn mx label bytes] by auto

text \<open>C6: a timestamp is accepted exactly when it is the millisecond ISO text of a real calendar
  date of the years 0 to 9999: no day 30 of February, no hour 24, no other rendering of an instant.\<close>

theorem timestamp_is_calendar_text:
  "is_ok (exact_timestamp v label) \<longleftrightarrow>
     (\<exists>y m d h mi s ms. valid_civil y m d h mi s ms \<and> v = JStr (iso_text (int y) m d h mi s ms))"
  by (rule exact_timestamp_calendar)

subsection \<open>The JSON reader\<close>

text \<open>C7: whatever text the strict reader accepts, the value has no name twice in any object, holds
  finite numbers and well-formed strings only, and stays within 33 levels, 4096 values and 128 KiB.\<close>

theorem json_reader_bounds:
  assumes "parse_json_without_duplicates v = Inr r"
  shows "\<exists>s j. v = JStr s \<and> length (utf8_encode s) \<le> 131072 \<and> r = embed j
     \<and> json_valid (dialect_guard wire_dialect) j \<and> json_depth j \<le> 33 \<and> json_nodes j \<le> 4096"
  using assms by (elim parse_json_sound) blast

theorem json_reader_bounds_witness:
  "\<exists>s j. jlit ''null'' = JStr s \<and> length (utf8_encode s) \<le> 131072 \<and> JNull = embed j
     \<and> json_valid (dialect_guard wire_dialect) j \<and> json_depth j \<le> 33 \<and> json_nodes j \<le> 4096"
proof (rule json_reader_bounds)
  have sp: "skip_space (js ''null'') = js ''null''" "skip_space [] = []"
    by (simp_all add: skip_space_def js_def is_json_space_def)
  have st: "starts_with (js ''true'') (js ''null'') = False" "starts_with (js ''false'') (js ''null'') = False"
    "starts_with (js ''null'') (js ''null'') = True" "starts_with [c] (js ''null'') \<longleftrightarrow> c = 110"
    "drop 4 (js ''null'') = []" for c
    by (auto simp: starts_with_iff js_def numeral_eq_Suc)
  have "parse_value wire_dialect 33 0 (js ''null'') = Inr (JNull, 1, [])"
    using parse_value.simps(2) [of wire_dialect 32 0 "js ''null''"]
    by (simp add: sp st parse_literal_def del: starts_with_Cons parse_value.simps)
  then have "parse_document wire_dialect (js ''null'') = Inr JNull"
    by (simp add: parse_document_def sp)
  moreover have "\<not> has_bom (js ''null'')" by (simp add: has_bom_def st(4) del: starts_with_Cons)
  moreover have "length (utf8_encode (js ''null'')) \<le> MAX_WIRE_JSON_BYTES"
    by (simp add: MAX_WIRE_JSON_BYTES_def utf8_jlit_length)
  ultimately show "parse_json_without_duplicates (jlit ''null'') = Inr JNull"
    by (simp add: parse_json_without_duplicates_def jlit_def checks_all_ok)
qed

text \<open>C8: the reader is total. The model's loops run on fuel, the length of the text; the fuel is
  never exhausted, so a refusal is always one of the module's own errors.\<close>

theorem json_reader_total: "parse_json_without_duplicates v \<noteq> Inl Out_Of_Fuel"
  using parse_document_fuel [OF wire_dialect_ok]
  by (cases v) (auto simp: parse_json_without_duplicates_def checks_ensure)


subsection \<open>Every validator is a normaliser\<close>

text \<open>C9: validating twice is validating once, for every message of the module: what the page's
  side has accepted and frozen, the wallet's side accepts unchanged, and neither adds nor drops a
  field in between.\<close>

theorem validators_idempotent:
  assumes "jval_wf v"
  shows "list_all (\<lambda>validate. rbind (validate v) validate = validate v)
     [validate_public_identity, validate_raw_signature, validate_sdn_login_v1_wire, validate_sdn_login_v2_wire,
      validate_activation, validate_sdn_publish_request H, validate_sdn_publish_result, validate_transform H,
      validate_decision H, validate_field_open_request, validate_key_unwrap_request,
      (\<lambda>v. validate_connection_result v operation), (\<lambda>v. validate_canonical_signature H v kind),
      (\<lambda>v. validate_field_result v n)]"
  using assms
  by (simp add: public_identity.validate_twice raw_signature.validate_twice login_v1.validate_twice
      login_v2.validate_twice activation.validate_twice publish_request.validate_twice publish_result.validate_twice
      transform.validate_twice decision.validate_twice field_open_request.validate_twice
      key_unwrap_request.validate_twice connection_result.validate_twice canonical_signature.validate_twice
      field_result.validate_twice)

theorem validators_idempotent_witness:
  "list_all (\<lambda>validate. rbind (validate sample_decision) validate = validate sample_decision)
     [validate_public_identity, validate_raw_signature, validate_sdn_login_v1_wire, validate_sdn_login_v2_wire,
      validate_activation, validate_sdn_publish_request sample_host, validate_sdn_publish_result,
      validate_transform sample_host, validate_decision sample_host, validate_field_open_request,
      validate_key_unwrap_request, (\<lambda>v. validate_connection_result v ''connect''),
      (\<lambda>v. validate_canonical_signature sample_host v ''sdn-login''), (\<lambda>v. validate_field_result v 16)]
   \<and> validate_decision sample_host sample_decision = Inr sample_decision"
  using validators_idempotent [OF sample_decision_wf] sample_decision_valid by blast

subsection \<open>Record guards\<close>

text \<open>a record whose expected fields are all present passes the field-name guard with exactly
  those names, although the guard compares the names joined into one text.\<close>

theorem exact_record_exact_names:
  assumes "jval_wf r" "exact_record v expected label = Inr r" "plain_names expected"
    and "\<forall>f\<in>set expected. fld r f \<noteq> JUndefined"
  shows "set (own_names r) = js ` set expected"
  using assms by (intro exact_record_names)

theorem exact_record_exact_names_witness:
  "set (own_names sample_transform) = js ` set TRANSFORM_FIELDS"
proof (rule exact_record_exact_names)
  show "jval_wf sample_transform"
    by (simp add: sample_transform_def jval_wf_frozen jint_def jlit_def)
  show "exact_record sample_transform TRANSFORM_FIELDS ''t'' = Inr sample_transform"
    unfolding sample_transform_def by (rule record_shape_exact) (simp add: record_shape_def TRANSFORM_FIELDS_def jint_def)
  show "plain_names TRANSFORM_FIELDS" by (simp add: plain_names_def TRANSFORM_FIELDS_def js_def)
  show "\<forall>f\<in>set TRANSFORM_FIELDS. fld sample_transform f \<noteq> JUndefined"
    by (simp add: sample_transform_def TRANSFORM_FIELDS_def fld_frozen_record)
qed



subsection \<open>Field batches\<close>

definition bounded_field :: "jval \<Rightarrow> nat \<Rightarrow> bool" where
  \<comment> \<open>a field entry whose ciphertext has \<open>n\<close> bytes\<close>
  "bounded_field e n \<longleftrightarrow> (\<exists>ct ctx enc field_id. e = frozen_record
       [(''ciphertextBase64url'', JStr (encode_base64url ct)), (''context'', JStr ctx),
        (''encBase64url'', JStr (encode_base64url enc)), (''fieldId'', field_id)]
     \<and> length ct = n \<and> 1 \<le> n \<and> n \<le> 4096 \<and> 1 \<le> length enc \<and> length enc \<le> 512
     \<and> FIELD_CONTEXT ctx \<and> length (utf8_encode ctx) \<le> 256 \<and> integer_between field_id 0 65535)"

lemma field_entry_bounded: "validate_field_entry i v = Inr (r, n) \<Longrightarrow> bounded_field r n"
proof -
  assume "validate_field_entry i v = Inr (r, n)"
  then obtain x enc ct where x: "decode_base64url_bytes (fld x ''encBase64url'') 1 512 (index_label ''field '' i '' encBase64url'') = Inr enc"
      "decode_base64url_bytes (fld x ''ciphertextBase64url'') 1 4096 (index_label ''field '' i '' ciphertextBase64url'') = Inr ct"
      "is_ok (validate_field_context (fld x ''context'') (index_label ''field '' i '' context''))"
      "integer_between (fld x ''fieldId'') 0 65535"
    and r: "r = frozen_record (map (\<lambda>name. (name, fld x name)) FIELD_REQUEST_FIELDS)" "n = length ct"
    by (auto simp: validate_field_entry_def rbind_Inr_iff checks_Inr_iff FIELD_OPEN_LIMITS_def)
  from x(3) obtain ctx where c: "fld x ''context'' = JStr ctx" "FIELD_CONTEXT ctx" "length (utf8_encode ctx) \<le> 256"
    by (auto simp: validate_field_context_def is_ok_checks validate_unicode_scalar_string_def FIELD_OPEN_LIMITS_def
        split: jval.splits)
  then show "bounded_field r n"
    unfolding bounded_field_def using x(1,2,4)
    by (intro exI [of _ ct] exI [of _ ctx] exI [of _ enc] exI [of _ "fld x ''fieldId''"])
      (simp add: decode_base64url_bytes_iff r FIELD_REQUEST_FIELDS_def)
qed

text \<open>an accepted field-open request is a bounded batch: 1 to 16 fields, each one a 1..512-byte
  envelope key, a 1..4096-byte ciphertext, a field-encryption context of at most 256 bytes and an id
  of 0..65535, all canonically encoded, and at most 12288 ciphertext bytes in all.\<close>

theorem field_open_bounds:
  assumes "validate_field_open_request v = Inr r"
  shows "\<exists>es. fld r ''fields'' = jarr (map fst es) \<and> 1 \<le> length es \<and> length es \<le> 16
     \<and> list_all (\<lambda>(e, n). bounded_field e n) es \<and> sum_list (map snd es) \<le> 12288"
proof -
  from assms obtain x es where x: "array_length_between (fld x ''fields'') 1 16"
      "mapM_index validate_field_entry 0 (array_values (fld x ''fields'')) = Inr es" "sum_list (map snd es) \<le> 12288"
    and r: "r = frozen_record [(''fields'', jarr (map fst es)), (''protocolVersion'', jint 1),
        (''replyPublicKeyHex'', fld x ''replyPublicKeyHex'')]"
    by (auto simp: validate_field_open_request_def rbind_Inr_iff checks_Inr_iff FIELD_OPEN_LIMITS_def)
  have "length es = length (array_slots (fld x ''fields''))"
    using mapM_index_length [OF x(2)] by (simp add: array_values_def)
  moreover have "list_all (\<lambda>(e, n). bounded_field e n) es"
    using mapM_index_all [OF x(2)] field_entry_bounded by (fastforce simp: list_all_iff)
  ultimately show ?thesis
    using x(1,3) by (intro exI [of _ es]) (simp add: r fld_frozen_record array_length_between_def)
qed

definition sample_field :: jval where
  "sample_field = frozen_record [(''ciphertextBase64url'', JStr (encode_base64url [7, 8])),
     (''context'', jlit ''sdn-field-encryption/v1|site|schema|name|k1''),
     (''encBase64url'', JStr (encode_base64url [9])), (''fieldId'', jint 12)]"

definition sample_field_open :: jval where
  "sample_field_open = frozen_record [(''fields'', jarr [sample_field]), (''protocolVersion'', jint 1),
     (''replyPublicKeyHex'', JStr (replicate 64 48))]"

lemma sample_context: "is_ok (validate_field_context (jlit ''sdn-field-encryption/v1|site|schema|name|k1'') l)"
proof -
  let ?s = "js ''sdn-field-encryption/v1|site|schema|name|k1''"
  have "split_on 124 ?s = [js ''sdn-field-encryption/v1'', js ''site'', js ''schema'', js ''name'', js ''k1'']"
    by (simp add: js_def)
  moreover have "context_segment (js ''site'')" "context_segment (js ''schema'')" "context_segment (js ''name'')"
    "key_version (js ''k1'')"
    by (simp_all add: context_segment_def key_version_def js_def is_segment_char_def)
  ultimately have "FIELD_CONTEXT ?s" by (simp add: FIELD_CONTEXT_def)
  moreover have "is_ascii ?s" by (simp add: js_def)
  ultimately show ?thesis
    by (simp add: validate_field_context_def is_ok_checks FIELD_OPEN_LIMITS_def scan_scalars_ascii_string jlit_def)
qed

lemma sample_field_open_valid: "validate_field_open_request sample_field_open = Inr sample_field_open"
proof -
  have f: "fld sample_field ''ciphertextBase64url'' = JStr (encode_base64url [7, 8])"
    "fld sample_field ''context'' = jlit ''sdn-field-encryption/v1|site|schema|name|k1''"
    "fld sample_field ''encBase64url'' = JStr (encode_base64url [9])" "fld sample_field ''fieldId'' = jint 12"
    by (simp_all add: sample_field_def fld_frozen_record)
  have "exact_record sample_field FIELD_REQUEST_FIELDS l = Inr sample_field" for l
    unfolding sample_field_def by (rule record_shape_exact) (simp add: record_shape_def FIELD_REQUEST_FIELDS_def)
  moreover have "decode_base64url_bytes (JStr (encode_base64url [7, 8])) 1 4096 l = Inr [7, 8]"
    "decode_base64url_bytes (JStr (encode_base64url [9])) 1 512 l = Inr [9]" for l
    by (simp_all add: decode_base64url_bytes_iff)
  moreover have "integer_between (jint 12) 0 65535"
    by (simp add: integer_between_def jint_def num_is_integer_def num_less_real)
  moreover have "frozen_record (map (\<lambda>name. (name, fld sample_field name)) FIELD_REQUEST_FIELDS) = sample_field"
    by (simp add: FIELD_REQUEST_FIELDS_def f) (simp add: sample_field_def)
  ultimately have e: "validate_field_entry 0 sample_field = Inr (sample_field, 2)"
    by (simp add: validate_field_entry_def f FIELD_OPEN_LIMITS_def sample_context checks_all_ok)
  have "sample_field \<noteq> JUndefined" by (simp add: sample_field_def)
  moreover have "exact_record sample_field_open FIELD_OPEN_REQUEST_FIELDS l = Inr sample_field_open" for l
    unfolding sample_field_open_def by (rule record_shape_exact) (simp add: record_shape_def FIELD_OPEN_REQUEST_FIELDS_def)
  moreover have "fld sample_field_open ''fields'' = jarr [sample_field]" "fld sample_field_open ''protocolVersion'' = jint 1"
    "fld sample_field_open ''replyPublicKeyHex'' = JStr (replicate 64 48)"
    by (simp_all add: sample_field_open_def fld_frozen_record)
  ultimately show ?thesis
    by (simp add: validate_field_open_request_def FIELD_OPEN_LIMITS_def array_length_between_def e checks_all_ok)
      (simp add: sample_field_open_def)
qed

theorem field_open_bounds_witness:
  "\<exists>es. fld sample_field_open ''fields'' = jarr (map fst es) \<and> 1 \<le> length es \<and> length es \<le> 16
     \<and> list_all (\<lambda>(e, n). bounded_field e n) es \<and> sum_list (map snd es) \<le> 12288"
  by (rule field_open_bounds [OF sample_field_open_valid])

end
