(* ===== verification/WireApi.thy ===== *)
theory WireApi
  imports WireFields
begin

section \<open>The remaining exports of client/wire.mjs\<close>

text \<open>
  Each \<open>build\<close> and \<open>parse\<close> export that only names a validator. The page's library calls the
  builders of requests and the parsers of results, the wallet origin the other half.
\<close>

definition build_wallet_connect_request :: "jval \<Rightarrow> jval result" where
  "build_wallet_connect_request v = build_empty_request v ''wallet connect request''"

definition build_wallet_connect_result :: "jval \<Rightarrow> jval result" where
  "build_wallet_connect_result v = validate_connection_result v ''connect''"

definition build_wallet_account_request :: "jval \<Rightarrow> jval result" where
  "build_wallet_account_request v = build_empty_request v ''wallet account request''"

definition build_wallet_account_result :: "jval \<Rightarrow> jval result" where
  "build_wallet_account_result v = validate_connection_result v ''account''"

definition parse_sdn_login_v1_request :: "jval \<Rightarrow> jval result" where
  "parse_sdn_login_v1_request v = validate_sdn_login_v1_wire v"

definition build_sdn_login_v1_result :: "jval \<Rightarrow> jval result" where
  "build_sdn_login_v1_result v = validate_raw_signature v"

definition parse_sdn_login_v1_result :: "jval \<Rightarrow> jval result" where
  "parse_sdn_login_v1_result v = validate_raw_signature v"

definition parse_sdn_login_v2_request :: "jval \<Rightarrow> jval result" where
  "parse_sdn_login_v2_request v = validate_sdn_login_v2_wire v"

definition build_sdn_login_v2_result :: "wire_host \<Rightarrow> jval \<Rightarrow> jval result" where
  "build_sdn_login_v2_result H v = validate_canonical_signature H v ''sdn-login''"

definition build_sdn_publish_request :: "wire_host \<Rightarrow> jval \<Rightarrow> jval result" where
  "build_sdn_publish_request H v = validate_sdn_publish_request H v"

definition parse_sdn_publish_request :: "wire_host \<Rightarrow> jval \<Rightarrow> jval result" where
  "parse_sdn_publish_request H v = validate_sdn_publish_request H v"

definition build_sdn_publish_result :: "jval \<Rightarrow> jval result" where
  "build_sdn_publish_result v = validate_sdn_publish_result v"

definition parse_sdn_publish_result :: "jval \<Rightarrow> jval result" where
  "parse_sdn_publish_result v = validate_sdn_publish_result v"

definition build_activation_request :: "jval \<Rightarrow> jval result" where
  "build_activation_request v = validate_activation v"

definition parse_activation_request :: "jval \<Rightarrow> jval result" where
  "parse_activation_request v = validate_activation v"

definition build_activation_result :: "wire_host \<Rightarrow> jval \<Rightarrow> jval result" where
  "build_activation_result H v = validate_canonical_signature H v ''asset-review-authority-activation''"

definition build_decision_request :: "wire_host \<Rightarrow> jval \<Rightarrow> jval result" where
  "build_decision_request H v = validate_decision H v"

definition parse_decision_request :: "wire_host \<Rightarrow> jval \<Rightarrow> jval result" where
  "parse_decision_request H v = validate_decision H v"

definition build_decision_result :: "wire_host \<Rightarrow> jval \<Rightarrow> jval result" where
  "build_decision_result H v = validate_canonical_signature H v ''asset-review-attestation''"

definition parse_field_open_request :: "jval \<Rightarrow> jval result" where
  "parse_field_open_request v = validate_field_open_request v"

definition build_field_open_result :: "jval \<Rightarrow> jval result" where
  "build_field_open_result v = validate_field_result v (max_fields FIELD_OPEN_LIMITS)"

definition parse_key_unwrap_request :: "jval \<Rightarrow> jval result" where
  "parse_key_unwrap_request v = validate_key_unwrap_request v"

definition build_key_unwrap_result :: "jval \<Rightarrow> jval result" where
  "build_key_unwrap_result v = validate_field_result v 1"

end
