(* ===== verification/OriginGuards.thy ===== *)
theory OriginGuards
  imports WireProperties
begin

section \<open>Guards and copies of the wallet origin\<close>

text \<open>
  The record guard the modules under origin-app/ share (registry.mjs \<open>exactFields\<close>, relay.mjs and
  operations.mjs \<open>exactRecord\<close>): the own keys, sorted, must be exactly the expected names, as a list
  of names and not as a joined text. And the copy they freeze (\<open>freezeCopy\<close>, \<open>deepFreezeCopy\<close>):
  plain objects with their enumerable fields in the order of their names.
\<close>

subsection \<open>The guard\<close>

definition exact_fields :: "(string \<Rightarrow> js_error) \<Rightarrow> jval \<Rightarrow> string list \<Rightarrow> string \<Rightarrow> jval result" where
  "exact_fields err value expected label = checks
     [ensure (is_object_record value) (err (label @ '' must be an object'')),
      ensure (own_symbols value = 0) (err (label @ '' has missing or unknown fields'')),
      ensure (sort_names (own_names value) = sort_names (map js expected))
        (err (label @ '' has missing or unknown fields'')),
      ensure (list_all (\<lambda>(k, p). is_plain_data p) (own_props value)) (err (label @ '' has an invalid field''))]
     (Inr value)"

lemma exact_fields_Inr:
  "exact_fields err v expected label = Inr r \<longleftrightarrow> r = v \<and> is_object_record v \<and> own_symbols v = 0
     \<and> sort_names (own_names v) = sort_names (map js expected) \<and> list_all (\<lambda>(k, p). is_plain_data p) (own_props v)"
  by (auto simp: exact_fields_def checks_Inr_iff)

lemma exact_fields_names:
  "exact_fields err v expected label = Inr r \<Longrightarrow> set (own_names v) = js ` set expected"
  unfolding exact_fields_Inr by (metis list.set_map set_sort_names)

lemma exact_fields_defined:
  assumes "exact_fields err v expected label = Inr r" "f \<in> set expected"
  shows "\<exists>w. map_of (own_props v) (js f) = Some (Data True w) \<and> w \<noteq> JUndefined \<and> fld v f = w"
proof -
  from assms have "js f \<in> set (own_names v)" using exact_fields_names by blast
  then obtain p where p: "map_of (own_props v) (js f) = Some p" "(js f, p) \<in> set (own_props v)"
    unfolding own_names_def by (metis list.set_map map_of_SomeD map_of_eq_None_iff not_None_eq)
  with assms(1) have "is_plain_data p" by (auto simp: exact_fields_Inr list_all_iff)
  with p(1) show ?thesis by (auto simp: is_plain_data_def fld_def field_eq split: jprop.splits)
qed

lemma exact_fields_jobj:
  assumes "distinct (map fst kvs)" "set (map fst kvs) = js ` set expected" "distinct expected"
    and "\<forall>(k, v)\<in>set kvs. v \<noteq> JUndefined"
  shows "exact_fields err (jobj kvs) expected label = Inr (jobj kvs)"
proof -
  have "sort_names (own_names (jobj kvs)) = sort_names (map js expected)"
    using assms(1-3) by (subst sort_names_eq_iff) (auto simp: distinct_map inj_on_def)
  then show ?thesis
    using assms(4) by (auto simp: exact_fields_Inr jobj_def [of kvs] own_symbols_def own_props_def list_all_iff
        is_plain_data_def jdata_def is_object_record_def)
qed

subsection \<open>The frozen copy\<close>

text \<open>
  Assigning the name \<open>__proto__\<close> of the fresh object sets its prototype instead of a field: an
  object value becomes the prototype, \<open>null\<close> removes it, anything else is ignored.
\<close>

definition proto_name :: jstring where
  "proto_name = js ''__proto__''"

definition is_object_value :: "jval \<Rightarrow> bool" where
  "is_object_value v = (case v of JArr _ _ _ _ \<Rightarrow> True | JObj _ _ _ \<Rightarrow> True | JBytes _ _ _ _ _ \<Rightarrow> True
     | JFunction \<Rightarrow> True | _ \<Rightarrow> False)"

definition assigned_proto :: "(jstring \<times> jprop) list \<Rightarrow> proto" where
  "assigned_proto ps = (case map_of ps proto_name of
       Some (Data True v) \<Rightarrow> if is_object_value v then Other_Prototype
         else if v = JNull then Null_Prototype else Object_Prototype
     | _ \<Rightarrow> Object_Prototype)"

fun freeze_copy :: "jval \<Rightarrow> jval"
and freeze_slots :: "jprop option list \<Rightarrow> jprop option list"
and freeze_props :: "(jstring \<times> jprop) list \<Rightarrow> (jstring \<times> jprop) list" where
  "freeze_copy (JArr p xs ps n) = JArr Array_Prototype (freeze_slots xs) [] 0"
| "freeze_copy (JObj p ps n) =
     (if p = Object_Prototype \<or> p = Null_Prototype
      then JObj (assigned_proto ps) (sort_key fst (freeze_props ps)) 0 else JObj p ps n)"
| "freeze_copy v = v"
| "freeze_slots [] = []"
| "freeze_slots (None # xs) = None # freeze_slots xs"
| "freeze_slots (Some (Data e v) # xs) = Some (jdata (freeze_copy v)) # freeze_slots xs"
| "freeze_slots (Some (Accessor e) # xs) = Some (jdata JUndefined) # freeze_slots xs"
| "freeze_props [] = []"
| "freeze_props ((k, Data e v) # ps) =
     (if e \<and> k \<noteq> proto_name then (k, jdata (freeze_copy v)) # freeze_props ps else freeze_props ps)"
| "freeze_props ((k, Accessor e) # ps) =
     (if e \<and> k \<noteq> proto_name then (k, jdata JUndefined) # freeze_props ps else freeze_props ps)"

lemma freeze_slots_map: "freeze_slots (map (\<lambda>v. Some (jdata v)) vs) = map (\<lambda>v. Some (jdata (freeze_copy v))) vs"
  by (induction vs) (simp_all add: jdata_def)

lemma freeze_copy_jarr [simp]: "freeze_copy (jarr vs) = jarr (map freeze_copy vs)"
  by (simp add: jarr_def freeze_slots_map)

lemma freeze_props_map:
  "proto_name \<notin> fst ` set kvs \<Longrightarrow> freeze_props (map (\<lambda>(k, v). (k, jdata v)) kvs) = map (\<lambda>(k, v). (k, jdata (freeze_copy v))) kvs"
  by (induction kvs) (auto simp: jdata_def)

lemma freeze_props_cases:
  "freeze_props ((k, p) # ps) = freeze_props ps \<and> \<not> (k \<noteq> proto_name \<and> (\<exists>v. p = Data True v))
   \<or> (\<exists>w. freeze_props ((k, p) # ps) = (k, jdata w) # freeze_props ps \<and> (\<forall>v. p = Data True v \<longrightarrow> w = freeze_copy v))"
  by (cases p) auto

lemma map_of_freeze_props:
  "k \<noteq> proto_name \<Longrightarrow> map_of ps k = Some (Data True v) \<Longrightarrow> map_of (freeze_props ps) k = Some (jdata (freeze_copy v))"
proof (induction ps)
  case (Cons x ps)
  obtain j p where x: "x = (j, p)" by (cases x)
  show ?case using Cons freeze_props_cases [of j p ps] by (auto simp: x split: if_splits simp del: freeze_props.simps(2,3))
qed simp

lemma set_freeze_props: "fst ` set (freeze_props ps) \<subseteq> fst ` set ps"
proof (induction ps)
  case (Cons x ps)
  obtain j p where x: "x = (j, p)" by (cases x)
  have "fst ` set (freeze_props ((j, p) # ps)) \<subseteq> insert j (fst ` set (freeze_props ps))"
    using freeze_props_cases [of j p ps] by (auto simp del: freeze_props.simps(2,3))
  with Cons have "fst ` set (freeze_props ((j, p) # ps)) \<subseteq> insert j (fst ` set ps)" by blast
  then show ?case by (simp only: x list.set image_insert fst_conv)
qed simp

lemma distinct_freeze_props: "distinct (map fst ps) \<Longrightarrow> distinct (map fst (freeze_props ps))"
proof (induction ps)
  case (Cons x ps)
  obtain j p where x: "x = (j, p)" by (cases x)
  show ?case using Cons set_freeze_props [of ps] freeze_props_cases [of j p ps] by (auto simp: x simp del: freeze_props.simps(2,3))
qed simp

text \<open>A field of the copy is the copy of the field.\<close>

lemma field_freeze_copy:
  assumes "is_object_record v" "distinct (own_names v)" "map_of (own_props v) k = Some (Data True w)" "k \<noteq> proto_name"
  shows "field (freeze_copy v) k = freeze_copy w"
proof -
  from assms(1) obtain p ps n where v: "v = JObj p ps n" "p = Object_Prototype \<or> p = Null_Prototype"
    by (auto simp: is_object_record_def split: jval.splits)
  with assms have "map_of (freeze_props ps) k = Some (jdata (freeze_copy w))" "distinct (map fst (freeze_props ps))"
    by (simp_all add: own_props_def own_names_def map_of_freeze_props distinct_freeze_props)
  then show ?thesis using v
    by (simp add: field_def own_props_def map_of_sort_key prop_value_def jdata_def)
qed

lemma fld_freeze_copy:
  assumes "exact_fields err v expected label = Inr r" "jval_wf v" "f \<in> set expected" "f \<noteq> ''__proto__''"
  shows "fld (freeze_copy v) f = freeze_copy (fld v f)"
proof -
  obtain w where "map_of (own_props v) (js f) = Some (Data True w)" "fld v f = w"
    using exact_fields_defined [OF assms(1,3)] by blast
  moreover have "is_object_record v" using assms(1) by (simp add: exact_fields_Inr)
  moreover have "distinct (own_names v)" using jval_wf_own_names [OF assms(2)] calculation(3) by blast
  ultimately show ?thesis using field_freeze_copy [of v "js f" w] assms(4) by (simp add: fld_def proto_name_def)
qed

lemma freeze_copy_jlit [simp]: "freeze_copy (jlit s) = jlit s" "freeze_copy (jint n) = jint n"
  "freeze_copy (JStr t) = JStr t" "freeze_copy JNull = JNull"
  by (simp_all add: jlit_def jint_def)

end
