(* ===== verification/Registry.thy ===== *)
theory Registry
  imports OriginGuards
begin

section \<open>The client registry of origin-app/registry.mjs\<close>

text \<open>
  The compiled policy (operations, reviewed clients, signing rows), the projection the release
  ships (relay/config/client-registry.v1.json), its validation and the lookup of a binding. The
  \<open>URL\<close> parser and SHA-256 of Web Crypto are parameters.
\<close>

subsection \<open>The compiled tables\<close>

record operation_policy =
  policy_audience :: jval
  policy_row :: jval
  policy_activation :: jval
  policy_service :: jval

definition OPERATION_POLICY :: "(string \<times> operation_policy) list" where
  "OPERATION_POLICY =
     [(''sdn.auth.publish-request.v1'', \<lparr>policy_audience = JNull, policy_row = jlit ''spaceaware-publish-request-v1'',
         policy_activation = JNull, policy_service = JNull\<rparr>),
      (''sdn.wallet.account.v1'', \<lparr>policy_audience = JNull, policy_row = JNull,
         policy_activation = JNull, policy_service = JNull\<rparr>),
      (''sdn.wallet.connect.v1'', \<lparr>policy_audience = JNull, policy_row = JNull,
         policy_activation = JNull, policy_service = JNull\<rparr>),
      (''sdn.wallet.field-open.v1'', \<lparr>policy_audience = jlit ''sdn-field-encryption/v1|flatbuffers'', policy_row = jlit ''flatbuffers-field-open-v1'',
         policy_activation = JNull, policy_service = JNull\<rparr>),
      (''sdn.wallet.key-unwrap.v1'', \<lparr>policy_audience = jlit ''sdn-field-encryption/v1|flatsql'', policy_row = jlit ''flatsql-key-unwrap-v1'',
         policy_activation = JNull, policy_service = JNull\<rparr>),
      (''sdn.auth.raw-challenge.v1'', \<lparr>policy_audience = jlit ''sdn-login:sdn.spaceaware.io'', policy_row = JNull,
         policy_activation = JNull, policy_service = JNull\<rparr>),
      (''sdn.auth.jcs-envelope.v2'', \<lparr>policy_audience = jlit ''sdn-login:sdn.spaceaware.io'', policy_row = jlit ''sdn-node-console-v2'',
         policy_activation = JNull, policy_service = JNull\<rparr>),
      (''sdn.asset-review.authority-activation.v1'', \<lparr>policy_audience = jlit ''asset-review-authority:assets.ipfs.01'', policy_row = jlit ''asset-review-authority-activation-v1'',
         policy_activation = jlit ''unactivated'', policy_service = jlit ''assets.ipfs.01/asset-review-attestation''\<rparr>),
      (''sdn.asset-review.decision.v1'', \<lparr>policy_audience = jlit ''asset-review:assets.ipfs.01'', policy_row = jlit ''asset-review-decision-v1'',
         policy_activation = jlit ''activated'', policy_service = JNull\<rparr>)]"

definition PUBLIC_OPERATIONS :: "string list" where
  "PUBLIC_OPERATIONS = [''sdn.wallet.account.v1'', ''sdn.wallet.connect.v1'']"

definition SDN_OPERATIONS :: "string list" where
  "SDN_OPERATIONS = [''sdn.auth.jcs-envelope.v2'', ''sdn.auth.raw-challenge.v1''] @ PUBLIC_OPERATIONS"

definition PUBLISH_OPERATIONS :: "string list" where
  "PUBLISH_OPERATIONS = [''sdn.auth.publish-request.v1''] @ PUBLIC_OPERATIONS"

definition FLATBUFFERS_OPERATIONS :: "string list" where
  "FLATBUFFERS_OPERATIONS = PUBLIC_OPERATIONS @ [''sdn.wallet.field-open.v1'']"

definition FLATSQL_OPERATIONS :: "string list" where
  "FLATSQL_OPERATIONS = PUBLIC_OPERATIONS @ [''sdn.wallet.key-unwrap.v1'']"

definition REVIEW_OPERATIONS :: "string list" where
  "REVIEW_OPERATIONS = [''sdn.asset-review.authority-activation.v1'', ''sdn.asset-review.decision.v1''] @ PUBLIC_OPERATIONS"

record reviewed_client =
  row_id :: string
  row_name :: string
  row_origin :: string
  row_callback :: string
  row_operations :: "string list"

definition client_row :: "string \<Rightarrow> string \<Rightarrow> string \<Rightarrow> string \<Rightarrow> string list \<Rightarrow> reviewed_client" where
  "client_row i n o' c ops = \<lparr>row_id = i, row_name = n, row_origin = o', row_callback = c, row_operations = ops\<rparr>"

definition EXPECTED_CLIENTS :: "reviewed_client list" where
  "EXPECTED_CLIENTS =
     [client_row ''sdn-landing-web-v1'' ''Space Data Network'' ''https://spacedatanetwork.org''
        ''https://spacedatanetwork.org/wallet-callback.html'' PUBLIC_OPERATIONS,
      client_row ''sdn-standards-web-v1'' ''Space Data Standards'' ''https://spacedatastandards.org''
        ''https://spacedatastandards.org/wallet-callback.html'' PUBLIC_OPERATIONS,
      client_row ''sdn-flatbuffers-pages-v1'' ''FlatBuffers Documentation'' ''https://flatbuffers.spacedatanetwork.org''
        ''https://flatbuffers.spacedatanetwork.org/wallet-callback.html'' FLATBUFFERS_OPERATIONS,
      client_row ''sdn-flatsql-pages-v1'' ''FlatSQL Documentation'' ''https://flatsql.spacedatanetwork.org''
        ''https://flatsql.spacedatanetwork.org/wallet-callback.html'' FLATSQL_OPERATIONS,
      client_row ''sdn-module-sdk-pages-v1'' ''Space Data Module SDK'' ''https://module-sdk.spacedatanetwork.org''
        ''https://module-sdk.spacedatanetwork.org/wallet-callback.html'' PUBLIC_OPERATIONS,
      client_row ''spaceaware-web-v1'' ''SpaceAware'' ''https://spaceaware.io''
        ''https://spaceaware.io/wallet/callback'' PUBLISH_OPERATIONS,
      client_row ''sdn-node-console-v1'' ''SDN Node Console'' ''https://sdn.spaceaware.io''
        ''https://sdn.spaceaware.io/wallet/callback'' SDN_OPERATIONS,
      client_row ''digitalarsenal-pages-v1'' ''DigitalArsenal GitHub Pages'' ''https://digitalarsenal.github.io''
        ''https://digitalarsenal.github.io/hd-wallet-wasm/wallet-callback.html'' PUBLIC_OPERATIONS,
      client_row ''sdn-asset-models-pages-v1'' ''SDN Asset Models'' ''https://asset-models.spacedatanetwork.org''
        ''https://asset-models.spacedatanetwork.org/wallet-callback.html'' PUBLIC_OPERATIONS,
      client_row ''sdn-asset-review-v1'' ''SDN Asset Review'' ''https://review.spacedatanetwork.org''
        ''https://review.spacedatanetwork.org/wallet/callback'' REVIEW_OPERATIONS]"

definition signing_row :: "jval \<Rightarrow> string \<Rightarrow> string \<Rightarrow> string \<Rightarrow> string \<Rightarrow> jval \<Rightarrow> jval \<Rightarrow> jval" where
  "signing_row audience client operation origin row activation service = jobj
     [(js ''audience'', audience), (js ''clientId'', jlit client), (js ''maxLifetimeSeconds'', jint 300),
      (js ''operation'', jlit operation), (js ''requestOrigin'', jlit origin), (js ''registryRow'', jlit row),
      (js ''serviceActivationState'', activation), (js ''serviceInstance'', service)]"

definition COMPILED_SIGNING_ROWS :: "jval list" where
  "COMPILED_SIGNING_ROWS =
     [signing_row (JNull) ''spaceaware-web-v1'' ''sdn.auth.publish-request.v1'' ''https://spaceaware.io'' ''spaceaware-publish-request-v1''
        (JNull) (JNull),
      signing_row (jlit ''sdn-login:sdn.spaceaware.io'') ''sdn-node-console-v1'' ''sdn.auth.jcs-envelope.v2'' ''https://sdn.spaceaware.io'' ''sdn-node-console-v2''
        (JNull) (JNull),
      signing_row (jlit ''asset-review-authority:assets.ipfs.01'') ''sdn-asset-review-v1'' ''sdn.asset-review.authority-activation.v1'' ''https://review.spacedatanetwork.org'' ''asset-review-authority-activation-v1''
        (jlit ''unactivated'') (jlit ''assets.ipfs.01/asset-review-attestation''),
      signing_row (jlit ''asset-review:assets.ipfs.01'') ''sdn-asset-review-v1'' ''sdn.asset-review.decision.v1'' ''https://review.spacedatanetwork.org'' ''asset-review-decision-v1''
        (jlit ''activated'') (JNull),
      signing_row (jlit ''sdn-field-encryption/v1|flatbuffers'') ''sdn-flatbuffers-pages-v1'' ''sdn.wallet.field-open.v1'' ''https://flatbuffers.spacedatanetwork.org'' ''flatbuffers-field-open-v1''
        (JNull) (JNull),
      signing_row (jlit ''sdn-field-encryption/v1|flatsql'') ''sdn-flatsql-pages-v1'' ''sdn.wallet.key-unwrap.v1'' ''https://flatsql.spacedatanetwork.org'' ''flatsql-key-unwrap-v1''
        (JNull) (JNull)]"

subsection \<open>The shipped projection\<close>

definition source_binding :: "jval \<Rightarrow> string \<Rightarrow> jval \<Rightarrow> jval \<Rightarrow> jval \<Rightarrow> jval" where
  "source_binding audience operation row activation service = jobj
     [(js ''audience'', audience), (js ''maxLifetimeSeconds'', jint 300), (js ''operation'', jlit operation),
      (js ''registryRow'', row), (js ''serviceActivationState'', activation), (js ''serviceInstance'', service)]"

definition source_client :: "string list \<Rightarrow> string list \<Rightarrow> string \<Rightarrow> string \<Rightarrow> string \<Rightarrow> jval list \<Rightarrow> string \<Rightarrow> jval" where
  "source_client operations audiences callback name client bindings origin = jobj
     [(js ''allowedOperations'', jarr (map jlit operations)), (js ''audiences'', jarr (map jlit audiences)),
      (js ''callbackUri'', jlit callback), (js ''clientDisplayName'', jlit name), (js ''clientId'', jlit client),
      (js ''operationBindings'', jarr bindings), (js ''requestOrigin'', jlit origin)]"

definition source_clients :: "jval list" where
  "source_clients =
     [source_client [''sdn.wallet.account.v1'', ''sdn.wallet.connect.v1'']
        [] ''https://spacedatanetwork.org/wallet-callback.html'' ''Space Data Network''
        ''sdn-landing-web-v1''
        [source_binding (JNull) ''sdn.wallet.account.v1'' (JNull)
           (JNull) (JNull),
         source_binding (JNull) ''sdn.wallet.connect.v1'' (JNull)
           (JNull) (JNull)]
        ''https://spacedatanetwork.org'',
      source_client [''sdn.wallet.account.v1'', ''sdn.wallet.connect.v1'']
        [] ''https://spacedatastandards.org/wallet-callback.html'' ''Space Data Standards''
        ''sdn-standards-web-v1''
        [source_binding (JNull) ''sdn.wallet.account.v1'' (JNull)
           (JNull) (JNull),
         source_binding (JNull) ''sdn.wallet.connect.v1'' (JNull)
           (JNull) (JNull)]
        ''https://spacedatastandards.org'',
      source_client [''sdn.wallet.account.v1'', ''sdn.wallet.connect.v1'', ''sdn.wallet.field-open.v1'']
        [''sdn-field-encryption/v1|flatbuffers''] ''https://flatbuffers.spacedatanetwork.org/wallet-callback.html'' ''FlatBuffers Documentation''
        ''sdn-flatbuffers-pages-v1''
        [source_binding (JNull) ''sdn.wallet.account.v1'' (JNull)
           (JNull) (JNull),
         source_binding (JNull) ''sdn.wallet.connect.v1'' (JNull)
           (JNull) (JNull),
         source_binding (jlit ''sdn-field-encryption/v1|flatbuffers'') ''sdn.wallet.field-open.v1'' (jlit ''flatbuffers-field-open-v1'')
           (JNull) (JNull)]
        ''https://flatbuffers.spacedatanetwork.org'',
      source_client [''sdn.wallet.account.v1'', ''sdn.wallet.connect.v1'', ''sdn.wallet.key-unwrap.v1'']
        [''sdn-field-encryption/v1|flatsql''] ''https://flatsql.spacedatanetwork.org/wallet-callback.html'' ''FlatSQL Documentation''
        ''sdn-flatsql-pages-v1''
        [source_binding (JNull) ''sdn.wallet.account.v1'' (JNull)
           (JNull) (JNull),
         source_binding (JNull) ''sdn.wallet.connect.v1'' (JNull)
           (JNull) (JNull),
         source_binding (jlit ''sdn-field-encryption/v1|flatsql'') ''sdn.wallet.key-unwrap.v1'' (jlit ''flatsql-key-unwrap-v1'')
           (JNull) (JNull)]
        ''https://flatsql.spacedatanetwork.org'',
      source_client [''sdn.wallet.account.v1'', ''sdn.wallet.connect.v1'']
        [] ''https://module-sdk.spacedatanetwork.org/wallet-callback.html'' ''Space Data Module SDK''
        ''sdn-module-sdk-pages-v1''
        [source_binding (JNull) ''sdn.wallet.account.v1'' (JNull)
           (JNull) (JNull),
         source_binding (JNull) ''sdn.wallet.connect.v1'' (JNull)
           (JNull) (JNull)]
        ''https://module-sdk.spacedatanetwork.org'',
      source_client [''sdn.auth.publish-request.v1'', ''sdn.wallet.account.v1'', ''sdn.wallet.connect.v1'']
        [] ''https://spaceaware.io/wallet/callback'' ''SpaceAware''
        ''spaceaware-web-v1''
        [source_binding (JNull) ''sdn.auth.publish-request.v1'' (jlit ''spaceaware-publish-request-v1'')
           (JNull) (JNull),
         source_binding (JNull) ''sdn.wallet.account.v1'' (JNull)
           (JNull) (JNull),
         source_binding (JNull) ''sdn.wallet.connect.v1'' (JNull)
           (JNull) (JNull)]
        ''https://spaceaware.io'',
      source_client [''sdn.auth.jcs-envelope.v2'', ''sdn.auth.raw-challenge.v1'', ''sdn.wallet.account.v1'', ''sdn.wallet.connect.v1'']
        [''sdn-login:sdn.spaceaware.io''] ''https://sdn.spaceaware.io/wallet/callback'' ''SDN Node Console''
        ''sdn-node-console-v1''
        [source_binding (jlit ''sdn-login:sdn.spaceaware.io'') ''sdn.auth.jcs-envelope.v2'' (jlit ''sdn-node-console-v2'')
           (JNull) (JNull),
         source_binding (jlit ''sdn-login:sdn.spaceaware.io'') ''sdn.auth.raw-challenge.v1'' (JNull)
           (JNull) (JNull),
         source_binding (JNull) ''sdn.wallet.account.v1'' (JNull)
           (JNull) (JNull),
         source_binding (JNull) ''sdn.wallet.connect.v1'' (JNull)
           (JNull) (JNull)]
        ''https://sdn.spaceaware.io'',
      source_client [''sdn.wallet.account.v1'', ''sdn.wallet.connect.v1'']
        [] ''https://digitalarsenal.github.io/hd-wallet-wasm/wallet-callback.html'' ''DigitalArsenal GitHub Pages''
        ''digitalarsenal-pages-v1''
        [source_binding (JNull) ''sdn.wallet.account.v1'' (JNull)
           (JNull) (JNull),
         source_binding (JNull) ''sdn.wallet.connect.v1'' (JNull)
           (JNull) (JNull)]
        ''https://digitalarsenal.github.io'',
      source_client [''sdn.wallet.account.v1'', ''sdn.wallet.connect.v1'']
        [] ''https://asset-models.spacedatanetwork.org/wallet-callback.html'' ''SDN Asset Models''
        ''sdn-asset-models-pages-v1''
        [source_binding (JNull) ''sdn.wallet.account.v1'' (JNull)
           (JNull) (JNull),
         source_binding (JNull) ''sdn.wallet.connect.v1'' (JNull)
           (JNull) (JNull)]
        ''https://asset-models.spacedatanetwork.org'',
      source_client [''sdn.asset-review.authority-activation.v1'', ''sdn.asset-review.decision.v1'', ''sdn.wallet.account.v1'', ''sdn.wallet.connect.v1'']
        [''asset-review-authority:assets.ipfs.01'', ''asset-review:assets.ipfs.01''] ''https://review.spacedatanetwork.org/wallet/callback'' ''SDN Asset Review''
        ''sdn-asset-review-v1''
        [source_binding (jlit ''asset-review-authority:assets.ipfs.01'') ''sdn.asset-review.authority-activation.v1'' (jlit ''asset-review-authority-activation-v1'')
           (jlit ''unactivated'') (jlit ''assets.ipfs.01/asset-review-attestation''),
         source_binding (jlit ''asset-review:assets.ipfs.01'') ''sdn.asset-review.decision.v1'' (jlit ''asset-review-decision-v1'')
           (jlit ''activated'') (JNull),
         source_binding (JNull) ''sdn.wallet.account.v1'' (JNull)
           (JNull) (JNull),
         source_binding (JNull) ''sdn.wallet.connect.v1'' (JNull)
           (JNull) (JNull)]
        ''https://review.spacedatanetwork.org'']"

definition source_release :: string where
  "source_release = ''f5f7e3eab42bbb12bd85d95289e0a8006941ceb8505f6dc1cde12a38f4a79a63''"

definition unsigned_registry :: jval where
  \<comment> \<open>\<open>const { registryReleaseSha256, ...unsignedRegistry } = registrySource\<close>\<close>
  "unsigned_registry = jobj [(js ''clients'', jarr source_clients), (js ''schemaVersion'', jint 1)]"

definition registry_source :: jval where
  "registry_source = jobj
     [(js ''clients'', jarr source_clients), (js ''registryReleaseSha256'', jlit source_release),
      (js ''schemaVersion'', jint 1)]"

subsection \<open>URLs\<close>

definition exact_https :: "jval \<Rightarrow> bool" where
  "exact_https v \<longleftrightarrow> is_str v \<and> starts_with (js ''https://'') (str_of v) \<and> 42 \<notin> set (str_of v)"

definition validate_https_origin :: "wire_host \<Rightarrow> jval \<Rightarrow> string \<Rightarrow> unit result" where
  "validate_https_origin H v label = checks
     [ensure (exact_https v) (fail_with (label @ '' must be exact HTTPS'')),
      (case new_url H (str_of v) of
         None \<Rightarrow> Inl (fail_with (label @ '' must be a valid URL''))
       | Some u \<Rightarrow> ensure (url_protocol u = js ''https:'' \<and> url_username u = [] \<and> url_password u = [] \<and> url_port u = []
             \<and> url_origin u = str_of v \<and> url_pathname u = js ''/'' \<and> url_search u = [] \<and> url_hash u = [])
           (fail_with (label @ '' must be an exact HTTPS origin'')))]
     (Inr ())"

definition validate_https_callback :: "wire_host \<Rightarrow> jval \<Rightarrow> jval \<Rightarrow> unit result" where
  "validate_https_callback H v origin = checks
     [ensure (exact_https v) (fail_with ''callbackUri must be exact HTTPS''),
      (case new_url H (str_of v) of
         None \<Rightarrow> Inl (fail_with ''callbackUri must be a valid URL'')
       | Some u \<Rightarrow> ensure (url_protocol u = js ''https:'' \<and> url_username u = [] \<and> url_password u = [] \<and> url_port u = []
             \<and> JStr (url_origin u) = origin \<and> url_search u = [] \<and> url_hash u = [] \<and> url_href u = str_of v)
           (fail_with ''callbackUri must be exact and same-origin''))]
     (Inr ())"

definition RELEASE_SHA256 :: "jstring \<Rightarrow> bool" where
  "RELEASE_SHA256 s = lower_hex 64 s"

definition CLIENT_ID :: "jstring \<Rightarrow> bool" where
  \<comment> \<open>\<open>/^[a-z0-9]+(?:-[a-z0-9]+)*$/\<close>\<close>
  "CLIENT_ID s \<longleftrightarrow> list_all (\<lambda>w. w \<noteq> [] \<and> list_all is_label_char w) (split_on 45 s)"

subsection \<open>Validation\<close>

definition same_json :: "jval \<Rightarrow> jval \<Rightarrow> js_error \<Rightarrow> unit result" where
  \<comment> \<open>\<open>if (canonicalJson(a) !== canonicalJson(b)) fail(...)\<close>\<close>
  "same_json a b e = rbind (registry_canonical_json a) (\<lambda>s. rbind (registry_canonical_json b) (\<lambda>t. ensure (s = t) e))"

definition BINDING_FIELDS :: "string list" where
  "BINDING_FIELDS = [''audience'', ''maxLifetimeSeconds'', ''operation'', ''registryRow'', ''serviceActivationState'',
     ''serviceInstance'']"

definition CLIENT_FIELDS :: "string list" where
  "CLIENT_FIELDS = [''allowedOperations'', ''audiences'', ''callbackUri'', ''clientDisplayName'', ''clientId'',
     ''operationBindings'', ''requestOrigin'']"

definition binding_key :: "jval \<Rightarrow> jval \<Rightarrow> jstring" where
  "binding_key client operation = str_of (fld client ''clientId'') @ [0] @ str_of (fld client ''requestOrigin'') @ [0]
     @ str_of (fld operation ''operation'')"

definition policy_matches :: "jval \<Rightarrow> operation_policy \<Rightarrow> bool" where
  "policy_matches operation policy \<longleftrightarrow> strict_eq (fld operation ''maxLifetimeSeconds'') (jint 300)
     \<and> strict_eq (fld operation ''audience'') (policy_audience policy)
     \<and> strict_eq (fld operation ''registryRow'') (policy_row policy)
     \<and> strict_eq (fld operation ''serviceActivationState'') (policy_activation policy)
     \<and> strict_eq (fld operation ''serviceInstance'') (policy_service policy)"

definition validate_binding :: "reviewed_client \<Rightarrow> jval \<Rightarrow> jstring set \<Rightarrow> nat \<Rightarrow> jval \<Rightarrow> jstring result" where
  "validate_binding r client seen i operation =
     rbind (exact_fields fail_with operation BINDING_FIELDS (index_label (row_id r @ '' operation '') i [])) (\<lambda>_.
     checks
       [ensure (i < length (row_operations r) \<and> strict_eq (fld operation ''operation'') (jlit (row_operations r ! i)))
          (fail_with (row_id r @ '' operation allowlist order or value changed'')),
        (case map_of OPERATION_POLICY (row_operations r ! i) of
           None \<Rightarrow> Inl (fail_with ''unknown registry operation'')
         | Some policy \<Rightarrow> ensure (policy_matches operation policy)
             (fail_with (row_id r @ '' operation policy differs from the reviewed binding''))),
        ensure (binding_key client operation \<notin> seen) (fail_with ''duplicate registry binding'')]
       (Inr (binding_key client operation)))"

fun validate_bindings :: "reviewed_client \<Rightarrow> jval \<Rightarrow> jstring set \<Rightarrow> nat \<Rightarrow> jval list \<Rightarrow> jstring set result" where
  "validate_bindings r client seen i [] = Inr seen"
| "validate_bindings r client seen i (b # bs) =
     rbind (validate_binding r client seen i b) (\<lambda>key. validate_bindings r client (insert key seen) (Suc i) bs)"

definition projected_audiences :: "jval list \<Rightarrow> jval" where
  \<comment> \<open>\<open>[...new Set(bindings.map(audience).filter(nonNull))].sort()\<close>\<close>
  "projected_audiences bindings = jarr (map JStr (sort_names (remdups
     (map str_of (filter (\<lambda>a. a \<noteq> JNull) (map (\<lambda>b. fld b ''audience'') bindings))))))"

definition validate_client ::
  "wire_host \<Rightarrow> reviewed_client \<Rightarrow> nat \<Rightarrow> jstring set \<times> jstring set \<Rightarrow> jval \<Rightarrow> (jstring set \<times> jstring set) result" where
  "validate_client H r i seen client =
     rbind (exact_fields fail_with client CLIENT_FIELDS (index_label ''client '' i [])) (\<lambda>_.
     let client_id = str_of (fld client ''clientId''); bindings = array_values (fld client ''operationBindings'') in
     checks
       [ensure (strict_eq (fld client ''clientId'') (jlit (row_id r))
            \<and> strict_eq (fld client ''clientDisplayName'') (jlit (row_name r))
            \<and> strict_eq (fld client ''requestOrigin'') (jlit (row_origin r))
            \<and> strict_eq (fld client ''callbackUri'') (jlit (row_callback r)))
          (fail_with (index_label ''client '' i '' differs from the reviewed row'')),
        ensure (CLIENT_ID client_id \<and> client_id \<notin> fst seen) (fail_with ''clientId must be unique and canonical''),
        ensure (is_str (fld client ''clientDisplayName'') \<and> 1 \<le> length (str_of (fld client ''clientDisplayName''))
            \<and> length (str_of (fld client ''clientDisplayName'')) \<le> 80) (fail_with ''clientDisplayName is invalid''),
        validate_https_origin H (fld client ''requestOrigin'') ''requestOrigin'',
        validate_https_callback H (fld client ''callbackUri'') (fld client ''requestOrigin''),
        (let e = fail_with (row_id r @ '' allowedOperations differ from the reviewed allowlist'') in
         if is_array (fld client ''allowedOperations'')
         then same_json (fld client ''allowedOperations'') (jarr (map jlit (row_operations r))) e else Inl e),
        ensure (is_array (fld client ''operationBindings'') \<and> length bindings = length (row_operations r))
          (fail_with (row_id r @ '' operationBindings differ from the reviewed allowlist''))]
       (rbind (validate_bindings r client (snd seen) 0 bindings) (\<lambda>seen_bindings.
        checks
          [(let e = fail_with (row_id r @ '' audiences differ from operationBindings'') in
            if is_array (fld client ''audiences'')
            then same_json (fld client ''audiences'') (projected_audiences bindings) e else Inl e),
           same_json (fld client ''allowedOperations'') (jarr (map (\<lambda>b. fld b ''operation'') bindings))
             (fail_with (row_id r @ '' allowedOperations differ from operationBindings''))]
          (Inr (insert client_id (fst seen), seen_bindings)))))"

fun validate_clients ::
  "wire_host \<Rightarrow> nat \<Rightarrow> jstring set \<times> jstring set \<Rightarrow> reviewed_client list \<Rightarrow> jval list \<Rightarrow> unit result" where
  "validate_clients H i seen (r # rs) (c # cs) =
     rbind (validate_client H r i seen c) (\<lambda>seen'. validate_clients H (Suc i) seen' rs cs)"
| "validate_clients H i seen rs cs = Inr ()"

subsection \<open>Lookups\<close>

definition find_client :: "jval \<Rightarrow> jval \<Rightarrow> jval \<Rightarrow> jval option" where
  "find_client registry client_id origin = find
     (\<lambda>c. strict_eq (fld c ''clientId'') client_id \<and> strict_eq (fld c ''requestOrigin'') origin)
     (array_values (fld registry ''clients''))"

definition find_operation :: "jval \<Rightarrow> jval \<Rightarrow> jval option" where
  "find_operation client operation = find (\<lambda>b. strict_eq (fld b ''operation'') operation)
     (array_values (fld client ''operationBindings''))"

definition actual_row :: "jval \<Rightarrow> jval \<Rightarrow> jval" where
  "actual_row client operation = jobj
     [(js ''audience'', fld operation ''audience''), (js ''clientId'', fld client ''clientId''),
      (js ''maxLifetimeSeconds'', fld operation ''maxLifetimeSeconds''),
      (js ''operation'', fld operation ''operation''), (js ''requestOrigin'', fld client ''requestOrigin''),
      (js ''registryRow'', fld operation ''registryRow''),
      (js ''serviceActivationState'', fld operation ''serviceActivationState''),
      (js ''serviceInstance'', fld operation ''serviceInstance'')]"

definition check_signing_row :: "jval \<Rightarrow> jval \<Rightarrow> unit result" where
  "check_signing_row registry expected =
     (let e = Type_Error (js ''registry projection drifted from compiled row '' @ str_of (fld expected ''registryRow'')) in
      case find_client registry (fld expected ''clientId'') (fld expected ''requestOrigin'') of
        None \<Rightarrow> Inl e
      | Some client \<Rightarrow> (case find_operation client (fld expected ''operation'') of
          None \<Rightarrow> Inl e
        | Some operation \<Rightarrow> same_json (actual_row client operation) expected e))"

definition validate_registry :: "wire_host \<Rightarrow> jval \<Rightarrow> jval result" where
  "validate_registry H value =
     rbind (exact_fields fail_with value [''clients'', ''registryReleaseSha256'', ''schemaVersion''] ''registry'') (\<lambda>_.
     checks
       [ensure (strict_eq (fld value ''schemaVersion'') (jint 1)) (fail_with ''registry schemaVersion must be 1''),
        ensure (is_str (fld value ''registryReleaseSha256'') \<and> RELEASE_SHA256 (str_of (fld value ''registryReleaseSha256'')))
          (fail_with ''registryReleaseSha256 must be lowercase SHA-256''),
        ensure (is_array (fld value ''clients'') \<and> length (array_slots (fld value ''clients'')) = length EXPECTED_CLIENTS)
          (fail_with ''registry must contain exactly the reviewed clients''),
        validate_clients H 0 ({}, {}) EXPECTED_CLIENTS (array_values (fld value ''clients''))]
       (checks (map (check_signing_row value) COMPILED_SIGNING_ROWS) (Inr (freeze_copy value))))"

subsection \<open>The module\<close>

definition sha256_hex :: "(byte list \<Rightarrow> byte list) \<Rightarrow> jstring \<Rightarrow> jstring" where
  \<comment> \<open>\<open>subtle.digest('SHA-256', ...)\<close> is a parameter\<close>
  "sha256_hex digest text = concat (map (\<lambda>b. [hex_digit (unat b div 16), hex_digit (unat b mod 16)]) (digest (utf8_encode text)))"

definition load_registry :: "wire_host \<Rightarrow> (byte list \<Rightarrow> byte list) \<Rightarrow> jval result" where
  \<comment> \<open>the module's top level: the release digest, then the validation\<close>
  "load_registry H digest =
     rbind (registry_canonical_json unsigned_registry) (\<lambda>text.
     checks [ensure (sha256_hex digest text = js source_release) (fail_with ''registry release SHA-256 mismatch'')]
       (validate_registry H registry_source))"

definition verify_registry :: "jval \<Rightarrow> jval" where
  "verify_registry registry = freeze_copy registry"

definition resolved_binding :: "jval \<Rightarrow> jval \<Rightarrow> jval \<Rightarrow> jval" where
  "resolved_binding registry client operation = jobj
     [(js ''audience'', fld operation ''audience''), (js ''callbackUri'', fld client ''callbackUri''),
      (js ''clientDisplayName'', fld client ''clientDisplayName''), (js ''clientId'', fld client ''clientId''),
      (js ''maxLifetimeSeconds'', fld operation ''maxLifetimeSeconds''),
      (js ''operation'', fld operation ''operation''), (js ''requestOrigin'', fld client ''requestOrigin''),
      (js ''registryReleaseSha256'', fld registry ''registryReleaseSha256''),
      (js ''registryRow'', fld operation ''registryRow''),
      (js ''serviceActivationState'', fld operation ''serviceActivationState''),
      (js ''serviceInstance'', fld operation ''serviceInstance'')]"

definition resolve_registry_binding :: "jval \<Rightarrow> jval \<Rightarrow> jval result" where
  "resolve_registry_binding registry input =
     rbind (exact_fields fail_with input [''clientId'', ''operation'', ''requestOrigin''] ''registry lookup'') (\<lambda>value.
     checks
       [ensure (is_str (fld value ''clientId'') \<and> is_str (fld value ''requestOrigin'') \<and> is_str (fld value ''operation''))
          (fail_with ''registry lookup fields must be strings'')]
       (case find_client registry (fld value ''clientId'') (fld value ''requestOrigin'') of
          None \<Rightarrow> Inl (fail_with ''no exact registry binding exists'')
        | Some client \<Rightarrow> (case find_operation client (fld value ''operation'') of
            None \<Rightarrow> Inl (fail_with ''no exact registry binding exists'')
          | Some operation \<Rightarrow> Inr (freeze_copy (resolved_binding registry client operation)))))"

end
