(* ===== verification/RegistryFacts.thy ===== *)
theory RegistryFacts
  imports Registry
begin

section \<open>What an accepted registry resolves to\<close>

text \<open>
  A registry that passes validation agrees with the compiled tables client by client and binding by
  binding, its frozen copy too, so a lookup returns exactly one reviewed row. The registry the
  release ships passes.
\<close>

subsection \<open>Copies\<close>

lemma fld_freeze_jobj:
  assumes "distinct (map fst kvs)" "proto_name \<notin> fst ` set kvs"
  shows "fld (freeze_copy (jobj kvs)) f = (case map_of kvs (js f) of None \<Rightarrow> JUndefined | Some v \<Rightarrow> freeze_copy v)"
proof -
  let ?kvs = "map (\<lambda>(k, v). (k, freeze_copy v)) kvs"
  have p: "map_of (map (\<lambda>(k, v). (k, jdata v)) kvs) proto_name = None"
    using assms(2) by (force simp: map_of_eq_None_iff)
  have s: "sort_key fst (map (\<lambda>(k, v). (k, jdata (freeze_copy v))) kvs) = map (\<lambda>(k, v). (k, jdata v)) (sort_key fst ?kvs)"
  proof -
    have "map (\<lambda>(k, v). (k, jdata v)) (insort_key fst x xs) = insort_key fst (fst x, jdata (snd x)) (map (\<lambda>(k, v). (k, jdata v)) xs)"
      for x :: "jstring \<times> jval" and xs by (induction xs) (auto simp: case_prod_beta)
    then show ?thesis by (induction kvs) auto
  qed
  have "freeze_copy (jobj kvs) = jobj (sort_key fst ?kvs)"
    using assms(2) s by (simp add: jobj_def freeze_props_map assigned_proto_def p)
  moreover have "distinct (map fst ?kvs)" using assms(1) by (simp add: case_prod_unfold comp_def)
  moreover have "map_of ?kvs k = map_option freeze_copy (map_of kvs k)" for k by (induction kvs) auto
  ultimately show ?thesis by (simp add: fld_def field_jobj map_of_sort_key split: option.splits)
qed

lemma array_values_freeze_copy: "is_array v \<Longrightarrow> array_values (freeze_copy v) = map freeze_copy (array_values v)"
proof -
  assume "is_array v"
  then obtain p xs ps n where v: "v = JArr p xs ps n" by (auto simp: is_array_def split: jval.splits)
  have "map (\<lambda>s. case s of None \<Rightarrow> JUndefined | Some p \<Rightarrow> prop_value p) (freeze_slots xs)
      = map (\<lambda>s. freeze_copy (case s of None \<Rightarrow> JUndefined | Some p \<Rightarrow> prop_value p)) xs"
  proof (induction xs)
    case (Cons x xs)
    then show ?case by (cases x; cases "the x") (auto simp: prop_value_def jdata_def)
  qed simp
  then show ?thesis by (simp add: v array_values_def array_slots_def comp_def)
qed

lemma jval_wf_props: "jval_wf v \<Longrightarrow> is_object_record v \<Longrightarrow> (k, Data e w) \<in> set (own_props v) \<Longrightarrow> jval_wf w"
  by (cases v) (auto simp: is_object_record_def own_props_def list_all_iff)

lemma jval_wf_fld: "jval_wf v \<Longrightarrow> is_object_record v \<Longrightarrow> jval_wf (fld v f)"
  by (auto simp: fld_def field_def prop_value_def split: option.splits jprop.splits dest!: map_of_SomeD dest: jval_wf_props)

lemma jval_wf_array_values: "jval_wf v \<Longrightarrow> list_all jval_wf (array_values v)"
  by (cases v) (auto simp: array_values_def array_slots_def list_all_iff prop_value_def split: option.splits jprop.splits)

subsection \<open>Agreement with the tables\<close>

definition binding_ok :: "string \<Rightarrow> jval \<Rightarrow> bool" where
  "binding_ok operation b \<longleftrightarrow> fld b ''operation'' = jlit operation \<and> fld b ''maxLifetimeSeconds'' = jint 300
     \<and> (\<exists>policy. map_of OPERATION_POLICY operation = Some policy \<and> fld b ''audience'' = policy_audience policy
          \<and> fld b ''registryRow'' = policy_row policy \<and> fld b ''serviceActivationState'' = policy_activation policy
          \<and> fld b ''serviceInstance'' = policy_service policy)"

definition client_ok :: "reviewed_client \<Rightarrow> jval \<Rightarrow> bool" where
  "client_ok r c \<longleftrightarrow> fld c ''clientId'' = jlit (row_id r) \<and> fld c ''clientDisplayName'' = jlit (row_name r)
     \<and> fld c ''requestOrigin'' = jlit (row_origin r) \<and> fld c ''callbackUri'' = jlit (row_callback r)
     \<and> list_all2 binding_ok (row_operations r) (array_values (fld c ''operationBindings''))"

lemma policy_values:
  assumes "map_of OPERATION_POLICY operation = Some policy"
  shows "\<exists>a. policy_audience policy \<in> {JNull, jlit a}" "\<exists>a. policy_row policy \<in> {JNull, jlit a}"
    "\<exists>a. policy_activation policy \<in> {JNull, jlit a}" "\<exists>a. policy_service policy \<in> {JNull, jlit a}"
  using map_of_SomeD [OF assms] by (auto simp: OPERATION_POLICY_def)

lemma validate_binding_ok:
  assumes "validate_binding r client seen i b = Inr key"
  shows "i < length (row_operations r)" "binding_ok (row_operations r ! i) b"
    "exact_fields fail_with b BINDING_FIELDS (index_label (row_id r @ '' operation '') i []) = Inr b"
proof -
  from assms obtain policy where p: "i < length (row_operations r)" "fld b ''operation'' = jlit (row_operations r ! i)"
      "map_of OPERATION_POLICY (row_operations r ! i) = Some policy" "policy_matches b policy"
      "exact_fields fail_with b BINDING_FIELDS (index_label (row_id r @ '' operation '') i []) = Inr b"
    by (auto simp: validate_binding_def rbind_Inr_iff checks_Inr_iff exact_fields_Inr split: option.splits)
  then show "i < length (row_operations r)"
    "exact_fields fail_with b BINDING_FIELDS (index_label (row_id r @ '' operation '') i []) = Inr b" by blast+
  show "binding_ok (row_operations r ! i) b"
    using p(2-4) policy_values [OF p(3)] by (auto simp: binding_ok_def policy_matches_def)
qed

lemma validate_bindings_ok:
  "validate_bindings r client seen i bs = Inr s \<Longrightarrow> k < length bs \<Longrightarrow>
     i + k < length (row_operations r) \<and> binding_ok (row_operations r ! (i + k)) (bs ! k)
     \<and> (\<exists>l. exact_fields fail_with (bs ! k) BINDING_FIELDS l = Inr (bs ! k))"
proof (induction bs arbitrary: seen i k)
  case (Cons b bs)
  then obtain key where v: "validate_binding r client seen i b = Inr key"
    "validate_bindings r client (insert key seen) (Suc i) bs = Inr s" by (auto simp: rbind_Inr_iff)
  show ?case
  proof (cases k)
    case 0
    then show ?thesis using validate_binding_ok [OF v(1)] by auto
  next
    case (Suc m)
    with Cons.IH [OF v(2), of m] Cons.prems(2) show ?thesis by simp
  qed
qed simp

definition client_shape :: "reviewed_client \<Rightarrow> jval \<Rightarrow> bool" where
  \<comment> \<open>an accepted client, with the field lists its copy needs\<close>
  "client_shape r c \<longleftrightarrow> client_ok r c \<and> (\<exists>l. exact_fields fail_with c CLIENT_FIELDS l = Inr c)
     \<and> is_array (fld c ''operationBindings'')
     \<and> list_all (\<lambda>b. \<exists>l. exact_fields fail_with b BINDING_FIELDS l = Inr b) (array_values (fld c ''operationBindings''))"

lemma validate_client_shape:
  assumes "validate_client H r i seen c = Inr s"
  shows "client_shape r c"
proof -
  let ?bs = "array_values (fld c ''operationBindings'')"
  from assms obtain sb where c: "exact_fields fail_with c CLIENT_FIELDS (index_label ''client '' i []) = Inr c"
      "fld c ''clientId'' = jlit (row_id r)" "fld c ''clientDisplayName'' = jlit (row_name r)"
      "fld c ''requestOrigin'' = jlit (row_origin r)" "fld c ''callbackUri'' = jlit (row_callback r)"
      "is_array (fld c ''operationBindings'')" "length ?bs = length (row_operations r)"
      "validate_bindings r c (snd seen) 0 ?bs = Inr sb"
    unfolding validate_client_def Let_def by (auto simp: rbind_Inr_iff checks_Inr_iff exact_fields_Inr)
  have "list_all2 binding_ok (row_operations r) ?bs"
    using c(7) validate_bindings_ok [OF c(8)] by (simp add: list_all2_conv_all_nth)
  moreover have "list_all (\<lambda>b. \<exists>l. exact_fields fail_with b BINDING_FIELDS l = Inr b) ?bs"
    using validate_bindings_ok [OF c(8)] by (auto simp: list_all_length)
  ultimately show ?thesis using c by (auto simp: client_shape_def client_ok_def)
qed

lemma validate_clients_shape:
  "validate_clients H i seen rs cs = Inr u \<Longrightarrow> length rs = length cs \<Longrightarrow> list_all2 client_shape rs cs"
proof (induction H i seen rs cs rule: validate_clients.induct)
  case (1 H i seen r rs c cs)
  from "1.prems"(1) obtain s where s: "validate_client H r i seen c = Inr s" "validate_clients H (Suc i) s rs cs = Inr u"
    by (auto simp only: validate_clients.simps rbind_Inr_iff)
  have "list_all2 client_shape rs cs" using "1.IH" [OF s(2)] "1.prems"(2) by simp
  then show ?case using validate_client_shape [OF s(1)] by simp
qed auto

lemma binding_ok_copy:
  assumes b: "binding_ok e b" and x: "exact_fields fail_with b BINDING_FIELDS l = Inr b" and wf: "jval_wf b"
  shows "binding_ok e (freeze_copy b)"
proof -
  have f: "f \<in> set BINDING_FIELDS \<Longrightarrow> fld (freeze_copy b) f = freeze_copy (fld b f)" for f
    using fld_freeze_copy [OF x wf, of f] by (auto simp: BINDING_FIELDS_def)
  from b obtain policy where p: "map_of OPERATION_POLICY e = Some policy" "fld b ''audience'' = policy_audience policy"
      "fld b ''registryRow'' = policy_row policy" "fld b ''serviceActivationState'' = policy_activation policy"
      "fld b ''serviceInstance'' = policy_service policy"
      "fld b ''operation'' = jlit e" "fld b ''maxLifetimeSeconds'' = jint 300"
    by (auto simp: binding_ok_def)
  have c: "freeze_copy (policy_audience policy) = policy_audience policy" "freeze_copy (policy_row policy) = policy_row policy"
    "freeze_copy (policy_activation policy) = policy_activation policy" "freeze_copy (policy_service policy) = policy_service policy"
    using policy_values [OF p(1)] by auto
  show ?thesis
    unfolding binding_ok_def using p c by (auto simp: f BINDING_FIELDS_def)
qed

lemma client_ok_copy:
  assumes c: "client_shape r c" and wf: "jval_wf c"
  shows "client_ok r (freeze_copy c)"
proof -
  let ?bs = "fld c ''operationBindings''"
  from c obtain l where l: "exact_fields fail_with c CLIENT_FIELDS l = Inr c" by (auto simp: client_shape_def)
  have f: "f \<in> set CLIENT_FIELDS \<Longrightarrow> fld (freeze_copy c) f = freeze_copy (fld c f)" for f
    using fld_freeze_copy [OF l wf, of f] by (auto simp: CLIENT_FIELDS_def)
  have "jval_wf ?bs" using jval_wf_fld wf l by (simp add: exact_fields_Inr)
  then have bwf: "list_all jval_wf (array_values ?bs)" by (rule jval_wf_array_values)
  have "list_all2 binding_ok (row_operations r) (map freeze_copy (array_values ?bs))"
    using c bwf binding_ok_copy
    by (auto simp: client_shape_def client_ok_def list_all2_conv_all_nth list_all_length)
  then have "list_all2 binding_ok (row_operations r) (array_values (freeze_copy ?bs))"
    using c by (simp add: array_values_freeze_copy client_shape_def)
  moreover have "fld (freeze_copy c) ''operationBindings'' = freeze_copy ?bs" using f by (simp add: CLIENT_FIELDS_def)
  ultimately show ?thesis using c f by (simp add: client_shape_def client_ok_def CLIENT_FIELDS_def)
qed

lemma validate_registry_ok:
  assumes v: "validate_registry H v = Inr reg" and wf: "jval_wf v"
  shows "reg = freeze_copy v" "fld reg ''registryReleaseSha256'' = fld v ''registryReleaseSha256''"
    "list_all2 client_ok EXPECTED_CLIENTS (array_values (fld reg ''clients''))"
proof -
  let ?cs = "fld v ''clients''" and ?F = "[''clients'', ''registryReleaseSha256'', ''schemaVersion'']"
  from v obtain u where g: "exact_fields fail_with v ?F ''registry'' = Inr v" "is_array ?cs"
      "length (array_slots ?cs) = length EXPECTED_CLIENTS"
      "validate_clients H 0 ({}, {}) EXPECTED_CLIENTS (array_values ?cs) = Inr u"
      "is_str (fld v ''registryReleaseSha256'')"
    and reg: "reg = freeze_copy v"
    unfolding validate_registry_def by (auto simp: rbind_Inr_iff checks_Inr_iff exact_fields_Inr is_ok_iff)
  show "reg = freeze_copy v" by (fact reg)
  have f: "f \<in> set ?F \<Longrightarrow> fld reg f = freeze_copy (fld v f)" for f
    using fld_freeze_copy [OF g(1) wf, of f] reg by auto
  then show "fld reg ''registryReleaseSha256'' = fld v ''registryReleaseSha256''"
    using g(5) by (auto simp: is_str_def split: jval.splits)
  have sh: "list_all2 client_shape EXPECTED_CLIENTS (array_values ?cs)"
    using validate_clients_shape [OF g(4)] g(3) by (simp add: array_values_def)
  have "jval_wf ?cs" using jval_wf_fld wf g(1) by (simp add: exact_fields_Inr)
  then have "list_all jval_wf (array_values ?cs)" by (rule jval_wf_array_values)
  then have "list_all2 client_ok EXPECTED_CLIENTS (map freeze_copy (array_values ?cs))"
    using sh client_ok_copy by (auto simp: list_all2_conv_all_nth list_all_length)
  then show "list_all2 client_ok EXPECTED_CLIENTS (array_values (fld reg ''clients''))"
    using f g(2) by (simp add: array_values_freeze_copy)
qed

end
