(* ===== verification/RegistryProperties.thy ===== *)
theory RegistryProperties
  imports RegistryFacts
begin

section \<open>The registry: what ships passes, what resolves was reviewed\<close>

subsection \<open>The projection is the tables\<close>

definition projected_binding :: "string \<Rightarrow> jval" where
  "projected_binding operation = (case map_of OPERATION_POLICY operation of
       None \<Rightarrow> JUndefined
     | Some p \<Rightarrow> source_binding (policy_audience p) operation (policy_row p) (policy_activation p) (policy_service p))"

definition projected_client :: "reviewed_client \<Rightarrow> jval" where
  "projected_client r = (let bs = map projected_binding (row_operations r) in jobj
     [(js ''allowedOperations'', jarr (map jlit (row_operations r))), (js ''audiences'', projected_audiences bs),
      (js ''callbackUri'', jlit (row_callback r)), (js ''clientDisplayName'', jlit (row_name r)),
      (js ''clientId'', jlit (row_id r)), (js ''operationBindings'', jarr bs), (js ''requestOrigin'', jlit (row_origin r))])"

lemmas registry_tables = PUBLIC_OPERATIONS_def SDN_OPERATIONS_def PUBLISH_OPERATIONS_def FLATBUFFERS_OPERATIONS_def
  FLATSQL_OPERATIONS_def REVIEW_OPERATIONS_def client_row_def

lemma projected_bindings:
  "projected_binding ''sdn.wallet.account.v1'' = source_binding JNull ''sdn.wallet.account.v1'' JNull JNull JNull"
  "projected_binding ''sdn.wallet.connect.v1'' = source_binding JNull ''sdn.wallet.connect.v1'' JNull JNull JNull"
  "projected_binding ''sdn.auth.publish-request.v1'' = source_binding JNull ''sdn.auth.publish-request.v1''
     (jlit ''spaceaware-publish-request-v1'') JNull JNull"
  "projected_binding ''sdn.wallet.field-open.v1'' = source_binding (jlit ''sdn-field-encryption/v1|flatbuffers'')
     ''sdn.wallet.field-open.v1'' (jlit ''flatbuffers-field-open-v1'') JNull JNull"
  "projected_binding ''sdn.wallet.key-unwrap.v1'' = source_binding (jlit ''sdn-field-encryption/v1|flatsql'')
     ''sdn.wallet.key-unwrap.v1'' (jlit ''flatsql-key-unwrap-v1'') JNull JNull"
  "projected_binding ''sdn.auth.raw-challenge.v1'' = source_binding (jlit ''sdn-login:sdn.spaceaware.io'')
     ''sdn.auth.raw-challenge.v1'' JNull JNull JNull"
  "projected_binding ''sdn.auth.jcs-envelope.v2'' = source_binding (jlit ''sdn-login:sdn.spaceaware.io'')
     ''sdn.auth.jcs-envelope.v2'' (jlit ''sdn-node-console-v2'') JNull JNull"
  "projected_binding ''sdn.asset-review.authority-activation.v1'' = source_binding
     (jlit ''asset-review-authority:assets.ipfs.01'') ''sdn.asset-review.authority-activation.v1''
     (jlit ''asset-review-authority-activation-v1'') (jlit ''unactivated'') (jlit ''assets.ipfs.01/asset-review-attestation'')"
  "projected_binding ''sdn.asset-review.decision.v1'' = source_binding (jlit ''asset-review:assets.ipfs.01'')
     ''sdn.asset-review.decision.v1'' (jlit ''asset-review-decision-v1'') (jlit ''activated'') JNull"
  by (simp_all add: projected_binding_def OPERATION_POLICY_def)

lemma fld_source_binding:
  "fld (source_binding a o' r s i) ''audience'' = a" "fld (source_binding a o' r s i) ''operation'' = jlit o'"
  "fld (source_binding a o' r s i) ''maxLifetimeSeconds'' = jint 300" "fld (source_binding a o' r s i) ''registryRow'' = r"
  "fld (source_binding a o' r s i) ''serviceActivationState'' = s" "fld (source_binding a o' r s i) ''serviceInstance'' = i"
  by (simp_all add: source_binding_def fld_def field_jobj)

lemma source_clients_projected: "source_clients = map projected_client EXPECTED_CLIENTS"
proof -
  have n: "a \<noteq> JNull \<Longrightarrow> filter (\<lambda>a. a \<noteq> JNull) (a # xs) = a # filter (\<lambda>a. a \<noteq> JNull) xs" for a xs by simp
  have s: "sort_names [js ''asset-review-authority:assets.ipfs.01'', js ''asset-review:assets.ipfs.01'']
      = [js ''asset-review-authority:assets.ipfs.01'', js ''asset-review:assets.ipfs.01'']"
    by (simp add: sort_names_def js_def)
  have one: "sort_names [x] = [x]" "sort_names [] = []" for x by (simp_all add: sort_names_def)
  show ?thesis
    by (simp add: source_clients_def EXPECTED_CLIENTS_def registry_tables projected_client_def projected_bindings
        source_client_def projected_audiences_def fld_source_binding Let_def str_of_def jlit_def s one)
qed

lemma fld_projected_client:
  "fld (projected_client r) ''allowedOperations'' = jarr (map jlit (row_operations r))"
  "fld (projected_client r) ''audiences'' = projected_audiences (map projected_binding (row_operations r))"
  "fld (projected_client r) ''callbackUri'' = jlit (row_callback r)"
  "fld (projected_client r) ''clientDisplayName'' = jlit (row_name r)"
  "fld (projected_client r) ''clientId'' = jlit (row_id r)"
  "fld (projected_client r) ''operationBindings'' = jarr (map projected_binding (row_operations r))"
  "fld (projected_client r) ''requestOrigin'' = jlit (row_origin r)"
  by (simp_all add: projected_client_def fld_def field_jobj Let_def)

subsection \<open>Acceptance\<close>

definition https_parts :: "jstring \<Rightarrow> url_parts" where
  \<comment> \<open>the parts of \<open>https://host/path\<close> for a lower-case host name and a plain path\<close>
  "https_parts s = (let rest = drop 8 s; host = takeWhile (\<lambda>c. c \<noteq> 47) rest;
      path = (let p = dropWhile (\<lambda>c. c \<noteq> 47) rest in if p = [] then [47] else p) in
     \<lparr>url_protocol = js ''https:'', url_origin = js ''https://'' @ host, url_username = [], url_password = [], url_port = [],
      url_pathname = path, url_search = [], url_hash = [], url_hostname = host, url_host = host,
      url_href = js ''https://'' @ host @ path\<rparr>)"

definition parses_urls :: "wire_host \<Rightarrow> bool" where
  "parses_urls H \<longleftrightarrow> (\<forall>r\<in>set EXPECTED_CLIENTS. \<forall>s\<in>{row_origin r, row_callback r}.
     new_url H (js s) = Some (https_parts (js s)))"

lemma is_ok_mapM: "is_ok (mapM f xs) \<longleftrightarrow> (\<forall>x\<in>set xs. is_ok (f x))"
proof (induction xs)
  case (Cons x xs)
  have "is_ok (mapM f (x # xs)) \<longleftrightarrow> is_ok (f x) \<and> is_ok (mapM f xs)" by (cases "f x"; cases "mapM f xs") simp_all
  with Cons show ?case by simp
qed simp

lemma canonical_object_in:
  assumes "\<forall>(k, v)\<in>set kvs. is_ok (canonical_json d v)"
  shows "is_ok (canonical_json d (jobj kvs))"
proof -
  have "canonical_props d (map (\<lambda>(k, v). (k, jdata v)) kvs) = map (\<lambda>(k, v). (k, canonical_json d v)) kvs"
    by (induction kvs) (auto simp: jdata_def)
  moreover have "is_ok (mapM (\<lambda>(k, r). rbind r (\<lambda>t. Inr (member_text (k, t)))) (sort_key fst (map (\<lambda>(k, v). (k, canonical_json d v)) kvs)))"
    using assms by (auto simp: is_ok_mapM is_ok_rbind) (auto simp: is_ok_iff)
  ultimately show ?thesis
    by (simp add: jobj_def is_ok_rbind) (simp add: is_ok_iff)
qed

lemma canonical_array_in: "list_all (\<lambda>v. is_ok (canonical_json d v)) vs \<Longrightarrow> is_ok (canonical_json d (jarr vs))"
proof -
  assume "list_all (\<lambda>v. is_ok (canonical_json d v)) vs"
  then have "is_ok (canonical_slots d (map (\<lambda>v. Some (jdata v)) vs))"
    by (induction vs) (auto simp: jdata_def is_ok_rbind is_ok_iff)
  then show ?thesis by (auto simp: jarr_def is_ok_iff)
qed

lemma canonical_strings_in: "\<forall>s\<in>set ss. is_ok (canon_string d s) \<Longrightarrow> is_ok (canonical_json d (jarr (map JStr ss)))"
  by (rule canonical_array_in) (auto simp: list_all_iff is_ok_rbind is_ok_iff)

lemma canonical_scalars_in [simp]: "is_ok (canonical_json d JNull)" "is_ok (canonical_json d (JStr s)) = is_ok (canon_string d s)"
  "is_ok (canonical_json d (jlit t)) = is_ok (canon_string d (js t))" "is_ok (canonical_json d (jint n))"
  by (simp_all add: jlit_def jint_def num_is_finite_def is_ok_rbind) (simp_all add: is_ok_iff)

lemma canonical_lits_in: "\<forall>s\<in>set ss. is_ok (canon_string d (js s)) \<Longrightarrow> is_ok (canonical_json d (jarr (map jlit ss)))"
  by (rule canonical_array_in) (simp add: list_all_iff)

lemma registry_canon_string [simp]: "is_ok (canon_string registry_canon s)"
  by (simp add: registry_canon_def)

lemma same_json_refl: "is_ok (registry_canonical_json v) \<Longrightarrow> is_ok (same_json v v e)"
  by (auto simp: same_json_def is_ok_iff)

definition row_ready :: "reviewed_client \<Rightarrow> bool" where
  \<comment> \<open>what the reviewed table itself must satisfy\<close>
  "row_ready r \<longleftrightarrow> CLIENT_ID (js (row_id r)) \<and> row_name r \<noteq> [] \<and> length (row_name r) \<le> 80
     \<and> distinct (row_operations r) \<and> set (row_operations r) \<subseteq> fst ` set OPERATION_POLICY
     \<and> exact_https (jlit (row_origin r)) \<and> exact_https (jlit (row_callback r))
     \<and> (let u = https_parts (js (row_origin r)); c = https_parts (js (row_callback r)) in
          url_origin u = js (row_origin r) \<and> url_pathname u = js ''/'' \<and> url_origin c = js (row_origin r)
          \<and> url_href c = js (row_callback r))"

lemma policy_names: "map_of OPERATION_POLICY f \<noteq> None \<longleftrightarrow> f \<in> fst ` set OPERATION_POLICY"
  by (simp add: map_of_eq_None_iff)

lemma row_ready_table: "list_all row_ready EXPECTED_CLIENTS"
proof -
  have "list_all (\<lambda>r. distinct (row_operations r) \<and> set (row_operations r) \<subseteq> fst ` set OPERATION_POLICY) EXPECTED_CLIENTS"
    by (simp add: EXPECTED_CLIENTS_def registry_tables OPERATION_POLICY_def)
  moreover have "list_all (\<lambda>r. row_name r \<noteq> [] \<and> length (row_name r) \<le> 80) EXPECTED_CLIENTS"
    by (simp add: EXPECTED_CLIENTS_def client_row_def)
  moreover have "list_all (\<lambda>r. CLIENT_ID (js (row_id r))) EXPECTED_CLIENTS"
    by (simp add: EXPECTED_CLIENTS_def client_row_def CLIENT_ID_def js_def is_label_char_def)
  moreover have "list_all (\<lambda>r. exact_https (jlit (row_origin r)) \<and> exact_https (jlit (row_callback r))) EXPECTED_CLIENTS"
    by (simp add: EXPECTED_CLIENTS_def client_row_def exact_https_def jlit_def str_of_def is_str_def js_def starts_with_def)
  moreover have "list_all (\<lambda>r. let u = https_parts (js (row_origin r)); c = https_parts (js (row_callback r)) in
          url_origin u = js (row_origin r) \<and> url_pathname u = js ''/'' \<and> url_origin c = js (row_origin r)
          \<and> url_href c = js (row_callback r)) EXPECTED_CLIENTS"
    by (simp add: EXPECTED_CLIENTS_def client_row_def https_parts_def Let_def js_def)
  ultimately show ?thesis by (simp add: row_ready_def list_all_iff)
qed

definition key_of :: "reviewed_client \<Rightarrow> string \<Rightarrow> jstring" where
  "key_of r operation = js (row_id r) @ [0] @ js (row_origin r) @ [0] @ js operation"

lemma binding_accepted:
  assumes "i < length (row_operations r)" "row_ready r" "key_of r (row_operations r ! i) \<notin> seen"
  shows "validate_binding r (projected_client r) seen i (projected_binding (row_operations r ! i))
     = Inr (key_of r (row_operations r ! i))"
proof -
  let ?o = "row_operations r ! i"
  from assms have "?o \<in> fst ` set OPERATION_POLICY" by (auto simp: row_ready_def)
  then obtain p where p: "map_of OPERATION_POLICY ?o = Some p" using policy_names by auto
  then have b: "projected_binding ?o = source_binding (policy_audience p) ?o (policy_row p) (policy_activation p) (policy_service p)"
    by (simp add: projected_binding_def)
  have v: "policy_audience p \<noteq> JUndefined" "policy_row p \<noteq> JUndefined" "policy_activation p \<noteq> JUndefined"
    "policy_service p \<noteq> JUndefined" "strict_eq (policy_audience p) (policy_audience p)"
    "strict_eq (policy_row p) (policy_row p)" "strict_eq (policy_activation p) (policy_activation p)"
    "strict_eq (policy_service p) (policy_service p)"
    using policy_values [OF p] by auto
  have "exact_fields fail_with (projected_binding ?o) BINDING_FIELDS l = Inr (projected_binding ?o)" for l
    unfolding b source_binding_def by (rule exact_fields_jobj) (use v in \<open>auto simp: BINDING_FIELDS_def\<close>)
  then show ?thesis using assms p v
    by (simp add: validate_binding_def checks_Inr_iff policy_matches_def b fld_source_binding strict_eq_jint
        binding_key_def fld_projected_client key_of_def str_of_def jlit_def)
qed

lemma key_of_inj:
  assumes "key_of r a = key_of q b" "js (row_id r) \<noteq> js (row_id q) \<or> r = q" "row_ready r" "row_ready q"
  shows "r = q \<and> a = b"
proof -
  have id: "takeWhile (\<lambda>c. c \<noteq> 0) (key_of r a) = js (row_id r)" if "row_ready r" for r a
  proof -
    have "0 \<notin> set (js (row_id r))"
    proof
      assume z: "0 \<in> set (js (row_id r))"
      have m: "set s \<subseteq> insert d (\<Union> (set ` set (split_on d s)))" for d :: nat and s
        by (induction d s rule: split_on.induct) (fastforce split: list.splits if_splits)+
      have "\<forall>w\<in>set (split_on 45 (js (row_id r))). list_all is_label_char w"
        using that by (auto simp: row_ready_def CLIENT_ID_def list_all_iff)
      with z m [of "js (row_id r)" 45] have "is_label_char 0" by (auto simp: list_all_iff)
      then show False by (simp add: is_label_char_def)
    qed
    then show ?thesis unfolding key_of_def by (subst takeWhile_append2) (auto intro: gr0I)
  qed
  from id [OF assms(3), of a] id [OF assms(4), of b] assms(1,2) have "r = q" by metis
  with assms(1) show ?thesis by (simp add: key_of_def)
qed

lemma bindings_accepted:
  assumes "row_ready r" "i \<le> length (row_operations r)"
    "\<forall>j\<ge>i. j < length (row_operations r) \<longrightarrow> key_of r (row_operations r ! j) \<notin> seen"
  shows "validate_bindings r (projected_client r) seen i (map projected_binding (drop i (row_operations r)))
     = Inr (key_of r ` set (drop i (row_operations r)) \<union> seen)"
  using assms
proof (induction "length (row_operations r) - i" arbitrary: i seen)
  case (Suc n)
  let ?k = "key_of r (row_operations r ! i)"
  from Suc.hyps(2) have i: "i < length (row_operations r)" by simp
  have d: "drop i (row_operations r) = row_operations r ! i # drop (Suc i) (row_operations r)"
    using i by (rule Cons_nth_drop_Suc [symmetric])
  have ne: "key_of r (row_operations r ! j) \<noteq> ?k" if "Suc i \<le> j" "j < length (row_operations r)" for j
    using that Suc.prems(1) i key_of_inj [of r "row_operations r ! j" r "row_operations r ! i"]
    by (auto simp: row_ready_def nth_eq_iff_index_eq)
  have "validate_bindings r (projected_client r) (insert ?k seen) (Suc i)
      (map projected_binding (drop (Suc i) (row_operations r)))
     = Inr (key_of r ` set (drop (Suc i) (row_operations r)) \<union> insert ?k seen)"
    using Suc ne i by (intro Suc.hyps(1)) auto
  moreover have "validate_binding r (projected_client r) seen i (projected_binding (row_operations r ! i)) = Inr ?k"
    using binding_accepted [OF i Suc.prems(1)] Suc.prems(3) i by simp
  ultimately show ?case unfolding d by simp
qed simp

lemma client_accepted:
  assumes r: "row_ready r" and u: "new_url H (js (row_origin r)) = Some (https_parts (js (row_origin r)))"
    "new_url H (js (row_callback r)) = Some (https_parts (js (row_callback r)))"
    and s: "js (row_id r) \<notin> fst seen" "\<forall>operation. key_of r operation \<notin> snd seen"
  shows "validate_client H r i seen (projected_client r)
     = Inr (insert (js (row_id r)) (fst seen), key_of r ` set (row_operations r) \<union> snd seen)"
proof -
  let ?c = "projected_client r" and ?bs = "map projected_binding (row_operations r)"
  have x: "exact_fields fail_with ?c CLIENT_FIELDS l = Inr ?c" for l
    unfolding projected_client_def Let_def
    by (rule exact_fields_jobj) (auto simp: CLIENT_FIELDS_def projected_audiences_def)
  have o: "map (\<lambda>b. fld b ''operation'') ?bs = map (\<lambda>s. JStr (js s)) (row_operations r)"
  proof -
    have "fld (projected_binding operation) ''operation'' = jlit operation" if "operation \<in> set (row_operations r)" for operation
      using that r policy_names [of operation]
      by (auto simp: row_ready_def projected_binding_def fld_source_binding split: option.splits)
    then show ?thesis by (simp add: jlit_def)
  qed
  have "validate_bindings r ?c (snd seen) 0 ?bs = Inr (key_of r ` set (row_operations r) \<union> snd seen)"
    using bindings_accepted [OF r, of 0 "snd seen"] s(2) by simp
  moreover have "is_ok (same_json (jarr (map jlit (row_operations r))) (jarr (map jlit (row_operations r))) e)" for e
    by (rule same_json_refl) (simp add: registry_canonical_json_def canonical_lits_in)
  note same = this
  moreover have "is_ok (same_json (projected_audiences ?bs) (projected_audiences ?bs) e)" for e
    unfolding projected_audiences_def by (rule same_json_refl) (simp add: registry_canonical_json_def canonical_strings_in)
  moreover have "is_ok (validate_https_origin H (jlit (row_origin r)) l)" for l
    using r u by (simp add: validate_https_origin_def row_ready_def is_ok_checks Let_def jlit_def str_of_def)
      (simp add: https_parts_def Let_def)
  moreover have "is_ok (validate_https_callback H (jlit (row_callback r)) (jlit (row_origin r)))"
    using r u by (simp add: validate_https_callback_def row_ready_def is_ok_checks Let_def jlit_def str_of_def)
      (simp add: https_parts_def Let_def)
  moreover have "is_array (projected_audiences ?bs)" by (simp add: projected_audiences_def)
  moreover have "CLIENT_ID (js (row_id r))" "row_name r \<noteq> []" "length (row_name r) \<le> 80"
    using r by (simp_all add: row_ready_def)
  moreover have m: "map (\<lambda>s. JStr (js s)) (row_operations r) = map jlit (row_operations r)" by (simp add: jlit_def)
  ultimately show ?thesis using x s(1) o same unfolding m
    by (simp del: map_map add: validate_client_def checks_Inr_iff Let_def fld_projected_client str_of_def is_str_def
        jlit_def [of "row_id r"] jlit_def [of "row_name r"] jlit_def [of "row_origin r"] jlit_def [of "row_callback r"] Suc_le_eq)
qed

lemma clients_accepted:
  assumes "parses_urls H" "set rs \<subseteq> set EXPECTED_CLIENTS" "distinct (map (js \<circ> row_id) rs)"
    "\<forall>r\<in>set rs. js (row_id r) \<notin> fst seen" "\<forall>r\<in>set rs. \<forall>operation. key_of r operation \<notin> snd seen"
  shows "validate_clients H i seen rs (map projected_client rs) = Inr ()"
  using assms
proof (induction rs arbitrary: i seen)
  case (Cons r rs)
  have ready: "row_ready q" if "q \<in> insert r (set rs)" for q
    using that Cons.prems(2) row_ready_table by (auto simp: list_all_iff)
  let ?s = "(insert (js (row_id r)) (fst seen), key_of r ` set (row_operations r) \<union> snd seen)"
  have u: "new_url H (js (row_origin r)) = Some (https_parts (js (row_origin r)))"
    "new_url H (js (row_callback r)) = Some (https_parts (js (row_callback r)))"
    using Cons.prems(1,2) by (auto simp: parses_urls_def)
  have "validate_client H r i seen (projected_client r) = Inr ?s"
    using Cons.prems(4,5) by (intro client_accepted ready u) auto
  moreover have "validate_clients H (Suc i) ?s rs (map projected_client rs) = Inr ()"
  proof (rule Cons.IH [OF Cons.prems(1)])
    show "\<forall>q\<in>set rs. \<forall>operation. key_of q operation \<notin> snd ?s"
    proof (intro ballI allI)
      fix q operation assume q: "q \<in> set rs"
      then have "js (row_id q) \<noteq> js (row_id r)" using Cons.prems(3) by (force simp: image_iff)
      then have "key_of q operation \<noteq> key_of r a" for a
        using key_of_inj [of q operation r a] ready q by auto
      then show "key_of q operation \<notin> snd ?s" using Cons.prems(5) q by auto
    qed
  qed (use Cons.prems in \<open>auto simp: image_iff\<close>)
  ultimately show ?case by simp
qed simp

lemma fld_registry_source:
  "fld registry_source ''clients'' = jarr (map projected_client EXPECTED_CLIENTS)"
  "fld registry_source ''registryReleaseSha256'' = jlit source_release" "fld registry_source ''schemaVersion'' = jint 1"
  by (simp_all add: registry_source_def fld_def field_jobj source_clients_projected)

lemma fld_signing_row:
  "fld (signing_row a c o' g r t i) ''clientId'' = jlit c" "fld (signing_row a c o' g r t i) ''requestOrigin'' = jlit g"
  "fld (signing_row a c o' g r t i) ''operation'' = jlit o'" "fld (signing_row a c o' g r t i) ''registryRow'' = jlit r"
  by (simp_all add: signing_row_def fld_def field_jobj)

lemma canonical_row:
  assumes "a \<in> {JNull, jlit a'}" "t \<in> {JNull, jlit t'}" "i \<in> {JNull, jlit i'}"
  shows "is_ok (registry_canonical_json (signing_row a c o' g r t i))"
  unfolding signing_row_def registry_canonical_json_def by (rule canonical_object_in) (use assms in auto)

lemma find_projected_client:
  "find_client registry_source (jlit c) (jlit g)
     = map_option projected_client (find (\<lambda>r. row_id r = c \<and> row_origin r = g) EXPECTED_CLIENTS)"
proof -
  have "find P (map projected_client rs) = map_option projected_client (find (P \<circ> projected_client) rs)" for P rs
    by (induction rs) auto
  then show ?thesis by (simp add: find_client_def fld_registry_source fld_projected_client comp_def)
qed

lemma find_projected_operation:
  assumes "row_ready q" "operation \<in> set (row_operations q)"
  shows "find_operation (projected_client q) (jlit operation) = Some (projected_binding operation)"
proof -
  have "fld (projected_binding s) ''operation'' = jlit s" if "s \<in> set (row_operations q)" for s
    using that assms(1) policy_names [of s]
    by (auto simp: row_ready_def projected_binding_def fld_source_binding split: option.splits)
  then have "find (\<lambda>b. strict_eq (fld b ''operation'') (jlit operation)) (map projected_binding ss) = Some (projected_binding operation)"
    if "operation \<in> set ss" "set ss \<subseteq> set (row_operations q)" for ss
    using that by (induction ss) auto
  with assms(2) show ?thesis by (simp add: find_operation_def fld_projected_client)
qed

lemma compiled_rows_hold: "list_all (\<lambda>row. is_ok (check_signing_row registry_source row)) COMPILED_SIGNING_ROWS"
proof -
  have row: "is_ok (check_signing_row registry_source (signing_row a c o' g r t i))"
    if "find (\<lambda>r. row_id r = c \<and> row_origin r = g) EXPECTED_CLIENTS = Some q"
      "o' \<in> set (row_operations q)" "projected_binding o' = source_binding a o' (jlit r) t i"
      "is_ok (registry_canonical_json (signing_row a c o' g r t i))"
    for a c o' g r t i q
  proof -
    have q: "q \<in> set EXPECTED_CLIENTS" "row_id q = c" "row_origin q = g" using that(1) by (auto simp: find_Some_iff)
    then have "row_ready q" using row_ready_table by (simp add: list_all_iff)
    then have "find_operation (projected_client q) (jlit o') = Some (projected_binding o')"
      using that(2) by (rule find_projected_operation)
    moreover have "actual_row (projected_client q) (projected_binding o') = signing_row a c o' g r t i"
      using q that(3) by (simp add: actual_row_def signing_row_def fld_source_binding fld_projected_client)
    ultimately show ?thesis using that(1,4) same_json_refl
      by (simp add: check_signing_row_def fld_signing_row Let_def find_projected_client)
  qed
  show ?thesis
    unfolding COMPILED_SIGNING_ROWS_def list_all_iff
    by (simp del: insert_iff, intro conjI;
        rule row, simp add: EXPECTED_CLIENTS_def registry_tables, simp add: registry_tables, simp add: projected_bindings,
        rule canonical_row; simp)
qed

lemma fld_projected_audience:
  assumes "row_ready r" "operation \<in> set (row_operations r)"
  shows "fld (projected_binding operation) ''audience'' = JNull \<or> (\<exists>t. fld (projected_binding operation) ''audience'' = jlit t)"
proof -
  obtain p where p: "map_of OPERATION_POLICY operation = Some p"
    using assms policy_names [of operation] by (auto simp: row_ready_def)
  show ?thesis using policy_values(1) [OF p] by (auto simp: projected_binding_def p fld_source_binding)
qed

lemma canonical_audiences_in:
  assumes "row_ready r" "\<And>t. is_ok (canon_string d (js t))"
  shows "is_ok (canonical_json d (projected_audiences (map projected_binding (row_operations r))))"
  unfolding projected_audiences_def
proof (intro canonical_strings_in ballI)
  fix s assume "s \<in> set (sort_names (remdups (map str_of (filter (\<lambda>a. a \<noteq> JNull)
      (map (\<lambda>b. fld b ''audience'') (map projected_binding (row_operations r)))))))"
  then obtain operation where o: "operation \<in> set (row_operations r)" "fld (projected_binding operation) ''audience'' \<noteq> JNull"
      "s = str_of (fld (projected_binding operation) ''audience'')" by auto
  with fld_projected_audience [OF assms(1) o(1)] obtain t where "s = js t" by (auto simp: jlit_def str_of_def)
  then show "is_ok (canon_string d s)" using assms(2) by simp
qed

lemma canonical_projected_in:
  assumes "row_ready r" "\<And>t. is_ok (canon_string d (js t))"
  shows "is_ok (canonical_json d (projected_client r))"
proof -
  have "is_ok (canonical_json d (projected_binding operation))" if o: "operation \<in> set (row_operations r)" for operation
  proof -
    obtain p where p: "map_of OPERATION_POLICY operation = Some p"
      using o \<open>row_ready r\<close> policy_names [of operation] by (auto simp: row_ready_def)
    show ?thesis using policy_values [OF p] assms(2)
      by (auto simp: projected_binding_def p source_binding_def intro!: canonical_object_in)
  qed
  moreover note canonical_audiences_in [OF assms]
  ultimately show ?thesis unfolding projected_client_def Let_def
    by (intro canonical_object_in) (auto simp: canonical_lits_in assms(2) list_all_iff intro!: canonical_array_in)
qed

lemma unsigned_canonical_in:
  assumes "\<And>t. is_ok (canon_string d (js t))"
  shows "is_ok (canonical_json d unsigned_registry)"
proof -
  have "is_ok (canonical_json d (jarr source_clients))"
    unfolding source_clients_projected
    by (rule canonical_array_in) (use row_ready_table canonical_projected_in assms in \<open>auto simp: list_all_iff\<close>)
  then show ?thesis unfolding unsigned_registry_def by (intro canonical_object_in) simp
qed

lemma unsigned_canonical: "is_ok (registry_canonical_json unsigned_registry)"
  unfolding registry_canonical_json_def by (rule unsigned_canonical_in) simp

lemma registry_accepted: "parses_urls H \<Longrightarrow> validate_registry H registry_source = Inr (freeze_copy registry_source)"
proof -
  assume H: "parses_urls H"
  have "exact_fields fail_with registry_source [''clients'', ''registryReleaseSha256'', ''schemaVersion''] l = Inr registry_source" for l
    unfolding registry_source_def by (rule exact_fields_jobj) auto
  moreover have "distinct (map (js \<circ> row_id) EXPECTED_CLIENTS)" by (simp add: EXPECTED_CLIENTS_def client_row_def)
  then have "validate_clients H 0 ({}, {}) EXPECTED_CLIENTS (map projected_client EXPECTED_CLIENTS) = Inr ()"
    using clients_accepted [OF H, of EXPECTED_CLIENTS "({}, {})" 0] by simp
  moreover have "RELEASE_SHA256 (js source_release)"
    by (simp add: RELEASE_SHA256_def lower_hex_def source_release_def js_def is_lower_hex_def)
  moreover have "strict_eq (jint 1) (jint 1)" by (simp add: strict_eq_jint)
  moreover have "length (array_slots (jarr (map projected_client EXPECTED_CLIENTS))) = length EXPECTED_CLIENTS"
    by (simp add: jarr_def array_slots_def)
  moreover have "checks (map (check_signing_row registry_source) COMPILED_SIGNING_ROWS) k = k" for k :: "jval result"
    using compiled_rows_hold by (intro checks_all_ok) (simp add: list_all_iff)
  ultimately show ?thesis
    by (simp add: validate_registry_def fld_registry_source checks_Inr_iff str_of_def is_str_def jlit_def [of source_release])
qed

lemma jval_wf_jobj: "distinct (map fst kvs) \<Longrightarrow> \<forall>(k, v)\<in>set kvs. js_wf k \<and> jval_wf v \<Longrightarrow> jval_wf (jobj kvs)"
  by (auto simp: jobj_def jdata_def list_all_iff case_prod_beta comp_def)

lemma jval_wf_jarr: "list_all jval_wf vs \<Longrightarrow> jval_wf (jarr vs)"
  by (auto simp: jarr_def jdata_def list_all_iff)

lemma jval_wf_scalars [simp]: "jval_wf (jlit s)" "jval_wf (jint n)"
  by (simp_all add: jlit_def jint_def)

lemma registry_source_wf: "jval_wf registry_source"
proof -
  have "jval_wf v" if "v \<in> set source_clients" for v
    using that unfolding source_clients_def source_client_def source_binding_def
    by (auto intro!: jval_wf_jobj jval_wf_jarr)
  then show ?thesis unfolding registry_source_def by (intro jval_wf_jobj) (auto intro!: jval_wf_jarr simp: list_all_iff)
qed

lemma load_registry_Inr:
  assumes "load_registry H digest = Inr reg"
  shows "reg = freeze_copy registry_source" "fld reg ''registryReleaseSha256'' = jlit source_release"
    "list_all2 client_ok EXPECTED_CLIENTS (array_values (fld reg ''clients''))"
proof -
  from assms have v: "validate_registry H registry_source = Inr reg"
    by (auto simp: load_registry_def rbind_Inr_iff checks_Inr_iff)
  from validate_registry_ok [OF v registry_source_wf] fld_registry_source(2)
  show "reg = freeze_copy registry_source" "fld reg ''registryReleaseSha256'' = jlit source_release"
    "list_all2 client_ok EXPECTED_CLIENTS (array_values (fld reg ''clients''))" by simp_all
qed

lemma find_client_reviewed:
  assumes "list_all2 client_ok EXPECTED_CLIENTS (array_values (fld reg ''clients''))"
    "find_client reg (JStr c) (JStr g) = Some client"
  shows "\<exists>r\<in>set EXPECTED_CLIENTS. client_ok r client \<and> c = js (row_id r) \<and> g = js (row_origin r)"
proof -
  obtain k where k: "k < length (array_values (fld reg ''clients''))" "client = array_values (fld reg ''clients'') ! k"
      "fld client ''clientId'' = JStr c" "fld client ''requestOrigin'' = JStr g"
    using assms(2) by (auto simp: find_client_def find_Some_iff)
  with assms(1) have "client_ok (EXPECTED_CLIENTS ! k) client" "EXPECTED_CLIENTS ! k \<in> set EXPECTED_CLIENTS"
    by (auto simp: list_all2_conv_all_nth)
  with k(3,4) show ?thesis by (auto simp: client_ok_def jlit_def)
qed

lemma find_operation_reviewed:
  assumes "client_ok r client" "find_operation client (JStr t) = Some b"
  shows "\<exists>operation\<in>set (row_operations r). binding_ok operation b \<and> t = js operation"
proof -
  let ?bs = "array_values (fld client ''operationBindings'')"
  obtain k where k: "k < length ?bs" "b = ?bs ! k" "fld b ''operation'' = JStr t"
    using assms(2) by (auto simp: find_operation_def find_Some_iff)
  with assms(1) have "binding_ok (row_operations r ! k) b" "row_operations r ! k \<in> set (row_operations r)"
    by (auto simp: client_ok_def list_all2_conv_all_nth)
  with k(3) show ?thesis by (auto simp: binding_ok_def jlit_def)
qed

lemma find_client_complete:
  assumes "list_all2 client_ok EXPECTED_CLIENTS (array_values (fld reg ''clients''))" "r \<in> set EXPECTED_CLIENTS"
  shows "\<exists>client. find_client reg (jlit (row_id r)) (jlit (row_origin r)) = Some client"
proof (rule ccontr)
  assume "\<not> ?thesis"
  then have "\<forall>c\<in>set (array_values (fld reg ''clients'')). fld c ''clientId'' \<noteq> jlit (row_id r) \<or> fld c ''requestOrigin'' \<noteq> jlit (row_origin r)"
    by (auto simp: find_client_def find_None_iff)
  moreover obtain k where "k < length EXPECTED_CLIENTS" "r = EXPECTED_CLIENTS ! k" using assms(2) by (auto simp: in_set_conv_nth)
  ultimately show False using assms(1) by (auto simp: list_all2_conv_all_nth client_ok_def)
qed

lemma find_operation_complete:
  assumes "client_ok r client" "operation \<in> set (row_operations r)"
  shows "\<exists>b. find_operation client (jlit operation) = Some b"
proof (rule ccontr)
  assume "\<not> ?thesis"
  then have "\<forall>b\<in>set (array_values (fld client ''operationBindings'')). fld b ''operation'' \<noteq> jlit operation"
    by (auto simp: find_operation_def find_None_iff)
  moreover obtain k where "k < length (row_operations r)" "operation = row_operations r ! k" using assms(2) by (auto simp: in_set_conv_nth)
  ultimately show False using assms(1) by (auto simp: list_all2_conv_all_nth client_ok_def binding_ok_def)
qed

lemma reviewed_ids: "r \<in> set EXPECTED_CLIENTS \<Longrightarrow> q \<in> set EXPECTED_CLIENTS \<Longrightarrow> row_id r = row_id q \<Longrightarrow> r = q"
proof -
  have "distinct (map row_id EXPECTED_CLIENTS)" by (simp add: EXPECTED_CLIENTS_def client_row_def)
  then show "r \<in> set EXPECTED_CLIENTS \<Longrightarrow> q \<in> set EXPECTED_CLIENTS \<Longrightarrow> row_id r = row_id q \<Longrightarrow> r = q"
    by (auto simp: distinct_map inj_on_def)
qed

lemma freeze_resolved:
  assumes "fld reg ''registryReleaseSha256'' = jlit source_release" "client_ok r client" "binding_ok operation b"
    "map_of OPERATION_POLICY operation = Some policy"
  shows "freeze_copy (resolved_binding reg client b) = jobj
     [(js ''audience'', policy_audience policy), (js ''callbackUri'', jlit (row_callback r)),
      (js ''clientDisplayName'', jlit (row_name r)), (js ''clientId'', jlit (row_id r)),
      (js ''maxLifetimeSeconds'', jint 300), (js ''operation'', jlit operation),
      (js ''registryReleaseSha256'', jlit source_release), (js ''registryRow'', policy_row policy),
      (js ''requestOrigin'', jlit (row_origin r)), (js ''serviceActivationState'', policy_activation policy),
      (js ''serviceInstance'', policy_service policy)]"
proof -
  have c: "freeze_copy (policy_audience policy) = policy_audience policy" "freeze_copy (policy_row policy) = policy_row policy"
    "freeze_copy (policy_activation policy) = policy_activation policy" "freeze_copy (policy_service policy) = policy_service policy"
    using policy_values [OF assms(4)] by auto
  show ?thesis using assms c
    by (simp add: resolved_binding_def client_ok_def binding_ok_def jobj_def jdata_def assigned_proto_def proto_name_def js_def)
qed

definition reviewed_binding :: "reviewed_client \<Rightarrow> string \<Rightarrow> operation_policy \<Rightarrow> jval" where
  \<comment> \<open>the binding a reviewed row and its compiled policy give\<close>
  "reviewed_binding r operation policy = jobj [(js ''audience'', policy_audience policy), (js ''callbackUri'', jlit (row_callback r)),
             (js ''clientDisplayName'', jlit (row_name r)), (js ''clientId'', jlit (row_id r)),
             (js ''maxLifetimeSeconds'', jint 300), (js ''operation'', jlit operation),
             (js ''registryReleaseSha256'', jlit source_release), (js ''registryRow'', policy_row policy),
             (js ''requestOrigin'', jlit (row_origin r)), (js ''serviceActivationState'', policy_activation policy),
             (js ''serviceInstance'', policy_service policy)]"

lemma resolve_reviewed:
  assumes "load_registry H digest = Inr reg" "resolve_registry_binding reg v = Inr b"
  obtains r operation policy where "r \<in> set EXPECTED_CLIENTS" "operation \<in> set (row_operations r)"
    "fld v ''clientId'' = jlit (row_id r)" "fld v ''requestOrigin'' = jlit (row_origin r)" "fld v ''operation'' = jlit operation"
    "map_of OPERATION_POLICY operation = Some policy" "b = reviewed_binding r operation policy"
proof -
  from assms(2) obtain c g t client operation where v: "fld v ''clientId'' = JStr c" "fld v ''requestOrigin'' = JStr g"
      "fld v ''operation'' = JStr t" "find_client reg (JStr c) (JStr g) = Some client"
      "find_operation client (JStr t) = Some operation" "b = freeze_copy (resolved_binding reg client operation)"
    by (auto simp: resolve_registry_binding_def rbind_Inr_iff checks_Inr_iff is_str_def exact_fields_Inr
        split: option.splits jval.splits)
  obtain r where r: "r \<in> set EXPECTED_CLIENTS" "client_ok r client" "c = js (row_id r)" "g = js (row_origin r)"
    using find_client_reviewed [OF load_registry_Inr(3) [OF assms(1)] v(4)] by blast
  obtain o' where o: "o' \<in> set (row_operations r)" "binding_ok o' operation" "t = js o'"
    using find_operation_reviewed [OF r(2) v(5)] by blast
  obtain policy where p: "map_of OPERATION_POLICY o' = Some policy" using o(2) by (auto simp: binding_ok_def)
  have "b = reviewed_binding r o' policy"
    unfolding v(6) reviewed_binding_def by (rule freeze_resolved [OF load_registry_Inr(2) [OF assms(1)] r(2) o(2) p])
  with that r o p v(1-3) show thesis by (simp add: jlit_def)
qed

lemma resolve_complete:
  assumes "load_registry H digest = Inr reg" "r \<in> set EXPECTED_CLIENTS" "operation \<in> set (row_operations r)"
  shows "is_ok (resolve_registry_binding reg (jobj [(js ''clientId'', jlit (row_id r)), (js ''operation'', jlit operation),
    (js ''requestOrigin'', jlit (row_origin r))]))"
proof -
  let ?v = "jobj [(js ''clientId'', jlit (row_id r)), (js ''operation'', jlit operation), (js ''requestOrigin'', jlit (row_origin r))]"
  have x: "exact_fields fail_with ?v [''clientId'', ''operation'', ''requestOrigin''] l = Inr ?v" for l
    by (rule exact_fields_jobj) auto
  have f: "fld ?v ''clientId'' = jlit (row_id r)" "fld ?v ''operation'' = jlit operation" "fld ?v ''requestOrigin'' = jlit (row_origin r)"
    by (simp_all add: fld_def field_jobj)
  obtain client where c: "find_client reg (jlit (row_id r)) (jlit (row_origin r)) = Some client"
    using find_client_complete [OF load_registry_Inr(3) [OF assms(1)] assms(2)] by blast
  then obtain q where q: "q \<in> set EXPECTED_CLIENTS" "client_ok q client" "row_id r = row_id q"
    using find_client_reviewed [OF load_registry_Inr(3) [OF assms(1)] c [unfolded jlit_def]] by auto
  then have "r = q" using assms(2) reviewed_ids by blast
  with q have "client_ok r client" by simp
  then obtain b where "find_operation client (jlit operation) = Some b"
    using find_operation_complete assms(3) by blast
  then show "is_ok (resolve_registry_binding reg ?v)"
    using x f c by (simp add: resolve_registry_binding_def is_ok_checks is_str_def jlit_def)
qed

subsection \<open>The properties\<close>

text \<open>C11: the registry the release ships loads: whatever the SHA-256 function, if it maps the
  canonical text of the projection to the release digest and the URL parser reads the reviewed https
  addresses as such, the module's top level passes every check (field lists, order, uniqueness,
  https origins, policies, compiled signing rows) and yields the frozen copy of the projection.\<close>

theorem shipped_registry_loads:
  assumes "parses_urls H" "\<forall>text. registry_canonical_json unsigned_registry = Inr text \<longrightarrow> sha256_hex digest text = js source_release"
  shows "load_registry H digest = Inr (freeze_copy registry_source)"
  using assms unsigned_canonical registry_accepted [OF assms(1)]
  by (auto simp: load_registry_def is_ok_iff checks_Inr_iff)

definition https_host :: wire_host where
  "https_host = \<lparr>math_hypot = (\<lambda>_. Fin 0), new_url = (\<lambda>s. if starts_with (js ''https://'') s then Some (https_parts s) else None)\<rparr>"

definition release_digest :: "byte list \<Rightarrow> byte list" where
  "release_digest _ = [0xf5, 0xf7, 0xe3, 0xea, 0xb4, 0x2b, 0xbb, 0x12, 0xbd, 0x85, 0xd9, 0x52, 0x89, 0xe0, 0xa8, 0x00,
     0x69, 0x41, 0xce, 0xb8, 0x50, 0x5f, 0x6d, 0xc1, 0xcd, 0xe1, 0x2a, 0x38, 0xf4, 0xa7, 0x9a, 0x63]"

lemma https_host_parses: "parses_urls https_host"
proof -
  have "starts_with (js ''https://'') (js (row_origin r))" "starts_with (js ''https://'') (js (row_callback r))"
    if "r \<in> set EXPECTED_CLIENTS" for r
    using that row_ready_table by (auto simp: list_all_iff row_ready_def exact_https_def jlit_def str_of_def)
  then show ?thesis by (auto simp: parses_urls_def https_host_def)
qed

lemma release_digest_text: "sha256_hex release_digest text = js source_release"
  by (simp add: sha256_hex_def release_digest_def source_release_def js_def hex_digit_def)

lemma shipped_registry_loads_witness:
  "parses_urls https_host \<and> load_registry https_host release_digest = Inr (freeze_copy registry_source)"
  using shipped_registry_loads [OF https_host_parses] release_digest_text https_host_parses by blast

lemma sample_registry: "load_registry https_host release_digest = Inr (freeze_copy registry_source)"
  using unsigned_canonical registry_accepted [OF https_host_parses] release_digest_text
  by (auto simp: load_registry_def is_ok_iff checks_Inr_iff)

text \<open>C12: the registry resolves a request to a binding exactly when the client id, the origin and the
  operation are those of one reviewed client row, and the binding it returns has that row's callback
  and name and the compiled policy's audience, row, activation state and service instance, a lifetime
  of 300 seconds and the release digest.\<close>

theorem resolve_exactly_reviewed:
  assumes "load_registry H digest = Inr reg"
  shows "(\<forall>v b. resolve_registry_binding reg v = Inr b \<longrightarrow>
      (\<exists>r\<in>set EXPECTED_CLIENTS. \<exists>operation\<in>set (row_operations r). \<exists>policy.
         fld v ''clientId'' = jlit (row_id r) \<and> fld v ''requestOrigin'' = jlit (row_origin r)
         \<and> fld v ''operation'' = jlit operation \<and> map_of OPERATION_POLICY operation = Some policy
         \<and> b = jobj [(js ''audience'', policy_audience policy), (js ''callbackUri'', jlit (row_callback r)),
             (js ''clientDisplayName'', jlit (row_name r)), (js ''clientId'', jlit (row_id r)),
             (js ''maxLifetimeSeconds'', jint 300), (js ''operation'', jlit operation),
             (js ''registryReleaseSha256'', jlit source_release), (js ''registryRow'', policy_row policy),
             (js ''requestOrigin'', jlit (row_origin r)), (js ''serviceActivationState'', policy_activation policy),
             (js ''serviceInstance'', policy_service policy)]))
    \<and> (\<forall>r\<in>set EXPECTED_CLIENTS. \<forall>operation\<in>set (row_operations r).
         is_ok (resolve_registry_binding reg (jobj [(js ''clientId'', jlit (row_id r)), (js ''operation'', jlit operation),
           (js ''requestOrigin'', jlit (row_origin r))])))"
  using resolve_complete [OF assms] by (auto simp flip: reviewed_binding_def elim!: resolve_reviewed [OF assms])

lemma resolve_exactly_reviewed_witness:
  "is_ok (resolve_registry_binding (freeze_copy registry_source) (jobj [(js ''clientId'', jlit ''sdn-landing-web-v1''),
     (js ''operation'', jlit ''sdn.wallet.account.v1''), (js ''requestOrigin'', jlit ''https://spacedatanetwork.org'')]))"
proof -
  have "EXPECTED_CLIENTS ! 0 \<in> set EXPECTED_CLIENTS" "''sdn.wallet.account.v1'' \<in> set (row_operations (EXPECTED_CLIENTS ! 0))"
    "row_id (EXPECTED_CLIENTS ! 0) = ''sdn-landing-web-v1''" "row_origin (EXPECTED_CLIENTS ! 0) = ''https://spacedatanetwork.org''"
    by (simp_all add: EXPECTED_CLIENTS_def registry_tables)
  then show ?thesis using resolve_exactly_reviewed [OF sample_registry] by metis
qed

end
