(* ===== verification/SealedEnvelopes.thy ===== *)
theory SealedEnvelopes
  imports OriginGuards "HOL-Library.Sublist"
begin

section \<open>Sealed records: origin-app/sealed-envelopes.mjs\<close>

text \<open>
  The reader of the two FlatBuffers records a sealed field arrives in, the \<open>$ENC\<close> header and the
  \<open>$KMF\<close> key record. A \<open>DataView\<close> read outside its buffer throws \<open>RangeError\<close>, which the reader
  does not catch: the facts show that its own checks come first at every read. The record an
  accepted header is read from is also given as a writer, for the round trip.
\<close>

subsection \<open>Little-endian reads\<close>

definition read_u16 :: "byte list \<Rightarrow> nat \<Rightarrow> nat result" where
  "read_u16 bs i = (if i + 2 \<le> length bs then Inr (unat (bs ! i) + 256 * unat (bs ! (i + 1))) else Inl Range_Error)"

definition read_u32 :: "byte list \<Rightarrow> nat \<Rightarrow> nat result" where
  "read_u32 bs i = (if i + 4 \<le> length bs
     then Inr (unat (bs ! i) + 256 * unat (bs ! (i + 1)) + 65536 * unat (bs ! (i + 2)) + 16777216 * unat (bs ! (i + 3)))
     else Inl Range_Error)"

definition read_i32 :: "byte list \<Rightarrow> nat \<Rightarrow> int result" where
  "read_i32 bs i = rbind (read_u32 bs i) (\<lambda>n. Inr (if n < 2147483648 then int n else int n - 4294967296))"

definition read_byte :: "byte list \<Rightarrow> nat \<Rightarrow> nat option" where
  \<comment> \<open>\<open>bytes[i]\<close>: \<open>undefined\<close> outside\<close>
  "read_byte bs i = (if i < length bs then Some (unat (bs ! i)) else None)"

subsection \<open>The table reader\<close>

record fb_table =
  fb_bytes :: "byte list"
  fb_root :: nat
  fb_vtable :: nat
  fb_vtable_length :: nat
  fb_object_length :: nat

definition identified :: "byte list \<Rightarrow> string \<Rightarrow> bool" where
  "identified bs identifier \<longleftrightarrow> map (read_byte bs) [4..<8] = map Some (js identifier)"

definition table_at :: "byte list \<Rightarrow> string \<Rightarrow> fb_table result" where
  "table_at bs identifier = checks
     [ensure (12 \<le> length bs) Sealed_Envelope_Error, ensure (identified bs identifier) Sealed_Envelope_Error]
     (rbind (read_u32 bs 0) (\<lambda>root. checks
        [ensure (8 \<le> root \<and> root + 4 \<le> length bs) Sealed_Envelope_Error]
        (rbind (read_i32 bs root) (\<lambda>back. let vtable = int root - back in checks
           [ensure (0 \<le> vtable \<and> vtable + 4 \<le> int (length bs)) Sealed_Envelope_Error]
           (rbind (read_u16 bs (nat vtable)) (\<lambda>vtable_length.
            rbind (read_u16 bs (nat vtable + 2)) (\<lambda>object_length. checks
              [ensure (4 \<le> vtable_length \<and> vtable_length mod 2 = 0 \<and> nat vtable + vtable_length \<le> length bs
                  \<and> 4 \<le> object_length \<and> root + object_length \<le> length bs) Sealed_Envelope_Error]
              (Inr \<lparr>fb_bytes = bs, fb_root = root, fb_vtable = nat vtable, fb_vtable_length = vtable_length,
                 fb_object_length = object_length\<rparr>))))))))"

definition table :: "jval \<Rightarrow> string \<Rightarrow> fb_table result" where
  "table v identifier = (case v of JBytes _ bs _ _ _ \<Rightarrow> table_at bs identifier | _ \<Rightarrow> Inl Sealed_Envelope_Error)"

definition slot :: "fb_table \<Rightarrow> nat \<Rightarrow> nat result" where
  "slot t i = (let place = 4 + i * 2 in
     if fb_vtable_length t \<le> place then Inr 0
     else rbind (read_u16 (fb_bytes t) (fb_vtable t + place)) (\<lambda>offset.
       checks [ensure (\<not> (offset \<noteq> 0 \<and> (offset < 4 \<or> fb_object_length t \<le> offset))) Sealed_Envelope_Error]
         (Inr offset)))"

definition scalar :: "fb_table \<Rightarrow> nat \<Rightarrow> nat \<Rightarrow> nat option result" where
  "scalar t i default_value = rbind (slot t i) (\<lambda>offset.
     Inr (if offset = 0 then Some default_value else read_byte (fb_bytes t) (fb_root t + offset)))"

definition vector :: "fb_table \<Rightarrow> nat \<Rightarrow> byte list option result" where
  "vector t i = rbind (slot t i) (\<lambda>offset.
     if offset = 0 then Inr None
     else let place = fb_root t + offset; bs = fb_bytes t in
       checks [ensure (place + 4 \<le> length bs) Sealed_Envelope_Error]
         (rbind (read_u32 bs place) (\<lambda>forward.
          let start = place + forward in
          checks [ensure (start + 4 \<le> length bs) Sealed_Envelope_Error]
            (rbind (read_u32 bs start) (\<lambda>n.
             checks [ensure (start + 4 + n \<le> length bs) Sealed_Envelope_Error]
               (Inr (Some (take n (drop (start + 4) bs)))))))))"

subsection \<open>The two records\<close>

record enc_header =
  enc_context :: jstring
  enc_ephemeral_public :: "byte list"
  enc_recipient_key_id :: "byte list"

definition check_scalar :: "fb_table \<Rightarrow> nat \<Rightarrow> nat \<Rightarrow> nat \<Rightarrow> unit result" where
  \<comment> \<open>one disjunct of the suite test: \<open>header.scalar(index, default) !== value\<close>\<close>
  "check_scalar t i default_value value =
     rbind (scalar t i default_value) (\<lambda>x. ensure (x = Some value) Sealed_Envelope_Error)"

definition has_length :: "byte list option \<Rightarrow> nat \<Rightarrow> bool" where
  "has_length v n = (case v of None \<Rightarrow> False | Some bs \<Rightarrow> length bs = n)"

definition read_enc_header :: "jval \<Rightarrow> enc_header result" where
  "read_enc_header v =
     rbind (table v ''$ENC'') (\<lambda>header.
     checks [check_scalar header 0 1 1, check_scalar header 1 0 0, check_scalar header 2 0 0, check_scalar header 3 0 0]
       (rbind (vector header 4) (\<lambda>ephemeral_public.
        rbind (vector header 5) (\<lambda>nonce_start.
        rbind (vector header 6) (\<lambda>recipient_key_id.
        rbind (vector header 7) (\<lambda>context.
        checks [ensure (has_length ephemeral_public 32 \<and> has_length nonce_start 12 \<and> has_length recipient_key_id 8
            \<and> context \<noteq> None \<and> context \<noteq> Some []) Sealed_Envelope_Error]
          (case text_decode (the context) of
             None \<Rightarrow> Inl Sealed_Envelope_Error
           | Some text \<Rightarrow> Inr \<lparr>enc_context = text, enc_ephemeral_public = the ephemeral_public,
               enc_recipient_key_id = the recipient_key_id\<rparr>)))))))"

definition read_kmf_key_bytes :: "jval \<Rightarrow> byte list result" where
  "read_kmf_key_bytes v =
     rbind (table v ''$KMF'') (\<lambda>t. rbind (vector t 4) (\<lambda>key_bytes.
     checks [ensure (has_length key_bytes 32) Sealed_Envelope_Error] (Inr (the key_bytes))))"

subsection \<open>Every read is checked\<close>

definition table_ok :: "fb_table \<Rightarrow> bool" where
  \<comment> \<open>what the reader has checked once it holds a table\<close>
  "table_ok t \<longleftrightarrow> fb_vtable t + fb_vtable_length t \<le> length (fb_bytes t) \<and> even (fb_vtable_length t)
     \<and> fb_root t + fb_object_length t \<le> length (fb_bytes t)"

definition only_sealed :: "'a result \<Rightarrow> bool" where
  "only_sealed r \<longleftrightarrow> (\<forall>e. r = Inl e \<longrightarrow> e = Sealed_Envelope_Error)"

named_theorems sealed_intros "steps of the reader that only throw its own error"

lemma only_sealed_ensure [sealed_intros, simp]: "only_sealed (ensure b Sealed_Envelope_Error)"
  by (auto simp: only_sealed_def ensure_def)

lemma only_sealed_Inr [sealed_intros, simp]: "only_sealed (Inr x)"
  by (simp add: only_sealed_def)

lemma only_sealed_Inl [simp]: "only_sealed (Inl e) \<longleftrightarrow> e = Sealed_Envelope_Error"
  by (simp add: only_sealed_def)

lemma only_sealed_rbind [sealed_intros]: "only_sealed m \<Longrightarrow> (\<And>x. m = Inr x \<Longrightarrow> only_sealed (f x)) \<Longrightarrow> only_sealed (rbind m f)"
  by (cases m) simp_all

lemma only_sealed_checks [sealed_intros]:
  "list_all only_sealed cs \<Longrightarrow> (list_all is_ok cs \<Longrightarrow> only_sealed k) \<Longrightarrow> only_sealed (checks cs k)"
proof (induction cs)
  case (Cons c cs)
  then show ?case by (cases c) simp_all
qed simp

lemma only_sealed_reads [sealed_intros]:
  "i + 2 \<le> length bs \<Longrightarrow> only_sealed (read_u16 bs i)" "i + 4 \<le> length bs \<Longrightarrow> only_sealed (read_u32 bs i)"
  "i + 4 \<le> length bs \<Longrightarrow> only_sealed (read_i32 bs i)"
  by (simp_all add: read_u16_def read_u32_def read_i32_def)

lemma table_at_ok: "table_at bs identifier = Inr t \<Longrightarrow> table_ok t \<and> fb_bytes t = bs"
  unfolding table_at_def Let_def
  by (clarsimp simp only: rbind_Inr_iff checks_Inr_iff list.pred_inject is_ok_ensure sum.inject)
    (simp add: table_ok_def)

lemma table_Inr:
  assumes "table v identifier = Inr t"
  shows "table_ok t" "\<exists>p ps n k. v = JBytes p (fb_bytes t) ps n k"
  using assms table_at_ok by (auto simp: table_def split: jval.splits)

lemma table_only_sealed: "only_sealed (table v identifier)"
proof -
  have "only_sealed (table_at bs identifier)" for bs
    unfolding table_at_def Let_def by (intro sealed_intros) auto
  then show ?thesis by (simp add: table_def only_sealed_def split: jval.splits)
qed

lemma slot_Inr:
  assumes "slot t i = Inr offset" "offset \<noteq> 0"
  shows "4 \<le> offset" "offset < fb_object_length t"
  using assms by (auto simp: slot_def Let_def rbind_Inr_iff checks_Inr_iff split: if_splits)

lemma slot_only_sealed: "table_ok t \<Longrightarrow> only_sealed (slot t i)"
proof -
  assume t: "table_ok t"
  have "4 + i * 2 + 2 \<le> fb_vtable_length t" if "\<not> fb_vtable_length t \<le> 4 + i * 2"
    using t that by (simp add: table_ok_def) presburger
  then show ?thesis unfolding slot_def Let_def using t
    by (auto simp: table_ok_def intro!: sealed_intros)
qed

lemma vector_only_sealed: "table_ok t \<Longrightarrow> only_sealed (vector t i)"
  unfolding vector_def Let_def by (auto intro!: sealed_intros slot_only_sealed split: if_splits)

lemma check_scalar_only_sealed: "table_ok t \<Longrightarrow> only_sealed (check_scalar t i d x)"
  unfolding check_scalar_def scalar_def by (auto intro!: sealed_intros slot_only_sealed)

lemma scalar_defined: "table_ok t \<Longrightarrow> scalar t i d = Inr x \<Longrightarrow> x \<noteq> None"
  using slot_Inr by (fastforce simp: scalar_def rbind_Inr_iff read_byte_def table_ok_def split: if_splits)

lemma vector_slice:
  assumes "vector t i = Inr (Some s)"
  shows "\<exists>a b. fb_bytes t = a @ s @ b"
proof -
  from assms obtain m n where "s = take n (drop m (fb_bytes t))"
    by (auto simp: vector_def Let_def rbind_Inr_iff checks_Inr_iff split: if_splits)
  then have "fb_bytes t = take m (fb_bytes t) @ s @ drop n (drop m (fb_bytes t))"
    by (metis append_take_drop_id)
  then show ?thesis by blast
qed

subsection \<open>A writer of the header, for the round trip\<close>

definition u16le :: "nat \<Rightarrow> byte list" where
  "u16le n = [byte_of (n mod 256), byte_of (n div 256 mod 256)]"

definition u32le :: "nat \<Rightarrow> byte list" where
  "u32le n = [byte_of (n mod 256), byte_of (n div 256 mod 256), byte_of (n div 65536 mod 256), byte_of (n div 16777216 mod 256)]"

definition byte_vector :: "byte list \<Rightarrow> byte list" where
  "byte_vector bs = u32le (length bs) @ bs"

definition enc_bytes :: "byte list \<Rightarrow> byte list \<Rightarrow> byte list \<Rightarrow> byte list \<Rightarrow> byte list" where
  \<comment> \<open>vtable at 8, table at 28, one offset per vector, the four suite fields left at their defaults\<close>
  "enc_bytes ephemeral nonce recipient context =
     u32le 28 @ map byte_of (js ''$ENC'') @ u16le 20 @ u16le 20
     @ u16le 0 @ u16le 0 @ u16le 0 @ u16le 0 @ u16le 4 @ u16le 8 @ u16le 12 @ u16le 16
     @ u32le 20 @ u32le 16 @ u32le 48 @ u32le 60 @ u32le 68
     @ byte_vector ephemeral @ byte_vector nonce @ byte_vector recipient @ byte_vector context"

lemma length_le [simp]: "length (u16le n) = 2" "length (u32le n) = 4" "length (byte_vector bs) = 4 + length bs"
  by (simp_all add: u16le_def u32le_def byte_vector_def)

lemma nth_drop_Cons: "drop i bs = x # rest \<Longrightarrow> i < length bs \<and> bs ! i = x \<and> drop (Suc i) bs = rest"
  by (metis drop_eq_Nil2 leI list.distinct(1) list.inject Cons_nth_drop_Suc)

lemma read_u16_at: "drop i bs = u16le n @ rest \<Longrightarrow> n < 65536 \<Longrightarrow> read_u16 bs i = Inr n"
proof -
  assume a: "drop i bs = u16le n @ rest" "n < 65536"
  from a(1) have b: "bs ! i = byte_of (n mod 256)" "bs ! Suc i = byte_of (n div 256 mod 256)" "i + 2 \<le> length bs"
    by (auto simp: u16le_def dest!: nth_drop_Cons)
  have "n div 256 < 256" using a(2) by (simp add: less_mult_imp_div_less)
  then have "n mod 256 + 256 * (n div 256 mod 256) = n" by simp
  then show ?thesis using b by (simp add: read_u16_def unat_byte_of)
qed

lemma read_u32_at: "drop i bs = u32le n @ rest \<Longrightarrow> n < 4294967296 \<Longrightarrow> read_u32 bs i = Inr n"
proof -
  assume a: "drop i bs = u32le n @ rest" "n < 4294967296"
  from a(1) have b: "bs ! i = byte_of (n mod 256)" "bs ! Suc i = byte_of (n div 256 mod 256)"
      "bs ! Suc (Suc i) = byte_of (n div 65536 mod 256)" "bs ! Suc (Suc (Suc i)) = byte_of (n div 16777216 mod 256)"
      "i + 4 \<le> length bs"
    by (auto simp: u32le_def dest!: nth_drop_Cons)
  define m k l where "m = n div 256" and "k = m div 256" and "l = k div 256"
  have d: "n div 65536 = k" "n div 16777216 = l"
    by (simp_all add: m_def k_def l_def div_mult2_eq [symmetric])
  have n: "n = 256 * m + n mod 256" "m = 256 * k + m mod 256" "k = 256 * l + k mod 256"
    by (simp_all only: m_def k_def l_def mult_div_mod_eq)
  then have "l < 256" using a(2) by linarith
  then have "n mod 256 + 256 * (n div 256 mod 256) + 65536 * (n div 65536 mod 256) + 16777216 * (n div 16777216 mod 256) = n"
    using n unfolding d m_def [symmetric] by simp
  moreover have "unat (byte_of (x mod 256)) = x mod 256" for x by (rule unat_byte_of) simp
  then have "unat (bs ! i) = n mod 256" "unat (bs ! (i + 1)) = n div 256 mod 256"
    "unat (bs ! (i + 2)) = n div 65536 mod 256" "unat (bs ! (i + 3)) = n div 16777216 mod 256"
    using b by (simp_all only: numeral_2_eq_2 numeral_3_eq_3 One_nat_def add_Suc_right add_0_right)
  ultimately show ?thesis unfolding read_u32_def using b(5) by simp
qed

lemma vector_at:
  assumes "slot t i = Inr offset" "offset \<noteq> 0" "drop (fb_root t + offset) (fb_bytes t) = u32le forward @ x"
    "drop (fb_root t + offset + forward) (fb_bytes t) = byte_vector v @ y" "forward < 4294967296" "length v < 4294967296"
  shows "vector t i = Inr (Some v)"
proof -
  let ?bs = "fb_bytes t" and ?s = "fb_root t + offset + forward"
  have r: "read_u32 ?bs (fb_root t + offset) = Inr forward" "read_u32 ?bs ?s = Inr (length v)"
    using read_u32_at [OF assms(3,5)] read_u32_at [of ?s ?bs "length v" "v @ y"] assms(4,6) by (simp_all add: byte_vector_def)
  have l: "fb_root t + offset + 4 \<le> length ?bs" "?s + 4 + length v \<le> length ?bs"
    using arg_cong [OF assms(3), of length] arg_cong [OF assms(4), of length] by simp_all
  have "drop (?s + 4) ?bs = drop 4 (drop ?s ?bs)" by (simp add: add.commute)
  then have "drop (?s + 4) ?bs = v @ y" by (simp add: assms(4) byte_vector_def)
  then show ?thesis using assms(1,2) r l by (simp add: vector_def Let_def checks_ensure)
qed

lemma bytes_of_literal: "map byte_of (js ''$ENC'') = [0x24, 0x45, 0x4e, 0x43]"
  by (simp add: js_def byte_of_def)

lemma enc_bytes_prefix:
  "\<exists>p. enc_bytes e n r c = p @ byte_vector e @ byte_vector n @ byte_vector r @ byte_vector c \<and> length p = 48
     \<and> (\<forall>x. read_u32 (p @ x) 0 = Inr 28 \<and> read_i32 (p @ x) 28 = Inr 20 \<and> identified (p @ x) ''$ENC''
        \<and> read_u16 (p @ x) 8 = Inr 20 \<and> read_u16 (p @ x) 10 = Inr 20
        \<and> list_all (\<lambda>(i, o'). read_u16 (p @ x) i = Inr o')
            [(12, 0), (14, 0), (16, 0), (18, 0), (20, 4), (22, 8), (24, 12), (26, 16)]
        \<and> drop 32 (p @ x) = u32le 16 @ u32le 48 @ u32le 60 @ u32le 68 @ x)"
proof -
  let ?p = "u32le 28 @ map byte_of (js ''$ENC'') @ u16le 20 @ u16le 20
     @ u16le 0 @ u16le 0 @ u16le 0 @ u16le 0 @ u16le 4 @ u16le 8 @ u16le 12 @ u16le 16
     @ u32le 20 @ u32le 16 @ u32le 48 @ u32le 60 @ u32le 68"
  have p: "?p = [28, 0, 0, 0, 0x24, 0x45, 0x4e, 0x43, 20, 0, 20, 0, 0, 0, 0, 0, 0, 0, 0, 0, 4, 0, 8, 0, 12, 0, 16, 0,
      20, 0, 0, 0, 16, 0, 0, 0, 48, 0, 0, 0, 60, 0, 0, 0, 68, 0, 0, 0]"
    by (simp add: bytes_of_literal u16le_def u32le_def byte_of_def)
  have d: "drop 32 ?p = u32le 16 @ u32le 48 @ u32le 60 @ u32le 68" by simp
  have l: "length ?p = 48" by simp
  show ?thesis
  proof (intro exI conjI allI)
    show "enc_bytes e n r c = ?p @ byte_vector e @ byte_vector n @ byte_vector r @ byte_vector c" by (simp add: enc_bytes_def)
    show "length ?p = 48" by (fact l)
    fix x
    show "drop 32 (?p @ x) = u32le 16 @ u32le 48 @ u32le 60 @ u32le 68 @ x" using d by simp
    show "read_u32 (?p @ x) 0 = Inr 28" "read_i32 (?p @ x) 28 = Inr 20" "read_u16 (?p @ x) 8 = Inr 20" "read_u16 (?p @ x) 10 = Inr 20"
      unfolding p by (simp_all add: read_u32_def read_i32_def read_u16_def)
    show "identified (?p @ x) ''$ENC''"
      unfolding p by (simp add: identified_def read_byte_def js_def upt_rec)
    show "list_all (\<lambda>(i, o'). read_u16 (?p @ x) i = Inr o')
            [(12, 0), (14, 0), (16, 0), (18, 0), (20, 4), (22, 8), (24, 12), (26, 16)]"
      unfolding p by (simp add: read_u16_def)
  qed
qed

lemma enc_bytes_fields:
  assumes "length e = 32" "length n = 12" "length r = 8" "length c < 4294967296"
  shows "\<exists>t. table (jbytes (enc_bytes e n r c)) ''$ENC'' = Inr t \<and> list_all (\<lambda>i. slot t i = Inr 0) [0, 1, 2, 3]
    \<and> vector t 4 = Inr (Some e) \<and> vector t 5 = Inr (Some n) \<and> vector t 6 = Inr (Some r) \<and> vector t 7 = Inr (Some c)"
proof -
  let ?x = "byte_vector e @ byte_vector n @ byte_vector r @ byte_vector c"
  obtain p where p: "enc_bytes e n r c = p @ ?x" "length p = 48"
      "read_u32 (p @ ?x) 0 = Inr 28" "read_i32 (p @ ?x) 28 = Inr 20" "identified (p @ ?x) ''$ENC''"
      "read_u16 (p @ ?x) 8 = Inr 20" "read_u16 (p @ ?x) 10 = Inr 20"
      "list_all (\<lambda>(i, o'). read_u16 (p @ ?x) i = Inr o') [(12, 0), (14, 0), (16, 0), (18, 0), (20, 4), (22, 8), (24, 12), (26, 16)]"
      "drop 32 (p @ ?x) = u32le 16 @ u32le 48 @ u32le 60 @ u32le 68 @ ?x"
    using enc_bytes_prefix [of e n r c] by blast
  define bs where "bs = p @ ?x"
  define t where "t = \<lparr>fb_bytes = bs, fb_root = 28, fb_vtable = 8, fb_vtable_length = 20, fb_object_length = 20\<rparr>"
  note q = p(3-9) [folded bs_def]
  have len: "length bs = 116 + length c" using p(2) assms by (simp add: bs_def)
  have "table_at bs ''$ENC'' = Inr t"
    using q len by (simp add: table_at_def checks_ensure t_def)
  then have "table (jbytes (enc_bytes e n r c)) ''$ENC'' = Inr t" by (simp add: table_def jbytes_def p(1) bs_def)
  moreover have s: "list_all (\<lambda>i. slot t i = Inr 0) [0, 1, 2, 3]" "slot t 4 = Inr 4" "slot t 5 = Inr 8" "slot t 6 = Inr 12" "slot t 7 = Inr 16"
    using q(6) by (simp_all add: slot_def t_def checks_ensure)
  have dr: "drop (32 + k) bs = drop k (u32le 16 @ u32le 48 @ u32le 60 @ u32le 68 @ ?x)" for k
    unfolding q(7) [symmetric] by (simp add: add.commute)
  have off: "drop 32 bs = u32le 16 @ u32le 48 @ u32le 60 @ u32le 68 @ ?x" "drop 36 bs = u32le 48 @ u32le 60 @ u32le 68 @ ?x"
    "drop 40 bs = u32le 60 @ u32le 68 @ ?x" "drop 44 bs = u32le 68 @ ?x"
    using dr [of 0] dr [of 4] dr [of 8] dr [of 12] by simp_all
  have vec: "drop 48 bs = ?x" "drop 84 bs = byte_vector n @ byte_vector r @ byte_vector c" "drop 100 bs = byte_vector r @ byte_vector c"
    "drop 112 bs = byte_vector c"
    using dr [of 16] dr [of 52] dr [of 68] dr [of 80] assms by simp_all
  have "vector t 4 = Inr (Some e)" using s(2) off(1) vec(1) assms by (intro vector_at [where offset = 4 and forward = 16]) (simp_all add: t_def)
  moreover have "vector t 5 = Inr (Some n)" using s(3) off(2) vec(2) assms by (intro vector_at [where offset = 8 and forward = 48]) (simp_all add: t_def)
  moreover have "vector t 6 = Inr (Some r)" using s(4) off(3) vec(3) assms by (intro vector_at [where offset = 12 and forward = 60]) (simp_all add: t_def)
  moreover have "vector t 7 = Inr (Some c)" using s(5) off(4) vec(4) assms by (intro vector_at [where offset = 16 and forward = 68 and y = "[]"]) (simp_all add: t_def)
  ultimately show ?thesis using s(1) by blast
qed

lemma enc_bytes_read:
  assumes "length e = 32" "length n = 12" "length r = 8" "c \<noteq> []" "length c < 4294967296" "text_decode c = Some text"
  shows "read_enc_header (jbytes (enc_bytes e n r c))
     = Inr \<lparr>enc_context = text, enc_ephemeral_public = e, enc_recipient_key_id = r\<rparr>"
proof -
  obtain t where t: "table (jbytes (enc_bytes e n r c)) ''$ENC'' = Inr t" "list_all (\<lambda>i. slot t i = Inr 0) [0, 1, 2, 3]"
      "vector t 4 = Inr (Some e)" "vector t 5 = Inr (Some n)" "vector t 6 = Inr (Some r)" "vector t 7 = Inr (Some c)"
    using enc_bytes_fields [OF assms(1-3,5)] by blast
  have "is_ok (check_scalar t 0 1 1)" "is_ok (check_scalar t 1 0 0)" "is_ok (check_scalar t 2 0 0)" "is_ok (check_scalar t 3 0 0)"
    using t(2) by (simp_all add: check_scalar_def scalar_def)
  then show ?thesis using t assms by (simp add: read_enc_header_def checks_Inr_iff has_length_def)
qed

lemma utf8_not_bom:
  assumes "js_wf s" "utf16_ok s" "s = [] \<or> hd s \<noteq> 65279"
  shows "take 3 (utf8_encode s) \<noteq> [0xef, 0xbb, 0xbf]"
proof
  assume "take 3 (utf8_encode s) = [0xef, 0xbb, 0xbf]"
  then obtain bs where "utf8_encode s = 0xef # 0xbb # 0xbf # bs" by (metis append_Cons append_Nil append_take_drop_id)
  moreover have "decode_scalars (map unat (utf8_encode s)) = Some (usv_scalars s)"
    using decode_utf8_scalars [OF usv_scalars_valid [OF assms(1)]] by (simp add: utf8_encode_def)
  ultimately obtain cs where "usv_scalars s = 65279 # cs"
    by (auto simp: is_continuation_def dest: sym)
  then have "s \<noteq> [] \<and> hd s = 65279" using assms(1,2) pair_scalar_bounds [of "hd s" "hd (tl s)"]
    by (cases s rule: usv_scalars.cases) (auto split: if_splits)
  with assms(3) show False by blast
qed

lemma utf8_encode_eq_Nil: "utf8_encode s = [] \<longleftrightarrow> s = []"
proof -
  have "utf8_scalar c \<noteq> []" for c by (simp add: utf8_scalar_def)
  then show ?thesis by (cases s rule: usv_scalars.cases) (auto simp: utf8_encode_def)
qed

definition sample_sealed_context :: jstring where
  "sample_sealed_context = js ''sdn-field-encryption/v1|flatbuffers|record|field|key-1''"

lemma sample_sealed_context_text:
  "text_decode (utf8_encode sample_sealed_context) = Some sample_sealed_context" "utf8_encode sample_sealed_context \<noteq> []"
  "js_wf sample_sealed_context" "utf16_ok sample_sealed_context" "hd sample_sealed_context \<noteq> 65279"
  "length (utf8_encode sample_sealed_context) < 4294967296" "sample_sealed_context \<noteq> []"
proof -
  have a: "is_ascii sample_sealed_context" by (simp add: sample_sealed_context_def js_def)
  then show u: "utf16_ok sample_sealed_context" "js_wf sample_sealed_context" "utf8_encode sample_sealed_context \<noteq> []"
      "length (utf8_encode sample_sealed_context) < 4294967296" "hd sample_sealed_context \<noteq> 65279" "sample_sealed_context \<noteq> []"
    by (simp_all add: utf8_encode_ascii) (simp_all add: sample_sealed_context_def js_def is_high_surrogate_def is_low_surrogate_def)
  show "text_decode (utf8_encode sample_sealed_context) = Some sample_sealed_context"
    by (rule text_decode_encode_scalars [OF u(2,1) utf8_not_bom [OF u(2,1)]]) (use u in blast)
qed

subsection \<open>The properties\<close>

text \<open>C13: reading a sealed record is total and stays inside the record: for any input the readers
  return or throw the module's own error (no read past the buffer, whose \<open>RangeError\<close> would escape),
  and what an accepted header or key record yields are slices of the input, of the lengths the cipher
  needs, with a non-empty UTF-8 context.\<close>

theorem sealed_reads_bounded:
  "(\<forall>e. read_enc_header v = Inl e \<longrightarrow> e = Sealed_Envelope_Error) \<and> (\<forall>e. read_kmf_key_bytes v = Inl e \<longrightarrow> e = Sealed_Envelope_Error)
   \<and> (\<forall>h. read_enc_header v = Inr h \<longrightarrow> (\<exists>p bs ps n k context. v = JBytes p bs ps n k
        \<and> length (enc_ephemeral_public h) = 32 \<and> length (enc_recipient_key_id h) = 8
        \<and> sublist (enc_ephemeral_public h) bs \<and> sublist (enc_recipient_key_id h) bs
        \<and> sublist context bs \<and> context \<noteq> [] \<and> text_decode context = Some (enc_context h)))
   \<and> (\<forall>key. read_kmf_key_bytes v = Inr key \<longrightarrow> (\<exists>p bs ps n k. v = JBytes p bs ps n k \<and> length key = 32 \<and> sublist key bs))"
proof (intro conjI allI impI)
  have "only_sealed (read_enc_header v)"
    unfolding read_enc_header_def
    by (auto intro!: sealed_intros table_only_sealed check_scalar_only_sealed vector_only_sealed dest: table_Inr split: option.split)
  then show "read_enc_header v = Inl e \<Longrightarrow> e = Sealed_Envelope_Error" for e by (simp add: only_sealed_def)
  have "only_sealed (read_kmf_key_bytes v)"
    unfolding read_kmf_key_bytes_def
    by (auto intro!: sealed_intros table_only_sealed vector_only_sealed dest: table_Inr)
  then show "read_kmf_key_bytes v = Inl e \<Longrightarrow> e = Sealed_Envelope_Error" for e by (simp add: only_sealed_def)
next
  fix h assume "read_enc_header v = Inr h"
  then have "\<exists>t e r c. table v ''$ENC'' = Inr t \<and> vector t 4 = Inr (Some e) \<and> vector t 6 = Inr (Some r)
      \<and> vector t 7 = Inr (Some c) \<and> length e = 32 \<and> length r = 8 \<and> c \<noteq> [] \<and> text_decode c = Some (enc_context h)
      \<and> enc_ephemeral_public h = e \<and> enc_recipient_key_id h = r"
    by (auto simp: read_enc_header_def rbind_Inr_iff checks_Inr_iff has_length_def split: option.splits)
  then obtain t e r c where t: "table v ''$ENC'' = Inr t" "vector t 4 = Inr (Some e)" "vector t 6 = Inr (Some r)"
      "vector t 7 = Inr (Some c)" "length e = 32" "length r = 8" "c \<noteq> []" "text_decode c = Some (enc_context h)"
      "enc_ephemeral_public h = e" "enc_recipient_key_id h = r" by blast
  then show "\<exists>p bs ps n k context. v = JBytes p bs ps n k
        \<and> length (enc_ephemeral_public h) = 32 \<and> length (enc_recipient_key_id h) = 8
        \<and> sublist (enc_ephemeral_public h) bs \<and> sublist (enc_recipient_key_id h) bs
        \<and> sublist context bs \<and> context \<noteq> [] \<and> text_decode context = Some (enc_context h)"
    using table_Inr(2) [OF t(1)] vector_slice [OF t(2)] vector_slice [OF t(3)] vector_slice [OF t(4)]
    unfolding sublist_def by metis
next
  fix key assume "read_kmf_key_bytes v = Inr key"
  then obtain t where t: "table v ''$KMF'' = Inr t" "vector t 4 = Inr (Some key)" "length key = 32"
    by (auto simp: read_kmf_key_bytes_def rbind_Inr_iff checks_Inr_iff has_length_def split: option.splits)
  then show "\<exists>p bs ps n k. v = JBytes p bs ps n k \<and> length key = 32 \<and> sublist key bs"
    using table_Inr(2) [OF t(1)] vector_slice [OF t(2)] unfolding sublist_def by metis
qed

lemma sealed_reads_bounded_witness:
  "\<exists>h. read_enc_header (jbytes (enc_bytes (replicate 32 7) (replicate 12 8) (replicate 8 9) (utf8_encode sample_sealed_context))) = Inr h
     \<and> length (enc_ephemeral_public h) = 32 \<and> length (enc_recipient_key_id h) = 8"
proof -
  have "read_enc_header (jbytes (enc_bytes (replicate 32 7) (replicate 12 8) (replicate 8 9) (utf8_encode sample_sealed_context)))
      = Inr \<lparr>enc_context = sample_sealed_context, enc_ephemeral_public = replicate 32 7, enc_recipient_key_id = replicate 8 9\<rparr>"
    by (rule enc_bytes_read) (simp_all add: sample_sealed_context_text)
  then show ?thesis
    using sealed_reads_bounded [of "jbytes (enc_bytes (replicate 32 7) (replicate 12 8) (replicate 8 9) (utf8_encode sample_sealed_context))"]
    by blast
qed

text \<open>a header written with a 32-byte key, a 12-byte nonce, an 8-byte recipient id and the UTF-8
  text of a context is read back: the reader returns that context, key and recipient id.\<close>

theorem enc_header_roundtrip:
  assumes "length e = 32" "length n = 12" "length r = 8" "context \<noteq> []" "js_wf context" "utf16_ok context"
    "hd context \<noteq> 65279" "length (utf8_encode context) < 4294967296"
  shows "read_enc_header (jbytes (enc_bytes e n r (utf8_encode context)))
     = Inr \<lparr>enc_context = context, enc_ephemeral_public = e, enc_recipient_key_id = r\<rparr>"
  using assms by (intro enc_bytes_read text_decode_encode_scalars utf8_not_bom) (auto simp: utf8_encode_eq_Nil)

lemma enc_header_roundtrip_witness:
  "read_enc_header (jbytes (enc_bytes (replicate 32 7) (replicate 12 8) (replicate 8 9) (utf8_encode sample_sealed_context)))
     = Inr \<lparr>enc_context = sample_sealed_context, enc_ephemeral_public = replicate 32 7, enc_recipient_key_id = replicate 8 9\<rparr>"
  by (rule enc_header_roundtrip) (simp_all add: sample_sealed_context_text)

end
