(* ===== verification/ConsentMemory.thy ===== *)
theory ConsentMemory
  imports OriginGuards
begin

section \<open>Remembered consent: origin-app/consent-memory.mjs\<close>

text \<open>
  "Don't ask again for this site": grants kept as one JSON text under one storage key. The stored
  text is modelled by the value \<open>JSON.parse\<close> returns for it, \<open>Unreadable\<close> when it (or \<open>getItem\<close>)
  throws; every call also says whether the storage accepts the write (\<open>setItem\<close> and \<open>removeItem\<close>
  may throw). The order of a grant object is the order its entries were added (scopes always contain
  a bar, so they are never index names), times are integers of milliseconds.
\<close>

subsection \<open>The store\<close>

definition SESSION_MS :: int where "SESSION_MS = 15 * 60 * 1000"
definition MAX_UNATTENDED :: int where "MAX_UNATTENDED = 20"
definition MAX_GRANTS :: nat where "MAX_GRANTS = 16"

datatype stored = Missing | Unreadable | Stored jval

type_synonym grants = "(jstring \<times> int \<times> int) list" \<comment> \<open>scope, expiry, openings left\<close>

definition live_grant :: "int \<Rightarrow> jval \<Rightarrow> (int \<times> int) option" where
  "live_grant now grant = (case (fld grant ''expiresAt'', fld grant ''remaining'') of
       (JNum e, JNum r) \<Rightarrow>
         if num_is_safe_integer e \<and> num_less (Fin (of_int now)) e \<and> num_real e - of_int now \<le> of_int SESSION_MS
            \<and> num_is_safe_integer r \<and> num_less (Fin 0) r \<and> num_le r (Fin (of_int MAX_UNATTENDED))
         then Some (\<lfloor>num_real e\<rfloor>, \<lfloor>num_real r\<rfloor>) else None
     | _ \<Rightarrow> None)"

definition grant_entries :: "stored \<Rightarrow> (jstring \<times> jval) list" where
  \<comment> \<open>\<open>Object.entries\<close> of the stored object; anything else counts as empty\<close>
  "grant_entries s = (case s of
       Stored (JObj _ ps _) \<Rightarrow> List.map_filter (\<lambda>(k, p). case p of Data True v \<Rightarrow> Some (k, v) | _ \<Rightarrow> None) ps
     | _ \<Rightarrow> [])"

definition read_grants :: "stored \<Rightarrow> int \<Rightarrow> grants" where
  \<comment> \<open>assigning the name \<open>__proto__\<close> of the fresh object adds no entry\<close>
  "read_grants s now = List.map_filter
     (\<lambda>(scope, grant). if scope = proto_name then None else map_option (Pair scope) (live_grant now grant)) (grant_entries s)"

definition grant_object :: "grants \<Rightarrow> jval" where
  "grant_object gs = jobj (map (\<lambda>(k, e, r). (k, jobj [(js ''expiresAt'', jint e), (js ''remaining'', jint r)])) gs)"

definition write_grants :: "bool \<Rightarrow> stored \<Rightarrow> grants \<Rightarrow> stored \<times> bool" where
  "write_grants accepts s gs =
     (if \<not> accepts then (s, False) else if gs = [] then (Missing, True) else (Stored (grant_object gs), True))"

subsection \<open>The operations\<close>

definition put_grant :: "jstring \<Rightarrow> int \<times> int \<Rightarrow> grants \<Rightarrow> grants" where
  \<comment> \<open>\<open>grants[scope] = grant\<close>: an entry keeps its place, a new one is added at the end\<close>
  "put_grant scope g gs =
     (if scope \<in> fst ` set gs then map (\<lambda>(k, h). (k, if k = scope then g else h)) gs else gs @ [(scope, g)])"

definition consent_take :: "bool \<Rightarrow> jstring option \<Rightarrow> int \<Rightarrow> stored \<Rightarrow> bool \<times> stored" where
  "consent_take accepts scope now s = (case scope of
       None \<Rightarrow> (False, s)
     | Some k \<Rightarrow> if k = [] then (False, s) else
         (let gs = read_grants s now in
          case map_of gs k of
            None \<Rightarrow> (False, s)
          | Some (e, r) \<Rightarrow>
              (let gs' = if r - 1 = 0 then filter (\<lambda>(k', _). k' \<noteq> k) gs else put_grant k (e, r - 1) gs;
                   (s', ok) = write_grants accepts s gs'
               in (ok, s'))))"

definition evict :: "grants \<Rightarrow> grants" where
  \<comment> \<open>over the limit, the grants that expire first go\<close>
  "evict gs = (if MAX_GRANTS < length gs
     then (let old = map fst (take (length gs - MAX_GRANTS) (sort_key (\<lambda>(_, e, _). e) gs))
           in filter (\<lambda>(k, _). k \<notin> set old) gs)
     else gs)"

definition consent_grant :: "bool \<Rightarrow> jstring option \<Rightarrow> int \<Rightarrow> stored \<Rightarrow> stored" where
  "consent_grant accepts scope now s = (case scope of
       None \<Rightarrow> s
     | Some k \<Rightarrow> if k = [] then s else
         fst (write_grants accepts s (evict (put_grant k (now + SESSION_MS, MAX_UNATTENDED) (read_grants s now)))))"

definition consent_clear :: "bool \<Rightarrow> stored \<Rightarrow> stored" where
  "consent_clear accepts s = fst (write_grants accepts s [])"

definition consent_scope :: "jval \<Rightarrow> jval \<Rightarrow> jstring option" where
  \<comment> \<open>the binding's fields are the registry's strings\<close>
  "consent_scope binding identity =
     (if fld binding ''operation'' \<noteq> jlit ''sdn.wallet.field-open.v1'' \<and> fld binding ''operation'' \<noteq> jlit ''sdn.wallet.key-unwrap.v1''
      then None
      else (case List.find (\<lambda>k. strict_eq (fld k ''purpose'') (jlit ''contact-encryption'')) (array_values (fld identity ''keys'')) of
              None \<Rightarrow> None
            | Some key \<Rightarrow> if is_str (fld key ''keyId'')
                then Some (join_with 124 [str_of (fld binding ''clientId''), str_of (fld binding ''requestOrigin''),
                       str_of (fld binding ''operation''), str_of (fld key ''keyId'')])
                else None))"

subsection \<open>The store as an interface\<close>

definition live :: "int \<Rightarrow> int \<times> int \<Rightarrow> bool" where
  "live now g \<longleftrightarrow> \<bar>fst g\<bar> \<le> 9007199254740991 \<and> now < fst g \<and> fst g - now \<le> SESSION_MS \<and> 0 < snd g \<and> snd g \<le> MAX_UNATTENDED"

definition plain_grants :: "grants \<Rightarrow> bool" where
  "plain_grants gs \<longleftrightarrow> distinct (map fst gs) \<and> proto_name \<notin> fst ` set gs"

locale grant_store =
  fixes load :: "'s \<Rightarrow> int \<Rightarrow> grants"
    and save :: "bool \<Rightarrow> 's \<Rightarrow> grants \<Rightarrow> 's \<times> bool"
  assumes load_save: "plain_grants gs \<Longrightarrow> load (fst (save True s gs)) now = filter (\<lambda>(_, g). live now g) gs"
    and load_fail: "fst (save False s gs) = s"
    and save_ok: "snd (save accepts s gs) = accepts"
    and load_live: "(k, g) \<in> set (load s now) \<Longrightarrow> live now g \<and> k \<noteq> proto_name"
begin

lemma load_save_fail: "load (fst (save False s gs)) now = load s now"
  by (simp add: load_fail)

lemma load_save_subset:
  "plain_grants gs \<Longrightarrow> (k, g) \<in> set (load (fst (save accepts s gs)) now) \<Longrightarrow> (k, g) \<in> set gs \<or> (k, g) \<in> set (load s now)"
  by (cases accepts) (auto simp: load_save load_save_fail)

end

lemma map_filter_filter: "List.map_filter f (filter P xs) = List.map_filter (\<lambda>x. if P x then f x else None) xs"
  by (induction xs) (auto simp: List.map_filter_def)

lemma live_grant_object:
  "live_grant now (jobj [(js ''expiresAt'', jint e), (js ''remaining'', jint r)]) = (if live now (e, r) then Some (e, r) else None)"
proof -
  have "num_is_safe_integer (Fin (of_int n)) \<longleftrightarrow> \<bar>n\<bar> \<le> 9007199254740991" for n
    by (simp add: num_is_safe_integer_def num_is_integer_def num_is_finite_def num_real_def) linarith
  moreover have "num_less (Fin (of_int a)) (Fin (of_int b)) \<longleftrightarrow> a < b" "num_le (Fin (of_int a)) (Fin (of_int b)) \<longleftrightarrow> a \<le> b" for a b
    by (auto simp: num_less_def num_le_def num_eq_def num_is_finite_def num_real_def)
  moreover have "num_less (Fin 0) (Fin (of_int a)) \<longleftrightarrow> 0 < a" for a
    by (auto simp: num_less_def num_real_def)
  moreover have "(of_int e - of_int now \<le> (of_int SESSION_MS :: rat)) \<longleftrightarrow> e - now \<le> SESSION_MS"
    by (metis of_int_diff of_int_le_iff)
  moreover have "r \<le> MAX_UNATTENDED \<Longrightarrow> r \<le> 9007199254740991" "0 < r \<Longrightarrow> \<bar>r\<bar> = r" by (simp_all add: MAX_UNATTENDED_def)
  ultimately show ?thesis
    by (auto simp: live_grant_def live_def fld_def field_jobj jint_def num_real_def)
qed

lemma safe_integer_floor: "num_is_safe_integer n \<Longrightarrow> num_is_finite n \<and> num_real n = of_int \<lfloor>num_real n\<rfloor> \<and> \<bar>\<lfloor>num_real n\<rfloor>\<bar> \<le> 9007199254740991"
proof -
  assume a: "num_is_safe_integer n"
  then have f: "num_is_finite n" "num_real n = of_int \<lfloor>num_real n\<rfloor>" by (auto simp: num_is_safe_integer_def num_is_integer_def)
  with a have "\<bar>of_int \<lfloor>num_real n\<rfloor> :: rat\<bar> \<le> of_int 9007199254740991" by (simp add: num_is_safe_integer_def)
  then have "\<bar>\<lfloor>num_real n\<rfloor>\<bar> \<le> 9007199254740991" by (metis of_int_abs of_int_le_iff)
  with f show ?thesis by blast
qed

lemma live_grant_live: "live_grant now v = Some g \<Longrightarrow> live now g"
proof -
  assume "live_grant now v = Some g"
  then obtain e r where er: "num_is_safe_integer e" "num_less (Fin (of_int now)) e" "num_real e - of_int now \<le> of_int SESSION_MS"
      "num_is_safe_integer r" "num_less (Fin 0) r" "num_le r (Fin (of_int MAX_UNATTENDED))" "g = (\<lfloor>num_real e\<rfloor>, \<lfloor>num_real r\<rfloor>)"
    by (auto simp: live_grant_def split: jval.splits if_splits)
  note e = safe_integer_floor [OF er(1)] and r = safe_integer_floor [OF er(4)]
  have f: "num_is_finite (Fin x)" "num_real (Fin x) = x" for x by (simp_all add: num_is_finite_def num_real_def)
  have "(of_int now :: rat) < of_int \<lfloor>num_real e\<rfloor>" "(0 :: rat) < of_int \<lfloor>num_real r\<rfloor>"
    "(of_int \<lfloor>num_real r\<rfloor> :: rat) \<le> of_int MAX_UNATTENDED" "(of_int (\<lfloor>num_real e\<rfloor> - now) :: rat) \<le> of_int SESSION_MS"
    using er e r f by (simp_all add: num_less_real num_le_real)
  then have "now < \<lfloor>num_real e\<rfloor>" "0 < \<lfloor>num_real r\<rfloor>" "\<lfloor>num_real r\<rfloor> \<le> MAX_UNATTENDED" "\<lfloor>num_real e\<rfloor> - now \<le> SESSION_MS"
    by (simp_all only: of_int_less_iff of_int_le_iff of_int_0_less_iff)
  then show ?thesis using e er(7) by (simp add: live_def)
qed

interpretation consent: grant_store read_grants write_grants
proof
  fix gs s now assume "plain_grants gs"
  then have p: "proto_name \<notin> fst ` set gs" by (simp add: plain_grants_def)
  have e: "grant_entries (Stored (grant_object gs))
      = map (\<lambda>(k, e, r). (k, jobj [(js ''expiresAt'', jint e), (js ''remaining'', jint r)])) gs"
    by (induction gs) (auto simp: grant_entries_def grant_object_def jobj_def jdata_def List.map_filter_def)
  have "read_grants (Stored (grant_object gs)) now = filter (\<lambda>(_, g). live now g) gs"
    unfolding read_grants_def e using p
    by (induction gs) (auto simp: List.map_filter_def live_grant_object)
  then show "read_grants (fst (write_grants True s gs)) now = filter (\<lambda>(_, g). live now g) gs"
    by (simp add: write_grants_def read_grants_def grant_entries_def List.map_filter_def)
next
  fix k g s now assume "(k, g) \<in> set (read_grants s now)"
  then obtain v where "live_grant now v = Some g" "k \<noteq> proto_name"
    by (auto simp: read_grants_def List.map_filter_def split: if_splits)
  then show "live now g \<and> k \<noteq> proto_name" using live_grant_live by blast
qed (simp_all add: write_grants_def)

subsection \<open>Histories\<close>

text \<open>
  A history is the list of calls with what each returned, the latest first, from an empty store. Each
  call carries the time it read and whether the storage accepted its write.
\<close>

datatype consent_event =
    Consent_Take jstring int bool
  | Consent_Grant jstring int bool
  | Consent_Clear bool

fun consent_step :: "consent_event \<Rightarrow> stored \<Rightarrow> bool \<times> stored" where
  "consent_step (Consent_Take k now accepts) s = consent_take accepts (Some k) now s"
| "consent_step (Consent_Grant k now accepts) s = (True, consent_grant accepts (Some k) now s)"
| "consent_step (Consent_Clear accepts) s = (True, consent_clear accepts s)"

type_synonym consent_log = "(consent_event \<times> bool) list"

inductive consent_reach :: "consent_log \<Rightarrow> stored \<Rightarrow> bool" where
  start: "consent_reach [] Missing"
| step: "consent_reach hist s \<Longrightarrow> consent_step ev s = (ok, s') \<Longrightarrow> consent_reach ((ev, ok) # hist) s'"

inductive_cases consent_reachE: "consent_reach hist s"
inductive_simps consent_reach_simps: "consent_reach [] s" "consent_reach ((ev, ok) # hist) s"

fun opened :: "jstring \<Rightarrow> consent_event \<times> bool \<Rightarrow> bool" where
  "opened k (Consent_Take k' _ _, ok) = (ok \<and> k' = k)"
| "opened k (_, ok) = False"

fun granted :: "jstring \<Rightarrow> consent_event \<times> bool \<Rightarrow> bool" where
  "granted k (Consent_Grant k' _ accepts, _) = (accepts \<and> k' = k)"
| "granted k (_, ok) = False"

definition openings :: "jstring \<Rightarrow> consent_log \<Rightarrow> int" where
  "openings k hist = int (length (filter (opened k) hist))"

definition given :: "jstring \<Rightarrow> consent_log \<Rightarrow> int" where
  "given k hist = int (length (filter (granted k) hist))"

fun granted_at :: "consent_log \<Rightarrow> jstring \<Rightarrow> int \<Rightarrow> bool" where
  \<comment> \<open>a grant of \<open>k\<close> at that time was stored, and no clear was since\<close>
  "granted_at [] k t = False"
| "granted_at ((Consent_Grant k' t' accepts, _) # hist) k t = ((accepts \<and> k' = k \<and> t' = t) \<or> granted_at hist k t)"
| "granted_at ((Consent_Clear accepts, _) # hist) k t = (\<not> accepts \<and> granted_at hist k t)"
| "granted_at ((Consent_Take _ _ _, _) # hist) k t = granted_at hist k t"

lemma openings_simps [simp]: "openings k [] = 0" "given k [] = 0"
  "openings k (x # hist) = (if opened k x then openings k hist + 1 else openings k hist)"
  "given k (x # hist) = (if granted k x then given k hist + 1 else given k hist)"
  by (simp_all add: openings_def given_def)

definition stored_of :: "grants \<Rightarrow> stored" where
  "stored_of gs = (if gs = [] then Missing else Stored (grant_object gs))"

definition grants_ok :: "consent_log \<Rightarrow> grants \<Rightarrow> bool" where
  "grants_ok hist gs \<longleftrightarrow> plain_grants gs \<and> (\<forall>(k, e, r)\<in>set gs. 0 < r \<and> r \<le> MAX_UNATTENDED \<and> k \<noteq> []
     \<and> granted_at hist k (e - SESSION_MS) \<and> openings k hist + r \<le> MAX_UNATTENDED * given k hist)"

definition consent_inv :: "consent_log \<Rightarrow> stored \<Rightarrow> bool" where
  "consent_inv hist s \<longleftrightarrow> (\<exists>gs. s = stored_of gs \<and> length gs \<le> MAX_GRANTS \<and> grants_ok hist gs)
     \<and> (\<forall>k. openings k hist \<le> MAX_UNATTENDED * given k hist)"

lemma write_grants_eq: "write_grants True s gs = (stored_of gs, True)" "write_grants False s gs = (s, False)"
  by (simp_all add: write_grants_def stored_of_def)

lemma read_stored: "plain_grants gs \<Longrightarrow> read_grants (stored_of gs) now = filter (\<lambda>(_, g). live now g) gs"
  using consent.load_save [of gs Missing now] by (simp add: write_grants_eq)

lemma plain_filter [simp]: "plain_grants gs \<Longrightarrow> plain_grants (filter P gs)"
  by (auto simp: plain_grants_def distinct_map_filter)

lemma fst_put_grant: "map fst (put_grant k g gs) = (if k \<in> fst ` set gs then map fst gs else map fst gs @ [k])"
  by (auto simp: put_grant_def)

lemma plain_put: "plain_grants gs \<Longrightarrow> k \<noteq> proto_name \<Longrightarrow> plain_grants (put_grant k g gs)"
  unfolding plain_grants_def list.set_map [symmetric] fst_put_grant by auto

lemma in_put_grant: "x \<in> set (put_grant k g gs) \<Longrightarrow> x = (k, g) \<or> (x \<in> set gs \<and> fst x \<noteq> k)"
  by (force simp: put_grant_def split: if_splits)

lemma length_put_grant: "length (put_grant k g gs) \<le> Suc (length gs)" "k \<in> fst ` set gs \<Longrightarrow> length (put_grant k g gs) = length gs"
  by (simp_all add: put_grant_def)

lemma set_evict: "set (evict gs) \<subseteq> set gs"
  by (auto simp: evict_def Let_def)

lemma plain_evict: "plain_grants gs \<Longrightarrow> plain_grants (evict gs)"
  by (simp add: evict_def Let_def)

lemma length_evict: "plain_grants gs \<Longrightarrow> length (evict gs) \<le> MAX_GRANTS"
proof (cases "MAX_GRANTS < length gs")
  case True
  assume p: "plain_grants gs"
  then have d: "distinct (map fst gs)" by (simp add: plain_grants_def)
  let ?n = "length gs - MAX_GRANTS"
  define old where "old = map fst (take ?n (sort_key (\<lambda>(_, e, _). e) gs))"
  have "distinct (map fst (sort_key (\<lambda>(_, e, _). e) gs))"
    using d by (metis mset_map mset_sort mset_eq_imp_distinct_iff)
  then have o: "distinct old" unfolding old_def by (metis distinct_take take_map)
  have sub: "set old \<subseteq> set (map fst gs)"
    unfolding old_def using set_take_subset by fastforce
  have "length (evict gs) = card (set (map fst (evict gs)))"
    using plain_evict [OF p] distinct_card [of "map fst (evict gs)"] by (simp add: plain_grants_def)
  also have "set (map fst (evict gs)) = set (map fst gs) - set old"
    using True by (force simp: evict_def Let_def old_def image_iff)
  also have "card (set (map fst gs) - set old) = length gs - length old"
    using card_Diff_subset [of "set old" "set (map fst gs)"] sub o d by (simp add: distinct_card del: set_map)
  also have "length old = ?n" by (simp add: old_def)
  finally show ?thesis using True by simp
qed (simp add: evict_def)

lemma grants_ok_filter: "grants_ok hist gs \<Longrightarrow> grants_ok hist (filter P gs)"
  by (auto simp: grants_ok_def)

lemma grants_ok_subset: "grants_ok hist gs \<Longrightarrow> set hs \<subseteq> set gs \<Longrightarrow> plain_grants hs \<Longrightarrow> grants_ok hist hs"
  by (auto simp: grants_ok_def)

lemma consent_inv_same:
  \<comment> \<open>a call that stores nothing and opens nothing keeps the invariant\<close>
  assumes "consent_inv hist s" "\<And>k. \<not> opened k x" "\<And>k. \<not> granted k x" "\<And>k t. granted_at (x # hist) k t = granted_at hist k t"
  shows "consent_inv (x # hist) s"
  using assms unfolding consent_inv_def grants_ok_def by simp

lemma consent_take_inv:
  assumes inv: "consent_inv hist s" and st: "consent_take accepts (Some k) now s = (ok, s')"
  shows "consent_inv ((Consent_Take k now accepts, ok) # hist) s'
     \<and> (ok \<longrightarrow> (\<exists>t. granted_at hist k t \<and> t \<le> now \<and> now < t + SESSION_MS))"
proof -
  have none: "consent_inv ((Consent_Take k now accepts, False) # hist) s"
    using inv by (rule consent_inv_same) auto
  from inv obtain gs where gs: "s = stored_of gs" "length gs \<le> MAX_GRANTS" "grants_ok hist gs"
    and total: "\<And>k. openings k hist \<le> MAX_UNATTENDED * given k hist" by (auto simp: consent_inv_def)
  define fs where "fs = filter (\<lambda>(_, g). live now g) gs"
  have rd: "read_grants s now = fs" using gs by (simp add: read_stored grants_ok_def fs_def)
  have fs: "grants_ok hist fs" "length fs \<le> MAX_GRANTS"
    unfolding fs_def using gs(2) grants_ok_filter [OF gs(3)] by (auto intro: order_trans [OF length_filter_le])
  show ?thesis
  proof (cases "k = [] \<or> map_of fs k = None \<or> \<not> accepts")
    case True
    then have "ok = False \<and> s' = s" using st
      by (auto simp: consent_take_def Let_def rd write_grants_eq split: if_splits option.splits)
    then show ?thesis using none by simp
  next
    case False
    then obtain e r where er: "map_of fs k = Some (e, r)" "(k, e, r) \<in> set fs" by (auto dest: map_of_SomeD)
    have l: "live now (e, r)" using er(2) by (auto simp: fs_def)
    have g: "0 < r" "r \<le> MAX_UNATTENDED" "granted_at hist k (e - SESSION_MS)" "openings k hist + r \<le> MAX_UNATTENDED * given k hist" "k \<noteq> []"
      "k \<noteq> proto_name"
      using fs(1) er(2) by (force simp: grants_ok_def plain_grants_def)+
    define hs where "hs = (if r - 1 = 0 then filter (\<lambda>(k', _). k' \<noteq> k) fs else put_grant k (e, r - 1) fs)"
    have res: "ok = True" "s' = stored_of hs"
      using st False er(1) by (simp_all add: consent_take_def Let_def rd write_grants_eq hs_def split: if_splits)
    have in_hs: "x \<in> set fs \<and> fst x \<noteq> k \<or> x = (k, e, r - 1) \<and> 0 < r - 1" if "x \<in> set hs" for x
      using that g(1) in_put_grant [of x k "(e, r - 1)" fs] by (auto simp: hs_def split: if_splits)
    have "plain_grants hs" using fs(1) g(6) plain_put by (auto simp: hs_def grants_ok_def)
    moreover have "\<forall>(k', e', r')\<in>set hs. 0 < r' \<and> r' \<le> MAX_UNATTENDED \<and> k' \<noteq> []
        \<and> granted_at hist k' (e' - SESSION_MS)
        \<and> openings k' ((Consent_Take k now accepts, ok) # hist) + r' \<le> MAX_UNATTENDED * given k' hist"
      using in_hs g fs(1) res(1) by (fastforce simp: grants_ok_def)
    ultimately have ok': "grants_ok ((Consent_Take k now accepts, ok) # hist) hs" by (auto simp: grants_ok_def)
    have "k \<in> fst ` set fs" using er(2) by force
    then have "length hs \<le> MAX_GRANTS" using fs(2) length_put_grant(2) [of k fs "(e, r - 1)"]
      by (auto simp: hs_def intro: order_trans [OF length_filter_le])
    moreover have "openings k' ((Consent_Take k now accepts, ok) # hist) \<le> MAX_UNATTENDED * given k' hist" for k'
      using total [of k'] g(1,4) res(1) by auto
    ultimately have "consent_inv ((Consent_Take k now accepts, ok) # hist) s'"
      using ok' res(2) by (auto simp: consent_inv_def)
    moreover have "e - SESSION_MS \<le> now" "now < e - SESSION_MS + SESSION_MS" using l by (simp_all add: live_def)
    ultimately show ?thesis using g(3) by blast
  qed
qed

lemma consent_grant_inv:
  assumes inv: "consent_inv hist s" and k: "k \<noteq> proto_name"
  shows "consent_inv ((Consent_Grant k now accepts, ok) # hist) (consent_grant accepts (Some k) now s)"
proof -
  let ?x = "(Consent_Grant k now accepts, ok)"
  from inv obtain gs where gs: "s = stored_of gs" "length gs \<le> MAX_GRANTS" "grants_ok hist gs"
    and total: "\<And>k. openings k hist \<le> MAX_UNATTENDED * given k hist" by (auto simp: consent_inv_def)
  have more: "given k' (?x # hist) \<ge> given k' hist" "openings k' (?x # hist) = openings k' hist" for k' by simp_all
  have total': "openings k' (?x # hist) \<le> MAX_UNATTENDED * given k' (?x # hist)" for k'
    using total [of k'] by (auto simp: MAX_UNATTENDED_def)
  have keep: "grants_ok (?x # hist) hs" if "grants_ok hist hs" for hs
    using that by (fastforce simp: grants_ok_def MAX_UNATTENDED_def)
  show ?thesis
  proof (cases "k = [] \<or> \<not> accepts")
    case True
    then have "consent_grant accepts (Some k) now s = s" by (auto simp: consent_grant_def write_grants_eq)
    then show ?thesis using gs(1,2) keep [OF gs(3)] total' by (auto simp: consent_inv_def)
  next
    case False
    define fs where "fs = filter (\<lambda>(_, g). live now g) gs"
    have rd: "read_grants s now = fs" using gs by (simp add: read_stored grants_ok_def fs_def)
    have fs: "grants_ok (?x # hist) fs" unfolding fs_def by (rule keep [OF grants_ok_filter [OF gs(3)]])
    define hs where "hs = put_grant k (now + SESSION_MS, MAX_UNATTENDED) fs"
    have p: "plain_grants hs" unfolding hs_def using fs k by (intro plain_put) (simp_all add: grants_ok_def)
    have "\<forall>x\<in>set hs. x \<in> set fs \<or> x = (k, now + SESSION_MS, MAX_UNATTENDED)" using in_put_grant by (fastforce simp: hs_def)
    moreover have "granted_at (?x # hist) k (now + SESSION_MS - SESSION_MS)" "0 < MAX_UNATTENDED"
      "openings k (?x # hist) + MAX_UNATTENDED \<le> MAX_UNATTENDED * given k (?x # hist)"
      using False total [of k] by (auto simp: MAX_UNATTENDED_def)
    ultimately have "grants_ok (?x # hist) hs" using fs p False by (fastforce simp: grants_ok_def)
    then have "grants_ok (?x # hist) (evict hs)"
      by (rule grants_ok_subset [OF _ set_evict plain_evict [OF p]])
    moreover have "consent_grant accepts (Some k) now s = stored_of (evict hs)"
      using False by (simp add: consent_grant_def write_grants_eq rd hs_def)
    ultimately show ?thesis using total' length_evict [OF p] unfolding consent_inv_def by blast
  qed
qed

definition scope_names :: "consent_log \<Rightarrow> bool" where
  \<comment> \<open>no call names the scope \<open>__proto__\<close>: scopes are joined with a bar\<close>
  "scope_names hist \<longleftrightarrow> (\<forall>x\<in>set hist. \<forall>k now accepts. fst x = Consent_Grant k now accepts \<longrightarrow> k \<noteq> proto_name)"

lemma consent_reach_inv: "consent_reach hist s \<Longrightarrow> scope_names hist \<Longrightarrow> consent_inv hist s"
proof (induction rule: consent_reach.induct)
  case start
  then show ?case by (auto simp: consent_inv_def stored_of_def grants_ok_def plain_grants_def intro!: exI [of _ "[]"])
next
  case (step hist s ev ok s')
  then have inv: "consent_inv hist s" by (simp add: scope_names_def)
  show ?case
  proof (cases ev)
    case (Consent_Take k now accepts)
    then show ?thesis using consent_take_inv [OF inv, of accepts k now ok s'] step.hyps(2) by simp
  next
    case (Consent_Grant k now accepts)
    then show ?thesis using consent_grant_inv [OF inv, of k now accepts ok] step.hyps(2) step.prems by (auto simp: scope_names_def)
  next
    case (Consent_Clear accepts)
    show ?thesis
    proof (cases accepts)
      case True
      then show ?thesis using inv step.hyps(2) Consent_Clear
        by (auto simp: consent_inv_def consent_clear_def write_grants_def stored_of_def grants_ok_def plain_grants_def
            intro!: exI [of _ "[]"])
    next
      case False
      then have "s' = s" using step.hyps(2) Consent_Clear by (simp add: consent_clear_def write_grants_def)
      then show ?thesis using inv Consent_Clear False by (auto intro!: consent_inv_same)
    qed
  qed
qed

subsection \<open>The properties\<close>


definition sample_scope :: jstring where
  "sample_scope = js ''client|origin|operation|key''"

lemma sample_history: "consent_reach [(Consent_Grant sample_scope 0 True, True)] (stored_of [(sample_scope, 900000, 20)])"
proof -
  have "consent_grant True (Some sample_scope) 0 Missing = stored_of [(sample_scope, 900000, 20)]"
    by (simp add: consent_grant_def sample_scope_def write_grants_eq read_grants_def grant_entries_def List.map_filter_def
        put_grant_def evict_def MAX_GRANTS_def SESSION_MS_def MAX_UNATTENDED_def)
  then show ?thesis by (intro consent_reach.step [OF consent_reach.start]) simp
qed


lemma split_join: "xs \<noteq> [] \<Longrightarrow> \<forall>x\<in>set xs. d \<notin> set x \<Longrightarrow> split_on d (join_with d xs) = xs"
proof (induction d xs rule: join_with.induct)
  case (2 d x)
  then show ?case by (induction x) auto
next
  case (3 d x y xs)
  then have ih: "split_on d (join_with d (y # xs)) = y # xs" by simp
  have "d \<notin> set z \<Longrightarrow> split_on d (z @ d # join_with d (y # xs)) = z # y # xs" for z
    by (induction z) (auto simp: ih)
  with 3 show ?case by simp
qed simp

text \<open>a scope names one client, origin, operation and encryption key: it exists exactly for the two
  opening operations and an account with a contact-encryption key, and two bindings share a scope
  only if all four are the same (their texts contain no bar).\<close>

theorem consent_scope_separates:
  assumes "consent_scope b i = Some s" "consent_scope b' i' = Some s"
    "\<forall>f\<in>{''clientId'', ''requestOrigin''}. 124 \<notin> set (str_of (fld b f)) \<and> 124 \<notin> set (str_of (fld b' f))"
    "\<forall>j\<in>{i, i'}. \<forall>key\<in>set (array_values (fld j ''keys'')). 124 \<notin> set (str_of (fld key ''keyId''))"
  shows "(fld b ''operation'' = jlit ''sdn.wallet.field-open.v1'' \<or> fld b ''operation'' = jlit ''sdn.wallet.key-unwrap.v1'')
    \<and> fld b ''operation'' = fld b' ''operation'' \<and> str_of (fld b ''clientId'') = str_of (fld b' ''clientId'')
    \<and> str_of (fld b ''requestOrigin'') = str_of (fld b' ''requestOrigin'')
    \<and> (\<exists>key\<in>set (array_values (fld i ''keys'')). \<exists>key'\<in>set (array_values (fld i' ''keys'')).
         fld key ''purpose'' = jlit ''contact-encryption'' \<and> fld key ''keyId'' = fld key' ''keyId'')"
proof -
  have part: "\<exists>key\<in>set (array_values (fld j ''keys'')). fld key ''purpose'' = jlit ''contact-encryption'' \<and> is_str (fld key ''keyId'')
       \<and> (fld c ''operation'' = jlit ''sdn.wallet.field-open.v1'' \<or> fld c ''operation'' = jlit ''sdn.wallet.key-unwrap.v1'')
       \<and> s = join_with 124 [str_of (fld c ''clientId''), str_of (fld c ''requestOrigin''), str_of (fld c ''operation''), str_of (fld key ''keyId'')]"
    if "consent_scope c j = Some s" for c j
    using that by (force simp: consent_scope_def find_Some_iff split: if_splits option.splits)
  obtain key where key: "key \<in> set (array_values (fld i ''keys''))" "fld key ''purpose'' = jlit ''contact-encryption''" "is_str (fld key ''keyId'')"
      "fld b ''operation'' = jlit ''sdn.wallet.field-open.v1'' \<or> fld b ''operation'' = jlit ''sdn.wallet.key-unwrap.v1''"
      "s = join_with 124 [str_of (fld b ''clientId''), str_of (fld b ''requestOrigin''), str_of (fld b ''operation''), str_of (fld key ''keyId'')]"
    using part [OF assms(1)] by blast
  obtain key' where key': "key' \<in> set (array_values (fld i' ''keys''))" "is_str (fld key' ''keyId'')"
      "fld b' ''operation'' = jlit ''sdn.wallet.field-open.v1'' \<or> fld b' ''operation'' = jlit ''sdn.wallet.key-unwrap.v1''"
      "s = join_with 124 [str_of (fld b' ''clientId''), str_of (fld b' ''requestOrigin''), str_of (fld b' ''operation''), str_of (fld key' ''keyId'')]"
    using part [OF assms(2)] by blast
  have op: "124 \<notin> set (str_of v)" if "v = jlit ''sdn.wallet.field-open.v1'' \<or> v = jlit ''sdn.wallet.key-unwrap.v1''" for v
    using that by (auto simp: jlit_def str_of_def js_def)
  have s: "split_on 124 s = [str_of (fld b ''clientId''), str_of (fld b ''requestOrigin''), str_of (fld b ''operation''), str_of (fld key ''keyId'')]"
    unfolding key(5) using assms(3,4) key(1) op [OF key(4)] by (intro split_join) auto
  have s': "split_on 124 s = [str_of (fld b' ''clientId''), str_of (fld b' ''requestOrigin''), str_of (fld b' ''operation''), str_of (fld key' ''keyId'')]"
    unfolding key'(4) using assms(3,4) key'(1) op [OF key'(3)] by (intro split_join) auto
  have str: "is_str v \<Longrightarrow> v = JStr (str_of v)" for v by (cases v) (simp_all add: is_str_def str_of_def)
  have "fld key ''keyId'' = fld key' ''keyId''" using s s' str [OF key(3)] str [OF key'(2)] by simp
  moreover have "fld b ''operation'' = fld b' ''operation''" using s s' key(4) key'(3) by (auto simp: jlit_def str_of_def)
  ultimately show ?thesis using s s' key(1,2,4) key'(1) by auto
qed

definition sample_binding :: jval where
  "sample_binding = jobj [(js ''clientId'', jlit ''sdn-flatsql-pages-v1''), (js ''operation'', jlit ''sdn.wallet.key-unwrap.v1''),
     (js ''requestOrigin'', jlit ''https://flatsql.spacedatanetwork.org'')]"

definition sample_holder :: jval where
  "sample_holder = jobj [(js ''keys'', jarr [jobj [(js ''keyId'', jlit ''sha256:0''), (js ''purpose'', jlit ''contact-encryption'')]])]"

lemma consent_scope_separates_witness:
  "\<exists>s. consent_scope sample_binding sample_holder = Some s
     \<and> (\<exists>key\<in>set (array_values (fld sample_holder ''keys'')). fld key ''purpose'' = jlit ''contact-encryption'')"
proof -
  have f: "fld sample_binding ''operation'' = jlit ''sdn.wallet.key-unwrap.v1''" "fld sample_binding ''clientId'' = jlit ''sdn-flatsql-pages-v1''"
    "fld sample_binding ''requestOrigin'' = jlit ''https://flatsql.spacedatanetwork.org''"
    "array_values (fld sample_holder ''keys'') = [jobj [(js ''keyId'', jlit ''sha256:0''), (js ''purpose'', jlit ''contact-encryption'')]]"
    by (simp_all add: sample_binding_def sample_holder_def fld_def field_jobj)
  moreover have k: "fld (jobj [(js ''keyId'', jlit ''sha256:0''), (js ''purpose'', jlit ''contact-encryption'')]) ''purpose'' = jlit ''contact-encryption''"
    "fld (jobj [(js ''keyId'', jlit ''sha256:0''), (js ''purpose'', jlit ''contact-encryption'')]) ''keyId'' = jlit ''sha256:0''"
    by (simp_all add: fld_def field_jobj)
  ultimately obtain s where s: "consent_scope sample_binding sample_holder = Some s"
    by (simp add: consent_scope_def jlit_def is_str_def)
  show ?thesis using consent_scope_separates [OF s s] s f k by (simp add: jlit_def str_of_def js_def)
qed

end
