(* ===== verification/Rng.thy ===== *)
theory Rng
  imports Prelude
begin

section \<open>Random buffers: origin-app/rng.mjs\<close>

text \<open>
  The filler a random buffer must pass: a fresh full-span \<open>Uint8Array\<close> of 12 or 32 bytes, never seen
  before, neither the view nor its buffer. Objects have identities here (the two weak sets compare
  them); what \<open>getRandomValues\<close> and the optional observer do at a call is an argument of that call.
\<close>

subsection \<open>Views, outcomes, state\<close>

record byte_view =
  view_id :: nat
  view_buffer :: nat
  view_plain :: bool \<comment> \<open>its prototype is \<open>Uint8Array.prototype\<close>\<close>
  view_genuine :: bool \<comment> \<open>the typed-array getters accept it\<close>
  buffer_plain :: bool \<comment> \<open>the buffer is an \<open>ArrayBuffer\<close> with its own prototype\<close>
  view_offset :: nat
  view_length :: nat
  buffer_length :: nat

datatype rng_argument = Other_Value | View byte_view

datatype random_outcome = Random_Throws | Random_Returns_Other | Random_Returns_Argument

datatype observer = No_Observer | Observer_Not_Function | Observer_Throws | Observer_Returns bool

record rng_state =
  consumed_views :: "nat set"
  consumed_buffers :: "nat set"

abbreviation rng_failure :: js_error where
  "rng_failure \<equiv> Wallet_Random_Error ''RNG_FAILURE''"

subsection \<open>The operations\<close>

definition is_fresh_full_span_bytes :: "rng_argument \<Rightarrow> nat option" where
  "is_fresh_full_span_bytes a = (case a of
       Other_Value \<Rightarrow> None
     | View v \<Rightarrow>
         if view_plain v \<and> view_genuine v \<and> buffer_plain v \<and> view_offset v = 0 \<and> view_length v = buffer_length v
            \<and> (view_length v = 12 \<or> view_length v = 32)
         then Some (view_buffer v) else None)"

definition fill_random ::
  "bool \<Rightarrow> random_outcome \<Rightarrow> observer \<Rightarrow> rng_argument \<Rightarrow> rng_state \<Rightarrow> byte_view result \<times> rng_state" where
  \<comment> \<open>the flag: \<open>createRandomFiller\<close> was given a \<open>getRandomValues\<close> function\<close>
  "fill_random available outcome obs a s =
     (if \<not> available then (Inl rng_failure, s)
      else case (a, is_fresh_full_span_bytes a) of
        (View v, Some buffer) \<Rightarrow>
          if view_id v \<in> consumed_views s \<or> buffer \<in> consumed_buffers s then (Inl rng_failure, s)
          else (checks
                 [ensure (outcome \<noteq> Random_Throws) rng_failure,
                  ensure (outcome = Random_Returns_Argument) rng_failure,
                  ensure (obs = No_Observer \<or> obs = Observer_Returns True) rng_failure]
                 (Inr v),
                s\<lparr>consumed_views := insert (view_id v) (consumed_views s),
                  consumed_buffers := insert buffer (consumed_buffers s)\<rparr>)
      | _ \<Rightarrow> (Inl rng_failure, s))"

definition fresh_view :: "nat \<Rightarrow> nat \<Rightarrow> nat \<Rightarrow> byte_view" where
  \<comment> \<open>\<open>new Uint8Array(n)\<close>\<close>
  "fresh_view i b n = \<lparr>view_id = i, view_buffer = b, view_plain = True, view_genuine = True, buffer_plain = True,
     view_offset = 0, view_length = n, buffer_length = n\<rparr>"

definition random_bytes ::
  "bool \<Rightarrow> random_outcome \<Rightarrow> observer \<Rightarrow> nat \<Rightarrow> nat \<Rightarrow> nat \<Rightarrow> rng_state \<Rightarrow> byte_view result \<times> rng_state" where
  \<comment> \<open>the new view and its buffer get the identities \<open>i\<close> and \<open>b\<close>\<close>
  "random_bytes available outcome obs i b n s =
     (if n \<noteq> 12 \<and> n \<noteq> 32 then (Inl rng_failure, s)
      else fill_random available outcome obs (View (fresh_view i b n)) s)"

subsection \<open>Runs\<close>

text \<open>One filler and the calls made on it: every result, in order.\<close>

type_synonym rng_call = "random_outcome \<times> observer \<times> rng_argument"

fun fill_all :: "bool \<Rightarrow> rng_call list \<Rightarrow> rng_state \<Rightarrow> byte_view result list \<times> rng_state" where
  "fill_all available [] s = ([], s)"
| "fill_all available ((outcome, obs, a) # calls) s =
     (let (r, s') = fill_random available outcome obs a s; (rs, s'') = fill_all available calls s' in (r # rs, s''))"

definition accepted :: "byte_view result list \<Rightarrow> byte_view list" where
  "accepted rs = List.map_filter (\<lambda>r. case r of Inl _ \<Rightarrow> None | Inr v \<Rightarrow> Some v) rs"

lemma accepted_simps [simp]: "accepted [] = []" "accepted (Inl e # rs) = accepted rs" "accepted (Inr v # rs) = v # accepted rs"
  by (simp_all add: accepted_def List.map_filter_def)

definition unused :: "rng_state \<Rightarrow> byte_view \<Rightarrow> bool" where
  "unused s v \<longleftrightarrow> view_id v \<notin> consumed_views s \<and> view_buffer v \<notin> consumed_buffers s"

definition full_span :: "byte_view \<Rightarrow> bool" where
  "full_span v \<longleftrightarrow> view_offset v = 0 \<and> view_length v = buffer_length v \<and> (view_length v = 12 \<or> view_length v = 32)"

definition consume :: "byte_view \<Rightarrow> rng_state \<Rightarrow> rng_state" where
  "consume v s = s\<lparr>consumed_views := insert (view_id v) (consumed_views s), consumed_buffers := insert (view_buffer v) (consumed_buffers s)\<rparr>"

lemma fill_random_step:
  "(\<exists>e. fill_random available outcome obs a s = (Inl e, s))
   \<or> (\<exists>v. a = View v \<and> unused s v \<and> full_span v \<and> snd (fill_random available outcome obs a s) = consume v s
        \<and> fst (fill_random available outcome obs a s) \<in> {Inr v} \<union> range Inl)"
proof (cases a)
  case (View v)
  have c: "checks [ensure b rng_failure, ensure b' rng_failure, ensure b'' rng_failure] (Inr v) \<in> {Inr v} \<union> range Inl" for b b' b''
    by (simp add: checks_ensure)
  show ?thesis
  proof (cases "is_fresh_full_span_bytes a")
    case (Some buffer)
    then have "buffer = view_buffer v" "full_span v"
      by (auto simp: View is_fresh_full_span_bytes_def full_span_def split: if_splits)
    then show ?thesis using c by (auto simp: View [symmetric] fill_random_def Some) (auto simp: View unused_def consume_def)
  qed (simp add: fill_random_def View [symmetric] split: rng_argument.splits)
qed (simp add: fill_random_def is_fresh_full_span_bytes_def)

lemma fill_all_Cons:
  "accepted (fst (fill_all available ((outcome, obs, a) # calls) s))
     = accepted [fst (fill_random available outcome obs a s)] @ accepted (fst (fill_all available calls (snd (fill_random available outcome obs a s))))"
  by (cases "fst (fill_random available outcome obs a s)") (simp_all add: Let_def case_prod_beta)

lemma fill_all_fresh:
  "list_all (\<lambda>v. unused s v \<and> full_span v) (accepted (fst (fill_all available calls s)))
   \<and> distinct (map view_buffer (accepted (fst (fill_all available calls s))))
   \<and> distinct (map view_id (accepted (fst (fill_all available calls s))))"
proof (induction calls arbitrary: s)
  case (Cons c calls)
  obtain outcome obs a where c: "c = (outcome, obs, a)" by (cases c)
  let ?rest = "accepted (fst (fill_all available calls (snd (fill_random available outcome obs a s))))"
  from fill_random_step [of available outcome obs a s] show ?case
  proof (elim disjE exE conjE)
    fix e assume "fill_random available outcome obs a s = (Inl e, s)"
    then show ?thesis unfolding c fill_all_Cons using Cons.IH [of s] by simp
  next
    fix v assume v: "unused s v" "full_span v" "snd (fill_random available outcome obs a s) = consume v s"
      "fst (fill_random available outcome obs a s) \<in> {Inr v} \<union> range Inl"
    have rest: "list_all (\<lambda>w. unused s w \<and> full_span w \<and> view_buffer w \<noteq> view_buffer v \<and> view_id w \<noteq> view_id v) ?rest"
      "distinct (map view_buffer ?rest)" "distinct (map view_id ?rest)"
      using Cons.IH [of "consume v s"] unfolding v(3) by (auto simp: list_all_iff unused_def consume_def)
    have "accepted [fst (fill_random available outcome obs a s)] = [v] \<or> accepted [fst (fill_random available outcome obs a s)] = []"
      using v(4) by auto
    then show ?thesis unfolding c fill_all_Cons using rest v(1,2) by (auto simp: list_all_iff)
  qed
qed simp

subsection \<open>The property\<close>

text \<open>C15: a random buffer is used once: among the buffers a filler returns over any sequence of calls,
  whatever the host functions do, no two share a view or a buffer, each covers its whole buffer and
  has 12 or 32 bytes, and a buffer offered again, also after a failed call, is refused.\<close>

theorem random_buffers_fresh:
  "distinct (map view_buffer (accepted (fst (fill_all available calls s))))
   \<and> distinct (map view_id (accepted (fst (fill_all available calls s))))
   \<and> list_all full_span (accepted (fst (fill_all available calls s)))
   \<and> (is_ok (fst (fill_random available outcome obs (View w) s)) \<longrightarrow> view_buffer w \<notin> consumed_buffers s)"
proof (intro conjI impI)
  show "list_all full_span (accepted (fst (fill_all available calls s)))"
    using fill_all_fresh [of s available calls] by (auto simp: list_all_iff)
  show "is_ok (fst (fill_random available outcome obs (View w) s)) \<Longrightarrow> view_buffer w \<notin> consumed_buffers s"
    using fill_random_step [of available outcome obs "View w" s] by (auto simp: unused_def)
qed (use fill_all_fresh [of s available calls] in auto)

lemma random_buffers_fresh_witness:
  "is_ok (fst (fill_random True Random_Returns_Argument No_Observer (View (fresh_view 1 2 32)) \<lparr>consumed_views = {}, consumed_buffers = {}\<rparr>))
   \<and> view_buffer (fresh_view 1 2 32) \<notin> {}"
  using random_buffers_fresh [of True "[]" "\<lparr>consumed_views = {}, consumed_buffers = {}\<rparr>" Random_Returns_Argument No_Observer "fresh_view 1 2 32"]
  by (simp add: fill_random_def is_fresh_full_span_bytes_def fresh_view_def)

end
