(* ===== verification/JsonErrors.thy ===== *)
theory JsonErrors
  imports JsonFacts
begin

section \<open>The one error of the relay readers\<close>

text \<open>
  The two relay copies of the JSON reader throw a single error for every malformed text. Together
  with the fuel bound of \<open>JsonFacts\<close>: a text is read or refused with that error.
\<close>

definition uniform_dialect :: "json_dialect \<Rightarrow> js_error \<Rightarrow> bool" where
  "uniform_dialect d e \<longleftrightarrow> (\<forall>m. json_error d m = e) \<and> (\<forall>s e'. string_guard d s = Inl e' \<longrightarrow> e' = e)"

definition fails_with :: "js_error \<Rightarrow> 'a result \<Rightarrow> bool" where
  "fails_with e r \<longleftrightarrow> (\<forall>e'. r = Inl e' \<longrightarrow> e' = e \<or> e' = Out_Of_Fuel)"

lemma fails_with_simps [simp]: "fails_with e (Inr x)" "fails_with e (Inl e') \<longleftrightarrow> e' = e \<or> e' = Out_Of_Fuel"
  by (simp_all add: fails_with_def)

lemma fails_with_rbind: "fails_with e m \<Longrightarrow> (\<And>x. fails_with e (f x)) \<Longrightarrow> fails_with e (rbind m f)"
  by (cases m) auto

lemma relay_dialect_uniform: "uniform_dialect (relay_dialect e) e"
  by (auto simp: uniform_dialect_def relay_dialect_def surrogate_guard_def ensure_def)

lemma uniform_error: "uniform_dialect d e \<Longrightarrow> json_error d m = e"
  and uniform_guard: "uniform_dialect d e \<Longrightarrow> fails_with e (string_guard d s)"
  by (simp_all add: uniform_dialect_def fails_with_def)

lemma scan_string_fails: "uniform_dialect d e \<Longrightarrow> fails_with e (scan_string d s)"
proof (induction d s rule: scan_string.induct)
  case (2 d c cs)
  have IH: "fails_with e (scan_string d cs)" if "\<not> (c = 34 \<or> c < 32 \<or> c = 92)" using 2 that by simp
  have IH': "fails_with e (scan_string d es)" if "c = 92" "cs = x # es" for x es using 2 that by simp
  show ?case unfolding scan_string.simps(2)
    by (cases cs) (use IH IH' 2(3) in \<open>auto simp: uniform_error intro!: fails_with_rbind simp del: scan_string.simps\<close>)
qed (simp add: uniform_error)

lemma parse_string_fails: "uniform_dialect d e \<Longrightarrow> fails_with e (parse_string d s)"
  unfolding parse_string_def
  by (auto intro!: fails_with_rbind simp: uniform_error scan_string_fails uniform_guard split: list.split option.split)

lemma parse_literal_fails: "uniform_dialect d e \<Longrightarrow> fails_with e (parse_literal d s)"
  by (auto simp: parse_literal_def uniform_error split: option.split)

definition reader_fails :: "js_error \<Rightarrow> value_reader \<Rightarrow> bool" where
  "reader_fails e nested \<longleftrightarrow> (\<forall>tokens s. fails_with e (nested tokens s))"

lemma reader_failsD: "reader_fails e nested \<Longrightarrow> fails_with e (nested tokens s)"
  by (simp add: reader_fails_def)

lemma parse_members_fails:
  "uniform_dialect d e \<Longrightarrow> reader_fails e nested \<Longrightarrow> fails_with e (parse_members d nested fuel acc tokens s)"
proof (induction fuel arbitrary: acc tokens s)
  case (Suc fuel)
  have n: "fails_with e (nested tokens s)" for tokens s using Suc.prems(2) by (rule reader_failsD)
  show ?case using Suc.prems(1)
    by (auto intro!: fails_with_rbind simp: uniform_error n Suc.IH Suc.prems parse_string_fails)
qed simp

lemma parse_elements_fails:
  "uniform_dialect d e \<Longrightarrow> reader_fails e nested \<Longrightarrow> fails_with e (parse_elements d nested fuel acc tokens s)"
proof (induction fuel arbitrary: acc tokens s)
  case (Suc fuel)
  have n: "fails_with e (nested tokens s)" for tokens s using Suc.prems(2) by (rule reader_failsD)
  show ?case using Suc.prems(1) by (auto intro!: fails_with_rbind simp: uniform_error n Suc.IH Suc.prems)
qed simp

lemma parse_value_fails: "uniform_dialect d e \<Longrightarrow> reader_fails e (parse_value d levels)"
proof (induction levels)
  case (Suc levels)
  have "fails_with e (parse_object d (parse_value d levels) tokens s)" "fails_with e (parse_array d (parse_value d levels) tokens s)" for tokens s
    using parse_members_fails [OF Suc.prems] parse_elements_fails [OF Suc.prems] Suc
    by (simp_all add: parse_object_def parse_array_def del: parse_members.simps parse_elements.simps)
  then have "fails_with e (parse_value d (Suc levels) tokens s)" for tokens s
    using Suc.prems by (auto intro!: fails_with_rbind simp: uniform_error parse_string_fails parse_literal_fails)
  then show ?case unfolding reader_fails_def by blast
qed (simp add: reader_fails_def uniform_error)

lemma parse_document_error:
  assumes "uniform_dialect d e" "dialect_ok d" "parse_document d s = Inl e'"
  shows "e' = e"
proof -
  have "fails_with e (parse_document d s)"
    using reader_failsD [OF parse_value_fails [OF assms(1)]] assms(1)
    by (auto intro!: fails_with_rbind simp: parse_document_def uniform_error simp del: parse_value.simps)
  then show ?thesis using assms(3) parse_document_fuel [OF assms(2)] by (auto simp: fails_with_def)
qed

lemma origin_parse_sound:
  assumes "origin_parse_json v n = Inr r"
  shows "\<exists>j. r = embed j \<and> json_valid (dialect_guard (relay_dialect Wallet_Relay_Error)) j \<and> json_depth j \<le> 33 \<and> json_nodes j \<le> 4096"
proof -
  from assms obtain s where "parse_document (relay_dialect Wallet_Relay_Error) s = Inr r"
    by (auto simp: origin_parse_json_def split: jval.splits if_splits)
  from parse_document_sound [OF relay_dialect_ok this] show ?thesis by auto
qed

lemma origin_parse_error: "origin_parse_json v n = Inl e \<Longrightarrow> e = Wallet_Relay_Error"
  using parse_document_error [OF relay_dialect_uniform relay_dialect_ok]
  by (auto simp: origin_parse_json_def split: jval.splits if_splits)

lemma client_parse_sound:
  assumes "client_parse_json v n = Inr r"
  shows "\<exists>j. r = embed j \<and> json_valid (dialect_guard (relay_dialect (Wallet_Client_Error ''RELAY_ERROR''))) j
    \<and> json_depth j \<le> 33 \<and> json_nodes j \<le> 4096"
proof -
  from assms obtain s where "parse_document (relay_dialect (Wallet_Client_Error ''RELAY_ERROR'')) s = Inr r"
    by (auto simp: client_parse_json_def Let_def split: jval.splits if_splits)
  from parse_document_sound [OF relay_dialect_ok this] show ?thesis by auto
qed

lemma client_parse_error: "client_parse_json v n = Inl e \<Longrightarrow> e = Wallet_Client_Error ''RELAY_ERROR''"
  using parse_document_error [OF relay_dialect_uniform relay_dialect_ok]
  by (auto simp: client_parse_json_def Let_def split: jval.splits if_splits)

end
