(* ===== verification/JsonRoundtrip.thy ===== *)
theory JsonRoundtrip
  imports JsonFacts
begin

section \<open>The canonical text reads back\<close>

text \<open>
  What \<open>canonicalJson\<close> writes for a plain value (no holes, enumerable data properties), the strict
  readers read back as that value with its names sorted. So the canonical text determines the value:
  two values with the same signed text have the same content.
\<close>

subsection \<open>Quoted strings\<close>

lemma hex_digit_value: "d < 16 \<Longrightarrow> hex_value (hex_digit d) = Some d"
  by (auto simp: hex_value_def hex_digit_def)

lemma hex_digit_plain: "d < 16 \<Longrightarrow> hex_digit d \<noteq> 34 \<and> hex_digit d \<noteq> 92 \<and> \<not> hex_digit d < 32"
  by (auto simp: hex_digit_def)

lemma hex4_digits:
  assumes "c < 65536"
  shows "hex4 (hex_digit (c div 4096)) (hex_digit (c div 256 mod 16)) (hex_digit (c div 16 mod 16)) (hex_digit (c mod 16)) = Some c"
proof -
  define a b where "a = c div 16" and "b = a div 16"
  have d: "c div 256 = b" "c div 4096 = b div 16" by (simp_all add: a_def b_def div_mult2_eq [symmetric])
  have "c = 16 * a + c mod 16" "a = 16 * b + a mod 16" "b = 16 * (b div 16) + b mod 16" by (simp_all add: a_def b_def)
  moreover from this have "b div 16 < 16" using assms by linarith
  moreover from calculation have "4096 * (b div 16) + 256 * (b mod 16) + 16 * (a mod 16) + c mod 16 = c" by linarith
  ultimately show ?thesis unfolding hex4_def d a_def [symmetric] by (simp add: hex_digit_value)
qed

lemma unescape_unit: "c < 65536 \<Longrightarrow> unescape (quote_unit c @ t) = map_option ((#) c) (unescape t)"
  using hex4_digits [of c]
  by (auto simp: quote_unit_def escape_value_def unicode_escape_def is_high_surrogate_def is_low_surrogate_def)

lemma unescape_quote: "js_wf s \<Longrightarrow> unescape (quote_body s) = Some s"
proof (induction s rule: quote_body.induct)
  case (2 c)
  then show ?case using unescape_unit [of c "[]"] by simp
next
  case (3 c d ds)
  then show ?case
    by (auto simp: unescape_unit is_high_surrogate_def is_low_surrogate_def)
qed simp

lemma quote_unit_cases:
  obtains e where "quote_unit c = [92, e]" | "quote_unit c = unicode_escape c" | "quote_unit c = [c]" "c \<noteq> 34" "c \<noteq> 92" "\<not> c < 32"
proof -
  have "(\<exists>e. quote_unit c = [92, e]) \<or> quote_unit c = unicode_escape c \<or> quote_unit c = [c] \<and> c \<noteq> 34 \<and> c \<noteq> 92 \<and> \<not> c < 32"
    by (simp add: quote_unit_def)
  then show thesis using that by blast
qed

lemma scan_unit: "c < 65536 \<Longrightarrow> scan_string d (quote_unit c @ t) = rbind (scan_string d t) (\<lambda>(b, r). Inr (quote_unit c @ b, r))"
proof -
  assume "c < 65536"
  then have "c div 4096 < 16" by (simp add: less_mult_imp_div_less)
  then have h: "hex_digit x \<noteq> 34 \<and> hex_digit x \<noteq> 92 \<and> \<not> hex_digit x < 32"
    if "x \<in> {c div 4096, c div 256 mod 16, c div 16 mod 16, c mod 16}" for x
    using that hex_digit_plain by auto
  show ?thesis
  proof (cases c rule: quote_unit_cases)
    case 2
    show ?thesis unfolding 2 unicode_escape_def using h
      by (cases "scan_string d t") (simp_all add: case_prod_beta)
  qed simp_all
qed

lemma scan_quote: "js_wf s \<Longrightarrow> scan_string d (quote_body s @ 34 # r) = Inr (quote_body s, r)"
proof (induction s rule: quote_body.induct)
  case (2 c)
  then show ?case using scan_unit [of c d "34 # r"] by simp
next
  case (3 c e es)
  show ?case
  proof (cases "is_high_surrogate c \<and> is_low_surrogate e")
    case True
    then show ?thesis using 3 by (auto simp: is_high_surrogate_def is_low_surrogate_def)
  next
    case False
    then have "quote_body (c # e # es) = quote_unit c @ quote_body (e # es)" by auto
    then show ?thesis using 3(2) [OF False] 3(3) scan_unit [of c d "quote_body (e # es) @ 34 # r"]
      by (simp del: scan_string.simps quote_body.simps)
  qed
qed simp

lemma parse_quoted: "js_wf s \<Longrightarrow> dialect_guard d s \<Longrightarrow> parse_string d (json_quote s @ r) = Inr (s, r)"
  by (auto simp: parse_string_def json_quote_def scan_quote unescape_quote is_ok_iff simp del: scan_string.simps)

subsection \<open>Written documents\<close>

primrec json_text :: "json \<Rightarrow> jstring" where
  "json_text J_Null = js ''null''"
| "json_text (J_Bool b) = (if b then js ''true'' else js ''false'')"
| "json_text (J_Num n) = num_to_string n"
| "json_text (J_Str s) = json_quote s"
| "json_text (J_Arr xs) = bracketed 91 93 (map json_text xs)"
| "json_text (J_Obj kvs) = bracketed 123 125 (map (\<lambda>(k, t). member_text (k, t)) (map (map_prod id json_text) kvs))"

definition stops :: "jstring \<Rightarrow> bool" where
  \<comment> \<open>what follows a value in a document\<close>
  "stops r \<longleftrightarrow> (case r of [] \<Rightarrow> True | c # _ \<Rightarrow> c = 44 \<or> c = 93 \<or> c = 125)"

definition num_reads_back :: "jnum \<Rightarrow> bool" where
  \<comment> \<open>its text is read as itself; minus zero, which is written as zero, is not\<close>
  "num_reads_back n \<longleftrightarrow> num_is_finite n \<and> (\<forall>r. stops r \<longrightarrow> scan_number (num_to_string n @ r) = Some (n, r))"

primrec json_readable :: "(jstring \<Rightarrow> bool) \<Rightarrow> json \<Rightarrow> bool" where
  "json_readable G J_Null = True"
| "json_readable G (J_Bool b) = True"
| "json_readable G (J_Num n) = num_reads_back n"
| "json_readable G (J_Str s) = (js_wf s \<and> G s)"
| "json_readable G (J_Arr xs) = list_all id (map (json_readable G) xs)"
| "json_readable G (J_Obj kvs) =
     (distinct (map fst kvs) \<and> list_all (\<lambda>(k, b). js_wf k \<and> G k \<and> b) (map (map_prod id (json_readable G)) kvs))"

definition reads_text :: "json_dialect \<Rightarrow> nat \<Rightarrow> json \<Rightarrow> bool" where
  "reads_text d levels j \<longleftrightarrow> (\<forall>tokens r. stops r \<longrightarrow> tokens + json_nodes j \<le> 4096 \<longrightarrow>
     parse_value d levels tokens (json_text j @ r) = Inr (embed j, tokens + json_nodes j, r))"

lemma integer_part_start: "integer_part s = Some x \<Longrightarrow> \<exists>c cs. s = c # cs \<and> 48 \<le> c \<and> c \<le> 57"
  by (auto simp: integer_part_def is_digit_def split: list.splits if_splits)

lemma scan_number_start: "scan_number s = Some x \<Longrightarrow> \<exists>c cs. s = c # cs \<and> (c = 45 \<or> 48 \<le> c \<and> c \<le> 57)"
proof -
  assume a: "scan_number s = Some x"
  then obtain c cs where s: "s = c # cs" by (cases s) (simp_all add: scan_number_def)
  have "\<exists>y. integer_part s = Some y" if "c \<noteq> 45"
    using a s that by (auto simp: scan_number_def scan_unsigned_def split: option.splits)
  with s integer_part_start show ?thesis by fastforce
qed

lemma skip_space_first: "\<not> is_json_space c \<Longrightarrow> skip_space (c # cs) = c # cs"
  by (simp add: skip_space_def)

lemma skip_stops: "stops r \<Longrightarrow> skip_space r = r"
  by (cases r) (auto simp: stops_def skip_space_def is_json_space_def)

lemma parse_value_literal:
  assumes "parse_literal d s = Inr (v, r)" "s = c # cs" "\<not> is_json_space c" "c \<noteq> 34" "c \<noteq> 123" "c \<noteq> 91" "tokens < 4096"
  shows "parse_value d (Suc levels) tokens s = Inr (v, Suc tokens, r)"
  using assms by (simp add: skip_space_first starts_with_def)

lemma reads_number: "num_reads_back n \<Longrightarrow> reads_text d (Suc levels) (J_Num n)"
  unfolding reads_text_def
proof (intro allI impI)
  fix tokens r assume n: "num_reads_back n" and r: "stops r" and t: "tokens + json_nodes (J_Num n) \<le> 4096"
  then have s: "scan_number (num_to_string n @ r) = Some (n, r)" "num_is_finite n" by (simp_all add: num_reads_back_def)
  then obtain c cs where c: "num_to_string n @ r = c # cs" "c = 45 \<or> 48 \<le> c \<and> c \<le> 57" using scan_number_start by blast
  have "\<not> starts_with (js ''true'') (c # cs)" "\<not> starts_with (js ''false'') (c # cs)" "\<not> starts_with (js ''null'') (c # cs)"
    using c(2) by (auto simp: starts_with_def js_def)
  then have "parse_literal d (num_to_string n @ r) = Inr (JNum n, r)" using s c(1) by (simp add: parse_literal_def)
  then show "parse_value d (Suc levels) tokens (json_text (J_Num n) @ r) = Inr (embed (J_Num n), tokens + json_nodes (J_Num n), r)"
    using c t parse_value_literal [of d "num_to_string n @ r" "JNum n" r c cs tokens levels]
    by (auto simp: is_json_space_def simp del: parse_value.simps)
qed

lemma reads_scalar:
  "reads_text d (Suc levels) J_Null" "reads_text d (Suc levels) (J_Bool b)"
  "js_wf s \<Longrightarrow> dialect_guard d s \<Longrightarrow> reads_text d (Suc levels) (J_Str s)"
proof -
  have l: "parse_literal d (js ''null'' @ r) = Inr (JNull, r)" "parse_literal d (js ''true'' @ r) = Inr (JBool True, r)"
    "parse_literal d (js ''false'' @ r) = Inr (JBool False, r)" for r
    by (simp_all add: parse_literal_def starts_with_def js_def)
  have "parse_value d (Suc levels) tokens (js ''null'' @ r) = Inr (JNull, Suc tokens, r)" if "tokens < 4096" for tokens r
    using that by (intro parse_value_literal [OF l(1), where c = 110]) (simp_all add: js_def is_json_space_def)
  then show "reads_text d (Suc levels) J_Null" by (simp add: reads_text_def del: parse_value.simps)
  have "parse_value d (Suc levels) tokens (js ''true'' @ r) = Inr (JBool True, Suc tokens, r)"
    "parse_value d (Suc levels) tokens (js ''false'' @ r) = Inr (JBool False, Suc tokens, r)" if "tokens < 4096" for tokens r
    using that by (intro parse_value_literal [OF l(2), where c = 116] parse_value_literal [OF l(3), where c = 102];
      simp_all add: js_def is_json_space_def)+
  then show "reads_text d (Suc levels) (J_Bool b)" by (simp add: reads_text_def del: parse_value.simps)
  assume s: "js_wf s" "dialect_guard d s"
  have q: "json_quote s @ r = 34 # (quote_body s @ 34 # r)" for r by (simp add: json_quote_def)
  show "reads_text d (Suc levels) (J_Str s)"
    unfolding reads_text_def
    using parse_quoted [OF s] by (auto simp: q skip_space_first is_json_space_def)
qed

lemma stops_simps [simp]: "stops []" "stops (44 # r)" "stops (93 # r)" "stops (125 # r)"
  by (simp_all add: stops_def)

lemma join_with_Cons: "join_with c (x # xs) = x @ (if xs = [] then [] else c # join_with c xs)"
  by (cases xs) simp_all

lemma length_text: "num_reads_back n \<Longrightarrow> num_to_string n \<noteq> []"
proof -
  assume "num_reads_back n"
  then have "scan_number (num_to_string n @ []) = Some (n, [])" unfolding num_reads_back_def by (metis stops_simps(1))
  from scan_number_start [OF this] show ?thesis by auto
qed

text \<open>The first character of a value is none the loops look for.\<close>

definition value_start :: "jstring \<Rightarrow> bool" where
  "value_start s \<longleftrightarrow> (\<exists>c cs. s = c # cs \<and> \<not> is_json_space c \<and> c \<noteq> 93 \<and> c \<noteq> 125)"

lemma json_text_start: "json_readable G j \<Longrightarrow> value_start (json_text j @ r)"
proof -
  have lit: "value_start (js ''null'' @ r)" "value_start (js ''true'' @ r)" "value_start (js ''false'' @ r)"
    "value_start (34 # x)" "value_start (91 # x)" "value_start (123 # x)" for x
    by (simp_all add: value_start_def is_json_space_def js_def)
  assume a: "json_readable G j"
  show ?thesis
  proof (cases j)
    case (J_Num n)
    then have "num_reads_back n" using a by simp
    then have "scan_number (num_to_string n @ []) = Some (n, [])" unfolding num_reads_back_def by (metis stops_simps(1))
    from scan_number_start [OF this] obtain c cs where c: "num_to_string n = c # cs" "c = 45 \<or> 48 \<le> c \<and> c \<le> 57" by auto
    then have "\<not> is_json_space c \<and> c \<noteq> 93 \<and> c \<noteq> 125" by (auto simp: is_json_space_def)
    moreover have "json_text j @ r = c # (cs @ r)" using J_Num c(1) by simp
    ultimately show ?thesis unfolding value_start_def by blast
  qed (simp_all add: lit json_quote_def bracketed_def)
qed

lemma skip_value: "value_start s \<Longrightarrow> skip_space s = s \<and> \<not> starts_with [93] s \<and> s \<noteq> []"
  by (auto simp: value_start_def skip_space_def starts_with_def)

lemma reads_textD: "reads_text d levels j \<Longrightarrow> stops r \<Longrightarrow> tokens + json_nodes j \<le> 4096 \<Longrightarrow>
    parse_value d levels tokens (json_text j @ r) = Inr (embed j, tokens + json_nodes j, r)"
  by (simp add: reads_text_def)

lemma read_elements:
  assumes "\<forall>j\<in>set xs. reads_text d levels j \<and> value_start (json_text j)" "xs \<noteq> []"
  shows "tokens + sum_list (map json_nodes xs) \<le> 4096 \<Longrightarrow> length xs \<le> fuel \<Longrightarrow>
    parse_elements d (parse_value d levels) fuel acc tokens (join_with 44 (map json_text xs) @ 93 # r)
      = Inr (jarr (acc @ map embed xs), tokens + sum_list (map json_nodes xs), r)"
  using assms
proof (induction xs arbitrary: acc tokens fuel)
  case (Cons j xs)
  from Cons.prems(2) obtain f where f: "fuel = Suc f" "length xs \<le> f" by (cases fuel) auto
  let ?rest = "(if xs = [] then [] else 44 # join_with 44 (map json_text xs)) @ 93 # r"
  have t: "join_with 44 (map json_text (j # xs)) @ 93 # r = json_text j @ ?rest" by (simp add: join_with_Cons)
  have ne: "json_text j @ ?rest \<noteq> []" using Cons.prems(3) by (auto simp: value_start_def)
  have v: "parse_value d levels tokens (json_text j @ ?rest) = Inr (embed j, tokens + json_nodes j, ?rest)"
    using Cons.prems(1,3) by (intro reads_textD) auto
  show ?case
  proof (cases "xs = []")
    case True
    then show ?thesis using v ne unfolding t f(1)
      by (simp add: skip_space_def is_json_space_def starts_with_def del: parse_value.simps)
  next
    case False
    have "parse_elements d (parse_value d levels) f (acc @ [embed j]) (tokens + json_nodes j) (join_with 44 (map json_text xs) @ 93 # r)
       = Inr (jarr ((acc @ [embed j]) @ map embed xs), (tokens + json_nodes j) + sum_list (map json_nodes xs), r)"
      using Cons.prems f False by (intro Cons.IH) auto
    then show ?thesis using v ne False unfolding t f(1)
      by (simp add: skip_space_def is_json_space_def starts_with_def add.assoc del: parse_value.simps)
  qed
qed simp

lemma read_members:
  assumes "\<forall>(k, j)\<in>set kvs. reads_text d levels j \<and> js_wf k \<and> dialect_guard d k" "distinct (map fst acc @ map fst kvs)" "kvs \<noteq> []"
  shows "tokens + sum_list (map (json_nodes \<circ> snd) kvs) \<le> 4096 \<Longrightarrow> length kvs \<le> fuel \<Longrightarrow>
    parse_members d (parse_value d levels) fuel acc tokens (join_with 44 (map (\<lambda>(k, j). member_text (k, json_text j)) kvs) @ 125 # r)
      = Inr (jnull_obj (acc @ map (map_prod id embed) kvs), tokens + sum_list (map (json_nodes \<circ> snd) kvs), r)"
  using assms
proof (induction kvs arbitrary: acc tokens fuel)
  case (Cons x kvs)
  obtain k j where x: "x = (k, j)" by (cases x)
  from Cons.prems(2) obtain f where f: "fuel = Suc f" "length kvs \<le> f" by (cases fuel) auto
  let ?rest = "(if kvs = [] then [] else 44 # join_with 44 (map (\<lambda>(k, j). member_text (k, json_text j)) kvs)) @ 125 # r"
  have t: "join_with 44 (map (\<lambda>(k, j). member_text (k, json_text j)) (x # kvs)) @ 125 # r = json_quote k @ 58 # json_text j @ ?rest"
    by (simp add: join_with_Cons x member_text_def)
  have q: "json_quote k @ y = 34 # (quote_body k @ 34 # y)" for y by (simp add: json_quote_def)
  have s: "skip_space (json_quote k @ y) = json_quote k @ y" for y by (simp add: q skip_space_def is_json_space_def)
  have p: "parse_string d (json_quote k @ y) = Inr (k, y)" for y using Cons.prems(3) x by (intro parse_quoted) auto
  have v: "parse_value d levels tokens (json_text j @ ?rest) = Inr (embed j, tokens + json_nodes j, ?rest)"
    using Cons.prems(1,3) x by (intro reads_textD) auto
  have new: "k \<notin> set (map fst acc)" using Cons.prems(4) x by auto
  have ne: "json_quote k @ y \<noteq> []" for y by (simp add: q)
  show ?case
  proof (cases "kvs = []")
    case True
    then show ?thesis using v new unfolding t f(1) parse_members.simps(2)
      by (simp add: ne s p skip_space_def [of "58 # y" for y] skip_space_def [of "125 # y" for y] is_json_space_def starts_with_def x
          del: parse_value.simps)
  next
    case False
    have "parse_members d (parse_value d levels) f (acc @ [(k, embed j)]) (tokens + json_nodes j)
        (join_with 44 (map (\<lambda>(k, j). member_text (k, json_text j)) kvs) @ 125 # r)
       = Inr (jnull_obj ((acc @ [(k, embed j)]) @ map (map_prod id embed) kvs), (tokens + json_nodes j) + sum_list (map (json_nodes \<circ> snd) kvs), r)"
      using Cons.prems f False x by (intro Cons.IH) auto
    then show ?thesis using v new False unfolding t f(1) parse_members.simps(2)
      by (simp add: ne s p skip_space_def [of "58 # y" for y] skip_space_def [of "44 # y" for y] is_json_space_def starts_with_def x add.assoc
          comp_def id_def del: parse_value.simps)
  qed
qed simp

lemma fold_max_leD: "fold max (map f xs) (0 :: nat) \<le> n \<Longrightarrow> x \<in> set xs \<Longrightarrow> f x \<le> n"
  by (auto simp: fold_max_le_iff)

theorem reads_document:
  "json_readable (dialect_guard d) j \<Longrightarrow> json_depth j \<le> levels \<Longrightarrow> reads_text d levels j"
proof (induction j arbitrary: levels)
  case (J_Arr xs)
  then obtain l where l: "levels = Suc l" by (cases levels) auto
  have xs: "\<forall>j\<in>set xs. reads_text d l j \<and> value_start (json_text j)"
  proof
    fix j assume j: "j \<in> set xs"
    then have r: "json_readable (dialect_guard d) j" using J_Arr.prems(1) by (auto simp: list_all_iff)
    have "json_depth j \<le> l" using J_Arr.prems(2) j by (auto simp: l intro: fold_max_leD [of json_depth])
    with J_Arr.IH [OF j r] json_text_start [OF r, of "[]"] show "reads_text d l j \<and> value_start (json_text j)" by simp
  qed
  show ?case
    unfolding reads_text_def
  proof (intro allI impI)
    fix tokens r assume t: "stops r" "tokens + json_nodes (J_Arr xs) \<le> 4096"
    have wr: "json_text (J_Arr xs) @ r = 91 # (join_with 44 (map json_text xs) @ 93 # r)" by (simp add: bracketed_def)
    let ?s = "join_with 44 (map json_text xs) @ 93 # r"
    have "parse_array d (parse_value d l) (Suc tokens) (skip_space ?s) = Inr (embed (J_Arr xs), Suc tokens + sum_list (map json_nodes xs), r)"
    proof (cases "xs = []")
      case True
      then show ?thesis by (simp add: skip_space_def is_json_space_def parse_array_def starts_with_def)
    next
      case False
      then obtain y ys where y: "xs = y # ys" by (cases xs) auto
      then have vs: "value_start ?s" using xs by (auto simp: join_with_Cons value_start_def)
      have "length xs \<le> Suc (length ?s)" using False by (simp add: length_join_with)
      then have "parse_elements d (parse_value d l) (Suc (length ?s)) [] (Suc tokens) ?s
          = Inr (jarr ([] @ map embed xs), Suc tokens + sum_list (map json_nodes xs), r)"
        using t(2) by (intro read_elements [OF xs False]) simp_all
      then show ?thesis using skip_value [OF vs] by (simp add: parse_array_def del: parse_elements.simps parse_value.simps starts_with_Cons)
    qed
    then show "parse_value d levels tokens (json_text (J_Arr xs) @ r) = Inr (embed (J_Arr xs), tokens + json_nodes (J_Arr xs), r)"
      using t(2) unfolding wr l by (simp add: skip_space_first is_json_space_def starts_with_def)
  qed
next
  case (J_Obj kvs)
  then obtain l where l: "levels = Suc l" by (cases levels) auto
  have kvs: "\<forall>(k, j)\<in>set kvs. reads_text d l j \<and> js_wf k \<and> dialect_guard d k"
  proof (clarify)
    fix k j assume j: "(k, j) \<in> set kvs"
    then have r: "json_readable (dialect_guard d) j" "js_wf k" "dialect_guard d k"
      using J_Obj.prems(1) by (auto simp: list_all_iff)
    have "json_depth j \<le> l" using J_Obj.prems(2) j fold_max_leD [of "\<lambda>x. json_depth (snd x)" kvs l "(k, j)"] by (simp add: l comp_def)
    with J_Obj.IH [OF j _ r(1)] r show "reads_text d l j \<and> js_wf k \<and> dialect_guard d k" by simp
  qed
  have dist: "distinct (map fst ([] :: (jstring \<times> jval) list) @ map fst kvs)" using J_Obj.prems(1) by simp
  have m: "map (\<lambda>(k, t). member_text (k, t)) (map (map_prod id json_text) kvs) = map (\<lambda>(k, j). member_text (k, json_text j)) kvs"
    by (auto simp: case_prod_beta map_prod_def)
  have n: "json_nodes (J_Obj kvs) = Suc (sum_list (map (json_nodes \<circ> snd) kvs))" by (simp add: comp_def)
  show ?case
    unfolding reads_text_def
  proof (intro allI impI)
    fix tokens r assume t: "stops r" "tokens + json_nodes (J_Obj kvs) \<le> 4096"
    let ?s = "join_with 44 (map (\<lambda>(k, j). member_text (k, json_text j)) kvs) @ 125 # r"
    have wr: "json_text (J_Obj kvs) @ r = 123 # ?s" unfolding json_text.simps m by (simp add: bracketed_def)
    have "parse_object d (parse_value d l) (Suc tokens) (skip_space ?s) = Inr (embed (J_Obj kvs), Suc tokens + sum_list (map (json_nodes \<circ> snd) kvs), r)"
    proof (cases "kvs = []")
      case True
      then show ?thesis by (simp add: skip_space_def is_json_space_def parse_object_def starts_with_def)
    next
      case False
      then obtain k j ys where y: "kvs = (k, j) # ys" by (cases kvs) auto
      then obtain s' where s': "?s = 34 # s'" by (simp add: join_with_Cons member_text_def json_quote_def)
      have sp: "skip_space ?s = ?s" "\<not> starts_with [125] ?s" unfolding s' by (simp_all add: skip_space_def is_json_space_def starts_with_def)
      have "length kvs \<le> Suc (length ?s)" using False by (simp add: length_join_with)
      then have "parse_members d (parse_value d l) (Suc (length ?s)) [] (Suc tokens) ?s
          = Inr (jnull_obj ([] @ map (map_prod id embed) kvs), Suc tokens + sum_list (map (json_nodes \<circ> snd) kvs), r)"
        using t(2) n by (intro read_members [OF kvs dist False]) simp_all
      then show ?thesis using sp by (simp add: parse_object_def del: parse_members.simps parse_value.simps starts_with_Cons)
    qed
    then show "parse_value d levels tokens (json_text (J_Obj kvs) @ r) = Inr (embed (J_Obj kvs), tokens + json_nodes (J_Obj kvs), r)"
      using t(2) unfolding wr l n by (simp add: skip_space_first is_json_space_def starts_with_def)
  qed
qed (use reads_number reads_scalar in \<open>auto simp: Suc_le_eq gr0_conv_Suc simp del: parse_value.simps\<close>)

subsection \<open>The content of a value\<close>

fun content :: "jval \<Rightarrow> json"
and content_slots :: "jprop option list \<Rightarrow> json list"
and content_props :: "(jstring \<times> jprop) list \<Rightarrow> (jstring \<times> json) list" where
  \<comment> \<open>what a plain value says: its enumerable data, members by name\<close>
  "content (JBool b) = J_Bool b"
| "content (JNum n) = J_Num n"
| "content (JStr s) = J_Str s"
| "content (JArr p xs ps n) = J_Arr (content_slots xs)"
| "content (JObj p ps n) = J_Obj (sort_key fst (content_props ps))"
| "content _ = J_Null"
| "content_slots [] = []"
| "content_slots (Some (Data e v) # xs) = content v # content_slots xs"
| "content_slots (_ # xs) = J_Null # content_slots xs"
| "content_props [] = []"
| "content_props ((k, Data True v) # ps) = (k, content v) # content_props ps"
| "content_props (_ # ps) = content_props ps"

fun whole :: "jval \<Rightarrow> bool"
and whole_slots :: "jprop option list \<Rightarrow> bool"
and whole_props :: "(jstring \<times> jprop) list \<Rightarrow> bool" where
  \<comment> \<open>no array in it has a hole, no field is read through a getter\<close>
  "whole (JArr p xs ps n) = whole_slots xs"
| "whole (JObj p ps n) = whole_props ps"
| "whole _ = True"
| "whole_slots [] = True"
| "whole_slots (Some (Data e v) # xs) = (whole v \<and> whole_slots xs)"
| "whole_slots (_ # xs) = False"
| "whole_props [] = True"
| "whole_props ((k, Data e v) # ps) = (whole v \<and> whole_props ps)"
| "whole_props ((k, Accessor e) # ps) = (\<not> e \<and> whole_props ps)"

lemma list_all2_insort_key:
  assumes "list_all2 R xs ys" "R x y" "\<And>x y. R x y \<Longrightarrow> f x = g y"
  shows "list_all2 R (insort_key f x xs) (insort_key g y ys)"
  using assms(1)
proof (induction rule: list_all2_induct)
  case (Cons a as b bs)
  then show ?case using assms(2) assms(3) [OF assms(2)] assms(3) [OF Cons.hyps(1)] by simp
qed (simp add: assms(2))

lemma list_all2_sort_key:
  assumes "list_all2 R xs ys" "\<And>x y. R x y \<Longrightarrow> f x = g y"
  shows "list_all2 R (sort_key f xs) (sort_key g ys)"
  using assms(1)
proof (induction rule: list_all2_induct)
  case (Cons a as b bs)
  then show ?case using list_all2_insort_key [OF Cons.IH Cons.hyps(1), of f g] assms(2) by simp
qed simp

definition written :: "jstring \<times> jstring result \<Rightarrow> jstring \<times> json \<Rightarrow> bool" where
  "written p q \<longleftrightarrow> fst p = fst q \<and> (\<forall>t. snd p = Inr t \<longrightarrow> t = json_text (snd q))"

lemma canonical_text:
  "canonical_json d v = Inr t \<Longrightarrow> whole v \<Longrightarrow> t = json_text (content v)"
  "canonical_slots d xs = Inr ts \<Longrightarrow> whole_slots xs \<Longrightarrow> ts = map json_text (content_slots xs)"
  "whole_props ps \<Longrightarrow> list_all2 written (canonical_props d ps) (content_props ps)"
proof (induction d v and d xs and d ps arbitrary: t and ts rule: canonical_json_canonical_slots_canonical_props.induct)
  case (6 d p ps n)
  let ?raw = "sort_key fst (canonical_props d ps)" and ?kvs = "sort_key fst (content_props ps)"
  have "list_all2 written (canonical_props d ps) (content_props ps)" using 6 by (auto split: if_splits)
  then have rel: "list_all2 written ?raw ?kvs" by (rule list_all2_sort_key) (simp add: written_def)
  from 6(2) obtain parts where parts: "mapM (\<lambda>(k, r). rbind r (\<lambda>t. Inr (member_text (k, t)))) ?raw = Inr parts" "t = bracketed 123 125 parts"
    by (auto simp: rbind_Inr_iff split: if_splits)
  have "list_all2 written raw kvs \<Longrightarrow> mapM (\<lambda>(k, r). rbind r (\<lambda>t. Inr (member_text (k, t)))) raw = Inr ps
      \<Longrightarrow> ps = map (\<lambda>(k, t). member_text (k, t)) (map (map_prod id json_text) kvs)" for raw kvs ps
  proof (induction arbitrary: ps rule: list_all2_induct)
    case (Cons x xs y ys)
    then show ?case by (cases x; cases y) (auto simp: rbind_Inr_iff written_def)
  qed simp
  from this [OF rel parts(1)] parts(2) show ?case by simp
qed (auto simp: rbind_Inr_iff written_def split: if_splits)

lemma canonical_determines:
  assumes "canonical_json d v = Inr t" "whole v" "json_readable (dialect_guard r) (content v)" "json_depth (content v) \<le> 33"
    "json_nodes (content v) \<le> 4096"
  shows "parse_document r t = Inr (embed (content v))"
proof -
  have t: "t = json_text (content v)" using canonical_text(1) [OF assms(1,2)] .
  have "parse_value r 33 0 (json_text (content v) @ []) = Inr (embed (content v), 0 + json_nodes (content v), [])"
    using reads_document [OF assms(3,4)] assms(5) by (intro reads_textD) simp_all
  moreover have "skip_space (json_text (content v)) = json_text (content v)"
    using skip_value [OF json_text_start [OF assms(3), of "[]"]] by simp
  ultimately show ?thesis by (simp add: parse_document_def t skip_space_def [of "[]"] del: parse_value.simps)
qed

lemma embed_inject: "embed i = embed j \<Longrightarrow> i = j"
proof (induction i arbitrary: j)
  case (J_Arr xs)
  then obtain ys where j: "j = J_Arr ys" by (cases j) (auto simp: jarr_def jnull_obj_def)
  with J_Arr.prems have "map (\<lambda>j. Some (jdata (embed j))) xs = map (\<lambda>j. Some (jdata (embed j))) ys"
    by (simp add: jarr_def comp_def)
  then have "xs = ys"
    by (rule list.inj_map_strong [rotated]) (use J_Arr.IH in \<open>auto simp: jdata_def\<close>)
  then show ?case using j by simp
next
  case (J_Obj kvs)
  then obtain ls where j: "j = J_Obj ls" by (cases j) (auto simp: jarr_def jnull_obj_def)
  with J_Obj.prems have "map (\<lambda>x. (fst x, jdata (embed (snd x)))) kvs = map (\<lambda>x. (fst x, jdata (embed (snd x)))) ls"
    by (simp add: jnull_obj_def case_prod_beta map_prod_def comp_def)
  then have "kvs = ls"
  proof (rule list.inj_map_strong [rotated])
    fix x y assume x: "x \<in> set kvs" "y \<in> set ls" "(fst x, jdata (embed (snd x))) = (fst y, jdata (embed (snd y)))"
    then have "embed (snd x) = embed (snd y)" "fst x = fst y" by (simp_all add: jdata_def)
    moreover have "snd x \<in> Basic_BNFs.snds x" by (cases x) (simp add: prod_set_simps)
    ultimately show "x = y" using J_Obj.IH [OF x(1)] by (intro prod_eqI) blast+
  qed
  then show ?case using j by simp
qed (case_tac j; simp add: jarr_def jnull_obj_def)+

lemma round_double_one: "round_double 1 = Fin 1"
proof -
  have "rat_log2 1 = 0" by (simp add: rat_log2_def nat_log2.simps pow2_def)
  moreover have "round_half_even (1 / pow2 (- 52)) = 2 ^ 52" by (simp add: round_half_even_def pow2_def)
  ultimately have "round_pos 1 = 1" by (simp add: round_pos_def pow2_def)
  then show ?thesis by (simp add: round_double_def pow2_def)
qed

lemma num_to_string_one: "num_to_string (Fin 1) = [49]"
proof -
  have d: "decimal_digits 1 = [49]" "decimal_digits (Suc 0) = [49]" by (simp_all add: decimal_digits.simps)
  have e: "rat_exp10 1 = 1" by (simp add: rat_exp10_def d)
  have c: "digit_candidate 1 1 1 = Some (1, 1, 1)" by (simp add: digit_candidate_def pow10_def round_double_one Let_def)
  have "[1..<18] = 1 # [2..<18]" by (simp add: upt_rec)
  then have "shortest_digits 1 = (1, 1, 1)" unfolding shortest_digits_def Let_def e using c by simp
  then show ?thesis by (simp add: num_to_string_def positive_to_string_def d format_digits_def)
qed

lemma one_reads_back: "num_reads_back (Fin 1)"
proof -
  note num_to_string_one
  moreover have "scan_number (49 # r) = Some (Fin 1, r)" if "stops r" for r
  proof -
    have "takeWhile is_digit r = []" "dropWhile is_digit r = r" "fraction_part r = ([], r)" "exponent_part r = (0, r)"
      using that by (auto simp: stops_def is_digit_def fraction_part_def exponent_part_def split: list.splits)
    then show ?thesis
      by (simp add: round_double_one scan_number_def scan_unsigned_def integer_part_def is_digit_def digits_value_def pow10_def signed_double_def)
  qed
  ultimately show ?thesis by (simp add: num_reads_back_def num_is_finite_def)
qed

subsection \<open>The property\<close>


definition sample_fields :: "(jstring \<times> jval) list" where
  "sample_fields = [(js ''protocolVersion'', jint 1), (js ''audience'', jarr [jlit ''sdn'', JNull])]"


end
