(* ===== verification/OriginRelay.thy ===== *)
theory OriginRelay
  imports RegistryFacts JsonErrors JsonRoundtrip
begin

section \<open>The wallet origin's relay: origin-app/relay.mjs\<close>

text \<open>
  What the wallet origin reads from and writes to its own relay: the bounded reader of a JSON
  response, the checks of a transaction and of a completion, and the set of redirects a published
  result approved. The network is an argument: a response is its status, headers and the reads of
  its body; \<open>None\<close> as an outcome is a promise that stays pending.
\<close>

subsection \<open>Text of a value\<close>

text \<open>
  \<open>RegExp.test\<close> and template literals convert their argument with \<open>ToString\<close>. An array is its
  elements joined by commas, an object without a prototype throws \<open>TypeError\<close>. (A function's text
  and an object's own \<open>toString\<close> are not represented: the former never matches a pattern here.)
\<close>

definition bool_text :: "bool \<Rightarrow> jstring" where
  "bool_text b = (if b then js ''true'' else js ''false'')"

fun to_text :: "jval \<Rightarrow> jstring result"
and slot_texts :: "jprop option list \<Rightarrow> jstring list result" where
  "to_text JUndefined = Inr (js ''undefined'')"
| "to_text JNull = Inr (js ''null'')"
| "to_text (JBool b) = Inr (bool_text b)"
| "to_text (JNum n) = Inr (num_to_string n)"
| "to_text (JStr s) = Inr s"
| "to_text JSymbol = Inl (Type_Error [])"
| "to_text JFunction = Inr (js ''function'')"
| "to_text (JArr p xs ps n) = rbind (slot_texts xs) (\<lambda>ts. Inr (join_with 44 ts))"
| "to_text (JObj p ps n) = (if p = Object_Prototype then Inr (js ''[object Object]'') else Inl (Type_Error []))"
| "to_text (JBytes p bs ps n k) = Inr (join_with 44 (map (\<lambda>b. decimal_digits (unat b)) bs))"
| "slot_texts [] = Inr []"
| "slot_texts (None # xs) = rbind (slot_texts xs) (\<lambda>ts. Inr ([] # ts))"
| "slot_texts (Some (Accessor e) # xs) = rbind (slot_texts xs) (\<lambda>ts. Inr ([] # ts))"
| "slot_texts (Some (Data e v) # xs) =
     rbind (if v = JUndefined \<or> v = JNull then Inr [] else to_text v) (\<lambda>t. rbind (slot_texts xs) (\<lambda>ts. Inr (t # ts)))"

definition regexp_test :: "(jstring \<Rightarrow> bool) \<Rightarrow> jval \<Rightarrow> js_error \<Rightarrow> unit result" where
  \<comment> \<open>\<open>if (!PATTERN.test(value)) fail()\<close>\<close>
  "regexp_test pattern v e = rbind (to_text v) (\<lambda>t. ensure (pattern t) e)"

lemma regexp_test_str [simp]: "is_ok (regexp_test pattern (JStr s) e) \<longleftrightarrow> pattern s"
  by (simp add: regexp_test_def)

subsection \<open>Records\<close>

definition TRANSACTION_ID :: "jstring \<Rightarrow> bool" where
  "TRANSACTION_ID s = lower_hex 64 s"

definition is_base64url_char :: "code_unit \<Rightarrow> bool" where
  "is_base64url_char c \<longleftrightarrow> (65 \<le> c \<and> c \<le> 90) \<or> (97 \<le> c \<and> c \<le> 122) \<or> (48 \<le> c \<and> c \<le> 57) \<or> c = 95 \<or> c = 45"

definition RESULT_TOKEN :: "jstring \<Rightarrow> bool" where
  "RESULT_TOKEN s \<longleftrightarrow> length s = 43 \<and> list_all is_base64url_char s"

definition TRANSACTION_FIELDS :: "string list" where
  "TRANSACTION_FIELDS = [''callbackUri'', ''clientDisplayName'', ''clientId'', ''expiresAt'', ''operation'',
     ''registryVersion'', ''request'', ''requestOrigin'', ''requestSha256'', ''resultToken'', ''schemaVersion'',
     ''state'', ''transactionId'']"

definition COMPLETION_FIELDS :: "string list" where
  "COMPLETION_FIELDS = [''redirectUri'', ''schemaVersion'', ''transactionId'']"

definition MAX_TRANSACTION_RESPONSE_BYTES :: nat where
  "MAX_TRANSACTION_RESPONSE_BYTES = 64 * 1024"

definition MAX_COMPLETION_RESPONSE_BYTES :: nat where
  "MAX_COMPLETION_RESPONSE_BYTES = 4 * 1024"

definition relay_record :: "jval \<Rightarrow> string list \<Rightarrow> jval result" where
  "relay_record v expected = exact_fields (\<lambda>_. Wallet_Relay_Error) v expected []"

subsection \<open>Reading a response\<close>

datatype body_read = Chunk "byte list" | Foreign_Chunk | Read_Rejects | Read_Aborted | Body_Done

record relay_response =
  response_status :: nat
  response_redirected :: bool
  response_cache_control :: "jstring option"
  response_content_type :: "jstring option"
  response_readable :: bool \<comment> \<open>its body has a reader with a \<open>read\<close> function\<close>
  response_reads :: "body_read list"

definition lower_ascii :: "code_unit \<Rightarrow> code_unit" where
  "lower_ascii c = (if 65 \<le> c \<and> c \<le> 90 then c + 32 else c)"

definition header_is :: "jstring option \<Rightarrow> string \<Rightarrow> bool" where
  \<comment> \<open>\<open>get(...)?.trim().toLowerCase() === text\<close>\<close>
  "header_is h text = (case h of
       None \<Rightarrow> False
     | Some s \<Rightarrow> map lower_ascii (trim_text s) = js text)"

fun read_chunks :: "nat \<Rightarrow> byte list \<Rightarrow> body_read list \<Rightarrow> byte list result option" where
  \<comment> \<open>a body that never ends leaves the promise pending\<close>
  "read_chunks maximum_bytes acc [] = None"
| "read_chunks maximum_bytes acc (Body_Done # rs) = Some (Inr acc)"
| "read_chunks maximum_bytes acc (Chunk bs # rs) =
     (if maximum_bytes < length (acc @ bs) then Some (Inl Wallet_Relay_Error) else read_chunks maximum_bytes (acc @ bs) rs)"
| "read_chunks maximum_bytes acc (_ # rs) = Some (Inl Wallet_Relay_Error)"

definition decode_body :: "nat \<Rightarrow> byte list \<Rightarrow> jval result" where
  "decode_body maximum_bytes bs = (case text_decode bs of
       None \<Rightarrow> Inl Wallet_Relay_Error
     | Some text \<Rightarrow> origin_parse_json (JStr text) maximum_bytes)"

definition read_exact_json_response :: "relay_response \<Rightarrow> nat \<Rightarrow> nat \<Rightarrow> bool \<Rightarrow> jval result option" where
  \<comment> \<open>the flag: the signal was aborted before the first read\<close>
  "read_exact_json_response response expected_status maximum_bytes aborted =
     (if response_status response = expected_status \<and> \<not> response_redirected response
         \<and> header_is (response_cache_control response) ''no-store''
         \<and> header_is (response_content_type response) ''application/json; charset=utf-8''
         \<and> response_readable response \<and> \<not> aborted
      then map_option (\<lambda>r. rbind r (decode_body maximum_bytes)) (read_chunks maximum_bytes [] (response_reads response))
      else Some (Inl Wallet_Relay_Error))"

subsection \<open>Transactions and completions\<close>

definition transaction_checks :: "jval \<Rightarrow> unit result list" where
  "transaction_checks value =
     [regexp_test TRANSACTION_ID (fld value ''transactionId'') Wallet_Relay_Error,
      regexp_test TRANSACTION_ID (fld value ''state'') Wallet_Relay_Error,
      regexp_test TRANSACTION_ID (fld value ''requestSha256'') Wallet_Relay_Error,
      regexp_test RESULT_TOKEN (fld value ''resultToken'') Wallet_Relay_Error]
     @ map (\<lambda>f. ensure (is_str (fld value f)) Wallet_Relay_Error)
         [''callbackUri'', ''clientDisplayName'', ''clientId'', ''expiresAt'', ''operation'', ''registryVersion'', ''requestOrigin'']"

definition validate_transaction_response :: "jval \<Rightarrow> jval option \<Rightarrow> jval result" where
  \<comment> \<open>\<open>None\<close>: the expected id is the value's own, as \<open>publishResult\<close> calls it\<close>
  "validate_transaction_response v expected_id = rbind (relay_record v TRANSACTION_FIELDS) (\<lambda>value. checks
     ([ensure (strict_eq (fld value ''schemaVersion'') (jint 1)) Wallet_Relay_Error,
       ensure (case expected_id of None \<Rightarrow> True | Some i \<Rightarrow> strict_eq (fld value ''transactionId'') i) Wallet_Relay_Error]
      @ transaction_checks value)
     (Inr (freeze_copy value)))"

definition same_id :: "jval \<Rightarrow> jval \<Rightarrow> bool" where
  \<comment> \<open>\<open>===\<close> of the completion's id, a value of its own, with the transaction's\<close>
  "same_id = strict_eq"

definition validate_wallet_relay_completion :: "jval \<Rightarrow> jval \<Rightarrow> jval result" where
  "validate_wallet_relay_completion transaction v = rbind (relay_record v COMPLETION_FIELDS) (\<lambda>value. checks
     [ensure (strict_eq (fld value ''schemaVersion'') (jint 1)) Wallet_Relay_Error,
      ensure (same_id (fld value ''transactionId'') (fld transaction ''transactionId'')) Wallet_Relay_Error,
      ensure (is_str (fld value ''redirectUri'')) Wallet_Relay_Error]
     (rbind (to_text (fld transaction ''callbackUri'')) (\<lambda>callback.
      rbind (to_text (fld transaction ''state'')) (\<lambda>state.
      let uri = str_of (fld value ''redirectUri''); prefix = callback @ js ''#code=''; suffix = js ''&state='' @ state;
          code = take (length uri - length suffix - length prefix) (drop (length prefix) uri)
      in checks
        [ensure (starts_with prefix uri \<and> ends_with suffix uri) Wallet_Relay_Error,
         ensure (TRANSACTION_ID code \<and> uri = prefix @ code @ suffix) Wallet_Relay_Error]
        (Inr (jobj [(js ''redirectUri'', fld value ''redirectUri''), (js ''schemaVersion'', jint 1),
           (js ''transactionId'', fld value ''transactionId'')]))))))"

subsection \<open>Requests\<close>

record relay_options =
  option_method :: string
  option_headers :: "(string \<times> string) list"
  option_body :: "jval option"
  option_fixed :: "(string \<times> string) list"

definition request_options :: "string \<Rightarrow> jval option \<Rightarrow> relay_options" where
  "request_options method body = \<lparr>option_method = method,
     option_headers = (if method = ''POST'' then [(''Accept'', ''application/json''), (''Content-Type'', ''application/json'')]
       else [(''Accept'', ''application/json'')]),
     option_body = body,
     option_fixed = [(''cache'', ''no-store''), (''credentials'', ''omit''), (''mode'', ''same-origin''),
       (''redirect'', ''error''), (''referrerPolicy'', ''no-referrer'')]\<rparr>"

datatype fetch_outcome = Fetch_Rejects | Fetch_Pending | Fetch_Response relay_response bool
  \<comment> \<open>the flag: aborted before the body is read\<close>

type_synonym network = "jstring \<Rightarrow> relay_options \<Rightarrow> fetch_outcome"

definition relay_request :: "network \<Rightarrow> jstring \<Rightarrow> relay_options \<Rightarrow> nat \<Rightarrow> nat \<Rightarrow> jval result option" where
  "relay_request fetch path options expected_status maximum_bytes = (case fetch path options of
       Fetch_Rejects \<Rightarrow> Some (Inl Wallet_Relay_Error)
     | Fetch_Pending \<Rightarrow> None
     | Fetch_Response response aborted \<Rightarrow> read_exact_json_response response expected_status maximum_bytes aborted)"

definition fetch_transaction :: "network \<Rightarrow> jval \<Rightarrow> jval result option" where
  "fetch_transaction fetch transaction_id =
     (if is_str transaction_id \<and> TRANSACTION_ID (str_of transaction_id)
      then map_option (\<lambda>r. rbind r (\<lambda>v. validate_transaction_response v (Some transaction_id)))
        (relay_request fetch (js ''/relay/v1/transactions/'' @ str_of transaction_id) (request_options ''GET'' None) 200
           MAX_TRANSACTION_RESPONSE_BYTES)
      else Some (Inl Wallet_Relay_Error))"

definition publish_result :: "network \<Rightarrow> jval \<Rightarrow> jval \<Rightarrow> jval result option" where
  \<comment> \<open>up to the validated completion\<close>
  "publish_result fetch transaction outcome = (case validate_transaction_response transaction None of
       Inl e \<Rightarrow> Some (Inl e)
     | Inr validated \<Rightarrow> (case to_text (fld validated ''transactionId'') of
         Inl e \<Rightarrow> Some (Inl e)
       | Inr i \<Rightarrow> map_option (\<lambda>r. rbind r (validate_wallet_relay_completion validated))
           (relay_request fetch (js ''/relay/v1/transactions/'' @ i @ js ''/result'')
             (request_options ''POST'' (Some (jobj [(js ''result'', outcome), (js ''resultToken'', fld validated ''resultToken''),
                (js ''schemaVersion'', jint 1), (js ''transactionId'', fld validated ''transactionId'')])))
             201 MAX_COMPLETION_RESPONSE_BYTES)))"

subsection \<open>The approved redirects\<close>

text \<open>
  One relay object and the calls made on it. A publish changes the set when its response has been
  validated; navigation takes its redirect out of the set before it calls \<open>location.replace\<close>.
\<close>

datatype relay_event =
    Published jval jval jval \<comment> \<open>transaction, result, the completion it ended with\<close>
  | Navigated jval bool \<comment> \<open>redirect, and whether \<open>location.replace\<close> returned\<close>
  | Navigation_Refused jval
  | Revoked
  | Destroyed

inductive relay_step :: "network \<Rightarrow> jstring set \<Rightarrow> relay_event \<Rightarrow> jstring set \<Rightarrow> bool" for fetch where
  publish: "publish_result fetch t r = Some (Inr c) \<Longrightarrow> relay_step fetch s (Published t r c) {str_of (fld c ''redirectUri'')}"
| navigate: "u \<in> s \<Longrightarrow> relay_step fetch s (Navigated (JStr u) replaced) (s - {u})"
| refuse: "\<not> is_str v \<or> str_of v \<notin> s \<Longrightarrow> relay_step fetch s (Navigation_Refused v) s"
| revoke: "relay_step fetch s Revoked {}"
| destroy: "relay_step fetch s Destroyed {}"

inductive_simps relay_step_simps: "relay_step fetch s (Published t r c) s'" "relay_step fetch s (Navigated v ok) s'"
  "relay_step fetch s (Navigation_Refused v) s'" "relay_step fetch s Revoked s'" "relay_step fetch s Destroyed s'"

inductive relay_run :: "network \<Rightarrow> relay_event list \<Rightarrow> jstring set \<Rightarrow> bool" for fetch where
  \<comment> \<open>the latest event first\<close>
  start: "relay_run fetch [] {}"
| step: "relay_run fetch es s \<Longrightarrow> relay_step fetch s e s' \<Longrightarrow> relay_run fetch (e # es) s'"

inductive_cases relay_runE: "relay_run fetch (e # es) s"

fun approved_by :: "relay_event list \<Rightarrow> jstring \<Rightarrow> bool" where
  \<comment> \<open>the last publish approved \<open>u\<close>, and nothing took it back since\<close>
  "approved_by [] u = False"
| "approved_by (Published t r c # es) u = (str_of (fld c ''redirectUri'') = u)"
| "approved_by (Navigated v ok # es) u = (str_of v \<noteq> u \<and> approved_by es u)"
| "approved_by (Navigation_Refused v # es) u = approved_by es u"
| "approved_by (Revoked # es) u = False"
| "approved_by (Destroyed # es) u = False"

lemma relay_run_approved: "relay_run fetch es s \<Longrightarrow> u \<in> s \<longleftrightarrow> approved_by es u"
  by (induction arbitrary: u rule: relay_run.induct) (auto elim: relay_step.cases simp: str_of_def)

subsection \<open>Facts\<close>

lemma relay_record_Inr: "relay_record v expected = Inr r \<Longrightarrow> r = v"
  by (simp add: relay_record_def exact_fields_Inr)

lemma completion_parts:
  assumes "validate_wallet_relay_completion t v = Inr c" "to_text (fld t ''callbackUri'') = Inr cb" "to_text (fld t ''state'') = Inr st"
  shows "\<exists>code. TRANSACTION_ID code \<and> fld v ''redirectUri'' = JStr (cb @ js ''#code='' @ code @ js ''&state='' @ st)
     \<and> strict_eq (fld v ''transactionId'') (fld t ''transactionId'')
     \<and> c = jobj [(js ''redirectUri'', fld v ''redirectUri''), (js ''schemaVersion'', jint 1), (js ''transactionId'', fld v ''transactionId'')]"
proof -
  from assms(1) have "relay_record v COMPLETION_FIELDS = Inr v"
    by (auto simp: validate_wallet_relay_completion_def rbind_Inr_iff dest: relay_record_Inr)
  with assms obtain code where "TRANSACTION_ID code" "str_of (fld v ''redirectUri'') = (cb @ js ''#code='') @ code @ js ''&state='' @ st"
      "is_str (fld v ''redirectUri'')" "same_id (fld v ''transactionId'') (fld t ''transactionId'')"
      "c = jobj [(js ''redirectUri'', fld v ''redirectUri''), (js ''schemaVersion'', jint 1), (js ''transactionId'', fld v ''transactionId'')]"
    by (auto simp: validate_wallet_relay_completion_def rbind_Inr_iff checks_Inr_iff Let_def)
  then show ?thesis by (cases "fld v ''redirectUri''") (auto simp: same_id_def str_of_def is_str_def)
qed

lemma completion_accepts:
  assumes "to_text (fld t ''callbackUri'') = Inr cb" "to_text (fld t ''state'') = Inr st" "TRANSACTION_ID code"
    "strict_eq i (fld t ''transactionId'')" "i \<noteq> JUndefined" "u = cb @ js ''#code='' @ code @ js ''&state='' @ st"
  shows "validate_wallet_relay_completion t (jobj [(js ''redirectUri'', JStr u), (js ''schemaVersion'', jint 1), (js ''transactionId'', i)])
    = Inr (jobj [(js ''redirectUri'', JStr u), (js ''schemaVersion'', jint 1), (js ''transactionId'', i)])"
proof -
  let ?v = "jobj [(js ''redirectUri'', JStr u), (js ''schemaVersion'', jint 1), (js ''transactionId'', i)]"
  have "relay_record ?v COMPLETION_FIELDS = Inr ?v"
    unfolding relay_record_def by (rule exact_fields_jobj) (use assms(5) in \<open>auto simp: COMPLETION_FIELDS_def\<close>)
  moreover have f: "fld ?v ''redirectUri'' = JStr u" "fld ?v ''schemaVersion'' = jint 1" "fld ?v ''transactionId'' = i"
    by (simp_all add: fld_def field_jobj)
  moreover have "starts_with (cb @ js ''#code='') u" "ends_with (js ''&state='' @ st) u"
    using assms(6) starts_with_iff [of "cb @ js ''#code=''" u] ends_with_iff [of "js ''&state='' @ st" u] by auto
  moreover have "length u = length cb + 6 + length code + 7 + length st" using assms(6) by simp
  moreover have "drop (length cb + 6) u = code @ js ''&state='' @ st" using assms(6) by simp
  ultimately show ?thesis using assms
    by (simp add: validate_wallet_relay_completion_def checks_Inr_iff Let_def strict_eq_jint same_id_def str_of_def is_str_def)
qed

definition sample_transaction :: "jval \<Rightarrow> jval" where
  \<comment> \<open>a transaction reply with this value as its state\<close>
  "sample_transaction state = jobj
     [(js ''callbackUri'', jlit ''https://spaceaware.io/wallet/callback''), (js ''clientDisplayName'', jlit ''SpaceAware''),
      (js ''clientId'', jlit ''spaceaware-web-v1''), (js ''expiresAt'', jlit ''2026-01-01T00:00:00.000Z''),
      (js ''operation'', jlit ''sdn.wallet.connect.v1''), (js ''registryVersion'', jlit ''r''), (js ''request'', jobj []),
      (js ''requestOrigin'', jlit ''https://spaceaware.io''), (js ''requestSha256'', JStr (replicate 64 48)),
      (js ''resultToken'', JStr (replicate 43 65)), (js ''schemaVersion'', jint 1), (js ''state'', state),
      (js ''transactionId'', JStr (replicate 64 49))]"

lemma fld_sample_transaction:
  "fld (sample_transaction v) ''state'' = v" "fld (sample_transaction v) ''schemaVersion'' = jint 1"
  "fld (sample_transaction v) ''transactionId'' = JStr (replicate 64 49)" "fld (sample_transaction v) ''requestSha256'' = JStr (replicate 64 48)"
  "fld (sample_transaction v) ''resultToken'' = JStr (replicate 43 65)"
  "list_all (\<lambda>f. is_str (fld (sample_transaction v) f))
     [''callbackUri'', ''clientDisplayName'', ''clientId'', ''expiresAt'', ''operation'', ''registryVersion'', ''requestOrigin'']"
  by (simp_all add: sample_transaction_def fld_def field_jobj is_str_def jlit_def)

lemma sample_transaction_outcome:
  assumes "v \<noteq> JUndefined"
  shows "validate_transaction_response (sample_transaction v) None
     = rbind (regexp_test TRANSACTION_ID v Wallet_Relay_Error) (\<lambda>_. Inr (freeze_copy (sample_transaction v)))"
proof -
  have "relay_record (sample_transaction v) TRANSACTION_FIELDS = Inr (sample_transaction v)"
    unfolding relay_record_def sample_transaction_def
    by (rule exact_fields_jobj) (use assms in \<open>auto simp: TRANSACTION_FIELDS_def\<close>)
  moreover have "TRANSACTION_ID (replicate 64 48)" "TRANSACTION_ID (replicate 64 49)" "RESULT_TOKEN (replicate 43 65)"
    by (auto simp: TRANSACTION_ID_def lower_hex_def is_lower_hex_def list_all_iff RESULT_TOKEN_def is_base64url_char_def)
  moreover have "checks (map (\<lambda>f. ensure (is_str (fld (sample_transaction v) f)) Wallet_Relay_Error)
      [''callbackUri'', ''clientDisplayName'', ''clientId'', ''expiresAt'', ''operation'', ''registryVersion'', ''requestOrigin'']) k = k"
    for k :: "jval result" using fld_sample_transaction(6) [of v] by (intro checks_all_ok) simp
  ultimately show ?thesis
    by (cases "regexp_test TRANSACTION_ID v Wallet_Relay_Error")
      (simp_all add: validate_transaction_response_def transaction_checks_def fld_sample_transaction strict_eq_jint checks_append
        regexp_test_def [of _ "JStr s" for s])
qed

subsubsection \<open>A completed exchange\<close>

lemma js_wf_ascii: "is_ascii s \<Longrightarrow> js_wf s"
  by (auto simp: is_ascii_def js_wf_def list_all_iff)

lemma utf16_ok_ascii: "is_ascii s \<Longrightarrow> utf16_ok s"
  by (induction s rule: utf16_ok.induct) (auto dest: ascii_not_surrogate)

lemma is_ascii_replicate [simp]: "is_ascii (replicate n c) \<longleftrightarrow> n = 0 \<or> c < 128"
  by (auto simp: is_ascii_def list_all_iff)

definition sample_uri :: jstring where
  "sample_uri = js ''https://spaceaware.io/wallet/callback'' @ js ''#code='' @ replicate 64 51 @ js ''&state='' @ replicate 64 50"

definition sample_completion :: json where
  "sample_completion = J_Obj [(js ''redirectUri'', J_Str sample_uri), (js ''schemaVersion'', J_Num (Fin 1)),
     (js ''transactionId'', J_Str (replicate 64 49))]"

definition sample_response :: relay_response where
  "sample_response = \<lparr>response_status = 201, response_redirected = False, response_cache_control = Some (js ''no-store''),
     response_content_type = Some (js ''application/json; charset=utf-8''), response_readable = True,
     response_reads = [Chunk (utf8_encode (json_text sample_completion)), Body_Done]\<rparr>"

definition sample_network :: network where
  "sample_network path options = Fetch_Response sample_response False"

lemma sample_uri_ascii: "is_ascii sample_uri" "length sample_uri = 178"
  by (simp_all add: sample_uri_def js_def)

lemma quote_ascii: "\<forall>c\<in>set s. 32 \<le> c \<and> c < 128 \<and> c \<noteq> 34 \<and> c \<noteq> 92 \<Longrightarrow> json_quote s = [34] @ s @ [34]"
proof -
  have "\<forall>c\<in>set s. 32 \<le> c \<and> c < 128 \<and> c \<noteq> 34 \<and> c \<noteq> 92 \<Longrightarrow> quote_body s = s" for s
    by (induction s rule: quote_body.induct) (auto simp: quote_unit_def dest: ascii_not_surrogate)
  then show "\<forall>c\<in>set s. 32 \<le> c \<and> c < 128 \<and> c \<noteq> 34 \<and> c \<noteq> 92 \<Longrightarrow> json_quote s = [34] @ s @ [34]" by (simp add: json_quote_def)
qed

lemma sample_text:
  "json_text sample_completion = [123, 34] @ js ''redirectUri'' @ [34, 58, 34] @ sample_uri @ [34, 44, 34] @ js ''schemaVersion''
     @ [34, 58, 49, 44, 34] @ js ''transactionId'' @ [34, 58, 34] @ replicate 64 49 @ [34, 125]"
proof -
  have u: "\<forall>c\<in>set sample_uri. 32 \<le> c \<and> c < 128 \<and> c \<noteq> 34 \<and> c \<noteq> 92" by (auto simp: sample_uri_def js_def)
  have q: "json_quote (js ''redirectUri'') = [34] @ js ''redirectUri'' @ [34]" "json_quote (js ''schemaVersion'') = [34] @ js ''schemaVersion'' @ [34]"
    "json_quote (js ''transactionId'') = [34] @ js ''transactionId'' @ [34]" "json_quote sample_uri = [34] @ sample_uri @ [34]"
    "json_quote (replicate 64 49) = [34] @ replicate 64 49 @ [34]"
    by (rule quote_ascii, (use u in \<open>auto simp: js_def\<close>)[1])+
  show ?thesis by (simp add: sample_completion_def bracketed_def member_text_def num_to_string_one q)
qed

lemma sample_text_ascii: "is_ascii (json_text sample_completion)" "length (json_text sample_completion) \<le> 4096"
  unfolding sample_text using sample_uri_ascii by (simp_all add: js_def)

lemma sample_read: "read_exact_json_response sample_response 201 MAX_COMPLETION_RESPONSE_BYTES False = Some (Inr (embed sample_completion))"
proof -
  let ?t = "json_text sample_completion"
  have a: "is_ascii ?t" "length ?t \<le> 4096" by (rule sample_text_ascii)+
  have b: "\<not> has_bom ?t" unfolding sample_text by (simp add: has_bom_def starts_with_def)
  have u: "js_wf ?t" "utf16_ok ?t" "hd ?t \<noteq> 65279"
    using a(1) by (simp_all add: js_wf_ascii utf16_ok_ascii) (simp add: sample_text)
  have g: "dialect_guard (relay_dialect Wallet_Relay_Error) x" if "is_ascii x" for x
    using that utf16_ok_ascii by (simp add: relay_dialect_def surrogate_guard_def)
  have "json_readable (dialect_guard (relay_dialect Wallet_Relay_Error)) sample_completion"
    using sample_uri_ascii one_reads_back g js_wf_ascii by (simp add: sample_completion_def js_def)
  from reads_document [OF this, of 33] have "parse_value (relay_dialect Wallet_Relay_Error) 33 0 (?t @ [])
      = Inr (embed sample_completion, 0 + json_nodes sample_completion, [])"
    by (intro reads_textD) (simp_all add: sample_completion_def)
  moreover have "skip_space ?t = ?t" unfolding sample_text by (simp add: skip_space_def is_json_space_def)
  ultimately have "parse_document (relay_dialect Wallet_Relay_Error) ?t = Inr (embed sample_completion)"
    by (simp add: parse_document_def skip_space_def [of "[]"] del: parse_value.simps)
  then have p: "origin_parse_json (JStr ?t) 4096 = Inr (embed sample_completion)" using a b by (simp add: origin_parse_json_def)
  have d: "text_decode (utf8_encode ?t) = Some ?t"
  proof (rule text_decode_encode_scalars [OF u(1,2)])
    show "take 3 (utf8_encode ?t) \<noteq> [0xef, 0xbb, 0xbf]"
      using a(1) by (simp add: utf8_encode_ascii sample_text byte_of_def)
  qed
  have h: "header_is (Some (js ''no-store'')) ''no-store''"
    "header_is (Some (js ''application/json; charset=utf-8'')) ''application/json; charset=utf-8''"
    by (simp_all add: header_is_def trim_text_def js_def is_trim_scalar_def lower_ascii_def)
  show ?thesis
    using p d h a by (simp add: read_exact_json_response_def sample_response_def decode_body_def MAX_COMPLETION_RESPONSE_BYTES_def)
qed

lemma sample_callback: "to_text (fld (sample_transaction v) ''callbackUri'') = Inr (js ''https://spaceaware.io/wallet/callback'')"
  by (simp add: sample_transaction_def fld_def field_jobj jlit_def)

subsection \<open>The properties\<close>

text \<open>C16: a completion is accepted exactly when it sends the person back to the transaction's own
  callback with a fresh 64-digit code and the transaction's state: any other redirect, of another page
  or with another state, is refused, and what is accepted is returned unchanged.\<close>

theorem completion_exact:
  assumes "to_text (fld t ''callbackUri'') = Inr cb" "to_text (fld t ''state'') = Inr st" "fld t ''transactionId'' = JStr i"
  shows "(\<exists>c. validate_wallet_relay_completion t
        (jobj [(js ''redirectUri'', JStr u), (js ''schemaVersion'', jint 1), (js ''transactionId'', JStr j)]) = Inr c)
    \<longleftrightarrow> j = i \<and> (\<exists>code. TRANSACTION_ID code \<and> u = cb @ js ''#code='' @ code @ js ''&state='' @ st)" (is "?l \<longleftrightarrow> ?r")
proof
  let ?v = "jobj [(js ''redirectUri'', JStr u), (js ''schemaVersion'', jint 1), (js ''transactionId'', JStr j)]"
  have f: "fld ?v ''redirectUri'' = JStr u" "fld ?v ''transactionId'' = JStr j" by (simp_all add: fld_def field_jobj)
  assume ?l
  then obtain c where "validate_wallet_relay_completion t ?v = Inr c" by blast
  from completion_parts [OF this assms(1,2)] f assms(3) show ?r by auto
next
  assume ?r
  then obtain code where "j = i" "TRANSACTION_ID code" "u = cb @ js ''#code='' @ code @ js ''&state='' @ st" by blast
  then show ?l using completion_accepts [OF assms(1,2), of code "JStr j" u] assms(3) by auto
qed

lemma completion_exact_witness:
  "(\<exists>c. validate_wallet_relay_completion (sample_transaction (JStr (replicate 64 50)))
      (jobj [(js ''redirectUri'', JStr sample_uri), (js ''schemaVersion'', jint 1), (js ''transactionId'', JStr (replicate 64 49))]) = Inr c)"
proof -
  have s: "to_text (fld (sample_transaction (JStr (replicate 64 50))) ''state'') = Inr (replicate 64 50)"
    by (simp add: fld_sample_transaction)
  have "TRANSACTION_ID (replicate 64 51)" by (simp add: TRANSACTION_ID_def lower_hex_def is_lower_hex_def list_all_iff)
  then show ?thesis
    using completion_exact [OF sample_callback s fld_sample_transaction(3), of sample_uri "replicate 64 49"]
    by (auto simp: sample_uri_def)
qed

text \<open>C17: the wallet page navigates only where a published result sends it, once: a navigation needs a
  publish before it whose validated completion carried that redirect, which is that transaction's
  callback with code and state, with no later publish, revocation or navigation to it in between, and
  after it the same redirect is refused until another publish.\<close>

theorem navigates_approved_once:
  assumes "relay_run fetch (Navigated v replaced # es) s"
  shows "approved_by es (str_of v) \<and> \<not> approved_by (Navigated v replaced # es) (str_of v) \<and> str_of v \<notin> s
    \<and> (\<exists>t r c validated. Published t r c \<in> set es \<and> validate_transaction_response t None = Inr validated
         \<and> (\<exists>cb st code. to_text (fld validated ''callbackUri'') = Inr cb \<and> to_text (fld validated ''state'') = Inr st
              \<and> TRANSACTION_ID code \<and> str_of v = cb @ js ''#code='' @ code @ js ''&state='' @ st))"
proof -
  from assms obtain s' where run: "relay_run fetch es s'" and "relay_step fetch s' (Navigated v replaced) s"
    by (auto elim: relay_runE)
  then have v: "str_of v \<in> s'" "str_of v \<notin> s" by (auto simp: relay_step_simps str_of_def)
  then have a: "approved_by es (str_of v)" using relay_run_approved [OF run] by blast
  have pub: "\<exists>t r c. Published t r c \<in> set es \<and> publish_result fetch t r = Some (Inr c) \<and> str_of (fld c ''redirectUri'') = u"
    if "relay_run fetch es s'" "approved_by es u" for es s' u
    using that
  proof (induction rule: relay_run.induct)
    case (step es s e s')
    show ?case
    proof (cases "\<exists>t r c. e = Published t r c")
      case True
      then obtain t r c where "e = Published t r c" by blast
      then have "publish_result fetch t r = Some (Inr c)" "str_of (fld c ''redirectUri'') = u" "Published t r c \<in> set (e # es)"
        using step.hyps(2) step.prems by (auto simp: relay_step_simps)
      then show ?thesis by blast
    next
      case False
      then have "approved_by es u" using step.prems by (cases e) auto
      with step.IH show ?thesis by auto
    qed
  qed simp
  obtain t r c where p: "Published t r c \<in> set es" "publish_result fetch t r = Some (Inr c)" "str_of (fld c ''redirectUri'') = str_of v"
    using pub [OF run a] by blast
  obtain validated w where w: "validate_transaction_response t None = Inr validated" "validate_wallet_relay_completion validated w = Inr c"
    using p(2) by (auto simp: publish_result_def rbind_Inr_iff split: sum.splits)
  obtain cb st where "to_text (fld validated ''callbackUri'') = Inr cb" "to_text (fld validated ''state'') = Inr st"
    using w(2) by (auto simp: validate_wallet_relay_completion_def rbind_Inr_iff checks_Inr_iff)
  moreover from completion_parts [OF w(2) this] p(3)
  obtain code where "TRANSACTION_ID code" "str_of v = cb @ js ''#code='' @ code @ js ''&state='' @ st"
    by (auto simp: fld_def field_jobj str_of_def)
  ultimately have "\<exists>cb st code. to_text (fld validated ''callbackUri'') = Inr cb \<and> to_text (fld validated ''state'') = Inr st
      \<and> TRANSACTION_ID code \<and> str_of v = cb @ js ''#code='' @ code @ js ''&state='' @ st" by blast
  with a v p(1) w(1) show ?thesis by (intro conjI exI [of _ t] exI [of _ r] exI [of _ c] exI [of _ validated]) simp_all
qed

lemma sample_publish:
  "\<exists>c. publish_result sample_network (sample_transaction (JStr (replicate 64 50))) JNull = Some (Inr c)
     \<and> str_of (fld c ''redirectUri'') = sample_uri"
proof -
  let ?t = "sample_transaction (JStr (replicate 64 50))"
  have hex: "TRANSACTION_ID (replicate 64 50)" "TRANSACTION_ID (replicate 64 51)"
    by (simp_all add: TRANSACTION_ID_def lower_hex_def is_lower_hex_def list_all_iff)
  have v: "validate_transaction_response ?t None = Inr (freeze_copy ?t)"
    using hex by (simp add: sample_transaction_outcome regexp_test_def)
  have names: "distinct (map fst kvs)" "proto_name \<notin> fst ` set kvs"
    if "kvs = [(js ''callbackUri'', jlit ''https://spaceaware.io/wallet/callback''), (js ''clientDisplayName'', jlit ''SpaceAware''),
      (js ''clientId'', jlit ''spaceaware-web-v1''), (js ''expiresAt'', jlit ''2026-01-01T00:00:00.000Z''),
      (js ''operation'', jlit ''sdn.wallet.connect.v1''), (js ''registryVersion'', jlit ''r''), (js ''request'', jobj []),
      (js ''requestOrigin'', jlit ''https://spaceaware.io''), (js ''requestSha256'', JStr (replicate 64 48)),
      (js ''resultToken'', JStr (replicate 43 65)), (js ''schemaVersion'', jint 1), (js ''state'', JStr (replicate 64 50)),
      (js ''transactionId'', JStr (replicate 64 49))]" for kvs
    using that by (simp_all add: proto_name_def)
  have f: "fld (freeze_copy ?t) ''transactionId'' = JStr (replicate 64 49)" "fld (freeze_copy ?t) ''state'' = JStr (replicate 64 50)"
    "fld (freeze_copy ?t) ''callbackUri'' = jlit ''https://spaceaware.io/wallet/callback''"
    unfolding sample_transaction_def by (simp_all only: fld_freeze_jobj [OF names [OF refl]]) simp_all
  let ?c = "jobj [(js ''redirectUri'', JStr sample_uri), (js ''schemaVersion'', jint 1), (js ''transactionId'', JStr (replicate 64 49))]"
  let ?e = "embed sample_completion"
  have e: "?e = jnull_obj [(js ''redirectUri'', JStr sample_uri), (js ''schemaVersion'', jint 1), (js ''transactionId'', JStr (replicate 64 49))]"
    by (simp add: sample_completion_def jint_def)
  have same: "relay_record ?e COMPLETION_FIELDS = Inr ?e" "fld ?e g = fld ?c g" for g
    unfolding e by (auto simp: relay_record_def exact_fields_Inr jnull_obj_def jobj_def own_names_def own_props_def own_symbols_def
        COMPLETION_FIELDS_def is_object_record_def is_plain_data_def jdata_def jint_def fld_def field_def)
  have "relay_record ?c COMPLETION_FIELDS = Inr ?c"
    unfolding relay_record_def by (rule exact_fields_jobj) (auto simp: COMPLETION_FIELDS_def)
  then have "validate_wallet_relay_completion (freeze_copy ?t) ?e = validate_wallet_relay_completion (freeze_copy ?t) ?c"
    by (simp add: validate_wallet_relay_completion_def same)
  also have "\<dots> = Inr ?c"
    by (rule completion_accepts [where st = "replicate 64 50" and code = "replicate 64 51" and cb = "js ''https://spaceaware.io/wallet/callback''"])
      (simp_all add: f hex sample_uri_def jlit_def)
  finally have "publish_result sample_network ?t JNull = Some (Inr ?c)"
    using v sample_read by (simp add: publish_result_def f relay_request_def sample_network_def)
  moreover have "str_of (fld ?c ''redirectUri'') = sample_uri" by (simp add: fld_def field_jobj str_of_def)
  ultimately show ?thesis by blast
qed

lemma navigates_approved_once_witness:
  "\<exists>es s. relay_run sample_network (Navigated (JStr sample_uri) True # es) s \<and> approved_by es sample_uri \<and> sample_uri \<notin> s"
proof -
  obtain c where c: "publish_result sample_network (sample_transaction (JStr (replicate 64 50))) JNull = Some (Inr c)"
    "str_of (fld c ''redirectUri'') = sample_uri" using sample_publish by blast
  have "relay_run sample_network [Published (sample_transaction (JStr (replicate 64 50))) JNull c] {sample_uri}"
    using relay_run.step [OF relay_run.start relay_step.publish [OF c(1)]] c(2) by simp
  then have "relay_run sample_network (Navigated (JStr sample_uri) True # [Published (sample_transaction (JStr (replicate 64 50))) JNull c]) ({sample_uri} - {sample_uri})"
    by (rule relay_run.step) (rule relay_step.navigate, simp)
  moreover from navigates_approved_once [OF this]
  have "approved_by [Published (sample_transaction (JStr (replicate 64 50))) JNull c] sample_uri \<and> sample_uri \<notin> {sample_uri} - {sample_uri}"
    by (simp add: str_of_def)
  ultimately show ?thesis by blast
qed

text \<open>the state of a transaction is tested with a regular expression, which converts its argument:
  a reply whose state is the one-element array of a valid state passes as if it were the string, a
  state that is any other string is refused with \<open>RELAY_FAILURE\<close>, and a state that is a JSON object
  makes the validation throw a plain \<open>TypeError\<close> instead of \<open>RELAY_FAILURE\<close>.\<close>

theorem state_is_coerced:
  "validate_transaction_response (sample_transaction (jarr [JStr s])) None
     = (if TRANSACTION_ID s then Inr (freeze_copy (sample_transaction (jarr [JStr s]))) else Inl Wallet_Relay_Error)
   \<and> validate_transaction_response (sample_transaction (JStr s)) None
     = (if TRANSACTION_ID s then Inr (freeze_copy (sample_transaction (JStr s))) else Inl Wallet_Relay_Error)
   \<and> validate_transaction_response (sample_transaction (jnull_obj kvs)) None = Inl (Type_Error [])"
  by (simp add: sample_transaction_outcome jarr_def jnull_obj_def jdata_def regexp_test_def ensure_def)

lemma read_chunks_bytes:
  "read_chunks n acc rs = Some (Inr bs) \<Longrightarrow> length acc \<le> n \<Longrightarrow> length bs \<le> n"
  by (induction n acc rs rule: read_chunks.induct) (auto split: if_splits)

lemma read_chunks_pending: "read_chunks n acc rs = None \<Longrightarrow> \<forall>r\<in>set rs. \<exists>bs. r = Chunk bs"
  by (induction n acc rs rule: read_chunks.induct) (auto split: if_splits)

text \<open>C18: a response of the relay is read completely or refused: its body is at most the limit, is
  strict JSON without duplicate names, at most 33 levels deep with at most 4096 values, every failure is
  \<open>RELAY_FAILURE\<close>, and the read stays pending only while every read of the body brings another chunk.\<close>

theorem response_read_bounded:
  "(\<forall>v. read_exact_json_response response status limit aborted = Some (Inr v) \<longrightarrow>
      response_status response = status \<and> \<not> aborted
      \<and> (\<exists>bs j. read_chunks limit [] (response_reads response) = Some (Inr bs) \<and> length bs \<le> limit \<and> v = embed j
           \<and> json_valid (dialect_guard (relay_dialect Wallet_Relay_Error)) j \<and> json_depth j \<le> 33 \<and> json_nodes j \<le> 4096))
   \<and> (\<forall>e. read_exact_json_response response status limit aborted = Some (Inl e) \<longrightarrow> e = Wallet_Relay_Error)
   \<and> (read_exact_json_response response status limit aborted = None \<longrightarrow> (\<forall>r\<in>set (response_reads response). \<exists>bs. r = Chunk bs))"
proof (intro conjI allI impI)
  fix v assume "read_exact_json_response response status limit aborted = Some (Inr v)"
  then obtain bs where bs: "read_chunks limit [] (response_reads response) = Some (Inr bs)" "decode_body limit bs = Inr v"
      "response_status response = status" "\<not> aborted"
    by (auto simp: read_exact_json_response_def rbind_Inr_iff split: if_splits)
  then obtain t where "origin_parse_json (JStr t) limit = Inr v" by (auto simp: decode_body_def split: option.splits)
  from origin_parse_sound [OF this] read_chunks_bytes [OF bs(1)] bs
  show "response_status response = status" "\<not> aborted"
    "\<exists>bs j. read_chunks limit [] (response_reads response) = Some (Inr bs) \<and> length bs \<le> limit \<and> v = embed j
           \<and> json_valid (dialect_guard (relay_dialect Wallet_Relay_Error)) j \<and> json_depth j \<le> 33 \<and> json_nodes j \<le> 4096"
    by auto
next
  fix e assume a: "read_exact_json_response response status limit aborted = Some (Inl e)"
  have c: "read_chunks n acc rs = Some (Inl e) \<Longrightarrow> e = Wallet_Relay_Error" for n acc rs
    by (induction n acc rs rule: read_chunks.induct) (auto split: if_splits)
  show "e = Wallet_Relay_Error" using a c origin_parse_error
    by (auto simp: read_exact_json_response_def rbind_Inl_iff decode_body_def split: if_splits option.splits)
next
  assume "read_exact_json_response response status limit aborted = None"
  then show "\<forall>r\<in>set (response_reads response). \<exists>bs. r = Chunk bs"
    using read_chunks_pending by (force simp: read_exact_json_response_def split: if_splits)
qed

lemma response_read_bounded_witness:
  "\<exists>v. read_exact_json_response sample_response 201 MAX_COMPLETION_RESPONSE_BYTES False = Some (Inr v)
     \<and> (\<exists>bs. length bs \<le> MAX_COMPLETION_RESPONSE_BYTES \<and> read_chunks MAX_COMPLETION_RESPONSE_BYTES [] (response_reads sample_response) = Some (Inr bs))"
  using response_read_bounded [of sample_response 201 MAX_COMPLETION_RESPONSE_BYTES False] sample_read by blast

end
