(* ===== verification/Operations.thy ===== *)
theory Operations
  imports OriginRelay WireApi SealedEnvelopes RegistryProperties
begin

section \<open>Wallet operations: origin-app/operations.mjs\<close>

text \<open>
  The checks a relayed transaction passes before the wallet asks for a credential: its record, the
  registry row it names, its lifetime, the request parsed by its operation, the sealed fields bound
  to the site, and the request hash. SHA-256, the registry and the clock are arguments; the registry
  is instantiated with the one of origin-app/registry.mjs. Times are whole milliseconds, \<open>None\<close>
  standing for a clock that is not finite.
\<close>

abbreviation op_fail :: "string \<Rightarrow> js_error" where
  "op_fail code \<equiv> Wallet_Operation_Error code"

definition BASE64URL_32 :: "jstring \<Rightarrow> bool" where
  "BASE64URL_32 s \<longleftrightarrow> length s = 43 \<and> list_all is_base64url_char s"

subsection \<open>Records, timestamps, bytes\<close>

definition operation_record :: "jval \<Rightarrow> string list \<Rightarrow> string \<Rightarrow> jval result" where
  \<comment> \<open>\<open>exactRecord\<close>: the fields are copied, in the order of their names, to an object without a prototype\<close>
  "operation_record v expected code = rbind (exact_fields (\<lambda>_. op_fail code) v expected [])
     (\<lambda>r. Inr (JObj Null_Prototype (sort_key fst (own_props r)) 0))"

definition operation_timestamp :: "jval \<Rightarrow> string \<Rightarrow> int result" where
  \<comment> \<open>\<open>exactTimestamp\<close>: unlike the wire's, an impossible date is the module's own error\<close>
  "operation_timestamp v code = (case v of
       JStr s \<Rightarrow> (if \<not> RFC3339_MILLISECONDS s then Inl (op_fail code)
         else case date_parse s of
           None \<Rightarrow> Inl (op_fail code)
         | Some t \<Rightarrow> checks [ensure (to_iso_string t = s) (op_fail code)] (Inr t))
     | _ \<Rightarrow> Inl (op_fail code))"

definition deep_freeze_copy :: "jval \<Rightarrow> jval" where
  "deep_freeze_copy = freeze_copy"

definition byte_hex :: "byte \<Rightarrow> jstring" where
  \<comment> \<open>\<open>byte.toString(16).padStart(2, '0')\<close>\<close>
  "byte_hex b = [hex_digit (unat b div 16), hex_digit (unat b mod 16)]"

definition bytes_hex :: "byte list \<Rightarrow> jstring" where
  "bytes_hex bs = concat (map byte_hex bs)"

definition hex_bytes :: "jstring \<Rightarrow> byte list" where
  \<comment> \<open>of a lower-case hex string, as the one caller passes (a validated reply key)\<close>
  "hex_bytes s = map (hex_pair s) [0..<length s div 2]"

type_synonym sha256_function = "(byte list \<Rightarrow> jval option) option"
  \<comment> \<open>the outer \<open>None\<close>: not a function; the inner one: it throws or rejects\<close>

definition native_request_hash :: "jval \<Rightarrow> sha256_function \<Rightarrow> jstring result" where
  "native_request_hash request sha256 = (let e = op_fail ''CRYPTO_UNAVAILABLE'' in
     case sha256 of
       None \<Rightarrow> Inl e
     | Some digest \<Rightarrow> (case operation_canonical_json request of
         Inl _ \<Rightarrow> Inl e
       | Inr t \<Rightarrow> (case digest (utf8_encode t) of
           Some (JBytes _ bs _ _ _) \<Rightarrow> if length bs = 32 then Inr (bytes_hex bs) else Inl e
         | _ \<Rightarrow> Inl e)))"

definition unit_at :: "jstring \<Rightarrow> nat \<Rightarrow> 32 word" where
  \<comment> \<open>\<open>s.charCodeAt(i) || 0\<close>\<close>
  "unit_at s i = (if i < length s then of_nat (s ! i) else 0)"

definition constant_time_string :: "jval \<Rightarrow> jval \<Rightarrow> bool" where
  "constant_time_string left right = (case (left, right) of
       (JStr l, JStr r) \<Rightarrow>
         fold (\<lambda>i difference. or difference (xor (unit_at l i) (unit_at r i))) [0..<max (length l) (length r)]
           (xor (of_nat (length l)) (of_nat (length r))) = 0
     | _ \<Rightarrow> False)"

definition decode_base64url32 :: "jval \<Rightarrow> byte list result" where
  \<comment> \<open>anything but a string has no \<open>replace\<close>\<close>
  "decode_base64url32 v = (let e = op_fail ''INVALID_TRANSACTION'' in
     rbind (regexp_test BASE64URL_32 v e) (\<lambda>_. case v of
       JStr s \<Rightarrow> (case atob (map base64_unit s @ [61]) of
           Some bs \<Rightarrow> if length bs = 32 then Inr bs else Inl e
         | None \<Rightarrow> Inl e)
     | _ \<Rightarrow> Inl e))"

subsection \<open>Sealed fields\<close>

record sealed_field =
  sealed_ciphertext :: "byte list"
  sealed_context :: jval
  sealed_ephemeral_public :: "byte list"
  sealed_field_id :: jval
  sealed_recipient_key_id :: "byte list"

definition KMF_KEY_BYTES_FIELD_ID :: nat where
  "KMF_KEY_BYTES_FIELD_ID = 4"

definition read_sealed :: "jval \<Rightarrow> jval \<Rightarrow> bool \<Rightarrow> (enc_header \<times> byte list) result" where
  \<comment> \<open>the body of the \<open>try\<close>\<close>
  "read_sealed enc payload kmf =
     rbind (decode_base64url_bytes enc 1 (envelope_bytes FIELD_OPEN_LIMITS) ''enc'') (\<lambda>envelope.
     rbind (read_enc_header (jbytes envelope)) (\<lambda>header.
     rbind (decode_base64url_bytes payload 1
         (if kmf then envelope_bytes FIELD_OPEN_LIMITS else field_bytes FIELD_OPEN_LIMITS) ''payload'') (\<lambda>bytes.
     rbind (if kmf then read_kmf_key_bytes (jbytes bytes) else Inr bytes) (\<lambda>ciphertext.
     Inr (header, ciphertext)))))"

definition site_context :: "jval \<Rightarrow> jval \<Rightarrow> bool" where
  \<comment> \<open>\<open>typeof audience === 'string' && context.startsWith(`${audience}|`)\<close>\<close>
  "site_context binding context \<longleftrightarrow> is_str (fld binding ''audience'')
     \<and> starts_with (str_of (fld binding ''audience'') @ [124]) (str_of context)"

definition sealed_field :: "jval \<Rightarrow> jval \<Rightarrow> jval \<Rightarrow> jval \<Rightarrow> jval \<Rightarrow> bool \<Rightarrow> sealed_field result" where
  \<comment> \<open>the context equals the header's, so it is a string when \<open>startsWith\<close> is called\<close>
  "sealed_field enc context field_id payload binding kmf = (case read_sealed enc payload kmf of
       Inl Sealed_Envelope_Error \<Rightarrow> Inl (op_fail ''MALFORMED_ENVELOPE'')
     | Inl _ \<Rightarrow> Inl (op_fail ''INVALID_TRANSACTION'')
     | Inr (header, ciphertext) \<Rightarrow> checks
         [ensure (JStr (enc_context header) = context) (op_fail ''MALFORMED_ENVELOPE''),
          ensure (site_context binding context) (op_fail ''FIELD_SITE_MISMATCH'')]
         (Inr \<lparr>sealed_ciphertext = ciphertext, sealed_context = context,
            sealed_ephemeral_public = enc_ephemeral_public header, sealed_field_id = field_id,
            sealed_recipient_key_id = enc_recipient_key_id header\<rparr>))"

definition bind_field_open :: "jval \<Rightarrow> jval \<Rightarrow> sealed_field list result" where
  "bind_field_open request binding = mapM (\<lambda>f. sealed_field (fld f ''encBase64url'') (fld f ''context'')
     (fld f ''fieldId'') (fld f ''ciphertextBase64url'') binding False) (array_values (fld request ''fields''))"

definition bind_key_unwrap :: "jval \<Rightarrow> jval \<Rightarrow> sealed_field list result" where
  "bind_key_unwrap request binding = mapM (\<lambda>r. sealed_field (fld r ''encBase64url'') (fld r ''context'')
     (jint (int KMF_KEY_BYTES_FIELD_ID)) (fld r ''kmfBase64url'') binding True) [request]"

subsection \<open>The table of operations\<close>

text \<open>
  Each row has its request parser and result builder and says how its result is made: by publishing,
  by connecting, by opening sealed fields, or by the signing function of the wallet of that row.
\<close>

datatype signing = Sign_Login_V2 | Sign_Login_V1 | Sign_Activation | Sign_Decision

datatype handling =
    Publishes
  | Connects
  | Opens "jval \<Rightarrow> jval \<Rightarrow> sealed_field list result" \<comment> \<open>\<open>bindRequest\<close>\<close>
  | Signs signing
  | Inherited \<comment> \<open>a member of \<open>Object.prototype\<close>, which has none of the fields of a row\<close>

record operation =
  parse_request :: "jval \<Rightarrow> jval result"
  build_result :: "jval \<Rightarrow> jval result"
  handling :: handling

definition OPERATIONS :: "wire_host \<Rightarrow> (string \<times> operation) list" where
  "OPERATIONS H =
     [(''sdn.auth.publish-request.v1'', \<lparr>parse_request = parse_sdn_publish_request H,
         build_result = build_sdn_publish_result, handling = Publishes\<rparr>),
      (''sdn.auth.jcs-envelope.v2'', \<lparr>parse_request = parse_sdn_login_v2_request,
         build_result = build_sdn_login_v2_result H, handling = Signs Sign_Login_V2\<rparr>),
      (''sdn.auth.raw-challenge.v1'', \<lparr>parse_request = parse_sdn_login_v1_request,
         build_result = build_sdn_login_v1_result, handling = Signs Sign_Login_V1\<rparr>),
      (''sdn.asset-review.authority-activation.v1'', \<lparr>parse_request = parse_activation_request,
         build_result = build_activation_result H, handling = Signs Sign_Activation\<rparr>),
      (''sdn.asset-review.decision.v1'', \<lparr>parse_request = parse_decision_request H,
         build_result = build_decision_result H, handling = Signs Sign_Decision\<rparr>),
      (''sdn.wallet.account.v1'', \<lparr>parse_request = parse_wallet_account_request,
         build_result = build_wallet_account_result, handling = Connects\<rparr>),
      (''sdn.wallet.connect.v1'', \<lparr>parse_request = parse_wallet_connect_request,
         build_result = build_wallet_connect_result, handling = Connects\<rparr>),
      (''sdn.wallet.field-open.v1'', \<lparr>parse_request = parse_field_open_request,
         build_result = build_field_open_result, handling = Opens bind_field_open\<rparr>),
      (''sdn.wallet.key-unwrap.v1'', \<lparr>parse_request = parse_key_unwrap_request,
         build_result = build_key_unwrap_result, handling = Opens bind_key_unwrap\<rparr>)]"

definition INHERITED_NAMES :: "string list" where
  "INHERITED_NAMES = [''constructor'', ''__defineGetter__'', ''__defineSetter__'', ''hasOwnProperty'', ''__lookupGetter__'',
     ''__lookupSetter__'', ''isPrototypeOf'', ''propertyIsEnumerable'', ''toString'', ''valueOf'', ''__proto__'',
     ''toLocaleString'']"

definition inherited_operation :: operation where
  "inherited_operation = \<lparr>parse_request = (\<lambda>_. Inl (Type_Error [])), build_result = (\<lambda>_. Inl (Type_Error [])), handling = Inherited\<rparr>"

definition operation_named :: "wire_host \<Rightarrow> jstring \<Rightarrow> operation option" where
  "operation_named H name = (case map_of (map (\<lambda>(k, x). (js k, x)) (OPERATIONS H)) name of
       Some x \<Rightarrow> Some x
     | None \<Rightarrow> if name \<in> set (map js INHERITED_NAMES) then Some inherited_operation else None)"

definition lookup_operation :: "wire_host \<Rightarrow> jval \<Rightarrow> operation option result" where
  \<comment> \<open>\<open>OPERATIONS[name]\<close> converts the name to text; a symbol names nothing\<close>
  "lookup_operation H name = (if name = JSymbol then Inr None
     else rbind (to_text name) (\<lambda>t. Inr (operation_named H t)))"

definition bind_request :: "operation \<Rightarrow> jval \<Rightarrow> jval \<Rightarrow> unit result" where
  \<comment> \<open>\<open>if (operation.bindRequest) operation.bindRequest(request, binding)\<close>\<close>
  "bind_request x request binding = (case handling x of
       Opens bind \<Rightarrow> rbind (bind request binding) (\<lambda>_. Inr ())
     | _ \<Rightarrow> Inr ())"

subsection \<open>The registry and the page\<close>

datatype registry_port =
    Has_Resolve_Registry_Binding "jval \<Rightarrow> jval result"
  | Has_Resolve "jval \<Rightarrow> jval result"
  | Is_Resolver "jval \<Rightarrow> jval result"
  | No_Registry

definition resolve_binding :: "registry_port \<Rightarrow> jval \<Rightarrow> jval result" where
  "resolve_binding registry lookup =
     (let guard = (\<lambda>r. case r of
            Inl (Wallet_Operation_Error code) \<Rightarrow> Inl (Wallet_Operation_Error code)
          | Inl _ \<Rightarrow> Inl (op_fail ''UNREGISTERED_TRANSACTION'')
          | Inr binding \<Rightarrow> Inr binding) in
     case registry of
       Has_Resolve_Registry_Binding f \<Rightarrow> guard (f lookup)
     | Has_Resolve f \<Rightarrow> guard (f lookup)
     | Is_Resolver f \<Rightarrow> guard (f lookup)
     | No_Registry \<Rightarrow> Inl (op_fail ''UNREGISTERED_TRANSACTION''))"

record page_view =
  page_top :: "bool option" \<comment> \<open>\<open>window.top === window\<close>; \<open>None\<close>: reading it throws\<close>
  page_visible :: bool
  page_focus :: "bool option" \<comment> \<open>\<open>document.hasFocus()\<close>; \<open>None\<close>: no such function\<close>

definition assert_wallet_context :: "page_view \<Rightarrow> unit result" where
  "assert_wallet_context page = ensure (page_top page = Some True \<and> page_visible page \<and> page_focus page = Some True)
     (op_fail ''WALLET_CONTEXT_UNTRUSTED'')"

subsection \<open>\<open>validateWalletTransaction\<close>\<close>

definition WALLET_TRANSACTION_FIELDS :: "string list" where
  "WALLET_TRANSACTION_FIELDS = [''callbackUri'', ''clientDisplayName'', ''clientId'', ''expiresAt'', ''operation'',
     ''registryVersion'', ''request'', ''requestOrigin'', ''requestSha256'', ''resultToken'', ''schemaVersion'',
     ''state'', ''transactionId'']"

record transaction_host =
  registry_port :: registry_port
  sha256_function :: sha256_function
  clock :: "int option"
  expected_transaction_id :: "jval option"

definition shape_checks :: "jval \<Rightarrow> unit result list" where
  "shape_checks value = (let e = op_fail ''INVALID_TRANSACTION''; name = fld value ''clientDisplayName'' in
     [ensure (strict_eq (fld value ''schemaVersion'') (jint 1)) e,
      ensure (is_str name \<and> 1 \<le> length (str_of name) \<and> length (str_of name) \<le> 80) e,
      regexp_test LOWER_HEX_32 (fld value ''transactionId'') e,
      regexp_test LOWER_HEX_32 (fld value ''state'') e,
      regexp_test LOWER_HEX_32 (fld value ''requestSha256'') e,
      regexp_test BASE64URL_32 (fld value ''resultToken'') e])"

definition same_binding :: "jval \<Rightarrow> jval \<Rightarrow> bool" where
  "same_binding binding value \<longleftrightarrow>
     strict_eq (fld binding ''registryReleaseSha256'') (fld value ''registryVersion'')
     \<and> strict_eq (fld binding ''callbackUri'') (fld value ''callbackUri'')
     \<and> strict_eq (fld binding ''clientDisplayName'') (fld value ''clientDisplayName'')
     \<and> strict_eq (fld binding ''clientId'') (fld value ''clientId'')
     \<and> strict_eq (fld binding ''operation'') (fld value ''operation'')
     \<and> strict_eq (fld binding ''requestOrigin'') (fld value ''requestOrigin'')"

definition outlives :: "int \<Rightarrow> jval \<Rightarrow> bool" where
  \<comment> \<open>\<open>d > binding.maxLifetimeSeconds * 1000\<close>, a finite number in every row\<close>
  "outlives d seconds = (case seconds of JNum n \<Rightarrow> num_is_finite n \<and> num_real n * 1000 < of_int d | _ \<Rightarrow> False)"

definition in_lifetime :: "int option \<Rightarrow> int \<Rightarrow> jval \<Rightarrow> bool" where
  "in_lifetime now expires_at seconds = (case now of
       None \<Rightarrow> False
     | Some t \<Rightarrow> t < expires_at \<and> \<not> outlives (expires_at - t) seconds)"

definition with_request :: "jval \<Rightarrow> jval \<Rightarrow> jval" where
  \<comment> \<open>\<open>{ ...value, request }\<close>\<close>
  "with_request value request =
     JObj Object_Prototype (map (\<lambda>(k, p). (k, if k = js ''request'' then jdata request else p)) (own_props value)) 0"

record validated_transaction =
  valid_binding :: jval
  valid_operation :: operation
  valid_request :: jval
  valid_transaction :: jval

definition lookup_of :: "jval \<Rightarrow> jval" where
  "lookup_of value = jobj [(js ''clientId'', fld value ''clientId''), (js ''operation'', fld value ''operation''),
     (js ''requestOrigin'', fld value ''requestOrigin'')]"

definition admit_request :: "transaction_host \<Rightarrow> jval \<Rightarrow> operation \<Rightarrow> jval \<Rightarrow> validated_transaction result" where
  \<comment> \<open>from the lifetime on\<close>
  "admit_request T value operation binding =
     rbind (operation_timestamp (fld value ''expiresAt'') ''INVALID_TRANSACTION'') (\<lambda>expires_at.
     checks [ensure (in_lifetime (clock T) expires_at (fld binding ''maxLifetimeSeconds'')) (op_fail ''TRANSACTION_EXPIRED'')]
     (rbind (from_catch (op_fail ''INVALID_TRANSACTION'') (parse_request operation (fld value ''request''))) (\<lambda>request.
     checks [bind_request operation request binding]
     (rbind (native_request_hash request (sha256_function T)) (\<lambda>request_sha256.
     checks [ensure (constant_time_string (JStr request_sha256) (fld value ''requestSha256'')) (op_fail ''REQUEST_HASH_MISMATCH'')]
     (Inr \<lparr>valid_binding = deep_freeze_copy binding, valid_operation = operation, valid_request = deep_freeze_copy request,
        valid_transaction = deep_freeze_copy (with_request value request)\<rparr>))))))"

definition validate_wallet_transaction :: "wire_host \<Rightarrow> transaction_host \<Rightarrow> jval \<Rightarrow> validated_transaction result" where
  "validate_wallet_transaction H T input =
     rbind (operation_record input WALLET_TRANSACTION_FIELDS ''INVALID_TRANSACTION'') (\<lambda>value.
     checks (shape_checks value @
       [ensure (case expected_transaction_id T of None \<Rightarrow> True | Some i \<Rightarrow> strict_eq (fld value ''transactionId'') i)
          (op_fail ''INVALID_TRANSACTION'')])
     (rbind (lookup_operation H (fld value ''operation'')) (\<lambda>found. case found of
        None \<Rightarrow> Inl (op_fail ''UNREGISTERED_TRANSACTION'')
      | Some operation \<Rightarrow>
     rbind (resolve_binding (registry_port T) (lookup_of value)) (\<lambda>binding.
     checks [ensure (binding \<noteq> JUndefined \<and> binding \<noteq> JNull) (Type_Error []),
        ensure (same_binding binding value) (op_fail ''REGISTRY_BINDING_MISMATCH'')]
     (admit_request T value operation binding)))))"

end
