(* ===== verification/OperationsProperties.thy ===== *)
theory OperationsProperties
  imports Operations
begin

section \<open>What the wallet accepts\<close>

text \<open>
  The facts about origin-app/operations.mjs: its constant-time comparison is equality, an accepted
  transaction is one the registry reviewed, alive and hashed, and sealed fields belong to the site.
\<close>

subsection \<open>Records and strings\<close>

lemma operation_record_Inr:
  assumes "operation_record v expected code = Inr r" "jval_wf v"
  shows "fld r f = fld v f" "distinct (map fst (own_props r))" "own_props r = sort_key fst (own_props v)"
    "exact_fields (\<lambda>_. op_fail code) v expected [] = Inr v"
proof -
  from assms(1) have e: "exact_fields (\<lambda>_. op_fail code) v expected [] = Inr v" "r = JObj Null_Prototype (sort_key fst (own_props v)) 0"
    by (auto simp: operation_record_def rbind_Inr_iff exact_fields_Inr)
  then have "is_object_record v" by (simp add: exact_fields_Inr)
  then have d: "distinct (map fst (own_props v))" using jval_wf_own_names [OF assms(2)] by (simp add: own_names_def)
  show "own_props r = sort_key fst (own_props v)" using e(2) by (simp add: own_props_def [of "JObj _ _ _"])
  then show "fld r f = fld v f" "distinct (map fst (own_props r))" using d by (simp_all add: fld_def field_def map_of_sort_key)
  show "exact_fields (\<lambda>_. op_fail code) v expected [] = Inr v" by (fact e(1))
qed

lemma xor_word_zero: "xor a b = 0 \<longleftrightarrow> a = (b :: 32 word)"
proof
  assume "xor a b = 0"
  then have "xor (xor a b) b = xor 0 b" by simp
  then show "a = b" by (simp add: xor.assoc)
qed simp

lemma fold_difference_zero:
  "fold (\<lambda>i difference. or difference (xor (f i) (g i))) is (d :: 32 word) = 0 \<longleftrightarrow> d = 0 \<and> (\<forall>i\<in>set is. f i = g i)"
  by (induction "is" arbitrary: d) (auto simp: or_eq_0_iff xor_word_zero)

lemma of_nat_word_inj: "(of_nat a :: 32 word) = of_nat b \<Longrightarrow> a < 2 ^ 32 \<Longrightarrow> b < 2 ^ 32 \<Longrightarrow> a = b"
proof -
  assume a: "(of_nat a :: 32 word) = of_nat b" "a < 2 ^ 32" "b < 2 ^ 32"
  then have "unat (of_nat a :: 32 word) = unat (of_nat b :: 32 word)" by simp
  with a(2,3) show ?thesis by (simp add: unsigned_of_nat take_bit_nat_eq_self)
qed

lemma unit_at_inj:
  assumes "js_wf l" "js_wf r" "length l = length r" "\<forall>i<length l. unit_at l i = unit_at r i"
  shows "l = r"
proof (rule nth_equalityI)
  fix i assume i: "i < length l"
  with assms have "(of_nat (l ! i) :: 32 word) = of_nat (r ! i)" by (auto simp: unit_at_def)
  moreover have "l ! i < 65536" "r ! i < 65536" using assms(1-3) i by (auto simp: js_wf_def list_all_length)
  ultimately show "l ! i = r ! i" by (intro of_nat_word_inj) simp_all
qed (fact assms(3))

lemma constant_time_equality:
  assumes "js_wf l" "js_wf r" "length l < 2 ^ 32" "length r < 2 ^ 32"
  shows "constant_time_string (JStr l) (JStr r) \<longleftrightarrow> l = r"
proof
  assume "constant_time_string (JStr l) (JStr r)"
  then have "(of_nat (length l) :: 32 word) = of_nat (length r)" and u: "\<forall>i<max (length l) (length r). unit_at l i = unit_at r i"
    by (simp_all add: constant_time_string_def fold_difference_zero xor_word_zero)
  then have "length l = length r" using assms(3,4) by (intro of_nat_word_inj) simp_all
  with u show "l = r" by (intro unit_at_inj [OF assms(1,2)]) simp_all
qed (simp only: constant_time_string_def prod.case jval.case fold_difference_zero xor_word_zero, simp)

lemma regexp_test_string: "is_ok (regexp_test P v e) \<Longrightarrow> v = JStr s \<Longrightarrow> P s"
  by simp

lemma byte_hex_lower: "list_all is_lower_hex (byte_hex b)"
proof -
  have "unat b < 256" by (rule order.strict_trans2 [OF unsigned_less]) simp
  then have "unat b div 16 < 16" "unat b mod 16 < 16" by (simp_all add: less_mult_imp_div_less)
  then show ?thesis by (auto simp: byte_hex_def hex_digit_def is_lower_hex_def)
qed

lemma bytes_hex_lower: "lower_hex (2 * length bs) (bytes_hex bs)"
  using byte_hex_lower by (induction bs) (auto simp: bytes_hex_def lower_hex_def byte_hex_def)

lemma lower_hex_wf: "lower_hex n s \<Longrightarrow> js_wf s"
  by (auto simp: lower_hex_def js_wf_def list_all_iff is_lower_hex_def)

lemma operation_timestamp_Inr:
  "operation_timestamp v code = Inr t \<longleftrightarrow> is_ok (exact_timestamp v l) \<and> t = instant v"
proof
  assume "operation_timestamp v code = Inr t"
  then obtain s where s: "v = JStr s" "RFC3339_MILLISECONDS s" "date_parse s = Some t" "to_iso_string t = s"
    by (auto simp: operation_timestamp_def checks_Inr_iff split: jval.splits if_splits option.splits)
  then have "is_ascii s" using mask_iso_text(1,2) [OF s(2)] iso_text_ascii by metis
  with s show "is_ok (exact_timestamp v l) \<and> t = instant v"
    by (simp add: exact_timestamp_def is_ok_checks str_of_def instant_def scan_scalars_ascii_string)
next
  assume a: "is_ok (exact_timestamp v l) \<and> t = instant v"
  then have "is_ok (exact_timestamp v l)" by blast
  note exact_timestamp_instant [OF this]
  then show "operation_timestamp v code = Inr t" using a
    by (auto simp: operation_timestamp_def checks_Inr_iff str_of_def exact_timestamp_def is_ok_checks
        split: jval.splits if_splits option.splits)
qed

subsection \<open>The registry's bindings\<close>

lemma resolve_binding_Inr:
  "resolve_binding (Has_Resolve_Registry_Binding f) v = Inr b \<longleftrightarrow> f v = Inr b"
  by (auto simp: resolve_binding_def split: sum.splits js_error.splits)

lemma map_of_js: "map_of (map (\<lambda>(k, x). (js k, x)) xs) (js k) = map_of xs k"
  by (induction xs) auto

lemma reviewed_operation:
  assumes "r \<in> set EXPECTED_CLIENTS" "operation \<in> set (row_operations r)"
  obtains x where "map_of (OPERATIONS H) operation = Some x" "lookup_operation H (jlit operation) = Inr (Some x)"
proof -
  have "set (row_operations r) \<subseteq> fst ` set OPERATION_POLICY"
    using assms(1) row_ready_table by (auto simp: list_all_iff row_ready_def)
  moreover have "fst ` set OPERATION_POLICY = fst ` set (OPERATIONS H)" by (auto simp: OPERATION_POLICY_def OPERATIONS_def)
  ultimately have "operation \<in> fst ` set (OPERATIONS H)" using assms(2) by blast
  then obtain x where "map_of (OPERATIONS H) operation = Some x" by (metis map_of_eq_None_iff not_None_eq)
  with that show thesis by (simp add: lookup_operation_def jlit_def operation_named_def map_of_js)
qed

lemma fld_reviewed_binding:
  "fld (reviewed_binding r operation policy) ''audience'' = policy_audience policy"
  "fld (reviewed_binding r operation policy) ''callbackUri'' = jlit (row_callback r)"
  "fld (reviewed_binding r operation policy) ''clientDisplayName'' = jlit (row_name r)"
  "fld (reviewed_binding r operation policy) ''clientId'' = jlit (row_id r)"
  "fld (reviewed_binding r operation policy) ''maxLifetimeSeconds'' = jint 300"
  "fld (reviewed_binding r operation policy) ''operation'' = jlit operation"
  "fld (reviewed_binding r operation policy) ''registryReleaseSha256'' = jlit source_release"
  "fld (reviewed_binding r operation policy) ''registryRow'' = policy_row policy"
  "fld (reviewed_binding r operation policy) ''requestOrigin'' = jlit (row_origin r)"
  by (simp_all add: reviewed_binding_def fld_def field_jobj)

lemma reviewed_binding_object [simp]: "reviewed_binding r operation policy \<noteq> JUndefined" "reviewed_binding r operation policy \<noteq> JNull"
  by (simp_all add: reviewed_binding_def jobj_def)

lemma freeze_reviewed_binding:
  assumes "map_of OPERATION_POLICY operation = Some policy"
  shows "freeze_copy (reviewed_binding r operation policy) = reviewed_binding r operation policy"
proof -
  have "freeze_copy (policy_audience policy) = policy_audience policy" "freeze_copy (policy_row policy) = policy_row policy"
    "freeze_copy (policy_activation policy) = policy_activation policy" "freeze_copy (policy_service policy) = policy_service policy"
    using policy_values [OF assms] by auto
  then show ?thesis by (simp add: reviewed_binding_def jobj_def jdata_def assigned_proto_def proto_name_def js_def)
qed

lemma lifetime_300: "in_lifetime now e (jint 300) \<longleftrightarrow> (\<exists>t. now = Some t \<and> t < e \<and> e - t \<le> 300000)"
proof -
  have "(of_int 300 :: rat) * 1000 < of_int d \<longleftrightarrow> 300000 < d" for d
    using of_int_less_iff [of 300000 d, where ?'a = rat] by simp
  then show ?thesis
    by (auto simp: in_lifetime_def outlives_def jint_def num_is_finite_def num_real_def split: option.splits)
qed

lemma native_request_hash_Inr:
  "native_request_hash request sha = Inr h \<longleftrightarrow> (\<exists>digest t flag bs ps n k. sha = Some digest
     \<and> operation_canonical_json request = Inr t \<and> digest (utf8_encode t) = Some (JBytes flag bs ps n k)
     \<and> length bs = 32 \<and> h = bytes_hex bs)"
  by (auto simp: native_request_hash_def Let_def split: option.splits sum.splits jval.splits)

lemma hash_matches:
  assumes "length bs = 32" "is_ok (regexp_test LOWER_HEX_32 v e)" "constant_time_string (JStr (bytes_hex bs)) v"
  shows "v = JStr (bytes_hex bs)"
proof -
  obtain s where v: "v = JStr s" using assms(3) by (auto simp: constant_time_string_def split: jval.splits)
  with assms(2) have s: "lower_hex 64 s" by (simp add: LOWER_HEX_32_def)
  have b: "lower_hex 64 (bytes_hex bs)" using bytes_hex_lower [of bs] assms(1) by simp
  have "length s < 2 ^ 32" "length (bytes_hex bs) < 2 ^ 32" using s b by (simp_all add: lower_hex_def)
  with assms(3) v constant_time_equality [OF lower_hex_wf [OF b] lower_hex_wf [OF s]] show ?thesis by simp
qed

subsection \<open>The properties\<close>

text \<open>C20: a transaction the wallet accepts, with the shipped registry, names one reviewed client row
  and one operation of that row, with the row's name, callback and origin; the binding it is shown
  and signed under is exactly that row's compiled policy; the request was accepted by the parser of
  that very operation (never by a name inherited from \<open>Object.prototype\<close>); it expires within the
  next 300 seconds; and the hash it carries is the digest of the canonical text of that request.\<close>

theorem accepted_transaction_bound:
  assumes "load_registry H digest = Inr reg" "registry_port T = Has_Resolve_Registry_Binding (resolve_registry_binding reg)"
    "jval_wf input" "validate_wallet_transaction H T input = Inr vt"
  shows "\<exists>r\<in>set EXPECTED_CLIENTS. \<exists>operation\<in>set (row_operations r). \<exists>policy x request t d bs now.
    fld input ''clientId'' = jlit (row_id r) \<and> fld input ''requestOrigin'' = jlit (row_origin r)
    \<and> fld input ''callbackUri'' = jlit (row_callback r) \<and> fld input ''clientDisplayName'' = jlit (row_name r)
    \<and> fld input ''operation'' = jlit operation \<and> map_of OPERATION_POLICY operation = Some policy
    \<and> valid_binding vt = reviewed_binding r operation policy
    \<and> map_of (OPERATIONS H) operation = Some x \<and> valid_operation vt = x
    \<and> parse_request x (fld input ''request'') = Inr request \<and> valid_request vt = freeze_copy request
    \<and> is_ok (bind_request x request (valid_binding vt)) \<and> clock T = Some now \<and> now < instant (fld input ''expiresAt'') \<and> instant (fld input ''expiresAt'') - now \<le> 300000
    \<and> operation_canonical_json request = Inr t \<and> sha256_function T = Some d
    \<and> (\<exists>flag ps n k. d (utf8_encode t) = Some (JBytes flag bs ps n k)) \<and> length bs = 32
    \<and> fld input ''requestSha256'' = JStr (bytes_hex bs)"
proof -
  from assms(2,4) obtain rec x binding where v: "operation_record input WALLET_TRANSACTION_FIELDS ''INVALID_TRANSACTION'' = Inr rec"
      "list_all is_ok (shape_checks rec)" "lookup_operation H (fld rec ''operation'') = Inr (Some x)"
      "resolve_registry_binding reg (lookup_of rec) = Inr binding" "same_binding binding rec" "admit_request T rec x binding = Inr vt"
    by (auto simp: validate_wallet_transaction_def rbind_Inr_iff checks_Inr_iff resolve_binding_Inr split: option.splits)
  note f = operation_record_Inr(1) [OF v(1) assms(3)]
  obtain r operation policy where r: "r \<in> set EXPECTED_CLIENTS" "operation \<in> set (row_operations r)"
      "fld (lookup_of rec) ''operation'' = jlit operation" "map_of OPERATION_POLICY operation = Some policy"
      "binding = reviewed_binding r operation policy"
    by (rule resolve_reviewed [OF assms(1) v(4)])
  have o: "fld input ''operation'' = jlit operation" using r(3) f by (simp add: lookup_of_def fld_def [of "jobj _"] field_jobj)
  obtain y where y: "map_of (OPERATIONS H) operation = Some y" "lookup_operation H (jlit operation) = Inr (Some y)"
    by (rule reviewed_operation [OF r(1,2)])
  then have x: "x = y" using v(3) o f by simp
  have b: "fld input ''clientId'' = jlit (row_id r)" "fld input ''requestOrigin'' = jlit (row_origin r)"
    "fld input ''callbackUri'' = jlit (row_callback r)" "fld input ''clientDisplayName'' = jlit (row_name r)"
    using v(5) f by (auto simp: same_binding_def r(5) fld_reviewed_binding jlit_def strict_eq_def split: jval.splits)
  obtain e request h where e: "operation_timestamp (fld input ''expiresAt'') ''INVALID_TRANSACTION'' = Inr e"
      "in_lifetime (clock T) e (jint 300)" "parse_request x (fld input ''request'') = Inr request"
      "native_request_hash request (sha256_function T) = Inr h" "constant_time_string (JStr h) (fld input ''requestSha256'')"
      "is_ok (bind_request x request binding)" "valid_binding vt = freeze_copy binding" "valid_operation vt = x" "valid_request vt = freeze_copy request"
    using v(6) f by (auto simp: admit_request_def rbind_Inr_iff checks_Inr_iff r(5) fld_reviewed_binding deep_freeze_copy_def)
  obtain d t flag bs ps n k where h: "sha256_function T = Some d" "operation_canonical_json request = Inr t"
      "d (utf8_encode t) = Some (JBytes flag bs ps n k)" "length bs = 32" "h = bytes_hex bs"
    using e(4) unfolding native_request_hash_Inr by blast
  have "is_ok (regexp_test LOWER_HEX_32 (fld input ''requestSha256'') (op_fail ''INVALID_TRANSACTION''))"
    using v(2) f by (simp add: shape_checks_def Let_def)
  then have s: "fld input ''requestSha256'' = JStr (bytes_hex bs)" using hash_matches [OF h(4)] e(5) h(5) by blast
  obtain now where now: "clock T = Some now" "now < instant (fld input ''expiresAt'')" "instant (fld input ''expiresAt'') - now \<le> 300000"
    using e(1,2) operation_timestamp_Inr [of "fld input ''expiresAt''" "''INVALID_TRANSACTION''" e "[]"] by (auto simp: lifetime_300)
  have vb: "valid_binding vt = reviewed_binding r operation policy" using e(7) freeze_reviewed_binding [OF r(4)] r(5) by simp
  show ?thesis using r(1,2) o b r(4) vb y(1) x e(3,8,9) e(6) [unfolded r(5), folded vb] now h(1-4) s by blast
qed

subsubsection \<open>A transaction that is accepted\<close>

definition connect_transaction :: "reviewed_client \<Rightarrow> jval" where
  "connect_transaction r = jobj
     [(js ''callbackUri'', jlit (row_callback r)), (js ''clientDisplayName'', jlit (row_name r)),
      (js ''clientId'', jlit (row_id r)), (js ''expiresAt'', JStr (to_iso_string 1700000300000)),
      (js ''operation'', jlit ''sdn.wallet.connect.v1''), (js ''registryVersion'', jlit source_release), (js ''request'', jobj []),
      (js ''requestOrigin'', jlit (row_origin r)), (js ''requestSha256'', JStr (replicate 64 48)),
      (js ''resultToken'', JStr (replicate 43 65)), (js ''schemaVersion'', jint 1), (js ''state'', JStr (replicate 64 50)),
      (js ''transactionId'', JStr (replicate 64 49))]"

definition sample_host :: transaction_host where
  "sample_host = \<lparr>registry_port = Has_Resolve_Registry_Binding (resolve_registry_binding (freeze_copy registry_source)),
     sha256_function = Some (\<lambda>_. Some (jbytes (replicate 32 0))), clock = Some 1700000000000, expected_transaction_id = None\<rparr>"

lemma fld_connect_transaction:
  "fld (connect_transaction r) ''callbackUri'' = jlit (row_callback r)" "fld (connect_transaction r) ''clientDisplayName'' = jlit (row_name r)"
  "fld (connect_transaction r) ''clientId'' = jlit (row_id r)" "fld (connect_transaction r) ''expiresAt'' = JStr (to_iso_string 1700000300000)"
  "fld (connect_transaction r) ''operation'' = jlit ''sdn.wallet.connect.v1''" "fld (connect_transaction r) ''registryVersion'' = jlit source_release"
  "fld (connect_transaction r) ''request'' = jobj []" "fld (connect_transaction r) ''requestOrigin'' = jlit (row_origin r)"
  "fld (connect_transaction r) ''requestSha256'' = JStr (replicate 64 48)" "fld (connect_transaction r) ''resultToken'' = JStr (replicate 43 65)"
  "fld (connect_transaction r) ''schemaVersion'' = jint 1" "fld (connect_transaction r) ''state'' = JStr (replicate 64 50)"
  "fld (connect_transaction r) ''transactionId'' = JStr (replicate 64 49)"
  by (simp_all add: connect_transaction_def fld_def field_jobj)

lemma connect_transaction_wf: "jval_wf (connect_transaction r)"
proof -
  have "js_wf (replicate n c)" if "c < 65536" for n c using that by (simp add: js_wf_def list_all_iff)
  moreover have "is_ascii (to_iso_string 1700000300000)" using sample_timestamps(2) iso_text_ascii [of 2023] by simp
  ultimately show ?thesis unfolding connect_transaction_def
    by (intro jval_wf_jobj) (auto simp: js_wf_ascii intro!: jval_wf_jobj)
qed

lemma bytes_hex_zeros: "bytes_hex (replicate n 0) = replicate (2 * n) 48"
  by (induction n) (simp_all add: bytes_hex_def byte_hex_def hex_digit_def)

lemma connect_request_admitted:
  assumes "value \<in> {v. \<forall>f. fld v f = fld (connect_transaction r) f}" "x = \<lparr>parse_request = parse_wallet_connect_request, build_result = b, handling = Connects\<rparr>"
    "fld binding ''maxLifetimeSeconds'' = jint 300"
  shows "is_ok (admit_request sample_host value x binding)"
proof -
  have f: "fld value f = fld (connect_transaction r) f" for f using assms(1) by simp
  have "operation_timestamp (JStr (to_iso_string 1700000300000)) ''INVALID_TRANSACTION'' = Inr 1700000300000"
    unfolding operation_timestamp_Inr [where l = "[]"] using sample_instants by simp
  moreover have "in_lifetime (Some 1700000000000) 1700000300000 (jint 300)" unfolding lifetime_300 by simp
  moreover have "exact_record (jobj []) [] l = Inr (jobj [])" for l by (rule exact_record_jobj) simp_all
  then have "parse_wallet_connect_request (jobj []) = Inr (jobj [])"
    by (simp add: parse_wallet_connect_request_def build_empty_request_def)
  moreover have "native_request_hash (jobj []) (Some (\<lambda>_. Some (jbytes (replicate 32 0)))) = Inr (bytes_hex (replicate 32 0))"
    unfolding native_request_hash_Inr
    by (intro exI conjI) (simp_all add: operation_canonical_json_def jobj_def jbytes_def)
  moreover have "bytes_hex (replicate 32 0) = replicate 64 48"
    using bytes_hex_zeros [of 32] by simp
  moreover have "constant_time_string (JStr (replicate 64 48)) (JStr (replicate 64 48))"
    by (subst constant_time_equality) (simp_all add: js_wf_def list_all_iff)
  ultimately show ?thesis using assms(2,3)
    by (simp add: admit_request_def f fld_connect_transaction sample_host_def bind_request_def from_catch_def)
qed

lemma connect_accepted:
  assumes "r \<in> set EXPECTED_CLIENTS" "''sdn.wallet.connect.v1'' \<in> set (row_operations r)"
  shows "\<exists>vt. validate_wallet_transaction H sample_host (connect_transaction r) = Inr vt"
proof -
  let ?t = "connect_transaction r"
  have x: "exact_fields (\<lambda>_. op_fail ''INVALID_TRANSACTION'') ?t WALLET_TRANSACTION_FIELDS [] = Inr ?t"
    unfolding connect_transaction_def by (rule exact_fields_jobj) (auto simp: WALLET_TRANSACTION_FIELDS_def)
  then obtain rec where rec: "operation_record ?t WALLET_TRANSACTION_FIELDS ''INVALID_TRANSACTION'' = Inr rec"
    by (simp add: operation_record_def)
  note f = operation_record_Inr(1) [OF rec connect_transaction_wf]
  have "row_name r \<noteq> []" "length (row_name r) \<le> 80" using assms(1) row_ready_table by (auto simp: list_all_iff row_ready_def)
  moreover have "LOWER_HEX_32 (replicate 64 c)" if "c \<in> {48, 49, 50}" for c
    using that by (auto simp: LOWER_HEX_32_def lower_hex_def is_lower_hex_def list_all_iff)
  moreover have "BASE64URL_32 (replicate 43 65)" by (simp add: BASE64URL_32_def is_base64url_char_def list_all_iff)
  ultimately have shape: "list_all is_ok (shape_checks rec)"
    by (simp add: shape_checks_def Let_def f fld_connect_transaction strict_eq_jint is_str_def jlit_def str_of_def Suc_le_eq)
  have look: "lookup_of rec = jobj [(js ''clientId'', jlit (row_id r)), (js ''operation'', jlit ''sdn.wallet.connect.v1''), (js ''requestOrigin'', jlit (row_origin r))]"
    by (simp add: lookup_of_def f fld_connect_transaction)
  obtain b where b: "resolve_registry_binding (freeze_copy registry_source) (lookup_of rec) = Inr b"
    using resolve_complete [OF sample_registry assms] look by (auto simp: is_ok_iff)
  obtain r' operation policy where r: "r' \<in> set EXPECTED_CLIENTS" "fld (lookup_of rec) ''clientId'' = jlit (row_id r')"
      "fld (lookup_of rec) ''operation'' = jlit operation" "b = reviewed_binding r' operation policy"
    by (rule resolve_reviewed [OF sample_registry b])
  then have same: "r' = r" "operation = ''sdn.wallet.connect.v1''"
    using reviewed_ids [OF r(1) assms(1)] by (simp_all add: look fld_def field_jobj)
  let ?x = "\<lparr>parse_request = parse_wallet_connect_request, build_result = build_wallet_connect_result, handling = Connects\<rparr>"
  have "map_of (OPERATIONS H) ''sdn.wallet.connect.v1'' = Some ?x" by (simp add: OPERATIONS_def)
  then have "lookup_operation H (fld rec ''operation'') = Inr (Some ?x)"
    by (simp add: f fld_connect_transaction lookup_operation_def jlit_def operation_named_def map_of_js)
  moreover have "same_binding b rec" by (simp add: same_binding_def r(4) same fld_reviewed_binding f fld_connect_transaction jlit_def)
  moreover have "is_ok (admit_request sample_host rec ?x b)"
    by (rule connect_request_admitted [where r = r]) (simp_all add: f r(4) fld_reviewed_binding)
  ultimately show ?thesis using rec shape b r(4)
    by (auto simp: validate_wallet_transaction_def checks_all_ok resolve_binding_Inr sample_host_def is_ok_iff
        resolve_binding_def)
qed

lemma accepted_transaction_bound_witness:
  "\<exists>vt policy. validate_wallet_transaction https_host sample_host (connect_transaction (EXPECTED_CLIENTS ! 0)) = Inr vt
     \<and> valid_binding vt = reviewed_binding (EXPECTED_CLIENTS ! 0) ''sdn.wallet.connect.v1'' policy"
proof -
  let ?r = "EXPECTED_CLIENTS ! 0"
  have r: "?r \<in> set EXPECTED_CLIENTS" "''sdn.wallet.connect.v1'' \<in> set (row_operations ?r)"
    by (simp_all add: EXPECTED_CLIENTS_def registry_tables)
  obtain vt where vt: "validate_wallet_transaction https_host sample_host (connect_transaction ?r) = Inr vt"
    using connect_accepted [OF r] by blast
  have "registry_port sample_host = Has_Resolve_Registry_Binding (resolve_registry_binding (freeze_copy registry_source))"
    by (simp add: sample_host_def)
  from accepted_transaction_bound [OF sample_registry this connect_transaction_wf vt] obtain q operation policy where
    "q \<in> set EXPECTED_CLIENTS" "row_id ?r = row_id q" "operation = ''sdn.wallet.connect.v1''"
    "valid_binding vt = reviewed_binding q operation policy"
    by (auto simp: fld_connect_transaction)
  then show ?thesis using vt reviewed_ids [OF _ r(1)] by metis
qed


text \<open>the comparison of the request hash, which reads every code unit of the longer string and
  accumulates the differences in 32 bits, is the equality of strings below \<open>2 ^ 32\<close> code units; a
  string and its prefix, or a string padded with zero units, differ by their lengths.\<close>

theorem constant_time_string_is_equality:
  assumes "js_wf l" "js_wf r" "length l < 2 ^ 32" "length r < 2 ^ 32"
  shows "(constant_time_string (JStr l) (JStr r) \<longleftrightarrow> l = r)
    \<and> \<not> constant_time_string (JStr l) (JStr (l @ [0])) \<and> \<not> constant_time_string (JStr l) JUndefined"
proof (intro conjI)
  show "constant_time_string (JStr l) (JStr r) \<longleftrightarrow> l = r" by (rule constant_time_equality [OF assms])
  have "(of_nat (length l) :: 32 word) \<noteq> of_nat (Suc (length l))" by simp
  then show "\<not> constant_time_string (JStr l) (JStr (l @ [0]))"
    by (simp only: constant_time_string_def prod.case jval.case fold_difference_zero xor_word_zero length_append_singleton) blast
qed (simp add: constant_time_string_def)

lemma constant_time_string_is_equality_witness:
  "(constant_time_string (JStr (js ''ab'')) (JStr (js ''ac'')) \<longleftrightarrow> js ''ab'' = js ''ac'')
    \<and> \<not> constant_time_string (JStr (js ''ab'')) (JStr (js ''ab'' @ [0])) \<and> \<not> constant_time_string (JStr (js ''ab'')) JUndefined"
  by (rule constant_time_string_is_equality) simp_all

end
