(* ===== verification/Confirmation.thy ===== *)
theory Confirmation
  imports OperationsProperties
begin

section \<open>What the person confirms: origin-app/operations.mjs\<close>

text \<open>
  The description of a transaction in words, the document nodes it is rendered to, and the dialog
  that settles a promise when the person presses a button. Browser events reach the dialog as data;
  an event is trusted when the browser, not a script, made it.
\<close>

subsection \<open>Description\<close>

definition nullish :: "jval \<Rightarrow> bool" where
  "nullish v \<longleftrightarrow> v = JUndefined \<or> v = JNull"

definition string_or_empty :: "jval \<Rightarrow> jstring result" where
  \<comment> \<open>\<open>String(value ?? '')\<close>\<close>
  "string_or_empty v = (if nullish v then Inr [] else to_text v)"

definition host_of :: "wire_host \<Rightarrow> jval \<Rightarrow> jstring result" where
  "host_of H origin = (case (case to_text origin of Inr t \<Rightarrow> new_url H t | Inl _ \<Rightarrow> None) of
       Some u \<Rightarrow> Inr (url_host u)
     | None \<Rightarrow> string_or_empty origin)"

record description =
  about_title :: jstring
  about_detail :: jstring
  about_action :: jstring
  about_facts :: "(jstring \<times> jval) list"

definition SHARE_DETAIL :: jstring where
  "SHARE_DETAIL = js ''The site sees your public key and address. It cannot spend or sign anything without asking you.''"

fun shown_facts :: "(jstring \<times> jval) list \<Rightarrow> (jstring \<times> jval) list result" where
  \<comment> \<open>the filter of \<open>about\<close>: facts with no text are left out\<close>
  "shown_facts [] = Inr []"
| "shown_facts ((label, v) # fs) =
     (if nullish v then shown_facts fs
      else rbind (to_text v) (\<lambda>t. rbind (shown_facts fs) (\<lambda>shown.
        Inr (if trim_text t = [] then shown else (label, v) # shown))))"

definition site_facts :: "jstring \<Rightarrow> jstring \<Rightarrow> (jstring \<times> jval) list" where
  "site_facts name host = (if name \<noteq> [] \<and> host \<noteq> [] \<and> name \<noteq> host then [(js ''Site'', JStr host)] else [])"

definition about :: "(jstring \<times> jval) list \<Rightarrow> jstring \<Rightarrow> jstring \<Rightarrow> string \<Rightarrow> (jstring \<times> jval) list \<Rightarrow> description result" where
  "about site title detail action extra = rbind (shown_facts (site @ extra)) (\<lambda>shown.
     Inr \<lparr>about_title = title, about_detail = detail, about_action = js action, about_facts = shown\<rparr>)"

definition drop_prefix :: "jstring \<Rightarrow> jstring \<Rightarrow> jstring" where
  "drop_prefix p s = (if starts_with p s then drop (length p) s else s)"

definition drop_digest_suffix :: "jstring \<Rightarrow> jstring" where
  \<comment> \<open>\<open>.replace(/:[0-9a-f]{64}$/u, '')\<close>\<close>
  "drop_digest_suffix s = (let n = length s - 65 in
     if 65 \<le> length s \<and> s ! n = 58 \<and> lower_hex 64 (drop (Suc n) s) then take n s else s)"

definition field_count :: "jval \<Rightarrow> nat" where
  "field_count request = (if is_array (fld request ''fields'') then length (array_slots (fld request ''fields'')) else 0)"

definition describe_operation ::
  "wire_host \<Rightarrow> jstring \<Rightarrow> (jstring \<times> jval) list \<Rightarrow> jval \<Rightarrow> jval \<Rightarrow> description result" where
  "describe_operation H who site operation request =
     (if operation = jlit ''sdn.auth.raw-challenge.v1'' \<or> operation = jlit ''sdn.auth.jcs-envelope.v2''
      then about site (js ''Sign in to '' @ who) (js ''This proves you hold this wallet. Nothing is paid, sent or shared.'') ''Sign in'' []
      else if operation = jlit ''sdn.wallet.connect.v1''
      then about site (js ''Connect your wallet to '' @ who) SHARE_DETAIL ''Connect'' []
      else if operation = jlit ''sdn.wallet.account.v1''
      then about site (js ''Share your account with '' @ who) SHARE_DETAIL ''Share'' []
      else if operation = jlit ''sdn.auth.publish-request.v1''
      then rbind (host_of H (fld request ''providerOrigin'')) (\<lambda>provider.
        about site (js ''Publish to '' @ provider)
          (js ''One signed publication of exactly this data. It grants no session and no later writes.'') ''Publish''
          [(js ''Provider'', fld request ''providerOrigin''), (js ''Data'', fld request ''entityName''),
           (js ''Schema'', fld request ''schema''), (js ''Documents'', fld request ''documentCount'')])
      else if operation = jlit ''sdn.asset-review.authority-activation.v1''
      then about site (js ''Activate asset review'') (js ''Your key becomes the asset reviewer '' @ who @ js '' accepts.'') ''Activate'' []
      else if operation = jlit ''sdn.asset-review.decision.v1''
      then (let approve = (fld request ''decision'' \<noteq> jlit ''disapprove'') in
        rbind (string_or_empty (fld request ''candidateKey'')) (\<lambda>key.
        about site (js (if approve then ''Approve this model'' else ''Disapprove this model''))
          (js ''Your decision is signed and published by '' @ who @ js ''.'') (if approve then ''Approve'' else ''Disapprove'')
          [(js ''Model'', JStr (drop_digest_suffix (drop_prefix (js ''asset-review:'') key))), (js ''Note'', fld request ''note'')]))
      else if operation = jlit ''sdn.wallet.field-open.v1''
      then (let count = field_count request in
        about site (js ''Open '' @ decimal_digits count @ js '' encrypted '' @ js (if count = 1 then ''field'' else ''fields'') @ js '' for '' @ who)
          (js ''Your wallet decrypts fields sealed to your encryption key for this site and gives the site their contents. Your keys stay in the wallet.'')
          ''Open'' [(js ''Fields'', jint (int count))])
      else if operation = jlit ''sdn.wallet.key-unwrap.v1''
      then rbind (string_or_empty (fld request ''context'')) (\<lambda>context.
        let parts = split_on 124 context in
        about site (js ''Reopen a database for '' @ who)
          (js ''Your wallet unwraps the key of this one database, sealed to your encryption key for this site, and gives that key to the site. Your wallet keys stay in the wallet.'')
          ''Reopen'' [(js ''Database'', if 2 < length parts then JStr (parts ! 2) else JUndefined)])
      else about site (js ''Confirm a request from '' @ who) [] ''Confirm'' [])"

definition describe_transaction :: "wire_host \<Rightarrow> jval \<Rightarrow> jval \<Rightarrow> description result" where
  "describe_transaction H binding request =
     rbind (host_of H (fld binding ''requestOrigin'')) (\<lambda>host.
     rbind (string_or_empty (fld binding ''clientDisplayName'')) (\<lambda>display.
     let name = trim_text display; who = (if name = [] then host else name) in
     describe_operation H who (site_facts name host) (fld binding ''operation'') request))"

subsection \<open>The rendered nodes\<close>

datatype dom_node = Node (node_tag: string) (node_class: string) (node_text: jstring) (node_children: "dom_node list")

definition fact_row :: "jstring \<Rightarrow> jstring \<Rightarrow> dom_node" where
  \<comment> \<open>\<open>appendRow\<close>\<close>
  "fact_row label v = Node ''div'' ''wallet-confirmation-row'' []
     [Node ''strong'' [] label [], Node ''span'' [] v []]"

definition render_transaction_confirmation :: "wire_host \<Rightarrow> dom_node \<Rightarrow> jval \<Rightarrow> jval \<Rightarrow> dom_node result" where
  \<comment> \<open>the container's children are replaced; a request that is \<open>null\<close> or missing counts as empty\<close>
  "render_transaction_confirmation H container binding request =
     rbind (describe_transaction H binding (if nullish request then jobj [] else request)) (\<lambda>shown.
     rbind (mapM (\<lambda>(label, v). rbind (to_text v) (\<lambda>t. Inr (fact_row label t))) (about_facts shown)) (\<lambda>rows.
     Inr (Node (node_tag container) (node_class container) []
       ([Node ''h1'' [] (about_title shown) []]
        @ (if about_detail shown = [] then [] else [Node ''p'' ''wallet-confirmation-detail'' (about_detail shown) []])
        @ rows))))"

subsection \<open>The dialog\<close>

datatype control = Confirm_Button | Cancel_Button | Elsewhere

datatype settlement = Accepted bool \<comment> \<open>remember this site\<close> | Rejected js_error

record dialog =
  settlement :: "settlement option" \<comment> \<open>of the promise; \<open>settled\<close> of the source is \<open>settlement \<noteq> None\<close>\<close>
  buttons_disabled :: bool
  remember_box :: "bool option" \<comment> \<open>\<open>checked\<close>, when remembering is offered\<close>
  focused :: control
  listening :: bool
  attached :: bool

definition open_dialog :: "bool \<Rightarrow> dialog" where
  \<comment> \<open>\<open>requestTrustedConfirmation\<close> up to its return\<close>
  "open_dialog offer_remember = \<lparr>settlement = None, buttons_disabled = False,
     remember_box = (if offer_remember then Some False else None), focused = Confirm_Button, listening = True, attached = True\<rparr>"

definition finish :: "bool \<Rightarrow> bool \<Rightarrow> dialog \<Rightarrow> dialog" where
  \<comment> \<open>accepted, and whether the event is trusted\<close>
  "finish accepted trusted d = (if settlement d \<noteq> None \<or> \<not> trusted then d
     else d\<lparr>buttons_disabled := True, settlement := Some (if accepted then Accepted (remember_box d = Some True)
            else Rejected (op_fail ''USER_CANCELLED''))\<rparr>)"

datatype key = Escape_Key | Tab_Key bool \<comment> \<open>with shift\<close> | Other_Key

datatype dialog_event =
    Click control bool \<comment> \<open>the flag: trusted\<close>
  | Key_Down key bool
  | Focus_In bool control \<comment> \<open>whether the dialog contains the target, and which control it is\<close>
  | Set_Remember bool
  | Cancel_Call string \<comment> \<open>the controller's \<open>cancel(reason)\<close>\<close>
  | Destroy_Call

definition move_focus :: "control \<Rightarrow> dialog \<Rightarrow> dialog" where
  \<comment> \<open>\<open>focus()\<close>: a disabled button does not take it\<close>
  "move_focus c d = (if buttons_disabled d then d else d\<lparr>focused := c\<rparr>)"

fun on_keydown :: "key \<Rightarrow> bool \<Rightarrow> dialog \<Rightarrow> dialog" where
  "on_keydown k False d = d"
| "on_keydown Escape_Key True d = finish False True d"
| "on_keydown (Tab_Key shift) True d = move_focus
     (if shift then (if focused d = Confirm_Button then Cancel_Button else Confirm_Button)
      else (if focused d = Cancel_Button then Confirm_Button else Cancel_Button)) d"
| "on_keydown Other_Key True d = d"

fun on_event :: "dialog_event \<Rightarrow> dialog \<Rightarrow> dialog" where
  "on_event (Click c trusted) d =
     (if \<not> listening d then d else case c of
        Confirm_Button \<Rightarrow> finish True trusted d
      | Cancel_Button \<Rightarrow> finish False trusted d
      | Elsewhere \<Rightarrow> d)"
| "on_event (Key_Down k trusted) d = (if listening d then on_keydown k trusted d else d)"
| "on_event (Focus_In inside c) d = (let moved = d\<lparr>focused := c\<rparr> in
     if listening d \<and> \<not> inside then move_focus Confirm_Button moved else moved)"
| "on_event (Set_Remember b) d = d\<lparr>remember_box := map_option (\<lambda>_. b) (remember_box d)\<rparr>"
| "on_event (Cancel_Call reason) d =
     (if settlement d \<noteq> None then d else d\<lparr>settlement := Some (Rejected (op_fail reason))\<rparr>)"
| "on_event Destroy_Call d = d\<lparr>listening := False, attached := False\<rparr>"

definition run_dialog :: "bool \<Rightarrow> dialog_event list \<Rightarrow> dialog" where
  "run_dialog offer_remember es = fold on_event es (open_dialog offer_remember)"

subsection \<open>Promises that settle once\<close>

text \<open>
  An interface for whatever settles a promise: a step function on events and the outcome it has
  settled with. What is promised is that an outcome, once there, stays.
\<close>

locale one_shot =
  fixes step :: "'e \<Rightarrow> 's \<Rightarrow> 's" and outcome :: "'s \<Rightarrow> 'o option"
  assumes kept: "outcome s = Some x \<Longrightarrow> outcome (step e s) = Some x"
begin

lemma fold_kept: "outcome s = Some x \<Longrightarrow> outcome (fold step es s) = Some x"
  by (induction es arbitrary: s) (simp_all add: kept)

lemma settles_at:
  "outcome (fold step es s) = Some x \<Longrightarrow> outcome s = None \<Longrightarrow>
   \<exists>pre e post. es = pre @ e # post \<and> outcome (fold step pre s) = None \<and> outcome (step e (fold step pre s)) = Some x"
proof (induction es arbitrary: s)
  case (Cons e es)
  show ?case
  proof (cases "outcome (step e s)")
    case None
    with Cons obtain pre f post where "es = pre @ f # post" "outcome (fold step pre (step e s)) = None"
        "outcome (step f (fold step pre (step e s))) = Some x" by force
    then show ?thesis by (intro exI [of _ "e # pre"] exI [of _ f] exI [of _ post]) simp
  next
    case (Some y)
    with fold_kept [OF this] Cons.prems show ?thesis by (intro exI [of _ "[]"] exI [of _ e] exI [of _ es]) simp
  qed
qed simp

lemma settled_stays:
  "outcome (step e (fold step pre s)) = Some x \<Longrightarrow> outcome (fold step (pre @ e # post) s) = Some x"
  using fold_kept by simp

end

lemma on_keydown_settlement [simp]:
  "settlement (on_keydown k trusted d) = (if k = Escape_Key then settlement (finish False trusted d) else settlement d)"
  by (cases "(k, trusted, d)" rule: on_keydown.cases) (simp_all add: finish_def move_focus_def)

lemma settlement_move [simp]: "settlement (move_focus c d) = settlement d"
  by (simp add: move_focus_def)

interpretation dialog: one_shot on_event settlement
proof
  fix d :: dialog and x e
  assume "settlement d = Some x"
  then show "settlement (on_event e d) = Some x"
    by (cases e) (auto simp: finish_def Let_def split: control.split)
qed

subsection \<open>The dialog's state along its events\<close>

fun settling :: "dialog_event \<Rightarrow> bool" where
  \<comment> \<open>the events that settle a dialog which is listening\<close>
  "settling (Click c trusted) \<longleftrightarrow> trusted \<and> c \<noteq> Elsewhere"
| "settling (Key_Down k trusted) \<longleftrightarrow> trusted \<and> k = Escape_Key"
| "settling (Cancel_Call reason) \<longleftrightarrow> True"
| "settling _ \<longleftrightarrow> False"

fun last_checked :: "dialog_event list \<Rightarrow> bool" where
  \<comment> \<open>the box as the person last set it; the events in order\<close>
  "last_checked [] = False"
| "last_checked (e # es) = (if \<exists>b. Set_Remember b \<in> set es then last_checked es
     else case e of Set_Remember b \<Rightarrow> b | _ \<Rightarrow> False)"

lemma last_checked_snoc: "last_checked (es @ [e]) = (case e of Set_Remember b \<Rightarrow> b | _ \<Rightarrow> last_checked es)"
  by (induction es) (auto split: dialog_event.splits)

lemma run_dialog_snoc: "run_dialog b (es @ [e]) = on_event e (run_dialog b es)"
  by (simp add: run_dialog_def)

lemma keydown_other [simp]:
  "listening (on_keydown k trusted d) = listening d" "remember_box (on_keydown k trusted d) = remember_box d"
  by (cases "(k, trusted, d)" rule: on_keydown.cases; simp add: finish_def move_focus_def)+

lemma finish_other [simp]:
  "listening (finish a t d) = listening d" "remember_box (finish a t d) = remember_box d"
  "listening (move_focus c d) = listening d" "remember_box (move_focus c d) = remember_box d"
  by (simp_all add: finish_def move_focus_def)

lemma run_dialog_state:
  "listening (run_dialog b es) \<longleftrightarrow> Destroy_Call \<notin> set es"
  "remember_box (run_dialog b es) = (if b then Some (last_checked es) else None)"
proof -
  have "(listening (run_dialog b es) \<longleftrightarrow> Destroy_Call \<notin> set es)
      \<and> remember_box (run_dialog b es) = (if b then Some (last_checked es) else None)"
  proof (induction es rule: rev_induct)
    case (snoc e es)
    then show ?case
      by (cases e) (auto simp: run_dialog_snoc last_checked_snoc Let_def split: control.split)
  qed (simp add: run_dialog_def open_dialog_def)
  then show "listening (run_dialog b es) \<longleftrightarrow> Destroy_Call \<notin> set es"
    "remember_box (run_dialog b es) = (if b then Some (last_checked es) else None)" by blast+
qed

lemma unsettled_step:
  assumes "settlement d = None" "listening d"
  shows "settlement (on_event e d) = None \<longleftrightarrow> \<not> settling e"
  using assms by (cases e) (auto simp: finish_def Let_def split: control.split)

lemma unsettled_run:
  assumes "Destroy_Call \<notin> set es"
  shows "settlement (run_dialog b es) = None \<longleftrightarrow> (\<forall>e\<in>set es. \<not> settling e)"
  using assms
proof (induction es rule: rev_induct)
  case (snoc e es)
  show ?case
  proof (cases "settlement (run_dialog b es)")
    case None
    then show ?thesis using snoc unsettled_step [OF None] run_dialog_state(1) [of b es] by (auto simp: run_dialog_snoc)
  next
    case (Some x)
    then show ?thesis using snoc dialog.kept [OF Some] by (auto simp: run_dialog_snoc)
  qed
qed (simp add: run_dialog_def open_dialog_def)

lemma accepting_step:
  assumes "settlement d = None"
  shows "settlement (on_event e d) = Some (Accepted r) \<longleftrightarrow>
     e = Click Confirm_Button True \<and> listening d \<and> r = (remember_box d = Some True)"
  using assms by (cases e) (auto simp: finish_def Let_def split: control.split)

subsection \<open>The properties\<close>

text \<open>C24: the dialog's promise settles once and only through the person: it resolves exactly when the
  person presses the confirm button, in an event the browser itself made, while the dialog listens and
  before anything else settled it (the cancel button, Escape, the controller); remembering is granted
  exactly when it was offered and the box was last checked. No later event changes the outcome.\<close>

theorem confirmation_settles_once:
  "(settlement (run_dialog offered es) = Some (Accepted r) \<longleftrightarrow>
      (\<exists>pre post. es = pre @ Click Confirm_Button True # post \<and> Destroy_Call \<notin> set pre
         \<and> list_all (\<lambda>e. \<not> settling e) pre \<and> r = (offered \<and> last_checked pre)))
   \<and> settlement (run_dialog offered (es @ later)) \<in>
       (case settlement (run_dialog offered es) of None \<Rightarrow> UNIV | Some x \<Rightarrow> {Some x})"
proof (intro conjI iffI)
  assume "settlement (run_dialog offered es) = Some (Accepted r)"
  moreover have "settlement (open_dialog offered) = None" by (simp add: open_dialog_def)
  ultimately obtain pre e post where p: "es = pre @ e # post" "settlement (run_dialog offered pre) = None"
      "settlement (on_event e (run_dialog offered pre)) = Some (Accepted r)"
    using dialog.settles_at [of es "open_dialog offered" "Accepted r"] by (auto simp: run_dialog_def)
  with accepting_step [OF p(2)] have e: "e = Click Confirm_Button True" "listening (run_dialog offered pre)"
      "r = (remember_box (run_dialog offered pre) = Some True)" by simp_all
  then have "Destroy_Call \<notin> set pre" by (simp add: run_dialog_state)
  then show "\<exists>pre post. es = pre @ Click Confirm_Button True # post \<and> Destroy_Call \<notin> set pre
         \<and> list_all (\<lambda>e. \<not> settling e) pre \<and> r = (offered \<and> last_checked pre)"
    using p(1,2) e unsettled_run [of pre offered]
    by (intro exI [of _ pre] exI [of _ post]) (simp add: run_dialog_state list_all_iff)
next
  assume "\<exists>pre post. es = pre @ Click Confirm_Button True # post \<and> Destroy_Call \<notin> set pre
         \<and> list_all (\<lambda>e. \<not> settling e) pre \<and> r = (offered \<and> last_checked pre)"
  then obtain pre post where p: "es = pre @ Click Confirm_Button True # post" "Destroy_Call \<notin> set pre"
      "\<forall>e\<in>set pre. \<not> settling e" "r = (offered \<and> last_checked pre)" by (auto simp: list_all_iff)
  then have "settlement (run_dialog offered pre) = None" by (simp add: unsettled_run)
  then have "settlement (on_event (Click Confirm_Button True) (run_dialog offered pre)) = Some (Accepted r)"
    using p by (simp only: accepting_step) (simp add: run_dialog_state)
  then show "settlement (run_dialog offered es) = Some (Accepted r)"
    using dialog.settled_stays unfolding p(1) run_dialog_def by blast
next
  show "settlement (run_dialog offered (es @ later)) \<in>
       (case settlement (run_dialog offered es) of None \<Rightarrow> UNIV | Some x \<Rightarrow> {Some x})"
    using dialog.fold_kept by (auto simp: run_dialog_def split: option.split)
qed

definition client_host :: "reviewed_client \<Rightarrow> jstring" where
  "client_host r = url_host (https_parts (js (row_origin r)))"

definition plainly_named :: "reviewed_client \<Rightarrow> bool" where
  \<comment> \<open>the row has a name that is trimmed and is not its host\<close>
  "plainly_named r \<longleftrightarrow> js (row_origin r) = js ''https://'' @ client_host r
     \<and> site_facts (js (row_name r)) (client_host r) = [(js ''Site'', JStr (client_host r))]
     \<and> trim_text (client_host r) = client_host r \<and> trim_text (js (row_name r)) = js (row_name r)"

lemma trim_text_id: "s \<noteq> [] \<Longrightarrow> \<not> is_trim_scalar (hd s) \<Longrightarrow> \<not> is_trim_scalar (last s) \<Longrightarrow> trim_text s = s"
proof -
  assume a: "s \<noteq> []" "\<not> is_trim_scalar (hd s)" "\<not> is_trim_scalar (last s)"
  then have "dropWhile is_trim_scalar s = s" by (cases s) auto
  moreover have "dropWhile is_trim_scalar (rev s) = rev s" using a by (cases "rev s") (auto simp: last_rev hd_rev [symmetric])
  ultimately show ?thesis by (simp add: trim_text_def)
qed

lemma client_host_eq:
  assumes "row_origin r = ''https://'' @ t" "CHR ''/'' \<notin> set t"
  shows "client_host r = js t"
proof -
  have "takeWhile (\<lambda>c. c \<noteq> 47) (js t) = js t"
    using assms(2) of_char_eq_iff [where ?'a = nat, of _ "CHR ''/''"] by (auto simp: takeWhile_eq_all_conv js_def)
  then show ?thesis by (simp add: client_host_def https_parts_def Let_def assms(1) js_def)
qed

lemma host_table:
  "list_all (\<lambda>r. let t = drop 8 (row_origin r) in row_origin r = ''https://'' @ t \<and> CHR ''/'' \<notin> set t \<and> t \<noteq> [] \<and> row_name r \<noteq> []
     \<and> row_name r \<noteq> t) EXPECTED_CLIENTS"
  "list_all (\<lambda>r. list_all (\<lambda>c. \<not> is_trim_scalar (of_char c))
     [hd (drop 8 (row_origin r)), last (drop 8 (row_origin r)), hd (row_name r), last (row_name r)]) EXPECTED_CLIENTS"
  by (simp_all add: EXPECTED_CLIENTS_def client_row_def is_trim_scalar_def)

lemma plainly_named_table: "list_all plainly_named EXPECTED_CLIENTS"
proof -
  have "plainly_named r" if "r \<in> set EXPECTED_CLIENTS" for r
  proof -
    let ?t = "drop 8 (row_origin r)"
    have h: "row_origin r = ''https://'' @ ?t" "CHR ''/'' \<notin> set ?t" "?t \<noteq> []" "row_name r \<noteq> []" "row_name r \<noteq> ?t"
      using that host_table(1) by (simp_all add: list_all_iff Let_def)
    have t: "\<not> is_trim_scalar (of_char (hd ?t))" "\<not> is_trim_scalar (of_char (last ?t))"
        "\<not> is_trim_scalar (of_char (hd (row_name r)))" "\<not> is_trim_scalar (of_char (last (row_name r)))"
      using that host_table(2) by (simp_all add: list_all_iff)
    have c: "client_host r = js ?t" by (rule client_host_eq [OF h(1,2)])
    have "trim_text (js ?t) = js ?t" "trim_text (js (row_name r)) = js (row_name r)"
      using t h(3,4) by (intro trim_text_id; simp add: js_def hd_map last_map del: drop_eq_Nil drop_eq_Nil2)+
    moreover have "js (row_origin r) = js ''https://'' @ js ?t" using h(1) by (metis js_append)
    ultimately show ?thesis using h(3-5) unfolding plainly_named_def c site_facts_def by (simp only: js_eq_iff js_Nil_iff) simp
  qed
  then show ?thesis by (simp add: list_all_iff)
qed

lemma site_fact_shown:
  assumes "shown_facts (site @ extra) = Inr shown" "(l, JStr s) \<in> set site" "trim_text s \<noteq> []"
  shows "(l, JStr s) \<in> set shown"
  using assms
proof (induction site arbitrary: shown)
  case (Cons f site)
  obtain label v where f: "f = (label, v)" by (cases f)
  show ?case
  proof (cases "nullish v")
    case True
    with Cons f show ?thesis by (auto simp: nullish_def)
  next
    case False
    with Cons.prems(1) f obtain t more where t: "to_text v = Inr t" "shown_facts (site @ extra) = Inr more"
        "shown = (if trim_text t = [] then more else (label, v) # more)" by (auto simp: rbind_Inr_iff)
    show ?thesis
    proof (cases "(l, JStr s) = f")
      case True
      with t f Cons.prems(3) show ?thesis by auto
    next
      case False
      with Cons.IH [OF t(2)] Cons.prems(2,3) t(3) show ?thesis by auto
    qed
  qed
qed simp

lemma about_shows_site:
  assumes "about [(js ''Site'', JStr h)] title detail action extra = Inr d" "trim_text h \<noteq> []"
  shows "(js ''Site'', JStr h) \<in> set (about_facts d)" "about_title d = title" "about_detail d = detail"
  using assms site_fact_shown [of "[(js ''Site'', JStr h)]" extra _ "js ''Site''" h]
  by (auto simp: about_def rbind_Inr_iff simp del: shown_facts.simps)

definition names_client :: "jstring \<Rightarrow> jstring \<Rightarrow> bool" where
  "names_client who s \<longleftrightarrow> (\<exists>a b. s = a @ who @ b)"

lemma names_client_skip: "names_client who s \<Longrightarrow> names_client who (a @ s)"
  unfolding names_client_def by (metis append.assoc)

lemma names_client_append [simp]: "names_client who who" "names_client who (a @ who)" "names_client who (a @ who @ b)"
  by (auto simp: names_client_def intro: exI [of _ "[]"])

lemma describe_operation_site:
  assumes "describe_operation H who [(js ''Site'', JStr h)] operation request = Inr d" "trim_text h \<noteq> []"
  shows "(js ''Site'', JStr h) \<in> set (about_facts d)"
    "operation \<noteq> jlit ''sdn.auth.publish-request.v1'' \<Longrightarrow> names_client who (about_title d) \<or> names_client who (about_detail d)"
  using assms
  by (auto simp: describe_operation_def Let_def rbind_Inr_iff about_shows_site(2,3) split: if_splits dest: about_shows_site(1) intro!: names_client_skip)

lemma describe_reviewed:
  assumes "parses_urls H" "r \<in> set EXPECTED_CLIENTS"
  shows "describe_transaction H (reviewed_binding r operation policy) request
    = describe_operation H (js (row_name r)) [(js ''Site'', JStr (client_host r))] (jlit operation) request"
proof -
  have n: "plainly_named r" using assms(2) plainly_named_table by (simp add: list_all_iff)
  then have "js (row_name r) \<noteq> []" by (auto simp: plainly_named_def site_facts_def split: if_splits)
  moreover have "new_url H (js (row_origin r)) = Some (https_parts (js (row_origin r)))" using assms by (simp add: parses_urls_def)
  moreover have "host_of H (jlit (row_origin r)) = Inr (client_host r)"
    using calculation(2) by (simp add: host_of_def jlit_def client_host_def)
  moreover have "trim_text (js (row_name r)) = js (row_name r)" "site_facts (js (row_name r)) (client_host r) = [(js ''Site'', JStr (client_host r))]"
    using n by (simp_all add: plainly_named_def)
  ultimately show ?thesis
    by (simp add: describe_transaction_def fld_reviewed_binding jlit_def string_or_empty_def nullish_def Let_def)
qed



text \<open>The cancel button, Escape and a page that goes away never confirm: a run without a trusted press of
  the confirm button is never accepted.\<close>

corollary never_accepted_unpressed:
  "Click Confirm_Button True \<notin> set es \<Longrightarrow> settlement (run_dialog offered es) \<noteq> Some (Accepted r)"
  using dialog.settles_at [of es "open_dialog offered" "Accepted r"] accepting_step
  by (force simp: run_dialog_def open_dialog_def)

end
