(* ===== verification/JsonParse.thy ===== *)
theory JsonParse
  imports JsonRoundtrip JsonErrors
begin

section \<open>JSON.parse\<close>

text \<open>
  The runtime's own reader, which the modules use where the text is their own or is checked
  afterwards. It keeps the last of two equal names, takes any string and any depth, and makes plain
  objects. The main fact is that the strict readers of the modules are restrictions of it: what
  they accept, \<open>JSON.parse\<close> reads as the same content.
\<close>

subsection \<open>The reader\<close>

type_synonym text_reader = "jstring \<Rightarrow> (jval \<times> jstring) result"

definition std_dialect :: json_dialect where
  "std_dialect = \<lparr>json_error = (\<lambda>_. Syntax_Error), string_guard = (\<lambda>_. Inr ())\<rparr>"

definition std_literal :: text_reader where
  \<comment> \<open>a number too large for a double is \<open>Infinity\<close>\<close>
  "std_literal s =
     (if starts_with (js ''true'') s then Inr (JBool True, drop 4 s)
      else if starts_with (js ''false'') s then Inr (JBool False, drop 5 s)
      else if starts_with (js ''null'') s then Inr (JNull, drop 4 s)
      else case scan_number s of
             None \<Rightarrow> Inl Syntax_Error
           | Some (n, r) \<Rightarrow> Inr (JNum n, r))"

definition put_member :: "(jstring \<times> jval) list \<Rightarrow> jstring \<Rightarrow> jval \<Rightarrow> (jstring \<times> jval) list" where
  "put_member kvs k v =
     (if k \<in> set (map fst kvs) then map (\<lambda>(j, w). (j, if j = k then v else w)) kvs else kvs @ [(k, v)])"

primrec std_members :: "text_reader \<Rightarrow> nat \<Rightarrow> (jstring \<times> jval) list \<Rightarrow> text_reader" where
  "std_members nested 0 acc s = Inl Out_Of_Fuel"
| "std_members nested (Suc fuel) acc s =
     rbind (parse_string std_dialect (skip_space s)) (\<lambda>(name, r).
       if \<not> starts_with [58] (skip_space r) then Inl Syntax_Error
       else rbind (nested (tl (skip_space r))) (\<lambda>(v, r').
         if starts_with [125] (skip_space r') then Inr (jobj (put_member acc name v), tl (skip_space r'))
         else if starts_with [44] (skip_space r') then std_members nested fuel (put_member acc name v) (tl (skip_space r'))
         else Inl Syntax_Error))"

primrec std_elements :: "text_reader \<Rightarrow> nat \<Rightarrow> jval list \<Rightarrow> text_reader" where
  "std_elements nested 0 acc s = Inl Out_Of_Fuel"
| "std_elements nested (Suc fuel) acc s =
     rbind (nested s) (\<lambda>(v, r').
       if starts_with [93] (skip_space r') then Inr (jarr (acc @ [v]), tl (skip_space r'))
       else if starts_with [44] (skip_space r') then std_elements nested fuel (acc @ [v]) (tl (skip_space r'))
       else Inl Syntax_Error)"

definition std_object :: "text_reader \<Rightarrow> text_reader" where
  "std_object nested s = (if starts_with [125] s then Inr (jobj [], tl s) else std_members nested (Suc (length s)) [] s)"

definition std_array :: "text_reader \<Rightarrow> text_reader" where
  "std_array nested s = (if starts_with [93] s then Inr (jarr [], tl s) else std_elements nested (Suc (length s)) [] s)"

primrec std_value :: "nat \<Rightarrow> text_reader" where
  "std_value 0 s = Inl Out_Of_Fuel"
| "std_value (Suc fuel) s = (let t = skip_space s in
     if starts_with [34] t then rbind (parse_string std_dialect t) (\<lambda>(v, r). Inr (JStr v, r))
     else if starts_with [123] t then std_object (std_value fuel) (skip_space (tl t))
     else if starts_with [91] t then std_array (std_value fuel) (skip_space (tl t))
     else std_literal t)"

definition json_parse :: "jstring \<Rightarrow> jval result" where
  "json_parse s = rbind (std_value (Suc (length s)) s) (\<lambda>(v, r). if skip_space r = [] then Inr v else Inl Syntax_Error)"

subsection \<open>It always answers\<close>

definition syntax_only :: "'a result \<Rightarrow> bool" where
  "syntax_only r \<longleftrightarrow> (\<forall>e. r = Inl e \<longrightarrow> e = Syntax_Error)"

lemma syntax_only_simps [simp]: "syntax_only (Inr x)" "syntax_only (Inl e) \<longleftrightarrow> e = Syntax_Error"
  by (simp_all add: syntax_only_def)

lemma syntax_only_rbind: "syntax_only m \<Longrightarrow> (\<And>x. m = Inr x \<Longrightarrow> syntax_only (f x)) \<Longrightarrow> syntax_only (rbind m f)"
  by (cases m) simp_all

definition reader_ok :: "nat \<Rightarrow> text_reader \<Rightarrow> bool" where
  \<comment> \<open>consumes text, and answers or throws \<open>SyntaxError\<close> on texts below this length\<close>
  "reader_ok n f \<longleftrightarrow> (\<forall>s. (\<forall>v r. f s = Inr (v, r) \<longrightarrow> length r < length s) \<and> (length s < n \<longrightarrow> syntax_only (f s)))"

lemma reader_okD:
  "reader_ok n f \<Longrightarrow> f s = Inr (v, r) \<Longrightarrow> length r < length s"
  "reader_ok n f \<Longrightarrow> length s < n \<Longrightarrow> syntax_only (f s)"
  by (auto simp: reader_ok_def)

lemma std_string_only: "syntax_only (parse_string std_dialect s)"
proof -
  have "uniform_dialect std_dialect Syntax_Error" "dialect_ok std_dialect"
    by (simp_all add: uniform_dialect_def dialect_ok_def std_dialect_def)
  then show ?thesis
    using parse_string_fails [of std_dialect Syntax_Error s] parse_string_fuel [of std_dialect s]
    by (auto simp: syntax_only_def fails_with_def)
qed

lemma length_tl_less: "skip_space s = c # t \<Longrightarrow> length (tl (skip_space s)) < length s"
  using skip_space_Cons by simp

lemma member_lengths:
  assumes "reader_ok n nested" "parse_string std_dialect (skip_space s) = Inr (name, r1)" "skip_space r1 = c # t"
  shows "length t < length s" "nested t = Inr (w, r') \<Longrightarrow> skip_space r' = c' # u \<Longrightarrow> length u < length s"
proof -
  show t: "length t < length s"
    using parse_string_consumes [OF assms(2)] length_skip_space [of s] skip_space_Cons [OF assms(3)] by simp
  assume "nested t = Inr (w, r')" "skip_space r' = c' # u"
  then show "length u < length s" using t reader_okD(1) [OF assms(1)] skip_space_Cons by fastforce
qed

lemma std_members_consumes:
  assumes "reader_ok n nested"
  shows "std_members nested fuel acc s = Inr (v, r) \<Longrightarrow> length r < length s"
proof (induction fuel arbitrary: acc s)
  case (Suc fuel)
  then obtain name r1 t w r' c u where st: "parse_string std_dialect (skip_space s) = Inr (name, r1)" "skip_space r1 = 58 # t"
      "nested t = Inr (w, r')" "skip_space r' = c # u"
      "r = u \<or> std_members nested fuel (put_member acc name w) u = Inr (v, r)"
    by (auto simp: rbind_Inr_iff split: if_split_asm)
  with member_lengths(2) [OF assms st(1-4)] Suc.IH show ?case by (metis less_trans)
qed simp

lemma std_members_only:
  assumes "reader_ok n nested"
  shows "length s < fuel \<Longrightarrow> length s < n \<Longrightarrow> syntax_only (std_members nested fuel acc s)"
proof (induction fuel arbitrary: acc s)
  case (Suc fuel)
  have "syntax_only (if \<not> starts_with [58] (skip_space r1) then Inl Syntax_Error
      else rbind (nested (tl (skip_space r1))) (\<lambda>(v, r'). if starts_with [125] (skip_space r') then Inr (jobj (put_member acc name v), tl (skip_space r'))
         else if starts_with [44] (skip_space r') then std_members nested fuel (put_member acc name v) (tl (skip_space r')) else Inl Syntax_Error))"
    if s: "parse_string std_dialect (skip_space s) = Inr (name, r1)" for name r1
  proof (cases "skip_space r1")
    case (Cons c t)
    note len = member_lengths [OF assms s Cons]
    have t: "syntax_only (nested t)" using reader_okD(2) [OF assms] len(1) Suc.prems by simp
    have u: "syntax_only (std_members nested fuel (put_member acc name w) u)" if "nested t = Inr (w, r')" "skip_space r' = 44 # u" for w r' u
      using len(2) [OF that] Suc by simp
    show ?thesis unfolding Cons using t u by (auto intro!: syntax_only_rbind)
  qed simp
  then show ?case unfolding std_members.simps by (intro syntax_only_rbind std_string_only) (auto split del: if_split)
qed simp

lemma std_elements_consumes:
  assumes "reader_ok n nested"
  shows "std_elements nested fuel acc s = Inr (v, r) \<Longrightarrow> length r < length s"
proof (induction fuel arbitrary: acc s)
  case (Suc fuel)
  then obtain w r' c u where st: "nested s = Inr (w, r')" "skip_space r' = c # u"
      "r = u \<or> std_elements nested fuel (acc @ [w]) u = Inr (v, r)"
    by (auto simp: rbind_Inr_iff split: if_split_asm)
  with reader_okD(1) [OF assms st(1)] skip_space_Cons [OF st(2)] Suc.IH show ?case by (metis less_trans)
qed simp

lemma std_elements_only:
  assumes "reader_ok n nested"
  shows "length s < fuel \<Longrightarrow> length s < n \<Longrightarrow> syntax_only (std_elements nested fuel acc s)"
proof (induction fuel arbitrary: acc s)
  case (Suc fuel)
  have "syntax_only (std_elements nested fuel (acc @ [w]) u)" if "nested s = Inr (w, r')" "skip_space r' = 44 # u" for w r' u
    using reader_okD(1) [OF assms that(1)] skip_space_Cons [OF that(2)] Suc by simp
  then show ?case using reader_okD(2) [OF assms Suc.prems(2)] by (auto intro!: syntax_only_rbind)
qed simp

lemma std_compound_consumes:
  assumes "reader_ok n nested"
  shows "std_object nested s = Inr (v, r) \<Longrightarrow> length r \<le> length s" "std_array nested s = Inr (v, r) \<Longrightarrow> length r \<le> length s"
  using std_members_consumes [OF assms, of "Suc (length s)" "[]" s v r] std_elements_consumes [OF assms, of "Suc (length s)" "[]" s v r]
  by (auto simp: std_object_def std_array_def simp del: std_members.simps std_elements.simps split: if_splits)

lemma std_compound_only:
  assumes "reader_ok n nested" "length s < n"
  shows "syntax_only (std_object nested s)" "syntax_only (std_array nested s)"
  using std_members_only [OF assms(1), of s "Suc (length s)"] std_elements_only [OF assms(1), of s "Suc (length s)"] assms(2)
  by (auto simp: std_object_def std_array_def simp del: std_members.simps std_elements.simps)

lemma std_literal_ok: "std_literal s = Inr (v, r) \<Longrightarrow> length r < length s" "syntax_only (std_literal s)"
proof -
  have "\<And>p. starts_with p s \<Longrightarrow> length p \<le> length s" by (auto simp: starts_with_iff)
  from this [of "js ''true''"] this [of "js ''false''"] this [of "js ''null''"]
  show "std_literal s = Inr (v, r) \<Longrightarrow> length r < length s"
    by (auto simp: std_literal_def split: if_splits option.splits dest: scan_number_consumes)
  show "syntax_only (std_literal s)" by (auto simp: std_literal_def split: option.split)
qed

lemma std_value_ok: "reader_ok n (std_value n)"
proof (induction n)
  case (Suc n)
  have sk: "length (skip_space t) < length s" if "skip_space s = c # t" for s t :: jstring and c
    using skip_space_Cons [OF that] length_skip_space [of t] by simp
  show ?case unfolding reader_ok_def
  proof (intro allI conjI impI)
    fix s r :: jstring and v assume "std_value (Suc n) s = Inr (v, r)"
    then consider w where "parse_string std_dialect (skip_space s) = Inr (w, r)" | "std_literal (skip_space s) = Inr (v, r)"
      | c t where "skip_space s = c # t" "std_object (std_value n) (skip_space t) = Inr (v, r) \<or> std_array (std_value n) (skip_space t) = Inr (v, r)"
      by (auto simp: Let_def rbind_Inr_iff split: if_split_asm)
    then show "length r < length s"
      using length_skip_space [of s]
      by cases (auto dest!: parse_string_consumes std_literal_ok(1) std_compound_consumes [OF Suc] dest: sk)
  next
    fix s :: jstring assume s: "length s < Suc n"
    have "length (skip_space t) < n" if "skip_space s = c # t" for c t using sk [OF that] s by simp
    then show "syntax_only (std_value (Suc n) s)"
      by (auto simp: Let_def std_literal_ok(2) intro!: syntax_only_rbind std_string_only std_compound_only [OF Suc])
  qed
qed (simp add: reader_ok_def)

text \<open>The length of the text is enough fuel: \<open>JSON.parse\<close> returns a value or throws \<open>SyntaxError\<close>.\<close>

lemma json_parse_answers: "syntax_only (json_parse s)"
  unfolding json_parse_def using reader_okD(2) [OF std_value_ok [of "Suc (length s)"], of s]
  by (auto intro!: syntax_only_rbind)

subsection \<open>The strict readers agree with it\<close>

text \<open>The strict readers make objects without a prototype, \<open>JSON.parse\<close> plain ones.\<close>

fun to_plain :: "jval \<Rightarrow> jval"
and plain_slots :: "jprop option list \<Rightarrow> jprop option list"
and plain_props :: "(jstring \<times> jprop) list \<Rightarrow> (jstring \<times> jprop) list" where
  "to_plain (JObj p ps n) = JObj (if p = Null_Prototype then Object_Prototype else p) (plain_props ps) n"
| "to_plain (JArr p xs ps n) = JArr p (plain_slots xs) ps n"
| "to_plain v = v"
| "plain_slots [] = []"
| "plain_slots (None # xs) = None # plain_slots xs"
| "plain_slots (Some (Data e v) # xs) = Some (Data e (to_plain v)) # plain_slots xs"
| "plain_slots (Some (Accessor e) # xs) = Some (Accessor e) # plain_slots xs"
| "plain_props [] = []"
| "plain_props ((k, Data e v) # ps) = (k, Data e (to_plain v)) # plain_props ps"
| "plain_props ((k, Accessor e) # ps) = (k, Accessor e) # plain_props ps"

definition plain_members :: "(jstring \<times> jval) list \<Rightarrow> (jstring \<times> jval) list" where
  "plain_members kvs = map (\<lambda>(k, v). (k, to_plain v)) kvs"

lemma plain_props_map: "plain_props (map (\<lambda>(k, v). (k, jdata v)) kvs) = map (\<lambda>(k, v). (k, jdata (to_plain v))) kvs"
  by (induction kvs) (auto simp: jdata_def)

lemma plain_slots_map: "plain_slots (map (\<lambda>v. Some (jdata v)) vs) = map (\<lambda>v. Some (jdata (to_plain v))) vs"
  by (induction vs) (auto simp: jdata_def)

lemma to_plain_jnull [simp]: "to_plain (jnull_obj kvs) = jobj (plain_members kvs)"
  by (simp add: jnull_obj_def jobj_def plain_members_def plain_props_map case_prod_beta comp_def)

lemma to_plain_jarr [simp]: "to_plain (jarr vs) = jarr (map to_plain vs)"
  by (simp add: jarr_def plain_slots_map comp_def)

lemma put_member_new: "name \<notin> set (map fst acc) \<Longrightarrow> put_member (plain_members acc) name (to_plain v) = plain_members (acc @ [(name, v)])"
  by (force simp: put_member_def plain_members_def)

lemma scan_string_std: "scan_string d s = Inr x \<Longrightarrow> scan_string d' s = Inr x"
proof (induction d s arbitrary: x rule: scan_string.induct)
  case (2 d c cs)
  then show ?case by (cases cs) (auto simp: rbind_Inr_iff split: if_splits)
qed simp

lemma parse_string_std: "parse_string d s = Inr x \<Longrightarrow> parse_string std_dialect s = Inr x"
proof -
  assume "parse_string d s = Inr x"
  then obtain cs b r y where x: "s = 34 # cs" "scan_string d cs = Inr (b, r)" "unescape b = Some y" "x = (y, r)"
    by (auto simp: parse_string_def rbind_Inr_iff split: list.splits if_splits option.splits)
  with scan_string_std [OF x(2), of std_dialect] show ?thesis by (simp add: parse_string_def std_dialect_def)
qed

lemma parse_literal_std: "parse_literal d s = Inr (v, r) \<Longrightarrow> std_literal s = Inr (to_plain v, r)"
  by (auto simp: parse_literal_def std_literal_def split: if_splits option.splits)

definition agrees :: "nat \<Rightarrow> value_reader \<Rightarrow> text_reader \<Rightarrow> bool" where
  "agrees n strict std \<longleftrightarrow> (\<forall>tokens s v t r. length s < n \<longrightarrow> strict tokens s = Inr (v, t, r) \<longrightarrow> std s = Inr (to_plain v, r))"

lemma agreesD: "agrees n strict std \<Longrightarrow> length s < n \<Longrightarrow> strict tokens s = Inr (v, t, r) \<Longrightarrow> std s = Inr (to_plain v, r)"
  by (auto simp: agrees_def)

lemma members_agree:
  assumes a: "agrees n nested std" and ok: "reader_ok m std"
  shows "length s \<le> n \<Longrightarrow> parse_members d nested fuel acc tokens s = Inr (v, t', r)
    \<Longrightarrow> std_members std fuel (plain_members acc) s = Inr (to_plain v, r)"
proof (induction fuel arbitrary: acc tokens s)
  case (Suc fuel)
  from parse_members_Inr [OF Suc.prems(2)] obtain name r1 t w t1 r2 c u where
    st: "parse_string d (skip_space s) = Inr (name, r1)" "skip_space r1 = 58 # t"
      "nested tokens t = Inr (w, t1, r2)" "skip_space r2 = c # u" and new: "name \<notin> set (map fst acc)"
    and res: "c = 125 \<and> v = jnull_obj (acc @ [(name, w)]) \<and> t' = t1 \<and> r = u
      \<or> c = 44 \<and> parse_members d nested fuel (acc @ [(name, w)]) t1 u = Inr (v, t', r)" .
  note p = parse_string_std [OF st(1)]
  note len = member_lengths [OF ok p st(2)]
  have n: "std t = Inr (to_plain w, r2)" using agreesD [OF a _ st(3)] len(1) Suc.prems(1) by simp
  have u: "length u \<le> n" using len(2) [OF n st(4)] Suc.prems(1) by simp
  from res show ?case using p st(2,4) n Suc.IH [OF u] by (auto simp: put_member_new [OF new])
qed simp

lemma elements_agree:
  assumes a: "agrees n nested std" and ok: "reader_ok m std"
  shows "length s < n \<Longrightarrow> parse_elements d nested fuel acc tokens s = Inr (v, t', r)
    \<Longrightarrow> std_elements std fuel (map to_plain acc) s = Inr (to_plain v, r)"
proof (induction fuel arbitrary: acc tokens s)
  case (Suc fuel)
  from parse_elements_Inr [OF Suc.prems(2)] obtain w t1 r2 c u where
    st: "nested tokens s = Inr (w, t1, r2)" "skip_space r2 = c # u"
    and res: "c = 93 \<and> v = jarr (acc @ [w]) \<and> t' = t1 \<and> r = u
      \<or> c = 44 \<and> parse_elements d nested fuel (acc @ [w]) t1 u = Inr (v, t', r)" .
  have n: "std s = Inr (to_plain w, r2)" using agreesD [OF a Suc.prems(1) st(1)] .
  have u: "length u < n" using reader_okD(1) [OF ok n] skip_space_Cons [OF st(2)] Suc.prems(1) by simp
  from res show ?case using st(2) n Suc.IH [OF u, of "acc @ [w]"] by auto
qed simp

lemma value_agrees: "agrees n (parse_value d levels) (std_value n)"
proof (induction levels arbitrary: n)
  case (Suc levels)
  show ?case
  proof (cases n)
    case (Suc m)
    show ?thesis unfolding agrees_def
    proof (intro allI impI)
      fix tokens and s r :: jstring and v t
      assume s: "length s < n" and v: "parse_value d (Suc levels) tokens s = Inr (v, t, r)"
      have len: "length (skip_space x) < m" if "skip_space s = c # x" for c x
        using skip_space_Cons [OF that] length_skip_space [of x] s Suc by simp
      note IH = Suc.IH [of m] std_value_ok [of m]
      have obj: "std_object (std_value m) (skip_space x) = Inr (to_plain v, r)"
        if "skip_space s = c # x" "parse_object d (parse_value d levels) (Suc tokens) (skip_space x) = Inr (v, t, r)" for c x
        using that(2) members_agree [OF IH less_imp_le [OF len [OF that(1)]], of d "Suc (length (skip_space x))" "[]"]
        by (auto simp: parse_object_def std_object_def plain_members_def simp del: parse_members.simps std_members.simps split: if_splits)
      have arr: "std_array (std_value m) (skip_space x) = Inr (to_plain v, r)"
        if "skip_space s = c # x" "parse_array d (parse_value d levels) (Suc tokens) (skip_space x) = Inr (v, t, r)" for c x
        using that(2) elements_agree [OF IH len [OF that(1)], of d "Suc (length (skip_space x))" "[]"]
        by (auto simp: parse_array_def std_array_def simp del: parse_elements.simps std_elements.simps split: if_splits)
      show "std_value n s = Inr (to_plain v, r)"
        using v obj arr unfolding Suc
        by (auto simp: Let_def rbind_Inr_iff split: if_split_asm dest: parse_string_std parse_literal_std)
    qed
  qed (simp add: agrees_def)
qed (simp add: agrees_def)

lemma strict_parse_agrees: "parse_document d s = Inr v \<Longrightarrow> json_parse s = Inr (to_plain v)"
proof -
  assume "parse_document d s = Inr v"
  then obtain t r where v: "parse_value d 33 0 (skip_space s) = Inr (v, t, r)" "skip_space r = []"
    by (auto simp: parse_document_def rbind_Inr_iff split: if_splits)
  have "length (skip_space s) < Suc (length s)" using length_skip_space [of s] by simp
  from agreesD [OF value_agrees this v(1)] have "std_value (Suc (length s)) (skip_space s) = Inr (to_plain v, r)" .
  moreover have "skip_space (skip_space s) = skip_space s" by (simp add: skip_space_def dropWhile_idem)
  then have "std_value (Suc n) (skip_space s) = std_value (Suc n) s" for n by (simp add: Let_def)
  ultimately show ?thesis using v(2) by (simp add: json_parse_def del: std_value.simps)
qed

end
