(* ===== verification/OperationsExecute.thy ===== *)
theory OperationsExecute
  imports OperationsProperties JsonParse
begin

section \<open>Executing an accepted operation: origin-app/operations.mjs\<close>

text \<open>
  \<open>executeWalletOperation\<close>: what the wallet does after the person confirmed a transaction. The native
  module is a parameter, function by function; so are the provider's answer, the clock and
  \<open>assertCurrent\<close>, which may throw at each of the points where the code calls it. \<open>None\<close> is a promise
  that stays pending because a body never ends.
\<close>

subsection \<open>What the operations call\<close>

record opened_fields =
  opened_ciphertexts :: "byte list option list" \<comment> \<open>\<open>None\<close>: not opened\<close>
  reply_ephemeral_public :: "byte list"

record native_wallet =
  open_sealed_fields :: "(jval \<Rightarrow> sealed_field list \<Rightarrow> byte list \<Rightarrow> jval \<Rightarrow> jval + opened_fields) option"
    \<comment> \<open>the outer \<open>None\<close>: not a function; left: it throws, with the \<open>code\<close> of the error\<close>
  sign_native :: "signing \<Rightarrow> jval \<Rightarrow> jval \<Rightarrow> jval \<Rightarrow> jval result" \<comment> \<open>awaited; a missing function is a throw\<close>
  sign_publish_request :: "(jval \<Rightarrow> jval \<Rightarrow> jval \<Rightarrow> jval result) option"

datatype checkpoint =
    Fields_Opened | Result_Signed | Provider_Asked | Provider_Answered | Provider_Read nat | Provider_Failed
  | Challenge_Read | Before_Signing | After_Signing

datatype challenge_read = Challenge_Bytes "byte list" | Challenge_Done | Challenge_Rejects

record provider_answer =
  provider_ok :: bool
  provider_redirected :: bool
  provider_url :: jstring
  provider_reads :: "challenge_read list option" \<comment> \<open>\<open>None\<close>: no body\<close>

record execution =
  assert_current :: "checkpoint \<Rightarrow> unit result"
  time_at :: "checkpoint \<Rightarrow> int"
  ask_provider :: "jstring \<Rightarrow> jval \<Rightarrow> provider_answer option" \<comment> \<open>address and body of the POST; \<open>None\<close>: it fails or is aborted\<close>

subsection \<open>Opening sealed fields\<close>

definition opened_entry :: "byte list option \<Rightarrow> jval" where
  "opened_entry f = (case f of
       Some bs \<Rightarrow> jobj [(js ''ciphertextBase64url'', JStr (encode_base64url bs)), (js ''status'', jlit ''opened'')]
     | None \<Rightarrow> jobj [(js ''reason'', jlit ''NOT_ADDRESSED_TO_ACCOUNT''), (js ''status'', jlit ''refused'')])"

definition opened_result :: "opened_fields \<Rightarrow> jval" where
  "opened_result reply = jobj
     [(js ''fields'', jarr (map opened_entry (opened_ciphertexts reply))),
      (js ''replyEphemeralPublicKeyHex'', JStr (bytes_hex (reply_ephemeral_public reply))),
      (js ''schemaVersion'', jint 1)]"

definition native_failure :: "jval \<Rightarrow> js_error" where
  \<comment> \<open>what the \<open>catch\<close> makes of an error of the native module\<close>
  "native_failure code = op_fail (if code = jlit ''OPERATION_NOT_ALLOWED'' then ''OPERATION_NOT_ALLOWED'' else ''INVALID_WALLET_RESULT'')"

definition only_operation_errors :: "'a result \<Rightarrow> 'a result" where
  \<comment> \<open>the \<open>catch\<close> for every other error\<close>
  "only_operation_errors r = (case r of
       Inl (Wallet_Operation_Error code) \<Rightarrow> Inl (op_fail code)
     | Inl _ \<Rightarrow> Inl (op_fail ''INVALID_WALLET_RESULT'')
     | Inr x \<Rightarrow> Inr x)"

definition open_sealed :: "native_wallet \<Rightarrow> jval \<Rightarrow> jval \<Rightarrow> jval \<Rightarrow> operation \<Rightarrow> (jval \<Rightarrow> jval \<Rightarrow> sealed_field list result) \<Rightarrow> jval result" where
  "open_sealed W handle request binding operation bind = (case open_sealed_fields W of
       None \<Rightarrow> Inl (op_fail ''OPERATION_NOT_ALLOWED'')
     | Some f \<Rightarrow> rbind (bind request binding) (\<lambda>fields.
         case f handle fields (hex_bytes (str_of (fld request ''replyPublicKeyHex''))) (fld binding ''registryRow'') of
           Inl code \<Rightarrow> Inl (native_failure code)
         | Inr reply \<Rightarrow> build_result operation (opened_result reply)))"

subsection \<open>Signing a publication\<close>

definition HEX_16 :: "jstring \<Rightarrow> bool" where
  "HEX_16 s = lower_hex 32 s"

definition BASE64_32 :: "jstring \<Rightarrow> bool" where
  "BASE64_32 s \<longleftrightarrow> length s = 43 \<and> list_all (\<lambda>c. base64_value c \<noteq> None) s"

definition SHA256_KEY_ID :: "jstring \<Rightarrow> bool" where
  "SHA256_KEY_ID s \<longleftrightarrow> starts_with (js ''sha256:'') s \<and> LOWER_HEX_32 (drop 7 s)"

definition challenge_failed :: js_error where
  "challenge_failed = op_fail ''PROVIDER_CHALLENGE_FAILED''"

definition authentication_keys :: "jval \<Rightarrow> jval list result" where
  \<comment> \<open>\<open>identity.keys?.filter(key => key?.purpose === 'sdn-authentication') ?? []\<close>\<close>
  "authentication_keys identity = (case fld identity ''keys'' of
       JUndefined \<Rightarrow> Inr []
     | JNull \<Rightarrow> Inr []
     | JArr p slots ps n \<Rightarrow> Inr (filter (\<lambda>k. strict_eq (fld k ''purpose'') (jlit ''sdn-authentication''))
         (map prop_value (List.map_filter id slots)))
     | _ \<Rightarrow> Inl (Type_Error []))"

definition publication_key :: "native_wallet \<Rightarrow> jval \<Rightarrow> jval \<Rightarrow> jval result" where
  \<comment> \<open>the identity's only authentication key, for the one reviewed client\<close>
  "publication_key W binding identity = (let e = op_fail ''OPERATION_NOT_ALLOWED'' in checks
     [ensure (strict_eq (fld binding ''clientId'') (jlit ''spaceaware-web-v1'')
        \<and> strict_eq (fld binding ''requestOrigin'') (jlit ''https://spaceaware.io'')
        \<and> strict_eq (fld binding ''registryRow'') (jlit ''spaceaware-publish-request-v1'')
        \<and> sign_publish_request W \<noteq> None
        \<and> strict_eq (fld identity ''identityScheme'') (jlit ''sdn-bip32-slip10-purpose-v1'')
        \<and> strict_eq (fld identity ''seedProfile'') (jlit ''password-scrypt-v2'')) e]
     (rbind (authentication_keys identity) (\<lambda>keys. case keys of
        [key] \<Rightarrow> checks
          [ensure (strict_eq (fld key ''identityScheme'') (fld identity ''identityScheme'')
             \<and> strict_eq (fld key ''seedProfile'') (fld identity ''seedProfile'')
             \<and> strict_eq (fld key ''curve'') (jlit ''ed25519'')) e,
           regexp_test LOWER_HEX_32 (fld key ''publicKeyHex'') e,
           regexp_test SHA256_KEY_ID (fld key ''keyId'') e]
          (Inr key)
      | _ \<Rightarrow> Inl e)))"

fun read_challenge :: "execution \<Rightarrow> nat \<Rightarrow> byte list \<Rightarrow> challenge_read list \<Rightarrow> byte list result option" where
  \<comment> \<open>a body that has delivered its last chunk and does not end leaves the promise pending until the abort, a
    rejected read; cancelling the reader is taken to settle\<close>
  "read_challenge E i acc [] = None"
| "read_challenge E i acc (Challenge_Rejects # rs) = Some (Inl Host_Error)"
| "read_challenge E i acc (Challenge_Done # rs) = Some (rbind (assert_current E (Provider_Read i)) (\<lambda>_. Inr acc))"
| "read_challenge E i acc (Challenge_Bytes bs # rs) = (case assert_current E (Provider_Read i) of
       Inl e \<Rightarrow> Some (Inl e)
     | Inr _ \<Rightarrow> if 4096 < length (acc @ bs) then Some (Inl challenge_failed) else read_challenge E (Suc i) (acc @ bs) rs)"

text \<open>
  The multiplication by 1000 rounds only from \<open>2 ^ 53\<close> on, past every date: such an \<open>expires_at\<close> is
  refused with or without the rounding, as more than 300 seconds ahead.
\<close>

definition expires_ms :: "jval \<Rightarrow> rat" where
  "expires_ms challenge = num_real (num_of (fld challenge ''expires_at'')) * 1000"

definition check_challenge :: "int \<Rightarrow> jval \<Rightarrow> jval result" where
  \<comment> \<open>after \<open>atob\<close> and \<open>btoa\<close> only the canonical text of 32 bytes is left\<close>
  "check_challenge now challenge = (let n = fld challenge ''expires_at''; c = fld challenge ''challenge'' in checks
     [regexp_test HEX_16 (fld challenge ''challenge_id'') challenge_failed,
      regexp_test BASE64_32 c challenge_failed,
      ensure (case n of JNum x \<Rightarrow> num_is_safe_integer x | _ \<Rightarrow> False) challenge_failed,
      ensure (of_int now < expires_ms challenge \<and> expires_ms challenge - of_int now \<le> 300000) challenge_failed]
     (rbind (to_text c) (\<lambda>t. case atob (t @ [61]) of
        None \<Rightarrow> Inl Host_Error
      | Some bytes \<Rightarrow> checks [ensure (length bytes = 32 \<and> strict_eq (JStr (strip_trailing 61 (btoa bytes))) c) challenge_failed]
          (Inr challenge))))"

definition challenge_request :: "jval \<Rightarrow> int \<Rightarrow> jval" where
  "challenge_request key now = jobj [(js ''client_pubkey_hex'', fld key ''publicKeyHex''), (js ''ts'', jint (now div 1000))]"

definition challenge_answer :: "execution \<Rightarrow> jstring \<Rightarrow> provider_answer \<Rightarrow> jval result option" where
  "challenge_answer E endpoint a =
     (if \<not> provider_ok a \<or> provider_redirected a \<or> (provider_url a \<noteq> [] \<and> provider_url a \<noteq> endpoint) then Some (Inl challenge_failed)
      else case provider_reads a of
        None \<Rightarrow> Some (Inl challenge_failed)
      | Some rs \<Rightarrow> map_option (\<lambda>r. rbind r (\<lambda>bytes. case text_decode bytes of
            None \<Rightarrow> Inl Host_Error
          | Some t \<Rightarrow> rbind (json_parse t) (\<lambda>v.
              rbind (operation_record v [''challenge_id'', ''challenge'', ''expires_at''] ''PROVIDER_CHALLENGE_FAILED'')
                (check_challenge (time_at E Challenge_Read))))) (read_challenge E 0 [] rs))"

definition unexpired :: "jval \<Rightarrow> int \<Rightarrow> unit result" where
  "unexpired transaction now = rbind (operation_timestamp (fld transaction ''expiresAt'') ''INVALID_TRANSACTION'') (\<lambda>t.
     ensure (now < t) (op_fail ''TRANSACTION_EXPIRED''))"

definition fetch_challenge :: "execution \<Rightarrow> jval \<Rightarrow> jval \<Rightarrow> jval \<Rightarrow> jval result option" where
  \<comment> \<open>the \<open>try\<close>\<close>
  "fetch_challenge E transaction request key = (let endpoint = str_of (fld request ''providerOrigin'') @ js ''/api/auth/challenge'' in
     case rbind (assert_current E Provider_Asked) (\<lambda>_. unexpired transaction (time_at E Provider_Asked)) of
       Inl e \<Rightarrow> Some (Inl e)
     | Inr _ \<Rightarrow> (case ask_provider E endpoint (challenge_request key (time_at E Provider_Asked)) of
         None \<Rightarrow> Some (Inl Host_Error)
       | Some a \<Rightarrow> (case assert_current E Provider_Answered of
           Inl e \<Rightarrow> Some (Inl e)
         | Inr _ \<Rightarrow> challenge_answer E endpoint a)))"

definition or_challenge_failed :: "execution \<Rightarrow> 'a result \<Rightarrow> 'a result" where
  \<comment> \<open>the \<open>catch\<close>\<close>
  "or_challenge_failed E r = (case r of
       Inr x \<Rightarrow> Inr x
     | Inl e \<Rightarrow> rbind (assert_current E Provider_Failed) (\<lambda>_. case e of
         Wallet_Operation_Error code \<Rightarrow> Inl (op_fail code)
       | _ \<Rightarrow> Inl challenge_failed))"

definition with_challenge :: "jval \<Rightarrow> jval \<Rightarrow> jstring \<Rightarrow> jval" where
  \<comment> \<open>\<open>{ ...value, challengeId, challengeBase64url }\<close>; no record it is used on has either field\<close>
  "with_challenge v challenge_id text = JObj Object_Prototype (own_props v @
     [(js ''challengeId'', jdata challenge_id), (js ''challengeBase64url'', jdata (JStr text))]) 0"

definition SIGNED_FIELDS :: "string list" where
  "SIGNED_FIELDS = [''schemaVersion'', ''keyId'', ''identityScheme'', ''algorithm'', ''encoding'', ''signatureProfile'', ''publicKeyHex'',
     ''signatureHex'', ''requestDigestSha256'']"

definition still_valid :: "execution \<Rightarrow> checkpoint \<Rightarrow> jval \<Rightarrow> jval \<Rightarrow> unit result" where
  "still_valid E point transaction challenge = rbind (assert_current E point) (\<lambda>_.
     rbind (unexpired transaction (time_at E point)) (\<lambda>_.
     ensure (of_int (time_at E point) < expires_ms challenge) (op_fail ''TRANSACTION_EXPIRED'')))"

definition sign_with_challenge :: "native_wallet \<Rightarrow> execution \<Rightarrow> jval \<Rightarrow> jval \<Rightarrow> jval \<Rightarrow> jval \<Rightarrow> jval \<Rightarrow> jval \<Rightarrow> jval result" where
  "sign_with_challenge W E binding handle transaction request key challenge =
     (let text = map url_unit (str_of (fld challenge ''challenge'')); challenge_id = fld challenge ''challenge_id'' in
      checks [still_valid E Before_Signing transaction challenge]
      (rbind (the (sign_publish_request W) handle (with_challenge request challenge_id text) (fld binding ''registryRow'')) (\<lambda>raw.
       checks [still_valid E After_Signing transaction challenge]
       (rbind (operation_record raw SIGNED_FIELDS ''INVALID_WALLET_RESULT'') (\<lambda>signed.
        checks [ensure (strict_eq (fld signed ''keyId'') (fld key ''keyId'')
          \<and> strict_eq (fld signed ''publicKeyHex'') (fld key ''publicKeyHex'')) (op_fail ''INVALID_WALLET_RESULT'')]
        (build_sdn_publish_result (with_challenge signed challenge_id text)))))))"

definition sign_publication :: "wire_host \<Rightarrow> native_wallet \<Rightarrow> execution \<Rightarrow> jval \<Rightarrow> jval \<Rightarrow> jval \<Rightarrow> jval \<Rightarrow> jval result option" where
  "sign_publication H W E binding handle identity transaction =
     (case rbind (parse_sdn_publish_request H (fld transaction ''request'')) (\<lambda>request.
         rbind (publication_key W binding identity) (\<lambda>key. Inr (request, key))) of
        Inl e \<Rightarrow> Some (Inl e)
      | Inr (request, key) \<Rightarrow> map_option (\<lambda>r. rbind (or_challenge_failed E r)
          (sign_with_challenge W E binding handle transaction request key)) (fetch_challenge E transaction request key))"

subsection \<open>\<open>executeWalletOperation\<close>\<close>

definition connected_result :: "jval \<Rightarrow> jval \<Rightarrow> jval" where
  "connected_result transaction identity = jobj
     [(js ''connectionExpiresAt'', fld transaction ''expiresAt''), (js ''event'', jlit ''connected''), (js ''identity'', identity),
      (js ''schemaVersion'', jint 1)]"

definition sign_argument :: "signing \<Rightarrow> jval \<Rightarrow> jval result" where
  "sign_argument s request = (case s of
       Sign_Login_V1 \<Rightarrow> rbind (decode_base64url32 (fld request ''challengeBase64url'')) (\<lambda>bs. Inr (jbytes bs))
     | _ \<Rightarrow> Inr request)"

definition execute_wallet_operation :: "wire_host \<Rightarrow> native_wallet option \<Rightarrow> execution \<Rightarrow> jval \<Rightarrow> jval \<Rightarrow> jval \<Rightarrow> jval \<Rightarrow> jval result option" where
  "execute_wallet_operation H wasm E binding handle identity transaction =
     (case (lookup_operation H (fld transaction ''operation''), wasm) of
        (Inl e, _) \<Rightarrow> Some (Inl e)
      | (Inr (Some operation), Some W) \<Rightarrow> (case handling operation of
          Publishes \<Rightarrow> sign_publication H W E binding handle identity transaction
        | Opens bind \<Rightarrow> Some (rbind (only_operation_errors (open_sealed W handle (fld transaction ''request'') binding operation bind)) (\<lambda>r.
            rbind (assert_current E Fields_Opened) (\<lambda>_. Inr r)))
        | Connects \<Rightarrow> Some (build_result operation (connected_result transaction identity))
        | Signs s \<Rightarrow> Some (rbind (sign_argument s (fld transaction ''request'')) (\<lambda>arg.
            rbind (sign_native W s handle arg (fld binding ''registryRow'')) (\<lambda>raw.
            rbind (assert_current E Result_Signed) (\<lambda>_.
            from_catch (op_fail ''INVALID_WALLET_RESULT'') (build_result operation raw)))))
        | Inherited \<Rightarrow> Some (Inl (Type_Error [])))
      | _ \<Rightarrow> Some (Inl (op_fail ''OPERATION_NOT_ALLOWED'')))"

definition disconnected_account_result :: "jval result" where
  "disconnected_account_result = build_wallet_account_result (jobj
     [(js ''connectionExpiresAt'', JNull), (js ''event'', jlit ''disconnected''), (js ''identity'', JNull), (js ''schemaVersion'', jint 1)])"

end
