(* ===== verification/RelayJson.thy ===== *)
theory RelayJson
  imports JsonParse OperationsProperties
begin

section \<open>Reading and writing of the relay service: relay/src/json.ts\<close>

text \<open>
  The relay service's own strict JSON reader, its canonical writer, its record guard and its body
  reader. Every refusal is a \<open>RelayError\<close> of a fixed table. SHA-256 (\<open>node:crypto\<close>) is a parameter.
\<close>

subsection \<open>Errors\<close>

definition ERRORS :: "(string \<times> js_error) list" where
  "ERRORS =
     [(''conflict'', Relay_Error 409 ''CONFLICT'' ''The transaction has already been used.''),
      (''gone'', Relay_Error 410 ''GONE'' ''The transaction is no longer available.''),
      (''internal'', Relay_Error 500 ''INTERNAL_ERROR'' ''The relay could not complete the request.''),
      (''invalidBinding'', Relay_Error 400 ''INVALID_BINDING'' ''The transaction binding is invalid.''),
      (''malformed'', Relay_Error 400 ''MALFORMED_REQUEST'' ''The request is invalid.''),
      (''notFound'', Relay_Error 404 ''NOT_FOUND'' ''The requested relay resource was not found.''),
      (''payloadTooLarge'', Relay_Error 413 ''PAYLOAD_TOO_LARGE'' ''The request body is too large.''),
      (''rateLimited'', Relay_Error 429 ''RATE_LIMITED'' ''Too many relay requests.''),
      (''unregistered'', Relay_Error 403 ''UNREGISTERED_CLIENT'' ''The client binding is not registered.''),
      (''unsupportedMediaType'', Relay_Error 415 ''UNSUPPORTED_MEDIA_TYPE'' ''Content-Type must be application/json.'')]"

definition relay_error :: "string \<Rightarrow> js_error" where
  "relay_error name = (case map_of ERRORS name of Some e \<Rightarrow> e | None \<Rightarrow> Type_Error [])"

abbreviation malformed :: js_error where
  "malformed \<equiv> relay_error ''malformed''"

definition is_relay_error :: "js_error \<Rightarrow> bool" where
  "is_relay_error e = (case e of Relay_Error _ _ _ \<Rightarrow> True | _ \<Rightarrow> False)"

lemma relay_error_values [simp]:
  "relay_error ''conflict'' = Relay_Error 409 ''CONFLICT'' ''The transaction has already been used.''"
  "relay_error ''gone'' = Relay_Error 410 ''GONE'' ''The transaction is no longer available.''"
  "relay_error ''internal'' = Relay_Error 500 ''INTERNAL_ERROR'' ''The relay could not complete the request.''"
  "relay_error ''invalidBinding'' = Relay_Error 400 ''INVALID_BINDING'' ''The transaction binding is invalid.''"
  "relay_error ''malformed'' = Relay_Error 400 ''MALFORMED_REQUEST'' ''The request is invalid.''"
  "relay_error ''notFound'' = Relay_Error 404 ''NOT_FOUND'' ''The requested relay resource was not found.''"
  "relay_error ''payloadTooLarge'' = Relay_Error 413 ''PAYLOAD_TOO_LARGE'' ''The request body is too large.''"
  "relay_error ''rateLimited'' = Relay_Error 429 ''RATE_LIMITED'' ''Too many relay requests.''"
  "relay_error ''unregistered'' = Relay_Error 403 ''UNREGISTERED_CLIENT'' ''The client binding is not registered.''"
  "relay_error ''unsupportedMediaType'' = Relay_Error 415 ''UNSUPPORTED_MEDIA_TYPE'' ''Content-Type must be application/json.''"
  by (simp_all add: relay_error_def ERRORS_def)

subsection \<open>Reading\<close>

definition validate_scalar_string :: "jstring \<Rightarrow> unit result" where
  \<comment> \<open>the scan of the wire module, with the relay's error\<close>
  "validate_scalar_string s = from_catch malformed (scan_scalars [] s)"

definition service_dialect :: json_dialect where
  "service_dialect = \<lparr>json_error = (\<lambda>_. malformed), string_guard = validate_scalar_string\<rparr>"

definition parse_strict_json :: "jstring \<Rightarrow> jval result" where
  "parse_strict_json s = checks [ensure (\<not> has_bom s) malformed] (parse_document service_dialect s)"

datatype body_event = Body_Part "byte list" | Body_Fails | Body_Ends

fun collect_body :: "nat \<Rightarrow> byte list \<Rightarrow> bool \<Rightarrow> body_event list \<Rightarrow> (byte list \<times> bool) result option" where
  \<comment> \<open>all the bytes and whether there were too many: the stream is always read to its end, and an
    aborted one throws; the bytes after the limit are counted, not kept\<close>
  "collect_body maximum acc oversized [] = None"
| "collect_body maximum acc oversized (Body_Ends # es) = Some (Inr (acc, oversized))"
| "collect_body maximum acc oversized (Body_Fails # es) = Some (Inl Host_Error)"
| "collect_body maximum acc oversized (Body_Part bs # es) =
     (if oversized \<or> maximum < length (acc @ bs) then collect_body maximum acc True es
      else collect_body maximum (acc @ bs) False es)"

record http_body =
  content_type :: "jstring option"
  content_length :: "jstring option"
  body_events :: "body_event list"

definition length_header :: "jstring \<Rightarrow> bool" where
  \<comment> \<open>\<open>/^(?:0|[1-9]\d*)$/\<close>\<close>
  "length_header s \<longleftrightarrow> s = [48] \<or> (s \<noteq> [] \<and> hd s \<noteq> 48 \<and> list_all is_digit s)"

definition decode_json_body :: "byte list \<Rightarrow> jval result" where
  "decode_json_body bs =
     (if take 3 bs = [0xef, 0xbb, 0xbf] then Inl malformed
      else case text_decode bs of None \<Rightarrow> Inl malformed | Some t \<Rightarrow> parse_strict_json t)"

definition read_json_body :: "http_body \<Rightarrow> nat \<Rightarrow> jval result option" where
  \<comment> \<open>\<open>None\<close>: the body never ends, the handler keeps waiting\<close>
  "read_json_body request maximum_bytes =
     (if content_type request \<noteq> Some (js ''application/json'') then Some (Inl (relay_error ''unsupportedMediaType''))
      else case content_length request of
        Some n \<Rightarrow>
          (if \<not> length_header n then Some (Inl malformed)
           else if maximum_bytes < digits_value n then Some (Inl (relay_error ''payloadTooLarge''))
           else map_option (\<lambda>r. rbind r (\<lambda>(bs, oversized). if oversized then Inl (relay_error ''payloadTooLarge'') else decode_json_body bs))
             (collect_body maximum_bytes [] False (body_events request)))
      | None \<Rightarrow> map_option (\<lambda>r. rbind r (\<lambda>(bs, oversized). if oversized then Inl (relay_error ''payloadTooLarge'') else decode_json_body bs))
             (collect_body maximum_bytes [] False (body_events request)))"

definition exact_object :: "jval \<Rightarrow> string list \<Rightarrow> jval result" where
  "exact_object v expected = exact_fields (\<lambda>_. malformed) v expected []"

subsection \<open>Writing, hashes, comparisons\<close>

definition service_canon :: canon_dialect where
  "service_canon = \<lparr>canon_string = validate_scalar_string, canon_infinite = malformed, canon_unsupported = malformed\<rparr>"

definition jcs :: "jval \<Rightarrow> jstring result" where
  "jcs = canonical_json service_canon"

type_synonym digest_function = "byte list \<Rightarrow> byte list"

definition service_sha256_hex :: "digest_function \<Rightarrow> jstring \<Rightarrow> jstring" where
  "service_sha256_hex digest s = bytes_hex (digest (utf8_encode s))"

definition sha256_base64url_ascii :: "digest_function \<Rightarrow> jstring \<Rightarrow> jstring" where
  \<comment> \<open>an 'ascii' update keeps the low byte of every code unit\<close>
  "sha256_base64url_ascii digest s = encode_base64url (digest (map byte_of s))"

definition timing_safe_equal :: "byte list \<Rightarrow> byte list \<Rightarrow> bool result" where
  \<comment> \<open>\<open>node:crypto\<close>: throws on different lengths\<close>
  "timing_safe_equal a b = (if length a = length b then Inr (a = b) else Inl Range_Error)"

definition constant_time_equal :: "jstring \<Rightarrow> jstring \<Rightarrow> bool result" where
  "constant_time_equal left right = (let l = utf8_encode left; r = utf8_encode right in
     if length l \<noteq> length r
     then rbind (timing_safe_equal l (take (length l) r @ replicate (length l - length r) 0)) (\<lambda>_. Inr False)
     else timing_safe_equal l r)"

definition is_lower_hex64 :: "jval \<Rightarrow> bool" where
  "is_lower_hex64 v \<longleftrightarrow> is_str v \<and> lower_hex 64 (str_of v)"

definition is_base64url32 :: "jval \<Rightarrow> bool" where
  \<comment> \<open>the decoder drops the two low bits of the last digit; the second encoding notices\<close>
  "is_base64url32 v \<longleftrightarrow> is_str v \<and> BASE64URL_32 (str_of v)
     \<and> (case atob (map base64_unit (str_of v) @ [61]) of
          Some bs \<Rightarrow> length bs = 32 \<and> encode_base64url bs = str_of v
        | None \<Rightarrow> False)"

subsection \<open>Facts\<close>

lemma service_dialect_uniform: "uniform_dialect service_dialect malformed"
  by (auto simp: uniform_dialect_def service_dialect_def validate_scalar_string_def from_catch_def split: sum.splits)

lemma service_dialect_ok: "dialect_ok service_dialect"
  by (auto simp: dialect_ok_def service_dialect_def validate_scalar_string_def from_catch_def split: sum.splits)

lemma constant_time_equal_Inr: "constant_time_equal l r = Inr (utf8_encode l = utf8_encode r)"
proof -
  have "length (take (length a) b @ replicate (length a - length b) 0) = length a" for a b :: "byte list" by simp
  then show ?thesis by (auto simp: constant_time_equal_def timing_safe_equal_def Let_def)
qed

lemma constant_time_equal_ascii:
  assumes "is_ascii l" "js_wf r"
  shows "constant_time_equal l r = Inr (l = r)"
  using utf8_encode_eq_ascii [of l r] assms by (auto simp: constant_time_equal_Inr)

lemma collect_body_length:
  "collect_body n acc b es = Some (Inr (bs, False)) \<Longrightarrow> length acc \<le> n \<Longrightarrow> length bs \<le> n \<and> \<not> b"
proof (induction n acc b es rule: collect_body.induct)
  case (4 maximum acc oversized bs es)
  then show ?case by (auto split: if_splits)
qed auto

subsection \<open>The property\<close>

text \<open>C26: the four strict JSON readers of the program (the wire module's, the page's and the wallet's
  relay readers and the relay service's) are restrictions of \<open>JSON.parse\<close>: a text one of them reads,
  \<open>JSON.parse\<close> reads as the same value with plain objects; so a checked text that is parsed again
  later, as the relay does with the requests and results it stores, means what was checked.\<close>

theorem strict_readers_restrict_json_parse:
  assumes "parse_json_without_duplicates (JStr s) = Inr v \<or> client_parse_json (JStr s) n = Inr v
    \<or> origin_parse_json (JStr s) n = Inr v \<or> parse_strict_json s = Inr v"
  shows "json_parse s = Inr (to_plain v)"
proof -
  have "\<exists>d. parse_document d s = Inr v" using assms
    by (auto simp: parse_json_without_duplicates_def client_parse_json_def origin_parse_json_def parse_strict_json_def
        checks_Inr_iff Let_def split: if_splits)
  then show ?thesis using strict_parse_agrees by blast
qed

lemma strict_readers_restrict_json_parse_witness:
  "json_parse (js ''{ }'') = Inr (jobj [])"
proof -
  have "parse_value d (Suc n) 0 [123, 32, 125] = Inr (jnull_obj [], Suc 0, [])" for d n
    by (simp add: starts_with_def skip_space_def is_json_space_def parse_object_def)
  from this [of service_dialect 32] have "parse_strict_json (js ''{ }'') = Inr (jnull_obj [])"
    by (simp add: parse_strict_json_def parse_document_def js_def has_bom_def starts_with_def skip_space_def is_json_space_def)
  then show ?thesis using strict_readers_restrict_json_parse [of "js ''{ }''" "jnull_obj []" 0]
    by (simp add: plain_members_def)
qed

end
