(* ===== verification/RelayRegistry.thy ===== *)
theory RelayRegistry
  imports RelayJson
begin

section \<open>The relay service's registry: relay/src/registry.ts\<close>

text \<open>
  The relay's reading of the same client registry file, with its own copy of the operation policy, and
  its lookup. The file is what \<open>parseStrictJson\<close> makes of it, or the error reading it raised. The
  property compares it with the wallet origin's registry: the two agree on every request.
\<close>

subsection \<open>The policy\<close>

definition service_row :: "string \<Rightarrow> jval \<Rightarrow> jval \<Rightarrow> jval \<Rightarrow> jval \<Rightarrow> string \<times> operation_policy" where
  "service_row name audience row activation service =
     (name, \<lparr>policy_audience = audience, policy_row = row, policy_activation = activation, policy_service = service\<rparr>)"

definition SERVICE_POLICY :: "(string \<times> operation_policy) list" where
  "SERVICE_POLICY =
     [service_row ''sdn.auth.publish-request.v1'' JNull (jlit ''spaceaware-publish-request-v1'') JNull JNull,
      service_row ''sdn.asset-review.authority-activation.v1'' (jlit ''asset-review-authority:assets.ipfs.01'')
        (jlit ''asset-review-authority-activation-v1'') (jlit ''unactivated'') (jlit ''assets.ipfs.01/asset-review-attestation''),
      service_row ''sdn.asset-review.decision.v1'' (jlit ''asset-review:assets.ipfs.01'')
        (jlit ''asset-review-decision-v1'') (jlit ''activated'') JNull,
      service_row ''sdn.auth.jcs-envelope.v2'' (jlit ''sdn-login:sdn.spaceaware.io'') (jlit ''sdn-node-console-v2'') JNull JNull,
      service_row ''sdn.auth.raw-challenge.v1'' (jlit ''sdn-login:sdn.spaceaware.io'') JNull JNull JNull,
      service_row ''sdn.wallet.account.v1'' JNull JNull JNull JNull,
      service_row ''sdn.wallet.connect.v1'' JNull JNull JNull JNull,
      service_row ''sdn.wallet.field-open.v1'' (jlit ''sdn-field-encryption/v1|flatbuffers'') (jlit ''flatbuffers-field-open-v1'') JNull JNull,
      service_row ''sdn.wallet.key-unwrap.v1'' (jlit ''sdn-field-encryption/v1|flatsql'') (jlit ''flatsql-key-unwrap-v1'') JNull JNull]"

definition service_policy :: "jstring \<Rightarrow> operation_policy option" where
  \<comment> \<open>\<open>OPERATION_POLICY[operationId]\<close>: a name of \<open>Object.prototype\<close> finds a value without these fields\<close>
  "service_policy name = (case map_of (map (\<lambda>(k, p). (js k, p)) SERVICE_POLICY) name of
       Some p \<Rightarrow> Some p
     | None \<Rightarrow> if name \<in> set (map js INHERITED_NAMES)
         then Some \<lparr>policy_audience = JUndefined, policy_row = JUndefined, policy_activation = JUndefined, policy_service = JUndefined\<rparr>
         else None)"

definition EXPECTED_RELEASE_SHA256 :: jstring where
  "EXPECTED_RELEASE_SHA256 = js ''f5f7e3eab42bbb12bd85d95289e0a8006941ceb8505f6dc1cde12a38f4a79a63''"

subsection \<open>Validation\<close>

definition valid_https_origin :: "wire_host \<Rightarrow> jval \<Rightarrow> bool" where
  "valid_https_origin H v \<longleftrightarrow> is_str v \<and> 42 \<notin> set (str_of v) \<and> (case new_url H (str_of v) of
       None \<Rightarrow> False
     | Some u \<Rightarrow> url_protocol u = js ''https:'' \<and> url_username u = [] \<and> url_password u = [] \<and> url_port u = []
         \<and> url_pathname u = js ''/'' \<and> url_search u = [] \<and> url_hash u = [] \<and> url_origin u = str_of v)"

definition valid_https_callback :: "wire_host \<Rightarrow> jval \<Rightarrow> jval \<Rightarrow> bool" where
  "valid_https_callback H v request_origin \<longleftrightarrow> is_str v \<and> 42 \<notin> set (str_of v) \<and> (case new_url H (str_of v) of
       None \<Rightarrow> False
     | Some u \<Rightarrow> url_protocol u = js ''https:'' \<and> url_username u = [] \<and> url_password u = [] \<and> url_port u = []
         \<and> url_search u = [] \<and> url_hash u = [] \<and> JStr (url_origin u) = request_origin \<and> url_href u = str_of v)"

record registry_client =
  allowed_operations :: "jstring list"
  rc_callback_uri :: jstring
  rc_display_name :: jstring
  rc_client_id :: jstring
  rc_request_origin :: jstring

record client_registry =
  release_sha256 :: jstring
  registry_clients :: "registry_client list"

abbreviation registry_invalid :: js_error where
  "registry_invalid \<equiv> Plain_Error ''wallet relay registry is invalid''"

definition validate_service_operation :: "jval list \<Rightarrow> nat \<Rightarrow> jstring list \<Rightarrow> jval \<Rightarrow> jstring result" where
  "validate_service_operation allowed i seen raw_operation = rbind (exact_object raw_operation BINDING_FIELDS) (\<lambda>operation.
     let id = fld operation ''operation'' in
     case (if is_str id \<and> str_of id \<noteq> [] then service_policy (str_of id) else None) of
       None \<Rightarrow> Inl registry_invalid
     | Some policy \<Rightarrow> checks
         [ensure (i < length allowed \<and> strict_eq id (allowed ! i) \<and> strict_eq (fld operation ''maxLifetimeSeconds'') (jint 300)
            \<and> strict_eq (fld operation ''audience'') (policy_audience policy)
            \<and> strict_eq (fld operation ''registryRow'') (policy_row policy)
            \<and> strict_eq (fld operation ''serviceActivationState'') (policy_activation policy)
            \<and> strict_eq (fld operation ''serviceInstance'') (policy_service policy) \<and> str_of id \<notin> set seen) registry_invalid]
         (Inr (str_of id)))"

fun validate_service_operations :: "jval list \<Rightarrow> nat \<Rightarrow> jstring list \<Rightarrow> jval list \<Rightarrow> jstring list result" where
  "validate_service_operations allowed i seen [] = Inr seen"
| "validate_service_operations allowed i seen (b # bs) =
     rbind (validate_service_operation allowed i seen b) (\<lambda>id. validate_service_operations allowed (Suc i) (seen @ [id]) bs)"

definition expected_audiences :: "jval list \<Rightarrow> jval" where
  "expected_audiences bindings = jarr (map JStr (sort_names (remdups
     (map str_of (filter is_str (map (\<lambda>b. fld b ''audience'') bindings))))))"

definition same_jcs :: "jval \<Rightarrow> jval \<Rightarrow> unit result" where
  "same_jcs a b = rbind (jcs a) (\<lambda>s. rbind (jcs b) (\<lambda>t. ensure (s = t) registry_invalid))"

definition validate_service_client :: "wire_host \<Rightarrow> jstring list \<Rightarrow> jval \<Rightarrow> registry_client result" where
  "validate_service_client H seen raw_client = rbind (exact_object raw_client CLIENT_FIELDS) (\<lambda>client.
     let id = fld client ''clientId''; name = fld client ''clientDisplayName''; allowed = fld client ''allowedOperations'';
         bindings = fld client ''operationBindings'' in
     checks
       [ensure (is_str id \<and> CLIENT_ID (str_of id) \<and> str_of id \<notin> set seen
          \<and> is_str name \<and> 1 \<le> length (str_of name) \<and> length (str_of name) \<le> 80
          \<and> valid_https_origin H (fld client ''requestOrigin'')
          \<and> valid_https_callback H (fld client ''callbackUri'') (fld client ''requestOrigin'')) registry_invalid,
        ensure (is_array allowed \<and> is_array bindings \<and> is_array (fld client ''audiences'')
          \<and> length (array_slots allowed) = length (array_slots bindings)
          \<and> 1 \<le> length (array_slots allowed) \<and> length (array_slots allowed) \<le> 16) registry_invalid]
     (rbind (validate_service_operations (array_values allowed) 0 [] (array_values bindings)) (\<lambda>operations.
      checks [same_jcs (fld client ''audiences'') (expected_audiences (array_values bindings))]
      (Inr \<lparr>allowed_operations = operations, rc_callback_uri = str_of (fld client ''callbackUri''),
         rc_display_name = str_of name, rc_client_id = str_of id, rc_request_origin = str_of (fld client ''requestOrigin'')\<rparr>))))"

fun validate_service_clients :: "wire_host \<Rightarrow> registry_client list \<Rightarrow> jval list \<Rightarrow> registry_client list result" where
  "validate_service_clients H acc [] = Inr acc"
| "validate_service_clients H acc (c # cs) =
     rbind (validate_service_client H (map rc_client_id acc) c) (\<lambda>r. validate_service_clients H (acc @ [r]) cs)"

definition new_client_registry :: "wire_host \<Rightarrow> digest_function \<Rightarrow> jval result \<Rightarrow> client_registry result" where
  "new_client_registry H digest file =
     rbind (from_catch registry_invalid file) (\<lambda>parsed.
     rbind (exact_object parsed [''clients'', ''registryReleaseSha256'', ''schemaVersion'']) (\<lambda>source.
     let release = fld source ''registryReleaseSha256''; clients = fld source ''clients'' in
     checks [ensure (strict_eq (fld source ''schemaVersion'') (jint 1) \<and> is_lower_hex64 release
         \<and> strict_eq release (JStr EXPECTED_RELEASE_SHA256)) registry_invalid]
     (rbind (jcs (jobj [(js ''clients'', clients), (js ''schemaVersion'', fld source ''schemaVersion'')])) (\<lambda>t.
      checks
        [ensure (JStr (service_sha256_hex digest t) = release) (Plain_Error ''wallet relay registry release digest mismatch''),
         ensure (is_array clients \<and> 1 \<le> length (array_slots clients) \<and> length (array_slots clients) \<le> 64) registry_invalid]
      (rbind (validate_service_clients H [] (array_values clients)) (\<lambda>rs.
       Inr \<lparr>release_sha256 = str_of release, registry_clients = rs\<rparr>))))))"

subsection \<open>Lookups\<close>

record registry_binding =
  rb_callback_uri :: jstring
  rb_display_name :: jstring
  rb_client_id :: jstring
  rb_max_lifetime_seconds :: int
  rb_operation :: jstring
  rb_request_origin :: jstring
  rb_release_sha256 :: jstring

definition has_origin :: "client_registry \<Rightarrow> jval \<Rightarrow> bool" where
  "has_origin R origin \<longleftrightarrow> is_str origin \<and> list_ex (\<lambda>c. rc_request_origin c = str_of origin) (registry_clients R)"

definition service_resolve :: "client_registry \<Rightarrow> jval \<Rightarrow> jval \<Rightarrow> jval \<Rightarrow> registry_binding result" where
  "service_resolve R client request_origin operation = checks
     [ensure (is_str client \<and> is_str request_origin \<and> is_str operation) (relay_error ''unregistered'')]
     (case find (\<lambda>c. rc_client_id c = str_of client \<and> rc_request_origin c = str_of request_origin
           \<and> str_of operation \<in> set (allowed_operations c)) (registry_clients R) of
        None \<Rightarrow> Inl (relay_error ''unregistered'')
      | Some c \<Rightarrow> Inr \<lparr>rb_callback_uri = rc_callback_uri c, rb_display_name = rc_display_name c, rb_client_id = rc_client_id c,
          rb_max_lifetime_seconds = 300, rb_operation = str_of operation, rb_request_origin = rc_request_origin c,
          rb_release_sha256 = release_sha256 R\<rparr>)"

end
