(* ===== verification/RelayStore.thy ===== *)
theory RelayStore
  imports RelayRegistry
begin

section \<open>The relay's store: relay/src/store.ts\<close>

text \<open>
  One SQLite table of transactions, created empty at every start of the process. A table is the list
  of its rows in the order they were inserted; a statement is the list function it denotes. Every
  method runs as one immediate transaction, so a method is a function from table to table; when it
  throws, which a uniqueness constraint or the callback may cause, the transaction is rolled back
  and the table stays. Nullable columns are options; a row is returned with its \<open>created_at_ms\<close>, which
  \<open>mapRow\<close> leaves out and no caller reads.
\<close>

subsection \<open>Rows\<close>

datatype relay_status = Pending | Completed | Consumed | Cancelled | Expired

record stored_transaction =
  authorization_code :: "jstring option"
  callback_uri :: jstring
  client_display_name :: jstring
  client_id :: jstring
  code_challenge :: jstring
  created_at_ms :: int
  expires_at_ms :: int
  tx_operation :: jstring
  registry_version :: jstring
  request_json :: "jstring option"
  request_origin :: jstring
  request_sha256 :: jstring
  result_json :: "jstring option"
  result_sha256 :: "jstring option"
  result_token :: "jstring option"
  tx_state :: jstring
  status :: relay_status
  transaction_id :: jstring

type_synonym table = "stored_transaction list"

datatype 'a store_outcome = Ok 'a | Not_Found | Conflict | Gone | Invalid_Binding | Unregistered | Full

text \<open>A method returns its outcome, or what it threw, and the table the database holds afterwards.\<close>

type_synonym 'a store_result = "'a store_outcome result \<times> table"

definition immediate :: "table \<Rightarrow> ('a store_outcome \<times> table) result \<Rightarrow> 'a store_result" where
  \<comment> \<open>\<open>database.transaction(operation).immediate()\<close>: commits what the operation returns, rolls back a throw\<close>
  "immediate rows r = (case r of Inr (x, rows') \<Rightarrow> (Inr x, rows') | Inl e \<Rightarrow> (Inl e, rows))"

subsection \<open>Statements\<close>

definition raw :: "table \<Rightarrow> jstring \<Rightarrow> stored_transaction option" where
  "raw rows i = find (\<lambda>r. transaction_id r = i) rows"

definition by_code :: "table \<Rightarrow> jstring \<Rightarrow> stored_transaction option" where
  "by_code rows c = find (\<lambda>r. authorization_code r = Some c) rows"

definition is_open :: "stored_transaction \<Rightarrow> bool" where
  \<comment> \<open>\<open>status IN ('pending','completed')\<close>\<close>
  "is_open r \<longleftrightarrow> status r = Pending \<or> status r = Completed"

definition wipe :: "relay_status \<Rightarrow> stored_transaction \<Rightarrow> stored_transaction" where
  \<comment> \<open>the four columns every closing statement clears\<close>
  "wipe final r = r\<lparr>request_json := None, result_json := None, result_token := None, authorization_code := None, status := final\<rparr>"

definition expire_row :: "int \<Rightarrow> stored_transaction \<Rightarrow> stored_transaction" where
  "expire_row now r = (if expires_at_ms r \<le> now \<and> is_open r then wipe Expired r else r)"

definition expire_all :: "int \<Rightarrow> table \<Rightarrow> table" where
  "expire_all now rows = map (expire_row now) rows"

definition update_where :: "(stored_transaction \<Rightarrow> bool) \<Rightarrow> (stored_transaction \<Rightarrow> stored_transaction) \<Rightarrow> table \<Rightarrow> nat \<times> table" where
  \<comment> \<open>\<open>run().changes\<close> and the table\<close>
  "update_where P f rows = (length (filter P rows), map (\<lambda>r. if P r then f r else r) rows)"

definition no_clash :: "('a \<Rightarrow> jstring option) \<Rightarrow> 'a list \<Rightarrow> bool" where
  \<comment> \<open>\<open>UNIQUE\<close>: no value twice, nulls aside\<close>
  "no_clash column rows = distinct (List.map_filter column rows)"

definition constraints :: "table \<Rightarrow> unit result" where
  \<comment> \<open>\<open>transaction_id PRIMARY KEY\<close>, \<open>result_token UNIQUE\<close>, \<open>authorization_code UNIQUE\<close>: a statement that
    breaks one throws\<close>
  "constraints rows = ensure (distinct (map transaction_id rows) \<and> no_clash result_token rows \<and> no_clash authorization_code rows)
     (Plain_Error ''UNIQUE constraint failed'')"

subsection \<open>Methods\<close>

definition new_store :: "int \<Rightarrow> nat result" where
  \<comment> \<open>the constructor's check of \<open>maximumRows\<close>; the table starts empty: nothing survives a restart\<close>
  "new_store maximum_rows = checks [ensure (1 \<le> maximum_rows \<and> maximum_rows \<le> 100000) (Type_Error (js ''maximumRows is invalid''))]
     (Inr (nat maximum_rows))"

definition store_expire :: "int \<Rightarrow> table \<Rightarrow> table" where
  "store_expire now rows = expire_all now rows"

record create_input =
  ci_binding :: registry_binding
  ci_code_challenge :: jstring
  ci_created_at_ms :: int
  ci_expires_at_ms :: int
  ci_request_json :: jstring
  ci_request_sha256 :: jstring
  ci_result_token :: jstring
  ci_state :: jstring
  ci_transaction_id :: jstring

definition new_row :: "create_input \<Rightarrow> stored_transaction" where
  \<comment> \<open>the inserted values\<close>
  "new_row i = \<lparr>authorization_code = None, callback_uri = rb_callback_uri (ci_binding i),
     client_display_name = rb_display_name (ci_binding i), client_id = rb_client_id (ci_binding i),
     code_challenge = ci_code_challenge i, created_at_ms = ci_created_at_ms i, expires_at_ms = ci_expires_at_ms i,
     tx_operation = rb_operation (ci_binding i), registry_version = rb_release_sha256 (ci_binding i),
     request_json = Some (ci_request_json i), request_origin = rb_request_origin (ci_binding i),
     request_sha256 = ci_request_sha256 i, result_json = None, result_sha256 = None,
     result_token = Some (ci_result_token i), tx_state = ci_state i, status = Pending, transaction_id = ci_transaction_id i\<rparr>"

definition make_room :: "nat \<Rightarrow> int \<Rightarrow> table \<Rightarrow> table" where
  \<comment> \<open>a full table drops its closed rows whose time is over\<close>
  "make_room maximum now rows =
     (if maximum \<le> length rows then filter (\<lambda>r. \<not> (expires_at_ms r \<le> now \<and> \<not> is_open r)) rows else rows)"

definition store_create :: "nat \<Rightarrow> create_input \<Rightarrow> table \<Rightarrow> stored_transaction store_result" where
  "store_create maximum i rows = immediate rows (let rows = expire_all (ci_created_at_ms i) rows in
     if raw rows (ci_transaction_id i) \<noteq> None then Inr (Conflict, rows)
     else let rows = make_room maximum (ci_created_at_ms i) rows in
       if maximum \<le> length rows then Inr (Full, rows)
       else rbind (constraints (rows @ [new_row i])) (\<lambda>_. Inr (Ok (new_row i), rows @ [new_row i])))"

definition store_get :: "jstring \<Rightarrow> int \<Rightarrow> table \<Rightarrow> stored_transaction store_result" where
  "store_get i now rows = immediate rows (let rows = expire_all now rows in
     case raw rows i of
       None \<Rightarrow> Inr (Not_Found, rows)
     | Some r \<Rightarrow>
         if status r = Expired \<or> status r = Cancelled then Inr (Gone, rows)
         else if status r \<noteq> Pending then Inr (Conflict, rows)
         else Inr (Ok r, rows))"

definition store_peek :: "jstring \<Rightarrow> table \<Rightarrow> stored_transaction option" where
  \<comment> \<open>no expiry, no transaction\<close>
  "store_peek i rows = raw rows i"

record complete_input =
  co_code :: "jstring result" \<comment> \<open>what \<open>createAuthorizationCode()\<close> would return or throw; called only when reached\<close>
  co_now_ms :: int
  co_result_json :: jstring
  co_result_sha256 :: jstring
  co_result_token :: jstring
  co_transaction_id :: jstring

definition completed :: "complete_input \<Rightarrow> jstring \<Rightarrow> stored_transaction \<Rightarrow> stored_transaction" where
  "completed i code r = r\<lparr>result_json := Some (co_result_json i), result_sha256 := Some (co_result_sha256 i),
     authorization_code := Some code, status := Completed\<rparr>"

definition token_matches :: "stored_transaction \<Rightarrow> jstring \<Rightarrow> bool result" where
  \<comment> \<open>\<open>row.result_token !== null && constantTimeEqual(row.result_token, token)\<close>\<close>
  "token_matches r token = (case result_token r of None \<Rightarrow> Inr False | Some t \<Rightarrow> constant_time_equal t token)"

definition store_complete :: "complete_input \<Rightarrow> table \<Rightarrow> stored_transaction store_result" where
  "store_complete i rows = immediate rows (let rows = expire_all (co_now_ms i) rows in
     case raw rows (co_transaction_id i) of
       None \<Rightarrow> Inr (Not_Found, rows)
     | Some r \<Rightarrow>
         if status r = Expired \<or> status r = Cancelled then Inr (Gone, rows)
         else if status r \<noteq> Pending then Inr (Conflict, rows)
         else rbind (token_matches r (co_result_token i)) (\<lambda>same.
           if \<not> same then Inr (Invalid_Binding, rows)
           else rbind (co_code i) (\<lambda>code.
             let (changes, rows') = update_where (\<lambda>r. transaction_id r = co_transaction_id i \<and> status r = Pending) (completed i code) rows in
             rbind (constraints rows') (\<lambda>_.
             if changes \<noteq> 1 then Inr (Conflict, rows')
             else case raw rows' (co_transaction_id i) of
                 Some r' \<Rightarrow> Inr (Ok r', rows')
               | None \<Rightarrow> Inl (Type_Error [])))))"

record redeem_input =
  re_code :: jstring
  re_code_challenge :: jstring
  re_now_ms :: int
  re_request_origin :: jstring
  re_state :: jstring
  re_transaction_id :: jstring

fun all_equal :: "(jstring \<times> jstring) list \<Rightarrow> bool result" where
  \<comment> \<open>a chain of \<open>!constantTimeEqual(..) || ..\<close>: the first that differs ends it\<close>
  "all_equal [] = Inr True"
| "all_equal ((a, b) # ps) = rbind (constant_time_equal a b) (\<lambda>same. if same then all_equal ps else Inr False)"

definition store_redeem :: "redeem_input \<Rightarrow> table \<Rightarrow> (jstring \<times> stored_transaction) store_result" where
  "store_redeem i rows = immediate rows (let rows = expire_all (re_now_ms i) rows in
     case raw rows (re_transaction_id i) of
       None \<Rightarrow> Inr (if by_code rows (re_code i) \<noteq> None then Invalid_Binding else Not_Found, rows)
     | Some r \<Rightarrow>
         if status r = Expired \<or> status r = Cancelled then Inr (Gone, rows)
         else if status r = Consumed then Inr (Conflict, rows)
         else case (status r, result_json r, authorization_code r) of
           (Completed, Some result, Some code) \<Rightarrow>
             if request_origin r \<noteq> re_request_origin i then Inr (Unregistered, rows)
             else rbind (all_equal [(transaction_id r, re_transaction_id i), (tx_state r, re_state i), (code, re_code i),
                 (code_challenge r, re_code_challenge i)]) (\<lambda>same.
               if \<not> same then Inr (Invalid_Binding, rows)
               else let (changes, rows') = update_where (\<lambda>r. transaction_id r = re_transaction_id i \<and> status r = Completed) (wipe Consumed) rows in
                 if changes \<noteq> 1 then Inr (Conflict, rows') else Inr (Ok (result, r), rows'))
         | _ \<Rightarrow> Inr (Conflict, rows))"

record cancel_input =
  ca_body_transaction_id :: jstring
  ca_code_challenge :: jstring
  ca_now_ms :: int
  ca_path_transaction_id :: jstring
  ca_request_origin :: jstring
  ca_state :: jstring

definition store_cancel :: "cancel_input \<Rightarrow> table \<Rightarrow> stored_transaction store_result" where
  "store_cancel i rows = immediate rows (let rows = expire_all (ca_now_ms i) rows in
     case raw rows (ca_path_transaction_id i) of
       None \<Rightarrow> Inr (Not_Found, rows)
     | Some r \<Rightarrow>
         if status r = Expired \<or> status r = Cancelled then Inr (Gone, rows)
         else if \<not> is_open r then Inr (Conflict, rows)
         else if request_origin r \<noteq> ca_request_origin i then Inr (Unregistered, rows)
         else rbind (all_equal [(transaction_id r, ca_body_transaction_id i), (tx_state r, ca_state i),
             (code_challenge r, ca_code_challenge i)]) (\<lambda>same.
           if \<not> same then Inr (Invalid_Binding, rows)
           else let (changes, rows') = update_where (\<lambda>r. transaction_id r = ca_path_transaction_id i \<and> is_open r) (wipe Cancelled) rows in
             if changes \<noteq> 1 then Inr (Conflict, rows') else Inr (Ok r, rows')))"

subsection \<open>Histories\<close>

datatype store_call =
    Create create_input
  | Get jstring int
  | Complete complete_input
  | Redeem redeem_input
  | Cancel cancel_input
  | Expire int

datatype store_reply =
    Row "stored_transaction store_outcome result"
  | Redeemed_Row "(jstring \<times> stored_transaction) store_outcome result"
  | Done

fun run_call :: "nat \<Rightarrow> store_call \<Rightarrow> table \<Rightarrow> store_reply \<times> table" where
  "run_call m (Create i) rows = apfst Row (store_create m i rows)"
| "run_call m (Get i now) rows = apfst Row (store_get i now rows)"
| "run_call m (Complete i) rows = apfst Row (store_complete i rows)"
| "run_call m (Redeem i) rows = apfst Redeemed_Row (store_redeem i rows)"
| "run_call m (Cancel i) rows = apfst Row (store_cancel i rows)"
| "run_call m (Expire now) rows = (Done, store_expire now rows)"

datatype store_event = Called store_call store_reply | Restarted

text \<open>The tables a service may hold after a history of calls and restarts.\<close>

inductive store_reach :: "nat \<Rightarrow> store_event list \<Rightarrow> table \<Rightarrow> bool" for m where
  reach_start: "store_reach m [] []"
| reach_call: "store_reach m h rows \<Longrightarrow> run_call m c rows = (reply, rows') \<Longrightarrow> store_reach m (h @ [Called c reply]) rows'"
| reach_restart: "store_reach m h rows \<Longrightarrow> store_reach m (h @ [Restarted]) []"

inductive_cases store_reach_snocE: "store_reach m (h @ [e]) rows"

end
