(* ===== verification/RelayServer.thy ===== *)
theory RelayServer
  imports RelayStore
begin

section \<open>The relay's HTTP server: relay/src/server.ts\<close>

text \<open>
  The rate limiter, the request line, the peer's address, and the handler. A handler that awaits a
  body runs in two parts with other requests in between, so it is modelled as two functions: from the
  request to an answer or a waiting record of its local variables, and from that record, once the body
  is there, to the answer. The clocks, the random source and \<open>isIP\<close> are arguments.
\<close>

subsection \<open>Rate limits\<close>

record bucket =
  bucket_count :: nat
  started_at :: int

type_synonym buckets = "(jstring \<times> bucket) list" \<comment> \<open>a \<open>Map\<close>, in insertion order\<close>

record limiter =
  maximum_buckets :: nat
  window_ms :: int

definition new_limiter :: "int option \<Rightarrow> int \<Rightarrow> limiter result" where
  "new_limiter max_buckets window = (let buckets = (case max_buckets of None \<Rightarrow> 2048 | Some n \<Rightarrow> n) in checks
     [ensure (16 \<le> buckets \<and> buckets \<le> 65536 \<and> 1 \<le> window \<and> window \<le> 3600000)
        (Type_Error (js ''rate limit configuration is invalid''))]
     (Inr \<lparr>maximum_buckets = nat buckets, window_ms = window\<rparr>))"

definition set_bucket :: "jstring \<Rightarrow> bucket \<Rightarrow> buckets \<Rightarrow> buckets" where
  \<comment> \<open>an entry keeps its place, a new one goes last\<close>
  "set_bucket k b bs = (if map_of bs k = None then bs @ [(k, b)] else map (\<lambda>(j, c). (j, if j = k then b else c)) bs)"

definition current :: "limiter \<Rightarrow> int \<Rightarrow> bucket \<Rightarrow> bool" where
  "current L now b \<longleftrightarrow> now - started_at b < window_ms L"

definition take_rate :: "limiter \<Rightarrow> jstring \<Rightarrow> int \<Rightarrow> nat \<Rightarrow> buckets \<Rightarrow> unit result \<times> buckets" where
  "take_rate L key now maximum bs = (case map_of bs key of
       Some b \<Rightarrow>
         if current L now b
         then (if maximum \<le> bucket_count b then (Inl (relay_error ''rateLimited''), bs)
               else (Inr (), set_bucket key (b\<lparr>bucket_count := Suc (bucket_count b)\<rparr>) bs))
         else (Inr (), set_bucket key \<lparr>bucket_count = 1, started_at = now\<rparr> bs)
     | None \<Rightarrow>
         if maximum_buckets L \<le> length bs
         then (let kept = filter (\<lambda>(_, b). current L now b) bs in
           if maximum_buckets L \<le> length kept then (Inl (relay_error ''rateLimited''), kept)
           else (Inr (), set_bucket key \<lparr>bucket_count = 1, started_at = now\<rparr> kept))
         else (Inr (), set_bucket key \<lparr>bucket_count = 1, started_at = now\<rparr> bs))"

subsection \<open>The request line\<close>

definition visible_unit :: "code_unit \<Rightarrow> bool" where
  "visible_unit c \<longleftrightarrow> 0x21 \<le> c \<and> c \<le> 0x7e \<and> c \<noteq> 0x5c"

fun scan_path :: "nat \<Rightarrow> jstring \<Rightarrow> (jstring \<times> jstring) option" where
  \<comment> \<open>the path and, with its separator, what follows; \<open>None\<close>: \<open>undefined\<close>\<close>
  "scan_path i [] = Some ([], [])"
| "scan_path i (c # cs) =
     (if c = 63 \<or> c = 35 then Some ([], c # cs)
      else if 8192 \<le> i then None
      else if \<not> visible_unit c then None
      else map_option (apfst (Cons c)) (scan_path (Suc i) cs))"

record request_target =
  has_fragment :: bool
  has_query :: bool
  malformed_suffix :: bool
  pathname :: jstring

definition is_hex_unit :: "code_unit \<Rightarrow> bool" where
  "is_hex_unit c \<longleftrightarrow> (48 \<le> c \<and> c \<le> 57) \<or> (65 \<le> c \<and> c \<le> 70) \<or> (97 \<le> c \<and> c \<le> 102)"

fun scan_suffix :: "jstring \<Rightarrow> request_target \<Rightarrow> request_target" where
  "scan_suffix [] t = t"
| "scan_suffix (c # cs) t =
     (if \<not> visible_unit c then t\<lparr>malformed_suffix := True\<rparr>
      else let t = (if c = 63 \<and> \<not> has_query t \<and> \<not> has_fragment t then t\<lparr>has_query := True\<rparr>
                    else if c = 35 \<and> \<not> has_fragment t then t\<lparr>has_fragment := True\<rparr> else t) in
        if c \<noteq> 37 then scan_suffix cs t
        else if length (take 2 cs) = 2 \<and> list_all is_hex_unit (take 2 cs) then scan_suffix (drop 2 cs) t
        else t\<lparr>malformed_suffix := True\<rparr>)"

fun has_double_slash :: "jstring \<Rightarrow> bool" where
  "has_double_slash (a # b # cs) \<longleftrightarrow> (a = 47 \<and> b = 47) \<or> has_double_slash (b # cs)"
| "has_double_slash _ \<longleftrightarrow> False"

definition parse_request_target :: "jstring option \<Rightarrow> request_target option" where
  "parse_request_target raw_target = (case raw_target of
       None \<Rightarrow> None
     | Some s \<Rightarrow>
         if s = [] \<or> \<not> starts_with [47] s \<or> starts_with [47, 47] s then None
         else case scan_path 0 s of
           None \<Rightarrow> None
         | Some (path, tail) \<Rightarrow>
             if path = [] \<or> 37 \<in> set path \<or> has_double_slash path then None
             else if [46] \<in> set (split_on 47 path) \<or> [46, 46] \<in> set (split_on 47 path) then None
             else case tail of
               [] \<Rightarrow> Some \<lparr>has_fragment = False, has_query = False, malformed_suffix = False, pathname = path\<rparr>
             | c # rest \<Rightarrow>
                 let t = \<lparr>has_fragment = (c \<noteq> 63), has_query = (c = 63), malformed_suffix = False, pathname = path\<rparr> in
                 if 8192 < length rest then Some (t\<lparr>malformed_suffix := True\<rparr>) else Some (scan_suffix rest t))"

definition unclean :: "request_target \<Rightarrow> bool" where
  "unclean t \<longleftrightarrow> has_query t \<or> has_fragment t \<or> malformed_suffix t"

subsection \<open>Routes\<close>

definition TRANSACTIONS :: jstring where
  "TRANSACTIONS = js ''/relay/v1/transactions''"

definition id_path :: "string \<Rightarrow> jstring \<Rightarrow> jstring option" where
  \<comment> \<open>\<open>/^\/relay\/v1\/transactions\/([0-9a-f]{64})SUFFIX$/u.exec(path)?.[1]\<close>\<close>
  "id_path ending path = (let start = TRANSACTIONS @ [47]; rest = drop (length start) path in
     if starts_with start path \<and> lower_hex 64 (take 64 rest) \<and> drop 64 rest = js ending then Some (take 64 rest) else None)"

definition TRANSACTION_PATH :: "jstring \<Rightarrow> jstring option" where "TRANSACTION_PATH = id_path []"
definition RESULT_PATH :: "jstring \<Rightarrow> jstring option" where "RESULT_PATH = id_path ''/result''"
definition CANCEL_PATH :: "jstring \<Rightarrow> jstring option" where "CANCEL_PATH = id_path ''/cancel''"

definition REDEEM :: jstring where
  "REDEEM = js ''/relay/v1/codes/redeem''"

definition is_post_route :: "jstring \<Rightarrow> bool" where
  "is_post_route path \<longleftrightarrow> path = TRANSACTIONS \<or> path = REDEEM \<or> RESULT_PATH path \<noteq> None \<or> CANCEL_PATH path \<noteq> None"

definition rate_route :: "jstring option \<Rightarrow> jstring \<Rightarrow> jstring option" where
  "rate_route method path = (let post = (method = Some (js ''POST'') \<or> method = Some (js ''OPTIONS'')) in
     if method = Some (js ''GET'') \<and> TRANSACTION_PATH path \<noteq> None then Some (js ''transaction-get'')
     else if post \<and> path = TRANSACTIONS then Some (js ''transaction-create'')
     else if post \<and> RESULT_PATH path \<noteq> None then Some (js ''transaction-result'')
     else if post \<and> CANCEL_PATH path \<noteq> None then Some (js ''transaction-cancel'')
     else if post \<and> path = REDEEM then Some (js ''code-redeem'')
     else None)"

subsection \<open>The peer\<close>

text \<open>\<open>isIP\<close> of \<open>node:net\<close> and the \<open>URL\<close> parser are what the addresses are read with.\<close>

record address_reader =
  is_ip :: "jstring \<Rightarrow> nat" \<comment> \<open>4, 6 or 0\<close>
  address_url :: "jstring \<Rightarrow> url_parts option"

definition hex_number :: "jstring \<Rightarrow> nat" where
  "hex_number s = foldl (\<lambda>n c. 16 * n + (if c \<le> 57 then c - 48 else c - 87)) 0 s"

definition mapped_ipv4 :: "jstring \<Rightarrow> (nat \<times> nat) option" where
  \<comment> \<open>\<open>/^::ffff:([0-9a-f]{1,4}):([0-9a-f]{1,4})$/u\<close>\<close>
  "mapped_ipv4 s = (case split_on 58 s of
       [a, b, c, high, low] \<Rightarrow>
         if a = [] \<and> b = [] \<and> c = js ''ffff'' \<and> list_all (\<lambda>p. p \<noteq> [] \<and> length p \<le> 4 \<and> list_all is_lower_hex p) [high, low]
         then Some (hex_number high, hex_number low) else None
     | _ \<Rightarrow> None)"

definition canonical_ip_address :: "address_reader \<Rightarrow> jstring option \<Rightarrow> jstring option" where
  "canonical_ip_address A address = (case address of
       None \<Rightarrow> None
     | Some s \<Rightarrow>
         if s = [] \<or> 45 < length s \<or> trim_text s \<noteq> s \<or> 44 \<in> set s \<or> is_ip A s = 0 then None
         else if is_ip A s = 4 then Some (join_with 46 (map (\<lambda>part. decimal_digits (digits_value part)) (split_on 46 s)))
         else case address_url A (js ''http://['' @ s @ js '']/'') of
           None \<Rightarrow> None
         | Some u \<Rightarrow>
             let canonical = map lower_ascii (butlast (tl (url_hostname u))) in
             case mapped_ipv4 canonical of
               None \<Rightarrow> Some canonical
             | Some (high, low) \<Rightarrow> Some (js ''::ffff:'' @ decimal_digits (high div 256) @ [46] @ decimal_digits (high mod 256)
                 @ [46] @ decimal_digits (low div 256) @ [46] @ decimal_digits (low mod 256)))"

definition is_loopback_address :: "address_reader \<Rightarrow> jstring \<Rightarrow> bool" where
  "is_loopback_address A address \<longleftrightarrow> address = js ''::1''
     \<or> (let ipv4 = (if starts_with (js ''::ffff:'') address then drop 7 address else address) in
          is_ip A ipv4 = 4 \<and> digits_value (hd (split_on 46 ipv4)) = 127)"

definition peer_address :: "address_reader \<Rightarrow> bool \<Rightarrow> jstring option \<Rightarrow> jstring option \<Rightarrow> jstring" where
  "peer_address A trust_loopback_proxy remote real_ip = (case canonical_ip_address A remote of
       None \<Rightarrow> js ''unknown-peer''
     | Some direct \<Rightarrow>
         if direct = [] then js ''unknown-peer''
         else if \<not> trust_loopback_proxy \<or> \<not> is_loopback_address A direct then direct
         else case canonical_ip_address A real_ip of None \<Rightarrow> direct | Some forwarded \<Rightarrow> forwarded)"

subsection \<open>Responses\<close>

record http_response =
  response_code :: nat
  response_headers :: "(string \<times> jstring) list"
  response_bytes :: "byte list"

definition add_cors :: "(string \<times> jstring) list \<Rightarrow> jstring option \<Rightarrow> (string \<times> jstring) list" where
  "add_cors headers origin = (case origin of
       None \<Rightarrow> headers
     | Some g \<Rightarrow> if g = [] then headers else headers @ [(''Access-Control-Allow-Origin'', g), (''Vary'', js ''Origin'')])"

definition json_response :: "nat \<Rightarrow> jstring \<Rightarrow> jstring option \<Rightarrow> http_response" where
  "json_response code t cors = (let body = utf8_encode t in
     \<lparr>response_code = code, response_headers = add_cors
        [(''Cache-Control'', js ''no-store''), (''Content-Length'', decimal_digits (length body)),
         (''Content-Type'', js ''application/json; charset=utf-8''), (''X-Content-Type-Options'', js ''nosniff'')] cors,
      response_bytes = body\<rparr>)"

definition write_json :: "nat \<Rightarrow> jval \<Rightarrow> jstring option \<Rightarrow> http_response result" where
  \<comment> \<open>the canonical text may be refused, before anything is sent\<close>
  "write_json code v cors = rbind (jcs v) (\<lambda>t. Inr (json_response code t cors))"

definition write_empty :: "jstring option \<Rightarrow> http_response" where
  "write_empty cors = \<lparr>response_code = 204, response_headers = add_cors
     [(''Cache-Control'', js ''no-store''), (''Content-Length'', js ''0''), (''X-Content-Type-Options'', js ''nosniff'')] cors,
     response_bytes = []\<rparr>"

definition error_document :: "js_error \<Rightarrow> nat \<times> jval" where
  \<comment> \<open>\<open>error instanceof RelayError ? error : relayError(ERRORS.internal)\<close>\<close>
  "error_document e = (case (if is_relay_error e then e else relay_error ''internal'') of
       Relay_Error st code message \<Rightarrow> (st, jobj
         [(js ''error'', jobj [(js ''code'', jlit code), (js ''message'', jlit message)]), (js ''schemaVersion'', jint 1)])
     | _ \<Rightarrow> (500, JNull))"

definition error_response :: "js_error \<Rightarrow> jstring option \<Rightarrow> http_response" where
  \<comment> \<open>the document is plain text, so its canonical form exists\<close>
  "error_response e cors = (case error_document e of (st, v) \<Rightarrow>
     (case jcs v of Inr t \<Rightarrow> json_response st t cors | Inl _ \<Rightarrow> json_response st [] cors))"

fun error_for_outcome :: "'a store_outcome \<Rightarrow> js_error" where
  "error_for_outcome Conflict = relay_error ''conflict''"
| "error_for_outcome Full = relay_error ''rateLimited''"
| "error_for_outcome Gone = relay_error ''gone''"
| "error_for_outcome Invalid_Binding = relay_error ''invalidBinding''"
| "error_for_outcome Not_Found = relay_error ''notFound''"
| "error_for_outcome Unregistered = relay_error ''unregistered''"
| "error_for_outcome (Ok x) = Type_Error []"

fun unwrap :: "'a store_outcome \<Rightarrow> 'a result" where
  "unwrap (Ok x) = Inr x"
| "unwrap outcome = Inl (error_for_outcome outcome)"

definition iso_instant :: "int \<Rightarrow> jstring result" where
  \<comment> \<open>\<open>new Date(ms).toISOString()\<close>\<close>
  "iso_instant ms = checks [ensure (\<bar>ms\<bar> \<le> 8640000000000000) Range_Error] (Inr (to_iso_string ms))"

definition transaction_response :: "stored_transaction \<Rightarrow> jval result" where
  "transaction_response r = (case (request_json r, result_token r) of
       (Some request, Some token) \<Rightarrow>
         rbind (iso_instant (expires_at_ms r)) (\<lambda>expires.
         rbind (json_parse request) (\<lambda>parsed. Inr (jobj
           [(js ''callbackUri'', JStr (callback_uri r)), (js ''clientDisplayName'', JStr (client_display_name r)),
            (js ''clientId'', JStr (client_id r)), (js ''expiresAt'', JStr expires), (js ''operation'', JStr (tx_operation r)),
            (js ''registryVersion'', JStr (registry_version r)), (js ''request'', parsed),
            (js ''requestOrigin'', JStr (request_origin r)), (js ''requestSha256'', JStr (request_sha256 r)),
            (js ''resultToken'', JStr token), (js ''schemaVersion'', jint 1), (js ''state'', JStr (tx_state r)),
            (js ''transactionId'', JStr (transaction_id r))])))
     | _ \<Rightarrow> Inl (relay_error ''conflict''))"

definition unreserved :: "code_unit \<Rightarrow> bool" where
  "unreserved c \<longleftrightarrow> (48 \<le> c \<and> c \<le> 57) \<or> (65 \<le> c \<and> c \<le> 90) \<or> (97 \<le> c \<and> c \<le> 122)
     \<or> c \<in> {45, 95, 46, 33, 126, 42, 39, 40, 41}"

definition upper_hex_digit :: "nat \<Rightarrow> code_unit" where
  "upper_hex_digit n = (if n < 10 then 48 + n else 55 + n)"

definition encode_uri_component :: "jstring \<Rightarrow> jstring result" where
  "encode_uri_component s = checks [ensure (utf16_ok s) (Plain_Error ''URIError'')]
     (Inr (concat (map (\<lambda>b. if unreserved (unat b) then [unat b] else [37, upper_hex_digit (unat b div 16), upper_hex_digit (unat b mod 16)])
        (utf8_encode s))))"

definition require_lower_hex64 :: "jval \<Rightarrow> jstring result" where
  "require_lower_hex64 v = (if is_lower_hex64 v then Inr (str_of v) else Inl malformed)"

definition require_base64url32 :: "jval \<Rightarrow> jstring result" where
  "require_base64url32 v = (if is_base64url32 v then Inr (str_of v) else Inl malformed)"

definition entropy :: "byte list result \<Rightarrow> (byte list \<Rightarrow> jstring) \<Rightarrow> jstring result" where
  "entropy random_32 encoding = rbind random_32 (\<lambda>bs.
     if length bs \<noteq> 32 then Inl (Plain_Error ''relay CSPRNG returned an invalid buffer'') else Inr (encoding bs))"

definition parse_with :: "(jval \<Rightarrow> jval result) \<Rightarrow> jval \<Rightarrow> jval result" where
  "parse_with parser v = from_catch malformed (parser v)"

definition request_parsers :: "wire_host \<Rightarrow> (string \<times> (jval \<Rightarrow> jval result)) list" where
  "request_parsers H =
     [(''sdn.auth.publish-request.v1'', parse_sdn_publish_request H),
      (''sdn.asset-review.authority-activation.v1'', parse_activation_request),
      (''sdn.asset-review.decision.v1'', parse_decision_request H),
      (''sdn.auth.jcs-envelope.v2'', parse_sdn_login_v2_request),
      (''sdn.auth.raw-challenge.v1'', parse_sdn_login_v1_request),
      (''sdn.wallet.account.v1'', parse_wallet_account_request),
      (''sdn.wallet.connect.v1'', parse_wallet_connect_request),
      (''sdn.wallet.field-open.v1'', parse_field_open_request),
      (''sdn.wallet.key-unwrap.v1'', parse_key_unwrap_request)]"

definition result_parsers :: "wire_host \<Rightarrow> (string \<times> (jval \<Rightarrow> jval result)) list" where
  "result_parsers H =
     [(''sdn.auth.publish-request.v1'', parse_sdn_publish_result),
      (''sdn.asset-review.authority-activation.v1'', parse_activation_result H),
      (''sdn.asset-review.decision.v1'', parse_decision_result H),
      (''sdn.auth.jcs-envelope.v2'', parse_sdn_login_v2_result H),
      (''sdn.auth.raw-challenge.v1'', parse_sdn_login_v1_result),
      (''sdn.wallet.account.v1'', parse_wallet_account_result),
      (''sdn.wallet.connect.v1'', parse_wallet_connect_result),
      (''sdn.wallet.field-open.v1'', parse_field_open_result),
      (''sdn.wallet.key-unwrap.v1'', parse_key_unwrap_result)]"

definition parser_named :: "(string \<times> (jval \<Rightarrow> jval result)) list \<Rightarrow> jstring \<Rightarrow> (jval \<Rightarrow> jval result) option" where
  \<comment> \<open>the name comes from an accepted registry, whose operations are those of its policy, so it is never
    one of the names an object inherits\<close>
  "parser_named parsers name = map_of (map (\<lambda>(k, p). (js k, p)) parsers) name"

subsection \<open>The handler\<close>

record server_options =
  opt_database_path :: jstring
  opt_max_rows :: "int option"
  opt_rate_limit :: "(int option \<times> int option \<times> int option \<times> int option \<times> int) option"
    \<comment> \<open>bindingMaxRequests, coarseMaxRequests, maxBuckets, maxRequests, windowMs\<close>
  opt_trust_loopback_proxy :: "bool option"

record server_config =
  cfg_wire :: wire_host
  cfg_addresses :: address_reader
  cfg_digest :: digest_function
  cfg_registry :: client_registry
  cfg_max_rows :: nat
  cfg_limiter :: limiter
  coarse_maximum :: nat
  binding_maximum :: nat
  trust_loopback :: bool

definition or_else :: "'a option \<Rightarrow> 'a \<Rightarrow> 'a" where
  \<comment> \<open>\<open>a ?? b\<close>\<close>
  "or_else a b = (case a of None \<Rightarrow> b | Some x \<Rightarrow> x)"

definition require_request_maximum :: "int \<Rightarrow> string \<Rightarrow> nat result" where
  "require_request_maximum n name = (if 1 \<le> n \<and> n \<le> 10000 then Inr (nat n) else Inl (Type_Error (js (name @ '' is invalid''))))"

definition create_relay_server ::
  "wire_host \<Rightarrow> address_reader \<Rightarrow> digest_function \<Rightarrow> server_options \<Rightarrow> client_registry result \<Rightarrow> server_config result" where
  "create_relay_server H A digest options registry = checks
     [ensure (opt_database_path options \<noteq> []) (Type_Error (js ''databasePath is required''))]
     (rbind registry (\<lambda>R.
      rbind (new_store (or_else (opt_max_rows options) 4096)) (\<lambda>max_rows.
      case or_else (opt_rate_limit options) (None, None, None, None, 30000) of (bindings, coarse, max_buckets, shared, window) \<Rightarrow>
      rbind (require_request_maximum (or_else coarse (or_else shared 600)) ''coarseMaxRequests'') (\<lambda>coarse_max.
      rbind (require_request_maximum (or_else bindings (or_else shared 120)) ''bindingMaxRequests'') (\<lambda>binding_max.
      rbind (new_limiter max_buckets window) (\<lambda>L.
      Inr \<lparr>cfg_wire = H, cfg_addresses = A, cfg_digest = digest, cfg_registry = R, cfg_max_rows = max_rows, cfg_limiter = L,
        coarse_maximum = coarse_max, binding_maximum = binding_max,
        trust_loopback = or_else (opt_trust_loopback_proxy options) False\<rparr>))))))"

record server =
  srv_table :: table
  srv_buckets :: buckets
  timers :: "int list" \<comment> \<open>the deadlines of the pending expiry timers\<close>

record clocks =
  first_tick :: int \<comment> \<open>\<open>monotonicNow()\<close> at the first limit of this part, and at the second\<close>
  second_tick :: int
  wall_clock :: int \<comment> \<open>\<open>now()\<close>, read once in a part\<close>
  random_32 :: "byte list result"

text \<open>
  A part of the handler: it answers or throws, and changes the server; what it throws comes with the
  origin the handler has cleared for cross-origin reading by then.
\<close>

type_synonym 'a act = "server \<Rightarrow> (js_error \<times> jstring option + 'a) \<times> server"

definition abind :: "'a act \<Rightarrow> ('a \<Rightarrow> 'b act) \<Rightarrow> 'b act" where
  "abind m f s = (case m s of (Inl e, s') \<Rightarrow> (Inl e, s') | (Inr x, s') \<Rightarrow> f x s')"

definition attempt :: "jstring option \<Rightarrow> 'a result \<Rightarrow> 'a act" where
  "attempt cors r s = (case r of Inl e \<Rightarrow> Inl (e, cors) | Inr x \<Rightarrow> Inr x, s)"

definition charge :: "server_config \<Rightarrow> jstring option \<Rightarrow> jstring list \<Rightarrow> int \<Rightarrow> nat \<Rightarrow> unit act" where
  \<comment> \<open>\<open>limiter.take\<close>, its key the parts joined by a zero unit\<close>
  "charge cfg cors parts now maximum s = (case take_rate (cfg_limiter cfg) (join_with 0 parts) now maximum (srv_buckets s) of
     (r, bs) \<Rightarrow> attempt cors r (s\<lparr>srv_buckets := bs\<rparr>))"

definition on_store :: "jstring option \<Rightarrow> (table \<Rightarrow> 'a store_result) \<Rightarrow> 'a act" where
  \<comment> \<open>\<open>unwrap(store.method(...))\<close>\<close>
  "on_store cors f s = (case f (srv_table s) of (r, rows) \<Rightarrow> attempt cors (rbind r unwrap) (s\<lparr>srv_table := rows\<rparr>))"

definition peek :: "jstring \<Rightarrow> stored_transaction option act" where
  "peek i s = (Inr (store_peek i (srv_table s)), s)"

definition schedule_expiry :: "int \<Rightarrow> unit act" where
  "schedule_expiry expires s = (Inr (), s\<lparr>timers := expires # timers s\<rparr>)"

record http_request =
  request_method :: "jstring option"
  request_url :: "jstring option"
  remote_address :: "jstring option"
  real_ip :: "jstring option" \<comment> \<open>the header \<open>x-real-ip\<close>\<close>
  origin_header :: "jstring option"
  requested_method :: "jstring option" \<comment> \<open>the header \<open>access-control-request-method\<close>\<close>
  request_body :: http_body

datatype awaiting =
    Await_Create
  | Await_Result jstring "stored_transaction option"
  | Await_Cancel jstring
  | Await_Redeem

record waiting =
  awaiting :: awaiting
  waiting_peer :: jstring \<comment> \<open>\<open>ratePeer ?? 'unknown-peer'\<close>\<close>
  waiting_origin :: "jstring option"
  waiting_cors :: "jstring option"
  waiting_body :: http_body

datatype reply = Answer http_response | Wait waiting

definition answering :: "http_response act \<Rightarrow> server \<Rightarrow> http_response \<times> server" where
  \<comment> \<open>the \<open>catch\<close> of the handler\<close>
  "answering m s = (case m s of (Inr r, s') \<Rightarrow> (r, s') | (Inl (e, cors), s') \<Rightarrow> (error_response e cors, s'))"

definition preflight :: "server_config \<Rightarrow> clocks \<Rightarrow> http_request \<Rightarrow> (request_target \<times> jstring) act" where
  \<comment> \<open>up to the route: the target, the peer, the coarse limit of the route and, for a read, the limit of its
    binding\<close>
  "preflight cfg now request = (case parse_request_target (request_url request) of
       None \<Rightarrow> attempt None (Inl (relay_error ''notFound''))
     | Some target \<Rightarrow> (case rate_route (request_method request) (pathname target) of
         None \<Rightarrow> attempt None (Inr (target, js ''unknown-peer''))
       | Some route \<Rightarrow>
           let peer = peer_address (cfg_addresses cfg) (trust_loopback cfg) (remote_address request) (real_ip request) in
           abind (charge cfg None [js ''coarse'', route, js ''peer'', peer] (first_tick now) (coarse_maximum cfg)) (\<lambda>_.
           if unclean target \<or> route \<noteq> js ''transaction-get'' then attempt None (Inr (target, peer))
           else abind (case TRANSACTION_PATH (pathname target) of None \<Rightarrow> attempt None (Inr None) | Some i \<Rightarrow> peek i) (\<lambda>transaction.
             let subject = (case transaction of
                 Some r \<Rightarrow> [js ''binding'', request_origin r, client_id r]
               | None \<Rightarrow> [js ''absent'']) in
             abind (charge cfg None ([js ''binding'', js ''transaction-get'', js ''peer'', peer] @ subject) (second_tick now) (binding_maximum cfg)) (\<lambda>_.
             attempt None (Inr (target, peer)))))))"

definition get_transaction :: "clocks \<Rightarrow> jstring \<Rightarrow> http_response act" where
  "get_transaction now i =
     abind (on_store None (store_get i (wall_clock now))) (\<lambda>r.
     abind (attempt None (transaction_response r)) (\<lambda>v. attempt None (write_json 200 v None)))"

definition answer_options :: "server_config \<Rightarrow> http_request \<Rightarrow> jstring \<Rightarrow> http_response act" where
  "answer_options cfg request path = (case origin_header request of
       None \<Rightarrow> attempt None (Inl (relay_error ''unregistered''))
     | Some origin \<Rightarrow>
         abind (attempt None (ensure (origin \<noteq> [] \<and> has_origin (cfg_registry cfg) (JStr origin)) (relay_error ''unregistered''))) (\<lambda>_.
         abind (attempt None (ensure (requested_method request \<in> {None, Some (js ''POST'')}) malformed)) (\<lambda>_.
         abind (case (case RESULT_PATH path of Some i \<Rightarrow> Some i | None \<Rightarrow> CANCEL_PATH path) of
              None \<Rightarrow> attempt None (Inr ())
            | Some i \<Rightarrow> abind (peek i) (\<lambda>transaction. attempt None (ensure
                (case transaction of None \<Rightarrow> False | Some r \<Rightarrow> request_origin r = origin) (relay_error ''unregistered'')))) (\<lambda>_.
         attempt None (Inr \<lparr>response_code = 204, response_headers =
           [(''Access-Control-Allow-Headers'', js ''content-type''), (''Access-Control-Allow-Methods'', js ''POST''),
            (''Access-Control-Allow-Origin'', origin), (''Access-Control-Max-Age'', js ''300''), (''Cache-Control'', js ''no-store''),
            (''Content-Length'', js ''0''), (''Vary'', js ''Origin'')], response_bytes = []\<rparr>)))))"

definition wait_for :: "http_request \<Rightarrow> jstring \<Rightarrow> awaiting \<Rightarrow> jstring option \<Rightarrow> server \<Rightarrow> reply \<times> server" where
  "wait_for request peer a cors s = (Wait \<lparr>awaiting = a, waiting_peer = peer, waiting_origin = origin_header request,
     waiting_cors = cors, waiting_body = request_body request\<rparr>, s)"

definition begin_cancel :: "server_config \<Rightarrow> clocks \<Rightarrow> http_request \<Rightarrow> jstring \<Rightarrow> jstring \<Rightarrow> server \<Rightarrow> reply \<times> server" where
  \<comment> \<open>the limit of the binding is charged before the body is read, for the transaction's own origin\<close>
  "begin_cancel cfg now request peer i s = (let origin = origin_header request in
     case store_peek i (srv_table s) of
       Some r \<Rightarrow>
         if origin = Some (request_origin r)
         then (case charge cfg origin [js ''cancel'', js ''peer'', peer, request_origin r, client_id r] (second_tick now) (binding_maximum cfg) s of
             (Inl (e, cors), s') \<Rightarrow> (Answer (error_response e cors), s')
           | (Inr _, s') \<Rightarrow> wait_for request peer (Await_Cancel i) origin s')
         else wait_for request peer (Await_Cancel i) None s
     | None \<Rightarrow> wait_for request peer (Await_Cancel i) None s)"

definition dispatch :: "server_config \<Rightarrow> clocks \<Rightarrow> http_request \<Rightarrow> request_target \<Rightarrow> jstring \<Rightarrow> server \<Rightarrow> reply \<times> server" where
  \<comment> \<open>by method and path; a route that reads a body waits for it\<close>
  "dispatch cfg now request target peer s = (let
       path = pathname target; origin = origin_header request;
       by_method = (\<lambda>m. request_method request = Some (js m));
       over = (\<lambda>m. apfst Answer (answering m s)) in
     if unclean target then over (attempt None (Inl (relay_error ''notFound'')))
     else if by_method ''GET'' \<and> path = js ''/healthz''
     then over (attempt None (write_json 200 (jobj [(js ''schemaVersion'', jint 1), (js ''status'', jlit ''ok'')]) None))
     else if by_method ''GET'' \<and> TRANSACTION_PATH path \<noteq> None then over (get_transaction now (the (TRANSACTION_PATH path)))
     else if by_method ''OPTIONS'' \<and> is_post_route path then over (answer_options cfg request path)
     else if by_method ''POST'' \<and> path = TRANSACTIONS then wait_for request peer Await_Create None s
     else if by_method ''POST'' \<and> RESULT_PATH path \<noteq> None
     then (let i = the (RESULT_PATH path); transaction = store_peek i (srv_table s) in
       wait_for request peer (Await_Result i transaction)
         (if map_option request_origin transaction = origin then origin else None) s)
     else if by_method ''POST'' \<and> CANCEL_PATH path \<noteq> None
     then begin_cancel cfg now request peer (the (CANCEL_PATH path)) s
     else if by_method ''POST'' \<and> path = REDEEM then wait_for request peer Await_Redeem None s
     else over (attempt None (Inl (relay_error ''notFound''))))"

definition begin_request :: "server_config \<Rightarrow> clocks \<Rightarrow> http_request \<Rightarrow> server \<Rightarrow> reply \<times> server" where
  "begin_request cfg now request s = (case preflight cfg now request s of
       (Inl (e, cors), s') \<Rightarrow> (Answer (error_response e cors), s')
     | (Inr (target, peer), s') \<Rightarrow> dispatch cfg now request target peer s')"

subsection \<open>After the body\<close>

definition create_transaction :: "server_config \<Rightarrow> clocks \<Rightarrow> waiting \<Rightarrow> jval result \<Rightarrow> http_response act" where
  "create_transaction cfg now w body =
     abind (attempt None (rbind body (\<lambda>v. exact_object v [''clientId'', ''codeChallenge'', ''codeChallengeMethod'', ''operation'',
        ''request'', ''schemaVersion'', ''state'', ''transactionId'']))) (\<lambda>body.
     abind (attempt None (ensure (strict_eq (fld body ''schemaVersion'') (jint 1)
        \<and> fld body ''codeChallengeMethod'' = jlit ''S256'') malformed)) (\<lambda>_.
     abind (attempt None (require_lower_hex64 (fld body ''transactionId''))) (\<lambda>i.
     abind (attempt None (require_lower_hex64 (fld body ''state''))) (\<lambda>tx_state.
     abind (attempt None (require_base64url32 (fld body ''codeChallenge''))) (\<lambda>challenge.
     abind (attempt None (service_resolve (cfg_registry cfg) (fld body ''clientId'')
        (case waiting_origin w of None \<Rightarrow> JUndefined | Some g \<Rightarrow> JStr g) (fld body ''operation''))) (\<lambda>binding.
     abind (attempt None (case parser_named (request_parsers (cfg_wire cfg)) (rb_operation binding) of
          None \<Rightarrow> Inl (relay_error ''unregistered'') | Some parser \<Rightarrow> parse_with parser (fld body ''request''))) (\<lambda>request.
     let cors = Some (rb_request_origin binding) in
     abind (charge cfg cors [js ''register'', js ''peer'', waiting_peer w, rb_request_origin binding, rb_client_id binding]
        (second_tick now) (binding_maximum cfg)) (\<lambda>_.
     let expires = wall_clock now + min (rb_max_lifetime_seconds binding) 300 * 1000 in
     abind (attempt cors (jcs request)) (\<lambda>request_text.
     abind (attempt cors (entropy (random_32 now) encode_base64url)) (\<lambda>token.
     abind (on_store cors (store_create (cfg_max_rows cfg) \<lparr>ci_binding = binding, ci_code_challenge = challenge,
        ci_created_at_ms = wall_clock now, ci_expires_at_ms = expires, ci_request_json = request_text,
        ci_request_sha256 = service_sha256_hex (cfg_digest cfg) request_text, ci_result_token = token,
        ci_state = tx_state, ci_transaction_id = i\<rparr>)) (\<lambda>created.
     abind (schedule_expiry expires) (\<lambda>_.
     abind (attempt cors (iso_instant (expires_at_ms created))) (\<lambda>instant.
     attempt cors (write_json 201 (jobj [(js ''expiresAt'', JStr instant), (js ''schemaVersion'', jint 1),
        (js ''transactionId'', JStr (transaction_id created))]) cors))))))))))))))"

definition post_result :: "server_config \<Rightarrow> clocks \<Rightarrow> waiting \<Rightarrow> jstring \<Rightarrow> stored_transaction option \<Rightarrow> jval result \<Rightarrow> http_response act" where
  \<comment> \<open>the row is the one seen before the body was read\<close>
  "post_result cfg now w i transaction body = (let cors = waiting_cors w in
     abind (attempt cors (rbind body (\<lambda>v. exact_object v [''result'', ''resultToken'', ''schemaVersion'', ''transactionId'']))) (\<lambda>body.
     abind (attempt cors (ensure (strict_eq (fld body ''schemaVersion'') (jint 1)) malformed)) (\<lambda>_.
     abind (attempt cors (require_lower_hex64 (fld body ''transactionId''))) (\<lambda>body_id.
     abind (attempt cors (ensure (body_id = i) (relay_error ''invalidBinding''))) (\<lambda>_.
     abind (attempt cors (require_base64url32 (fld body ''resultToken''))) (\<lambda>token.
     case transaction of
       None \<Rightarrow> attempt cors (Inl (relay_error ''notFound''))
     | Some r \<Rightarrow>
         abind (attempt cors (case parser_named (result_parsers (cfg_wire cfg)) (tx_operation r) of
              None \<Rightarrow> Inl (relay_error ''unregistered'') | Some parser \<Rightarrow> parse_with parser (fld body ''result''))) (\<lambda>result.
         abind (charge cfg cors [js ''result'', js ''peer'', waiting_peer w, request_origin r, client_id r]
            (second_tick now) (binding_maximum cfg)) (\<lambda>_.
         abind (attempt cors (jcs result)) (\<lambda>result_text.
         abind (on_store cors (store_complete \<lparr>co_code = entropy (random_32 now) bytes_hex, co_now_ms = wall_clock now,
            co_result_json = result_text, co_result_sha256 = service_sha256_hex (cfg_digest cfg) result_text,
            co_result_token = token, co_transaction_id = i\<rparr>)) (\<lambda>completed.
         abind (attempt cors (case authorization_code completed of
              None \<Rightarrow> Inl (relay_error ''internal'') | Some code \<Rightarrow> if code = [] then Inl (relay_error ''internal'') else Inr code)) (\<lambda>code.
         abind (attempt cors (encode_uri_component code)) (\<lambda>code_part.
         abind (attempt cors (encode_uri_component (tx_state completed))) (\<lambda>state_part.
         attempt cors (write_json 201 (jobj [(js ''redirectUri'', JStr (callback_uri completed @ js ''#code='' @ code_part @ js ''&state='' @ state_part)),
            (js ''schemaVersion'', jint 1), (js ''transactionId'', JStr (transaction_id completed))]) cors))))))))))))))"

definition known_origin :: "server_config \<Rightarrow> jstring option \<Rightarrow> jstring result" where
  \<comment> \<open>\<open>!origin || !registry.hasOrigin(origin)\<close>\<close>
  "known_origin cfg origin = (case origin of
       None \<Rightarrow> Inl (relay_error ''unregistered'')
     | Some g \<Rightarrow> if g \<noteq> [] \<and> has_origin (cfg_registry cfg) (JStr g) then Inr g else Inl (relay_error ''unregistered''))"

definition cancel_transaction :: "server_config \<Rightarrow> clocks \<Rightarrow> waiting \<Rightarrow> jstring \<Rightarrow> jval result \<Rightarrow> http_response act" where
  "cancel_transaction cfg now w i body = (let cors = waiting_cors w in
     abind (attempt cors (rbind body (\<lambda>v. exact_object v [''codeVerifier'', ''schemaVersion'', ''state'', ''transactionId'']))) (\<lambda>body.
     abind (attempt cors (ensure (strict_eq (fld body ''schemaVersion'') (jint 1)) malformed)) (\<lambda>_.
     abind (attempt cors (require_lower_hex64 (fld body ''transactionId''))) (\<lambda>body_id.
     abind (attempt cors (require_lower_hex64 (fld body ''state''))) (\<lambda>tx_state.
     abind (attempt cors (require_base64url32 (fld body ''codeVerifier''))) (\<lambda>verifier.
     abind (attempt cors (known_origin cfg (waiting_origin w))) (\<lambda>origin.
     abind (on_store cors (store_cancel \<lparr>ca_body_transaction_id = body_id,
        ca_code_challenge = sha256_base64url_ascii (cfg_digest cfg) verifier, ca_now_ms = wall_clock now,
        ca_path_transaction_id = i, ca_request_origin = origin, ca_state = tx_state\<rparr>)) (\<lambda>_.
     attempt cors (Inr (write_empty cors))))))))))"

definition redeem_code :: "server_config \<Rightarrow> clocks \<Rightarrow> waiting \<Rightarrow> jval result \<Rightarrow> http_response act" where
  "redeem_code cfg now w body =
     abind (attempt None (rbind body (\<lambda>v. exact_object v [''code'', ''codeVerifier'', ''schemaVersion'', ''state'', ''transactionId'']))) (\<lambda>body.
     abind (attempt None (ensure (strict_eq (fld body ''schemaVersion'') (jint 1)) malformed)) (\<lambda>_.
     abind (attempt None (require_lower_hex64 (fld body ''code''))) (\<lambda>code.
     abind (attempt None (require_base64url32 (fld body ''codeVerifier''))) (\<lambda>verifier.
     abind (attempt None (require_lower_hex64 (fld body ''state''))) (\<lambda>tx_state.
     abind (attempt None (require_lower_hex64 (fld body ''transactionId''))) (\<lambda>i.
     abind (attempt None (known_origin cfg (waiting_origin w))) (\<lambda>origin.
     abind (peek i) (\<lambda>transaction.
     let own = (case transaction of Some r \<Rightarrow> request_origin r = origin | None \<Rightarrow> False);
         cors = (if own then Some origin else None) in
     abind (if own then charge cfg cors [js ''redeem'', js ''peer'', waiting_peer w, origin, client_id (the transaction)]
          (second_tick now) (binding_maximum cfg) else attempt None (Inr ())) (\<lambda>_.
     abind (on_store cors (store_redeem \<lparr>re_code = code, re_code_challenge = sha256_base64url_ascii (cfg_digest cfg) verifier,
        re_now_ms = wall_clock now, re_request_origin = origin, re_state = tx_state, re_transaction_id = i\<rparr>)) (\<lambda>(result, redeemed).
     abind (attempt cors (json_parse result)) (\<lambda>parsed.
     attempt cors (write_json 200 (jobj [(js ''result'', parsed), (js ''schemaVersion'', jint 1),
        (js ''transactionId'', JStr (transaction_id redeemed))]) cors))))))))))))"

fun body_limit :: "awaiting \<Rightarrow> nat" where
  "body_limit Await_Create = 32 * 1024"
| "body_limit (Await_Result i r) = 64 * 1024"
| "body_limit (Await_Cancel i) = 2 * 1024"
| "body_limit Await_Redeem = 2 * 1024"

definition finish_request :: "server_config \<Rightarrow> clocks \<Rightarrow> waiting \<Rightarrow> server \<Rightarrow> (http_response \<times> server) option" where
  \<comment> \<open>\<open>None\<close>: the body is not there yet\<close>
  "finish_request cfg now w s = map_option (\<lambda>body. answering (case awaiting w of
       Await_Create \<Rightarrow> create_transaction cfg now w body
     | Await_Result i r \<Rightarrow> post_result cfg now w i r body
     | Await_Cancel i \<Rightarrow> cancel_transaction cfg now w i body
     | Await_Redeem \<Rightarrow> redeem_code cfg now w body) s) (read_json_body (waiting_body w) (body_limit (awaiting w)))"

definition timer_fires :: "int \<Rightarrow> int \<Rightarrow> server \<Rightarrow> server" where
  \<comment> \<open>the callback stands for its deadline even if the wall clock went back\<close>
  "timer_fires deadline now s = s\<lparr>timers := remove1 deadline (timers s), srv_table := store_expire (max now deadline) (srv_table s)\<rparr>"

subsection \<open>Runs\<close>

text \<open>
  What a server may have done: requests arrive in any order, waiting handlers resume in any order,
  timers fire and the process restarts. The log holds the answers, each with the origin that asked.
\<close>

inductive server_run :: "server_config \<Rightarrow> server \<Rightarrow> waiting list \<Rightarrow> (jstring option \<times> http_response) list \<Rightarrow> bool" for cfg where
  started: "server_run cfg \<lparr>srv_table = [], srv_buckets = [], timers = []\<rparr> [] []"
| answered: "server_run cfg s ws sent \<Longrightarrow> begin_request cfg now request s = (Answer r, s') \<Longrightarrow>
     server_run cfg s' ws (sent @ [(origin_header request, r)])"
| waits: "server_run cfg s ws sent \<Longrightarrow> begin_request cfg now request s = (Wait w, s') \<Longrightarrow> server_run cfg s' (w # ws) sent"
| resumed: "server_run cfg s ws sent \<Longrightarrow> w \<in> set ws \<Longrightarrow> finish_request cfg now w s = Some (r, s') \<Longrightarrow>
     server_run cfg s' (remove1 w ws) (sent @ [(waiting_origin w, r)])"
| timed: "server_run cfg s ws sent \<Longrightarrow> d \<in> set (timers s) \<Longrightarrow> server_run cfg (timer_fires d now s) ws sent"
| restarted: "server_run cfg s ws sent \<Longrightarrow> server_run cfg \<lparr>srv_table = [], srv_buckets = [], timers = []\<rparr> [] sent"

end
