(* ===== verification/OperationsExecuteFacts.thy ===== *)
theory OperationsExecuteFacts
  imports OperationsExecute ConsentMemory RelayServer
begin

section \<open>What an executed operation returns\<close>

text \<open>
  The lemmas on \<open>executeWalletOperation\<close>: what the native module returned has passed the operation's
  result builder, and a signed publication has passed every check around its provider's challenge.
\<close>

subsection \<open>Records of the execution\<close>

lemma encode_base64url_wf [simp]: "js_wf (encode_base64url bs)"
  using BASE64URL_encode [of bs] by (auto simp: BASE64URL_def js_wf_def list_all_iff is_base64url_def)

lemma bytes_hex_wf [simp]: "js_wf (bytes_hex bs)"
  by (rule lower_hex_wf [OF bytes_hex_lower])

lemma opened_result_wf: "jval_wf (opened_result reply)"
proof -
  have "jval_wf (opened_entry f)" for f
    by (cases f) (auto simp: opened_entry_def intro!: jval_wf_jobj)
  then have "jval_wf (jarr (map opened_entry fs))" for fs by (intro jval_wf_jarr) (simp add: list_all_iff)
  then show ?thesis unfolding opened_result_def by (intro jval_wf_jobj) auto
qed

lemma connected_result_wf: "jval_wf t \<Longrightarrow> is_object_record t \<Longrightarrow> jval_wf identity \<Longrightarrow> jval_wf (connected_result t identity)"
  unfolding connected_result_def by (intro jval_wf_jobj) (auto intro: jval_wf_fld)

lemma lookup_operation_row:
  "lookup_operation H (jlit name) = Inr (Some x) \<Longrightarrow> handling x \<noteq> Inherited \<Longrightarrow> map_of (OPERATIONS H) name = Some x"
  by (auto simp: lookup_operation_def jlit_def operation_named_def map_of_js inherited_operation_def split: option.splits if_splits)

lemmas build_result_defs = build_sdn_publish_result_def build_sdn_login_v1_result_def build_sdn_login_v2_result_def
  build_activation_result_def build_decision_result_def build_wallet_account_result_def build_wallet_connect_result_def
  build_field_open_result_def build_key_unwrap_result_def parse_sdn_publish_result_def parse_sdn_login_v1_result_def
  parse_sdn_login_v2_result_def parse_activation_result_def parse_decision_result_def parse_wallet_account_result_def
  parse_wallet_connect_result_def parse_field_open_result_def parse_key_unwrap_result_def

lemma sdn_publish_result_idem: "validate_sdn_publish_result v = Inr r \<Longrightarrow> validate_sdn_publish_result r = Inr r"
  using sdn_publish_result_normal by (auto simp: normal_result_def)

lemma row_results_normal:
  assumes "map_of (OPERATIONS H) name = Some x" "build_result x w = Inr r" "jval_wf w \<or> handling x = Publishes"
  obtains p where "map_of (result_parsers H) name = Some p" "p r = Inr r"
proof -
  have "\<exists>p. map_of (result_parsers H) name = Some p \<and> p r = Inr r"
    using assms by (auto simp: OPERATIONS_def result_parsers_def build_result_defs split: if_splits
        dest: raw_signature.idem canonical_signature.idem connection_result.idem field_result.idem sdn_publish_result_idem)
  then show thesis using that by blast
qed

subsection \<open>The native module\<close>

definition native_sound :: "native_wallet \<Rightarrow> bool" where
  \<comment> \<open>what the native module returns is a value of the runtime\<close>
  "native_sound W \<longleftrightarrow> (\<forall>s handle v row w. sign_native W s handle v row = Inr w \<longrightarrow> jval_wf w)"

lemma only_operation_errors_Inr [simp]: "only_operation_errors m = Inr r \<longleftrightarrow> m = Inr r"
  by (auto simp: only_operation_errors_def split: sum.splits js_error.splits)

lemma open_sealed_Inr:
  "open_sealed W handle v binding x bind = Inr r \<Longrightarrow> \<exists>reply. build_result x (opened_result reply) = Inr r"
proof -
  assume a: "open_sealed W handle v binding x bind = Inr r"
  then obtain f fields where "open_sealed_fields W = Some f" "bind v binding = Inr fields"
    by (auto simp: open_sealed_def rbind_Inr_iff split: option.splits)
  with a show ?thesis
    by (cases "f handle fields (hex_bytes (str_of (fld v ''replyPublicKeyHex''))) (fld binding ''registryRow'')")
      (auto simp: open_sealed_def)
qed

subsection \<open>Publishing\<close>

lemma or_challenge_failed_Inr [simp]: "or_challenge_failed E m = Inr r \<longleftrightarrow> m = Inr r"
  by (auto simp: or_challenge_failed_def rbind_Inr_iff split: sum.splits js_error.splits)

lemma still_valid_Inr:
  "is_ok (still_valid E point transaction challenge) \<longleftrightarrow> assert_current E point = Inr ()
     \<and> is_ok (exact_timestamp (fld transaction ''expiresAt'') []) \<and> time_at E point < instant (fld transaction ''expiresAt'')
     \<and> of_int (time_at E point) < expires_ms challenge"
  by (auto simp: still_valid_def unexpired_def is_ok_iff rbind_Inr_iff operation_timestamp_Inr [where l = "[]"])

lemma fetch_challenge_Inr:
  assumes "fetch_challenge E transaction v key = Some (Inr challenge)"
  obtains a where "ask_provider E (str_of (fld v ''providerOrigin'') @ js ''/api/auth/challenge'') (challenge_request key (time_at E Provider_Asked)) = Some a"
    "provider_ok a" "\<not> provider_redirected a" "check_challenge (time_at E Challenge_Read) challenge = Inr challenge"
    "challenge_answer E (str_of (fld v ''providerOrigin'') @ js ''/api/auth/challenge'') a = Some (Inr challenge)"
proof -
  have c: "check_challenge now v = Inr w \<Longrightarrow> w = v" for now v w
    by (auto simp: check_challenge_def Let_def checks_Inr_iff rbind_Inr_iff split: option.splits)
  let ?url = "str_of (fld v ''providerOrigin'') @ js ''/api/auth/challenge''"
  from assms obtain a where a: "ask_provider E ?url (challenge_request key (time_at E Provider_Asked)) = Some a"
      "challenge_answer E ?url a = Some (Inr challenge)"
    by (auto simp: fetch_challenge_def Let_def split: sum.splits option.splits if_splits)
  moreover from a(2) obtain d where "provider_ok a" "\<not> provider_redirected a" "check_challenge (time_at E Challenge_Read) d = Inr challenge"
    by (auto simp: challenge_answer_def rbind_Inr_iff split: option.splits if_splits)
  moreover note c
  ultimately show thesis using that by metis
qed

lemma url_unit_pad [simp]: "url_unit c = 61 \<longleftrightarrow> c = 61"
  by (auto simp: url_unit_def)

lemma strip_trailing_url: "map url_unit (strip_trailing 61 s) = strip_trailing 61 (map url_unit s)"
proof -
  have "map url_unit (dropWhile ((=) 61) t) = dropWhile ((=) 61) (map url_unit t)" for t
    by (induction t) auto
  then show ?thesis by (simp add: strip_trailing_def rev_map [symmetric])
qed

lemma check_challenge_Inr:
  assumes "check_challenge now challenge = Inr c"
  obtains bytes n where "length bytes = 32" "map url_unit (str_of (fld challenge ''challenge'')) = encode_base64url bytes"
    "expires_ms challenge = of_int (n * 1000)" "now < n * 1000" "n * 1000 \<le> now + 300000"
proof -
  from assms obtain x bytes where x: "fld challenge ''expires_at'' = JNum x" "num_is_safe_integer x"
      "of_int now < expires_ms challenge" "expires_ms challenge - of_int now \<le> 300000"
      "length bytes = 32" "strict_eq (JStr (strip_trailing 61 (btoa bytes))) (fld challenge ''challenge'')"
    by (auto simp: check_challenge_def Let_def checks_Inr_iff rbind_Inr_iff split: option.splits jval.splits)
  define n where "n = \<lfloor>num_real x\<rfloor>"
  have n: "expires_ms challenge = of_int (n * 1000)"
    using safe_integer_floor [OF x(2)] x(1) by (simp add: expires_ms_def n_def num_of_def)
  have "(of_int now :: rat) < of_int (n * 1000)" "(of_int (n * 1000 - now) :: rat) \<le> of_int 300000"
    using x(3,4) n by simp_all
  then have "now < n * 1000" "n * 1000 - now \<le> 300000" by (simp_all only: of_int_less_iff of_int_le_iff)
  moreover have "fld challenge ''challenge'' = JStr (strip_trailing 61 (btoa bytes))"
    using x(6) by (auto simp: strict_eq_def split: jval.splits)
  then have "map url_unit (str_of (fld challenge ''challenge'')) = encode_base64url bytes"
    by (simp add: str_of_def strip_trailing_url encode_base64url_def)
  ultimately show thesis using that x(5) n by auto
qed

lemma publication_steps:
  assumes "sign_publication H W E binding handle identity transaction = Some (Inr r)"
  obtains v key challenge where "parse_sdn_publish_request H (fld transaction ''request'') = Inr v"
    "publication_key W binding identity = Inr key" "fetch_challenge E transaction v key = Some (Inr challenge)"
    "sign_with_challenge W E binding handle transaction v key challenge = Inr r"
  using assms that by (fastforce simp: sign_publication_def rbind_Inr_iff split: sum.splits)

lemma publish_result_fields:
  assumes "build_sdn_publish_result v = Inr r" "is_object_record v" "f \<in> set PUBLISH_RESULT_FIELDS"
  shows "fld r f = fld v f"
proof -
  from assms(1,2) have r: "r = frozen_record (map (\<lambda>f. (f, fld v f)) PUBLISH_RESULT_FIELDS)"
    by (auto simp: build_sdn_publish_result_def validate_sdn_publish_result_def rbind_Inr_iff checks_Inr_iff
        exact_record_Inr read_input_record)
  with assms(3) show ?thesis by (auto simp: PUBLISH_RESULT_FIELDS_def fld_frozen_record)
qed

lemma publish_result_strings:
  assumes "build_sdn_publish_result v = Inr r" "is_object_record v" "f \<in> {''keyId'', ''publicKeyHex''}"
  shows "\<exists>s. fld v f = JStr s"
proof -
  from assms(1,2) have "is_ok (exact_pattern (fld v ''keyId'') KEY_ID ''publication keyId'')"
    "is_ok (exact_pattern (fld v ''publicKeyHex'') LOWER_HEX_32 ''publication publicKeyHex'')"
    by (auto simp: build_sdn_publish_result_def validate_sdn_publish_result_def rbind_Inr_iff checks_Inr_iff
        exact_record_Inr read_input_record)
  with assms(3) show ?thesis by (auto simp: is_ok_exact_pattern)
qed

lemma with_challenge_fields:
  assumes "js ''challengeId'' \<notin> set (own_names v)" "js ''challengeBase64url'' \<notin> set (own_names v)"
  shows "fld (with_challenge v c t) ''challengeId'' = c" "fld (with_challenge v c t) ''challengeBase64url'' = JStr t"
    "is_object_record (with_challenge v c t)"
    "f \<notin> {''challengeId'', ''challengeBase64url''} \<Longrightarrow> fld (with_challenge v c t) f = fld v f"
proof -
  have p: "own_props (with_challenge v c t) = own_props v @ [(js ''challengeId'', jdata c), (js ''challengeBase64url'', jdata (JStr t))]"
    by (simp add: with_challenge_def own_props_def [of "JObj _ _ _"])
  have n: "map_of (own_props v) (js ''challengeId'') = None" "map_of (own_props v) (js ''challengeBase64url'') = None"
    using assms by (auto simp: own_names_def map_of_eq_None_iff)
  show "fld (with_challenge v c t) ''challengeId'' = c" "fld (with_challenge v c t) ''challengeBase64url'' = JStr t"
    using n by (simp_all add: fld_def field_def p map_add_def prop_value_def jdata_def)
  show "is_object_record (with_challenge v c t)" by (simp add: with_challenge_def is_object_record_def)
  show "f \<notin> {''challengeId'', ''challengeBase64url''} \<Longrightarrow> fld (with_challenge v c t) f = fld v f"
    by (auto simp: fld_def field_def p map_add_def split: option.splits)
qed

lemma sign_with_challenge_Inr:
  assumes "sign_with_challenge W E binding handle transaction v key challenge = Inr r" "sign_publish_request W = Some f"
    "map url_unit (str_of (fld challenge ''challenge'')) = t"
  obtains w where "f handle (with_challenge v (fld challenge ''challenge_id'') t) (fld binding ''registryRow'') = Inr w"
    "is_ok (still_valid E Before_Signing transaction challenge)" "is_ok (still_valid E After_Signing transaction challenge)"
    "build_sdn_publish_result r = Inr r"
    "fld r ''challengeId'' = fld challenge ''challenge_id''" "fld r ''challengeBase64url'' = JStr t"
    "fld r ''keyId'' = fld key ''keyId''" "fld r ''publicKeyHex'' = fld key ''publicKeyHex''"
proof -
  from assms obtain w signed where w: "f handle (with_challenge v (fld challenge ''challenge_id'') t) (fld binding ''registryRow'') = Inr w"
      "is_ok (still_valid E Before_Signing transaction challenge)" "is_ok (still_valid E After_Signing transaction challenge)"
      "operation_record w SIGNED_FIELDS ''INVALID_WALLET_RESULT'' = Inr signed"
      "strict_eq (fld signed ''keyId'') (fld key ''keyId'')" "strict_eq (fld signed ''publicKeyHex'') (fld key ''publicKeyHex'')"
      "build_sdn_publish_result (with_challenge signed (fld challenge ''challenge_id'') t) = Inr r"
    unfolding sign_with_challenge_def Let_def checks_Inr_iff rbind_Inr_iff by (auto simp del: ex_simps)
  from w(4) obtain u where u: "exact_fields (\<lambda>_. op_fail ''INVALID_WALLET_RESULT'') w SIGNED_FIELDS [] = Inr u"
      "signed = JObj Null_Prototype (sort_key fst (own_props u)) 0"
    by (auto simp: operation_record_def rbind_Inr_iff)
  moreover have "u = w" using u(1) by (simp add: exact_fields_Inr)
  ultimately have "set (own_names signed) = js ` set SIGNED_FIELDS"
    using exact_fields_names [OF u(1)] by (simp add: own_names_def own_props_def [of "JObj _ _ _"])
  then have n: "js ''challengeId'' \<notin> set (own_names signed)" "js ''challengeBase64url'' \<notin> set (own_names signed)"
    by (auto simp: SIGNED_FIELDS_def)
  note wc = with_challenge_fields [OF n, where c = "fld challenge ''challenge_id''" and t = t]
  note fields = publish_result_fields [OF w(7) wc(3)]
  have r: "build_sdn_publish_result r = Inr r"
    using w(7) sdn_publish_result_idem by (simp add: build_sdn_publish_result_def)
  have k: "\<exists>s. fld signed f = JStr s" if "f \<in> {''keyId'', ''publicKeyHex''}" for f
  proof -
    from that have "f \<notin> {''challengeId'', ''challengeBase64url''}" by auto
    from publish_result_strings [OF w(7) wc(3) that] show ?thesis unfolding wc(4) [OF \<open>f \<notin> _\<close>] .
  qed
  have same: "\<exists>s. u = JStr s \<Longrightarrow> strict_eq u v \<Longrightarrow> u = v" for u v
    by (auto simp: strict_eq_def split: jval.splits)
  have "fld signed ''keyId'' = fld key ''keyId''" by (rule same [OF k w(5)]) simp
  moreover have "fld signed ''publicKeyHex'' = fld key ''publicKeyHex''" by (rule same [OF k w(6)]) simp
  moreover have "fld r ''challengeId'' = fld challenge ''challenge_id''" "fld r ''challengeBase64url'' = JStr t"
    "fld r ''keyId'' = fld signed ''keyId''" "fld r ''publicKeyHex'' = fld signed ''publicKeyHex''"
    by (subst fields, simp add: PUBLISH_RESULT_FIELDS_def, rule wc(1))
      (subst fields, simp add: PUBLISH_RESULT_FIELDS_def, rule wc(2),
       (subst fields, simp add: PUBLISH_RESULT_FIELDS_def, subst wc(4), simp, rule refl)+)
  ultimately show thesis using that [OF w(1-3) r] by simp
qed

subsection \<open>The whole operation\<close>

lemma publishing_row:
  assumes "lookup_operation H v = Inr (Some x)" "handling x = Publishes"
  shows "build_result x = build_sdn_publish_result"
proof -
  obtain name where "operation_named H name = Some x"
    using assms(1) by (auto simp: lookup_operation_def rbind_Inr_iff split: if_splits)
  then have "x \<in> snd ` set (OPERATIONS H) \<or> x = inherited_operation"
    by (force simp: operation_named_def split: option.splits if_splits dest: map_of_SomeD)
  then show ?thesis using assms(2) by (auto simp: OPERATIONS_def inherited_operation_def)
qed

lemma execute_builds:
  assumes "native_sound W" "jval_wf transaction" "is_object_record transaction" "jval_wf identity"
    "execute_wallet_operation H (Some W) E binding handle identity transaction = Some (Inr r)"
  obtains x w where "lookup_operation H (fld transaction ''operation'') = Inr (Some x)" "handling x \<noteq> Inherited"
    "build_result x w = Inr r" "jval_wf w \<or> handling x = Publishes"
proof -
  from assms(5) obtain x where x: "lookup_operation H (fld transaction ''operation'') = Inr (Some x)" "handling x \<noteq> Inherited"
    by (auto simp: execute_wallet_operation_def split: sum.splits option.splits handling.splits)
  show thesis
  proof (cases "handling x")
    case Connects
    then show thesis using that x assms connected_result_wf by (auto simp: execute_wallet_operation_def)
  next
    case (Opens bind)
    then obtain reply where "build_result x (opened_result reply) = Inr r" using assms(5) x open_sealed_Inr
      by (fastforce simp: execute_wallet_operation_def rbind_Inr_iff)
    then show thesis using that x opened_result_wf by blast
  next
    case (Signs s)
    then show thesis using that x assms(1,5) by (auto simp: execute_wallet_operation_def rbind_Inr_iff native_sound_def)
  next
    case Publishes
    then have "sign_publication H W E binding handle identity transaction = Some (Inr r)"
      using assms(5) x by (simp add: execute_wallet_operation_def)
    then obtain v key challenge where p: "publication_key W binding identity = Inr key"
        "sign_with_challenge W E binding handle transaction v key challenge = Inr r"
      by (rule publication_steps)
    then obtain f where "sign_publish_request W = Some f" by (auto simp: publication_key_def Let_def checks_Inr_iff)
    with p(2) have "build_sdn_publish_result r = Inr r" by (rule sign_with_challenge_Inr) (rule refl)
    moreover have "build_result x = build_sdn_publish_result" by (rule publishing_row [OF x(1) Publishes])
    ultimately show thesis using that x Publishes by metis
  qed (use x in simp)
qed

lemma publication_key_Inr:
  assumes "publication_key W binding identity = Inr key"
  shows "authentication_keys identity = Inr [key]" "\<exists>f. sign_publish_request W = Some f"
    "fld binding ''clientId'' = jlit ''spaceaware-web-v1''" "fld binding ''requestOrigin'' = jlit ''https://spaceaware.io''"
    "fld binding ''registryRow'' = jlit ''spaceaware-publish-request-v1''" "fld key ''curve'' = jlit ''ed25519''"
proof -
  obtain keys where keys: "authentication_keys identity = Inr keys"
    using assms by (auto simp: publication_key_def Let_def checks_Inr_iff rbind_Inr_iff)
  then obtain k where k: "keys = [k]" using assms
    by (auto simp: publication_key_def Let_def checks_Inr_iff split: list.split_asm)
  show "authentication_keys identity = Inr [key]" "\<exists>f. sign_publish_request W = Some f"
    "fld binding ''clientId'' = jlit ''spaceaware-web-v1''" "fld binding ''requestOrigin'' = jlit ''https://spaceaware.io''"
    "fld binding ''registryRow'' = jlit ''spaceaware-publish-request-v1''" "fld key ''curve'' = jlit ''ed25519''"
    using assms keys k by (auto simp: publication_key_def Let_def checks_Inr_iff)
qed

end
