(* ===== verification/JsonPlain.thy ===== *)
theory JsonPlain
  imports JsonRoundtrip WireGuards
begin

section \<open>Documents of plain text\<close>

text \<open>
  Strings of printable ASCII without quotes and backslashes are written between quotes as they are,
  and a document made of them is read back by every dialect of the strict reader: the texts the
  program's parts exchange (request bodies, callback records) are of this kind.
\<close>

definition plain_unit :: "code_unit \<Rightarrow> bool" where
  "plain_unit c \<longleftrightarrow> 32 \<le> c \<and> c < 128 \<and> c \<noteq> 34 \<and> c \<noteq> 92"

abbreviation plain :: "jstring \<Rightarrow> bool" where
  "plain s \<equiv> list_all plain_unit s"

lemma quote_plain: "plain s \<Longrightarrow> json_quote s = 34 # s @ [34]"
proof -
  have "plain s \<Longrightarrow> quote_body s = s" for s
    by (induction s rule: quote_body.induct) (auto simp: plain_unit_def quote_unit_def is_high_surrogate_def is_low_surrogate_def)
  then show "plain s \<Longrightarrow> ?thesis" by (simp add: json_quote_def)
qed

lemma plain_ascii: "plain s \<Longrightarrow> is_ascii s" "plain s \<Longrightarrow> js_wf s"
  by (auto simp: list_all_iff plain_unit_def js_wf_def is_ascii_def)

lemma ascii_utf16_ok: "is_ascii s \<Longrightarrow> utf16_ok s"
  by (induction s rule: utf16_ok.induct) (auto dest: ascii_not_surrogate)

lemma ascii_js_wf: "is_ascii s \<Longrightarrow> js_wf s"
  by (auto simp: list_all_iff js_wf_def is_ascii_def)

lemma plain_append [simp]: "plain (s @ t) \<longleftrightarrow> plain s \<and> plain t"
  by simp

lemma plain_lower_hex: "lower_hex n s \<Longrightarrow> plain s"
  by (auto simp: lower_hex_def is_lower_hex_def plain_unit_def list_all_iff)

lemma document_reads:
  assumes "json_readable (dialect_guard d) j" "json_depth j \<le> 33" "json_nodes j \<le> 4096"
  shows "parse_document d (json_text j) = Inr (embed j)"
proof -
  have "parse_value d 33 0 (json_text j @ []) = Inr (embed j, 0 + json_nodes j, [])"
    using reads_document [OF assms(1,2)] assms(3) by (intro reads_textD) simp_all
  moreover have "skip_space (json_text j) = json_text j" using skip_value [OF json_text_start [OF assms(1), of "[]"]] by simp
  ultimately show ?thesis by (simp add: parse_document_def skip_space_def [of "[]"] del: parse_value.simps)
qed

lemma ascii_decodes:
  assumes "is_ascii s"
  shows "text_decode (utf8_encode s) = Some s" "take 3 (utf8_encode s) \<noteq> [0xef, 0xbb, 0xbf]" "\<not> has_bom s"
proof -
  have "take 3 (utf8_encode s) = map byte_of (take 3 s)" by (simp add: utf8_encode_ascii [OF assms] take_map)
  moreover have "\<forall>b\<in>set (map byte_of (take 3 s)). unat b < 128"
    using assms by (fastforce simp: is_ascii_def list_all_iff unat_byte_of dest: in_set_takeD)
  ultimately show b: "take 3 (utf8_encode s) \<noteq> [0xef, 0xbb, 0xbf]" by fastforce
  show "text_decode (utf8_encode s) = Some s"
    by (rule text_decode_encode_scalars [OF ascii_js_wf [OF assms] ascii_utf16_ok [OF assms] b])
  show "\<not> has_bom s" using assms by (cases s) (auto simp: has_bom_def starts_with_def)
qed

end
