(* ===== verification/RelaySamples.thy ===== *)
theory RelaySamples
  imports RelayServer JsonPlain
begin

section \<open>A small relay\<close>

text \<open>
  A relay with one client, and a request body that registers a transaction with it: the concrete runs
  on which the properties of the server are exercised.
\<close>

lemma service_guard_plain: "plain s \<Longrightarrow> dialect_guard service_dialect s"
  using scan_scalars_ascii plain_ascii by (simp add: service_dialect_def validate_scalar_string_def)

lemma decode_document:
  assumes "json_readable (dialect_guard service_dialect) j" "json_depth j \<le> 33" "json_nodes j \<le> 4096" "is_ascii (json_text j)"
  shows "decode_json_body (utf8_encode (json_text j)) = Inr (embed j)"
  using document_reads [OF assms(1-3)] ascii_decodes [OF assms(4)] by (simp add: decode_json_body_def parse_strict_json_def)

subsection \<open>The relay\<close>

definition tiny_client :: registry_client where
  "tiny_client = \<lparr>allowed_operations = [js ''sdn.wallet.connect.v1''], rc_callback_uri = js ''https://g.example/done'',
     rc_display_name = js ''G'', rc_client_id = js ''g-web-v1'', rc_request_origin = js ''https://g.example''\<rparr>"

definition tiny_config :: server_config where
  "tiny_config = \<lparr>cfg_wire = https_host, cfg_addresses = \<lparr>is_ip = (\<lambda>_. 0), address_url = (\<lambda>_. None)\<rparr>,
     cfg_digest = release_digest, cfg_registry = \<lparr>release_sha256 = replicate 64 48, registry_clients = [tiny_client]\<rparr>,
     cfg_max_rows = 4, cfg_limiter = \<lparr>maximum_buckets = 16, window_ms = 1000\<rparr>, coarse_maximum = 10, binding_maximum = 10,
     trust_loopback = False\<rparr>"

abbreviation empty_server :: server where
  "empty_server \<equiv> \<lparr>srv_table = [], srv_buckets = [], timers = []\<rparr>"

definition tiny_clocks :: clocks where
  "tiny_clocks = \<lparr>first_tick = 0, second_tick = 0, wall_clock = 1000, random_32 = Inr (replicate 32 1)\<rparr>"

definition tiny_document :: json where
  "tiny_document = J_Obj
     [(js ''clientId'', J_Str (js ''g-web-v1'')), (js ''codeChallenge'', J_Str (encode_base64url (replicate 32 0))),
      (js ''codeChallengeMethod'', J_Str (js ''S256'')), (js ''operation'', J_Str (js ''sdn.wallet.connect.v1'')),
      (js ''request'', J_Obj []), (js ''schemaVersion'', J_Num (Fin 1)), (js ''state'', J_Str (replicate 64 48)),
      (js ''transactionId'', J_Str (replicate 64 48))]"

definition tiny_request :: "string \<Rightarrow> http_request" where
  "tiny_request verb = \<lparr>request_method = Some (js verb), request_url = Some TRANSACTIONS, remote_address = None, real_ip = None,
     origin_header = Some (js ''https://g.example''), requested_method = Some (js ''POST''),
     request_body = \<lparr>content_type = Some (js ''application/json''), content_length = None,
       body_events = [Body_Part (utf8_encode (json_text tiny_document)), Body_Ends]\<rparr>\<rparr>"

lemma challenge_plain: "plain (encode_base64url (replicate 32 0))"
proof -
  have "plain (encode_base64url bs)" for bs
    using BASE64URL_encode [of bs] by (auto simp: BASE64URL_def list_all_iff plain_unit_def is_base64url_def)
  then show ?thesis .
qed

lemma plain_strings:
  "plain (js ''clientId'')" "plain (js ''g-web-v1'')" "plain (js ''codeChallenge'')"
  "plain (js ''codeChallengeMethod'')" "plain (js ''S256'')" "plain (js ''operation'')"
  "plain (js ''sdn.wallet.connect.v1'')" "plain (js ''request'')" "plain (js ''schemaVersion'')"
  "plain (js ''state'')" "plain (js ''transactionId'')" "plain (replicate n 48)"
  by (simp_all add: plain_unit_def js_def list_all_iff)

lemmas tiny_plain = plain_strings challenge_plain

lemma tiny_text: "is_ascii (json_text tiny_document) \<and> length (json_text tiny_document) \<le> 2000"
  by (simp add: tiny_document_def bracketed_def member_text_def tiny_plain [THEN quote_plain] num_to_string_one
      tiny_plain [THEN plain_ascii(1)])

lemma tiny_body: "read_json_body (request_body (tiny_request verb)) (32 * 1024) = Some (Inr (embed tiny_document))"
proof -
  have "json_readable (dialect_guard service_dialect) tiny_document"
    by (simp add: tiny_document_def tiny_plain [THEN plain_ascii(2)] tiny_plain [THEN service_guard_plain] one_reads_back)
  moreover have "json_depth tiny_document \<le> 33" "json_nodes tiny_document \<le> 4096" by (simp_all add: tiny_document_def)
  ultimately have "decode_json_body (utf8_encode (json_text tiny_document)) = Inr (embed tiny_document)"
    using decode_document tiny_text by blast
  then show ?thesis using tiny_text by (simp add: read_json_body_def tiny_request_def)
qed

subsection \<open>A registration\<close>

definition tiny_waiting :: waiting where
  "tiny_waiting = \<lparr>awaiting = Await_Create, waiting_peer = js ''unknown-peer'', waiting_origin = Some (js ''https://g.example''),
     waiting_cors = None, waiting_body = request_body (tiny_request ''POST'')\<rparr>"

definition tiny_binding :: registry_binding where
  "tiny_binding = \<lparr>rb_callback_uri = js ''https://g.example/done'', rb_display_name = js ''G'', rb_client_id = js ''g-web-v1'',
     rb_max_lifetime_seconds = 300, rb_operation = js ''sdn.wallet.connect.v1'', rb_request_origin = js ''https://g.example'',
     rb_release_sha256 = replicate 64 48\<rparr>"

lemma tiny_target: "parse_request_target (Some TRANSACTIONS) =
    Some \<lparr>has_fragment = False, has_query = False, malformed_suffix = False, pathname = TRANSACTIONS\<rparr>"
  by (simp add: TRANSACTIONS_def js_def parse_request_target_def starts_with_def visible_unit_def)

lemma tiny_routes: "RESULT_PATH TRANSACTIONS = None" "CANCEL_PATH TRANSACTIONS = None" "TRANSACTION_PATH TRANSACTIONS = None"
    "TRANSACTIONS \<noteq> js ''/healthz''"
  by (simp_all add: RESULT_PATH_def CANCEL_PATH_def TRANSACTION_PATH_def id_path_def Let_def starts_with_def TRANSACTIONS_def js_def)

lemma tiny_peer: "peer_address (cfg_addresses tiny_config) t None r = js ''unknown-peer''"
  by (simp add: peer_address_def canonical_ip_address_def)

definition tiny_buckets :: buckets where
  "tiny_buckets = [(join_with 0 [js ''coarse'', js ''transaction-create'', js ''peer'', js ''unknown-peer''], \<lparr>bucket_count = 1, started_at = 0\<rparr>)]"

abbreviation charged_server :: server where
  "charged_server \<equiv> \<lparr>srv_table = [], srv_buckets = tiny_buckets, timers = []\<rparr>"

lemma tiny_preflight:
  assumes "verb = ''POST'' \<or> verb = ''OPTIONS''"
  shows "preflight tiny_config tiny_clocks (tiny_request verb) empty_server =
    (Inr (\<lparr>has_fragment = False, has_query = False, malformed_suffix = False, pathname = TRANSACTIONS\<rparr>, js ''unknown-peer''),
     charged_server)"
proof -
  have r: "rate_route (Some (js verb)) TRANSACTIONS = Some (js ''transaction-create'')"
    using assms by (auto simp: rate_route_def tiny_routes Let_def)
  show ?thesis
    by (simp add: preflight_def tiny_request_def tiny_target r tiny_peer Let_def)
       (simp add: abind_def charge_def take_rate_def attempt_def unclean_def tiny_buckets_def tiny_config_def tiny_clocks_def set_bucket_def)
qed

lemma tiny_begins: "begin_request tiny_config tiny_clocks (tiny_request ''POST'') empty_server =
    (Wait tiny_waiting, charged_server)"
proof -
  have "request_method (tiny_request ''POST'') = Some (js ''POST'')" by (simp add: tiny_request_def)
  then show ?thesis
    by (simp add: begin_request_def tiny_preflight dispatch_def tiny_routes unclean_def wait_for_def Let_def tiny_waiting_def)
       (simp add: tiny_request_def)
qed

lemma tiny_resolves: "service_resolve (cfg_registry tiny_config) (jlit ''g-web-v1'') (jlit ''https://g.example'') (jlit ''sdn.wallet.connect.v1'')
    = Inr tiny_binding"
  by (simp add: service_resolve_def tiny_config_def tiny_client_def tiny_binding_def is_str_def str_of_def jlit_def)

definition tiny_row :: stored_transaction where
  "tiny_row = new_row \<lparr>ci_binding = tiny_binding, ci_code_challenge = encode_base64url (replicate 32 0), ci_created_at_ms = 1000,
     ci_expires_at_ms = 301000, ci_request_json = js ''{}'', ci_request_sha256 = service_sha256_hex release_digest (js ''{}''),
     ci_result_token = encode_base64url (replicate 32 1), ci_state = replicate 64 48, ci_transaction_id = replicate 64 48\<rparr>"

lemma tiny_challenge: "require_base64url32 (JStr (encode_base64url (replicate 32 0))) = Inr (encode_base64url (replicate 32 0))"
proof -
  have "atob (map base64_unit (encode_base64url (replicate 32 0)) @ replicate 1 61) = Some (replicate 32 0)"
    by (rule atob_encode) simp
  moreover have "BASE64URL_32 (encode_base64url (replicate 32 0))"
    using BASE64URL_encode [of "replicate 32 0"]
    by (auto simp: BASE64URL_32_def BASE64URL_def list_all_iff is_base64url_def is_base64url_char_def)
  ultimately show ?thesis by (simp add: require_base64url32_def is_base64url32_def is_str_def str_of_def)
qed

lemma tiny_fields:
  "fld (embed tiny_document) ''clientId'' = jlit ''g-web-v1''"
  "fld (embed tiny_document) ''codeChallenge'' = JStr (encode_base64url (replicate 32 0))"
  "fld (embed tiny_document) ''codeChallengeMethod'' = jlit ''S256''"
  "fld (embed tiny_document) ''operation'' = jlit ''sdn.wallet.connect.v1''"
  "fld (embed tiny_document) ''request'' = jnull_obj []"
  "fld (embed tiny_document) ''schemaVersion'' = jint 1"
  "fld (embed tiny_document) ''state'' = JStr (replicate 64 48)"
  "fld (embed tiny_document) ''transactionId'' = JStr (replicate 64 48)"
  by (simp_all add: tiny_document_def fld_def field_def jnull_obj_def own_props_def jdata_def prop_value_def jlit_def jint_def)

lemma tiny_exact: "exact_object (embed tiny_document) [''clientId'', ''codeChallenge'', ''codeChallengeMethod'', ''operation'',
    ''request'', ''schemaVersion'', ''state'', ''transactionId''] = Inr (embed tiny_document)"
  unfolding exact_object_def exact_fields_Inr
  by (simp add: tiny_document_def jnull_obj_def own_props_def own_names_def own_symbols_def jdata_def is_plain_data_def
      is_object_record_def)

lemma tiny_created: "store_create 4 \<lparr>ci_binding = tiny_binding, ci_code_challenge = encode_base64url (replicate 32 0), ci_created_at_ms = 1000,
     ci_expires_at_ms = 301000, ci_request_json = js ''{}'', ci_request_sha256 = service_sha256_hex release_digest (js ''{}''),
     ci_result_token = encode_base64url (replicate 32 1), ci_state = replicate 64 48, ci_transaction_id = replicate 64 48\<rparr> []
     = (Inr (Ok tiny_row), [tiny_row])"
  unfolding tiny_row_def
  by (simp add: store_create_def immediate_def expire_all_def raw_def make_room_def constraints_def ensure_def no_clash_def
      map_filter_simps new_row_def)

lemma abind_attempt: "abind (attempt c (Inr x)) f s = f x s"
  by (simp add: abind_def attempt_def)

lemma tiny_charge: "\<exists>t. charge tiny_config c parts (second_tick tiny_clocks) (binding_maximum tiny_config) charged_server
    = (Inr (), t) \<and> srv_table t = []"
  by (simp add: charge_def take_rate_def tiny_config_def tiny_clocks_def tiny_buckets_def attempt_def current_def)

lemma tiny_finishes:
  "\<exists>r s. finish_request tiny_config tiny_clocks tiny_waiting charged_server = Some (r, s)
     \<and> srv_table s = [tiny_row]"
proof -
  have b: "read_json_body (waiting_body tiny_waiting) (32 * 1024) = Some (Inr (embed tiny_document))"
    using tiny_body by (simp add: tiny_waiting_def)
  have h: "require_lower_hex64 (JStr (replicate 64 48)) = Inr (replicate 64 48)"
    by (simp add: require_lower_hex64_def is_lower_hex64_def is_str_def str_of_def)
  have p: "parser_named (request_parsers (cfg_wire tiny_config)) (rb_operation tiny_binding) = Some parse_wallet_connect_request"
    by (simp add: parser_named_def request_parsers_def tiny_binding_def)
  have q: "parse_with parse_wallet_connect_request (jnull_obj []) = Inr (jobj [])"
    by (simp add: parse_with_def from_catch_def parse_wallet_connect_request_def build_empty_request_def exact_record_def read_input_def
        jnull_obj_def is_object_record_def own_symbols_def own_names_def own_props_def byte_equal_iff sort_names_def)
  have j: "jcs (jobj []) = Inr (js ''{}'')" by (simp add: jcs_def jobj_def bracketed_def js_def)
  have e: "entropy (random_32 tiny_clocks) encode_base64url = Inr (encode_base64url (replicate 32 1))"
    by (simp add: entropy_def tiny_clocks_def)
  have w: "waiting_origin tiny_waiting = Some (js ''https://g.example'')" by (simp add: tiny_waiting_def)
  let ?s = "charged_server"
  let ?parts = "[js ''register'', js ''peer'', waiting_peer tiny_waiting, rb_request_origin tiny_binding, rb_client_id tiny_binding]"
  obtain t where t: "charge tiny_config (Some (rb_request_origin tiny_binding)) ?parts (second_tick tiny_clocks) (binding_maximum tiny_config) ?s
      = (Inr (), t)" "srv_table t = []"
    using tiny_charge by blast
  have charged: "abind (charge tiny_config (Some (rb_request_origin tiny_binding)) ?parts (second_tick tiny_clocks) (binding_maximum tiny_config)) f ?s
      = f () t" for f :: "unit \<Rightarrow> http_response act"
    using t(1) by (simp add: abind_def)
  have m: "rb_max_lifetime_seconds tiny_binding = 300" "wall_clock tiny_clocks = 1000" "cfg_max_rows tiny_config = 4" "cfg_digest tiny_config = release_digest"
    by (simp_all add: tiny_binding_def tiny_clocks_def tiny_config_def)
  have last: "srv_table (snd (abind (schedule_expiry d) (\<lambda>_. abind (attempt o1 a) (\<lambda>x. attempt o2 (g x))) u)) = srv_table u"
    for d o1 o2 g u and a :: "jstring result"
    by (cases a) (simp_all add: abind_def schedule_expiry_def attempt_def)
  have stored: "abind (on_store o1 f) g u = g y (u\<lparr>srv_table := rows\<rparr>)" if "f (srv_table u) = (Inr (Ok y), rows)"
    for o1 f g u rows and y :: stored_transaction
    using that by (simp add: abind_def on_store_def attempt_def)
  have c: "srv_table (snd (create_transaction tiny_config tiny_clocks tiny_waiting (Inr (embed tiny_document)) ?s)) = [tiny_row]"
    unfolding create_transaction_def
    by (simp add: tiny_exact abind_attempt tiny_fields h tiny_challenge w tiny_resolves [unfolded jlit_def] jlit_def p q j e charged m Let_def
        stored tiny_created t(2) last)
  have "finish_request tiny_config tiny_clocks tiny_waiting charged_server
      = Some (answering (create_transaction tiny_config tiny_clocks tiny_waiting (Inr (embed tiny_document))) charged_server)"
    using b by (simp add: finish_request_def) (simp add: tiny_waiting_def)
  moreover have "srv_table (snd (answering m u)) = srv_table (snd (m u))" for m u
    by (cases "m u"; cases "fst (m u)") (auto simp: answering_def)
  ultimately show ?thesis using c by (metis prod.collapse)
qed

lemma tiny_run: "\<exists>s sent. server_run tiny_config s [] sent \<and> srv_table s = [tiny_row]"
proof -
  have w: "server_run tiny_config charged_server [tiny_waiting] []" by (rule waits [OF started tiny_begins])
  obtain r s where "finish_request tiny_config tiny_clocks tiny_waiting charged_server = Some (r, s)" "srv_table s = [tiny_row]"
    using tiny_finishes by blast
  with resumed [OF w _ this(1)] show ?thesis by auto
qed

subsection \<open>A preflight request\<close>

lemma tiny_options: "\<exists>s r. server_run tiny_config s [] [(Some (js ''https://g.example''), r)]
    \<and> (''Access-Control-Allow-Origin'', js ''https://g.example'') \<in> set (response_headers r)"
proof -
  have o: "origin_header (tiny_request ''OPTIONS'') = Some (js ''https://g.example'')" "request_method (tiny_request ''OPTIONS'') = Some (js ''OPTIONS'')"
    "requested_method (tiny_request ''OPTIONS'') = Some (js ''POST'')" by (simp_all add: tiny_request_def)
  have "has_origin (cfg_registry tiny_config) (jlit ''https://g.example'')"
    by (simp add: has_origin_def tiny_config_def tiny_client_def jlit_def is_str_def str_of_def)
  then obtain r s where "begin_request tiny_config tiny_clocks (tiny_request ''OPTIONS'') empty_server = (Answer r, s)"
      "(''Access-Control-Allow-Origin'', js ''https://g.example'') \<in> set (response_headers r)"
    by (simp add: begin_request_def tiny_preflight dispatch_def tiny_routes unclean_def Let_def o is_post_route_def answer_options_def
        abind_attempt answering_def jlit_def) (simp add: attempt_def)
  with answered [OF started this(1)] o show ?thesis by auto
qed

end
