(* ===== verification/PublicationSample.thy ===== *)
theory PublicationSample
  imports OperationsExecuteFacts RelaySamples
begin

section \<open>A publication that is signed\<close>

text \<open>
  A concrete run of \<open>sign_publication\<close>: a transaction of the reviewed client, an identity with one
  authentication key, a provider whose challenge is 32 zero bytes, and a native module that signs.
\<close>

definition sample_provider :: jstring where
  "sample_provider = js ''https://g.example''"

definition sample_publication :: jval where
  "sample_publication = frozen_record
     [(''protocolVersion'', jint 1), (''providerOrigin'', JStr sample_provider), (''method'', jlit ''POST''),
      (''requestUri'', JStr (js ''/api/v1/data/publish/'' @ js ''CZM'')), (''bodySha256'', JStr (replicate 64 48)),
      (''bodyBytes'', jint 1), (''schema'', jlit ''CZM''), (''entityId'', jlit ''g''), (''entityName'', jlit ''g''),
      (''documentCount'', jint 1)]"

definition sample_key_id :: jstring where
  "sample_key_id = js ''sha256:'' @ replicate 64 48"

definition sample_key :: jval where
  "sample_key = jobj
     [(js ''purpose'', jlit ''sdn-authentication''), (js ''identityScheme'', jlit ''sdn-bip32-slip10-purpose-v1''),
      (js ''seedProfile'', jlit ''password-scrypt-v2''), (js ''curve'', jlit ''ed25519''),
      (js ''publicKeyHex'', JStr (replicate 64 48)), (js ''keyId'', JStr sample_key_id)]"

definition sample_identity :: jval where
  "sample_identity = jobj
     [(js ''identityScheme'', jlit ''sdn-bip32-slip10-purpose-v1''), (js ''seedProfile'', jlit ''password-scrypt-v2''),
      (js ''keys'', jarr [sample_key])]"

definition sample_binding :: jval where
  "sample_binding = jobj
     [(js ''clientId'', jlit ''spaceaware-web-v1''), (js ''requestOrigin'', jlit ''https://spaceaware.io''),
      (js ''registryRow'', jlit ''spaceaware-publish-request-v1'')]"

definition sample_transaction :: jval where
  "sample_transaction = jobj
     [(js ''operation'', jlit ''sdn.auth.publish-request.v1''), (js ''expiresAt'', JStr (to_iso_string 1700000300000)),
      (js ''request'', sample_publication)]"

definition sample_challenge :: json where
  "sample_challenge = J_Obj
     [(js ''challenge'', J_Str (replicate 43 65)), (js ''challenge_id'', J_Str (replicate 32 48)), (js ''expires_at'', J_Num (Fin 1))]"

definition sample_signed :: jval where
  "sample_signed = jobj
     [(js ''schemaVersion'', jint 1), (js ''keyId'', JStr sample_key_id), (js ''identityScheme'', jlit IDENTITY_SCHEME),
      (js ''algorithm'', jlit ''ed25519''), (js ''encoding'', jlit ''raw''), (js ''signatureProfile'', jlit PUBLISH_SIGNATURE_PROFILE),
      (js ''publicKeyHex'', JStr (replicate 64 48)), (js ''signatureHex'', JStr (replicate 128 48)),
      (js ''requestDigestSha256'', JStr (replicate 64 48))]"

definition sample_wallet :: native_wallet where
  "sample_wallet = \<lparr>open_sealed_fields = None, sign_native = (\<lambda>s handle v row. Inl (Type_Error [])),
     sign_publish_request = Some (\<lambda>handle v row. Inr sample_signed)\<rparr>"

definition sample_execution :: execution where
  "sample_execution = \<lparr>assert_current = (\<lambda>_. Inr ()), time_at = (\<lambda>_. 0),
     ask_provider = (\<lambda>url body. Some \<lparr>provider_ok = True, provider_redirected = False, provider_url = [],
       provider_reads = Some [Challenge_Bytes (utf8_encode (json_text sample_challenge)), Challenge_Done]\<rparr>)\<rparr>"

lemma hex_zeros: "lower_hex n (replicate n 48)" "is_ascii (replicate n 48)"
  by (auto simp: lower_hex_def is_lower_hex_def list_all_iff is_ascii_def)

lemma sample_ids: "KEY_ID sample_key_id" "SHA256_KEY_ID sample_key_id" "is_ascii sample_key_id"
  by (simp_all add: sample_key_id_def KEY_ID_def SHA256_KEY_ID_def LOWER_HEX_32_def starts_with_def js_def hex_zeros)

lemma sample_key_found: "publication_key sample_wallet sample_binding sample_identity = Inr sample_key"
proof -
  have f: "fld sample_binding ''clientId'' = jlit ''spaceaware-web-v1''" "fld sample_binding ''requestOrigin'' = jlit ''https://spaceaware.io''"
    "fld sample_binding ''registryRow'' = jlit ''spaceaware-publish-request-v1''"
    "fld sample_identity ''identityScheme'' = jlit ''sdn-bip32-slip10-purpose-v1''" "fld sample_identity ''seedProfile'' = jlit ''password-scrypt-v2''"
    "fld sample_identity ''keys'' = jarr [sample_key]" "fld sample_key ''purpose'' = jlit ''sdn-authentication''"
    "fld sample_key ''identityScheme'' = jlit ''sdn-bip32-slip10-purpose-v1''" "fld sample_key ''seedProfile'' = jlit ''password-scrypt-v2''"
    "fld sample_key ''curve'' = jlit ''ed25519''" "fld sample_key ''publicKeyHex'' = JStr (replicate 64 48)"
    "fld sample_key ''keyId'' = JStr sample_key_id"
    by (simp_all add: sample_binding_def sample_identity_def sample_key_def fld_def field_jobj)
  have k: "authentication_keys sample_identity = Inr [sample_key]"
    by (simp add: authentication_keys_def f jarr_def jdata_def prop_value_def List.map_filter_simps)
  show ?thesis
    by (simp add: publication_key_def f k checks_all_ok sample_wallet_def sample_ids LOWER_HEX_32_def hex_zeros)
qed

lemma sample_publication_parses: "parse_sdn_publish_request https_host sample_publication = Inr sample_publication"
proof -
  have e: "exact_record sample_publication PUBLISH_REQUEST_FIELDS l = Inr sample_publication" for l
    unfolding sample_publication_def by (rule record_shape_exact) (simp add: record_shape_def PUBLISH_REQUEST_FIELDS_def)
  have f: "fld sample_publication ''protocolVersion'' = jint 1" "fld sample_publication ''providerOrigin'' = JStr sample_provider"
    "fld sample_publication ''method'' = jlit ''POST''" "fld sample_publication ''requestUri'' = JStr (js ''/api/v1/data/publish/'' @ js ''CZM'')"
    "fld sample_publication ''bodySha256'' = JStr (replicate 64 48)" "fld sample_publication ''bodyBytes'' = jint 1"
    "fld sample_publication ''schema'' = jlit ''CZM''" "fld sample_publication ''entityId'' = jlit ''g''"
    "fld sample_publication ''entityName'' = jlit ''g''" "fld sample_publication ''documentCount'' = jint 1"
    by (simp_all add: sample_publication_def fld_frozen_record)
  have "new_url https_host sample_provider = Some (https_parts sample_provider)"
    by (simp add: https_host_def sample_provider_def starts_with_def js_def)
  moreover have "canonical_provider (https_parts sample_provider) sample_provider" by code_simp
  moreover have "entity_text (js ''g'')" by (simp add: entity_text_def js_def utf8_encode_ascii is_ascii_def)
  moreover have "is_ok (validate_unicode_scalar_string v l)" if "v \<in> {JStr sample_provider, jlit ''g''}" for v l
  proof -
    have "is_ascii sample_provider" "is_ascii (js ''g'')" by (simp_all add: sample_provider_def js_def)
    with that show ?thesis by (auto simp: validate_unicode_scalar_string_def jlit_def is_ok_checks str_of_def intro!: scan_scalars_ascii)
  qed
  moreover have "is_ok (exact_pattern (JStr (replicate 64 48)) LOWER_HEX_32 l)" for l
    by (simp add: is_ok_exact_pattern LOWER_HEX_32_def hex_zeros scan_scalars_ascii)
  moreover have "integer_between (jint 1) 1 n" if "1 \<le> n" for n
    using that by (simp add: integer_between_def jint_def num_is_integer_def num_is_finite_def num_real_def num_less_def)
  moreover have "frozen_record (map (\<lambda>f. (f, fld sample_publication f)) PUBLISH_REQUEST_FIELDS) = sample_publication"
    unfolding PUBLISH_REQUEST_FIELDS_def list.map f by (simp only: sample_publication_def)
  ultimately show ?thesis
    by (simp add: parse_sdn_publish_request_def validate_sdn_publish_request_def e f Let_def checks_all_ok str_of_def jlit_def)
qed

subsection \<open>The provider's challenge\<close>

lemma challenge_text:
  "is_ascii (json_text sample_challenge)" "length (json_text sample_challenge) \<le> 4096"
  "json_parse (json_text sample_challenge) = Inr (to_plain (embed sample_challenge))"
proof -
  have p: "plain (js ''challenge'')" "plain (js ''challenge_id'')" "plain (js ''expires_at'')" "plain (replicate 43 65)" "plain (replicate n 48)" for n
    by (simp_all add: plain_unit_def js_def list_all_iff)
  show x: "is_ascii (json_text sample_challenge)" "length (json_text sample_challenge) \<le> 4096"
    by (simp_all add: sample_challenge_def bracketed_def member_text_def p [THEN quote_plain] num_to_string_one p [THEN plain_ascii(1)])
  have "json_readable (dialect_guard service_dialect) sample_challenge"
    by (simp add: sample_challenge_def p [THEN plain_ascii(2)] p [THEN service_guard_plain] one_reads_back)
  moreover have "json_depth sample_challenge \<le> 33" "json_nodes sample_challenge \<le> 4096" by (simp_all add: sample_challenge_def)
  ultimately have "parse_document service_dialect (json_text sample_challenge) = Inr (embed sample_challenge)" by (rule document_reads)
  then have "json_parse (json_text sample_challenge) = Inr (to_plain (embed sample_challenge))" by (rule strict_parse_agrees)
  then show "json_parse (json_text sample_challenge) = Inr (to_plain (embed sample_challenge))" .
qed

definition received_challenge :: jval where
  "received_challenge = JObj Null_Prototype
     [(js ''challenge'', jdata (JStr (replicate 43 65))), (js ''challenge_id'', jdata (JStr (replicate 32 48))), (js ''expires_at'', jdata (jint 1))] 0"

lemma challenge_received:
  "operation_record (to_plain (embed sample_challenge)) [''challenge_id'', ''challenge'', ''expires_at''] ''PROVIDER_CHALLENGE_FAILED'' = Inr received_challenge"
proof -
  have e: "to_plain (embed sample_challenge) = jobj
      [(js ''challenge'', JStr (replicate 43 65)), (js ''challenge_id'', JStr (replicate 32 48)), (js ''expires_at'', jint 1)]"
    by (simp add: sample_challenge_def plain_members_def jint_def)
  have "exact_fields err (to_plain (embed sample_challenge)) [''challenge_id'', ''challenge'', ''expires_at''] l = Inr (to_plain (embed sample_challenge))" for err l
    unfolding e by (rule exact_fields_jobj) auto
  moreover have "sort_key fst (own_props (to_plain (embed sample_challenge))) = own_props received_challenge"
    unfolding e by (simp add: received_challenge_def own_props_def jobj_def jdata_def js_def)
  ultimately show ?thesis by (simp add: operation_record_def received_challenge_def own_props_def)
qed

lemma challenge_checked: "check_challenge 0 received_challenge = Inr received_challenge"
proof -
  have f: "fld received_challenge ''challenge'' = JStr (replicate 43 65)" "fld received_challenge ''challenge_id'' = JStr (replicate 32 48)"
    "fld received_challenge ''expires_at'' = jint 1"
    by (simp_all add: received_challenge_def fld_def field_def own_props_def jdata_def prop_value_def)
  have "atob (replicate 43 65 @ [61]) = Some (replicate 32 0)" by code_simp
  moreover have "strip_trailing 61 (btoa (replicate 32 0)) = replicate 43 65" by code_simp
  moreover have "BASE64_32 (replicate 43 65)" by code_simp
  moreover have "HEX_16 (replicate 32 48)" by (simp add: HEX_16_def hex_zeros)
  ultimately show ?thesis
    by (simp add: check_challenge_def f Let_def checks_all_ok expires_ms_def num_of_def jint_def num_is_safe_integer_def
        num_is_integer_def num_is_finite_def num_real_def strict_eq_def)
qed

lemma challenge_fetched: "fetch_challenge sample_execution sample_transaction sample_publication sample_key = Some (Inr received_challenge)"
proof -
  have u: "unexpired sample_transaction 0 = Inr ()"
  proof -
    have "fld sample_transaction ''expiresAt'' = JStr (to_iso_string 1700000300000)"
      by (simp add: sample_transaction_def fld_def field_jobj)
    moreover have "operation_timestamp (JStr (to_iso_string 1700000300000)) ''INVALID_TRANSACTION'' = Inr 1700000300000"
      unfolding operation_timestamp_Inr [where l = "[]"] using sample_instants by simp
    ultimately show ?thesis by (simp add: unexpired_def)
  qed
  show ?thesis
    using challenge_text(2)
    by (simp add: fetch_challenge_def Let_def sample_execution_def u challenge_answer_def utf8_encode_ascii [OF challenge_text(1)]
        ascii_decodes(1) [OF challenge_text(1), unfolded utf8_encode_ascii [OF challenge_text(1)]]
        challenge_text(3) challenge_received challenge_checked)
qed

subsection \<open>The signed result\<close>

definition sample_published :: jval where
  "sample_published = frozen_record
     [(''schemaVersion'', jint 1), (''keyId'', JStr sample_key_id), (''identityScheme'', jlit IDENTITY_SCHEME),
      (''algorithm'', jlit ''ed25519''), (''encoding'', jlit ''raw''), (''signatureProfile'', jlit PUBLISH_SIGNATURE_PROFILE),
      (''publicKeyHex'', JStr (replicate 64 48)), (''signatureHex'', JStr (replicate 128 48)),
      (''requestDigestSha256'', JStr (replicate 64 48)), (''challengeId'', JStr (replicate 32 48)),
      (''challengeBase64url'', JStr (replicate 43 65))]"

definition signed_record :: jval where
  "signed_record = JObj Null_Prototype (sort_key fst (own_props sample_signed)) 0"

lemma sample_signed_record: "operation_record sample_signed SIGNED_FIELDS ''INVALID_WALLET_RESULT'' = Inr signed_record"
proof -
  have "exact_fields err sample_signed SIGNED_FIELDS l = Inr sample_signed" for err l
    unfolding sample_signed_def by (rule exact_fields_jobj) (auto simp: SIGNED_FIELDS_def)
  then show ?thesis by (simp add: operation_record_def signed_record_def)
qed

lemma sample_signed_wf: "jval_wf sample_signed"
proof -
  have "js_wf (replicate n 48)" for n by (rule plain_ascii) (simp add: plain_unit_def list_all_iff)
  moreover have "js_wf sample_key_id" using sample_ids(3) by (rule ascii_js_wf)
  ultimately show ?thesis unfolding sample_signed_def by (intro jval_wf_jobj) auto
qed

lemmas signed_fields = operation_record_Inr(1) [OF sample_signed_record sample_signed_wf]

lemma signed_names:
  "set (own_names signed_record) = js ` set SIGNED_FIELDS" "distinct (own_names signed_record)"
  "\<forall>x\<in>set (own_props signed_record). is_plain_data (snd x)"
proof -
  note r = operation_record_Inr(2-) [OF sample_signed_record sample_signed_wf]
  show "distinct (own_names signed_record)" using r(1) by (simp add: own_names_def)
  show "set (own_names signed_record) = js ` set SIGNED_FIELDS"
    using exact_fields_names [OF r(3)] by (simp add: own_names_def r(2))
  show "\<forall>x\<in>set (own_props signed_record). is_plain_data (snd x)"
    using r(3) by (auto simp: r(2) exact_fields_Inr list_all_iff)
qed

lemma zero_challenge: "encode_base64url (replicate 32 0) = replicate 43 65"
  by code_simp

lemma sample_built:
  "build_sdn_publish_result (with_challenge signed_record (JStr (replicate 32 48)) (replicate 43 65)) = Inr sample_published"
proof -
  let ?v = "with_challenge signed_record (JStr (replicate 32 48)) (replicate 43 65)"
  note own = signed_names
  have n: "js ''challengeId'' \<notin> set (own_names signed_record)" "js ''challengeBase64url'' \<notin> set (own_names signed_record)"
    unfolding own(1) by (auto simp: SIGNED_FIELDS_def)
  note wc = with_challenge_fields [OF n]
  have f: "fld ?v ''schemaVersion'' = jint 1" "fld ?v ''keyId'' = JStr sample_key_id" "fld ?v ''identityScheme'' = jlit IDENTITY_SCHEME"
    "fld ?v ''algorithm'' = jlit ''ed25519''" "fld ?v ''encoding'' = jlit ''raw''" "fld ?v ''signatureProfile'' = jlit PUBLISH_SIGNATURE_PROFILE"
    "fld ?v ''publicKeyHex'' = JStr (replicate 64 48)" "fld ?v ''signatureHex'' = JStr (replicate 128 48)"
    "fld ?v ''requestDigestSha256'' = JStr (replicate 64 48)"
    by (subst wc(4), simp, subst signed_fields, simp add: sample_signed_def fld_def field_jobj)+
  have props: "own_props ?v = own_props signed_record
      @ [(js ''challengeId'', jdata (JStr (replicate 32 48))), (js ''challengeBase64url'', jdata (JStr (replicate 43 65)))]"
    by (simp add: with_challenge_def own_props_def [of "JObj _ _ _"])
  have "distinct (own_names ?v)" "set (own_names ?v) = js ` set PUBLISH_RESULT_FIELDS"
    using own(1,2) n by (auto simp: own_names_def props SIGNED_FIELDS_def PUBLISH_RESULT_FIELDS_def)
  then have names: "sort_names (own_names ?v) = sort_names (map js PUBLISH_RESULT_FIELDS)"
    by (subst sort_names_eq_iff) (auto simp: PUBLISH_RESULT_FIELDS_def)
  have fields: "\<exists>w. map_of (own_props ?v) k = Some (Data True w) \<and> w \<noteq> JUndefined" if k: "k \<in> set (own_names ?v)" for k
  proof -
    obtain q where q: "map_of (own_props ?v) k = Some q" using k by (metis map_of_eq_None_iff not_None_eq own_names_def list.set_map)
    then have "(k, q) \<in> set (own_props ?v)" by (rule map_of_SomeD)
    then have "is_plain_data q" using own(3) by (auto simp: props is_plain_data_def jdata_def)
    with q show ?thesis by (auto simp: is_plain_data_def split: jprop.splits)
  qed
  have "exact_record ?v PUBLISH_RESULT_FIELDS l = Inr ?v" for l
    unfolding exact_record_Inr using fields
    by (simp add: read_input_record [OF wc(3)] wc(3) names_text_def names field_check_ok) (simp add: with_challenge_def own_symbols_def)
  moreover have "is_ok (exact_pattern (JStr (replicate n 48)) (lower_hex n) l)" for n l
    by (simp add: is_ok_exact_pattern hex_zeros scan_scalars_ascii)
  moreover have "is_ok (exact_pattern (JStr sample_key_id) KEY_ID l)" for l
    by (simp add: is_ok_exact_pattern sample_ids scan_scalars_ascii)
  moreover have "is_ok (validate_base64url32 (JStr (replicate 43 65)) l)" for l
    unfolding validate_base64url32_iff by (intro exI [of _ "replicate 32 0"]) (simp add: zero_challenge)
  moreover have "frozen_record (map (\<lambda>f. (f, fld ?v f)) PUBLISH_RESULT_FIELDS) = sample_published"
    unfolding PUBLISH_RESULT_FIELDS_def list.map f wc(1,2) by (simp only: sample_published_def)
  ultimately show ?thesis
    by (simp add: build_sdn_publish_result_def validate_sdn_publish_result_def f wc(1,2) checks_all_ok LOWER_HEX_32_def LOWER_HEX_64_def)
qed

lemma sample_still_valid: "still_valid sample_execution point sample_transaction received_challenge = Inr ()"
proof -
  have t: "fld sample_transaction ''expiresAt'' = JStr (to_iso_string 1700000300000)"
    by (simp add: sample_transaction_def fld_def field_jobj)
  have "fld received_challenge ''expires_at'' = jint 1"
    by (simp add: received_challenge_def fld_def field_def own_props_def jdata_def prop_value_def)
  then have "expires_ms received_challenge = 1000" by (simp add: expires_ms_def num_of_def jint_def num_real_def)
  then have "is_ok (still_valid sample_execution point sample_transaction received_challenge)"
    using sample_instants by (simp add: still_valid_Inr sample_execution_def t)
  then show ?thesis by (auto simp: is_ok_iff)
qed

lemma published_run:
  "execute_wallet_operation https_host (Some sample_wallet) sample_execution sample_binding JNull sample_identity sample_transaction
     = Some (Inr sample_published)"
proof -
  have t: "fld sample_transaction ''operation'' = jlit ''sdn.auth.publish-request.v1''" "fld sample_transaction ''request'' = sample_publication"
    by (simp_all add: sample_transaction_def fld_def field_jobj)
  have c: "fld received_challenge ''challenge'' = JStr (replicate 43 65)" "fld received_challenge ''challenge_id'' = JStr (replicate 32 48)"
    by (simp_all add: received_challenge_def fld_def field_def own_props_def jdata_def prop_value_def)
  have k: "fld sample_key ''publicKeyHex'' = JStr (replicate 64 48)" "fld sample_key ''keyId'' = JStr sample_key_id"
    by (simp_all add: sample_key_def fld_def field_jobj)
  have s: "fld signed_record ''publicKeyHex'' = JStr (replicate 64 48)" "fld signed_record ''keyId'' = JStr sample_key_id"
    by (subst signed_fields, simp add: sample_signed_def fld_def field_jobj)+
  have "map url_unit (replicate 43 65) = replicate 43 65" by (simp add: url_unit_def)
  then have "sign_with_challenge sample_wallet sample_execution sample_binding JNull sample_transaction sample_publication sample_key
      received_challenge = Inr sample_published"
    by (simp only: sign_with_challenge_def Let_def c str_of_def jval.case sample_still_valid)
      (simp add: checks_all_ok sample_wallet_def sample_signed_record k s sample_built strict_eq_def)
  then have "sign_publication https_host sample_wallet sample_execution sample_binding JNull sample_identity sample_transaction
      = Some (Inr sample_published)"
    by (simp add: sign_publication_def t sample_publication_parses sample_key_found challenge_fetched or_challenge_failed_def)
  then show ?thesis
    by (simp add: execute_wallet_operation_def t lookup_operation_def jlit_def operation_named_def map_of_js OPERATIONS_def)
qed

lemma sample_values_wf: "jval_wf sample_transaction" "is_object_record sample_transaction" "jval_wf sample_identity"
proof -
  have "js_wf sample_provider" "js_wf (js ''/api/v1/data/publish/'' @ js ''CZM'')" "js_wf (replicate n 48)" "js_wf sample_key_id" for n
    using sample_ids(3) by (auto simp: sample_provider_def js_def intro!: js_wf_ascii hex_zeros)
  moreover have "is_ascii (to_iso_string 1700000300000)" using sample_timestamps(2) iso_text_ascii [of 2023] by simp
  ultimately show "jval_wf sample_transaction" "is_object_record sample_transaction" "jval_wf sample_identity"
    by (auto simp: sample_transaction_def sample_identity_def sample_key_def sample_publication_def jval_wf_frozen is_object_record_def
        js_wf_ascii intro!: jval_wf_jobj jval_wf_jarr) (simp_all add: jobj_def)
qed

end
