(* ===== verification/OperationsExecuteProperties.thy ===== *)
theory OperationsExecuteProperties
  imports PublicationSample
begin

section \<open>What the wallet hands over\<close>

text \<open>
  The facts about the execution of a confirmed operation: whatever the native module returns, only a
  record that the relay's parser of that operation accepts unchanged leaves the wallet, and a
  publication is signed only for the reviewed client, by the identity's only authentication key,
  within the lifetimes of the transaction and of the provider's challenge.
\<close>

text \<open>C22: whatever leaves the wallet for an operation is a result the relay's parser of that very operation
  accepts and leaves unchanged: a confirmed operation ends with such a record or with an error, on
  every path (connected, opened, signed, published) and whatever the native module, the provider
  and the clock do. Of the native module it takes only that it returns values of the runtime.\<close>

theorem wallet_result_accepted_by_relay:
  assumes "native_sound W" "jval_wf transaction" "is_object_record transaction" "jval_wf identity"
    "fld transaction ''operation'' = jlit operation"
    "execute_wallet_operation H (Some W) E binding handle identity transaction = Some (Inr outcome)"
  shows "\<exists>p. map_of (result_parsers H) operation = Some p \<and> p outcome = Inr outcome"
proof -
  obtain x w where x: "lookup_operation H (jlit operation) = Inr (Some x)" "handling x \<noteq> Inherited"
      "build_result x w = Inr outcome" "jval_wf w \<or> handling x = Publishes"
    using execute_builds [OF assms(1-4,6)] assms(5) by metis
  show ?thesis by (rule row_results_normal [OF lookup_operation_row [OF x(1,2)] x(3,4)]) blast
qed

lemma wallet_result_accepted_by_relay_witness:
  "\<exists>p. map_of (result_parsers https_host) ''sdn.auth.publish-request.v1'' = Some p \<and> p sample_published = Inr sample_published"
proof (rule wallet_result_accepted_by_relay [OF _ sample_values_wf _ published_run])
  show "native_sound sample_wallet" by (simp add: native_sound_def sample_wallet_def)
  show "fld sample_transaction ''operation'' = jlit ''sdn.auth.publish-request.v1''"
    by (simp add: sample_transaction_def fld_def field_jobj)
qed

text \<open>C23: a signed publication that leaves the wallet was asked for by the reviewed client from its origin
  and accepted by the request parser; the wallet itself fetched the challenge, from the publication's
  provider, without a redirect, and it has 32 bytes and ends within 300 seconds; the native module
  signed the accepted request with exactly that challenge, with the operation current and neither
  the transaction nor the challenge expired both before and after it; and the result names the
  identity's only authentication key and that challenge.\<close>

theorem publication_signed_within_challenge:
  assumes "fld transaction ''operation'' = jlit ''sdn.auth.publish-request.v1''"
    "execute_wallet_operation H (Some W) E binding handle identity transaction = Some (Inr outcome)"
  shows "\<exists>f publication key answer challenge bytes n w.
     sign_publish_request W = Some f \<and> parse_sdn_publish_request H (fld transaction ''request'') = Inr publication
     \<and> fld binding ''clientId'' = jlit ''spaceaware-web-v1'' \<and> fld binding ''requestOrigin'' = jlit ''https://spaceaware.io''
     \<and> authentication_keys identity = Inr [key]
     \<and> ask_provider E (str_of (fld publication ''providerOrigin'') @ js ''/api/auth/challenge'') (challenge_request key (time_at E Provider_Asked)) = Some answer
     \<and> provider_ok answer \<and> \<not> provider_redirected answer
     \<and> challenge_answer E (str_of (fld publication ''providerOrigin'') @ js ''/api/auth/challenge'') answer = Some (Inr challenge)
     \<and> length bytes = 32 \<and> expires_ms challenge = of_int n \<and> time_at E Challenge_Read < n \<and> n \<le> time_at E Challenge_Read + 300000
     \<and> f handle (with_challenge publication (fld challenge ''challenge_id'') (encode_base64url bytes)) (fld binding ''registryRow'') = Inr w
     \<and> (\<forall>point\<in>{Before_Signing, After_Signing}. assert_current E point = Inr () \<and> time_at E point < n
          \<and> time_at E point < instant (fld transaction ''expiresAt''))
     \<and> fld outcome ''challengeId'' = fld challenge ''challenge_id'' \<and> fld outcome ''challengeBase64url'' = JStr (encode_base64url bytes)
     \<and> fld outcome ''keyId'' = fld key ''keyId'' \<and> fld outcome ''publicKeyHex'' = fld key ''publicKeyHex''"
proof -
  have "sign_publication H W E binding handle identity transaction = Some (Inr outcome)"
    using assms by (simp add: execute_wallet_operation_def lookup_operation_def jlit_def operation_named_def map_of_js OPERATIONS_def)
  then obtain v key challenge where p: "parse_sdn_publish_request H (fld transaction ''request'') = Inr v"
      "publication_key W binding identity = Inr key" "fetch_challenge E transaction v key = Some (Inr challenge)"
      "sign_with_challenge W E binding handle transaction v key challenge = Inr outcome"
    by (rule publication_steps)
  note k = publication_key_Inr [OF p(2)]
  obtain f where f: "sign_publish_request W = Some f" using k(2) by blast
  obtain a where a: "ask_provider E (str_of (fld v ''providerOrigin'') @ js ''/api/auth/challenge'') (challenge_request key (time_at E Provider_Asked)) = Some a"
      "provider_ok a" "\<not> provider_redirected a" "check_challenge (time_at E Challenge_Read) challenge = Inr challenge"
      "challenge_answer E (str_of (fld v ''providerOrigin'') @ js ''/api/auth/challenge'') a = Some (Inr challenge)"
    by (rule fetch_challenge_Inr [OF p(3)])
  obtain bytes n where n: "length bytes = 32" "map url_unit (str_of (fld challenge ''challenge'')) = encode_base64url bytes"
      "expires_ms challenge = of_int (n * 1000)" "time_at E Challenge_Read < n * 1000" "n * 1000 \<le> time_at E Challenge_Read + 300000"
    by (rule check_challenge_Inr [OF a(4)])
  obtain w where w: "f handle (with_challenge v (fld challenge ''challenge_id'') (encode_base64url bytes)) (fld binding ''registryRow'') = Inr w"
      "is_ok (still_valid E Before_Signing transaction challenge)" "is_ok (still_valid E After_Signing transaction challenge)"
      "fld outcome ''challengeId'' = fld challenge ''challenge_id''" "fld outcome ''challengeBase64url'' = JStr (encode_base64url bytes)"
      "fld outcome ''keyId'' = fld key ''keyId''" "fld outcome ''publicKeyHex'' = fld key ''publicKeyHex''"
    by (rule sign_with_challenge_Inr [OF p(4) f n(2)])
  have "time_at E point < n * 1000" if "of_int (time_at E point) < expires_ms challenge" for point
    using that unfolding n(3) of_int_less_iff .
  then have "\<forall>point\<in>{Before_Signing, After_Signing}. assert_current E point = Inr () \<and> time_at E point < n * 1000
      \<and> time_at E point < instant (fld transaction ''expiresAt'')"
    using w(2,3) by (simp add: still_valid_Inr)
  then show ?thesis using f p(1) k(1,3,4) a(1-3,5) n(1,3-5) w(1,4-7) by blast
qed

lemma publication_signed_within_challenge_witness:
  "\<exists>f publication bytes w. sign_publish_request sample_wallet = Some f
     \<and> parse_sdn_publish_request https_host (fld sample_transaction ''request'') = Inr publication \<and> length bytes = 32
     \<and> f JNull (with_challenge publication (fld sample_published ''challengeId'') (encode_base64url bytes))
         (fld sample_binding ''registryRow'') = Inr w \<and> fld sample_published ''challengeBase64url'' = JStr (encode_base64url bytes)"
proof -
  have "fld sample_transaction ''operation'' = jlit ''sdn.auth.publish-request.v1''"
    by (simp add: sample_transaction_def fld_def field_jobj)
  from publication_signed_within_challenge [OF this published_run] show ?thesis by (elim exE conjE) metis
qed

end
