(* ===== verification/RelayRegistryProperties.thy ===== *)
theory RelayRegistryProperties
  imports RelayRegistry
begin

section \<open>The two registries agree\<close>

text \<open>
  The relay service and the wallet origin each read the same registry file with their own code. What
  the service keeps of an accepted file is the reviewed table, so both answer every lookup alike.
\<close>

subsection \<open>Fields of a plain copy\<close>

definition plain_prop :: "jprop \<Rightarrow> jprop" where
  "plain_prop p = (case p of Data e v \<Rightarrow> Data e (to_plain v) | Accessor e \<Rightarrow> Accessor e)"

lemma plain_props_eq: "plain_props ps = map (\<lambda>(k, p). (k, plain_prop p)) ps"
proof (induction ps)
  case (Cons x ps)
  then show ?case by (cases x; cases "snd x") (auto simp: plain_prop_def)
qed simp

lemma plain_slots_eq: "plain_slots xs = map (map_option plain_prop) xs"
proof (induction xs)
  case (Cons x xs)
  show ?case
  proof (cases x)
    case (Some p)
    then show ?thesis using Cons by (cases p) (simp_all add: plain_prop_def)
  qed (use Cons in simp)
qed simp

lemma field_to_plain: "is_object_record v \<Longrightarrow> field (to_plain v) k = to_plain (field v k)"
proof -
  assume "is_object_record v"
  then obtain p ps n where v: "v = JObj p ps n" by (auto simp: is_object_record_def split: jval.splits)
  have "map_of (map (\<lambda>(k, p). (k, plain_prop p)) ps) k = map_option plain_prop (map_of ps k)" by (induction ps) auto
  then show ?thesis
    by (auto simp: v field_def own_props_def plain_props_eq prop_value_def plain_prop_def split: option.split jprop.split)
qed

lemma fld_to_plain: "is_object_record v \<Longrightarrow> fld (to_plain v) f = to_plain (fld v f)"
  by (simp add: fld_def field_to_plain)

lemma array_to_plain [simp]:
  "is_array (to_plain v) = is_array v" "length (array_slots (to_plain v)) = length (array_slots v)"
  "array_values (to_plain v) = map to_plain (array_values v)"
proof -
  show "is_array (to_plain v) = is_array v" by (cases v) (simp_all add: is_array_def)
  show "length (array_slots (to_plain v)) = length (array_slots v)"
    by (cases v) (simp_all add: array_slots_def plain_slots_eq)
  have "(case map_option plain_prop s of None \<Rightarrow> JUndefined | Some p \<Rightarrow> prop_value p)
      = to_plain (case s of None \<Rightarrow> JUndefined | Some p \<Rightarrow> prop_value p)" for s
    by (auto simp: plain_prop_def prop_value_def split: option.split jprop.split)
  then show "array_values (to_plain v) = map to_plain (array_values v)"
    by (cases v) (simp_all add: array_values_def array_slots_def plain_slots_eq comp_def)
qed

lemma to_plain_scalar [simp]: "to_plain v = JStr s \<longleftrightarrow> v = JStr s" "to_plain v = jlit t \<longleftrightarrow> v = jlit t"
  by (cases v; simp add: jlit_def)+

subsection \<open>What an accepted file gives\<close>

definition client_view :: "jval \<Rightarrow> registry_client" where
  "client_view c = \<lparr>allowed_operations = map (\<lambda>b. str_of (fld b ''operation'')) (array_values (fld c ''operationBindings'')),
     rc_callback_uri = str_of (fld c ''callbackUri''), rc_display_name = str_of (fld c ''clientDisplayName''),
     rc_client_id = str_of (fld c ''clientId''), rc_request_origin = str_of (fld c ''requestOrigin'')\<rparr>"

lemma exact_object_Inr: "exact_object v F = Inr r \<Longrightarrow> r = v \<and> is_object_record v"
  by (simp add: exact_object_def exact_fields_Inr)

lemma service_operation_Inr:
  "validate_service_operation allowed i seen b = Inr name \<Longrightarrow> is_object_record b \<and> fld b ''operation'' = JStr name"
  by (auto simp: validate_service_operation_def rbind_Inr_iff Let_def checks_Inr_iff is_str_def str_of_def
      dest!: exact_object_Inr split: option.splits if_splits jval.splits)

lemma service_operations_Inr:
  "validate_service_operations allowed i seen bs = Inr ids \<Longrightarrow>
     ids = seen @ map (\<lambda>b. str_of (fld b ''operation'')) bs \<and> list_all (\<lambda>b. is_object_record b \<and> is_str (fld b ''operation'')) bs"
  by (induction bs arbitrary: i seen ids) (fastforce simp: rbind_Inr_iff is_str_def str_of_def dest: service_operation_Inr)+

lemma service_client_Inr:
  assumes "validate_service_client H seen c = Inr r"
  shows "r = client_view c" "is_object_record c"
    "list_all (\<lambda>b. is_object_record b \<and> is_str (fld b ''operation'')) (array_values (fld c ''operationBindings''))"
  using assms
  by (auto simp: validate_service_client_def rbind_Inr_iff Let_def checks_Inr_iff client_view_def
      dest!: exact_object_Inr service_operations_Inr)

lemma service_clients_Inr:
  "validate_service_clients H acc cs = Inr rs \<Longrightarrow> rs = acc @ map client_view cs
     \<and> list_all (\<lambda>c. is_object_record c \<and> list_all (\<lambda>b. is_object_record b \<and> is_str (fld b ''operation'')) (array_values (fld c ''operationBindings''))) cs"
proof (induction cs arbitrary: acc rs)
  case (Cons c cs)
  then obtain r where "validate_service_client H (map rc_client_id acc) c = Inr r" "validate_service_clients H (acc @ [r]) cs = Inr rs"
    by (auto simp: rbind_Inr_iff)
  with Cons.IH service_client_Inr show ?case by fastforce
qed simp

lemma str_of_to_plain [simp]: "str_of (to_plain v) = str_of v"
  by (cases v) (simp_all add: str_of_def)

lemma client_view_plain:
  assumes "is_object_record c" "list_all (\<lambda>b. is_object_record b \<and> P b) (array_values (fld c ''operationBindings''))"
  shows "client_view (to_plain c) = client_view c"
  using assms by (simp add: client_view_def fld_to_plain list_all_iff)

definition reviewed_view :: "reviewed_client \<Rightarrow> registry_client" where
  "reviewed_view r = \<lparr>allowed_operations = map js (row_operations r), rc_callback_uri = js (row_callback r),
     rc_display_name = js (row_name r), rc_client_id = js (row_id r), rc_request_origin = js (row_origin r)\<rparr>"

lemma registry_source_views:
  assumes "new_client_registry H digest (Inr v) = Inr R" "to_plain v = registry_source"
  shows "registry_clients R = map reviewed_view EXPECTED_CLIENTS" "release_sha256 R = js source_release"
proof -
  from assms(1) have v: "is_object_record v" "validate_service_clients H [] (array_values (fld v ''clients'')) = Inr (registry_clients R)"
      "release_sha256 R = EXPECTED_RELEASE_SHA256"
    by (auto simp: new_client_registry_def from_catch_def rbind_Inr_iff Let_def checks_Inr_iff EXPECTED_RELEASE_SHA256_def str_of_def
        dest!: exact_object_Inr)
  have c: "map to_plain (array_values (fld v ''clients'')) = map projected_client EXPECTED_CLIENTS"
    using fld_to_plain [OF v(1), of "''clients''"] fld_registry_source(1) assms(2)
    by (metis array_to_plain(3) array_values_jarr)
  have "client_view (projected_client r) = reviewed_view r" if "r \<in> set EXPECTED_CLIENTS" for r
  proof -
    have "row_ready r" using that row_ready_table by (simp add: list_all_iff)
    then have "str_of (fld (projected_binding q) ''operation'') = js q" if "q \<in> set (row_operations r)" for q
      using that policy_names [of q]
      by (auto simp: row_ready_def projected_binding_def fld_source_binding jlit_def str_of_def split: option.splits)
    then show ?thesis
      by (simp add: client_view_def reviewed_view_def fld_projected_client jlit_def str_of_def)
  qed
  then have "map client_view (map to_plain (array_values (fld v ''clients''))) = map reviewed_view EXPECTED_CLIENTS"
    unfolding c by simp
  moreover note views = service_clients_Inr [OF v(2)]
  then have "map client_view (map to_plain (array_values (fld v ''clients''))) = map client_view (array_values (fld v ''clients''))"
    by (auto simp: list_all_iff intro!: client_view_plain)
  ultimately show "registry_clients R = map reviewed_view EXPECTED_CLIENTS" using views by simp
  show "release_sha256 R = js source_release" using v(3) by (simp add: EXPECTED_RELEASE_SHA256_def source_release_def)
qed

lemma find_map_unique:
  assumes "x \<in> set xs" "\<forall>y\<in>set xs. P (f y) \<longrightarrow> y = x"
  shows "find P (map f xs) = (if P (f x) then Some (f x) else None)"
proof (cases "find P (map f xs)")
  case None
  then have "\<not> P (f x)" using assms(1) by (simp add: find_None_iff)
  with None show ?thesis by simp
next
  case (Some z)
  then have "z \<in> f ` set xs" "P z" unfolding find_Some_iff by (metis list.set_map nth_mem)+
  with assms(2) have "z = f x" by blast
  with Some \<open>P z\<close> show ?thesis by simp
qed

lemma find_reviewed:
  assumes "r \<in> set EXPECTED_CLIENTS"
  shows "find (\<lambda>c. rc_client_id c = js (row_id r) \<and> rc_request_origin c = js (row_origin r) \<and> t \<in> set (allowed_operations c))
     (map reviewed_view EXPECTED_CLIENTS) = (if t \<in> js ` set (row_operations r) then Some (reviewed_view r) else None)"
proof -
  let ?P = "\<lambda>c. rc_client_id c = js (row_id r) \<and> rc_request_origin c = js (row_origin r) \<and> t \<in> set (allowed_operations c)"
  have "\<forall>y\<in>set EXPECTED_CLIENTS. ?P (reviewed_view y) \<longrightarrow> y = r"
  proof (intro ballI impI)
    fix y assume y: "y \<in> set EXPECTED_CLIENTS" "?P (reviewed_view y)"
    then have "row_id y = row_id r" by (simp add: reviewed_view_def)
    then show "y = r" by (rule reviewed_ids [OF y(1) assms])
  qed
  from find_map_unique [where P = ?P and f = reviewed_view, OF assms this] show ?thesis by (simp add: reviewed_view_def)
qed

lemma find_unreviewed:
  "\<forall>r\<in>set EXPECTED_CLIENTS. \<not> (c = js (row_id r) \<and> g = js (row_origin r)) \<Longrightarrow>
   find (\<lambda>x. rc_client_id x = c \<and> rc_request_origin x = g \<and> t \<in> set (allowed_operations x)) (map reviewed_view EXPECTED_CLIENTS) = None"
  by (auto simp: find_None_iff reviewed_view_def)

subsection \<open>The shipped file is accepted\<close>

lemma scan_js: "is_ok (scan_scalars l (js t))"
proof -
  have "is_ok (scan_scalars l s)" if "list_all (\<lambda>c. c < 256) s" for s
    using that by (induction l s rule: scan_scalars.induct)
      (auto simp: is_high_surrogate_def is_low_surrogate_def is_noncharacter_def)
  moreover have "list_all (\<lambda>c. c < 256) (js t)" by (simp add: js_def list_all_iff)
  ultimately show ?thesis by blast
qed

lemma service_canon_js: "is_ok (canon_string service_canon (js t))"
  using scan_js [of "[]" t] by (auto simp: service_canon_def validate_scalar_string_def from_catch_def is_ok_iff)

lemma same_jcs_refl: "is_ok (jcs v) \<Longrightarrow> is_ok (same_jcs v v)"
  by (auto simp: same_jcs_def is_ok_iff)

lemma service_policy_row:
  "operation \<in> fst ` set OPERATION_POLICY \<Longrightarrow> service_policy (js operation) = map_of OPERATION_POLICY operation"
  by (auto simp: OPERATION_POLICY_def service_policy_def SERVICE_POLICY_def service_row_def)

lemma service_operation_accepted:
  assumes "i < length (row_operations r)" "row_ready r" "js (row_operations r ! i) \<notin> set seen"
  shows "validate_service_operation (map jlit (row_operations r)) i seen (projected_binding (row_operations r ! i))
     = Inr (js (row_operations r ! i))"
proof -
  let ?o = "row_operations r ! i"
  from assms have o: "?o \<in> fst ` set OPERATION_POLICY" by (auto simp: row_ready_def)
  then obtain p where p: "map_of OPERATION_POLICY ?o = Some p" using policy_names by auto
  then have b: "projected_binding ?o = source_binding (policy_audience p) ?o (policy_row p) (policy_activation p) (policy_service p)"
    by (simp add: projected_binding_def)
  have v: "policy_audience p \<noteq> JUndefined" "policy_row p \<noteq> JUndefined" "policy_activation p \<noteq> JUndefined"
    "policy_service p \<noteq> JUndefined" "strict_eq (policy_audience p) (policy_audience p)"
    "strict_eq (policy_row p) (policy_row p)" "strict_eq (policy_activation p) (policy_activation p)"
    "strict_eq (policy_service p) (policy_service p)"
    using policy_values [OF p] by auto
  have "exact_object (projected_binding ?o) BINDING_FIELDS = Inr (projected_binding ?o)"
    unfolding b source_binding_def exact_object_def by (rule exact_fields_jobj) (use v in \<open>auto simp: BINDING_FIELDS_def\<close>)
  moreover have "?o \<noteq> []" using o by (auto simp: OPERATION_POLICY_def)
  ultimately show ?thesis using assms p v service_policy_row [OF o]
    by (simp add: validate_service_operation_def checks_Inr_iff b fld_source_binding strict_eq_jint jlit_def is_str_def str_of_def)
qed

lemma service_operations_accepted:
  assumes "row_ready r" "i \<le> length (row_operations r)"
  shows "validate_service_operations (map jlit (row_operations r)) i (map js (take i (row_operations r)))
      (map projected_binding (drop i (row_operations r))) = Inr (map js (row_operations r))"
  using assms(2)
proof (induction "length (row_operations r) - i" arbitrary: i)
  case (Suc n)
  from Suc.hyps(2) have i: "i < length (row_operations r)" by simp
  have "distinct (row_operations r)" using assms(1) by (simp add: row_ready_def)
  then have "row_operations r ! i \<notin> set (take i (row_operations r))"
    using i by (auto simp: in_set_conv_nth nth_eq_iff_index_eq)
  then have "js (row_operations r ! i) \<notin> set (map js (take i (row_operations r)))" by auto
  note step = service_operation_accepted [OF i assms(1) this]
  have "map js (take i (row_operations r)) @ [js (row_operations r ! i)] = map js (take (Suc i) (row_operations r))"
    using i by (simp add: take_Suc_conv_app_nth)
  moreover have "drop i (row_operations r) = row_operations r ! i # drop (Suc i) (row_operations r)"
    using i by (rule Cons_nth_drop_Suc [symmetric])
  ultimately show ?case using Suc.hyps(1) [of "Suc i"] Suc.hyps(2) i step by simp
qed simp

lemma expected_is_projected:
  assumes "row_ready r"
  shows "expected_audiences (map projected_binding (row_operations r)) = projected_audiences (map projected_binding (row_operations r))"
proof -
  have "filter is_str (map (\<lambda>b. fld b ''audience'') (map projected_binding (row_operations r)))
      = filter (\<lambda>a. a \<noteq> JNull) (map (\<lambda>b. fld b ''audience'') (map projected_binding (row_operations r)))"
    using fld_projected_audience [OF assms] by (fastforce intro!: filter_cong simp: is_str_def jlit_def)
  then show ?thesis unfolding expected_audiences_def projected_audiences_def by simp
qed

lemma service_client_accepted:
  assumes r: "r \<in> set EXPECTED_CLIENTS" and "parses_urls H" "js (row_id r) \<notin> set seen"
  shows "validate_service_client H seen (projected_client r) = Inr (reviewed_view r)"
proof -
  let ?c = "projected_client r" and ?bs = "map projected_binding (row_operations r)"
  have ready: "row_ready r" using r row_ready_table by (simp add: list_all_iff)
  have u: "new_url H (js (row_origin r)) = Some (https_parts (js (row_origin r)))"
    "new_url H (js (row_callback r)) = Some (https_parts (js (row_callback r)))"
    using assms(2) r by (auto simp: parses_urls_def)
  have x: "exact_object ?c CLIENT_FIELDS = Inr ?c"
    unfolding projected_client_def Let_def exact_object_def
    by (rule exact_fields_jobj) (auto simp: CLIENT_FIELDS_def projected_audiences_def)
  have "validate_service_operations (map jlit (row_operations r)) 0 [] ?bs = Inr (map js (row_operations r))"
    using service_operations_accepted [OF ready, of 0] by simp
  moreover have "is_ok (canonical_json service_canon (projected_audiences ?bs))"
    by (rule canonical_audiences_in [OF ready service_canon_js])
  then have "is_ok (same_jcs (projected_audiences ?bs) (projected_audiences ?bs))"
    by (intro same_jcs_refl) (simp add: jcs_def)
  moreover have "valid_https_origin H (jlit (row_origin r))" "valid_https_callback H (jlit (row_callback r)) (jlit (row_origin r))"
    using ready u by (simp_all add: valid_https_origin_def valid_https_callback_def row_ready_def exact_https_def Let_def jlit_def
        str_of_def is_str_def) (simp_all add: https_parts_def Let_def)
  moreover have "is_array (projected_audiences ?bs)" by (simp add: projected_audiences_def)
  moreover have "CLIENT_ID (js (row_id r))" "row_name r \<noteq> []" "length (row_name r) \<le> 80"
    using ready by (simp_all add: row_ready_def)
  moreover have slots: "array_slots (jarr vs) = map (\<lambda>v. Some (jdata v)) vs" for vs by (simp add: jarr_def array_slots_def)
  moreover have "1 \<le> length (row_operations r) \<and> length (row_operations r) \<le> 16"
    using r by (auto simp: EXPECTED_CLIENTS_def registry_tables)
  ultimately show ?thesis using x assms(3) expected_is_projected [OF ready]
    by (simp del: map_map add: validate_service_client_def slots checks_Inr_iff Let_def fld_projected_client str_of_def is_str_def
        jlit_def [of "row_id r"] jlit_def [of "row_name r"] jlit_def [of "row_origin r"] jlit_def [of "row_callback r"] Suc_le_eq
        reviewed_view_def)
qed

lemma service_clients_accepted:
  assumes "parses_urls H" "set rs \<subseteq> set EXPECTED_CLIENTS" "distinct (map row_id rs)"
    "\<forall>r\<in>set rs. js (row_id r) \<notin> set (map rc_client_id acc)"
  shows "validate_service_clients H acc (map projected_client rs) = Inr (acc @ map reviewed_view rs)"
  using assms(2-)
proof (induction rs arbitrary: acc)
  case (Cons r rs)
  have "validate_service_client H (map rc_client_id acc) (projected_client r) = Inr (reviewed_view r)"
    using Cons.prems assms(1) by (intro service_client_accepted) auto
  moreover have "validate_service_clients H (acc @ [reviewed_view r]) (map projected_client rs) = Inr ((acc @ [reviewed_view r]) @ map reviewed_view rs)"
    using Cons.prems by (intro Cons.IH) (auto simp: reviewed_view_def image_iff)
  ultimately show ?case by simp
qed simp

lemma registry_source_plain: "to_plain registry_source = registry_source"
proof -
  have o: "to_plain (jobj kvs) = jobj (plain_members kvs)" for kvs
    by (simp add: jobj_def plain_members_def plain_props_map case_prod_beta comp_def)
  have s: "to_plain (jlit t) = jlit t" "to_plain (jint n) = jint n" "to_plain JNull = JNull" for t n
    by (simp_all add: jlit_def jint_def)
  have m: "map to_plain (map jlit ts) = map jlit ts" for ts by (simp add: s)
  have b: "to_plain (source_binding a op r t i) = source_binding (to_plain a) op (to_plain r) (to_plain t) (to_plain i)" for a op r t i
    by (simp add: source_binding_def o s plain_members_def)
  have c: "to_plain (source_client a b c d e f g) = source_client a b c d e (map to_plain f) g" for a b c d e f g
    by (simp add: source_client_def o s m plain_members_def del: map_map)
  show ?thesis by (simp add: registry_source_def source_clients_def c b s o plain_members_def)
qed

lemma sample_service_registry:
  "is_ok (new_client_registry https_host release_digest (Inr registry_source))"
proof -
  have "exact_object registry_source [''clients'', ''registryReleaseSha256'', ''schemaVersion''] = Inr registry_source"
    unfolding registry_source_def exact_object_def by (rule exact_fields_jobj) auto
  moreover have "is_ok (jcs unsigned_registry)"
    unfolding jcs_def by (rule unsigned_canonical_in [OF service_canon_js])
  then have "is_ok (jcs (jobj [(js ''clients'', jarr (map projected_client EXPECTED_CLIENTS)), (js ''schemaVersion'', jint 1)]))"
    by (simp add: unsigned_registry_def source_clients_projected)
  moreover have "validate_service_clients https_host [] (map projected_client EXPECTED_CLIENTS) = Inr ([] @ map reviewed_view EXPECTED_CLIENTS)"
    by (rule service_clients_accepted [OF https_host_parses]) (simp_all add: EXPECTED_CLIENTS_def client_row_def)
  moreover have "lower_hex 64 (js source_release)" "js source_release = EXPECTED_RELEASE_SHA256"
    by (simp_all add: lower_hex_def source_release_def EXPECTED_RELEASE_SHA256_def js_def is_lower_hex_def)
  moreover have "service_sha256_hex release_digest t = js source_release" for t
    using release_digest_text [of t] by (simp add: service_sha256_hex_def sha256_hex_def bytes_hex_def byte_hex_def [abs_def])
  moreover have "1 \<le> length EXPECTED_CLIENTS \<and> length EXPECTED_CLIENTS \<le> 64" by (simp add: EXPECTED_CLIENTS_def)
  ultimately show ?thesis
    by (auto simp: new_client_registry_def fld_registry_source from_catch_def is_ok_iff checks_Inr_iff strict_eq_jint
        is_lower_hex64_def is_str_def str_of_def jlit_def [of source_release])
qed

text \<open>C27: the relay service and the wallet origin agree: from the same registry file, whatever order or
  prototype the parsed objects have, the service resolves a client id, an origin and an operation
  exactly when the origin's registry does, to a binding with the same callback, name, lifetime and
  release; a request one of them would refuse the other refuses too, so no transaction the relay
  registers is unknown to the wallet.\<close>

theorem relay_agrees_with_origin:
  assumes "new_client_registry H digest (Inr v) = Inr R" "to_plain v = registry_source" "load_registry H' digest' = Inr reg"
  shows "case service_resolve R (JStr c) (JStr g) (JStr t) of
      Inr b \<Rightarrow> (\<exists>w. resolve_registry_binding reg (jobj [(js ''clientId'', JStr c), (js ''operation'', JStr t), (js ''requestOrigin'', JStr g)]) = Inr w
         \<and> fld w ''callbackUri'' = JStr (rb_callback_uri b) \<and> fld w ''clientDisplayName'' = JStr (rb_display_name b)
         \<and> fld w ''clientId'' = JStr (rb_client_id b) \<and> fld w ''operation'' = JStr (rb_operation b)
         \<and> fld w ''requestOrigin'' = JStr (rb_request_origin b) \<and> fld w ''registryReleaseSha256'' = JStr (rb_release_sha256 b)
         \<and> fld w ''maxLifetimeSeconds'' = jint (rb_max_lifetime_seconds b))
    | Inl e \<Rightarrow> e = relay_error ''unregistered''
         \<and> \<not> is_ok (resolve_registry_binding reg (jobj [(js ''clientId'', JStr c), (js ''operation'', JStr t), (js ''requestOrigin'', JStr g)]))"
proof -
  let ?v = "jobj [(js ''clientId'', JStr c), (js ''operation'', JStr t), (js ''requestOrigin'', JStr g)]"
  note views = registry_source_views [OF assms(1,2)]
  show ?thesis
  proof (cases "\<exists>r\<in>set EXPECTED_CLIENTS. c = js (row_id r) \<and> g = js (row_origin r) \<and> t \<in> js ` set (row_operations r)")
    case True
    then obtain r operation where r: "r \<in> set EXPECTED_CLIENTS" "c = js (row_id r)" "g = js (row_origin r)"
        "operation \<in> set (row_operations r)" "t = js operation" by blast
    obtain w where w: "resolve_registry_binding reg ?v = Inr w"
      using resolve_complete [OF assms(3) r(1,4)] r by (auto simp: is_ok_iff jlit_def)
    obtain q o' policy where q: "q \<in> set EXPECTED_CLIENTS" "fld ?v ''clientId'' = jlit (row_id q)" "fld ?v ''operation'' = jlit o'"
        "w = reviewed_binding q o' policy"
      by (rule resolve_reviewed [OF assms(3) w])
    have f: "fld ?v ''clientId'' = jlit (row_id r)" "fld ?v ''operation'' = jlit operation"
      using r by (simp_all add: fld_def field_jobj jlit_def)
    have "row_id r = row_id q" "o' = operation" using q(2,3) unfolding f by simp_all
    with reviewed_ids [OF r(1) q(1)] q(4) have w': "w = reviewed_binding r operation policy" by simp
    have "service_resolve R (JStr c) (JStr g) (JStr t) = Inr \<lparr>rb_callback_uri = js (row_callback r), rb_display_name = js (row_name r),
        rb_client_id = js (row_id r), rb_max_lifetime_seconds = 300, rb_operation = js operation, rb_request_origin = js (row_origin r),
        rb_release_sha256 = js source_release\<rparr>"
      using find_reviewed [OF r(1), of t] r(2-5) views by (simp add: service_resolve_def is_str_def str_of_def reviewed_view_def)
    then show ?thesis using w unfolding w' by (simp add: fld_reviewed_binding jlit_def)
  next
    case False
    have no: "\<not> is_ok (resolve_registry_binding reg ?v)"
    proof
      assume "is_ok (resolve_registry_binding reg ?v)"
      then obtain w where w: "resolve_registry_binding reg ?v = Inr w" by (auto simp: is_ok_iff)
      show False by (rule resolve_reviewed [OF assms(3) w]) (use False in \<open>auto simp: fld_def field_jobj jlit_def\<close>)
    qed
    have "find (\<lambda>x. rc_client_id x = c \<and> rc_request_origin x = g \<and> t \<in> set (allowed_operations x)) (map reviewed_view EXPECTED_CLIENTS) = None"
    proof (cases "\<exists>r\<in>set EXPECTED_CLIENTS. c = js (row_id r) \<and> g = js (row_origin r)")
      case True
      then show ?thesis using False find_reviewed [of _ t] by auto
    next
      case False
      then show ?thesis using find_unreviewed [of c g t] by blast
    qed
    then show ?thesis using no views by (simp add: service_resolve_def is_str_def str_of_def)
  qed
qed

lemma relay_agrees_with_origin_witness:
  "\<exists>R. new_client_registry https_host release_digest (Inr registry_source) = Inr R
     \<and> service_resolve R (jlit ''sdn-landing-web-v1'') (jlit ''https://spacedatanetwork.org'') (jlit ''nothing'') = Inl (relay_error ''unregistered'')
     \<and> is_ok (service_resolve R (jlit ''sdn-landing-web-v1'') (jlit ''https://spacedatanetwork.org'') (jlit ''sdn.wallet.account.v1''))"
proof -
  obtain R where R: "new_client_registry https_host release_digest (Inr registry_source) = Inr R"
    using sample_service_registry by (auto simp: is_ok_iff)
  note agree = relay_agrees_with_origin [OF R registry_source_plain sample_registry]
  define r where "r = EXPECTED_CLIENTS ! 0"
  have r: "r \<in> set EXPECTED_CLIENTS" "row_id r = ''sdn-landing-web-v1''" "row_origin r = ''https://spacedatanetwork.org''"
    "''sdn.wallet.account.v1'' \<in> set (row_operations r)" "''nothing'' \<notin> set (row_operations r)"
    by (simp_all add: r_def EXPECTED_CLIENTS_def registry_tables)
  have "is_ok (resolve_registry_binding (freeze_copy registry_source) (jobj [(js ''clientId'', jlit (row_id r)),
      (js ''operation'', jlit ''sdn.wallet.account.v1''), (js ''requestOrigin'', jlit (row_origin r))]))"
    using resolve_complete [OF sample_registry r(1,4)] by simp
  then have "is_ok (service_resolve R (jlit (row_id r)) (jlit (row_origin r)) (jlit ''sdn.wallet.account.v1''))"
    using agree [where c = "js (row_id r)" and g = "js (row_origin r)" and t = "js ''sdn.wallet.account.v1''"]
    by (auto simp: jlit_def is_ok_iff split: sum.splits)
  moreover have "service_resolve R (jlit (row_id r)) (jlit (row_origin r)) (jlit ''nothing'') = Inl (relay_error ''unregistered'')"
    using find_reviewed [OF r(1), of "js ''nothing''"] r(5) registry_source_views(1) [OF R registry_source_plain]
    by (auto simp: service_resolve_def jlit_def is_str_def str_of_def)
  ultimately show ?thesis using R r by auto
qed

end
