(* ===== verification/RateLimits.thy ===== *)
theory RateLimits
  imports RelayServer
begin

section \<open>What the rate limiter of relay/src/server.ts allows\<close>

text \<open>
  Windows of the limiter start at the first call after the last one ended, so a span of one window's
  length meets at most two of them.
\<close>

lemma set_map_fst: "map fst (map (\<lambda>(i, c). (i, f i c)) bs) = map fst bs"
  by (induction bs) auto

lemma map_of_set_bucket: "map_of (set_bucket k b bs) j = (if j = k then Some b else map_of bs j)"
proof -
  have "map_of (map (\<lambda>(i, c). (i, if i = k then b else c)) bs) j = (if j = k \<and> map_of bs k \<noteq> None then Some b else map_of bs j)"
    by (induction bs) auto
  then show ?thesis by (auto simp: set_bucket_def map_add_def split: option.split)
qed

lemma distinct_set_bucket: "distinct (map fst bs) \<Longrightarrow> distinct (map fst (set_bucket k b bs))"
  unfolding set_bucket_def using set_map_fst [of "\<lambda>i c. if i = k then b else c" bs]
  by (simp add: map_of_eq_None_iff del: map_map)

lemma length_set_bucket: "length (set_bucket k b bs) = (if map_of bs k = None then Suc (length bs) else length bs)"
  by (simp add: set_bucket_def)

lemma map_of_filter:
  assumes "distinct (map fst bs)"
  shows "map_of (filter (\<lambda>(_, b). P b) bs) k = (case map_of bs k of Some b \<Rightarrow> if P b then Some b else None | None \<Rightarrow> None)"
  using assms
proof (induction bs)
  case (Cons x bs)
  then have "map_of bs (fst x) = None" by (simp add: map_of_eq_None_iff)
  with Cons show ?case by (cases x) (auto split: option.split)
qed simp

fun granted :: "limiter \<Rightarrow> jstring \<Rightarrow> (jstring \<times> int \<times> nat) list \<Rightarrow> buckets \<Rightarrow> int list" where
  \<comment> \<open>the times at which a key was let through\<close>
  "granted L k [] bs = []"
| "granted L k ((key, now, m) # cs) bs =
     (if key = k \<and> is_ok (fst (take_rate L key now m bs)) then [now] else []) @ granted L k cs (snd (take_rate L key now m bs))"

subsection \<open>The history of a key\<close>

text \<open>The times a key was let through, each with the start of the window it fell into.\<close>

type_synonym history = "(int \<times> int) list"

definition count_start :: "int \<Rightarrow> history \<Rightarrow> nat" where
  "count_start s g = length (filter (\<lambda>x. snd x = s) g)"

definition spans :: "int \<Rightarrow> history \<Rightarrow> bool" where
  "spans w g \<longleftrightarrow> (\<forall>x\<in>set g. snd x \<le> fst x \<and> fst x < snd x + w)"

definition apart :: "int \<Rightarrow> history \<Rightarrow> bool" where
  "apart w g \<longleftrightarrow> (\<forall>x\<in>set g. \<forall>y\<in>set g. snd x = snd y \<or> w \<le> \<bar>snd x - snd y\<bar>)"

definition at_most :: "nat \<Rightarrow> history \<Rightarrow> bool" where
  "at_most m g \<longleftrightarrow> (\<forall>s. count_start s g \<le> m)"

definition told_by :: "int \<Rightarrow> int \<Rightarrow> bucket option \<Rightarrow> history \<Rightarrow> bool" where
  \<comment> \<open>what the key's bucket says of its history; without one, every window is over\<close>
  "told_by w tick found g \<longleftrightarrow> (case found of
       None \<Rightarrow> \<forall>x\<in>set g. snd x + w \<le> tick
     | Some b \<Rightarrow> started_at b \<le> tick \<and> count_start (started_at b) g = bucket_count b \<and> 1 \<le> bucket_count b
         \<and> (\<forall>x\<in>set g. snd x \<le> started_at b))"

definition limited :: "limiter \<Rightarrow> jstring \<Rightarrow> nat \<Rightarrow> buckets \<Rightarrow> history \<Rightarrow> int \<Rightarrow> bool" where
  "limited L k m bs g tick \<longleftrightarrow> distinct (map fst bs) \<and> spans (window_ms L) g \<and> apart (window_ms L) g \<and> at_most m g
     \<and> told_by (window_ms L) tick (map_of bs k) g"

lemma count_start_snoc: "count_start s (g @ [(t, s')]) = count_start s g + (if s = s' then 1 else 0)"
  by (simp add: count_start_def)

lemma spans_snoc: "spans w (g @ [(t, s)]) \<longleftrightarrow> spans w g \<and> s \<le> t \<and> t < s + w"
  by (auto simp: spans_def)

lemma apart_snoc: "apart w (g @ [(t, s)]) \<longleftrightarrow> apart w g \<and> (\<forall>x\<in>set g. snd x = s \<or> w \<le> \<bar>snd x - s\<bar>)"
  by (auto simp: apart_def abs_minus_commute)

lemma at_most_snoc: "at_most m g \<Longrightarrow> count_start s g < m \<Longrightarrow> at_most m (g @ [(t, s)])"
  by (simp add: at_most_def count_start_snoc Suc_le_eq)

lemma count_start_new: "\<forall>x\<in>set g. snd x < s \<Longrightarrow> count_start s g = 0"
  by (auto simp: count_start_def filter_empty_conv)

lemma count_start_in: "1 \<le> count_start s g \<Longrightarrow> \<exists>x\<in>set g. snd x = s"
  by (rule ccontr) (auto simp: count_start_def filter_empty_conv)

lemma limited_reset:
  assumes g: "spans (window_ms L) g" "apart (window_ms L) g" "at_most m g" and "distinct (map fst cs)"
    "1 \<le> m" "0 < window_ms L" and old: "\<forall>x\<in>set g. snd x + window_ms L \<le> now"
  shows "limited L k m (set_bucket k \<lparr>bucket_count = 1, started_at = now\<rparr> cs) (g @ [(now, now)]) now"
proof -
  have b: "\<forall>x\<in>set g. snd x < now" using assms(6) old by force
  have "apart (window_ms L) (g @ [(now, now)])" using g(2) old b by (auto simp: apart_snoc)
  moreover have "at_most m (g @ [(now, now)])" using g(3) count_start_new [OF b] assms(5) by (simp add: at_most_snoc)
  moreover have "told_by (window_ms L) now (Some \<lparr>bucket_count = 1, started_at = now\<rparr>) (g @ [(now, now)])"
    using b count_start_new [OF b] by (auto simp: told_by_def count_start_snoc)
  ultimately show ?thesis using assms by (simp add: limited_def distinct_set_bucket map_of_set_bucket spans_snoc)
qed

lemma limited_again:
  assumes "limited L k m bs g tick" "tick \<le> now" "map_of bs k = Some b" "now < started_at b + window_ms L" "bucket_count b < m"
  shows "limited L k m (set_bucket k (b\<lparr>bucket_count := Suc (bucket_count b)\<rparr>) bs) (g @ [(now, started_at b)]) now"
proof -
  have b: "started_at b \<le> tick" "count_start (started_at b) g = bucket_count b" "1 \<le> bucket_count b" "\<forall>x\<in>set g. snd x \<le> started_at b"
    using assms(1,3) by (auto simp: limited_def told_by_def)
  obtain y where y: "y \<in> set g" "snd y = started_at b" using count_start_in b(2,3) by metis
  have "\<forall>x\<in>set g. snd x = started_at b \<or> window_ms L \<le> \<bar>snd x - started_at b\<bar>"
    using assms(1) y unfolding limited_def apart_def by metis
  with assms b show ?thesis
    by (simp add: limited_def distinct_set_bucket map_of_set_bucket spans_snoc apart_snoc at_most_snoc told_by_def count_start_snoc)
qed

lemma told_by_later: "told_by w tick found g \<Longrightarrow> tick \<le> now \<Longrightarrow> told_by w now found g"
  by (cases found) (simp_all add: told_by_def, meson order_trans)

lemma limited_later: "limited L k m bs g tick \<Longrightarrow> tick \<le> now \<Longrightarrow> limited L k m bs g now"
  using told_by_later by (auto simp: limited_def)

lemma limited_other: "limited L k m bs g tick \<Longrightarrow> key \<noteq> k \<Longrightarrow> limited L k m (set_bucket key b bs) g tick"
  by (simp add: limited_def map_of_set_bucket distinct_set_bucket)

lemma limited_filter:
  assumes "limited L k m bs g now"
  shows "limited L k m (filter (\<lambda>(_, b). current L now b) bs) g now"
proof -
  have "distinct (map fst (filter (\<lambda>(_, b). current L now b) bs))"
    using assms distinct_map_filter unfolding limited_def by blast
  moreover have "told_by (window_ms L) now (map_of (filter (\<lambda>(_, b). current L now b) bs) k) g"
  proof (cases "map_of bs k")
    case (Some b)
    then have b: "\<forall>x\<in>set g. snd x \<le> started_at b" using assms by (simp add: limited_def told_by_def)
    show ?thesis
    proof (cases "current L now b")
      case True
      then show ?thesis using assms Some by (simp add: limited_def map_of_filter)
    next
      case False
      then have "\<forall>x\<in>set g. snd x + window_ms L \<le> now" using b by (force simp: current_def)
      then show ?thesis using assms Some False by (simp add: limited_def map_of_filter told_by_def)
    qed
  qed (use assms in \<open>simp add: limited_def map_of_filter\<close>)
  ultimately show ?thesis using assms by (simp add: limited_def)
qed

lemma take_other:
  assumes "limited L k m bs g now" "key \<noteq> k"
  shows "limited L k m (snd (take_rate L key now maximum bs)) g now"
  using assms(1) limited_filter [OF assms(1)] limited_other [OF assms] limited_other [OF limited_filter [OF assms(1)] assms(2)]
  by (simp add: take_rate_def Let_def split: option.split)

lemma take_own:
  assumes "limited L k m bs g tick" "tick \<le> now" "1 \<le> m" "0 < window_ms L"
  shows "(fst (take_rate L k now m bs) \<noteq> Inr () \<and> limited L k m (snd (take_rate L k now m bs)) g now)
    \<or> (fst (take_rate L k now m bs) = Inr () \<and> (\<exists>s. limited L k m (snd (take_rate L k now m bs)) (g @ [(now, s)]) now))"
proof (cases "map_of bs k")
  case (Some b)
  have g: "spans (window_ms L) g" "apart (window_ms L) g" "at_most m g" "distinct (map fst bs)"
    using assms(1) by (simp_all add: limited_def)
  show ?thesis
  proof (cases "current L now b")
    case True
    then have c: "now < started_at b + window_ms L" by (simp add: current_def)
    show ?thesis
    proof (cases "m \<le> bucket_count b")
      case full: True
      then have "take_rate L k now m bs = (Inl (relay_error ''rateLimited''), bs)" using True Some by (simp add: take_rate_def)
      then show ?thesis using limited_later [OF assms(1,2)] by simp
    next
      case room: False
      then have "take_rate L k now m bs = (Inr (), set_bucket k (b\<lparr>bucket_count := Suc (bucket_count b)\<rparr>) bs)"
        using True Some by (simp add: take_rate_def)
      then show ?thesis using limited_again [OF assms(1,2) Some c] room by auto
    qed
  next
    case False
    have "\<forall>x\<in>set g. snd x \<le> started_at b" using assms(1) Some by (simp add: limited_def told_by_def)
    then have "\<forall>x\<in>set g. snd x + window_ms L \<le> now" using False by (force simp: current_def)
    from limited_reset [OF g assms(3,4) this] False Some show ?thesis by (auto simp: take_rate_def)
  qed
next
  case None
  have old: "\<forall>x\<in>set g. snd x + window_ms L \<le> now" using limited_later [OF assms(1,2)] None by (simp add: limited_def told_by_def)
  note f = limited_filter [OF limited_later [OF assms(1,2)]]
  have r: "limited L k m (set_bucket k \<lparr>bucket_count = 1, started_at = now\<rparr> cs) (g @ [(now, now)]) now" if "distinct (map fst cs)" for cs
    using limited_reset [OF _ _ _ that assms(3,4) old] assms(1) by (simp add: limited_def)
  have "distinct (map fst bs)" "distinct (map fst (filter (\<lambda>(_, b). current L now b) bs))" using assms(1) f by (simp_all add: limited_def)
  with r f None show ?thesis by (auto simp: take_rate_def Let_def)
qed

lemma granted_limited:
  assumes "limited L k m bs g tick" "sorted (tick # map (\<lambda>(_, now, _). now) cs)" "1 \<le> m" "0 < window_ms L"
    "\<forall>(key, now, maximum)\<in>set cs. key = k \<longrightarrow> maximum = m"
  shows "\<exists>bs' g' tick'. limited L k m bs' g' tick' \<and> map fst g' = map fst g @ granted L k cs bs"
  using assms(1,2,5)
proof (induction cs arbitrary: bs g tick)
  case (Cons c cs)
  obtain key now maximum where c: "c = (key, now, maximum)" by (cases c) auto
  have t: "tick \<le> now" using Cons.prems(2) c by simp
  have "\<exists>h. limited L k m (snd (take_rate L key now maximum bs)) (g @ h) now
      \<and> map fst h = (if key = k \<and> is_ok (fst (take_rate L key now maximum bs)) then [now] else [])"
  proof (cases "key = k")
    case False
    with take_other [OF limited_later [OF Cons.prems(1) t] False] show ?thesis by (intro exI [of _ "[]"]) simp
  next
    case True
    then have m: "maximum = m" using Cons.prems(3) c by simp
    from take_own [OF Cons.prems(1) t assms(3,4)] show ?thesis unfolding True m
    proof (elim disjE conjE exE)
      assume "fst (take_rate L k now m bs) \<noteq> Inr ()" "limited L k m (snd (take_rate L k now m bs)) g now"
      then show "\<exists>h. limited L k m (snd (take_rate L k now m bs)) (g @ h) now \<and> map fst h = (if k = k \<and> is_ok (fst (take_rate L k now m bs)) then [now] else [])"
        by (intro exI [of _ "[]"]) (auto simp: is_ok_iff)
    next
      fix s assume "fst (take_rate L k now m bs) = Inr ()" "limited L k m (snd (take_rate L k now m bs)) (g @ [(now, s)]) now"
      then show "\<exists>h. limited L k m (snd (take_rate L k now m bs)) (g @ h) now \<and> map fst h = (if k = k \<and> is_ok (fst (take_rate L k now m bs)) then [now] else [])"
        by (intro exI [of _ "[(now, s)]"]) simp
    qed
  qed
  then obtain h where h: "limited L k m (snd (take_rate L key now maximum bs)) (g @ h) now"
      "map fst h = (if key = k \<and> is_ok (fst (take_rate L key now maximum bs)) then [now] else [])" by blast
  from Cons.IH [OF h(1)] Cons.prems(2,3) c obtain bs' g' tick' where "limited L k m bs' g' tick'"
      "map fst g' = map fst (g @ h) @ granted L k cs (snd (take_rate L key now maximum bs))" by auto
  moreover from this(2) have "map fst g' = map fst g @ granted L k (c # cs) bs" using h(2) c by simp
  ultimately show ?case by blast
qed (use assms(1) in auto)

subsection \<open>Spans of one window\<close>

lemma two_starts:
  assumes "spans w g" "apart w g" "at_most m g" "0 < w"
  shows "length (filter (\<lambda>x. t0 \<le> fst x \<and> fst x < t0 + w) g) \<le> 2 * m"
proof -
  define h where "h = filter (\<lambda>x. t0 \<le> fst x \<and> fst x < t0 + w) g"
  have m: "length (filter (\<lambda>x. snd x = s) h) \<le> m" for s
  proof -
    have "length (filter P (filter Q g)) \<le> length (filter P g)" for P Q by (induction g) auto
    then show ?thesis using assms(3) unfolding h_def at_most_def count_start_def by (meson order_trans)
  qed
  have sub: "set h \<subseteq> set g" by (auto simp: h_def)
  have near: "t0 - w < snd x" "snd x < t0 + w" if "x \<in> set h" for x using that assms(1) by (fastforce simp: h_def spans_def)+
  have apart: "snd x = snd y \<or> w \<le> \<bar>snd x - snd y\<bar>" if "x \<in> set h" "y \<in> set h" for x y
    using assms(2) that sub by (auto simp: apart_def)
  show ?thesis
  proof (cases h)
    case (Cons z zs)
    obtain l where l: "l \<in> set h" "\<forall>x\<in>set h. snd l \<le> snd x"
      using ex_min_if_finite [of "snd ` set h"] Cons by (metis (no_types) arg_min_if_finite(1) arg_min_least empty_iff finite_set list.set_intros(1))
    show ?thesis
    proof (cases "\<forall>x\<in>set h. snd x = snd l")
      case True
      then have "filter (\<lambda>x. snd x = snd l) h = h" by simp
      with m [of "snd l"] show ?thesis by (simp add: h_def)
    next
      case False
      then obtain u where u: "u \<in> set h" "snd u \<noteq> snd l" by blast
      have two: "snd x = snd l \<or> snd x = snd u" if "x \<in> set h" for x
      proof (rule ccontr)
        assume n: "\<not> (snd x = snd l \<or> snd x = snd u)"
        have "snd l + w \<le> snd x" "snd l + w \<le> snd u" "w \<le> \<bar>snd x - snd u\<bar>"
          using n u(2) apart [OF that l(1)] apart [OF u(1) l(1)] apart [OF that u(1)] l(2) that u(1) by force+
        with near [OF that] near [OF u(1)] near [OF l(1)] show False by linarith
      qed
      have "length h' \<le> length (filter (\<lambda>x. snd x = snd l) h') + length (filter (\<lambda>x. snd x = snd u) h')"
        if "\<forall>x\<in>set h'. snd x = snd l \<or> snd x = snd u" for h'
        using that by (induction h') auto
      with two have "length h \<le> length (filter (\<lambda>x. snd x = snd l) h) + length (filter (\<lambda>x. snd x = snd u) h)" by blast
      with m [of "snd l"] m [of "snd u"] show ?thesis by (simp add: h_def)
    qed
  qed (simp add: h_def)
qed

lemma take_bounded: "length bs \<le> maximum_buckets L \<Longrightarrow> length (snd (take_rate L key now m bs)) \<le> maximum_buckets L"
proof -
  have "length (filter P bs) \<le> length bs" for P by (rule length_filter_le)
  moreover have "map_of bs k = None \<Longrightarrow> map_of (filter P bs) k = None" for P k by (auto simp: map_of_eq_None_iff)
  ultimately show "length bs \<le> maximum_buckets L \<Longrightarrow> ?thesis"
    by (auto simp: take_rate_def length_set_bucket Let_def split: option.split intro: order_trans)
qed

text \<open>C32: a key is let through at most twice its maximum in any span of one window, wherever the span
  starts and however calls for other keys, evictions and refusals are mixed in, as long as the
  monotonic clock does not go back; and the limiter never holds more buckets than configured.\<close>

theorem rate_limited:
  assumes "sorted (map (\<lambda>(_, now, _). now) calls)" "\<forall>(key, now, maximum)\<in>set calls. key = k \<longrightarrow> maximum = m" "1 \<le> m" "1 \<le> window_ms L"
  shows "length (filter (\<lambda>t. start \<le> t \<and> t < start + window_ms L) (granted L k calls [])) \<le> 2 * m
    \<and> length (foldl (\<lambda>bs (key, now, maximum). snd (take_rate L key now maximum bs)) [] calls) \<le> maximum_buckets L"
proof
  define tick where "tick = (case calls of [] \<Rightarrow> 0 | (_, now, _) # _ \<Rightarrow> now)"
  have "limited L k m [] [] tick" by (simp add: limited_def count_start_def spans_def apart_def at_most_def told_by_def)
  moreover have "sorted (tick # map (\<lambda>(_, now, _). now) calls)"
    using assms(1) by (cases calls) (auto simp: tick_def)
  ultimately obtain bs g c where "limited L k m bs g c" "map fst g = granted L k calls []"
    using granted_limited [of L k m "[]" "[]" tick calls] assms by auto
  with two_starts [of "window_ms L" g m start] assms(4) have two: "length (filter (\<lambda>x. start \<le> fst x \<and> fst x < start + window_ms L) g) \<le> 2 * m"
    unfolding limited_def by auto
  have "length (filter P (map fst g)) = length (filter (\<lambda>x. P (fst x)) g)" for P by (induction g) auto
  from this [of "\<lambda>t. start \<le> t \<and> t < start + window_ms L"]
  have "length (filter (\<lambda>t. start \<le> t \<and> t < start + window_ms L) (granted L k calls []))
      = length (filter (\<lambda>x. start \<le> fst x \<and> fst x < start + window_ms L) g)" unfolding \<open>map fst g = _\<close> .
  with two show "length (filter (\<lambda>t. start \<le> t \<and> t < start + window_ms L) (granted L k calls [])) \<le> 2 * m"
    by (simp only:)
  have "length (foldl (\<lambda>bs (key, now, maximum). snd (take_rate L key now maximum bs)) bs calls) \<le> maximum_buckets L"
    if "length bs \<le> maximum_buckets L" for bs
    using that by (induction calls arbitrary: bs) (auto simp: take_bounded)
  then show "length (foldl (\<lambda>bs (key, now, maximum). snd (take_rate L key now maximum bs)) [] calls) \<le> maximum_buckets L" by simp
qed

lemma rate_limited_witness:
  "length (filter (\<lambda>t. 0 \<le> t \<and> t < 0 + 10) (granted \<lparr>maximum_buckets = 16, window_ms = 10\<rparr> [1]
     [([1], 5, 1), ([2], 6, 3), ([1], 7, 1), ([1], 15, 1)] [])) \<le> 2 * 1"
  using rate_limited [of "[([1], 5, 1), ([2], 6, 3), ([1], 7, 1), ([1], 15, 1)]" "[1]" 1 "\<lparr>maximum_buckets = 16, window_ms = 10\<rparr>" 0]
  by (simp del: granted.simps)

end
