(* ===== verification/RelayStoreProperties.thy ===== *)
theory RelayStoreProperties
  imports RelayStore "HOL-Library.Sublist"
begin

section \<open>The relay's store: rows, lifecycle, redemption\<close>

text \<open>
  Every reachable table is well formed; a row's secrets are there exactly while it is open. The table
  implements a lifecycle machine per transaction: registered, answered, closed, forgotten. From the
  machine: a redemption returns the result posted last, once per registration.
\<close>

subsection \<open>Well-formed tables\<close>

definition row_ok :: "stored_transaction \<Rightarrow> bool" where
  "row_ok r \<longleftrightarrow> (case status r of
      Pending \<Rightarrow> request_json r \<noteq> None \<and> result_token r \<noteq> None \<and> result_json r = None \<and> authorization_code r = None
    | Completed \<Rightarrow> request_json r \<noteq> None \<and> result_token r \<noteq> None \<and> result_json r \<noteq> None \<and> result_sha256 r \<noteq> None
        \<and> authorization_code r \<noteq> None
    | _ \<Rightarrow> request_json r = None \<and> result_token r = None \<and> result_json r = None \<and> authorization_code r = None)"

definition keys_ok :: "table \<Rightarrow> bool" where
  "keys_ok rows \<longleftrightarrow> distinct (map transaction_id rows) \<and> no_clash result_token rows \<and> no_clash authorization_code rows"

definition table_ok :: "nat \<Rightarrow> table \<Rightarrow> bool" where
  "table_ok m rows \<longleftrightarrow> list_all row_ok rows \<and> keys_ok rows \<and> length rows \<le> m"

definition shrinks :: "(stored_transaction \<Rightarrow> stored_transaction) \<Rightarrow> bool" where
  \<comment> \<open>a statement that clears keys but sets none\<close>
  "shrinks f \<longleftrightarrow> (\<forall>r. transaction_id (f r) = transaction_id r \<and> result_token (f r) \<in> {None, result_token r}
      \<and> authorization_code (f r) \<in> {None, authorization_code r} \<and> (row_ok r \<longrightarrow> row_ok (f r)))"

lemma constraints_Inr: "constraints rows = Inr u \<longleftrightarrow> keys_ok rows"
  by (simp add: constraints_def keys_ok_def)

lemma no_clash_map:
  assumes "\<And>r. column (f r) \<in> {None, column r}" "no_clash column rows"
  shows "no_clash column (map f rows)"
proof -
  have sub: "set (List.map_filter column (map f rows)) \<subseteq> set (List.map_filter column rows)" for rows
    using assms(1) by (induction rows) (auto simp: map_filter_simps split: option.splits, (metis insertE option.distinct(1) option.inject singletonD)+)
  show ?thesis using assms(2)
  proof (induction rows)
    case (Cons r rows)
    then show ?case using assms(1) [of r] sub [of rows]
      by (cases "column (f r)"; cases "column r") (auto simp: no_clash_def map_filter_simps)
  qed (simp add: no_clash_def map_filter_simps)
qed

lemma no_clash_filter: "no_clash column rows \<Longrightarrow> no_clash column (filter P rows)"
proof -
  have sub: "set (List.map_filter column (filter P rows)) \<subseteq> set (List.map_filter column rows)" for rows
    by (induction rows) (auto simp: map_filter_simps split: option.splits)
  show "no_clash column rows \<Longrightarrow> no_clash column (filter P rows)"
    using sub by (induction rows) (auto simp: no_clash_def map_filter_simps split: option.splits)
qed

lemma keys_ok_map: "shrinks f \<Longrightarrow> keys_ok rows \<Longrightarrow> keys_ok (map f rows)"
  by (auto simp: keys_ok_def shrinks_def comp_def intro: no_clash_map)

lemma table_ok_map: "shrinks f \<Longrightarrow> table_ok m rows \<Longrightarrow> table_ok m (map f rows)"
  by (auto simp: table_ok_def keys_ok_map) (auto simp: shrinks_def list_all_iff)

lemma table_ok_filter: "table_ok m rows \<Longrightarrow> table_ok m (filter P rows)"
  by (auto simp: table_ok_def keys_ok_def list_all_iff no_clash_filter distinct_map_filter intro: order_trans [OF length_filter_le])

lemma row_ok_wipe: "final \<notin> {Pending, Completed} \<Longrightarrow> row_ok (wipe final r)"
  by (cases final) (simp_all add: row_ok_def wipe_def)

lemma shrinks_wipe:
  "final \<notin> {Pending, Completed} \<Longrightarrow> shrinks (\<lambda>r. if P r then wipe final r else r)"
  by (simp add: shrinks_def row_ok_wipe) (simp add: wipe_def)

lemma shrinks_expire: "shrinks (expire_row now)"
  using shrinks_wipe [of Expired "\<lambda>r. expires_at_ms r \<le> now \<and> is_open r"]
  by (simp add: expire_row_def [abs_def])

lemma table_ok_expire: "table_ok m rows \<Longrightarrow> table_ok m (expire_all now rows)"
  by (simp add: expire_all_def table_ok_map shrinks_expire)

lemma table_ok_room: "table_ok m rows \<Longrightarrow> table_ok m (make_room n now rows)"
  by (simp add: make_room_def table_ok_filter)

lemma immediate_ok:
  assumes "table_ok m rows" "\<And>x rows'. r = Inr (x, rows') \<Longrightarrow> table_ok m rows'"
  shows "table_ok m (snd (immediate rows r))"
  using assms by (auto simp: immediate_def split: sum.split)

lemmas methods = store_create_def store_get_def store_complete_def store_redeem_def store_cancel_def store_expire_def

lemma raw_Some: "raw rows i = Some r \<Longrightarrow> r \<in> set rows \<and> transaction_id r = i"
  by (auto simp: raw_def find_Some_iff)

lemma list_all_completed:
  "list_all row_ok rows \<Longrightarrow> list_all row_ok (map (\<lambda>r. if transaction_id r = i \<and> status r = Pending then completed c code r else r) rows)"
  by (auto simp: list_all_iff row_ok_def completed_def)

lemma run_call_ok: "table_ok m rows \<Longrightarrow> table_ok m (snd (run_call m c rows))"
proof -
  assume rows: "table_ok m rows"
  have e: "table_ok m (expire_all now rows)" for now by (rule table_ok_expire [OF rows])
  have w: "table_ok m (map (\<lambda>r. if P r then wipe final r else r) (expire_all now rows))"
    if "final \<notin> {Pending, Completed}" for final now P
    by (rule table_ok_map [OF shrinks_wipe [OF that] e])
  show ?thesis
  proof (cases c)
    case (Create i)
    have n: "row_ok (new_row i)" by (simp add: row_ok_def new_row_def)
    show ?thesis using e [of "ci_created_at_ms i"] table_ok_room [OF e, of m "ci_created_at_ms i" "ci_created_at_ms i"] n unfolding Create
      by (auto simp: store_create_def Let_def rbind_Inr_iff constraints_Inr intro!: immediate_ok rows split: if_splits)
        (auto simp: table_ok_def)
  next
    case (Get i now)
    then show ?thesis using e [of now]
      by (auto simp: store_get_def Let_def intro!: immediate_ok rows split: if_splits option.splits)
  next
    case (Complete i)
    have "table_ok m (map (\<lambda>r. if transaction_id r = co_transaction_id i \<and> status r = Pending then completed i code r else r) (expire_all (co_now_ms i) rows))"
      if "keys_ok (map (\<lambda>r. if transaction_id r = co_transaction_id i \<and> status r = Pending then completed i code r else r) (expire_all (co_now_ms i) rows))" for code
      using e [of "co_now_ms i"] that list_all_completed by (simp add: table_ok_def)
    then show ?thesis using e [of "co_now_ms i"] unfolding Complete
      by (auto simp: store_complete_def Let_def rbind_Inr_iff constraints_Inr update_where_def intro!: immediate_ok rows split: if_splits option.splits)
  next
    case (Redeem i)
    then show ?thesis using e [of "re_now_ms i"] w [of Consumed _ "re_now_ms i"]
      by (auto simp: store_redeem_def Let_def rbind_Inr_iff update_where_def intro!: immediate_ok rows
          split: if_splits option.splits relay_status.splits)
  next
    case (Cancel i)
    then show ?thesis using e [of "ca_now_ms i"] w [of Cancelled _ "ca_now_ms i"]
      by (auto simp: store_cancel_def Let_def rbind_Inr_iff update_where_def intro!: immediate_ok rows split: if_splits option.splits)
  next
    case (Expire now)
    then show ?thesis using e by (simp add: store_expire_def)
  qed
qed

lemma reach_ok: "store_reach m h rows \<Longrightarrow> table_ok m rows"
proof (induction rule: store_reach.induct)
  case (reach_call h rows c reply rows')
  from run_call_ok [OF reach_call.IH, of c] show ?case by (simp only: reach_call.hyps(2) snd_conv)
qed (simp_all add: table_ok_def keys_ok_def no_clash_def map_filter_simps)

lemma all_equal_Inr: "all_equal ps = Inr (list_all (\<lambda>(a, b). utf8_encode a = utf8_encode b) ps)"
  by (induction ps rule: all_equal.induct) (simp_all add: constant_time_equal_Inr)

subsection \<open>A small exchange\<close>

definition sample_create :: create_input where
  "sample_create = \<lparr>ci_binding = \<lparr>rb_callback_uri = js ''c'', rb_display_name = js ''n'', rb_client_id = js ''k'',
       rb_max_lifetime_seconds = 300, rb_operation = js ''o'', rb_request_origin = js ''g'', rb_release_sha256 = js ''v''\<rparr>,
     ci_code_challenge = js ''h'', ci_created_at_ms = 0, ci_expires_at_ms = 300000, ci_request_json = js ''q'',
     ci_request_sha256 = js ''d'', ci_result_token = js ''t'', ci_state = js ''s'', ci_transaction_id = js ''i''\<rparr>"

definition sample_complete :: complete_input where
  "sample_complete = \<lparr>co_code = Inr (js ''a''), co_now_ms = 1000, co_result_json = js ''r'', co_result_sha256 = js ''e'',
     co_result_token = js ''t'', co_transaction_id = js ''i''\<rparr>"

definition sample_redeem :: redeem_input where
  "sample_redeem = \<lparr>re_code = js ''a'', re_code_challenge = js ''h'', re_now_ms = 2000, re_request_origin = js ''g'',
     re_state = js ''s'', re_transaction_id = js ''i''\<rparr>"

definition sample_row :: stored_transaction where
  "sample_row = completed sample_complete (js ''a'') (new_row sample_create)"

lemmas sample_defs = sample_create_def sample_complete_def sample_redeem_def

lemma sample_created: "store_create 1 sample_create [] = (Inr (Ok (new_row sample_create)), [new_row sample_create])"
  by (simp add: store_create_def immediate_def expire_all_def raw_def make_room_def constraints_def ensure_def no_clash_def
      map_filter_simps new_row_def)

lemma sample_completed: "store_complete sample_complete [new_row sample_create] = (Inr (Ok sample_row), [sample_row])"
  by (simp add: store_complete_def immediate_def expire_all_def expire_row_def raw_def token_matches_def constant_time_equal_Inr
      update_where_def constraints_def ensure_def no_clash_def map_filter_simps sample_row_def completed_def new_row_def sample_defs)

lemma sample_redeemed: "store_redeem sample_redeem [sample_row] = (Inr (Ok (js ''r'', sample_row)), [wipe Consumed sample_row])"
  by (simp add: store_redeem_def immediate_def expire_all_def expire_row_def raw_def all_equal_Inr
      update_where_def sample_row_def completed_def new_row_def sample_defs)

abbreviation sample_history :: "store_event list" where
  "sample_history \<equiv> [Called (Create sample_create) (Row (Inr (Ok (new_row sample_create))))]"

lemma sample_reach: "store_reach 1 sample_history [new_row sample_create]"
  using reach_call [OF reach_start, of 1 "Create sample_create"] by (simp add: sample_created [simplified])

text \<open>C28: whatever calls and restarts a service has seen, its table has one row per transaction id, no
  two rows share a result token or an authorization code, there are at most \<open>maximumRows\<close> rows, a
  pending row holds its request and token and no result, a completed row holds request, token, result
  and code, and a consumed, cancelled or expired row holds none of the four.\<close>

theorem table_invariant:
  assumes "store_reach m h rows"
  shows "distinct (map transaction_id rows) \<and> distinct (List.map_filter result_token rows)
    \<and> distinct (List.map_filter authorization_code rows) \<and> length rows \<le> m
    \<and> (\<forall>r\<in>set rows. case status r of
         Pending \<Rightarrow> request_json r \<noteq> None \<and> result_token r \<noteq> None \<and> result_json r = None \<and> authorization_code r = None
       | Completed \<Rightarrow> request_json r \<noteq> None \<and> result_token r \<noteq> None \<and> result_json r \<noteq> None \<and> authorization_code r \<noteq> None
       | _ \<Rightarrow> request_json r = None \<and> result_token r = None \<and> result_json r = None \<and> authorization_code r = None)"
  using reach_ok [OF assms]
  by (auto simp: table_ok_def keys_ok_def no_clash_def list_all_iff row_ok_def split: relay_status.splits)

lemma table_invariant_witness:
  "store_reach 1 sample_history [new_row sample_create] \<and> length [new_row sample_create] \<le> 1"
  using sample_reach table_invariant [OF sample_reach] by simp

subsection \<open>The lifecycle machine\<close>

datatype phase = Waiting | Answered jstring | Closed

type_synonym spec = "jstring \<Rightarrow> phase option"

datatype life_event =
    Lapsed \<comment> \<open>some open transactions ended by time\<close>
  | Forgotten \<comment> \<open>some closed ones dropped\<close>
  | Lost \<comment> \<open>everything dropped by a restart\<close>
  | Registered jstring
  | Posted jstring jstring
  | Redeemed jstring jstring
  | Called_Off jstring

inductive life_step :: "spec \<Rightarrow> life_event \<Rightarrow> spec \<Rightarrow> bool" where
  lapse: "life_step s Lapsed (\<lambda>i. if i \<in> I \<and> s i \<noteq> None then Some Closed else s i)"
| forget: "life_step s Forgotten (\<lambda>i. if i \<in> I \<and> s i = Some Closed then None else s i)"
| lose: "life_step s Lost Map.empty"
| register: "s i = None \<Longrightarrow> life_step s (Registered i) (s(i \<mapsto> Waiting))"
| post: "s i = Some Waiting \<Longrightarrow> life_step s (Posted i result) (s(i \<mapsto> Answered result))"
| redeem: "s i = Some (Answered result) \<Longrightarrow> life_step s (Redeemed i result) (s(i \<mapsto> Closed))"
| call_off: "s i = Some Waiting \<or> s i = Some (Answered result) \<Longrightarrow> life_step s (Called_Off i) (s(i \<mapsto> Closed))"

inductive life_run :: "spec \<Rightarrow> life_event list \<Rightarrow> spec \<Rightarrow> bool" where
  stay: "life_run s [] s"
| move: "life_run s es t \<Longrightarrow> life_step t e u \<Longrightarrow> life_run s (es @ [e]) u"

inductive_simps life_step_simps:
  "life_step s Lost t" "life_step s (Registered i) t" "life_step s (Posted i r) t" "life_step s (Redeemed i r) t" "life_step s (Called_Off i) t"

lemma life_run_one: "life_step s e t \<Longrightarrow> life_run s [e] t"
  using move [OF stay] by simp

lemma life_run_append: "life_run t fs u \<Longrightarrow> life_run s es t \<Longrightarrow> life_run s (es @ fs) u"
  by (induction rule: life_run.induct) (auto intro: move simp flip: append_assoc)

subsection \<open>A table as a lifecycle\<close>

definition phase_of :: "stored_transaction \<Rightarrow> phase" where
  "phase_of r = (case status r of Pending \<Rightarrow> Waiting | Completed \<Rightarrow> Answered (the (result_json r)) | _ \<Rightarrow> Closed)"

definition view :: "table \<Rightarrow> spec" where
  "view rows i = map_option phase_of (raw rows i)"

fun reported :: "store_event \<Rightarrow> life_event list" where
  \<comment> \<open>what a caller learns of the lifecycle\<close>
  "reported (Called (Create i) (Row (Inr (Ok r)))) = [Registered (ci_transaction_id i)]"
| "reported (Called (Complete i) (Row (Inr (Ok r)))) = [Posted (co_transaction_id i) (co_result_json i)]"
| "reported (Called (Redeem i) (Redeemed_Row (Inr (Ok x)))) = [Redeemed (re_transaction_id i) (fst x)]"
| "reported (Called (Cancel i) (Row (Inr (Ok r)))) = [Called_Off (ca_path_transaction_id i)]"
| "reported _ = []"

definition external :: "life_event \<Rightarrow> bool" where
  "external e \<longleftrightarrow> e \<notin> {Lapsed, Forgotten, Lost}"

lemma raw_map: "\<forall>r. transaction_id (f r) = transaction_id r \<Longrightarrow> raw (map f rows) i = map_option f (raw rows i)"
  by (induction rows) (auto simp: raw_def)

lemma view_expire: "\<exists>I. view (expire_all now rows) = (\<lambda>i. if i \<in> I \<and> view rows i \<noteq> None then Some Closed else view rows i)"
proof -
  have id: "transaction_id (expire_row now r) = transaction_id r" for r by (simp add: expire_row_def wipe_def)
  have "phase_of (expire_row now r) = (if expires_at_ms r \<le> now \<and> is_open r then Closed else phase_of r)" for r
    by (simp add: expire_row_def phase_of_def wipe_def)
  then show ?thesis unfolding view_def expire_all_def
    by (intro exI [of _ "{i. \<exists>r. raw rows i = Some r \<and> expires_at_ms r \<le> now \<and> is_open r}"] ext)
      (case_tac "raw rows i"; auto simp: raw_map id)
qed

lemma raw_append: "raw (rows @ [r]) j = (case raw rows j of None \<Rightarrow> if transaction_id r = j then Some r else None | Some q \<Rightarrow> Some q)"
  by (induction rows) (auto simp: raw_def)

lemma raw_filter: "distinct (map transaction_id rows) \<Longrightarrow> raw (filter P rows) i = (case raw rows i of Some r \<Rightarrow> if P r then Some r else None | None \<Rightarrow> None)"
proof (induction rows)
  case (Cons r rows)
  have "raw rows (transaction_id r) = None" using Cons.prems by (auto simp: raw_def find_None_iff image_iff)
  with Cons show ?case by (auto simp: raw_def)
qed (simp add: raw_def)

lemma view_room:
  assumes "distinct (map transaction_id rows)"
  shows "\<exists>I. view (make_room m now rows) = (\<lambda>i. if i \<in> I \<and> view rows i = Some Closed then None else view rows i)"
proof (cases "m \<le> length rows")
  case True
  have c: "phase_of r = Closed \<longleftrightarrow> \<not> is_open r" for r by (cases "status r") (simp_all add: phase_of_def is_open_def)
  show ?thesis using True assms unfolding view_def make_room_def
    by (intro exI [of _ "{i. \<exists>r. raw rows i = Some r \<and> expires_at_ms r \<le> now}"] ext)
      (auto simp: raw_filter c split: option.split)
qed (auto simp: make_room_def intro: exI [of _ "{}"])

lemma expire_keeps_ids: "map transaction_id (expire_all now rows) = map transaction_id rows"
  by (simp add: expire_all_def expire_row_def wipe_def comp_def)

lemma run_expire: "life_run (view rows) [Lapsed] (view (expire_all now rows))"
  using view_expire [of now rows] by (metis lapse life_run_one)

lemma run_room:
  "distinct (map transaction_id rows) \<Longrightarrow> life_run (view rows) [Lapsed, Forgotten] (view (make_room m now (expire_all now rows)))"
proof -
  assume "distinct (map transaction_id rows)"
  then obtain I where "view (make_room m now (expire_all now rows))
      = (\<lambda>i. if i \<in> I \<and> view (expire_all now rows) i = Some Closed then None else view (expire_all now rows) i)"
    using view_room [of "expire_all now rows" m now] by (auto simp: expire_keeps_ids)
  then have "life_step (view (expire_all now rows)) Forgotten (view (make_room m now (expire_all now rows)))"
    using forget by metis
  from move [OF run_expire this] show ?thesis by simp
qed

lemma view_update:
  assumes "raw rows i = Some r" "\<forall>r. transaction_id (f r) = transaction_id r" "P r"
  shows "view (map (\<lambda>r. if transaction_id r = i \<and> P r then f r else r) rows) = (view rows)(i \<mapsto> phase_of (f r))"
proof
  fix j
  let ?f = "\<lambda>r. if transaction_id r = i \<and> P r then f r else r"
  have "raw (map ?f rows) j = map_option ?f (raw rows j)" using assms(2) by (intro raw_map) simp
  then show "view (map ?f rows) j = ((view rows)(i \<mapsto> phase_of (f r))) j"
  proof (cases "raw rows j")
    case (Some q)
    moreover have "transaction_id q = j" "j = i \<Longrightarrow> q = r" using raw_Some [OF Some] Some assms(1) by auto
    ultimately show ?thesis using \<open>raw (map ?f rows) j = _\<close> assms(3) by (simp add: view_def)
  qed (use assms(1) in \<open>auto simp: view_def\<close>)
qed

lemma one_changes:
  assumes "distinct (map transaction_id rows)" "raw rows i = Some r" "P r"
  shows "length (filter (\<lambda>r. transaction_id r = i \<and> P r) rows) = 1"
  using assms
proof (induction rows)
  case (Cons q rows)
  show ?case
  proof (cases "transaction_id q = i")
    case True
    then have "filter (\<lambda>r. transaction_id r = i \<and> P r) rows = []" using Cons.prems(1) by (simp add: filter_empty_conv) (metis imageI)
    then show ?thesis using True Cons.prems by (simp add: raw_def)
  qed (use Cons in \<open>auto simp: raw_def\<close>)
qed (simp add: raw_def)

subsection \<open>Each method's outcomes\<close>

lemma create_outcomes:
  assumes "store_create m i rows = (x, rows')"
  defines "R \<equiv> make_room m (ci_created_at_ms i) (expire_all (ci_created_at_ms i) rows)"
  obtains "x = Inr (Ok (new_row i))" "rows' = R @ [new_row i]" "raw R (ci_transaction_id i) = None" "keys_ok rows'"
  | "\<forall>r. x \<noteq> Inr (Ok r)" "rows' \<in> {rows, expire_all (ci_created_at_ms i) rows, R}"
proof -
  let ?E = "expire_all (ci_created_at_ms i) rows"
  have room: "raw R j = None" if "raw ?E j = None" for j
    using that by (auto simp: R_def make_room_def raw_def find_None_iff)
  show ?thesis
  proof (cases "raw ?E (ci_transaction_id i) = None \<and> length R < m \<and> keys_ok (R @ [new_row i])")
    case True
    then show ?thesis using assms(1) that(1) room
      by (auto simp: store_create_def immediate_def Let_def R_def [symmetric] constraints_def ensure_def keys_ok_def)
  next
    case False
    then show ?thesis using assms(1) that(2)
      by (auto simp: store_create_def immediate_def Let_def R_def [symmetric] constraints_def ensure_def keys_ok_def split: if_splits)
  qed
qed

lemma get_outcomes: "store_get i now rows = (x, rows') \<Longrightarrow> rows' \<in> {rows, expire_all now rows}"
  by (auto simp: store_get_def immediate_def Let_def split: option.splits if_splits)

lemma complete_reaches:
  assumes "distinct (map transaction_id rows)" "raw (expire_all (co_now_ms i) rows) (co_transaction_id i) = Some r" "status r = Pending"
    "token_matches r (co_result_token i) = Inr True" "co_code i = Inr code"
  defines "posted \<equiv> map (\<lambda>r. if transaction_id r = co_transaction_id i \<and> status r = Pending then completed i code r else r)
     (expire_all (co_now_ms i) rows)"
  shows "store_complete i rows = immediate rows (rbind (constraints posted) (\<lambda>_. Inr (Ok (completed i code r), posted)))"
    "raw posted (co_transaction_id i) = Some (completed i code r)"
proof -
  define E where "E = expire_all (co_now_ms i) rows"
  let ?f = "\<lambda>r. if transaction_id r = co_transaction_id i \<and> status r = Pending then completed i code r else r"
  have P: "posted = map ?f E" by (simp add: posted_def E_def)
  note r = assms(2-5) [folded E_def]
  have "distinct (map transaction_id E)" using assms(1) by (simp add: E_def expire_keeps_ids)
  then have one: "length (filter (\<lambda>r. transaction_id r = co_transaction_id i \<and> status r = Pending) E) = 1"
    using one_changes [of E "co_transaction_id i" r "\<lambda>r. status r = Pending"] r by simp
  show new: "raw posted (co_transaction_id i) = Some (completed i code r)" unfolding P
    using raw_Some [OF r(1)] r(1,2) by (subst raw_map) (simp_all add: completed_def)
  show "store_complete i rows = immediate rows (rbind (constraints posted) (\<lambda>_. Inr (Ok (completed i code r), posted)))"
    using r one new [unfolded P] unfolding store_complete_def Let_def E_def [symmetric] P by (simp add: update_where_def)
qed

lemma complete_outcomes:
  assumes "store_complete i rows = (x, rows')" "distinct (map transaction_id rows)"
  defines "E \<equiv> expire_all (co_now_ms i) rows"
  obtains r code where "raw E (co_transaction_id i) = Some r" "status r = Pending" "token_matches r (co_result_token i) = Inr True"
      "co_code i = Inr code" "x = Inr (Ok (completed i code r))" "keys_ok rows'"
      "rows' = map (\<lambda>r. if transaction_id r = co_transaction_id i \<and> status r = Pending then completed i code r else r) E"
  | "\<forall>r. x \<noteq> Inr (Ok r)" "rows' \<in> {rows, E}"
proof (cases "\<exists>r code. raw E (co_transaction_id i) = Some r \<and> status r = Pending \<and> token_matches r (co_result_token i) = Inr True \<and> co_code i = Inr code")
  case False
  then show ?thesis using assms(1) that(2)
    by (auto simp: store_complete_def immediate_def Let_def E_def [symmetric] update_where_def rbind_def split: option.splits if_splits sum.splits)
next
  case True
  then obtain r code where r: "raw E (co_transaction_id i) = Some r" "status r = Pending" "token_matches r (co_result_token i) = Inr True"
    "co_code i = Inr code" by blast
  note run = complete_reaches(1) [OF assms(2) r(1) [unfolded E_def] r(2-)]
  let ?f = "\<lambda>r. if transaction_id r = co_transaction_id i \<and> status r = Pending then completed i code r else r"
  show ?thesis
  proof (cases "keys_ok (map ?f E)")
    case True
    then have "constraints (map ?f E) = Inr ()" by (simp add: constraints_Inr)
    then have "x = Inr (Ok (completed i code r))" "rows' = map ?f E"
      using assms(1) unfolding run E_def [symmetric] by (simp_all add: immediate_def)
    with True show ?thesis by (intro that(1) [OF r]) simp_all
  next
    case False
    then obtain e where "constraints (map ?f E) = Inl e" by (auto simp: constraints_def keys_ok_def ensure_def)
    then have "x = Inl e" "rows' = rows"
      using assms(1) unfolding run E_def [symmetric] by (simp_all add: immediate_def)
    then show ?thesis by (intro that(2)) simp_all
  qed
qed

definition redeem_matches :: "redeem_input \<Rightarrow> stored_transaction \<Rightarrow> bool" where
  \<comment> \<open>what the caller of a redemption has to show\<close>
  "redeem_matches i r \<longleftrightarrow> request_origin r = re_request_origin i \<and> utf8_encode (tx_state r) = utf8_encode (re_state i)
     \<and> utf8_encode (the (authorization_code r)) = utf8_encode (re_code i)
     \<and> utf8_encode (code_challenge r) = utf8_encode (re_code_challenge i)"

lemma redeem_succeeds:
  assumes "distinct (map transaction_id rows)" "raw (expire_all (re_now_ms i) rows) (re_transaction_id i) = Some r" "status r = Completed"
    "result_json r = Some result" "authorization_code r = Some code" "redeem_matches i r"
  shows "store_redeem i rows = (Inr (Ok (result, r)),
     map (\<lambda>r. if transaction_id r = re_transaction_id i \<and> status r = Completed then wipe Consumed r else r) (expire_all (re_now_ms i) rows))"
proof -
  let ?E = "expire_all (re_now_ms i) rows"
  have "distinct (map transaction_id ?E)" using assms(1) by (simp add: expire_keeps_ids)
  then have "length (filter (\<lambda>r. transaction_id r = re_transaction_id i \<and> status r = Completed) ?E) = 1"
    using one_changes [of ?E "re_transaction_id i" r "\<lambda>r. status r = Completed"] assms(2,3) by simp
  then show ?thesis using assms(2-) raw_Some [OF assms(2)]
    by (simp add: store_redeem_def Let_def immediate_def all_equal_Inr redeem_matches_def update_where_def)
qed

lemma redeem_outcomes:
  assumes "store_redeem i rows = (x, rows')" "distinct (map transaction_id rows)"
  defines "E \<equiv> expire_all (re_now_ms i) rows"
  obtains r result code where "raw E (re_transaction_id i) = Some r" "status r = Completed" "result_json r = Some result"
      "authorization_code r = Some code" "redeem_matches i r" "x = Inr (Ok (result, r))"
      "rows' = map (\<lambda>r. if transaction_id r = re_transaction_id i \<and> status r = Completed then wipe Consumed r else r) E"
  | "\<forall>y. x \<noteq> Inr (Ok y)" "rows' \<in> {rows, E}"
proof (cases "\<exists>r result code. raw E (re_transaction_id i) = Some r \<and> status r = Completed \<and> result_json r = Some result
    \<and> authorization_code r = Some code \<and> redeem_matches i r")
  case True
  then obtain r result code where r: "raw E (re_transaction_id i) = Some r" "status r = Completed" "result_json r = Some result"
    "authorization_code r = Some code" "redeem_matches i r" by blast
  from redeem_succeeds [OF assms(2) r(1) [unfolded E_def] r(2-)] assms(1) show ?thesis
    by (intro that(1) [OF r]) (simp_all add: E_def)
next
  case False
  show ?thesis
  proof (rule that(2))
    show "\<forall>y. x \<noteq> Inr (Ok y)" "rows' \<in> {rows, E}" using assms(1) False
      by (auto simp: store_redeem_def immediate_def Let_def E_def [symmetric] all_equal_Inr redeem_matches_def
          dest: raw_Some split: option.splits if_splits relay_status.splits)
  qed
qed

definition cancel_matches :: "cancel_input \<Rightarrow> stored_transaction \<Rightarrow> bool" where
  "cancel_matches i r \<longleftrightarrow> request_origin r = ca_request_origin i \<and> utf8_encode (transaction_id r) = utf8_encode (ca_body_transaction_id i)
     \<and> utf8_encode (tx_state r) = utf8_encode (ca_state i) \<and> utf8_encode (code_challenge r) = utf8_encode (ca_code_challenge i)"

lemma cancel_outcomes:
  assumes "store_cancel i rows = (x, rows')" "distinct (map transaction_id rows)"
  defines "E \<equiv> expire_all (ca_now_ms i) rows"
  obtains r where "raw E (ca_path_transaction_id i) = Some r" "is_open r" "cancel_matches i r" "x = Inr (Ok r)"
      "rows' = map (\<lambda>r. if transaction_id r = ca_path_transaction_id i \<and> is_open r then wipe Cancelled r else r) E"
  | "\<forall>y. x \<noteq> Inr (Ok y)" "rows' \<in> {rows, E}"
proof (cases "\<exists>r. raw E (ca_path_transaction_id i) = Some r \<and> is_open r \<and> cancel_matches i r")
  case True
  then obtain r where r: "raw E (ca_path_transaction_id i) = Some r" "is_open r" "cancel_matches i r" by blast
  have "distinct (map transaction_id E)" using assms(2) by (simp add: E_def expire_keeps_ids)
  then have "length (filter (\<lambda>r. transaction_id r = ca_path_transaction_id i \<and> is_open r) E) = 1"
    using one_changes [of E "ca_path_transaction_id i" r is_open] r by simp
  moreover have "status r \<noteq> Expired" "status r \<noteq> Cancelled" using r(2) by (auto simp: is_open_def)
  ultimately show ?thesis using assms(1) r
    by (intro that(1) [OF r]) (simp_all add: store_cancel_def Let_def immediate_def all_equal_Inr cancel_matches_def update_where_def E_def)
next
  case False
  show ?thesis
  proof (rule that(2))
    show "\<forall>y. x \<noteq> Inr (Ok y)" "rows' \<in> {rows, E}" using assms(1) False
      by (auto simp: store_cancel_def immediate_def Let_def E_def [symmetric] all_equal_Inr cancel_matches_def
          split: option.splits if_splits)
  qed
qed

subsection \<open>Refinement\<close>

lemma reported_none:
  "\<forall>r. x \<noteq> Inr (Ok r) \<Longrightarrow> reported (Called (Create i) (Row x)) = [] \<and> reported (Called (Complete j) (Row x)) = []
     \<and> reported (Called (Cancel k) (Row x)) = []"
  "\<forall>r. y \<noteq> Inr (Ok r) \<Longrightarrow> reported (Called (Redeem l) (Redeemed_Row y)) = []"
proof -
  show "\<forall>r. x \<noteq> Inr (Ok r) \<Longrightarrow> reported (Called (Create i) (Row x)) = [] \<and> reported (Called (Complete j) (Row x)) = []
     \<and> reported (Called (Cancel k) (Row x)) = []"
    by (cases x, simp, rename_tac out, case_tac out) simp_all
  show "\<forall>r. y \<noteq> Inr (Ok r) \<Longrightarrow> reported (Called (Redeem l) (Redeemed_Row y)) = []"
    by (cases y, simp, rename_tac out, case_tac out) simp_all
qed

definition refines :: "spec \<Rightarrow> life_event list \<Rightarrow> spec \<Rightarrow> bool" where
  \<comment> \<open>some run of the machine with these external events\<close>
  "refines s visible t \<longleftrightarrow> (\<exists>es. life_run s es t \<and> filter external es = visible)"

lemma refinesI: "life_run s es t \<Longrightarrow> filter external es = visible \<Longrightarrow> refines s visible t"
  by (auto simp: refines_def)

lemma refines_trans: "refines s as t \<Longrightarrow> refines t bs u \<Longrightarrow> refines s (as @ bs) u"
  by (auto simp: refines_def) (metis filter_append life_run_append)

lemma refines_same: "refines s [] s"
  by (rule refinesI [OF stay]) simp

lemma refines_expire: "refines (view rows) [] (view (expire_all now rows))"
  by (rule refinesI [OF run_expire]) (simp add: external_def)

lemma refines_room: "distinct (map transaction_id rows) \<Longrightarrow> refines (view rows) [] (view (make_room m now (expire_all now rows)))"
  by (rule refinesI [OF run_room]) (simp_all add: external_def)

lemma refines_step: "life_step t e u \<Longrightarrow> external e \<Longrightarrow> refines s [] t \<Longrightarrow> refines s [e] u"
  using refines_trans [of s "[]" t "[e]" u] refinesI [OF life_run_one, of t e u] by simp

lemma view_append: "raw rows (transaction_id r) = None \<Longrightarrow> view (rows @ [r]) = (view rows)(transaction_id r \<mapsto> phase_of r)"
proof
  fix j
  assume n: "raw rows (transaction_id r) = None"
  show "view (rows @ [r]) j = ((view rows)(transaction_id r \<mapsto> phase_of r)) j"
    using n by (auto simp: view_def raw_append split: option.split)
qed

lemma call_refines:
  assumes "table_ok m rows" "run_call m c rows = (reply, rows')"
  shows "refines (view rows) (reported (Called c reply)) (view rows')"
proof -
  have d: "distinct (map transaction_id rows)" using assms(1) by (simp add: table_ok_def keys_ok_def)
  note quiet = refines_same refines_expire refines_room [OF d]
  show ?thesis
  proof (cases c)
    case (Create i)
    with assms(2) obtain x where x: "store_create m i rows = (x, rows')" "reply = Row x" by (cases "store_create m i rows") auto
    let ?R = "make_room m (ci_created_at_ms i) (expire_all (ci_created_at_ms i) rows)"
    from x(1) show ?thesis
    proof (cases rule: create_outcomes)
      case 1
      have n: "transaction_id (new_row i) = ci_transaction_id i" "phase_of (new_row i) = Waiting" by (simp_all add: new_row_def phase_of_def)
      have "view ?R (ci_transaction_id i) = None" using 1 by (simp add: view_def)
      then have "life_step (view ?R) (Registered (ci_transaction_id i)) (view rows')"
        using register [of "view ?R"] view_append [of ?R "new_row i"] 1 n by simp
      then show ?thesis using 1 x Create refines_step quiet(3) by (auto simp: external_def)
    next
      case 2
      then show ?thesis using x Create quiet by (auto simp: reported_none)
    qed
  next
    case (Get i now)
    with assms(2) get_outcomes [of i now rows] quiet show ?thesis by (cases "store_get i now rows") auto
  next
    case (Complete i)
    with assms(2) obtain x where x: "store_complete i rows = (x, rows')" "reply = Row x" by (cases "store_complete i rows") auto
    from x(1) d show ?thesis
    proof (cases rule: complete_outcomes)
      case (1 r code)
      have "view rows' = (view (expire_all (co_now_ms i) rows))(co_transaction_id i \<mapsto> phase_of (completed i code r))"
        unfolding 1(7) by (rule view_update [OF 1(1)]) (simp_all add: completed_def 1(2))
      moreover have "phase_of (completed i code r) = Answered (co_result_json i)" by (simp add: phase_of_def completed_def)
      moreover have "view (expire_all (co_now_ms i) rows) (co_transaction_id i) = Some Waiting" using 1 by (simp add: view_def phase_of_def)
      ultimately have "life_step (view (expire_all (co_now_ms i) rows)) (Posted (co_transaction_id i) (co_result_json i)) (view rows')"
        by (simp add: post)
      then show ?thesis using 1 x Complete refines_step refines_expire by (auto simp: external_def)
    next
      case 2
      then show ?thesis using x Complete quiet by (auto simp: reported_none)
    qed
  next
    case (Redeem i)
    with assms(2) obtain x where x: "store_redeem i rows = (x, rows')" "reply = Redeemed_Row x" by (cases "store_redeem i rows") auto
    from x(1) d show ?thesis
    proof (cases rule: redeem_outcomes)
      case (1 r result code)
      have "view rows' = (view (expire_all (re_now_ms i) rows))(re_transaction_id i \<mapsto> phase_of (wipe Consumed r))"
        unfolding 1(7) by (rule view_update [OF 1(1)]) (simp_all add: wipe_def 1(2))
      moreover have "phase_of (wipe Consumed r) = Closed" by (simp add: phase_of_def wipe_def)
      moreover have "view (expire_all (re_now_ms i) rows) (re_transaction_id i) = Some (Answered result)" using 1 by (simp add: view_def phase_of_def)
      ultimately have "life_step (view (expire_all (re_now_ms i) rows)) (Redeemed (re_transaction_id i) result) (view rows')"
        by (simp add: redeem)
      then show ?thesis using 1 x Redeem refines_step refines_expire by (auto simp: external_def)
    next
      case 2
      then show ?thesis using x Redeem quiet by (auto simp: reported_none)
    qed
  next
    case (Cancel i)
    with assms(2) obtain x where x: "store_cancel i rows = (x, rows')" "reply = Row x" by (cases "store_cancel i rows") auto
    from x(1) d show ?thesis
    proof (cases rule: cancel_outcomes)
      case (1 r)
      have "view rows' = (view (expire_all (ca_now_ms i) rows))(ca_path_transaction_id i \<mapsto> phase_of (wipe Cancelled r))"
        unfolding 1(5) by (rule view_update [OF 1(1)]) (simp_all add: wipe_def 1(2))
      moreover have "phase_of (wipe Cancelled r) = Closed" by (simp add: phase_of_def wipe_def)
      moreover have "view (expire_all (ca_now_ms i) rows) (ca_path_transaction_id i) = Some (phase_of r)" using 1 by (simp add: view_def)
      moreover have "phase_of r = Waiting \<or> (\<exists>t. phase_of r = Answered t)" using 1(2) by (auto simp: is_open_def phase_of_def)
      ultimately have "life_step (view (expire_all (ca_now_ms i) rows)) (Called_Off (ca_path_transaction_id i)) (view rows')"
        using call_off by auto
      then show ?thesis using 1 x Cancel refines_step refines_expire by (auto simp: external_def)
    next
      case 2
      then show ?thesis using x Cancel quiet by (auto simp: reported_none)
    qed
  next
    case (Expire now)
    then show ?thesis using assms(2) quiet(2) by (auto simp: store_expire_def)
  qed
qed

lemma reach_refines: "store_reach m h rows \<Longrightarrow> refines Map.empty (concat (map reported h)) (view rows)"
proof (induction rule: store_reach.induct)
  case reach_start
  have "view [] = Map.empty" by (simp add: view_def raw_def fun_eq_iff)
  then show ?case by (simp add: refines_same)
next
  case (reach_call h rows c reply rows')
  from refines_trans [OF reach_call.IH call_refines [OF reach_ok [OF reach_call.hyps(1)] reach_call.hyps(2)]]
  show ?case by simp
next
  case (reach_restart h rows)
  have v: "view [] = Map.empty" by (simp add: view_def raw_def fun_eq_iff)
  have "refines (view rows) [] (view [])"
    unfolding v by (rule refinesI [OF life_run_one [OF lose]]) (simp add: external_def)
  from refines_trans [OF reach_restart.IH this] show ?case by simp
qed

text \<open>C29: the store implements the lifecycle machine: for every history of calls and restarts there is
  a run of the machine from the empty state to the state the table shows, whose registrations, posts,
  redemptions and cancellations are, in order, those the store answered \<open>ok\<close> to, with lapses,
  evictions and restarts in between.\<close>

theorem store_refines_lifecycle:
  assumes "store_reach m h rows"
  shows "\<exists>es. life_run Map.empty es (\<lambda>i. map_option phase_of (raw rows i)) \<and> filter external es = concat (map reported h)"
  using reach_refines [OF assms] by (simp add: refines_def view_def [abs_def])

lemma store_refines_lifecycle_witness:
  "\<exists>es. life_run Map.empty es (\<lambda>i. map_option phase_of (raw [new_row sample_create] i)) \<and> filter external es = [Registered (js ''i'')]"
  using store_refines_lifecycle [OF sample_reach] by (simp add: sample_create_def)

subsection \<open>Redemption\<close>

definition concerns :: "jstring \<Rightarrow> life_event \<Rightarrow> bool" where
  "concerns i e \<longleftrightarrow> (case e of Registered j \<Rightarrow> i = j | Posted j _ \<Rightarrow> i = j | Redeemed j _ \<Rightarrow> i = j | Called_Off j \<Rightarrow> i = j | _ \<Rightarrow> False)"

lemma suffix_snoc [simp]:
  "suffix [e] (es @ [f]) \<longleftrightarrow> e = f" "suffix [d, e] (es @ [f]) \<longleftrightarrow> e = f \<and> suffix [d] es"
  using snoc_suffix_snoc [of "[]" e es f] snoc_suffix_snoc [of "[d]" e es f] by simp_all

definition told :: "spec \<Rightarrow> life_event list \<Rightarrow> bool" where
  \<comment> \<open>the phase of a transaction is told by the last events about it\<close>
  "told s es \<longleftrightarrow> (\<forall>i. s i = Some Waiting \<longrightarrow> suffix [Registered i] (filter (concerns i) es))
     \<and> (\<forall>i result. s i = Some (Answered result) \<longrightarrow> suffix [Registered i, Posted i result] (filter (concerns i) es))"

lemma life_step_told: "life_step s e t \<Longrightarrow> told s es \<Longrightarrow> told t (es @ [e])"
  by (induction rule: life_step.induct) (auto simp: told_def concerns_def split: if_splits)

lemma life_run_told: "life_run s es t \<Longrightarrow> s = Map.empty \<Longrightarrow> told t es"
  by (induction rule: life_run.induct) (auto simp: life_step_told, simp add: told_def)

lemma concerns_external: "filter (concerns i) (filter external es) = filter (concerns i) es"
proof -
  have "concerns i e \<Longrightarrow> external e" for e by (cases e) (simp_all add: concerns_def external_def)
  then show ?thesis by (induction es) auto
qed

lemma reach_told: "store_reach m h rows \<Longrightarrow> told (view rows) (concat (map reported h))"
proof -
  assume "store_reach m h rows"
  from reach_refines [OF this] obtain es where es: "life_run Map.empty es (view rows)" "filter external es = concat (map reported h)"
    by (auto simp: refines_def)
  from life_run_told [OF es(1)] show ?thesis by (simp add: told_def concerns_external del: filter_filter flip: es(2))
qed

text \<open>C30: a redemption that succeeds does so for the origin that registered the transaction, with its
  state, its authorization code and a verifier of its challenge; the last two things that happened
  to that transaction id were its registration and the posting of exactly the result returned. So
  every registration is redeemed at most once, never after it was cancelled, and never with a result
  posted for another registration.\<close>

theorem redeemed_once_with_posted_result:
  assumes "store_reach m h rows" "store_redeem i rows = (Inr (Ok (result, r)), rows')"
  shows "(\<exists>earlier. filter (concerns (re_transaction_id i)) (concat (map reported h))
        = earlier @ [Registered (re_transaction_id i), Posted (re_transaction_id i) result])
    \<and> transaction_id r = re_transaction_id i \<and> request_origin r = re_request_origin i
    \<and> utf8_encode (tx_state r) = utf8_encode (re_state i) \<and> utf8_encode (the (authorization_code r)) = utf8_encode (re_code i)
    \<and> utf8_encode (code_challenge r) = utf8_encode (re_code_challenge i) \<and> re_now_ms i < expires_at_ms r"
proof -
  have d: "distinct (map transaction_id rows)" using reach_ok [OF assms(1)] by (simp add: table_ok_def keys_ok_def)
  let ?E = "expire_all (re_now_ms i) rows"
  from assms(2) d obtain code where r: "raw ?E (re_transaction_id i) = Some r" "status r = Completed" "result_json r = Some result"
      "authorization_code r = Some code" "redeem_matches i r"
    by (cases rule: redeem_outcomes) auto
  from raw_Some [OF r(1)] obtain q where q: "q \<in> set rows" "r = expire_row (re_now_ms i) q" by (auto simp: expire_all_def)
  with r(2) have "re_now_ms i < expires_at_ms r" by (auto simp: expire_row_def wipe_def is_open_def split: if_splits)
  moreover have reach: "store_reach m (h @ [Called (Expire (re_now_ms i)) Done]) ?E"
    by (rule reach_call [OF assms(1)]) (simp add: store_expire_def)
  have "view ?E (re_transaction_id i) = Some (Answered result)" using r by (simp add: view_def phase_of_def)
  with reach_told [OF reach] have "suffix [Registered (re_transaction_id i), Posted (re_transaction_id i) result]
      (filter (concerns (re_transaction_id i)) (concat (map reported h)))" by (simp add: told_def)
  ultimately show ?thesis using r raw_Some [OF r(1)] by (simp add: suffix_def redeem_matches_def)
qed

lemma redeemed_once_with_posted_result_witness:
  "store_redeem sample_redeem [sample_row] = (Inr (Ok (js ''r'', sample_row)), [wipe Consumed sample_row])
     \<and> request_origin sample_row = js ''g'' \<and> 2000 < expires_at_ms sample_row"
proof -
  from reach_call [OF sample_reach, of "Complete sample_complete" "Row (Inr (Ok sample_row))" "[sample_row]"]
  have "store_reach 1 (sample_history @ [Called (Complete sample_complete) (Row (Inr (Ok sample_row)))]) [sample_row]"
    by (simp add: sample_completed)
  from redeemed_once_with_posted_result [OF this sample_redeemed] sample_redeemed show ?thesis by (simp add: sample_redeem_def)
qed

lemma no_clash_fresh:
  assumes "no_clash column rows" "distinct (map transaction_id rows)" "\<forall>r\<in>set rows. column r \<noteq> Some c"
    "\<And>r. column (f r) = Some c"
  shows "no_clash column (map (\<lambda>r. if transaction_id r = i \<and> P r then f r else r) rows)"
  using assms(1-3)
proof (induction rows)
  case (Cons r rows)
  let ?f = "\<lambda>r. if transaction_id r = i \<and> P r then f r else r"
  have sub: "set (List.map_filter column (map ?f rows)) \<subseteq> insert c (set (List.map_filter column rows))"
    using assms(4) by (induction rows) (auto simp: map_filter_simps split: option.splits)
  have fresh: "c \<notin> set (List.map_filter column rows)" using Cons.prems(3)
    by (induction rows) (auto simp: map_filter_simps split: option.splits)
  have IH: "no_clash column (map ?f rows)" using Cons by (simp add: no_clash_def map_filter_simps split: option.splits)
  show ?case
  proof (cases "transaction_id r = i \<and> P r")
    case True
    then have "map ?f rows = rows" using Cons.prems(2) by (auto simp: image_iff intro!: map_idI)
    with True fresh Cons.prems(1) assms(4) show ?thesis
      by (simp add: no_clash_def map_filter_simps split: option.splits)
  next
    case False
    with IH sub Cons.prems(1,3) show ?thesis
      by (auto simp: no_clash_def map_filter_simps split: option.splits)
  qed
qed simp

lemma expire_row_later: "now < expires_at_ms r \<Longrightarrow> expire_row now r = r"
  by (simp add: expire_row_def)

lemma raw_expire: "raw (expire_all now rows) i = map_option (expire_row now) (raw rows i)"
  unfolding expire_all_def by (rule raw_map) (simp add: expire_row_def wipe_def)

lemma post_succeeds:
  assumes "keys_ok rows" "raw rows (co_transaction_id i) = Some r" "status r = Pending" "result_token r = Some (co_result_token i)"
    "co_code i = Inr code" "co_now_ms i < expires_at_ms r" "\<forall>r\<in>set rows. authorization_code r \<noteq> Some code"
  obtains posted where "store_complete i rows = (Inr (Ok (completed i code r)), posted)" "keys_ok posted"
    "raw posted (co_transaction_id i) = Some (completed i code r)"
proof -
  let ?E = "expire_all (co_now_ms i) rows"
  let ?P = "map (\<lambda>r. if transaction_id r = co_transaction_id i \<and> status r = Pending then completed i code r else r) ?E"
  have d: "distinct (map transaction_id rows)" using assms(1) by (simp add: keys_ok_def)
  have r: "raw ?E (co_transaction_id i) = Some r" using assms(2,6) by (simp add: raw_expire expire_row_later)
  have t: "token_matches r (co_result_token i) = Inr True" using assms(4) by (simp add: token_matches_def constant_time_equal_Inr)
  note reach = complete_reaches [OF d r assms(3) t assms(5)]
  have E: "keys_ok ?E" using assms(1) by (simp add: expire_all_def keys_ok_map shrinks_expire)
  have "\<forall>r\<in>set ?E. authorization_code r \<noteq> Some code"
    using assms(7) by (auto simp: expire_all_def expire_row_def wipe_def)
  then have "no_clash authorization_code ?P"
    using E by (intro no_clash_fresh [where c = code]) (auto simp: keys_ok_def completed_def)
  moreover have "no_clash result_token ?P" using E by (intro no_clash_map) (auto simp: keys_ok_def completed_def)
  moreover have "map transaction_id ?P = map transaction_id ?E" by (simp add: completed_def)
  then have "distinct (map transaction_id ?P)" using E unfolding keys_ok_def by (simp only:)
  ultimately have "keys_ok ?P" unfolding keys_ok_def by blast
  with reach show ?thesis by (intro that [of ?P]) (simp_all add: immediate_def constraints_def keys_ok_def ensure_def)
qed

text \<open>C31: the exchange completes: after a registration answered \<open>ok\<close>, a post with its result token before
  its end, under a fresh authorization code, is answered \<open>ok\<close>, and then a redemption before its end from
  its origin with its state, the code and its challenge returns exactly the posted result and leaves
  the row consumed.\<close>

theorem registered_result_is_redeemed:
  assumes create: "store_create m ci rows = (Inr (Ok r0), rows1)"
    and co: "co_transaction_id co = ci_transaction_id ci" "co_result_token co = ci_result_token ci" "co_code co = Inr code"
      "co_now_ms co < ci_expires_at_ms ci" "\<forall>r\<in>set rows1. authorization_code r \<noteq> Some code"
    and re: "re_transaction_id re = ci_transaction_id ci" "re_request_origin re = rb_request_origin (ci_binding ci)"
      "re_state re = ci_state ci" "re_code re = code" "re_code_challenge re = ci_code_challenge ci" "re_now_ms re < ci_expires_at_ms ci"
  shows "\<exists>r1 rows2 r2 rows3. store_complete co rows1 = (Inr (Ok r1), rows2) \<and> store_redeem re rows2 = (Inr (Ok (co_result_json co, r2)), rows3)
    \<and> view rows3 (ci_transaction_id ci) = Some Closed"
proof -
  let ?id = "ci_transaction_id ci"
  from create have r1: "r0 = new_row ci" "raw rows1 ?id = Some (new_row ci)" "keys_ok rows1"
    by (cases rule: create_outcomes; auto simp: raw_append new_row_def)+
  note row = new_row_def [of ci]
  obtain rows2 where c: "store_complete co rows1 = (Inr (Ok (completed co code (new_row ci))), rows2)" "keys_ok rows2"
      "raw rows2 ?id = Some (completed co code (new_row ci))"
    using post_succeeds [OF r1(3), of co "new_row ci" code] r1(2) co by (auto simp: row)
  let ?r = "completed co code (new_row ci)" and ?E = "expire_all (re_now_ms re) rows2"
  have d: "distinct (map transaction_id rows2)" using c(2) by (simp add: keys_ok_def)
  have E: "raw ?E (re_transaction_id re) = Some ?r"
    using c(3) re by (simp add: raw_expire expire_row_later completed_def row)
  have s: "status ?r = Completed" "result_json ?r = Some (co_result_json co)" "authorization_code ?r = Some code" "redeem_matches re ?r"
    using re by (simp_all add: completed_def row redeem_matches_def)
  note redeemed = redeem_succeeds [OF d E s]
  have "view (map (\<lambda>r. if transaction_id r = re_transaction_id re \<and> status r = Completed then wipe Consumed r else r) ?E) ?id = Some Closed"
    using view_update [OF E, of "wipe Consumed" "\<lambda>r. status r = Completed"] s(1) re(1) by (simp add: wipe_def phase_of_def)
  then show ?thesis using c(1) redeemed by blast
qed

lemma registered_result_is_redeemed_witness:
  "\<exists>r1 rows2 r2 rows3. store_complete sample_complete [new_row sample_create] = (Inr (Ok r1), rows2)
     \<and> store_redeem sample_redeem rows2 = (Inr (Ok (js ''r'', r2)), rows3) \<and> view rows3 (js ''i'') = Some Closed"
  using registered_result_is_redeemed [OF sample_created, of sample_complete "js ''a''" sample_redeem]
  by (simp add: sample_defs new_row_def)

end
