(* ===== verification/RelayServerProperties.thy ===== *)
theory RelayServerProperties
  imports RateLimits RelayStoreProperties RelaySamples
begin

section \<open>The relay's server: what it stores and whom it answers\<close>

text \<open>
  Two invariants of every run of the server, with requests, bodies, timers and restarts in any order:
  each stored row is a resolved registry binding with checked texts, and each answer that another
  origin may read goes to the origin that asked.
\<close>

subsection \<open>The store keeps what holds of every row\<close>

lemma immediate_all:
  "list_all P rows \<Longrightarrow> (\<And>x rows'. r = Inr (x, rows') \<Longrightarrow> list_all P rows') \<Longrightarrow> list_all P (snd (immediate rows r))"
  by (auto simp: immediate_def split: sum.split)

lemma all_map: "list_all P rows \<Longrightarrow> (\<And>r. P r \<Longrightarrow> P (f r)) \<Longrightarrow> list_all P (map f rows)"
  by (simp add: list_all_iff)

lemma run_call_all:
  assumes rows: "list_all P rows" and wipe: "\<And>final r. P r \<Longrightarrow> P (wipe final r)"
    and new: "\<And>i. c = Create i \<Longrightarrow> P (new_row i)" and posts: "\<And>i code r. c = Complete i \<Longrightarrow> P r \<Longrightarrow> P (completed i code r)"
  shows "list_all P (snd (run_call m c rows))"
proof -
  have e: "list_all P (expire_all now rows)" for now
    unfolding expire_all_def by (rule all_map [OF rows]) (simp add: expire_row_def wipe)
  have f: "list_all P (make_room m now (expire_all now rows))" for now using e [of now] by (auto simp: make_room_def list_all_iff)
  have w: "list_all P (map (\<lambda>r. if Q r then wipe final r else r) (expire_all now rows))" for final now Q
    by (rule all_map [OF e]) (simp add: wipe)
  show ?thesis
  proof (cases c)
    case (Create i)
    have n: "P (new_row i)" by (rule new [OF Create])
    show ?thesis using e [of "ci_created_at_ms i"] f [of "ci_created_at_ms i"] n unfolding Create
      by (auto simp: store_create_def Let_def rbind_Inr_iff intro!: immediate_all rows split: if_splits)
  next
    case (Get i now)
    then show ?thesis using e [of now]
      by (auto simp: store_get_def Let_def intro!: immediate_all rows split: if_splits option.splits)
  next
    case (Complete i)
    have "list_all P (map (\<lambda>r. if Q r then completed i code r else r) (expire_all (co_now_ms i) rows))" for Q code
      by (rule all_map [OF e]) (simp add: posts [OF Complete])
    then show ?thesis using e [of "co_now_ms i"] unfolding Complete
      by (auto simp: store_complete_def Let_def rbind_Inr_iff update_where_def intro!: immediate_all rows split: if_splits option.splits)
  next
    case (Redeem i)
    then show ?thesis using e [of "re_now_ms i"] w [of _ Consumed "re_now_ms i"]
      by (auto simp: store_redeem_def Let_def rbind_Inr_iff update_where_def intro!: immediate_all rows
          split: if_splits option.splits relay_status.splits)
  next
    case (Cancel i)
    then show ?thesis using e [of "ca_now_ms i"] w [of _ Cancelled "ca_now_ms i"]
      by (auto simp: store_cancel_def Let_def rbind_Inr_iff update_where_def intro!: immediate_all rows split: if_splits option.splits)
  next
    case (Expire now)
    then show ?thesis using e by (simp add: store_expire_def)
  qed
qed

subsection \<open>Checked rows\<close>

definition row_checked :: "server_config \<Rightarrow> stored_transaction \<Rightarrow> bool" where
  \<comment> \<open>a resolved binding, a request the operation's parser accepted, a result a result parser accepted,
    each stored as its canonical text with its digest\<close>
  "row_checked cfg r \<longleftrightarrow>
     (\<exists>b. service_resolve (cfg_registry cfg) (JStr (client_id r)) (JStr (request_origin r)) (JStr (tx_operation r)) = Inr b
        \<and> callback_uri r = rb_callback_uri b \<and> client_display_name r = rb_display_name b \<and> registry_version r = rb_release_sha256 b)
     \<and> (\<forall>t. request_json r = Some t \<longrightarrow> request_sha256 r = service_sha256_hex (cfg_digest cfg) t
        \<and> (\<exists>parser u v. parser_named (request_parsers (cfg_wire cfg)) (tx_operation r) = Some parser \<and> parser u = Inr v \<and> jcs v = Inr t))
     \<and> (\<forall>t. result_json r = Some t \<longrightarrow> result_sha256 r = Some (service_sha256_hex (cfg_digest cfg) t)
        \<and> (\<exists>operation parser u v. parser_named (result_parsers (cfg_wire cfg)) operation = Some parser \<and> parser u = Inr v \<and> jcs v = Inr t))"

lemma row_checked_wipe: "row_checked cfg r \<Longrightarrow> row_checked cfg (wipe final r)"
  by (auto simp: row_checked_def wipe_def)

lemma service_resolve_Inr:
  assumes "service_resolve R c g t = Inr b"
  shows "service_resolve R (JStr (rb_client_id b)) (JStr (rb_request_origin b)) (JStr (rb_operation b)) = Inr b"
    "g = JStr (rb_request_origin b)" "has_origin R (JStr (rb_request_origin b))"
proof -
  from assms obtain client where c: "is_str c" "is_str g" "is_str t"
      "find (\<lambda>x. rc_client_id x = str_of c \<and> rc_request_origin x = str_of g \<and> str_of t \<in> set (allowed_operations x)) (registry_clients R) = Some client"
      "b = \<lparr>rb_callback_uri = rc_callback_uri client, rb_display_name = rc_display_name client, rb_client_id = rc_client_id client,
          rb_max_lifetime_seconds = 300, rb_operation = str_of t, rb_request_origin = rc_request_origin client, rb_release_sha256 = release_sha256 R\<rparr>"
    by (auto simp: service_resolve_def checks_Inr_iff split: option.splits)
  then have f: "client \<in> set (registry_clients R)" "rc_client_id client = str_of c" "rc_request_origin client = str_of g"
    by (auto simp: find_Some_iff)
  show "service_resolve R (JStr (rb_client_id b)) (JStr (rb_request_origin b)) (JStr (rb_operation b)) = Inr b"
    using c f by (simp add: service_resolve_def is_str_def str_of_def)
  show "g = JStr (rb_request_origin b)" using c(2) f by (cases g) (simp_all add: c(5) is_str_def str_of_def)
  show "has_origin R (JStr (rb_request_origin b))"
    using f by (auto simp: has_origin_def is_str_def str_of_def list_ex_iff c(5))
qed

lemma row_checked_origin: "row_checked cfg r \<Longrightarrow> has_origin (cfg_registry cfg) (JStr (request_origin r))"
proof -
  assume "row_checked cfg r"
  then obtain b where "service_resolve (cfg_registry cfg) (JStr (client_id r)) (JStr (request_origin r)) (JStr (tx_operation r)) = Inr b"
    by (auto simp: row_checked_def)
  from service_resolve_Inr(2,3) [OF this] show "has_origin (cfg_registry cfg) (JStr (request_origin r))" by simp
qed

subsection \<open>Parts of the handler that keep the rows\<close>

definition keeps :: "(stored_transaction \<Rightarrow> bool) \<Rightarrow> 'a act \<Rightarrow> bool" where
  "keeps P m \<longleftrightarrow> (\<forall>s. list_all P (srv_table s) \<longrightarrow> list_all P (srv_table (snd (m s))))"

lemma keeps_bind:
  assumes "keeps P m" "\<And>x. keeps P (f x)"
  shows "keeps P (abind m f)"
  unfolding keeps_def
proof (intro allI impI)
  fix s :: server assume "list_all P (srv_table s)"
  with assms(1) have t: "list_all P (srv_table (snd (m s)))" by (simp add: keeps_def)
  show "list_all P (srv_table (snd (abind m f s)))"
  proof (cases "fst (m s)")
    case (Inl e)
    with t show ?thesis by (cases "m s") (simp add: abind_def)
  next
    case (Inr x)
    with t assms(2) [of x] show ?thesis by (cases "m s") (simp add: abind_def keeps_def)
  qed
qed

lemma keeps_attempt: "keeps P (attempt c r)"
  by (simp add: keeps_def attempt_def)

lemma keeps_attempt_bind: "(\<And>x. r = Inr x \<Longrightarrow> keeps P (f x)) \<Longrightarrow> keeps P (abind (attempt c r) f)"
  by (cases r) (simp_all add: keeps_def abind_def attempt_def)

lemma keeps_charge: "keeps P (charge cfg c parts now m)"
  by (simp add: keeps_def charge_def attempt_def split: prod.split)

lemma keeps_peek: "keeps P (peek i)"
  by (simp add: keeps_def peek_def)

lemma keeps_schedule: "keeps P (schedule_expiry t)"
  by (simp add: keeps_def schedule_expiry_def)

lemma keeps_on_store: "(\<And>rows. list_all P rows \<Longrightarrow> list_all P (snd (f rows))) \<Longrightarrow> keeps P (on_store c f)"
  by (simp add: keeps_def on_store_def attempt_def case_prod_beta)

lemma keeps_answering: "keeps P m \<Longrightarrow> list_all P (srv_table s) \<Longrightarrow> list_all P (srv_table (snd (answering m s)))"
  by (cases "m s"; cases "fst (m s)") (auto simp: keeps_def answering_def split: prod.split sum.split)

lemmas keeps_parts = keeps_attempt keeps_charge keeps_peek keeps_schedule

lemma keeps_store:
  "keeps (row_checked cfg) (on_store c (store_get i now))" "keeps (row_checked cfg) (on_store c (store_cancel ca))"
  "keeps (row_checked cfg) (on_store c' (store_redeem re))"
  "row_checked cfg (new_row ci) \<Longrightarrow> keeps (row_checked cfg) (on_store c (store_create m ci))"
  "(\<And>r code. row_checked cfg r \<Longrightarrow> row_checked cfg (completed co code r)) \<Longrightarrow> keeps (row_checked cfg) (on_store c (store_complete co))"
proof -
  note all = run_call_all [where P = "row_checked cfg", OF _ row_checked_wipe]
  show "keeps (row_checked cfg) (on_store c (store_get i now))"
    using all [of _ "Get i now" 0] by (auto intro!: keeps_on_store)
  show "keeps (row_checked cfg) (on_store c (store_cancel ca))"
    using all [of _ "Cancel ca" 0] by (auto intro!: keeps_on_store)
  show "keeps (row_checked cfg) (on_store c' (store_redeem re))"
    using all [of _ "Redeem re" 0] by (auto intro!: keeps_on_store)
  show "row_checked cfg (new_row ci) \<Longrightarrow> keeps (row_checked cfg) (on_store c (store_create m ci))"
    using all [of _ "Create ci" m] by (auto intro!: keeps_on_store)
  show "(\<And>r code. row_checked cfg r \<Longrightarrow> row_checked cfg (completed co code r)) \<Longrightarrow> keeps (row_checked cfg) (on_store c (store_complete co))"
  proof (rule keeps_on_store)
    fix rows assume h: "\<And>r code. row_checked cfg r \<Longrightarrow> row_checked cfg (completed co code r)" "list_all (row_checked cfg) rows"
    have "list_all (row_checked cfg) (snd (run_call 0 (Complete co) rows))"
      by (rule run_call_all [OF h(2) row_checked_wipe]) (use h(1) in auto)
    then show "list_all (row_checked cfg) (snd (store_complete co rows))" by simp
  qed
qed

lemma keeps_preflight: "keeps (row_checked cfg) (preflight cfg now request)"
  unfolding preflight_def Let_def
  by (auto split: option.split intro!: keeps_bind keeps_parts)

lemma keeps_get: "keeps (row_checked cfg) (get_transaction now i)"
  unfolding get_transaction_def by (intro keeps_bind keeps_store keeps_parts)

lemma keeps_options: "keeps (row_checked cfg) (answer_options cfg request path)"
  unfolding answer_options_def by (auto split: option.split intro!: keeps_bind keeps_parts)

definition checked_after :: "server_config \<Rightarrow> reply \<times> server \<Rightarrow> bool" where
  "checked_after cfg p \<longleftrightarrow> list_all (row_checked cfg) (srv_table (snd p))"

lemma checked_after_if: "checked_after cfg x \<Longrightarrow> checked_after cfg y \<Longrightarrow> checked_after cfg (if b then x else y)"
  by simp

lemma dispatch_checked:
  assumes "list_all (row_checked cfg) (srv_table s)"
  shows "checked_after cfg (dispatch cfg now request target peer s)"
proof -
  have a: "checked_after cfg (apfst Answer (answering m s))" if "keeps (row_checked cfg) m" for m
    using keeps_answering [OF that assms] by (simp add: checked_after_def)
  have w: "checked_after cfg (wait_for request peer x cors s)" for x cors using assms by (simp add: wait_for_def checked_after_def)
  have "srv_table (snd (begin_cancel cfg now request peer i s)) = srv_table s" for i
    by (simp add: begin_cancel_def charge_def attempt_def wait_for_def Let_def split: prod.split sum.split option.split)
  then have c: "checked_after cfg (begin_cancel cfg now request peer i s)" for i using assms by (simp add: checked_after_def)
  show ?thesis unfolding dispatch_def Let_def
    by (intro checked_after_if a w c keeps_attempt keeps_get keeps_options)
qed

lemma keeps_create: "keeps (row_checked cfg) (create_transaction cfg now w body)"
  unfolding create_transaction_def Let_def
proof (intro keeps_attempt_bind keeps_bind keeps_parts keeps_store)
  fix body i st challenge binding request u request_text token
  assume b: "service_resolve (cfg_registry cfg) (fld body ''clientId'') (case waiting_origin w of None \<Rightarrow> JUndefined | Some g \<Rightarrow> JStr g)
      (fld body ''operation'') = Inr binding"
    and p: "(case parser_named (request_parsers (cfg_wire cfg)) (rb_operation binding) of None \<Rightarrow> Inl (relay_error ''unregistered'')
      | Some parser \<Rightarrow> parse_with parser (fld body ''request'')) = Inr request"
    and t: "jcs request = Inr request_text"
  from p obtain parser where "parser_named (request_parsers (cfg_wire cfg)) (rb_operation binding) = Some parser"
      "parser (fld body ''request'') = Inr request"
    by (auto simp: parse_with_def from_catch_def split: option.splits sum.splits)
  with service_resolve_Inr [OF b] t show "row_checked cfg (new_row \<lparr>ci_binding = binding, ci_code_challenge = challenge,
        ci_created_at_ms = wall_clock now, ci_expires_at_ms = wall_clock now + min (rb_max_lifetime_seconds binding) 300 * 1000,
        ci_request_json = request_text, ci_request_sha256 = service_sha256_hex (cfg_digest cfg) request_text, ci_result_token = token,
        ci_state = st, ci_transaction_id = i\<rparr>)"
    by (auto simp: row_checked_def new_row_def)
qed

lemma keeps_post: "keeps (row_checked cfg) (post_result cfg now w i transaction body)"
proof -
  have c: "row_checked cfg (completed co code r)"
    if "row_checked cfg r" "co_result_sha256 co = service_sha256_hex (cfg_digest cfg) (co_result_json co)"
      "parser_named (result_parsers (cfg_wire cfg)) operation = Some parser" "parser u = Inr v" "jcs v = Inr (co_result_json co)"
    for co code r operation parser u v
    using that by (auto simp: row_checked_def completed_def)
  show ?thesis
  proof (cases transaction)
    case None
    then show ?thesis unfolding post_result_def Let_def by (auto intro!: keeps_attempt_bind keeps_bind keeps_parts)
  next
    case (Some q)
    show ?thesis unfolding post_result_def Let_def Some option.case
    proof (intro keeps_attempt_bind keeps_bind keeps_parts keeps_store)
      fix body token result result_text r code
      assume p: "(case parser_named (result_parsers (cfg_wire cfg)) (tx_operation q) of None \<Rightarrow> Inl (relay_error ''unregistered'')
          | Some parser \<Rightarrow> parse_with parser (fld body ''result'')) = Inr result" and t: "jcs result = Inr result_text" and r: "row_checked cfg r"
      from p obtain parser where "parser_named (result_parsers (cfg_wire cfg)) (tx_operation q) = Some parser"
          "parser (fld body ''result'') = Inr result"
        by (auto simp: parse_with_def from_catch_def split: option.splits sum.splits)
      with t r show "row_checked cfg (completed \<lparr>co_code = entropy (random_32 now) bytes_hex, co_now_ms = wall_clock now,
            co_result_json = result_text, co_result_sha256 = service_sha256_hex (cfg_digest cfg) result_text,
            co_result_token = token, co_transaction_id = i\<rparr> code r)"
        by (intro c [where operation = "tx_operation q" and parser = parser and u = "fld body ''result''" and v = result]) simp_all
    qed
  qed
qed

lemma keeps_cancel: "keeps (row_checked cfg) (cancel_transaction cfg now w i body)"
  unfolding cancel_transaction_def Let_def by (intro keeps_attempt_bind keeps_bind keeps_parts keeps_store)

lemma keeps_redeem: "keeps (row_checked cfg) (redeem_code cfg now w body)"
  unfolding redeem_code_def Let_def
  by (auto intro!: keeps_attempt_bind keeps_bind keeps_parts keeps_store split: prod.split)

lemma begin_checked:
  assumes "begin_request cfg now request s = (reply, s')" "list_all (row_checked cfg) (srv_table s)"
  shows "list_all (row_checked cfg) (srv_table s')"
proof -
  have p: "list_all (row_checked cfg) (srv_table (snd (preflight cfg now request s)))"
    using keeps_preflight assms(2) by (simp add: keeps_def)
  show ?thesis
  proof (cases "preflight cfg now request s")
    case (Pair x t)
    with p have t: "list_all (row_checked cfg) (srv_table t)" by simp
    show ?thesis
    proof (cases x)
      case (Inl e)
      with Pair t assms(1) show ?thesis by (cases e) (auto simp: begin_request_def)
    next
      case (Inr y)
      with Pair dispatch_checked [OF t, of now request "fst y" "snd y"] assms(1) show ?thesis
        by (cases y) (simp add: begin_request_def checked_after_def)
    qed
  qed
qed

lemma finish_checked:
  assumes "finish_request cfg now w s = Some (r, s')" "list_all (row_checked cfg) (srv_table s)"
  shows "list_all (row_checked cfg) (srv_table s')"
proof -
  from assms(1) obtain m where m: "answering m s = (r, s')" "keeps (row_checked cfg) m"
    using keeps_create keeps_post keeps_cancel keeps_redeem by (cases "awaiting w") (auto simp: finish_request_def)
  with keeps_answering [OF m(2) assms(2)] show ?thesis by simp
qed

lemma run_checked: "server_run cfg s ws sent \<Longrightarrow> list_all (row_checked cfg) (srv_table s)"
proof (induction rule: server_run.induct)
  case (timed s ws sent d now)
  then show ?case
    by (auto simp: timer_fires_def store_expire_def expire_all_def expire_row_def row_checked_wipe intro!: all_map)
qed (auto dest: begin_checked finish_checked)

text \<open>C33: in every run of the server, with handlers interleaved in any way, every row it stores belongs
  to a client, origin and operation its registry resolves, with that binding's callback, name and
  release; the request text is the canonical form of a request that the parser of that operation
  accepted, and a result text the canonical form of a result some operation's parser accepted, each
  with its digest. So what the relay hands to the wallet or to the site was checked by the wire module.\<close>

theorem stored_rows_checked:
  assumes "server_run cfg s ws sent" "r \<in> set (srv_table s)"
  shows "(\<exists>b. service_resolve (cfg_registry cfg) (JStr (client_id r)) (JStr (request_origin r)) (JStr (tx_operation r)) = Inr b
        \<and> callback_uri r = rb_callback_uri b \<and> client_display_name r = rb_display_name b \<and> registry_version r = rb_release_sha256 b)
     \<and> (\<forall>t. request_json r = Some t \<longrightarrow> request_sha256 r = service_sha256_hex (cfg_digest cfg) t
        \<and> (\<exists>parser u v. parser_named (request_parsers (cfg_wire cfg)) (tx_operation r) = Some parser \<and> parser u = Inr v \<and> jcs v = Inr t))
     \<and> (\<forall>t. result_json r = Some t \<longrightarrow> result_sha256 r = Some (service_sha256_hex (cfg_digest cfg) t)
        \<and> (\<exists>operation parser u v. parser_named (result_parsers (cfg_wire cfg)) operation = Some parser \<and> parser u = Inr v \<and> jcs v = Inr t))"
  using run_checked [OF assms(1)] assms(2) by (simp add: list_all_iff row_checked_def)

lemma stored_rows_checked_witness:
  "\<exists>s sent r b. server_run tiny_config s [] sent \<and> r \<in> set (srv_table s) \<and> request_json r = Some (js ''{}'')
     \<and> service_resolve (cfg_registry tiny_config) (JStr (client_id r)) (JStr (request_origin r)) (JStr (tx_operation r)) = Inr b
     \<and> callback_uri r = rb_callback_uri b \<and> request_sha256 r = service_sha256_hex release_digest (js ''{}'')"
proof -
  obtain s sent where s: "server_run tiny_config s [] sent" "tiny_row \<in> set (srv_table s)" using tiny_run by auto
  have "request_json tiny_row = Some (js ''{}'')" "cfg_digest tiny_config = release_digest"
    by (simp_all add: tiny_row_def new_row_def tiny_config_def)
  with s stored_rows_checked [OF s] show ?thesis by metis
qed

subsection \<open>Answers another origin may read\<close>

definition cleared :: "(jstring \<Rightarrow> bool) \<Rightarrow> jstring option \<Rightarrow> bool" where
  "cleared ok c \<longleftrightarrow> (\<forall>g. c = Some g \<longrightarrow> ok g)"

definition allows :: "(jstring \<Rightarrow> bool) \<Rightarrow> http_response \<Rightarrow> bool" where
  "allows ok r \<longleftrightarrow> (''Cache-Control'', js ''no-store'') \<in> set (response_headers r)
     \<and> (\<forall>g. (''Access-Control-Allow-Origin'', g) \<in> set (response_headers r) \<longrightarrow> ok g)"

definition clear_errors :: "(jstring \<Rightarrow> bool) \<Rightarrow> 'a act \<Rightarrow> bool" where
  "clear_errors ok m \<longleftrightarrow> (\<forall>s e c s'. m s = (Inl (e, c), s') \<longrightarrow> cleared ok c)"

definition clear :: "(jstring \<Rightarrow> bool) \<Rightarrow> http_response act \<Rightarrow> bool" where
  "clear ok m \<longleftrightarrow> clear_errors ok m \<and> (\<forall>s r s'. m s = (Inr r, s') \<longrightarrow> allows ok r)"

lemma cleared_simps [simp]: "cleared ok None" "cleared ok (Some g) \<longleftrightarrow> ok g"
  by (simp_all add: cleared_def)

lemma allows_json: "cleared ok c \<Longrightarrow> allows ok (json_response n t c)"
  by (auto simp: allows_def json_response_def add_cors_def Let_def split: option.splits)

lemma allows_error: "cleared ok c \<Longrightarrow> allows ok (error_response e c)"
  by (auto simp: error_response_def allows_json split: prod.split sum.split)

lemma clear_errors_parts:
  "cleared ok c \<Longrightarrow> clear_errors ok (attempt c r)" "cleared ok c \<Longrightarrow> clear_errors ok (charge cfg c parts now m)"
  "clear_errors ok (peek i)" "cleared ok c \<Longrightarrow> clear_errors ok (on_store c f)" "clear_errors ok (schedule_expiry t)"
  by (auto simp: clear_errors_def attempt_def charge_def peek_def on_store_def schedule_expiry_def split: prod.splits sum.splits)

lemma clear_errors_bind: "clear_errors ok m \<Longrightarrow> (\<And>x. clear_errors ok (f x)) \<Longrightarrow> clear_errors ok (abind m f)"
  by (fastforce simp: clear_errors_def abind_def split: prod.splits sum.splits)

lemma clear_bind: "clear_errors ok m \<Longrightarrow> (\<And>x. clear ok (f x)) \<Longrightarrow> clear ok (abind m f)"
  by (fastforce simp: clear_def clear_errors_def abind_def split: prod.splits sum.splits)

lemma clear_attempt_bind: "cleared ok c \<Longrightarrow> (\<And>x. r = Inr x \<Longrightarrow> clear ok (f x)) \<Longrightarrow> clear ok (abind (attempt c r) f)"
  by (cases r) (auto simp: clear_def clear_errors_def abind_def attempt_def)

lemma clear_write: "cleared ok c \<Longrightarrow> clear ok (attempt c (write_json n v c))"
  by (cases "jcs v") (auto simp: clear_def clear_errors_def attempt_def write_json_def allows_json)

lemma clear_fail: "cleared ok c \<Longrightarrow> clear ok (attempt c (Inl e))"
  by (auto simp: clear_def clear_errors_def attempt_def)

lemma answering_allows: "clear ok m \<Longrightarrow> allows ok (fst (answering m s))"
  by (fastforce simp: clear_def clear_errors_def answering_def allows_error split: prod.splits sum.splits)

definition asked_by :: "server_config \<Rightarrow> jstring option \<Rightarrow> jstring \<Rightarrow> bool" where
  "asked_by cfg origin g \<longleftrightarrow> origin = Some g \<and> has_origin (cfg_registry cfg) (JStr g)"

definition waiting_cleared :: "server_config \<Rightarrow> waiting \<Rightarrow> bool" where
  "waiting_cleared cfg w \<longleftrightarrow> cleared (asked_by cfg (waiting_origin w)) (waiting_cors w)"

definition reply_cleared :: "server_config \<Rightarrow> http_request \<Rightarrow> reply \<times> server \<Rightarrow> bool" where
  "reply_cleared cfg request p \<longleftrightarrow> (case fst p of
       Answer r \<Rightarrow> allows (asked_by cfg (origin_header request)) r
     | Wait w \<Rightarrow> waiting_origin w = origin_header request \<and> waiting_cleared cfg w)"

lemma reply_cleared_if: "reply_cleared cfg request x \<Longrightarrow> reply_cleared cfg request y \<Longrightarrow> reply_cleared cfg request (if b then x else y)"
  by simp

lemma clear_create: "clear (asked_by cfg (waiting_origin w)) (create_transaction cfg now w body)"
proof -
  have own: "asked_by cfg (waiting_origin w) (rb_request_origin binding)"
    if "service_resolve (cfg_registry cfg) c (case waiting_origin w of None \<Rightarrow> JUndefined | Some g \<Rightarrow> JStr g) t = Inr binding" for c t binding
    using service_resolve_Inr(2,3) [OF that] by (cases "waiting_origin w") (auto simp: asked_by_def)
  show ?thesis unfolding create_transaction_def Let_def
    by (intro clear_attempt_bind clear_bind clear_errors_parts clear_write cleared_simps(1) cleared_simps(2) [THEN iffD2] own; assumption)
qed

lemma clear_post: "waiting_cleared cfg w \<Longrightarrow> clear (asked_by cfg (waiting_origin w)) (post_result cfg now w i transaction body)"
  unfolding post_result_def Let_def waiting_cleared_def
  by (cases transaction) (auto intro!: clear_attempt_bind clear_bind clear_errors_parts clear_write clear_fail)

lemma clear_cancel: "waiting_cleared cfg w \<Longrightarrow> clear (asked_by cfg (waiting_origin w)) (cancel_transaction cfg now w i body)"
proof -
  assume c: "waiting_cleared cfg w"
  then have "clear (asked_by cfg (waiting_origin w)) (attempt (waiting_cors w) (Inr (write_empty (waiting_cors w))))"
    by (auto simp: clear_def clear_errors_def attempt_def allows_def write_empty_def add_cors_def waiting_cleared_def split: option.splits)
  with c show ?thesis unfolding cancel_transaction_def Let_def waiting_cleared_def
    by (intro clear_attempt_bind clear_bind clear_errors_parts)
qed

lemma clear_redeem: "clear (asked_by cfg (waiting_origin w)) (redeem_code cfg now w body)"
proof -
  have own: "asked_by cfg (waiting_origin w) g" if "known_origin cfg (waiting_origin w) = Inr g" for g
    using that by (auto simp: known_origin_def asked_by_def split: option.splits if_splits)
  have c: "cleared (asked_by cfg (waiting_origin w)) (if b then Some g else None)" if "known_origin cfg (waiting_origin w) = Inr g" for g b
    using own [OF that] by simp
  have e: "clear_errors ok (if b then m else n)" if "clear_errors ok m" "clear_errors ok n" for ok b and m n :: "unit act" using that by simp
  have p: "clear ok (case x of (a, b) \<Rightarrow> f a b)" if "\<And>a b. clear ok (f a b)" for ok f and x :: "jstring \<times> stored_transaction"
    using that by (cases x) simp
  show ?thesis unfolding redeem_code_def Let_def
    by (intro clear_attempt_bind clear_bind p e clear_errors_parts clear_write cleared_simps(1) c; assumption)
qed

lemma clear_get: "clear ok (get_transaction now i)"
  unfolding get_transaction_def by (intro clear_attempt_bind clear_bind clear_errors_parts clear_write cleared_simps(1))

lemma clear_options: "clear (asked_by cfg (origin_header request)) (answer_options cfg request path)"
proof (cases "origin_header request")
  case None
  then show ?thesis by (simp add: answer_options_def clear_fail)
next
  case (Some g)
  have known: "asked_by cfg (Some g) g"
    if "ensure (g \<noteq> [] \<and> has_origin (cfg_registry cfg) (JStr g)) e = Inr u" for e :: js_error and u
    using that by (auto simp: asked_by_def ensure_def split: if_splits)
  have c: "clear_errors (asked_by cfg (Some g)) (case found of None \<Rightarrow> attempt None (Inr ()) | Some i \<Rightarrow> f i)"
    if "\<And>i. clear_errors (asked_by cfg (Some g)) (f i)" for f :: "jstring \<Rightarrow> unit act" and found
    using that by (simp add: clear_errors_parts split: option.split)
  have r: "clear (asked_by cfg (Some g)) (attempt None (Inr \<lparr>response_code = 204, response_headers =
      [(''Access-Control-Allow-Headers'', js ''content-type''), (''Access-Control-Allow-Methods'', js ''POST''),
       (''Access-Control-Allow-Origin'', g), (''Access-Control-Max-Age'', js ''300''), (''Cache-Control'', js ''no-store''),
       (''Content-Length'', js ''0''), (''Vary'', js ''Origin'')], response_bytes = []\<rparr>))"
    if "asked_by cfg (Some g) g"
    using that by (simp add: clear_def clear_errors_def attempt_def allows_def)
  show ?thesis unfolding answer_options_def Some option.case
    by (rule clear_attempt_bind [OF cleared_simps(1)], rule clear_attempt_bind [OF cleared_simps(1)], rule clear_bind, rule c,
        intro clear_errors_bind clear_errors_parts cleared_simps(1), rule r, rule known, assumption)
qed

lemma begin_cancel_cleared:
  assumes "list_all (row_checked cfg) (srv_table s)"
  shows "reply_cleared cfg request (begin_cancel cfg now request peer i s)"
proof -
  have known: "asked_by cfg (Some (request_origin r)) (request_origin r)" if "store_peek i (srv_table s) = Some r" for r
    using raw_Some [of "srv_table s" i r] that assms by (auto simp: asked_by_def store_peek_def list_all_iff intro: row_checked_origin)
  have w: "reply_cleared cfg request (wait_for request peer x c t)" if "cleared (asked_by cfg (origin_header request)) c" for x c t
    using that by (simp add: reply_cleared_def wait_for_def waiting_cleared_def)
  show ?thesis
  proof (cases "store_peek i (srv_table s)")
    case None
    then show ?thesis by (simp add: begin_cancel_def Let_def w)
  next
    case (Some r)
    show ?thesis
    proof (cases "origin_header request = Some (request_origin r)")
      case False
      then show ?thesis using Some by (simp add: begin_cancel_def Let_def w)
    next
      case True
      have "clear_errors (asked_by cfg (origin_header request)) (charge cfg (origin_header request) parts t m)" for parts t m
        using known [OF Some] True by (intro clear_errors_parts) simp
      then have e: "allows (asked_by cfg (origin_header request)) (error_response e c)"
        if "charge cfg (origin_header request) parts t m s = (Inl (e, c), s')" for parts t m e c s'
        using that unfolding clear_errors_def by (metis allows_error)
      show ?thesis using True Some known [OF Some] e
        by (auto simp: begin_cancel_def Let_def w reply_cleared_def [of _ _ "(Answer _, _)"] split: prod.split sum.split)
    qed
  qed
qed

lemma dispatch_cleared:
  assumes "list_all (row_checked cfg) (srv_table s)"
  shows "reply_cleared cfg request (dispatch cfg now request target peer s)"
proof -
  have a: "reply_cleared cfg request (apfst Answer (answering m s))" if "clear (asked_by cfg (origin_header request)) m" for m
    using answering_allows [OF that] by (simp add: reply_cleared_def)
  have w: "reply_cleared cfg request (wait_for request peer x c t)" if "cleared (asked_by cfg (origin_header request)) c" for x c t
    using that by (simp add: reply_cleared_def wait_for_def waiting_cleared_def)
  have reg: "has_origin (cfg_registry cfg) (JStr (request_origin r))" if "r \<in> set (srv_table s)" for r
    using that assms row_checked_origin by (auto simp: list_all_iff)
  have own: "cleared (asked_by cfg (origin_header request)) (if map_option request_origin (store_peek i (srv_table s)) = origin_header request
      then origin_header request else None)" for i
    using raw_Some [of "srv_table s" i]
    by (cases "store_peek i (srv_table s)") (auto simp: asked_by_def store_peek_def cleared_def reg)
  show ?thesis unfolding dispatch_def Let_def
    by (intro reply_cleared_if a w own begin_cancel_cleared [OF assms] clear_fail clear_write clear_get clear_options cleared_simps(1))
qed

lemma clear_errors_preflight: "clear_errors ok (preflight cfg now request)"
  unfolding preflight_def Let_def
  by (auto split: option.split intro!: clear_errors_bind clear_errors_parts)

lemma begin_cleared:
  assumes "list_all (row_checked cfg) (srv_table s)"
  shows "reply_cleared cfg request (begin_request cfg now request s)"
proof (cases "preflight cfg now request s")
  case (Pair x t)
  have p: "list_all (row_checked cfg) (srv_table t)"
    using keeps_preflight [of cfg now request] assms Pair unfolding keeps_def by (metis snd_conv)
  show ?thesis
  proof (cases x)
    case (Inl e)
    obtain err c where e: "e = (err, c)" by (cases e) auto
    then have "cleared (asked_by cfg (origin_header request)) c"
      using clear_errors_preflight [of "asked_by cfg (origin_header request)" cfg now request] Pair Inl unfolding clear_errors_def by blast
    then show ?thesis using Pair Inl e by (simp add: begin_request_def reply_cleared_def allows_error)
  next
    case (Inr y)
    with Pair dispatch_cleared [OF p, of request now "fst y" "snd y"] show ?thesis
      by (cases y) (simp add: begin_request_def)
  qed
qed

lemma finish_cleared:
  assumes "finish_request cfg now w s = Some (r, s')" "waiting_cleared cfg w"
  shows "allows (asked_by cfg (waiting_origin w)) r"
proof -
  from assms obtain m where m: "answering m s = (r, s')" "clear (asked_by cfg (waiting_origin w)) m"
    using clear_create clear_post [OF assms(2)] clear_cancel [OF assms(2)] clear_redeem
    by (cases "awaiting w") (auto simp: finish_request_def)
  with answering_allows [OF m(2), of s] show ?thesis by simp
qed

lemma run_cleared:
  "server_run cfg s ws sent \<Longrightarrow> list_all (waiting_cleared cfg) ws \<and> list_all (\<lambda>(origin, r). allows (asked_by cfg origin) r) sent"
proof (induction rule: server_run.induct)
  case (answered s ws sent now request r s')
  with begin_cleared [OF run_checked [OF answered.hyps(1)], of request now] show ?case by (simp add: reply_cleared_def)
next
  case (waits s ws sent now request w s')
  with begin_cleared [OF run_checked [OF waits.hyps(1)], of request now] show ?case by (simp add: reply_cleared_def)
next
  case (resumed s ws sent w now r s')
  then have "waiting_cleared cfg w" by (simp add: list_all_iff)
  with resumed finish_cleared [OF resumed.hyps(3)] show ?case by (auto simp: list_all_iff dest: in_set_remove1 notin_set_remove1)
qed simp_all

text \<open>C34: in every run of the server, an answer names an origin that may read it only when that origin is
  the one that sent the request, and only when the registry lists it: no site reads the answer to
  another site's request, and no unregistered site reads any, errors included. No answer may be
  stored by a cache.\<close>

theorem answers_only_asking_origin:
  assumes "server_run cfg s ws sent" "(origin, r) \<in> set sent"
  shows "(\<forall>g. (''Access-Control-Allow-Origin'', g) \<in> set (response_headers r) \<longrightarrow> origin = Some g \<and> has_origin (cfg_registry cfg) (JStr g))
    \<and> (''Cache-Control'', js ''no-store'') \<in> set (response_headers r)"
  using run_cleared [OF assms(1)] assms(2) by (auto simp: list_all_iff allows_def asked_by_def)

lemma answers_only_asking_origin_witness:
  "\<exists>s r g. server_run tiny_config s [] [(Some (js ''https://g.example''), r)]
     \<and> (''Access-Control-Allow-Origin'', g) \<in> set (response_headers r) \<and> g = js ''https://g.example''
     \<and> has_origin (cfg_registry tiny_config) (JStr g)"
proof -
  obtain s r where s: "server_run tiny_config s [] [(Some (js ''https://g.example''), r)]"
      "(''Access-Control-Allow-Origin'', js ''https://g.example'') \<in> set (response_headers r)"
    using tiny_options by blast
  moreover have "(Some (js ''https://g.example''), r) \<in> set [(Some (js ''https://g.example''), r)]" by simp
  note answers_only_asking_origin [OF s(1) this]
  ultimately show ?thesis by blast
qed

end
