(* ===== verification/ClientParts.thy ===== *)
theory ClientParts
  imports RelayServer JsonPlain
begin

section \<open>Parts of the page's client: client/relay-client.mjs and client/callback.mjs\<close>

text \<open>
  What the page's relay client computes without keeping state: its own base64url encoder, its record
  and timestamp guards, the reader of the relay's responses, the bodies of its requests, and the
  callback record through which the page that receives the wallet's redirect hands the code over. The
  page and its callback page share a storage; the record written by one is what the other reads.
\<close>

abbreviation client_error :: "string \<Rightarrow> js_error" where
  "client_error code \<equiv> Wallet_Client_Error code"

subsection \<open>Constants\<close>

definition WALLET_ORIGIN :: jstring where
  "WALLET_ORIGIN = js ''https://wallet.spacedatanetwork.org''"

definition CALLBACK_PREFIX :: jstring where
  "CALLBACK_PREFIX = js ''sdn.wallet.callback.v1:''"

definition REGISTRATION_WINDOW_MS :: int where "REGISTRATION_WINDOW_MS = 30000"
definition MAX_TRANSACTION_MS :: int where "MAX_TRANSACTION_MS = 300000"
definition MAX_CONNECTION_MS :: int where "MAX_CONNECTION_MS = 900000"
definition MAX_CALLBACK_MS :: int where "MAX_CALLBACK_MS = 120000"
definition MAX_RETIRED_CLEANUPS :: nat where "MAX_RETIRED_CLEANUPS = 8"
definition MAX_REGISTRATION_RESPONSE_BYTES :: nat where "MAX_REGISTRATION_RESPONSE_BYTES = 4096"
definition MAX_REDEEM_RESPONSE_BYTES :: nat where "MAX_REDEEM_RESPONSE_BYTES = 70 * 1024"
definition MAX_CALLBACK_RECORD_SCAN :: nat where "MAX_CALLBACK_RECORD_SCAN = 64"

definition WALLET_CLIENT_ERRORS :: "(string \<times> string) list" where
  "WALLET_CLIENT_ERRORS =
     [(''CALLBACK_ERROR'', ''The wallet return could not be verified. Try again.''),
      (''CRYPTO_UNAVAILABLE'', ''Secure browser cryptography is unavailable.''),
      (''DESTROYED'', ''This wallet client has been destroyed.''),
      (''DISCONNECTED'', ''The wallet was disconnected.''),
      (''EXPIRED'', ''The wallet connection expired.''),
      (''INVALID_CLIENT'', ''This wallet client is not registered.''),
      (''INVALID_REQUEST'', ''The wallet request is invalid.''),
      (''NOT_ADDRESSED_TO_ACCOUNT'', ''This data is not sealed to your wallet.''),
      (''RELAY_ERROR'', ''The wallet service could not complete the request. Try again.''),
      (''REPLACED'', ''A newer wallet request replaced this one.''),
      (''WALLET_NOT_COMPLETED'', ''The wallet did not complete. Check popup settings and try again.'')]"

subsection \<open>base64url\<close>

text \<open>The client packs bits itself, in a 32-bit accumulator that never holds six bits or more between bytes.\<close>

definition BASE64URL_ALPHABET :: jstring where
  "BASE64URL_ALPHABET = js ''ABCDEFGHIJKLMNOPQRSTUVWXYZabcdefghijklmnopqrstuvwxyz0123456789-_''"

definition alphabet_char :: "32 word \<Rightarrow> code_unit" where
  "alphabet_char w = BASE64URL_ALPHABET ! unat (and w 63)"

function emit_digits :: "32 word \<Rightarrow> nat \<Rightarrow> jstring \<times> 32 word \<times> nat" where
  \<comment> \<open>the inner \<open>while\<close>: what is written, and the accumulator and bit count after it\<close>
  "emit_digits accumulator bits =
     (if bits < 6 then ([], accumulator, bits)
      else case emit_digits (and accumulator (push_bit (bits - 6) 1 - 1)) (bits - 6) of
        (out, rest) \<Rightarrow> (alphabet_char (drop_bit (bits - 6) accumulator) # out, rest))"
  by auto
termination by (relation "measure snd") auto

declare emit_digits.simps [simp del]

fun base64url_loop :: "32 word \<Rightarrow> nat \<Rightarrow> byte list \<Rightarrow> jstring" where
  "base64url_loop accumulator bits [] =
     (if bits \<noteq> 0 then [alphabet_char (push_bit (6 - bits) accumulator)] else [])"
| "base64url_loop accumulator bits (b # bs) =
     (case emit_digits (or (push_bit 8 accumulator) (ucast b)) (bits + 8) of
        (out, accumulator, bits) \<Rightarrow> out @ base64url_loop accumulator bits bs)"

definition client_base64url :: "byte list \<Rightarrow> jstring" where
  "client_base64url bytes = base64url_loop 0 0 bytes"

subsection \<open>Guards\<close>

definition client_record :: "jval \<Rightarrow> string list \<Rightarrow> string \<Rightarrow> jval result" where
  \<comment> \<open>\<open>exactObject\<close>\<close>
  "client_record v expected code = exact_fields (\<lambda>_. client_error code) v expected []"

definition client_timestamp :: "jval \<Rightarrow> string \<Rightarrow> int result" where
  \<comment> \<open>\<open>exactTimestamp\<close>\<close>
  "client_timestamp v code = (case v of
       JStr s \<Rightarrow> (if \<not> RFC3339_MILLISECONDS s then Inl (client_error code)
         else case date_parse s of
           None \<Rightarrow> Inl (client_error code)
         | Some t \<Rightarrow> checks [ensure (to_iso_string t = s) (client_error code)] (Inr t))
     | _ \<Rightarrow> Inl (client_error code))"

subsection \<open>Responses\<close>

record page_response =
  page_status :: "nat option" \<comment> \<open>\<open>None\<close>: reading it throws\<close>
  page_media_type :: "jstring option"
  page_readable :: bool \<comment> \<open>its body has a reader\<close>
  page_reads :: "body_read list"

definition fold_unit :: "code_unit \<Rightarrow> code_unit" where
  \<comment> \<open>the case folding of the flags \<open>iu\<close>, as far as it reaches ASCII\<close>
  "fold_unit c = (if c = 0x17f then 115 else if c = 0x212a then 107 else lower_ascii c)"

definition response_has_json_media_type :: "page_response \<Rightarrow> bool" where
  \<comment> \<open>\<open>/^application\/json(?:\s*;\s*charset=utf-8)?$/iu\<close> of the trimmed header\<close>
  "response_has_json_media_type r = (case page_media_type r of
       None \<Rightarrow> False
     | Some s \<Rightarrow>
         let t = map fold_unit (trim_text s); start = js ''application/json'';
             rest = dropWhile is_trim_scalar (drop (length start) t) in
         starts_with start t \<and>
           (drop (length start) t = []
            \<or> (rest \<noteq> [] \<and> hd rest = 59 \<and> dropWhile is_trim_scalar (tl rest) = js ''charset=utf-8'')))"

definition read_response_text :: "page_response \<Rightarrow> nat \<Rightarrow> jstring result option" where
  \<comment> \<open>every failure is the same error; \<open>None\<close>: the body never ends\<close>
  "read_response_text r maximum_bytes = (let e = client_error ''RELAY_ERROR'' in
     if \<not> response_has_json_media_type r \<or> \<not> page_readable r then Some (Inl e)
     else map_option (\<lambda>x. case x of
         Inl _ \<Rightarrow> Inl e
       | Inr bs \<Rightarrow> (case text_decode bs of None \<Rightarrow> Inl e | Some t \<Rightarrow> Inr t)) (read_chunks maximum_bytes [] (page_reads r)))"

definition registration_reply :: "jval \<Rightarrow> int \<Rightarrow> jstring \<Rightarrow> int result" where
  \<comment> \<open>the expiry a 201 answer to the registration gives\<close>
  "registration_reply tid now s =
     rbind (client_parse_json (JStr s) MAX_REGISTRATION_RESPONSE_BYTES) (\<lambda>v.
     rbind (client_record v [''expiresAt'', ''schemaVersion'', ''transactionId''] ''RELAY_ERROR'') (\<lambda>value. checks
       [ensure (strict_eq (fld value ''schemaVersion'') (jint 1) \<and> strict_eq (fld value ''transactionId'') tid)
          (client_error ''RELAY_ERROR'')]
       (rbind (client_timestamp (fld value ''expiresAt'') ''RELAY_ERROR'') (\<lambda>expires.
        checks [ensure (now < expires \<and> expires - now \<le> MAX_TRANSACTION_MS) (client_error ''RELAY_ERROR'')] (Inr expires)))))"

definition redeem_reply :: "jval \<Rightarrow> jstring \<Rightarrow> jval result" where
  \<comment> \<open>the result a 200 answer to the redemption carries, not yet parsed by the operation\<close>
  "redeem_reply tid s =
     rbind (client_parse_json (JStr s) MAX_REDEEM_RESPONSE_BYTES) (\<lambda>v.
     rbind (client_record v [''result'', ''schemaVersion'', ''transactionId''] ''RELAY_ERROR'') (\<lambda>value. checks
       [ensure (strict_eq (fld value ''schemaVersion'') (jint 1) \<and> strict_eq (fld value ''transactionId'') tid)
          (client_error ''RELAY_ERROR'')]
       (Inr (fld value ''result''))))"

subsection \<open>The callback record\<close>

definition callback_record :: "jstring \<Rightarrow> jval \<Rightarrow> int \<Rightarrow> jval result" where
  \<comment> \<open>the code of a live record for this state\<close>
  "callback_record s expected_state now = (let e = client_error ''CALLBACK_ERROR'' in
     rbind (from_catch e (rbind (client_parse_json (JStr s) 2048) (\<lambda>v.
       client_record v [''code'', ''expiresAt'', ''schemaVersion'', ''state''] ''CALLBACK_ERROR''))) (\<lambda>value. checks
     [ensure (strict_eq (fld value ''schemaVersion'') (jint 1)) e,
      ensure (strict_eq (fld value ''state'') expected_state) e,
      regexp_test LOWER_HEX_32 (fld value ''code'') e]
     (rbind (client_timestamp (fld value ''expiresAt'') ''CALLBACK_ERROR'') (\<lambda>expires.
      checks [ensure (now < expires \<and> expires - now \<le> MAX_CALLBACK_MS) e] (Inr (fld value ''code''))))))"

definition expired_record :: "jstring \<Rightarrow> jstring option \<Rightarrow> int \<Rightarrow> bool" where
  \<comment> \<open>of \<open>#removeExpiredCallbackRecords\<close>: a record under its own state's key whose time is over\<close>
  "expired_record key contents now =
     (starts_with CALLBACK_PREFIX key \<and> LOWER_HEX_32 (drop (length CALLBACK_PREFIX) key) \<and> (case contents of
        None \<Rightarrow> False
      | Some s \<Rightarrow> is_ok (
          rbind (client_parse_json (JStr s) 2048) (\<lambda>v.
          rbind (client_record v [''code'', ''expiresAt'', ''schemaVersion'', ''state''] ''CALLBACK_ERROR'') (\<lambda>value. checks
            [ensure (strict_eq (fld value ''schemaVersion'') (jint 1)) (client_error ''CALLBACK_ERROR''),
             ensure (strict_eq (fld value ''state'') (JStr (drop (length CALLBACK_PREFIX) key))) (client_error ''CALLBACK_ERROR''),
             regexp_test LOWER_HEX_32 (fld value ''code'') (client_error ''CALLBACK_ERROR'')]
            (rbind (client_timestamp (fld value ''expiresAt'') ''CALLBACK_ERROR'') (\<lambda>expires.
             ensure (expires \<le> now) (client_error ''CALLBACK_ERROR''))))))))"

subsection \<open>The callback page\<close>

record callback_page =
  page_hash :: "jstring option" \<comment> \<open>\<open>None\<close>: reading the location throws\<close>
  page_path :: "jstring option" \<comment> \<open>\<open>None\<close>: not a string\<close>
  page_search :: "jstring option"
  replaces_state :: bool
  page_clock :: int
  stores_item :: bool

definition CALLBACK_FRAGMENT :: "jstring \<Rightarrow> (jstring \<times> jstring) option" where
  \<comment> \<open>\<open>/^#code=([0-9a-f]{64})&state=([0-9a-f]{64})$/u\<close>\<close>
  "CALLBACK_FRAGMENT s = (let code = take 64 (drop 6 s); tstate = drop 77 s in
     if s = js ''#code='' @ code @ js ''&state='' @ tstate \<and> lower_hex 64 code \<and> lower_hex 64 tstate
     then Some (code, tstate) else None)"

definition clean_url :: "callback_page \<Rightarrow> jstring" where
  "clean_url p =
     (case page_path p of Some s \<Rightarrow> if starts_with [47] s then s else [47] | None \<Rightarrow> [47]) @
     (case page_search p of Some s \<Rightarrow> if starts_with [63] s then s else [] | None \<Rightarrow> [])"

definition callback_document :: "jstring \<Rightarrow> jstring \<Rightarrow> jstring \<Rightarrow> json" where
  "callback_document code tstate expires = J_Obj
     [(js ''schemaVersion'', J_Num (Fin 1)), (js ''code'', J_Str code), (js ''state'', J_Str tstate), (js ''expiresAt'', J_Str expires)]"

definition complete_wallet_callback :: "callback_page \<Rightarrow> jstring option \<times> (jstring \<times> jstring) option \<times> unit result" where
  \<comment> \<open>the address put in place of the fragment, the key and text stored, and how it ends; closing the
    window never fails it\<close>
  "complete_wallet_callback p = (let e = Plain_Error ''Wallet return could not be completed. Close this page and try Login again.'' in
     case page_hash p of
       None \<Rightarrow> (None, None, Inl e)
     | Some fragment \<Rightarrow>
         if \<not> replaces_state p then (None, None, Inl e)
         else (Some (clean_url p), case CALLBACK_FRAGMENT fragment of
             None \<Rightarrow> (None, Inl e)
           | Some (code, tstate) \<Rightarrow> (case iso_instant (page_clock p + 120000) of
               Inl x \<Rightarrow> (None, Inl x)
             | Inr expires \<Rightarrow>
                 if \<not> stores_item p then (None, Inl e)
                 else (Some (CALLBACK_PREFIX @ tstate, json_text (callback_document code tstate expires)), Inr ()))))"

subsection \<open>Requests\<close>

definition registration_body :: "jstring \<Rightarrow> jval \<Rightarrow> string \<Rightarrow> jval \<Rightarrow> jval \<Rightarrow> jval \<Rightarrow> jval" where
  "registration_body client_name challenge operation request tstate tid = jobj
     [(js ''clientId'', JStr client_name), (js ''codeChallenge'', challenge), (js ''codeChallengeMethod'', jlit ''S256''),
      (js ''operation'', jlit operation), (js ''request'', request), (js ''schemaVersion'', jint 1), (js ''state'', tstate),
      (js ''transactionId'', tid)]"

definition redeem_body :: "jval \<Rightarrow> jval \<Rightarrow> jval \<Rightarrow> jval \<Rightarrow> jval" where
  "redeem_body code verifier tstate tid = jobj
     [(js ''code'', code), (js ''codeVerifier'', verifier), (js ''schemaVersion'', jint 1), (js ''state'', tstate),
      (js ''transactionId'', tid)]"

definition cancel_body :: "jval \<Rightarrow> jval \<Rightarrow> jval \<Rightarrow> jval" where
  "cancel_body verifier tstate tid = jobj
     [(js ''codeVerifier'', verifier), (js ''schemaVersion'', jint 1), (js ''state'', tstate), (js ''transactionId'', tid)]"

definition TRANSACTIONS_URL :: jstring where "TRANSACTIONS_URL = WALLET_ORIGIN @ TRANSACTIONS"
definition REDEEM_URL :: jstring where "REDEEM_URL = WALLET_ORIGIN @ REDEEM"

definition cancel_url :: "jval \<Rightarrow> jstring" where
  "cancel_url tid = TRANSACTIONS_URL @ [47] @ str_of tid @ js ''/cancel''"

end
