(* ===== verification/ClientPartsProperties.thy ===== *)
theory ClientPartsProperties
  imports ClientParts
begin

section \<open>The page's encoder and the callback record\<close>

text \<open>
  The client's own base64url encoder writes what the wire module's does, and the record the callback
  page stores is read back by the client exactly while it is alive.
\<close>

subsection \<open>base64url\<close>

lemma byte_below: "unat (b :: byte) < 256"
  using bytes_below_256 [of "[b]"] by simp

lemma unat_low: "unat (take_bit n w :: 32 word) = unat w mod 2 ^ n"
  unfolding unsigned_take_bit_eq by (rule take_bit_eq_mod)

lemma unat_drop: "unat (drop_bit n w :: 32 word) = unat w div 2 ^ n"
  unfolding unat_drop_bit_eq by (rule drop_bit_eq_div)

lemma low_bits: "and w (push_bit n 1 - 1) = take_bit n (w :: 32 word)"
  by (simp add: take_bit_eq_mask mask_eq_exp_minus_1 push_bit_of_1 del: take_bit_eq_mod)

lemma alphabet_char_eq: "alphabet_char w = url_char (unat w mod 64)"
proof -
  have "and w 63 = take_bit 6 w" by (simp only: take_bit_eq_mask mask_eq_exp_minus_1) simp
  then have "unat (and w 63) = unat w mod 64" by (simp only: unat_low) simp
  moreover have "\<forall>n\<in>set [0..<64]. BASE64URL_ALPHABET ! n = url_char n"
    by code_simp
  ultimately show ?thesis by (simp add: alphabet_char_def)
qed

lemma unat_append_byte: "unat w < 2 ^ 24 \<Longrightarrow> unat (or (push_bit 8 w) (ucast (b :: byte)) :: 32 word) = 256 * unat w + unat b"
proof -
  assume w: "unat w < 2 ^ 24"
  have "and (push_bit 8 w) (ucast b) = (0 :: 32 word)"
    by (rule bit_eqI) (auto simp: bit_simps dest: bit_imp_le_length)
  then have "or (push_bit 8 w) (ucast b) = push_bit 8 w + ucast b" by (rule disjunctive_add_eq_or [symmetric])
  moreover have "unat (push_bit 8 w) = 256 * unat w" using w by (simp add: push_bit_eq_mult unat_word_ariths)
  moreover have "unat (ucast b :: 32 word) = unat b" using byte_below [of b] by (simp add: unsigned_ucast_eq take_bit_nat_eq_self)
  moreover have "unat b < 256" using unsigned_less [of b] by simp
  ultimately show ?thesis using w by (simp add: unat_word_ariths)
qed

lemma emit_step: "6 \<le> n \<Longrightarrow> emit_digits v n =
    (case emit_digits (take_bit (n - 6) v) (n - 6) of (out, rest) \<Rightarrow> (url_char (unat v div 2 ^ (n - 6) mod 64) # out, rest))"
  by (subst emit_digits.simps) (simp only: low_bits alphabet_char_eq unat_drop not_less [symmetric] if_False simp_thms)

lemma emit_stop: "n < 6 \<Longrightarrow> emit_digits v n = ([], v, n)"
  by (subst emit_digits.simps) simp

lemma packed_div: "(256 * r + b) div 16 = 16 * r + b div (16 :: nat)" "(256 * r + b) div 64 = 4 * r + b div (64 :: nat)"
  "(256 * r + b) mod 16 = b mod (16 :: nat)" "(256 * r + b) mod 64 = b mod (64 :: nat)"
proof -
  have e: "256 * r + b = b + 16 * r * 16" "256 * r + b = b + 4 * r * 64" by simp_all
  show "(256 * r + b) div 16 = 16 * r + b div 16" unfolding e(1) by (subst div_mult_self1) simp_all
  show "(256 * r + b) div 64 = 4 * r + b div 64" unfolding e(2) by (subst div_mult_self1) simp_all
  show "(256 * r + b) mod 16 = b mod 16" unfolding e(1) by (rule mod_mult_self1)
  show "(256 * r + b) mod 64 = b mod 64" unfolding e(2) by (rule mod_mult_self1)
qed

lemma emit_first:
  "\<exists>w'. emit_digits (or (push_bit 8 0) (ucast (a :: byte))) 8 = ([url_char (unat a div 4)], w', 2) \<and> unat w' = unat a mod 4"
proof -
  obtain v where v: "or (push_bit 8 0) (ucast a) = (v :: 32 word)" "unat v = unat a" using unat_append_byte [of 0 a] by auto
  have "unat v div 4 mod 64 = unat a div 4" using byte_below [of a] v(2) by simp
  then have "emit_digits v 8 = ([url_char (unat a div 4)], take_bit 2 v, 2)"
    using emit_step [of 8 v] emit_stop [of 2 "take_bit 2 v"] by (simp del: take_bit_eq_mod)
  then show ?thesis unfolding v(1) using unat_low [of 2 v] v(2) by auto
qed

lemma emit_second:
  assumes "unat w < 4"
  shows "\<exists>w'. emit_digits (or (push_bit 8 w) (ucast (b :: byte))) 10 = ([url_char (unat w * 16 + unat b div 16)], w', 4) \<and> unat w' = unat b mod 16"
proof -
  obtain v where v: "or (push_bit 8 w) (ucast b) = (v :: 32 word)" "unat v = 256 * unat w + unat b"
    using unat_append_byte [of w b] assms by auto
  have d: "unat v div 16 mod 64 = unat w * 16 + unat b div 16" "unat v mod 16 = unat b mod 16"
    unfolding v(2) packed_div using assms byte_below [of b] by simp_all
  have "emit_digits v 10 = ([url_char (unat w * 16 + unat b div 16)], take_bit 4 v, 4)"
    using emit_step [of 10 v] emit_stop [of 4 "take_bit 4 v"] d by (simp del: take_bit_eq_mod)
  then show ?thesis unfolding v(1) using unat_low [of 4 v] d by auto
qed

lemma emit_third:
  assumes "unat w < 16"
  shows "emit_digits (or (push_bit 8 w) (ucast (c :: byte))) 12 = ([url_char (unat w * 4 + unat c div 64), url_char (unat c mod 64)], 0, 0)"
proof -
  obtain v where v: "or (push_bit 8 w) (ucast c) = (v :: 32 word)" "unat v = 256 * unat w + unat c"
    using unat_append_byte [of w c] assms by auto
  have d: "unat v div 64 mod 64 = unat w * 4 + unat c div 64" "unat (take_bit 6 v) mod 64 = unat c mod 64"
    unfolding unat_low v(2) packed_div using assms byte_below [of c] by (simp_all add: packed_div)
  show ?thesis unfolding v(1) using emit_step [of 12 v] emit_step [of 6 "take_bit 6 v"] emit_stop [of 0 0] d
    by (simp del: take_bit_eq_mod)
qed

lemma loop_digits:
  "base64url_loop 0 0 bs = map url_char (base64_sextets (map unat bs))"
proof (induction "map unat bs" arbitrary: bs rule: base64_sextets.induct)
  case (2 a)
  then obtain a' where bs: "bs = [a']" by auto
  obtain w where w: "emit_digits (or (push_bit 8 0) (ucast a')) 8 = ([url_char (unat a' div 4)], w, 2)" "unat w = unat a' mod 4"
    using emit_first by blast
  have "alphabet_char (push_bit 4 w) = url_char (unat a' mod 4 * 16)"
    by (simp add: alphabet_char_eq push_bit_eq_mult unat_word_ariths w(2))
  with w bs show ?case by simp
next
  case (3 a b)
  then obtain a' b' where bs: "bs = [a', b']" by auto
  obtain w where w: "emit_digits (or (push_bit 8 0) (ucast a')) 8 = ([url_char (unat a' div 4)], w, 2)" "unat w = unat a' mod 4"
    using emit_first by blast
  then obtain u where u: "emit_digits (or (push_bit 8 w) (ucast b')) 10 = ([url_char (unat w * 16 + unat b' div 16)], u, 4)"
      "unat u = unat b' mod 16" using emit_second [of w b'] by auto
  have "alphabet_char (push_bit 2 u) = url_char (unat b' mod 16 * 4)"
    by (simp add: alphabet_char_eq push_bit_eq_mult unat_word_ariths u(2))
  with w u bs show ?case by simp
next
  case (4 a b c r)
  then obtain a' b' c' r' where bs: "bs = a' # b' # c' # r'" "r = map unat r'" by (auto simp: map_eq_Cons_conv Cons_eq_map_conv)
  obtain w where w: "emit_digits (or (push_bit 8 0) (ucast a')) 8 = ([url_char (unat a' div 4)], w, 2)" "unat w = unat a' mod 4"
    using emit_first by blast
  then obtain u where u: "emit_digits (or (push_bit 8 w) (ucast b')) 10 = ([url_char (unat w * 16 + unat b' div 16)], u, 4)"
      "unat u = unat b' mod 16" using emit_second [of w b'] by auto
  have "emit_digits (or (push_bit 8 u) (ucast c')) 12 = ([url_char (unat u * 4 + unat c' div 64), url_char (unat c' mod 64)], 0, 0)"
    using emit_third [of u c'] u(2) by simp
  with w u bs 4(1) [OF bs(2)] show ?case by simp
qed simp

text \<open>the page's client packs base64url bit by bit in a 32-bit accumulator and writes exactly what the
  wire module's encoder (\<open>btoa\<close> with two replacements and the padding cut) writes, for every list of
  bytes: the challenge and the verifier it sends have the one canonical spelling the relay compares.\<close>

theorem client_base64url_canonical: "client_base64url bs = encode_base64url bs"
  by (simp add: client_base64url_def loop_digits encode_base64url_eq)

subsection \<open>Instants\<close>

lemma day_from_year_mono: "x \<le> y \<Longrightarrow> day_from_year x \<le> day_from_year y"
proof (induction rule: int_ge_induct)
  case (step i)
  then show ?case using year_length [of i] by (simp split: if_splits)
qed simp

lemma year_bounds:
  assumes "0 \<le> t" "t < 253402300800000"
  shows "0 \<le> year_of_time t" "year_of_time t \<le> 9999"
proof -
  let ?d = "t div 86400000"
  have d: "0 \<le> ?d" "?d < 2932897" using assms by simp_all
  note spec = year_from_day_spec [of ?d]
  have f: "day_from_year 1970 = 0" "day_from_year 10000 = 2932897" by (simp_all add: day_from_year_def)
  show "0 \<le> year_of_time t"
  proof (rule ccontr)
    assume "\<not> ?thesis"
    then have "day_from_year (year_of_time t + 1) \<le> 0" using day_from_year_mono [of "year_of_time t + 1" 1970] f by simp
    with spec d show False by (simp add: year_of_time_def)
  qed
  show "year_of_time t \<le> 9999"
  proof (rule ccontr)
    assume "\<not> ?thesis"
    then have "2932897 \<le> day_from_year (year_of_time t)" using day_from_year_mono [of 10000 "year_of_time t"] f by simp
    with spec d show False by (simp add: year_of_time_def)
  qed
qed

lemma iso_reads_back:
  assumes "0 \<le> t" "t < 253402300800000"
  shows "client_timestamp (JStr (to_iso_string t)) code = Inr t" "plain (to_iso_string t)" "length (to_iso_string t) = 24"
proof -
  obtain y m d h mi s ms where c: "valid_civil y m d h mi s ms" "to_iso_string t = iso_text (int y) m d h mi s ms" "make_time y m d h mi s ms = t"
    using to_iso_civil [OF year_bounds [OF assms]] .
  have y: "y \<le> 9999" using c(1) by (simp add: valid_civil_def)
  show "client_timestamp (JStr (to_iso_string t)) code = Inr t"
    using iso_text_mask [OF y] date_parse_iso [OF c(1)] c by (simp add: client_timestamp_def)
  have "plain (pad n k)" for n k using pad_digits [of n k] by (auto simp: list_all_iff plain_unit_def is_digit_def)
  then show "plain (to_iso_string t)" using y by (simp add: c(2) iso_text_def year_text_def plain_unit_def)
  show "length (to_iso_string t) = 24" using y by (simp add: c(2) iso_text_def year_text_def)
qed

subsection \<open>The callback record\<close>

lemma hex_component: "lower_hex n s \<Longrightarrow> encode_uri_component s = Inr s"
proof -
  assume h: "lower_hex n s"
  then have a: "is_ascii s" by (rule lower_hex_ascii)
  have u: "\<forall>c\<in>set s. unreserved c \<and> c < 128"
    using h by (auto simp: lower_hex_def is_lower_hex_def list_all_iff unreserved_def)
  have "concat (map (\<lambda>b. if unreserved (unat b) then [unat b] else [37, upper_hex_digit (unat b div 16), upper_hex_digit (unat b mod 16)])
      (map byte_of s)) = s"
    using u by (induction s) (auto simp: unat_byte_of)
  with a show ?thesis by (simp add: encode_uri_component_def utf8_encode_ascii ascii_utf16_ok)
qed

lemma fragment_read:
  assumes "lower_hex 64 code" "lower_hex 64 st"
  shows "CALLBACK_FRAGMENT (js ''#code='' @ code @ js ''&state='' @ st) = Some (code, st)"
proof -
  have l: "length code = 64" "length st = 64" using assms by (simp_all add: lower_hex_def)
  have "js ''#code='' = [35, 99, 111, 100, 101, 61]" "js ''&state='' = [38, 115, 116, 97, 116, 101, 61]" by (simp_all add: js_def)
  with l assms show ?thesis by (simp add: CALLBACK_FRAGMENT_def Let_def)
qed

definition stored_callback :: "jstring \<Rightarrow> jstring \<Rightarrow> int \<Rightarrow> jval" where
  "stored_callback code st expires = embed (callback_document code st (to_iso_string expires))"

lemma callback_parses:
  assumes "lower_hex 64 code" "lower_hex 64 st" "0 \<le> t" "t < 253402300800000"
  shows "client_parse_json (JStr (json_text (callback_document code st (to_iso_string t)))) 2048 = Inr (stored_callback code st t)"
proof -
  let ?j = "callback_document code st (to_iso_string t)"
  note iso = iso_reads_back [OF assms(3,4)]
  note names = plain_lower_hex [OF assms(1)] plain_lower_hex [OF assms(2)] iso(2)
  have p: "plain (js ''schemaVersion'')" "plain (js ''code'')" "plain (js ''state'')" "plain (js ''expiresAt'')"
    by (simp_all add: plain_unit_def js_def)
  have l: "length code = 64" "length st = 64" using assms(1,2) by (simp_all add: lower_hex_def)
  have x: "is_ascii (json_text ?j)" "length (json_text ?j) \<le> 2048"
    using l iso(3) by (simp_all add: callback_document_def bracketed_def member_text_def p [THEN quote_plain] names [THEN quote_plain]
        num_to_string_one p [THEN plain_ascii(1)] names [THEN plain_ascii(1)])
  have "json_readable (dialect_guard (relay_dialect (client_error ''RELAY_ERROR''))) ?j"
    using p [THEN plain_ascii(1)] p [THEN plain_ascii(2)] names [THEN plain_ascii(1)] names [THEN plain_ascii(2)]
    by (simp add: callback_document_def relay_dialect_def surrogate_guard_def ascii_utf16_ok one_reads_back)
  moreover have "json_depth ?j \<le> 33" "json_nodes ?j \<le> 4096" by (simp_all add: callback_document_def)
  ultimately have "parse_document (relay_dialect (client_error ''RELAY_ERROR'')) (json_text ?j) = Inr (embed ?j)"
    by (rule document_reads)
  with x ascii_decodes(3) [OF x(1)] show ?thesis by (simp add: client_parse_json_def Let_def stored_callback_def)
qed

lemma callback_fields:
  "fld (stored_callback code st t) ''schemaVersion'' = jint 1" "fld (stored_callback code st t) ''code'' = JStr code"
  "fld (stored_callback code st t) ''state'' = JStr st" "fld (stored_callback code st t) ''expiresAt'' = JStr (to_iso_string t)"
  "client_record (stored_callback code st t) [''code'', ''expiresAt'', ''schemaVersion'', ''state''] e = Inr (stored_callback code st t)"
proof -
  show "client_record (stored_callback code st t) [''code'', ''expiresAt'', ''schemaVersion'', ''state''] e = Inr (stored_callback code st t)"
    unfolding client_record_def exact_fields_Inr
    by (simp add: stored_callback_def callback_document_def jnull_obj_def own_props_def own_names_def own_symbols_def jdata_def
        is_plain_data_def is_object_record_def sort_names_eq_iff) (simp add: insert_commute)
qed (simp_all add: stored_callback_def callback_document_def fld_def field_def jnull_obj_def own_props_def jdata_def prop_value_def jint_def)

text \<open>C35: the hand-over through the browser's storage works in time and only in time. A redirect whose
  fragment carries a code and a state as the relay writes them makes the callback page store one
  entry, under the key of that state; the client reads the code back from it at every moment of the
  two minutes from then, for that state, and refuses it before and after and for any other state;
  and the start-up sweep deletes it exactly when those two minutes are over.\<close>

theorem callback_hand_over:
  assumes "lower_hex 64 code" "lower_hex 64 st" "encode_uri_component code = Inr c" "encode_uri_component st = Inr s"
    and "page_hash p = Some (js ''#code='' @ c @ js ''&state='' @ s)" "replaces_state p" "stores_item p"
    and "0 \<le> page_clock p" "page_clock p < 253402300680000"
  shows "\<exists>entry. complete_wallet_callback p = (Some (clean_url p), Some (CALLBACK_PREFIX @ st, entry), Inr ())
     \<and> (\<forall>now other. callback_record entry (JStr other) now =
         (if other = st \<and> page_clock p \<le> now \<and> now < page_clock p + 120000 then Inr (JStr code) else Inl (client_error ''CALLBACK_ERROR'')))
     \<and> (\<forall>now. expired_record (CALLBACK_PREFIX @ st) (Some entry) now \<longleftrightarrow> page_clock p + 120000 \<le> now)"
proof -
  define t where "t = page_clock p + 120000"
  have t: "0 \<le> t" "t < 253402300800000" using assms(8,9) by (simp_all add: t_def)
  let ?r = "json_text (callback_document code st (to_iso_string t))"
  have "CALLBACK_FRAGMENT (js ''#code='' @ c @ js ''&state='' @ s) = Some (code, st)"
    using fragment_read [OF assms(1,2)] hex_component [OF assms(1)] hex_component [OF assms(2)] assms(3,4) by simp
  moreover have "iso_instant t = Inr (to_iso_string t)" using t by (simp add: iso_instant_def)
  ultimately have "complete_wallet_callback p = (Some (clean_url p), Some (CALLBACK_PREFIX @ st, ?r), Inr ())"
    using assms(5-7) by (simp add: complete_wallet_callback_def t_def)
  moreover have "callback_record ?r (JStr other) now =
      (if other = st \<and> page_clock p \<le> now \<and> now < t then Inr (JStr code) else Inl (client_error ''CALLBACK_ERROR''))" for now other
    using callback_parses [OF assms(1,2) t] iso_reads_back(1) [OF t] assms(1)
    by (auto simp: callback_record_def Let_def callback_fields checks_ensure regexp_test_def LOWER_HEX_32_def MAX_CALLBACK_MS_def t_def from_catch_def)
  moreover have "expired_record (CALLBACK_PREFIX @ st) (Some ?r) now \<longleftrightarrow> t \<le> now" for now
    using callback_parses [OF assms(1,2) t] iso_reads_back(1) [OF t] assms(1,2)
    by (simp add: expired_record_def starts_with_def callback_fields is_ok_checks LOWER_HEX_32_def)
  ultimately show ?thesis unfolding t_def by blast
qed

lemma callback_hand_over_witness:
  "\<exists>entry. snd (complete_wallet_callback \<lparr>page_hash = Some (js ''#code='' @ replicate 64 48 @ js ''&state='' @ replicate 64 49),
      page_path = Some (js ''/done''), page_search = None, replaces_state = True, page_clock = 1700000000000, stores_item = True\<rparr>)
      = (Some (CALLBACK_PREFIX @ replicate 64 49, entry), Inr ())
    \<and> callback_record entry (JStr (replicate 64 49)) 1700000119999 = Inr (JStr (replicate 64 48))
    \<and> callback_record entry (JStr (replicate 64 49)) 1700000120000 = Inl (client_error ''CALLBACK_ERROR'')"
proof -
  have h: "lower_hex 64 (replicate 64 48)" "lower_hex 64 (replicate 64 49)" by (simp_all add: lower_hex_def is_lower_hex_def list_all_iff)
  let ?p = "\<lparr>page_hash = Some (js ''#code='' @ replicate 64 48 @ js ''&state='' @ replicate 64 49),
      page_path = Some (js ''/done''), page_search = None, replaces_state = True, page_clock = 1700000000000, stores_item = True\<rparr>"
  obtain entry where r: "complete_wallet_callback ?p = (Some (clean_url ?p), Some (CALLBACK_PREFIX @ replicate 64 49, entry), Inr ())"
      "\<forall>now other. callback_record entry (JStr other) now =
         (if other = replicate 64 49 \<and> page_clock ?p \<le> now \<and> now < page_clock ?p + 120000 then Inr (JStr (replicate 64 48)) else Inl (client_error ''CALLBACK_ERROR''))"
    using callback_hand_over [OF h hex_component [OF h(1)] hex_component [OF h(2)], of ?p] by auto
  show ?thesis using r by simp
qed

end
