(* ===== verification/RelayClient.thy ===== *)
theory RelayClient
  imports ClientParts
begin

section \<open>The page's relay client: client/relay-client.mjs\<close>

text \<open>
  \<open>InternalWalletClient\<close> runs one wallet operation at a time: it opens the wallet's popup, registers
  the transaction, waits for the callback record and redeems the code; a newer operation, a
  disconnect or a destruction retires the running one and revokes it at the relay.

  The state is the object's private fields. Operations live in a store, addressed by the order they
  were made in, because running tasks and the retired set hold references to them. A method is a
  function on the state that may not return (\<open>None\<close>: a listener loops). An \<open>async\<close> method is cut at
  its \<open>await\<close>s into parts, and the operation records what its tasks wait for.

  Wherever the code checks its epoch again after calling the page (input traps, patched browser
  functions, listeners, \<open>abort\<close>), the call may come back into the client: the host says for each of
  these sites what state the client is in afterwards. What the client asks the transport, the storage
  and the window to do is a log of effects. Aborting a request is represented by the failures the
  network may give at any moment; a timer by the flag that it is armed.
\<close>

subsection \<open>Operations\<close>

datatype adapter_kind = Connect_Kind | Account_Kind | Typed_Kind

record adapter =
  page_build :: "jval \<Rightarrow> jval result"
  page_kind :: adapter_kind
  page_operation :: string
  page_parse :: "jval \<Rightarrow> jval result"
  page_seals :: bool \<comment> \<open>it has an asynchronous \<open>seal\<close>, whose outcome comes from Web Crypto\<close>

record client_config =
  config_adapters :: "string \<Rightarrow> adapter option"
  config_client_id :: jstring
  config_digest :: digest_function

record page_connection =
  expires_at :: jval
  expires_at_wall :: int
  connected_identity :: jval

datatype client_phase = Hashing | Registering | Waiting_Callback | Redeeming

datatype registration = None_Sent | Not_Started | Ambiguous | Definitive_Failure | Was_Registered

datatype register_point = At_Seal | At_Digest "byte list" | At_Response | At_Body page_response | Register_Over
datatype redeem_point = Before_Redeem | At_Redeem_Response | At_Redeem_Body page_response | At_Opening jval | Redeem_Over
datatype cleanup_point = No_Cleanup | At_Cancel_Response | At_Nothing_To_Cancel | At_Retry | Cleanup_Over

record pending =
  is_live :: bool \<comment> \<open>\<open>active\<close>\<close>
  op_adapter :: "adapter option"
  callback_busy :: bool
  op_challenge :: jval
  cleanup_finished :: bool
  cleanup_started :: bool
  expiry_timer :: bool
  op_generation :: nat
  operation_timer :: bool
  op_phase :: client_phase
  poll_timer :: bool
  prior_connection :: "page_connection option"
  registration_deadline :: int
  registration_outcome :: registration
  opens_result :: bool
  op_request :: jval
  retry_timer :: bool
  retry_delay :: int
  op_state :: jval
  transaction_expires :: "int option"
  op_transaction_id :: jval
  op_verifier :: jval
  register_task :: register_point
  redeem_task :: redeem_point
  cleanup_task :: cleanup_point

subsection \<open>The client\<close>

record shown =
  shown_identity :: jval
  shown_status :: string
  shown_expires :: "jval option"
  shown_error :: "string option" \<comment> \<open>its code; the message is the table's\<close>

datatype outcome = Resolved jval | Rejected string

datatype effect =
    Fetch nat jstring jval \<comment> \<open>a POST of the operation, with its address and body\<close>
  | Opened jstring
  | Removed jstring
  | Settled nat outcome \<comment> \<open>the operation's promise\<close>

record client =
  activation_in_progress :: bool
  activation_compromised :: bool
  channel_activated :: bool
  connection :: "page_connection option"
  connection_timer :: "page_connection option" \<comment> \<open>armed, for the connection it was made for\<close>
  destroyed :: bool
  destroy_called :: bool
  entry_epoch :: nat
  generation :: nat
  page_listeners :: "nat list" \<comment> \<open>a \<open>Set\<close>, in insertion order\<close>
  notifications :: "shown list"
  current_op :: "nat option" \<comment> \<open>\<open>#pending\<close>\<close>
  publishing :: bool
  retired :: "nat list" \<comment> \<open>a \<open>Set\<close>, in insertion order\<close>
  shown_state :: shown
  storage_open :: bool
  storage_listening :: bool
  operations :: "nat \<Rightarrow> pending"
  next_op :: nat
  effects :: "effect list"

subsection \<open>The page around it\<close>

datatype site =
    Building | Getting_Storage | Finding_Methods | Reading_Key nat | Reading_Record nat | Adding_Listener | Expiry_Clock | Entry_Clock
  | Finding_Crypto | Random_Id | Random_State | Random_Verifier | Opening_Window | Aborting | Removing_Record

datatype clock_site = Entry_Time | Expiry_Time | Failure_Time | Record_Time | Prepare_Time | Restore_Time | Deadline_Time | Sweep_Time

record host =
  reenter :: "site \<Rightarrow> client \<Rightarrow> client option"
  hear :: "nat \<Rightarrow> shown \<Rightarrow> client \<Rightarrow> client option" \<comment> \<open>a listener is told\<close>
  now_at :: "clock_site \<Rightarrow> int" \<comment> \<open>\<open>now()\<close>\<close>
  storage_usable :: bool \<comment> \<open>the storage and its methods are there and nothing threw\<close>
  listener_added :: bool
  stored_item :: "jstring option option" \<comment> \<open>\<open>getItem\<close>; the outer \<open>None\<close>: it throws\<close>
  removes_item :: bool
  crypto_found :: bool
  page_random :: "site \<Rightarrow> string option + byte list" \<comment> \<open>left: thrown, with the code if it is a public error\<close>
  window_throws :: "string option option"
  stored_keys :: "jstring list" \<comment> \<open>the first 64 keys\<close>
  stored_text :: "jstring \<Rightarrow> jstring option"

type_synonym 'a run = "client \<Rightarrow> ('a \<times> client) option"

definition mret :: "'a \<Rightarrow> 'a run" where
  "mret x s = Some (x, s)"

definition mbind :: "'a run \<Rightarrow> ('a \<Rightarrow> 'b run) \<Rightarrow> 'b run" where
  "mbind m f s = (case m s of None \<Rightarrow> None | Some (x, t) \<Rightarrow> f x t)"

definition mstate :: "(client \<Rightarrow> client) \<Rightarrow> unit run" where
  "mstate f s = Some ((), f s)"

definition mget :: "(client \<Rightarrow> 'a) \<Rightarrow> 'a run" where
  "mget f s = Some (f s, s)"

definition mwhen :: "bool \<Rightarrow> unit run \<Rightarrow> unit run" where
  "mwhen b m = (if b then m else mret ())"

definition call_page :: "host \<Rightarrow> site \<Rightarrow> unit run" where
  "call_page H p s = map_option (Pair ()) (reenter H p s)"

definition on_op :: "nat \<Rightarrow> (pending \<Rightarrow> pending) \<Rightarrow> client \<Rightarrow> client" where
  "on_op p f s = s\<lparr>operations := (operations s)(p := f (operations s p))\<rparr>"

definition emit :: "effect \<Rightarrow> client \<Rightarrow> client" where
  "emit e s = s\<lparr>effects := effects s @ [e]\<rparr>"

subsection \<open>Publishing\<close>

fun clone_frozen :: "jval \<Rightarrow> jval" and clone_slots :: "jprop option list \<Rightarrow> jprop option list"
and clone_props :: "(jstring \<times> jprop) list \<Rightarrow> (jstring \<times> jprop) list" where
  \<comment> \<open>plain values only: what a result parser returned\<close>
  "clone_frozen (JArr p xs ps n) = JArr Array_Prototype (clone_slots xs) [] 0"
| "clone_frozen (JObj p ps n) = JObj Object_Prototype (clone_props ps) 0"
| "clone_frozen v = v"
| "clone_slots [] = []"
| "clone_slots (None # xs) = None # clone_slots xs"
| "clone_slots (Some (Data e v) # xs) = Some (Data True (clone_frozen v)) # clone_slots xs"
| "clone_slots (Some (Accessor e) # xs) = Some (Data True JUndefined) # clone_slots xs"
| "clone_props [] = []"
| "clone_props ((k, Data e v) # ps) = (if e then [(k, Data True (clone_frozen v))] else []) @ clone_props ps"
| "clone_props ((k, Accessor e) # ps) = (if e then [(k, Data True JUndefined)] else []) @ clone_props ps"

definition snapshot_from :: "shown \<Rightarrow> shown" where
  "snapshot_from v = v\<lparr>shown_identity := clone_frozen (shown_identity v)\<rparr>"

fun tell :: "host \<Rightarrow> nat list \<Rightarrow> shown \<Rightarrow> client \<Rightarrow> client option" where
  "tell H [] v s = Some s"
| "tell H (l # ls) v s = Option.bind (hear H l (snapshot_from v) s) (tell H ls v)"

partial_function (option) drain :: "host \<Rightarrow> client \<Rightarrow> client option" where
  \<comment> \<open>a listener that always publishes keeps the loop running\<close>
  [code]: "drain H s = (case notifications s of
       [] \<Rightarrow> Some s
     | v # vs \<Rightarrow> Option.bind (tell H (page_listeners s) v (s\<lparr>notifications := vs\<rparr>)) (drain H))"

definition publish :: "host \<Rightarrow> shown \<Rightarrow> unit run" where
  "publish H v s = (let v = snapshot_from v; s = s\<lparr>shown_state := v, notifications := notifications s @ [v]\<rparr> in
     if publishing s then Some ((), s)
     else map_option (\<lambda>t. ((), t\<lparr>publishing := False\<rparr>)) (drain H (s\<lparr>publishing := True\<rparr>)))"

definition DORMANT :: shown where
  "DORMANT = \<lparr>shown_identity = JNull, shown_status = ''dormant'', shown_expires = None, shown_error = None\<rparr>"

definition show_opening :: "page_connection option \<Rightarrow> shown" where
  "show_opening prior = \<lparr>shown_identity = (case prior of None \<Rightarrow> JNull | Some c \<Rightarrow> connected_identity c), shown_status = ''opening'',
     shown_expires = map_option expires_at prior, shown_error = None\<rparr>"

definition show_failed :: "string \<Rightarrow> shown" where
  "show_failed code = \<lparr>shown_identity = JNull, shown_status = ''error'', shown_expires = None, shown_error = Some code\<rparr>"

definition show_connected :: "page_connection \<Rightarrow> string option \<Rightarrow> shown" where
  "show_connected c code = \<lparr>shown_identity = connected_identity c, shown_status = ''connected'', shown_expires = Some (expires_at c), shown_error = code\<rparr>"

subsection \<open>The connection\<close>

definition clear_connection :: "client \<Rightarrow> client" where
  "clear_connection s = s\<lparr>connection := None, connection_timer := None\<rparr>"

definition live_connection :: "page_connection option \<Rightarrow> int \<Rightarrow> page_connection option" where
  "live_connection c now = (case c of None \<Rightarrow> None | Some x \<Rightarrow> if now < expires_at_wall x then Some x else None)"

definition expire_connection_if_needed :: "host \<Rightarrow> unit run" where
  "expire_connection_if_needed H = mbind (mget connection) (\<lambda>c. case c of
       None \<Rightarrow> mret ()
     | Some x \<Rightarrow>
         mbind (call_page H Expiry_Clock) (\<lambda>_.
         if now_at H Expiry_Time < expires_at_wall x then mret ()
         else mbind (mstate clear_connection) (\<lambda>_. mbind (mget current_op) (\<lambda>p.
           publish H (if p \<noteq> None then show_opening None else DORMANT)))))"

definition publish_failure :: "host \<Rightarrow> string \<Rightarrow> page_connection option \<Rightarrow> unit run" where
  "publish_failure H code prior = (case live_connection prior (now_at H Failure_Time) of
       Some c \<Rightarrow> mbind (mstate (\<lambda>s. s\<lparr>connection := Some c\<rparr>)) (\<lambda>_. publish H (show_connected c (Some code)))
     | None \<Rightarrow> mbind (mstate clear_connection) (\<lambda>_. publish H (show_failed code)))"

definition prepare_connection :: "jval \<Rightarrow> int \<Rightarrow> page_connection result" where
  "prepare_connection v now = rbind (client_timestamp (fld v ''connectionExpiresAt'') ''RELAY_ERROR'') (\<lambda>expires. checks
     [ensure (now < expires \<and> expires - now \<le> MAX_CONNECTION_MS) (client_error ''RELAY_ERROR'')]
     (Inr \<lparr>expires_at = fld v ''connectionExpiresAt'', expires_at_wall = expires, connected_identity = clone_frozen (fld v ''identity'')\<rparr>))"

definition install_connection :: "host \<Rightarrow> page_connection \<Rightarrow> unit run" where
  "install_connection H c = mbind (mstate (\<lambda>s. (clear_connection s)\<lparr>connection := Some c, connection_timer := Some c\<rparr>)) (\<lambda>_.
     publish H (show_connected c None))"

definition restore_prior_connection :: "host \<Rightarrow> page_connection option \<Rightarrow> unit run" where
  \<comment> \<open>as its one caller calls it, without an error\<close>
  "restore_prior_connection H prior = (case live_connection prior (now_at H Restore_Time) of
       Some c \<Rightarrow> mbind (mstate (\<lambda>s. s\<lparr>connection := Some c\<rparr>)) (\<lambda>_. publish H (show_connected c None))
     | None \<Rightarrow> mbind (mstate clear_connection) (\<lambda>_. publish H DORMANT))"

definition connection_timer_fires :: "host \<Rightarrow> unit run" where
  "connection_timer_fires H = mbind (mget connection_timer) (\<lambda>captured. mbind (mget connection) (\<lambda>c.
     if captured = None \<or> c \<noteq> captured then mstate (\<lambda>s. s\<lparr>connection_timer := None\<rparr>)
     else mbind (mstate (\<lambda>s. s\<lparr>connection := None, connection_timer := None\<rparr>)) (\<lambda>_. mbind (mget current_op) (\<lambda>p.
       publish H (if p \<noteq> None then show_opening None else DORMANT)))))"

subsection \<open>Cleaning up\<close>

definition clear_operation_timers :: "pending \<Rightarrow> pending" where
  "clear_operation_timers x = x\<lparr>expiry_timer := False, poll_timer := False\<rparr>"

definition wiped :: "pending \<Rightarrow> pending" where
  "wiped x = (clear_operation_timers x)\<lparr>cleanup_finished := True, retry_timer := False, operation_timer := False, op_adapter := None,
     op_challenge := JNull, prior_connection := None, op_request := JNull, op_state := JNull, transaction_expires := None,
     op_transaction_id := JNull, op_verifier := JNull\<rparr>"

definition finish_cleanup :: "nat \<Rightarrow> client \<Rightarrow> client" where
  "finish_cleanup p s = (if cleanup_finished (operations s p) then s
     else (on_op p wiped s)\<lparr>retired := removeAll p (retired s)\<rparr>)"

fun evict_retired :: "nat \<Rightarrow> client \<Rightarrow> client" where
  \<comment> \<open>each round of the \<open>while\<close> ends one cleanup, so the size of the set bounds them\<close>
  "evict_retired 0 s = s"
| "evict_retired (Suc n) s =
     (if MAX_RETIRED_CLEANUPS < length (retired s) then evict_retired n (finish_cleanup (hd (retired s)) s) else s)"

definition add_retired :: "nat \<Rightarrow> client \<Rightarrow> client" where
  "add_retired p s = (if cleanup_finished (operations s p) \<or> p \<in> set (retired s) then s
     else evict_retired (Suc (length (retired s))) (s\<lparr>retired := retired s @ [p]\<rparr>))"

definition revocable :: "pending \<Rightarrow> bool" where
  "revocable x \<longleftrightarrow> op_verifier x \<noteq> JNull \<and> op_challenge x \<noteq> JNull"

definition send_cancel :: "nat \<Rightarrow> client \<Rightarrow> client" where
  "send_cancel p s = (let x = operations s p in
     emit (Fetch p (cancel_url (op_transaction_id x)) (cancel_body (op_verifier x) (op_state x) (op_transaction_id x))) s)"

definition cancel_once :: "nat \<Rightarrow> client \<Rightarrow> client" where
  "cancel_once p s =
     (if \<not> revocable (operations s p) then on_op p (cleanup_task_update (\<lambda>_. At_Nothing_To_Cancel)) s
      else send_cancel p (on_op p (cleanup_task_update (\<lambda>_. At_Cancel_Response)) s))"

definition ensure_cleanup :: "nat \<Rightarrow> client \<Rightarrow> client" where
  "ensure_cleanup p s = (let x = operations s p in
     if cleanup_finished x \<or> cleanup_started x \<or> destroyed s then s
     else cancel_once p (add_retired p (on_op p (\<lambda>x. x\<lparr>cleanup_started := True, retry_delay := 100\<rparr>) s)))"

definition end_cleanup :: "nat \<Rightarrow> client \<Rightarrow> client" where
  "end_cleanup p s = on_op p (cleanup_task_update (\<lambda>_. Cleanup_Over)) (finish_cleanup p s)"

definition cancel_answers :: "host \<Rightarrow> nat \<Rightarrow> nat option \<Rightarrow> client \<Rightarrow> client" where
  \<comment> \<open>the status of the answer; \<open>None\<close>: no answer. Nothing to cancel counts as done\<close>
  "cancel_answers H p code s = (let x = operations s p; remaining = registration_deadline x - now_at H Deadline_Time in
     if cleanup_finished x \<or> cleanup_task x = At_Nothing_To_Cancel \<or> code \<in> Some ` {204, 400, 403, 409, 410} \<or> remaining \<le> 0
     then end_cleanup p s
     else on_op p (\<lambda>x. x\<lparr>retry_timer := True, cleanup_task := At_Retry\<rparr>) s)"

definition retry_cleanup :: "host \<Rightarrow> nat \<Rightarrow> client \<Rightarrow> client" where
  "retry_cleanup H p s = (let x = operations s p in
     if \<not> destroyed s \<and> \<not> cleanup_finished x \<and> now_at H Deadline_Time \<le> registration_deadline x
     then cancel_once p (on_op p (\<lambda>x. x\<lparr>retry_timer := False, retry_delay := min (retry_delay x * 2) 4000\<rparr>) s)
     else end_cleanup p (on_op p (retry_timer_update (\<lambda>_. False)) s))"

subsection \<open>Retiring\<close>

definition entry_failure :: "nat \<Rightarrow> client \<Rightarrow> string option" where
  "entry_failure epoch s = (if destroyed s then Some ''DESTROYED'' else if epoch \<noteq> entry_epoch s then Some ''REPLACED'' else None)"

definition is_active :: "nat \<Rightarrow> client \<Rightarrow> bool" where
  "is_active p s \<longleftrightarrow> \<not> destroyed s \<and> is_live (operations s p) \<and> current_op s = Some p \<and> op_generation (operations s p) = generation s"

definition deactivate :: "nat \<Rightarrow> client \<Rightarrow> client" where
  "deactivate p s = (on_op p (\<lambda>x. (clear_operation_timers x)\<lparr>is_live := False\<rparr>) s)\<lparr>
     current_op := (if current_op s = Some p then None else current_op s)\<rparr>"

definition after_retirement :: "nat \<Rightarrow> bool \<Rightarrow> client \<Rightarrow> client" where
  "after_retirement p cleanup s = (let x = operations s p in
     if destroyed s then finish_cleanup p (if revocable x then send_cancel p s else s)
     else if \<not> cleanup \<or> registration_outcome x \<in> {Definitive_Failure, Not_Started} then finish_cleanup p s
     else if op_phase x = Hashing then finish_cleanup p (on_op p (registration_outcome_update (\<lambda>_. Not_Started)) s)
     else if op_phase x = Registering \<and> registration_outcome x = None_Sent then add_retired p s
     else ensure_cleanup p (add_retired p s))"

definition retire :: "host \<Rightarrow> nat \<Rightarrow> string \<Rightarrow> bool \<Rightarrow> bool \<Rightarrow> unit run" where
  "retire H p code publishes cleanup = mbind (mget (\<lambda>s. operations s p)) (\<lambda>x.
     if \<not> is_live x then mret ()
     else mbind (mget entry_epoch) (\<lambda>epoch.
       mbind (mstate (\<lambda>s. (deactivate p s)\<lparr>generation := Suc (generation s)\<rparr>)) (\<lambda>_.
       mbind (mwhen (op_phase x \<noteq> Registering) (call_page H Aborting)) (\<lambda>_.
       mbind (mget (entry_failure epoch)) (\<lambda>failure.
       mbind (mstate (emit (Settled p (Rejected (or_else failure code))))) (\<lambda>_.
       mbind (mwhen (publishes \<and> failure = None) (publish_failure H code (prior_connection x))) (\<lambda>_.
       mstate (after_retirement p cleanup))))))))"

definition fail_active :: "host \<Rightarrow> nat \<Rightarrow> string \<Rightarrow> bool \<Rightarrow> unit run" where
  "fail_active H p code cleanup = mbind (mget (is_active p)) (\<lambda>active. mwhen active (retire H p code True cleanup))"

subsection \<open>Completing\<close>

definition complete_op :: "host \<Rightarrow> nat \<Rightarrow> jval \<Rightarrow> string option run" where
  \<comment> \<open>the code it throws, if any, before anything changed\<close>
  "complete_op H p v = mbind (mget (is_active p)) (\<lambda>active.
     if \<not> active then mret None
     else mbind (mget (\<lambda>s. operations s p)) (\<lambda>x.
       let kind = page_kind (the (op_adapter x)); joined = strict_eq (fld v ''event'') (jlit ''connected'') in
       case (if kind = Connect_Kind \<or> kind = Account_Kind \<and> joined then map_sum id Some (prepare_connection v (now_at H Prepare_Time)) else Inr None) of
         Inl _ \<Rightarrow> mret (Some ''RELAY_ERROR'')
       | Inr prepared \<Rightarrow>
           mbind (mstate (deactivate p)) (\<lambda>_.
           mbind (case prepared of
               Some c \<Rightarrow> install_connection H c
             | None \<Rightarrow> if kind = Account_Kind then mbind (mstate clear_connection) (\<lambda>_. publish H DORMANT)
                 else restore_prior_connection H (prior_connection x)) (\<lambda>_.
           mbind (mstate (emit (Settled p (Resolved
             (case kind of Connect_Kind \<Rightarrow> clone_frozen (fld v ''identity'') | Account_Kind \<Rightarrow> JUndefined | Typed_Kind \<Rightarrow> v))))) (\<lambda>_.
           mbind (mstate (finish_cleanup p)) (\<lambda>_. mret None))))))"

subsection \<open>Registering\<close>

definition verifier_bytes :: "pending \<Rightarrow> byte list" where
  \<comment> \<open>\<open>textEncoder.encode(pending.verifier)\<close>, also of \<open>null\<close>\<close>
  "verifier_bytes x = utf8_encode (case op_verifier x of JStr t \<Rightarrow> t | _ \<Rightarrow> js ''null'')"

definition register :: "nat \<Rightarrow> client \<Rightarrow> client" where
  \<comment> \<open>up to the first \<open>await\<close>\<close>
  "register p s = (let x = operations s p in
     if \<not> is_active p s \<or> cleanup_finished x then s
     else on_op p (\<lambda>x. x\<lparr>operation_timer := True,
        register_task := (if page_seals (the (op_adapter x)) then At_Seal else At_Digest (verifier_bytes x))\<rparr>) s)"

definition end_register :: "nat \<Rightarrow> client \<Rightarrow> client" where
  "end_register p = on_op p (register_task_update (\<lambda>_. Register_Over))"

definition clean_up :: "nat \<Rightarrow> client \<Rightarrow> client" where
  \<comment> \<open>of an operation that is no longer live\<close>
  "clean_up p s = (if registration_outcome (operations s p) \<in> {Ambiguous, Was_Registered} then ensure_cleanup p s else finish_cleanup p s)"

definition register_throws :: "host \<Rightarrow> nat \<Rightarrow> string option \<Rightarrow> unit run" where
  \<comment> \<open>the outer \<open>catch\<close>, with the code of a public error\<close>
  "register_throws H p thrown = mbind (mstate (end_register p)) (\<lambda>_. mbind (mget (\<lambda>s. operations s p)) (\<lambda>x.
     if \<not> is_live x then mstate (clean_up p)
     else fail_active H p (or_else thrown (if op_phase x = Hashing then ''CRYPTO_UNAVAILABLE'' else ''RELAY_ERROR''))
       (registration_outcome x \<noteq> None_Sent)))"

definition seal_settles :: "host \<Rightarrow> nat \<Rightarrow> string option + jval \<Rightarrow> unit run" where
  "seal_settles H p sealed = (case sealed of
       Inl thrown \<Rightarrow> register_throws H p thrown
     | Inr request \<Rightarrow> mstate (on_op p (\<lambda>x. x\<lparr>op_request := request, opens_result := True, register_task := At_Digest (verifier_bytes x)\<rparr>)))"

definition digest_settles :: "client_config \<Rightarrow> host \<Rightarrow> nat \<Rightarrow> byte list \<Rightarrow> bool \<Rightarrow> unit run" where
  "digest_settles K H p bytes digested = (let challenge = client_base64url (config_digest K bytes) in
     if \<not> digested then register_throws H p None
     else if \<not> BASE64URL_32 challenge then register_throws H p (Some ''CRYPTO_UNAVAILABLE'')
     else mbind (mget (is_active p)) (\<lambda>active.
       if \<not> active
       then mstate (\<lambda>s. finish_cleanup p (on_op p (\<lambda>x. x\<lparr>registration_outcome := Not_Started, register_task := Register_Over\<rparr>) s))
       else mbind (mget (\<lambda>s. operations s p)) (\<lambda>x. mstate (\<lambda>s.
         emit (Fetch p TRANSACTIONS_URL (registration_body (config_client_id K) (JStr challenge) (page_operation (the (op_adapter x)))
            (op_request x) (op_state x) (op_transaction_id x)))
         (on_op p (\<lambda>x. x\<lparr>op_challenge := JStr challenge, op_phase := Registering, register_task := At_Response\<rparr>) s)))))"

definition registration_fails :: "host \<Rightarrow> nat \<Rightarrow> registration \<Rightarrow> unit run" where
  \<comment> \<open>a definitive failure has nothing to revoke; then the \<open>finally\<close>\<close>
  "registration_fails H p how = mbind (mstate (on_op p (registration_outcome_update (\<lambda>_. how)))) (\<lambda>_.
     mbind (mget (\<lambda>s. is_live (operations s p))) (\<lambda>live.
     mbind (if live then fail_active H p ''RELAY_ERROR'' (how \<noteq> Definitive_Failure)
       else mstate (if how = Definitive_Failure then finish_cleanup p else ensure_cleanup p)) (\<lambda>_.
     mstate (on_op p (\<lambda>x. x\<lparr>operation_timer := False, register_task := Register_Over\<rparr>)))))"

definition registration_answers :: "host \<Rightarrow> nat \<Rightarrow> page_response option \<Rightarrow> unit run" where
  \<comment> \<open>\<open>None\<close>: the request failed or was aborted\<close>
  "registration_answers H p answer = (case answer of
       None \<Rightarrow> registration_fails H p Ambiguous
     | Some r \<Rightarrow> (case page_status r of
         None \<Rightarrow> registration_fails H p Ambiguous
       | Some code \<Rightarrow>
           if code \<noteq> 201 then registration_fails H p Definitive_Failure
           else mstate (on_op p (\<lambda>x. x\<lparr>registration_outcome := Ambiguous, register_task := At_Body r\<rparr>))))"

subsection \<open>Redeeming\<close>

definition callback_key :: "pending \<Rightarrow> jstring" where
  "callback_key x = CALLBACK_PREFIX @ str_of (op_state x)"

definition consume_callback :: "host \<Rightarrow> nat \<Rightarrow> bool \<Rightarrow> unit run" where
  \<comment> \<open>up to the first \<open>await\<close>; the flag: a storage event says the record is there\<close>
  "consume_callback H p evidence = mbind (mget (\<lambda>s. operations s p)) (\<lambda>x. mbind (mget (is_active p)) (\<lambda>active. mbind (mget storage_open) (\<lambda>stored.
     if \<not> active \<or> op_phase x \<noteq> Waiting_Callback \<or> callback_busy x \<or> \<not> stored then mret ()
     else case stored_item H of
       None \<Rightarrow> mwhen evidence (fail_active H p ''CALLBACK_ERROR'' True)
     | Some None \<Rightarrow> mret ()
     | Some (Some contents) \<Rightarrow>
         mbind (mstate (on_op p (callback_busy_update (\<lambda>_. True)))) (\<lambda>_.
         mbind (mstate (if removes_item H then emit (Removed (callback_key x)) else id)) (\<lambda>_.
         mbind (call_page H Removing_Record) (\<lambda>_.
         case callback_record contents (op_state x) (now_at H Record_Time) of
           Inl _ \<Rightarrow> fail_active H p ''CALLBACK_ERROR'' True
         | Inr code \<Rightarrow>
             if \<not> removes_item H then fail_active H p ''CALLBACK_ERROR'' True
             else mbind (mget (is_active p)) (\<lambda>active. mwhen active (mstate (\<lambda>s.
               emit (Fetch p REDEEM_URL (redeem_body code (op_verifier x) (op_state x) (op_transaction_id x)))
               (on_op p (\<lambda>x. x\<lparr>op_phase := Redeeming, poll_timer := False, redeem_task := At_Redeem_Response\<rparr>) s))))))))))"

definition registration_read :: "host \<Rightarrow> nat \<Rightarrow> jstring result \<Rightarrow> unit run" where
  \<comment> \<open>the text of a 201 answer\<close>
  "registration_read H p contents = mbind (mget (\<lambda>s. operations s p)) (\<lambda>x.
     case rbind contents (registration_reply (op_transaction_id x) (now_at H Record_Time)) of
       Inl _ \<Rightarrow> registration_fails H p Ambiguous
     | Inr expires \<Rightarrow>
         mbind (mstate (on_op p (\<lambda>x. x\<lparr>operation_timer := False, transaction_expires := Some expires, registration_outcome := Was_Registered,
            register_task := Register_Over\<rparr>))) (\<lambda>_.
         mbind (mget (is_active p)) (\<lambda>active.
         if \<not> active then mstate (ensure_cleanup p)
         else mbind (mstate (on_op p (\<lambda>x. x\<lparr>op_phase := Waiting_Callback, expiry_timer := True, poll_timer := True\<rparr>))) (\<lambda>_.
           consume_callback H p False))))"

definition redeem_throws :: "host \<Rightarrow> nat \<Rightarrow> string \<Rightarrow> unit run" where
  "redeem_throws H p code = mbind (mstate (on_op p (redeem_task_update (\<lambda>_. Redeem_Over)))) (\<lambda>_. fail_active H p code True)"

definition redeem_answers :: "host \<Rightarrow> nat \<Rightarrow> page_response option \<Rightarrow> unit run" where
  "redeem_answers H p answer = (case answer of
       Some r \<Rightarrow> if page_status r = Some 200 then mstate (on_op p (redeem_task_update (\<lambda>_. At_Redeem_Body r))) else redeem_throws H p ''RELAY_ERROR''
     | None \<Rightarrow> redeem_throws H p ''RELAY_ERROR'')"

definition result_ready :: "host \<Rightarrow> nat \<Rightarrow> jval \<Rightarrow> unit run" where
  "result_ready H p v = mbind (mstate (on_op p (redeem_task_update (\<lambda>_. Redeem_Over)))) (\<lambda>_.
     mbind (complete_op H p v) (\<lambda>thrown. case thrown of None \<Rightarrow> mret () | Some code \<Rightarrow> fail_active H p code True))"

definition redeem_read :: "host \<Rightarrow> nat \<Rightarrow> jstring result \<Rightarrow> unit run" where
  "redeem_read H p contents = mbind (mget (\<lambda>s. operations s p)) (\<lambda>x.
     case rbind (rbind contents (redeem_reply (op_transaction_id x)))
         (\<lambda>v. case op_adapter x of None \<Rightarrow> Inl (client_error ''RELAY_ERROR'') | Some a \<Rightarrow> page_parse a v) of
       Inl _ \<Rightarrow> redeem_throws H p ''RELAY_ERROR''
     | Inr v \<Rightarrow> if opens_result x then mstate (on_op p (redeem_task_update (\<lambda>_. At_Opening v))) else result_ready H p v)"

definition opening_settles :: "host \<Rightarrow> nat \<Rightarrow> string option + jval \<Rightarrow> unit run" where
  "opening_settles H p opened = (case opened of
       Inl thrown \<Rightarrow> redeem_throws H p (or_else thrown ''RELAY_ERROR'')
     | Inr v \<Rightarrow> result_ready H p v)"

subsection \<open>Timers and events\<close>

definition operation_timer_fires :: "host \<Rightarrow> nat \<Rightarrow> unit run" where
  \<comment> \<open>while it registers, the timer aborts the request\<close>
  "operation_timer_fires H p = mbind (mstate (on_op p (operation_timer_update (\<lambda>_. False)))) (\<lambda>_. mbind (mget (\<lambda>s. operations s p)) (\<lambda>x.
     mwhen (\<not> cleanup_finished x \<and> op_phase x = Hashing) (fail_active H p ''CRYPTO_UNAVAILABLE'' False)))"

definition expiry_timer_fires :: "host \<Rightarrow> nat \<Rightarrow> unit run" where
  "expiry_timer_fires H p = mbind (mstate (on_op p (expiry_timer_update (\<lambda>_. False)))) (\<lambda>_. fail_active H p ''WALLET_NOT_COMPLETED'' True)"

definition storage_event :: "host \<Rightarrow> jstring \<Rightarrow> unit run" where
  "storage_event H key s = (case current_op s of
       Some p \<Rightarrow> mwhen (is_active p s \<and> key = callback_key (operations s p)) (consume_callback H p True) s
     | None \<Rightarrow> Some ((), s))"

end
