(* ===== verification/RelayClientEntry.thy ===== *)
theory RelayClientEntry
  imports RelayClient
begin

section \<open>What the page calls: execute, disconnect, destroy, subscribe\<close>

text \<open>
  The public methods of \<open>InternalWalletClient\<close> (client/relay-client.mjs) over the state of RelayClient,
  the relation \<open>api\<close> of what a page may do by calling them, also from inside a call the client makes
  into the page, and the steps of a client: a call, or one of the parts its asynchronous methods and
  timers consist of, at the point where it is due.
\<close>

subsection \<open>The callback channel\<close>

definition halted :: "client \<Rightarrow> bool" where
  "halted s \<longleftrightarrow> destroyed s \<or> activation_compromised s"

fun scan_keys :: "host \<Rightarrow> nat \<Rightarrow> nat \<Rightarrow> unit run" where
  "scan_keys H i 0 = mret ()"
| "scan_keys H i (Suc n) = mbind (mget halted) (\<lambda>stop.
     if stop then mret () else mbind (call_page H (Reading_Key i)) (\<lambda>_. scan_keys H (Suc i) n))"

fun sweep_keys :: "host \<Rightarrow> nat \<Rightarrow> jstring list \<Rightarrow> unit run" where
  "sweep_keys H i [] = mret ()"
| "sweep_keys H i (k # ks) = mbind (mget halted) (\<lambda>stop.
     if stop then mret ()
     else mbind (call_page H (Reading_Record i)) (\<lambda>_.
       mbind (mstate (if expired_record k (stored_text H k) (now_at H Sweep_Time) then emit (Removed k) else id)) (\<lambda>_.
       sweep_keys H (Suc i) ks)))"

definition remove_expired_callback_records :: "host \<Rightarrow> unit run" where
  "remove_expired_callback_records H = (let keys = take MAX_CALLBACK_RECORD_SCAN (stored_keys H) in
     mbind (scan_keys H 0 (length keys)) (\<lambda>_. sweep_keys H 0 keys))"

definition activation_settles :: "unit run" where
  \<comment> \<open>without a channel nothing of it stays\<close>
  "activation_settles = mstate (\<lambda>s. if halted s then s\<lparr>storage_open := False, storage_listening := False\<rparr> else s)"

definition listen_for_callbacks :: "host \<Rightarrow> unit run" where
  "listen_for_callbacks H =
     mbind (mstate (\<lambda>s. s\<lparr>storage_listening := True\<rparr>)) (\<lambda>_.
     mbind (call_page H Adding_Listener) (\<lambda>_.
     mstate (\<lambda>s. if listener_added H then s else s\<lparr>activation_compromised := True\<rparr>)))"

definition open_storage :: "host \<Rightarrow> unit run" where
  "open_storage H =
     mbind (mstate (\<lambda>s. s\<lparr>storage_open := True\<rparr>)) (\<lambda>_.
     mbind (remove_expired_callback_records H) (\<lambda>_.
     mbind (mget halted) (\<lambda>stop. mwhen (\<not> stop) (listen_for_callbacks H))))"

definition activate_callback_channel :: "host \<Rightarrow> unit run" where
  "activate_callback_channel H = mbind (mget (\<lambda>s. channel_activated s \<or> destroyed s)) (\<lambda>skip.
     if skip then mret ()
     else mbind (mstate (\<lambda>s. s\<lparr>channel_activated := True, activation_in_progress := True\<rparr>)) (\<lambda>_.
       mbind (call_page H Getting_Storage) (\<lambda>_.
       mbind (call_page H Finding_Methods) (\<lambda>_.
       mbind (mstate (\<lambda>s. if storage_usable H then s else s\<lparr>activation_compromised := True\<rparr>)) (\<lambda>_.
       mbind (mget halted) (\<lambda>stop.
       mbind (mwhen (\<not> stop) (open_storage H)) (\<lambda>_.
       mbind activation_settles (\<lambda>_.
       mstate (\<lambda>s. s\<lparr>activation_in_progress := False\<rparr>)))))))))"

subsection \<open>execute\<close>

datatype answer = Refuses string | Promises nat \<comment> \<open>a promise already rejected, or the operation's own\<close>

type_synonym 'a attempt = "(string option + 'a) run"

definition abind :: "'a attempt \<Rightarrow> ('a \<Rightarrow> 'b attempt) \<Rightarrow> 'b attempt" where
  "abind m f = mbind m (\<lambda>r. case r of Inl thrown \<Rightarrow> mret (Inl thrown) | Inr x \<Rightarrow> f x)"

definition still_entered :: "nat \<Rightarrow> 'a \<Rightarrow> 'a attempt" where
  "still_entered epoch x = mbind (mget (entry_failure epoch)) (\<lambda>failure. mret (if failure = None then Inr x else Inl failure))"

definition secure_bytes :: "host \<Rightarrow> nat \<Rightarrow> site \<Rightarrow> byte list attempt" where
  \<comment> \<open>what the page's \<open>getRandomValues\<close> leaves in 32 zero bytes\<close>
  "secure_bytes H epoch p = mbind (call_page H p) (\<lambda>_. case page_random H p of
       Inl thrown \<Rightarrow> mret (Inl thrown)
     | Inr bs \<Rightarrow> still_entered epoch (take 32 (bs @ replicate 32 0)))"

definition transaction_url :: "jstring \<Rightarrow> jstring" where
  "transaction_url tid = WALLET_ORIGIN @ js ''/transaction/'' @ tid"

definition draw_and_open :: "host \<Rightarrow> nat \<Rightarrow> (jstring \<times> jstring \<times> jstring) attempt" where
  \<comment> \<open>the \<open>try\<close> of \<open>execute\<close>: the id, the state and the verifier, with the popup opened\<close>
  "draw_and_open H epoch =
     abind (mbind (call_page H Finding_Crypto) (\<lambda>_. still_entered epoch ())) (\<lambda>_.
     if \<not> crypto_found H then mret (Inl (Some ''CRYPTO_UNAVAILABLE''))
     else abind (secure_bytes H epoch Random_Id) (\<lambda>a.
       abind (secure_bytes H epoch Random_State) (\<lambda>b.
       abind (secure_bytes H epoch Random_Verifier) (\<lambda>c.
       let tid = bytes_hex a; tstate = bytes_hex b; verifier = client_base64url c in
       if \<not> LOWER_HEX_32 tid \<or> \<not> LOWER_HEX_32 tstate \<or> \<not> BASE64URL_32 verifier then mret (Inl (Some ''CRYPTO_UNAVAILABLE''))
       else mbind (mstate (emit (Opened (transaction_url tid)))) (\<lambda>_.
         mbind (call_page H Opening_Window) (\<lambda>_. case window_throws H of
             Some thrown \<Rightarrow> mret (Inl thrown)
           | None \<Rightarrow> still_entered epoch (tid, tstate, verifier)))))))"

definition new_pending :: "adapter \<Rightarrow> jval \<Rightarrow> page_connection option \<Rightarrow> int \<Rightarrow> nat \<Rightarrow> jstring \<times> jstring \<times> jstring \<Rightarrow> pending" where
  "new_pending a request prior now gen secrets = (case secrets of (tid, tstate, verifier) \<Rightarrow>
     \<lparr>is_live = True, op_adapter = Some a, callback_busy = False, op_challenge = JNull, cleanup_finished = False, cleanup_started = False,
      expiry_timer = False, op_generation = gen, operation_timer = False, op_phase = Hashing, poll_timer = False, prior_connection = prior,
      registration_deadline = now + REGISTRATION_WINDOW_MS, registration_outcome = None_Sent, opens_result = False, op_request = request,
      retry_timer = False, retry_delay = 0, op_state = JStr tstate, transaction_expires = None, op_transaction_id = JStr tid,
      op_verifier = JStr verifier, register_task = Register_Over, redeem_task = Before_Redeem, cleanup_task = No_Cleanup\<rparr>)"

definition unless_stale :: "nat \<Rightarrow> answer run \<Rightarrow> answer run" where
  \<comment> \<open>the early return of \<open>#entryFailure\<close>\<close>
  "unless_stale epoch m = mbind (mget (entry_failure epoch)) (\<lambda>failure. case failure of Some code \<Rightarrow> mret (Refuses code) | None \<Rightarrow> m)"

definition retire_previous :: "host \<Rightarrow> nat option \<Rightarrow> unit run" where
  "retire_previous H previous = (case previous of None \<Rightarrow> mret () | Some p \<Rightarrow> retire H p ''REPLACED'' False True)"

definition start_operation :: "host \<Rightarrow> (nat \<Rightarrow> pending) \<Rightarrow> page_connection option \<Rightarrow> answer run" where
  "start_operation H fill prior = mbind (mget next_op) (\<lambda>p.
     mbind (mstate (\<lambda>s. s\<lparr>operations := (operations s)(p := fill (Suc (generation s))), generation := Suc (generation s),
       next_op := Suc p, current_op := Some p\<rparr>)) (\<lambda>_.
     mbind (publish H (show_opening prior)) (\<lambda>_.
     mbind (mstate (register p)) (\<lambda>_. mret (Promises p)))))"

definition replace_operation :: "host \<Rightarrow> adapter \<Rightarrow> jval \<Rightarrow> nat \<Rightarrow> page_connection option \<Rightarrow> nat option
    \<Rightarrow> string option + (jstring \<times> jstring \<times> jstring) \<Rightarrow> answer run" where
  \<comment> \<open>the \<open>catch\<close> and what follows the \<open>try\<close>\<close>
  "replace_operation H a request epoch prior previous drawn = (case drawn of
       Inl thrown \<Rightarrow> unless_stale epoch (
         mbind (retire_previous H previous) (\<lambda>_. unless_stale epoch (
         mbind (publish_failure H (or_else thrown ''CRYPTO_UNAVAILABLE'') prior) (\<lambda>_.
         mret (Refuses (or_else thrown ''CRYPTO_UNAVAILABLE''))))))
     | Inr secrets \<Rightarrow>
         mbind (retire_previous H previous) (\<lambda>_. unless_stale epoch (
         start_operation H (\<lambda>gen. new_pending a request prior (now_at H Entry_Time) gen secrets) prior)))"

definition draw_and_replace :: "host \<Rightarrow> adapter \<Rightarrow> jval \<Rightarrow> nat \<Rightarrow> answer run" where
  "draw_and_replace H a request epoch =
     mbind (mget (\<lambda>s. live_connection (connection s) (now_at H Entry_Time))) (\<lambda>prior.
     mbind (mget current_op) (\<lambda>previous.
     mbind (draw_and_open H epoch) (\<lambda>drawn. replace_operation H a request epoch prior previous drawn)))"

definition execute_entered :: "host \<Rightarrow> adapter \<Rightarrow> jval \<Rightarrow> nat \<Rightarrow> answer run" where
  \<comment> \<open>\<open>execute\<close> from the point where the entry has its epoch\<close>
  "execute_entered H a request epoch =
     mbind (activate_callback_channel H) (\<lambda>_. unless_stale epoch (
     mbind (mget activation_compromised) (\<lambda>compromised. if compromised then mret (Refuses ''CALLBACK_ERROR'') else
     mbind (expire_connection_if_needed H) (\<lambda>_. unless_stale epoch (
     mbind (call_page H Entry_Clock) (\<lambda>_. unless_stale epoch (draw_and_replace H a request epoch)))))))"

definition execute :: "client_config \<Rightarrow> host \<Rightarrow> string \<Rightarrow> jval \<Rightarrow> answer run" where
  "execute K H name input = mbind (mget destroyed) (\<lambda>gone. if gone then mret (Refuses ''DESTROYED'') else
     mbind (mget entry_epoch) (\<lambda>observed.
     case config_adapters K name of
       None \<Rightarrow> mret (Refuses ''INVALID_REQUEST'')
     | Some a \<Rightarrow>
         mbind (call_page H Building) (\<lambda>_. unless_stale observed (case page_build a input of
             Inl _ \<Rightarrow> mret (Refuses ''INVALID_REQUEST'')
           | Inr request \<Rightarrow> mbind (mget activation_in_progress) (\<lambda>activating.
               if activating then mbind (mstate (\<lambda>s. s\<lparr>activation_compromised := True\<rparr>)) (\<lambda>_. mret (Refuses ''REPLACED''))
               else mbind (mstate (\<lambda>s. s\<lparr>entry_epoch := Suc (entry_epoch s)\<rparr>)) (\<lambda>_. mbind (mget entry_epoch) (\<lambda>epoch.
                 execute_entered H a request epoch)))))))"

subsection \<open>disconnect, destroy, snapshots and subscriptions\<close>

datatype leaving = Leave_Refused string | Leaving nat "nat option"
  \<comment> \<open>a rejection, or the epoch to check again once the cleanup of the operation is over\<close>

definition disconnect :: "host \<Rightarrow> leaving run" where
  "disconnect H = mbind (mget destroyed) (\<lambda>gone. if gone then mret (Leave_Refused ''DESTROYED'') else
     mbind (mstate (\<lambda>s. clear_connection (s\<lparr>entry_epoch := Suc (entry_epoch s)\<rparr>))) (\<lambda>_. mbind (mget entry_epoch) (\<lambda>epoch.
     mbind (mget current_op) (\<lambda>p.
     mbind (case p of None \<Rightarrow> mret () | Some q \<Rightarrow> retire H q ''DISCONNECTED'' False True) (\<lambda>_.
     mbind (mget (entry_failure epoch)) (\<lambda>failure. case failure of
         Some code \<Rightarrow> mret (Leave_Refused code)
       | None \<Rightarrow> mbind (publish H DORMANT) (\<lambda>_. mret (Leaving epoch p))))))))"

definition disconnect_ends :: "nat \<Rightarrow> client \<Rightarrow> string option" where
  "disconnect_ends epoch s = entry_failure epoch s"

definition no_timers :: "pending \<Rightarrow> pending" where
  "no_timers x = x\<lparr>expiry_timer := False, operation_timer := False, poll_timer := False, retry_timer := False\<rparr>"

definition destroy_now :: "host \<Rightarrow> unit run" where
  \<comment> \<open>its aborts may call back, but a destroyed client refuses\<close>
  "destroy_now H = mbind (mget (\<lambda>s. (case current_op s of None \<Rightarrow> [] | Some p \<Rightarrow> [p], retired s))) (\<lambda>(current, old).
     mbind (mstate (\<lambda>s. (clear_connection s)\<lparr>destroyed := True, generation := Suc (generation s), current_op := None,
       storage_open := False, storage_listening := False, page_listeners := [], operations := (\<lambda>p. no_timers (operations s p))\<rparr>)) (\<lambda>_.
     mbind (mstate (fold (\<lambda>p s. emit (Settled p (Rejected ''DESTROYED'')) (on_op p (is_live_update (\<lambda>_. False)) s)) current)) (\<lambda>_.
     mbind (mstate (\<lambda>s. fold send_cancel (filter (\<lambda>p. revocable (operations s p)) (current @ old)) s)) (\<lambda>_.
     mbind (mstate (fold finish_cleanup (current @ old))) (\<lambda>_.
     publish H (show_failed ''DESTROYED''))))))"

definition destroy :: "host \<Rightarrow> unit run" where
  "destroy H = mbind (mget destroy_called) (\<lambda>again. if again then mret () else
     mbind (mstate (\<lambda>s. s\<lparr>destroy_called := True, entry_epoch := Suc (entry_epoch s)\<rparr>)) (\<lambda>_. destroy_now H))"

definition get_snapshot :: "host \<Rightarrow> shown run" where
  "get_snapshot H = mbind (expire_connection_if_needed H) (\<lambda>_. mget (\<lambda>s. snapshot_from (shown_state s)))"

definition subscribe :: "host \<Rightarrow> nat \<Rightarrow> string option run" where
  \<comment> \<open>the code it throws, if any\<close>
  "subscribe H l = mbind (mget destroyed) (\<lambda>gone. if gone then mret (Some ''DESTROYED'') else
     mbind (mstate (\<lambda>s. s\<lparr>page_listeners := (if l \<in> set (page_listeners s) then page_listeners s else page_listeners s @ [l])\<rparr>)) (\<lambda>_.
     mbind (get_snapshot H) (\<lambda>v s. map_option (Pair None) (hear H l v s))))"

definition unsubscribe :: "nat \<Rightarrow> client \<Rightarrow> client" where
  "unsubscribe l s = s\<lparr>page_listeners := removeAll l (page_listeners s)\<rparr>"

definition require_no_arguments :: "nat \<Rightarrow> 'a \<Rightarrow> 'a run \<Rightarrow> 'a run" where
  \<comment> \<open>of \<open>createPublicApi\<close>; \<open>refused\<close> is INVALID_REQUEST in the method's own form\<close>
  "require_no_arguments n refused m = (if n \<noteq> 0 then mret refused else m)"

subsection \<open>What a page may do\<close>

datatype api_call =
    Connect nat | Open_Account nat | Typed string jval nat
  | Disconnect nat | Destroy nat | Get_Snapshot nat | Subscribe nat nat | Unsubscribe nat
  \<comment> \<open>the numbers: how many superfluous arguments; of a subscription first its listener\<close>

fun call_api :: "client_config \<Rightarrow> host \<Rightarrow> api_call \<Rightarrow> client \<Rightarrow> client option" where
  "call_api K H (Connect n) s = map_option snd (require_no_arguments n (Refuses ''INVALID_REQUEST'') (execute K H ''connect'' JUndefined) s)"
| "call_api K H (Open_Account n) s = map_option snd (require_no_arguments n (Refuses ''INVALID_REQUEST'') (execute K H ''account'' JUndefined) s)"
| "call_api K H (Typed name input n) s = map_option snd (require_no_arguments n (Refuses ''INVALID_REQUEST'') (execute K H name input) s)"
| "call_api K H (Disconnect n) s = map_option snd (require_no_arguments n (Leave_Refused ''INVALID_REQUEST'') (disconnect H) s)"
| "call_api K H (Destroy n) s = map_option snd (require_no_arguments n () (destroy H) s)"
| "call_api K H (Get_Snapshot n) s = map_option snd (require_no_arguments n DORMANT (get_snapshot H) s)"
| "call_api K H (Subscribe l n) s = map_option snd (require_no_arguments n (Some ''INVALID_REQUEST'') (subscribe H l) s)"
| "call_api K H (Unsubscribe l) s = Some (unsubscribe l s)"

definition stays_in :: "(client \<Rightarrow> client \<Rightarrow> bool) \<Rightarrow> host \<Rightarrow> bool" where
  \<comment> \<open>what the page does when the client calls it stays within a relation\<close>
  "stays_in A H \<longleftrightarrow> (\<forall>q s t. reenter H q s = Some t \<longrightarrow> A s t) \<and> (\<forall>l v s t. hear H l v s = Some t \<longrightarrow> A s t)"

lemma stays_in_mono [mono]: "(\<And>s t. A s t \<longrightarrow> B s t) \<Longrightarrow> stays_in A H \<longrightarrow> stays_in B H"
  unfolding stays_in_def by blast

inductive api :: "client_config \<Rightarrow> client \<Rightarrow> client \<Rightarrow> bool" for K where
  api_refl: "api K s s"
| api_call: "\<lbrakk>api K s t; stays_in (api K) H; call_api K H c t = Some u\<rbrakk> \<Longrightarrow> api K s u"

subsection \<open>The steps of a client\<close>

datatype task =
    Seal_Settles nat "string option + jval"
  | Digest_Settles nat bool
  | Register_Response nat "page_response option"
  | Register_Body nat bool \<comment> \<open>whether it is aborted\<close>
  | Poll nat
  | Storage_Event jstring
  | Redeem_Response nat "page_response option"
  | Redeem_Body nat bool
  | Opening_Settles nat "string option + jval"
  | Cancel_Response nat "nat option"
  | Retry_Fires nat
  | Operation_Timer_Fires nat
  | Expiry_Timer_Fires nat
  | Connection_Timer_Fires

definition body_contents :: "bool \<Rightarrow> page_response \<Rightarrow> nat \<Rightarrow> jstring result option" where
  "body_contents aborted r maximum = (if aborted then Some (Inl (client_error ''RELAY_ERROR'')) else read_response_text r maximum)"

definition done_unit :: "(unit \<times> client) option \<Rightarrow> client option" where
  "done_unit r = map_option snd r"

fun run_task :: "client_config \<Rightarrow> host \<Rightarrow> task \<Rightarrow> client \<Rightarrow> client option" where
  \<comment> \<open>\<open>None\<close>: not due, or it does not return\<close>
  "run_task K H (Seal_Settles p r) s = (case register_task (operations s p) of At_Seal \<Rightarrow> done_unit (seal_settles H p r s) | _ \<Rightarrow> None)"
| "run_task K H (Digest_Settles p ok) s =
     (case register_task (operations s p) of At_Digest bs \<Rightarrow> done_unit (digest_settles K H p bs ok s) | _ \<Rightarrow> None)"
| "run_task K H (Register_Response p r) s =
     (case register_task (operations s p) of At_Response \<Rightarrow> done_unit (registration_answers H p r s) | _ \<Rightarrow> None)"
| "run_task K H (Register_Body p aborted) s = (case register_task (operations s p) of
       At_Body r \<Rightarrow> Option.bind (body_contents aborted r MAX_REGISTRATION_RESPONSE_BYTES) (\<lambda>c. done_unit (registration_read H p c s))
     | _ \<Rightarrow> None)"
| "run_task K H (Poll p) s = (if poll_timer (operations s p) then done_unit (consume_callback H p False s) else None)"
| "run_task K H (Storage_Event key) s = (if storage_listening s then done_unit (storage_event H key s) else None)"
| "run_task K H (Redeem_Response p r) s =
     (case redeem_task (operations s p) of At_Redeem_Response \<Rightarrow> done_unit (redeem_answers H p r s) | _ \<Rightarrow> None)"
| "run_task K H (Redeem_Body p aborted) s = (case redeem_task (operations s p) of
       At_Redeem_Body r \<Rightarrow> Option.bind (body_contents aborted r MAX_REDEEM_RESPONSE_BYTES) (\<lambda>c. done_unit (redeem_read H p c s))
     | _ \<Rightarrow> None)"
| "run_task K H (Opening_Settles p r) s = (case redeem_task (operations s p) of
       At_Opening v \<Rightarrow> done_unit (opening_settles H p r s) | _ \<Rightarrow> None)"
| "run_task K H (Cancel_Response p code) s =
     (if cleanup_task (operations s p) \<in> {At_Cancel_Response, At_Nothing_To_Cancel} then Some (cancel_answers H p code s) else None)"
| "run_task K H (Retry_Fires p) s = (let x = operations s p in
     if cleanup_task x = At_Retry \<and> (retry_timer x \<or> cleanup_finished x) then Some (retry_cleanup H p s) else None)"
| "run_task K H (Operation_Timer_Fires p) s = (if operation_timer (operations s p) then done_unit (operation_timer_fires H p s) else None)"
| "run_task K H (Expiry_Timer_Fires p) s = (if expiry_timer (operations s p) then done_unit (expiry_timer_fires H p s) else None)"
| "run_task K H Connection_Timer_Fires s = (if connection_timer s \<noteq> None then done_unit (connection_timer_fires H s) else None)"

inductive client_step :: "client_config \<Rightarrow> client \<Rightarrow> client \<Rightarrow> bool" for K where
  step_call: "\<lbrakk>stays_in (api K) H; call_api K H c s = Some t\<rbrakk> \<Longrightarrow> client_step K s t"
| step_task: "\<lbrakk>stays_in (api K) H; run_task K H q s = Some t\<rbrakk> \<Longrightarrow> client_step K s t"

definition no_pending :: pending where
  "no_pending = \<lparr>is_live = False, op_adapter = None, callback_busy = False, op_challenge = JNull, cleanup_finished = True, cleanup_started = False,
     expiry_timer = False, op_generation = 0, operation_timer = False, op_phase = Hashing, poll_timer = False, prior_connection = None,
     registration_deadline = 0, registration_outcome = None_Sent, opens_result = False, op_request = JNull, retry_timer = False, retry_delay = 0,
     op_state = JNull, transaction_expires = None, op_transaction_id = JNull, op_verifier = JNull, register_task = Register_Over,
     redeem_task = Before_Redeem, cleanup_task = No_Cleanup\<rparr>"

definition new_client :: client where
  "new_client = \<lparr>activation_in_progress = False, activation_compromised = False, channel_activated = False, connection = None,
     connection_timer = None, destroyed = False, destroy_called = False, entry_epoch = 0, generation = 0, page_listeners = [],
     notifications = [], current_op = None, publishing = False, retired = [], shown_state = DORMANT, storage_open = False,
     storage_listening = False, operations = (\<lambda>_. no_pending), next_op = 0, effects = []\<rparr>"

definition reachable_client :: "client_config \<Rightarrow> client \<Rightarrow> bool" where
  "reachable_client K s \<longleftrightarrow> (client_step K)\<^sup>*\<^sup>* new_client s"

end
