(* ===== verification/RelayClientFacts.thy ===== *)
theory RelayClientFacts
  imports RelayClientEntry
begin

section \<open>What every piece of the client's code keeps\<close>

text \<open>
  The state invariant of the client, and a relation between states, \<open>frame\<close>, that every public method
  keeps and that the client may therefore rely on across a call into the page: operations that are over
  stay over and are not settled again, live operations it does not own are not touched, and no
  operation is left dangling, that is not live and unsettled or unrevoked. A method leaves the
  operation it retires dangling while it calls the page, which the relation allows by a set.
\<close>

subsection \<open>The log, by operation\<close>

fun settlements :: "nat \<Rightarrow> effect list \<Rightarrow> outcome list" where
  "settlements p [] = []"
| "settlements p (e # es) = (case e of Settled q r \<Rightarrow> if q = p then [r] else [] | _ \<Rightarrow> []) @ settlements p es"

fun fetches :: "nat \<Rightarrow> effect list \<Rightarrow> (jstring \<times> jval) list" where
  "fetches p [] = []"
| "fetches p (e # es) = (case e of Fetch q url body \<Rightarrow> if q = p then [(url, body)] else [] | _ \<Rightarrow> []) @ fetches p es"

lemma settlements_append [simp]: "settlements p (xs @ ys) = settlements p xs @ settlements p ys"
  by (induction xs) auto

lemma fetches_append [simp]: "fetches p (xs @ ys) = fetches p xs @ fetches p ys"
  by (induction xs) auto

lemma in_settlements: "r \<in> set (settlements p es) \<longleftrightarrow> Settled p r \<in> set es"
  by (induction es) (auto split: effect.splits)

lemma in_fetches: "(url, b) \<in> set (fetches p es) \<longleftrightarrow> Fetch p url b \<in> set es"
  by (induction es) (auto split: effect.splits)

definition exchange :: "client_config \<Rightarrow> jstring \<Rightarrow> jval \<Rightarrow> jval \<Rightarrow> (jstring \<times> jval) list \<Rightarrow> bool" where
  \<comment> \<open>nothing, or one registration of the verifier's digest, then at most one redemption, then cancellations\<close>
  "exchange K v tstate tid fs \<longleftrightarrow> fs = [] \<or> (\<exists>operation request codes n. length codes \<le> 1 \<and> fs =
     (TRANSACTIONS_URL, registration_body (config_client_id K) (JStr (client_base64url (config_digest K (utf8_encode v)))) operation request tstate tid)
     # map (\<lambda>code. (REDEEM_URL, redeem_body code (JStr v) tstate tid)) codes
     @ replicate n (cancel_url tid, cancel_body (JStr v) tstate tid))"

lemma exchange_Nil [simp]: "exchange K v tstate tid []"
  by (simp add: exchange_def)

lemma exchange_register:
  "exchange K v tstate tid [(TRANSACTIONS_URL, registration_body (config_client_id K) (JStr (client_base64url (config_digest K (utf8_encode v))))
     operation request tstate tid)]"
  unfolding exchange_def by (rule disjI2, rule exI [of _ operation], rule exI [of _ request], rule exI [of _ "[]"], rule exI [of _ 0]) simp

lemma exchange_redeem:
  assumes "exchange K v tstate tid fs" "length fs = 1"
  shows "exchange K v tstate tid (fs @ [(REDEEM_URL, redeem_body code (JStr v) tstate tid)])"
proof -
  from assms obtain operation request where "fs = [(TRANSACTIONS_URL,
      registration_body (config_client_id K) (JStr (client_base64url (config_digest K (utf8_encode v)))) operation request tstate tid)]"
    by (auto simp: exchange_def)
  then show ?thesis unfolding exchange_def
    by (intro disjI2, intro exI [of _ operation] exI [of _ request] exI [of _ "[code]"] exI [of _ 0]) simp
qed

lemma exchange_cancel:
  assumes "exchange K v tstate tid fs" "fs \<noteq> []"
  shows "exchange K v tstate tid (fs @ [(cancel_url tid, cancel_body (JStr v) tstate tid)])"
proof -
  from assms obtain operation request codes n where "length codes \<le> 1" "fs =
     (TRANSACTIONS_URL, registration_body (config_client_id K) (JStr (client_base64url (config_digest K (utf8_encode v)))) operation request tstate tid)
     # map (\<lambda>code. (REDEEM_URL, redeem_body code (JStr v) tstate tid)) codes
     @ replicate n (cancel_url tid, cancel_body (JStr v) tstate tid)"
    by (auto simp: exchange_def)
  then show ?thesis unfolding exchange_def
    by (intro disjI2, intro exI [of _ operation] exI [of _ request] exI [of _ codes] exI [of _ "Suc n"])
      (simp add: replicate_append_same)
qed

subsection \<open>The invariant\<close>

definition secrets_gone :: "pending \<Rightarrow> bool" where
  "secrets_gone x \<longleftrightarrow> op_verifier x = JNull \<and> op_challenge x = JNull \<and> op_state x = JNull \<and> op_transaction_id x = JNull"

definition was_redeemed :: "nat \<Rightarrow> effect list \<Rightarrow> bool" where
  "was_redeemed p es \<longleftrightarrow> REDEEM_URL \<in> fst ` set (fetches p es)"

definition live_ok :: "(jstring \<times> jval) list \<Rightarrow> outcome list \<Rightarrow> pending \<Rightarrow> bool" where
  "live_ok fs rs x \<longleftrightarrow> \<not> cleanup_finished x \<and> rs = [] \<and> (op_phase x \<noteq> Redeeming \<longrightarrow> length fs \<le> 1)
     \<and> (op_phase x = Hashing \<longrightarrow> fs = []) \<and> (op_phase x = Waiting_Callback \<longrightarrow> fs \<noteq> [])
     \<and> (register_task x = At_Response \<or> (\<exists>r. register_task x = At_Body r) \<longrightarrow> op_phase x = Registering \<and> fs \<noteq> [])
     \<and> (\<forall>bs. register_task x = At_Digest bs \<longrightarrow> bs = verifier_bytes x) \<and> cleanup_task x = No_Cleanup"

definition op_ok :: "client_config \<Rightarrow> nat \<Rightarrow> effect list \<Rightarrow> pending \<Rightarrow> bool" where
  "op_ok K p es x \<longleftrightarrow> (\<exists>v tstate tid. exchange K v tstate tid (fetches p es))
     \<and> (\<not> cleanup_finished x \<longrightarrow> (\<exists>v. op_verifier x = JStr v \<and> exchange K v (op_state x) (op_transaction_id x) (fetches p es))
          \<and> (op_challenge x = JNull \<longleftrightarrow> fetches p es = []))
     \<and> (cleanup_finished x \<longrightarrow> secrets_gone x)
     \<and> (register_task x = At_Seal \<or> (\<exists>bs. register_task x = At_Digest bs) \<longrightarrow> fetches p es = [])
     \<and> (is_live x \<longrightarrow> live_ok (fetches p es) (settlements p es) x)
     \<and> length (settlements p es) \<le> 1
     \<and> (redeem_task x \<noteq> Before_Redeem \<longrightarrow> was_redeemed p es)
     \<and> ((\<exists>v. Settled p (Resolved v) \<in> set es) \<longrightarrow> was_redeemed p es)"

definition gone_ok :: "client \<Rightarrow> bool" where
  "gone_ok s \<longleftrightarrow> (destroyed s \<longrightarrow> current_op s = None \<and> retired s = [] \<and> connection s = None \<and> connection_timer s = None
     \<and> page_listeners s = [] \<and> destroy_called s)"

definition retired_ok :: "client \<Rightarrow> bool" where
  "retired_ok s \<longleftrightarrow> distinct (retired s)
     \<and> (\<forall>p \<in> set (retired s). p < next_op s \<and> \<not> is_live (operations s p) \<and> \<not> cleanup_finished (operations s p))"

definition core_ok :: "client_config \<Rightarrow> client \<Rightarrow> bool" where
  "core_ok K s \<longleftrightarrow> (\<forall>p < next_op s. op_ok K p (effects s) (operations s p))
     \<and> (\<forall>p \<ge> next_op s. operations s p = no_pending \<and> fetches p (effects s) = [] \<and> settlements p (effects s) = [])
     \<and> (\<forall>p. is_live (operations s p) \<longleftrightarrow> current_op s = Some p)
     \<and> (\<forall>p. current_op s = Some p \<longrightarrow> op_generation (operations s p) = generation s)
     \<and> retired_ok s \<and> gone_ok s"

definition client_sound :: "client_config \<Rightarrow> client \<Rightarrow> bool" where
  "client_sound K s \<longleftrightarrow> core_ok K s \<and> length (retired s) \<le> MAX_RETIRED_CLEANUPS"

definition dangling :: "client \<Rightarrow> nat set" where
  "dangling s = {p. p < next_op s \<and> \<not> is_live (operations s p)
     \<and> (\<not> cleanup_finished (operations s p) \<and> p \<notin> set (retired s) \<or> settlements p (effects s) = [])}"

definition frame :: "nat set \<Rightarrow> client \<Rightarrow> client \<Rightarrow> bool" where
  "frame X s t \<longleftrightarrow> entry_epoch s \<le> entry_epoch t \<and> next_op s \<le> next_op t \<and> (destroyed s \<longrightarrow> destroyed t)
     \<and> set (effects s) \<subseteq> set (effects t)
     \<and> (\<forall>p < next_op s. \<not> is_live (operations s p) \<longrightarrow> \<not> is_live (operations t p))
     \<and> (\<forall>p < next_op s. p \<notin> X \<longrightarrow> (\<not> is_live (operations s p) \<longrightarrow> settlements p (effects t) = settlements p (effects s))
          \<and> (is_live (operations t p) \<longrightarrow> operations t p = operations s p))
     \<and> dangling t \<subseteq> dangling s \<union> X"

definition step_ok :: "client_config \<Rightarrow> nat set \<Rightarrow> client \<Rightarrow> client \<Rightarrow> bool" where
  "step_ok K X s t \<longleftrightarrow> (client_sound K s \<longrightarrow> client_sound K t \<and> frame X s t)"

lemma frame_refl [simp]: "frame X s s"
  by (auto simp: frame_def)

lemma frameD:
  assumes "frame X s t"
  shows "entry_epoch s \<le> entry_epoch t" "next_op s \<le> next_op t" "destroyed s \<Longrightarrow> destroyed t" "set (effects s) \<subseteq> set (effects t)"
    "p < next_op s \<Longrightarrow> \<not> is_live (operations s p) \<Longrightarrow> \<not> is_live (operations t p)"
    "p < next_op s \<Longrightarrow> p \<notin> X \<Longrightarrow> \<not> is_live (operations s p) \<Longrightarrow> settlements p (effects t) = settlements p (effects s)"
    "p < next_op s \<Longrightarrow> p \<notin> X \<Longrightarrow> is_live (operations t p) \<Longrightarrow> operations t p = operations s p"
    "dangling t \<subseteq> dangling s \<union> X"
  using assms unfolding frame_def by auto

lemma frame_trans [trans]:
  assumes a: "frame X s t" and b: "frame X t u"
  shows "frame X s u"
proof -
  have lt: "p < next_op t" if "p < next_op s" for p using that frameD(2) [OF a] by simp
  have live: "\<not> is_live (operations u p)" if "p < next_op s" "\<not> is_live (operations s p)" for p
    using that lt frameD(5) [OF a] frameD(5) [OF b] by blast
  have sets: "settlements p (effects u) = settlements p (effects s)" if "p < next_op s" "p \<notin> X" "\<not> is_live (operations s p)" for p
    using that lt frameD(5,6) [OF a] frameD(6) [OF b] by metis
  have same: "operations u p = operations s p" if "p < next_op s" "p \<notin> X" "is_live (operations u p)" for p
    using that lt frameD(7) [OF a] frameD(7) [OF b] by metis
  show ?thesis unfolding frame_def
    using live sets same frameD(1-4,8) [OF a] frameD(1-4,8) [OF b] by (auto dest: subsetD)
qed

lemma frame_weaken: "frame X s t \<Longrightarrow> X \<subseteq> Y \<Longrightarrow> frame Y s t"
  unfolding frame_def by blast

lemma frame_close:
  "frame (insert p X) s t \<Longrightarrow> p \<notin> dangling t \<Longrightarrow> (p < next_op s \<Longrightarrow> is_live (operations s p) \<and> \<not> is_live (operations t p)) \<Longrightarrow> frame X s t"
  unfolding frame_def by (intro conjI) (blast, blast, blast, blast, blast, metis insert_iff, blast)

lemma step_ok_refl [simp]: "step_ok K X s s"
  by (simp add: step_ok_def)

lemma step_ok_trans [trans]: "step_ok K X s t \<Longrightarrow> step_ok K X t u \<Longrightarrow> step_ok K X s u"
  unfolding step_ok_def using frame_trans by blast

lemma step_ok_weaken: "step_ok K X s t \<Longrightarrow> X \<subseteq> Y \<Longrightarrow> step_ok K Y s t"
  unfolding step_ok_def using frame_weaken by blast

subsection \<open>Changes of one operation, and of what no operation holds\<close>

lemma on_op_simps [simp]:
  "operations (on_op p f s) = (operations s)(p := f (operations s p))"
  "current_op (on_op p f s) = current_op s" "next_op (on_op p f s) = next_op s" "retired (on_op p f s) = retired s"
  "effects (on_op p f s) = effects s" "entry_epoch (on_op p f s) = entry_epoch s" "destroyed (on_op p f s) = destroyed s"
  "destroy_called (on_op p f s) = destroy_called s" "connection (on_op p f s) = connection s"
  "connection_timer (on_op p f s) = connection_timer s" "page_listeners (on_op p f s) = page_listeners s"
  "generation (on_op p f s) = generation s"
  by (simp_all add: on_op_def)

lemma emit_simps [simp]:
  "operations (emit e s) = operations s"
  "current_op (emit e s) = current_op s" "next_op (emit e s) = next_op s" "retired (emit e s) = retired s"
  "effects (emit e s) = effects s @ [e]" "entry_epoch (emit e s) = entry_epoch s" "destroyed (emit e s) = destroyed s"
  "destroy_called (emit e s) = destroy_called s" "connection (emit e s) = connection s"
  "connection_timer (emit e s) = connection_timer s" "page_listeners (emit e s) = page_listeners s"
  "generation (emit e s) = generation s"
  by (simp_all add: emit_def)

lemma quiet_step:
  assumes "operations t = operations s" "current_op t = current_op s" "next_op t = next_op s" "retired t = retired s" "generation t = generation s"
    "effects t = effects s" "entry_epoch s \<le> entry_epoch t" "destroyed t = destroyed s" "gone_ok s \<Longrightarrow> gone_ok t"
  shows "step_ok K X s t"
  using assms by (auto simp: step_ok_def client_sound_def core_ok_def retired_ok_def frame_def dangling_def)

lemma client_soundD:
  assumes "client_sound K s"
  shows "p < next_op s \<Longrightarrow> op_ok K p (effects s) (operations s p)"
    "next_op s \<le> p \<Longrightarrow> operations s p = no_pending \<and> fetches p (effects s) = [] \<and> settlements p (effects s) = []"
    "is_live (operations s p) \<longleftrightarrow> current_op s = Some p"
    "retired_ok s" "gone_ok s" "length (retired s) \<le> MAX_RETIRED_CLEANUPS"
  using assms unfolding client_sound_def core_ok_def by auto

lemma live_active: "client_sound K s \<Longrightarrow> is_active p s \<longleftrightarrow> is_live (operations s p)"
  by (auto simp: is_active_def client_sound_def core_ok_def gone_ok_def)

lemma current_generation: "client_sound K s \<Longrightarrow> current_op s = Some p \<Longrightarrow> op_generation (operations s p) = generation s"
  by (simp add: client_sound_def core_ok_def)

lemma current_bound: "client_sound K s \<Longrightarrow> current_op s = Some p \<Longrightarrow> p < next_op s"
  using client_soundD(2,3) [of K s p] by (force simp: no_pending_def not_less [symmetric])

lemma live_not_destroyed: "client_sound K s \<Longrightarrow> is_live (operations s p) \<Longrightarrow> \<not> destroyed s"
  using client_soundD(3,5) [of K s] by (auto simp: gone_ok_def)

lemma live_bound: "client_sound K s \<Longrightarrow> is_live (operations s p) \<Longrightarrow> p < next_op s"
  using client_soundD(3) [of K s p] current_bound by simp

lemma live_okD: "client_sound K s \<Longrightarrow> is_live (operations s p) \<Longrightarrow> live_ok (fetches p (effects s)) (settlements p (effects s)) (operations s p)"
  using client_soundD(1) [of K s p] live_bound by (auto simp: op_ok_def)

lemma op_step:
  \<comment> \<open>an update that keeps the operation's liveness and cleanup\<close>
  assumes "is_live (f (operations s p)) = is_live (operations s p)" "cleanup_finished (f (operations s p)) = cleanup_finished (operations s p)"
    and g: "op_generation (f (operations s p)) = op_generation (operations s p)"
    and ok: "client_sound K s \<Longrightarrow> p < next_op s \<Longrightarrow> op_ok K p (effects s) (f (operations s p))"
    and bound: "client_sound K s \<Longrightarrow> p < next_op s" and X: "is_live (operations s p) \<Longrightarrow> p \<in> X"
  shows "step_ok K X s (on_op p f s)"
  unfolding step_ok_def
proof (intro impI conjI)
  assume c: "client_sound K s"
  show "client_sound K (on_op p f s)"
    using c assms(1,2) g ok [OF c bound [OF c]] bound [OF c]
    by (auto simp: client_sound_def core_ok_def retired_ok_def gone_ok_def)
  show "frame X s (on_op p f s)"
    using assms(1,2) X by (auto simp: frame_def dangling_def)
qed

lemma no_task_unbound: "client_sound K s \<Longrightarrow> register_task (operations s p) \<noteq> Register_Over \<or> redeem_task (operations s p) \<noteq> Before_Redeem
    \<or> cleanup_task (operations s p) \<noteq> No_Cleanup \<or> poll_timer (operations s p) \<or> operation_timer (operations s p) \<or> expiry_timer (operations s p)
    \<or> \<not> cleanup_finished (operations s p) \<Longrightarrow> p < next_op s"
  using client_soundD(2) [of K s p] by (force simp: no_pending_def not_less [symmetric])

subsection \<open>Effects\<close>

definition foreign :: "nat \<Rightarrow> effect \<Rightarrow> bool" where
  \<comment> \<open>no request or settlement of the operation\<close>
  "foreign p e \<longleftrightarrow> (case e of Fetch q u b \<Rightarrow> q \<noteq> p | Settled q r \<Rightarrow> q \<noteq> p | _ \<Rightarrow> True)"

lemma foreign_log: "foreign p e \<Longrightarrow> fetches p (es @ [e]) = fetches p es \<and> settlements p (es @ [e]) = settlements p es"
  by (auto simp: foreign_def split: effect.splits)

lemma op_ok_foreign: "foreign p e \<Longrightarrow> op_ok K p (es @ [e]) x = op_ok K p es x"
  using foreign_log [of p e es] unfolding op_ok_def was_redeemed_def live_ok_def
  by (auto simp: foreign_def in_settlements [symmetric] simp del: settlements_append fetches_append split: effect.splits)

lemma page_effect: "(case e of Fetch _ _ _ \<Rightarrow> False | Settled _ _ \<Rightarrow> False | _ \<Rightarrow> True) \<Longrightarrow> step_ok K X s (emit e s)"
proof -
  assume h: "case e of Fetch _ _ _ \<Rightarrow> False | Settled _ _ \<Rightarrow> False | _ \<Rightarrow> True"
  then have f: "foreign p e" for p by (auto simp: foreign_def split: effect.splits)
  note l = foreign_log [OF f, of _ "effects s"]
  show ?thesis using l [THEN conjunct1] l [THEN conjunct2]
    by (simp add: step_ok_def client_sound_def core_ok_def retired_ok_def gone_ok_def frame_def dangling_def op_ok_foreign [OF f]
          del: settlements_append fetches_append) auto
qed

lemma redeemed_grows: "was_redeemed p es \<Longrightarrow> was_redeemed p (es @ fs)"
  by (auto simp: was_redeemed_def)

lemma fetch_step:
  assumes ok: "client_sound K s \<Longrightarrow> op_ok K p (effects s @ [Fetch p u b]) (f (operations s p))" and bound: "client_sound K s \<Longrightarrow> p < next_op s"
    and "is_live (f (operations s p)) = is_live (operations s p)" "cleanup_finished (f (operations s p)) = cleanup_finished (operations s p)"
    and g: "op_generation (f (operations s p)) = op_generation (operations s p)"
    and X: "is_live (operations s p) \<Longrightarrow> p \<in> X"
  shows "step_ok K X s (emit (Fetch p u b) (on_op p f s))"
  unfolding step_ok_def
proof (intro impI conjI)
  assume c: "client_sound K s"
  have f: "foreign q (Fetch p u b)" if "q \<noteq> p" for q using that by (simp add: foreign_def)
  show "client_sound K (emit (Fetch p u b) (on_op p f s))"
    using c ok [OF c] bound [OF c] assms(3,4) g op_ok_foreign [OF f]
    by (auto simp: client_sound_def core_ok_def retired_ok_def gone_ok_def)
  show "frame X s (emit (Fetch p u b) (on_op p f s))"
    using assms(3,4) X by (auto simp: frame_def dangling_def)
qed

subsection \<open>Cleaning up\<close>

lemma wiped_simps [simp]:
  "is_live (wiped x) = is_live x" "cleanup_finished (wiped x)" "secrets_gone (wiped x)" "register_task (wiped x) = register_task x"
  "redeem_task (wiped x) = redeem_task x" "op_phase (wiped x) = op_phase x"
  by (simp_all add: wiped_def clear_operation_timers_def secrets_gone_def)

lemma op_ok_wiped: "op_ok K p es x \<Longrightarrow> \<not> is_live x \<Longrightarrow> op_ok K p es (wiped x)"
  by (simp add: op_ok_def)

lemma finish_cleanup_fields [simp]:
  "current_op (finish_cleanup p s) = current_op s" "next_op (finish_cleanup p s) = next_op s" "effects (finish_cleanup p s) = effects s"
  "entry_epoch (finish_cleanup p s) = entry_epoch s" "destroyed (finish_cleanup p s) = destroyed s"
  "is_live (operations (finish_cleanup p s) q) = is_live (operations s q)" "cleanup_finished (operations (finish_cleanup p s) p)"
  "q \<noteq> p \<Longrightarrow> operations (finish_cleanup p s) q = operations s q"
  "destroy_called (finish_cleanup p s) = destroy_called s" "connection (finish_cleanup p s) = connection s"
  "connection_timer (finish_cleanup p s) = connection_timer s" "page_listeners (finish_cleanup p s) = page_listeners s"
  by (auto simp: finish_cleanup_def)

lemma finish_cleanup_retired:
  "retired (finish_cleanup p s) = (if cleanup_finished (operations s p) then retired s else removeAll p (retired s))"
  by (simp add: finish_cleanup_def)

lemma length_removeAll_less_eq: "length (removeAll x xs) \<le> length xs"
  by (simp add: removeAll_filter_not_eq)

lemma finish_core:
  assumes "core_ok K s" "p < next_op s" "\<not> is_live (operations s p)"
  shows "core_ok K (finish_cleanup p s) \<and> frame {} s (finish_cleanup p s)"
  using assms op_ok_wiped [of K p "effects s" "operations s p"]
  by (auto simp: distinct_removeAll finish_cleanup_def core_ok_def retired_ok_def gone_ok_def frame_def dangling_def)

lemma finish_step:
  assumes "client_sound K s \<Longrightarrow> p < next_op s" "\<not> is_live (operations s p)"
  shows "step_ok K X s (finish_cleanup p s)"
proof (rule step_ok_weaken)
  show "step_ok K {} s (finish_cleanup p s)"
    using assms finish_core [of K s p] length_removeAll_less_eq [of p "retired s", THEN order_trans, of MAX_RETIRED_CLEANUPS]
    by (auto simp: step_ok_def client_sound_def finish_cleanup_retired)
qed simp

lemma finished_not_dangling: "cleanup_finished (operations s p) \<Longrightarrow> settlements p (effects s) \<noteq> [] \<Longrightarrow> p \<notin> dangling s"
  by (simp add: dangling_def)

lemma removeAll_hd: "distinct xs \<Longrightarrow> xs \<noteq> [] \<Longrightarrow> removeAll (hd xs) xs = tl xs"
  by (cases xs) auto

lemma evict_ok:
  "core_ok K s \<Longrightarrow> length (retired s) \<le> n + MAX_RETIRED_CLEANUPS \<Longrightarrow>
     client_sound K (evict_retired n s) \<and> frame {} s (evict_retired n s) \<and> current_op (evict_retired n s) = current_op s
     \<and> (\<forall>p. is_live (operations (evict_retired n s) p) = is_live (operations s p))
     \<and> effects (evict_retired n s) = effects s \<and> entry_epoch (evict_retired n s) = entry_epoch s
     \<and> destroyed (evict_retired n s) = destroyed s \<and> next_op (evict_retired n s) = next_op s
     \<and> (\<forall>p. op_challenge (operations s p) = JNull \<longrightarrow> op_challenge (operations (evict_retired n s) p) = JNull)
     \<and> (\<forall>p \<in> set (retired s). p \<in> set (retired (evict_retired n s)) \<or> cleanup_finished (operations (evict_retired n s) p))
     \<and> (\<forall>p. cleanup_finished (operations s p) \<longrightarrow> cleanup_finished (operations (evict_retired n s) p))"
proof (induction n arbitrary: s)
  case 0
  then show ?case by (simp add: client_sound_def)
next
  case (Suc n)
  show ?case
  proof (cases "MAX_RETIRED_CLEANUPS < length (retired s)")
    case False
    then show ?thesis using Suc.prems by (simp add: client_sound_def)
  next
    case True
    define p where "p = hd (retired s)"
    have ne: "retired s \<noteq> []" using True by auto
    have r: "retired_ok s" using Suc.prems by (simp add: core_ok_def)
    then have p: "p < next_op s" "\<not> is_live (operations s p)" "\<not> cleanup_finished (operations s p)"
      using ne by (auto simp: retired_ok_def p_def)
    have tl: "retired (finish_cleanup p s) = tl (retired s)"
      using removeAll_hd [OF _ ne] r p(3) by (simp add: retired_ok_def p_def finish_cleanup_retired)
    have core: "core_ok K (finish_cleanup p s)" "frame {} s (finish_cleanup p s)" using finish_core [OF Suc.prems(1) p(1,2)] by auto
    have len: "length (retired (finish_cleanup p s)) \<le> n + MAX_RETIRED_CLEANUPS" using Suc.prems(2) by (simp add: tl)
    note IH = Suc.IH [OF core(1) len]
    have e: "evict_retired (Suc n) s = evict_retired n (finish_cleanup p s)" using True by (simp add: p_def)
    have parts: "q = p \<or> q \<in> set (tl (retired s))" if "q \<in> set (retired s)" for q
      using that ne by (cases "retired s") (auto simp: p_def)
    have ch: "op_challenge (operations (finish_cleanup p s) q) = JNull" if "op_challenge (operations s q) = JNull" for q
      using that by (simp add: finish_cleanup_def wiped_def)
    have keep: "cleanup_finished (operations (finish_cleanup p s) q)" if "q = p \<or> cleanup_finished (operations s q)" for q
      using that by (cases "q = p") auto
    show ?thesis unfolding e
    proof (intro conjI)
      show "frame {} s (evict_retired n (finish_cleanup p s))" using core(2) IH frame_trans by blast
      show "\<forall>q \<in> set (retired s). q \<in> set (retired (evict_retired n (finish_cleanup p s)))
          \<or> cleanup_finished (operations (evict_retired n (finish_cleanup p s)) q)"
        using IH parts keep unfolding tl by metis
      show "\<forall>q. op_challenge (operations s q) = JNull \<longrightarrow> op_challenge (operations (evict_retired n (finish_cleanup p s)) q) = JNull"
        using IH ch by blast
      show "\<forall>q. cleanup_finished (operations s q) \<longrightarrow> cleanup_finished (operations (evict_retired n (finish_cleanup p s)) q)"
        using IH keep by blast
    qed (use IH in simp_all)
  qed
qed

lemma add_retired_ok:
  assumes c: "client_sound K s" and p: "p < next_op s" "\<not> is_live (operations s p)" and alive: "\<not> destroyed s"
  shows "client_sound K (add_retired p s) \<and> frame {} s (add_retired p s) \<and> current_op (add_retired p s) = current_op s
     \<and> (\<forall>q. is_live (operations (add_retired p s) q) = is_live (operations s q))
     \<and> effects (add_retired p s) = effects s \<and> entry_epoch (add_retired p s) = entry_epoch s
     \<and> destroyed (add_retired p s) = destroyed s \<and> next_op (add_retired p s) = next_op s
     \<and> (p \<in> set (retired (add_retired p s)) \<or> cleanup_finished (operations (add_retired p s) p))"
proof (cases "cleanup_finished (operations s p) \<or> p \<in> set (retired s)")
  case True
  then show ?thesis using c by (auto simp: add_retired_def)
next
  case False
  let ?t = "s\<lparr>retired := retired s @ [p]\<rparr>"
  have core: "core_ok K ?t" using c p False alive by (auto simp: client_sound_def core_ok_def retired_ok_def gone_ok_def)
  have len: "length (retired ?t) \<le> Suc (length (retired s)) + MAX_RETIRED_CLEANUPS" by simp
  have fr: "frame {} s ?t" by (auto simp: frame_def dangling_def)
  note E = evict_ok [OF core len]
  have e: "add_retired p s = evict_retired (Suc (length (retired s))) ?t" using False by (simp add: add_retired_def)
  show ?thesis unfolding e
  proof (intro conjI)
    show "frame {} s (evict_retired (Suc (length (retired s))) ?t)" using fr E frame_trans by blast
    show "p \<in> set (retired (evict_retired (Suc (length (retired s))) ?t)) \<or> cleanup_finished (operations (evict_retired (Suc (length (retired s))) ?t) p)"
      using E by (auto simp del: evict_retired.simps)
  qed (use E in \<open>simp_all del: evict_retired.simps\<close>)
qed

lemma not_dangling_step: "step_ok K {} s t \<Longrightarrow> client_sound K s \<Longrightarrow> p \<notin> dangling s \<Longrightarrow> p \<notin> dangling t"
  using frameD(8) [of "{}" s t] by (auto simp: step_ok_def)

lemma cancel_op_ok:
  assumes "op_ok K p es x" "\<not> is_live x" "revocable x"
  shows "op_ok K p (es @ [Fetch p (cancel_url (op_transaction_id x)) (cancel_body (op_verifier x) (op_state x) (op_transaction_id x))]) x"
proof -
  have live: "\<not> cleanup_finished x" using assms by (auto simp: op_ok_def revocable_def secrets_gone_def)
  then obtain v where v: "op_verifier x = JStr v" "exchange K v (op_state x) (op_transaction_id x) (fetches p es)"
    and ne: "fetches p es \<noteq> []" using assms by (auto simp: op_ok_def revocable_def)
  note e = exchange_cancel [OF v(2) ne]
  have r: "was_redeemed p (es @ [g])" if "was_redeemed p es" for g using redeemed_grows [OF that] .
  show ?thesis using assms live e r v(1) ne unfolding op_ok_def by (auto simp: revocable_def)
qed

lemma op_ok_cleanup_fields [simp]:
  "\<not> is_live x \<Longrightarrow> op_ok K p es (cleanup_task_update g x) = op_ok K p es x"
  "op_ok K p es (x\<lparr>cleanup_started := b, retry_delay := d\<rparr>) = op_ok K p es x"
  "\<not> is_live x \<Longrightarrow> op_ok K p es (x\<lparr>retry_timer := b, cleanup_task := c\<rparr>) = op_ok K p es x"
  "op_ok K p es (x\<lparr>retry_timer := b, retry_delay := d\<rparr>) = op_ok K p es x"
  "op_ok K p es (retry_timer_update h x) = op_ok K p es x"
  "op_ok K p es (operation_timer_update h x) = op_ok K p es x"
  "op_ok K p es (expiry_timer_update h x) = op_ok K p es x"
  "op_ok K p es (registration_outcome_update i x) = op_ok K p es x"
  "op_ok K p es (callback_busy_update j x) = op_ok K p es x"
  by (simp_all add: op_ok_def live_ok_def verifier_bytes_def secrets_gone_def)

lemma cancel_once_step:
  assumes "client_sound K s \<Longrightarrow> p < next_op s" "\<not> is_live (operations s p)"
  shows "step_ok K X s (cancel_once p s)"
proof (cases "revocable (operations s p)")
  case False
  then show ?thesis unfolding cancel_once_def using assms by (auto intro!: op_step dest: client_soundD(1))
next
  case True
  have "step_ok K X s (emit (Fetch p (cancel_url (op_transaction_id (operations s p)))
      (cancel_body (op_verifier (operations s p)) (op_state (operations s p)) (op_transaction_id (operations s p))))
      (on_op p (cleanup_task_update (\<lambda>_. At_Cancel_Response)) s))"
    by (rule fetch_step) (use assms True in \<open>auto intro!: cancel_op_ok dest: client_soundD(1)\<close>)
  then show ?thesis using True by (simp add: cancel_once_def send_cancel_def Let_def)
qed

lemma send_cancel_step:
  assumes "client_sound K s \<Longrightarrow> p < next_op s" "\<not> is_live (operations s p)" "revocable (operations s p)"
  shows "step_ok K X s (send_cancel p s)"
proof -
  have "step_ok K X s (emit (Fetch p (cancel_url (op_transaction_id (operations s p)))
      (cancel_body (op_verifier (operations s p)) (op_state (operations s p)) (op_transaction_id (operations s p))))
      (on_op p id s))"
    by (rule fetch_step) (use assms in \<open>auto intro!: cancel_op_ok dest: client_soundD(1)\<close>)
  moreover have "on_op p id s = s" by (simp add: on_op_def)
  ultimately show ?thesis by (simp add: send_cancel_def Let_def)
qed

lemma add_retired_step:
  assumes "client_sound K s \<Longrightarrow> p < next_op s" "\<not> is_live (operations s p)" "\<not> destroyed s"
  shows "step_ok K X s (add_retired p s)"
  using add_retired_ok [of K s p] assms frame_weaken [of "{}" s "add_retired p s" X] by (auto simp: step_ok_def)

lemma ensure_cleanup_step:
  assumes p: "client_sound K s \<Longrightarrow> p < next_op s" "\<not> is_live (operations s p)"
  shows "step_ok K X s (ensure_cleanup p s)"
proof (cases "cleanup_finished (operations s p) \<or> cleanup_started (operations s p) \<or> destroyed s")
  case True
  then show ?thesis by (simp add: ensure_cleanup_def)
next
  case False
  let ?a = "on_op p (\<lambda>x. x\<lparr>cleanup_started := True, retry_delay := 100\<rparr>) s"
  have 1: "step_ok K X s ?a" using p by (auto intro!: op_step dest: client_soundD(1))
  have 2: "step_ok K X ?a (add_retired p ?a)"
    by (rule add_retired_step) (use False p no_task_unbound [of K ?a p] in auto)
  have 3: "step_ok K X (add_retired p ?a) (cancel_once p (add_retired p ?a))"
    if c: "client_sound K s"
  proof -
    have ca: "client_sound K ?a" using 1 c by (simp add: step_ok_def)
    have "next_op (add_retired p ?a) = next_op s" "\<not> is_live (operations (add_retired p ?a) p)"
      using add_retired_ok [OF ca, of p] p c False by auto
    then show ?thesis using p c by (intro cancel_once_step) auto
  qed
  show ?thesis using step_ok_trans [OF step_ok_trans [OF 1 2] 3] False
    by (auto simp: ensure_cleanup_def Let_def step_ok_def)
qed

lemma after_retirement_ok:
  assumes c: "client_sound K s" and p: "p < next_op s" "\<not> is_live (operations s p)" "settlements p (effects s) \<noteq> []"
  shows "step_ok K {} s (after_retirement p cleanup s)" (is ?A) and "p \<notin> dangling (after_retirement p cleanup s)" (is ?B)
proof -
  have fin: "step_ok K {} t (finish_cleanup p t) \<and> p \<notin> dangling (finish_cleanup p t)"
    if "next_op t = next_op s" "\<not> is_live (operations t p)" "settlements p (effects t) \<noteq> []" for t
    using that p by (intro conjI finish_step finished_not_dangling) simp_all
  have "?A \<and> ?B"
  proof (cases "destroyed s")
    case True
    show ?thesis
    proof (cases "revocable (operations s p)")
      case True
      let ?t = "send_cancel p s"
      have 1: "step_ok K {} s ?t" using p True by (intro send_cancel_step) auto
      have "next_op ?t = next_op s" "\<not> is_live (operations ?t p)" "settlements p (effects ?t) \<noteq> []"
        using p by (auto simp: send_cancel_def Let_def)
      then have "step_ok K {} ?t (finish_cleanup p ?t) \<and> p \<notin> dangling (finish_cleanup p ?t)" by (rule fin)
      then show ?thesis using \<open>destroyed s\<close> True step_ok_trans [OF 1] by (auto simp: after_retirement_def Let_def)
    next
      case False
      then show ?thesis using \<open>destroyed s\<close> fin [of s] p by (simp add: after_retirement_def Let_def)
    qed
  next
    case alive: False
    let ?x = "operations s p"
    consider (a) "\<not> cleanup \<or> registration_outcome ?x \<in> {Definitive_Failure, Not_Started}"
      | (b) "cleanup" "registration_outcome ?x \<notin> {Definitive_Failure, Not_Started}" "op_phase ?x = Hashing"
      | (d) "cleanup" "registration_outcome ?x \<notin> {Definitive_Failure, Not_Started}" "op_phase ?x \<noteq> Hashing"
      by blast
    then show ?thesis
    proof cases
      case a
      then show ?thesis using alive fin [of s] p by (auto simp: after_retirement_def Let_def)
    next
      case b
      let ?t = "on_op p (registration_outcome_update (\<lambda>_. Not_Started)) s"
      have "step_ok K {} s ?t" using p by (auto intro!: op_step dest: client_soundD(1))
      moreover have "step_ok K {} ?t (finish_cleanup p ?t) \<and> p \<notin> dangling (finish_cleanup p ?t)" using p by (intro fin) auto
      ultimately show ?thesis using alive b step_ok_trans by (auto simp: after_retirement_def Let_def)
    next
      case d
      let ?t = "add_retired p s"
      note R = add_retired_ok [OF c p(1,2) alive]
      have 1: "step_ok K {} s ?t" using R by (simp add: step_ok_def)
      have 2: "p \<notin> dangling ?t" using R p(3) by (auto simp: dangling_def)
      have ct: "client_sound K ?t" using R by simp
      have 3: "step_ok K {} ?t (ensure_cleanup p ?t)" using R p by (intro ensure_cleanup_step) auto
      show ?thesis using alive d 1 2 step_ok_trans [OF 1 3] not_dangling_step [OF 3 ct 2]
        by (auto simp: after_retirement_def Let_def)
    qed
  qed
  then show ?A ?B by auto
qed

subsection \<open>Methods\<close>

lemma mret_Some [simp]: "mret x s = Some (y, t) \<longleftrightarrow> y = x \<and> t = s"
  by (auto simp: mret_def)

lemma mget_Some [simp]: "mget f s = Some (y, t) \<longleftrightarrow> y = f s \<and> t = s"
  by (auto simp: mget_def)

lemma mstate_Some [simp]: "mstate f s = Some (y, t) \<longleftrightarrow> t = f s"
  by (auto simp: mstate_def)

lemma mbind_Some: "mbind m f s = Some (y, u) \<longleftrightarrow> (\<exists>x t. m s = Some (x, t) \<and> f x t = Some (y, u))"
  by (auto simp: mbind_def split: option.splits)

lemma mbindE: "mbind m f s = Some (y, u) \<Longrightarrow> (\<And>x t. m s = Some (x, t) \<Longrightarrow> f x t = Some (y, u) \<Longrightarrow> P) \<Longrightarrow> P"
  by (auto simp: mbind_Some)

lemma mbind_run [simp]: "mbind (mret x) f s = f x s" "mbind (mget g) f s = f (g s) s" "mbind (mstate h) k s = k () (h s)"
  by (simp_all add: mbind_def mret_def mget_def mstate_def)

definition calm :: "client \<Rightarrow> client \<Rightarrow> bool" where
  \<comment> \<open>an entry that does not pass its checks leaves the running operation and the client as they are\<close>
  "calm s t \<longleftrightarrow> (entry_epoch t = entry_epoch s \<longrightarrow> current_op t = current_op s \<and> destroyed t = destroyed s)"

definition api_ok :: "client_config \<Rightarrow> client \<Rightarrow> client \<Rightarrow> bool" where
  "api_ok K s t \<longleftrightarrow> step_ok K {} s t \<and> (client_sound K s \<longrightarrow> calm s t)"

lemma api_ok_refl [simp]: "api_ok K s s"
  by (simp add: api_ok_def calm_def)

lemma api_ok_trans: "api_ok K s t \<Longrightarrow> api_ok K t u \<Longrightarrow> api_ok K s u"
  unfolding api_ok_def using step_ok_trans [of K "{}" s t u] frameD(1) [of "{}" s t] frameD(1) [of "{}" t u]
  by (auto simp: step_ok_def calm_def)

definition keeps :: "client_config \<Rightarrow> nat set \<Rightarrow> 'a run \<Rightarrow> bool" where
  "keeps K X m \<longleftrightarrow> (\<forall>s x t. m s = Some (x, t) \<longrightarrow> step_ok K X s t)"

lemma keepsD: "keeps K X m \<Longrightarrow> m s = Some (x, t) \<Longrightarrow> step_ok K X s t"
  by (auto simp: keeps_def)

lemma keeps_weaken: "keeps K {} m \<Longrightarrow> keeps K X m"
  unfolding keeps_def using step_ok_weaken by blast

lemma keeps_mret [simp, intro]: "keeps K X (mret x)"
  by (simp add: keeps_def)

lemma keeps_mget [simp, intro]: "keeps K X (mget f)"
  by (simp add: keeps_def)

lemma keeps_mbind [intro]: "keeps K X m \<Longrightarrow> (\<And>x. keeps K X (f x)) \<Longrightarrow> keeps K X (mbind m f)"
  unfolding keeps_def by (blast elim: mbindE intro: step_ok_trans)

lemma keeps_mwhen [intro]: "(b \<Longrightarrow> keeps K X m) \<Longrightarrow> keeps K X (mwhen b m)"
  by (auto simp: mwhen_def)

lemma keeps_mstate: "(\<And>s. step_ok K X s (f s)) \<Longrightarrow> keeps K X (mstate f)"
  by (simp add: keeps_def)

lemma api_ok_step: "api_ok K s t \<Longrightarrow> step_ok K X s t"
  unfolding api_ok_def by (meson empty_subsetI step_ok_weaken)

lemma keeps_api: "(\<And>s x t. m s = Some (x, t) \<Longrightarrow> api_ok K s t) \<Longrightarrow> keeps K X m"
  unfolding keeps_def by (blast intro: api_ok_step)

subsection \<open>Calling the page\<close>

lemma call_page_ok: "stays_in (api_ok K) H \<Longrightarrow> call_page H q s = Some (x, t) \<Longrightarrow> api_ok K s t"
  by (auto simp: call_page_def stays_in_def)

lemma keeps_call_page [intro]: "stays_in (api_ok K) H \<Longrightarrow> keeps K X (call_page H q)"
  by (rule keeps_api) (rule call_page_ok)

lemma tell_ok: "stays_in (api_ok K) H \<Longrightarrow> tell H ls v s = Some t \<Longrightarrow> api_ok K s t"
proof (induction ls arbitrary: s)
  case (Cons l ls)
  then obtain u where "hear H l (snapshot_from v) s = Some u" "tell H ls v u = Some t"
    by (auto simp: bind_eq_Some_conv)
  then show ?case using Cons.IH [OF Cons.prems(1)] Cons.prems(1) api_ok_trans unfolding stays_in_def by blast
qed simp

lemma api_ok_quiet:
  assumes "operations t = operations s" "current_op t = current_op s" "next_op t = next_op s" "retired t = retired s" "generation t = generation s"
    "effects t = effects s" "entry_epoch t = entry_epoch s" "destroyed t = destroyed s" "gone_ok s \<Longrightarrow> gone_ok t"
  shows "api_ok K s t"
  using assms by (auto simp: api_ok_def calm_def intro!: quiet_step)

lemma drain_ok: "stays_in (api_ok K) H \<Longrightarrow> drain H s = Some t \<Longrightarrow> api_ok K s t"
proof -
  assume page: "stays_in (api_ok K) H" and run: "drain H s = Some t"
  have "stays_in (api_ok K) H \<longrightarrow> api_ok K s t"
  proof (rule drain.raw_induct [of "\<lambda>G s t. stays_in (api_ok K) G \<longrightarrow> api_ok K s t", OF _ run], intro impI)
    fix d G u v
    assume IH: "\<And>F b y. d F b = Some y \<Longrightarrow> stays_in (api_ok K) F \<longrightarrow> api_ok K b y" and page: "stays_in (api_ok K) G"
      and h: "(case notifications u of [] \<Rightarrow> Some u
        | w # ws \<Rightarrow> Option.bind (tell G (page_listeners u) w (u\<lparr>notifications := ws\<rparr>)) (d G)) = Some v"
    show "api_ok K u v"
    proof (cases "notifications u")
      case Nil
      then show ?thesis using h by simp
    next
      case (Cons w ws)
      let ?a = "u\<lparr>notifications := ws\<rparr>"
      from h Cons obtain b where b: "tell G (page_listeners u) w ?a = Some b" "d G b = Some v"
        by (auto simp: bind_eq_Some_conv)
      have "api_ok K u ?a" by (rule api_ok_quiet) (simp_all add: gone_ok_def)
      then show ?thesis using tell_ok [OF page b(1)] IH [OF b(2)] page api_ok_trans by blast
    qed
  qed
  then show ?thesis using page by blast
qed

lemma publish_api:
  assumes page: "stays_in (api_ok K) H" and h: "publish H v s = Some (x, t)"
  shows "api_ok K s t"
proof -
  let ?a = "s\<lparr>shown_state := snapshot_from v, notifications := notifications s @ [snapshot_from v]\<rparr>"
  have 1: "api_ok K s ?a" by (rule api_ok_quiet) (simp_all add: gone_ok_def)
  show ?thesis
  proof (cases "publishing s")
    case True
    then show ?thesis using h 1 by (simp add: publish_def Let_def)
  next
    case False
    with h obtain u where u: "drain H (?a\<lparr>publishing := True\<rparr>) = Some u" "t = u\<lparr>publishing := False\<rparr>"
      by (auto simp: publish_def Let_def)
    have 2: "api_ok K ?a (?a\<lparr>publishing := True\<rparr>)" by (rule api_ok_quiet) (simp_all add: gone_ok_def)
    have 3: "api_ok K u t" unfolding u(2) by (rule api_ok_quiet) (simp_all add: gone_ok_def)
    show ?thesis using 1 2 drain_ok [OF page u(1)] 3 api_ok_trans by blast
  qed
qed

lemma keeps_publish [intro]: "stays_in (api_ok K) H \<Longrightarrow> keeps K X (publish H v)"
  by (rule keeps_api) (rule publish_api)

lemma clear_connection_api: "api_ok K s (clear_connection s)"
  by (rule api_ok_quiet) (simp_all add: clear_connection_def gone_ok_def)

lemma keeps_clear_connection [intro]: "keeps K X (mstate clear_connection)"
  by (rule keeps_mstate) (rule api_ok_step, rule clear_connection_api)

lemma expire_api:
  assumes page: "stays_in (api_ok K) H" and h: "expire_connection_if_needed H s = Some (x, t)"
  shows "api_ok K s t"
proof (cases "connection s")
  case None
  then show ?thesis using h by (simp add: expire_connection_if_needed_def)
next
  case (Some c)
  from h Some obtain u where u: "call_page H Expiry_Clock s = Some ((), u)"
    and r: "u = t \<or> publish H (if current_op (clear_connection u) \<noteq> None then show_opening None else DORMANT) (clear_connection u) = Some (x, t)"
    by (auto simp: expire_connection_if_needed_def mbind_Some split: if_splits)
  have "api_ok K s u" using call_page_ok [OF page u] .
  then show ?thesis using r publish_api [OF page] clear_connection_api [of K u] api_ok_trans by blast
qed

lemma keeps_expire [intro]: "stays_in (api_ok K) H \<Longrightarrow> keeps K X (expire_connection_if_needed H)"
  by (rule keeps_api) (rule expire_api)

lemma publish_failure_step:
  assumes page: "stays_in (api_ok K) H" and h: "publish_failure H code prior s = Some (x, t)" and d: "\<not> destroyed s"
  shows "step_ok K X s t"
proof (cases "live_connection prior (now_at H Failure_Time)")
  case None
  then show ?thesis using h keepsD [OF keeps_mbind [OF keeps_clear_connection keeps_publish [OF page]]]
    by (simp add: publish_failure_def)
next
  case (Some c)
  have "step_ok K X s (s\<lparr>connection := Some c\<rparr>)" by (rule quiet_step) (use d in \<open>simp_all add: gone_ok_def\<close>)
  then show ?thesis using h Some keepsD [OF keeps_publish [OF page]] step_ok_trans by (auto simp: publish_failure_def)
qed

subsection \<open>Retiring and settling\<close>

definition held :: "client \<Rightarrow> nat option \<times> nat \<times> bool \<times> nat" where
  "held s = (current_op s, entry_epoch s, destroyed s, next_op s)"

lemma held_cleanup [simp]:
  "held (on_op p f s) = held s" "held (emit e s) = held s" "held (finish_cleanup p s) = held s" "held (send_cancel p s) = held s"
  by (simp_all add: held_def send_cancel_def Let_def)

lemma held_evict [simp]: "held (evict_retired n s) = held s"
  by (induction n arbitrary: s) simp_all

lemma held_add [simp]: "held (add_retired p s) = held s"
  by (simp add: add_retired_def del: evict_retired.simps) (simp add: held_def)

lemma held_ensure [simp]: "held (ensure_cleanup p s) = held s"
  by (simp add: ensure_cleanup_def cancel_once_def Let_def)

lemma held_after_retirement [simp]: "held (after_retirement p cleanup s) = held s"
  by (simp add: after_retirement_def Let_def)

lemma op_ok_dead: "op_ok K p es x \<Longrightarrow> op_ok K p es ((clear_operation_timers x)\<lparr>is_live := False\<rparr>)"
  by (auto simp: op_ok_def clear_operation_timers_def secrets_gone_def)

lemma deactivate_generation [simp]: "generation (deactivate p s) = generation s"
  by (simp add: deactivate_def)

lemma deactivate_ok:
  assumes c: "client_sound K s" and live: "is_live (operations s p)"
    and t_def: "t = (deactivate p s)\<lparr>generation := g\<rparr>"
  shows "client_sound K t" "frame {p} s t" "current_op t = None" "\<not> is_live (operations t p)" "settlements p (effects t) = []"
    "destroyed t = destroyed s" "entry_epoch t = entry_epoch s" "next_op t = next_op s" "redeem_task (operations t p) = redeem_task (operations s p)"
    "effects t = effects s"
proof -
  have cur: "current_op s = Some p" using client_soundD(3) [OF c] live by blast
  have b: "p < next_op s" by (rule current_bound [OF c cur])
  show "client_sound K t" unfolding t_def
    using c cur b op_ok_dead [OF client_soundD(1) [OF c b]] client_soundD(3) [OF c]
    by (auto simp: client_sound_def core_ok_def retired_ok_def gone_ok_def deactivate_def clear_operation_timers_def)
  show "frame {p} s t" unfolding t_def using cur live
    by (auto simp: frame_def dangling_def deactivate_def)
  show "settlements p (effects t) = []" using live_okD [OF c live] by (simp add: t_def deactivate_def live_ok_def)
qed (use client_soundD(3) [OF c] live in \<open>simp_all add: t_def deactivate_def clear_operation_timers_def\<close>)

lemma op_ok_settled:
  assumes "op_ok K p es x" "\<not> is_live x" "settlements p es = []" "\<And>v. r = Resolved v \<Longrightarrow> was_redeemed p es"
  shows "op_ok K p (es @ [Settled p r]) x"
  using assms redeemed_grows [of p es "[Settled p r]"] by (auto simp: op_ok_def)

lemma settle_step:
  assumes c: "client_sound K s" and p: "p < next_op s" "\<not> is_live (operations s p)" "settlements p (effects s) = []"
    and r: "\<And>v. r = Resolved v \<Longrightarrow> was_redeemed p (effects s)"
  shows "client_sound K (emit (Settled p r) s)" "frame {p} s (emit (Settled p r) s)"
proof -
  have f: "foreign q (Settled p r)" if "q \<noteq> p" for q using that by (simp add: foreign_def)
  show "client_sound K (emit (Settled p r) s)"
    unfolding client_sound_def core_ok_def
  proof (intro conjI allI impI)
    fix q
    show "op_ok K q (effects (emit (Settled p r) s)) (operations (emit (Settled p r) s) q)" if "q < next_op (emit (Settled p r) s)"
      using that op_ok_settled [OF client_soundD(1) [OF c p(1)] p(2,3) r] op_ok_foreign [OF f, of q] client_soundD(1) [OF c, of q]
      by (cases "q = p") simp_all
    assume "next_op (emit (Settled p r) s) \<le> q"
    then show "operations (emit (Settled p r) s) q = no_pending" "fetches q (effects (emit (Settled p r) s)) = []"
      "settlements q (effects (emit (Settled p r) s)) = []"
      using client_soundD(2) [OF c, of q] p(1) by auto
  next
    show "retired_ok (emit (Settled p r) s)" "gone_ok (emit (Settled p r) s)" using client_soundD(4,5) [OF c]
      by (simp_all add: retired_ok_def gone_ok_def)
  qed (use client_soundD(3,6) [OF c] current_generation [OF c] in simp_all)
  show "frame {p} s (emit (Settled p r) s)" by (auto simp: frame_def dangling_def)
qed

lemma settlements_kept: "frame X s t \<Longrightarrow> p < next_op s \<Longrightarrow> p \<notin> X \<Longrightarrow> \<not> is_live (operations s p) \<Longrightarrow>
    \<not> is_live (operations t p) \<and> p < next_op t \<and> settlements p (effects t) = settlements p (effects s)"
  using frameD(2,5,6) [of X s t] by auto

lemma redeemed_kept: "frame X s t \<Longrightarrow> was_redeemed p (effects s) \<Longrightarrow> was_redeemed p (effects t)"
  using frameD(4) [of X s t] by (fastforce simp: was_redeemed_def in_fetches image_iff)

lemma retire_step:
  assumes page: "stays_in (api_ok K) H" and h: "retire H p code publishes cleanup s = Some (x, t)"
  shows "step_ok K {} s t"
    and "client_sound K s \<Longrightarrow> entry_epoch t = entry_epoch s \<Longrightarrow> \<not> publishes \<Longrightarrow> current_op s = Some p \<Longrightarrow> current_op t = None \<and> destroyed t = destroyed s"
proof -
  have "step_ok K {} s t \<and> (client_sound K s \<longrightarrow> entry_epoch t = entry_epoch s \<longrightarrow> \<not> publishes \<longrightarrow> current_op s = Some p
      \<longrightarrow> current_op t = None \<and> destroyed t = destroyed s)"
  proof (cases "client_sound K s \<and> is_live (operations s p)")
    case False
    then show ?thesis using h client_soundD(3) [of K s p] by (auto simp: retire_def step_ok_def)
  next
    case True
    then have c: "client_sound K s" and live: "is_live (operations s p)" by auto
    define a where "a = (deactivate p s)\<lparr>generation := Suc (generation s)\<rparr>"
    note A = deactivate_ok [OF c live a_def]
    from h live obtain u b where u: "mwhen (op_phase (operations s p) \<noteq> Registering) (call_page H Aborting) a = Some ((), u)"
      and b: "mwhen (publishes \<and> entry_failure (entry_epoch s) u = None) (publish_failure H code (prior_connection (operations s p)))
          (emit (Settled p (Rejected (or_else (entry_failure (entry_epoch s) u) code))) u) = Some ((), b)"
      and t: "t = after_retirement p cleanup b"
      by (auto simp: retire_def mbind_Some a_def)
    have au: "api_ok K a u" using u call_page_ok [OF page] by (auto simp: mwhen_def split: if_splits)
    then have U: "client_sound K u" "frame {} a u" "calm a u" using A(1) by (auto simp: api_ok_def step_ok_def)
    have bound: "p < next_op s" by (rule live_bound [OF c live])
    have pu: "\<not> is_live (operations u p)" "p < next_op u" "settlements p (effects u) = []"
      using settlements_kept [OF U(2), of p] bound A(4,5,8) by auto
    let ?e = "emit (Settled p (Rejected (or_else (entry_failure (entry_epoch s) u) code))) u"
    have E: "client_sound K ?e" "frame {p} u ?e" by (rule settle_step [OF U(1) pu(2,1,3)], simp)+
    have eb: "step_ok K {} ?e b"
      using b publish_failure_step [OF page] by (auto simp: mwhen_def entry_failure_def split: if_splits)
    then have B: "client_sound K b" "frame {} ?e b" using E(1) by (auto simp: step_ok_def)
    have pb: "p < next_op b" "\<not> is_live (operations b p)" "settlements p (effects b) \<noteq> []"
      using settlements_kept [OF B(2), of p] pu by auto
    note R = after_retirement_ok [OF B(1) pb, of cleanup]
    have T: "client_sound K t" "frame {} b t" using R(1) B(1) by (auto simp: step_ok_def t)
    have "frame {p} s t"
      by (rule frame_trans [OF frame_trans [OF frame_trans [OF frame_trans [OF A(2) frame_weaken [OF U(2) empty_subsetI]] E(2)]
        frame_weaken [OF B(2) empty_subsetI]] frame_weaken [OF T(2) empty_subsetI]])
    moreover have "\<not> is_live (operations t p)" by (rule frameD(5) [OF T(2) pb(1,2)])
    moreover have "p \<notin> dangling t" unfolding t by (rule R(2))
    ultimately have "frame {} s t" using live by (blast intro: frame_close)
    moreover have "current_op t = None \<and> destroyed t = destroyed s" if "entry_epoch t = entry_epoch s" "\<not> publishes"
    proof -
      have "b = ?e" using b that by (simp add: mwhen_def)
      then have "held t = held u" by (simp add: t)
      then show ?thesis using U(3) A(3,6,7) that by (simp add: held_def calm_def)
    qed
    ultimately show ?thesis using T(1) by (auto simp: step_ok_def)
  qed
  then show "step_ok K {} s t" "client_sound K s \<Longrightarrow> entry_epoch t = entry_epoch s \<Longrightarrow> \<not> publishes \<Longrightarrow> current_op s = Some p
      \<Longrightarrow> current_op t = None \<and> destroyed t = destroyed s" by auto
qed

lemma keeps_retire [intro]: "stays_in (api_ok K) H \<Longrightarrow> keeps K X (retire H p code publishes cleanup)"
  unfolding keeps_def using retire_step(1) step_ok_weaken by (meson empty_subsetI)

lemma keeps_fail_active [intro]: "stays_in (api_ok K) H \<Longrightarrow> keeps K X (fail_active H p code cleanup)"
  unfolding fail_active_def by (intro keeps_mbind keeps_mget keeps_mwhen keeps_retire)

end
