(* ===== verification/RelayClientSteps.thy ===== *)
theory RelayClientSteps
  imports RelayClientFacts
begin

section \<open>The client's methods and tasks keep its invariant\<close>

text \<open>
  The facts of RelayClientFacts carried through every public method, so through whatever a page may
  call from inside a call, and through every part of the asynchronous methods. They end in the
  soundness of every reachable state of the client.
\<close>

subsection \<open>The callback channel and the secrets\<close>

definition apis :: "client_config \<Rightarrow> 'a run \<Rightarrow> bool" where
  "apis K m \<longleftrightarrow> (\<forall>s x t. m s = Some (x, t) \<longrightarrow> api_ok K s t)"

lemma apisD: "apis K m \<Longrightarrow> m s = Some (x, t) \<Longrightarrow> api_ok K s t"
  by (auto simp: apis_def)

lemma apis_mret [simp, intro]: "apis K (mret x)"
  by (simp add: apis_def)

lemma apis_mget [simp, intro]: "apis K (mget f)"
  by (simp add: apis_def)

lemma apis_mbind [intro]: "apis K m \<Longrightarrow> (\<And>x. apis K (f x)) \<Longrightarrow> apis K (mbind m f)"
  unfolding apis_def by (blast elim: mbindE intro: api_ok_trans)

lemma apis_mwhen [intro]: "(b \<Longrightarrow> apis K m) \<Longrightarrow> apis K (mwhen b m)"
  by (auto simp: mwhen_def)

lemma apis_if [intro]: "(b \<Longrightarrow> apis K m) \<Longrightarrow> (\<not> b \<Longrightarrow> apis K n) \<Longrightarrow> apis K (if b then m else n)"
  by simp

lemma apis_option [intro]: "apis K m \<Longrightarrow> (\<And>x. apis K (f x)) \<Longrightarrow> apis K (case r of None \<Rightarrow> m | Some x \<Rightarrow> f x)"
  by (cases r) auto

lemma apis_mstate: "(\<And>s. api_ok K s (f s)) \<Longrightarrow> apis K (mstate f)"
  by (simp add: apis_def)

lemma apis_call_page [intro]: "stays_in (api_ok K) H \<Longrightarrow> apis K (call_page H q)"
  unfolding apis_def using call_page_ok by blast

lemma apis_expire [intro]: "stays_in (api_ok K) H \<Longrightarrow> apis K (expire_connection_if_needed H)"
  unfolding apis_def using expire_api by blast

lemma page_effect_api: "(case e of Fetch _ _ _ \<Rightarrow> False | Settled _ _ \<Rightarrow> False | _ \<Rightarrow> True) \<Longrightarrow> api_ok K s (emit e s)"
  using page_effect [of e K "{}" s] by (simp add: api_ok_def calm_def)

lemma apis_scan [intro]: "stays_in (api_ok K) H \<Longrightarrow> apis K (scan_keys H i n)"
  by (induction n arbitrary: i) (auto intro!: apis_mbind)

lemma apis_sweep [intro]: "stays_in (api_ok K) H \<Longrightarrow> apis K (sweep_keys H i ks)"
  by (induction ks arbitrary: i) (auto intro!: apis_mbind apis_mstate page_effect_api)

lemma apis_flags:
  "apis K (mstate (\<lambda>s. s\<lparr>channel_activated := True, activation_in_progress := True\<rparr>))"
  "apis K (mstate (\<lambda>s. s\<lparr>activation_in_progress := False\<rparr>))"
  "apis K (mstate (\<lambda>s. if b then s else s\<lparr>activation_compromised := True\<rparr>))"
  "apis K (mstate (\<lambda>s. s\<lparr>activation_compromised := True\<rparr>))"
  "apis K (mstate (\<lambda>s. s\<lparr>storage_open := True\<rparr>))"
  "apis K (mstate (\<lambda>s. s\<lparr>storage_listening := True\<rparr>))"
  "apis K activation_settles"
  unfolding activation_settles_def by (intro apis_mstate; auto intro!: api_ok_quiet simp: gone_ok_def)+

lemma apis_activate [intro]:
  assumes page: "stays_in (api_ok K) H"
  shows "apis K (activate_callback_channel H)"
proof -
  have sweep: "apis K (remove_expired_callback_records H)"
    unfolding remove_expired_callback_records_def Let_def using page by blast
  have listen: "apis K (listen_for_callbacks H)"
    unfolding listen_for_callbacks_def using page by (intro apis_mbind apis_flags) blast
  have storage: "apis K (open_storage H)"
    unfolding open_storage_def by (intro apis_mbind apis_flags sweep apis_mget apis_mwhen listen)
  show ?thesis unfolding activate_callback_channel_def
    by (intro apis_mbind apis_mget apis_if apis_mret apis_flags apis_call_page page apis_mwhen storage)
qed

lemma apis_still_entered [intro]: "apis K (still_entered epoch x)"
  unfolding still_entered_def by blast

lemma apis_abind [intro]: "apis K m \<Longrightarrow> (\<And>x. apis K (f x)) \<Longrightarrow> apis K (abind m f)"
  unfolding abind_def by (rule apis_mbind) (auto split: sum.split)

lemma apis_secure_bytes [intro]: "stays_in (api_ok K) H \<Longrightarrow> apis K (secure_bytes H epoch q)"
  unfolding secure_bytes_def by (rule apis_mbind) (auto split: sum.split)

lemma apis_draw [intro]:
  assumes page: "stays_in (api_ok K) H"
  shows "apis K (draw_and_open H epoch)"
  unfolding draw_and_open_def Let_def
  by (intro apis_abind apis_mbind apis_if apis_option apis_mret apis_still_entered apis_secure_bytes apis_call_page page apis_mstate page_effect_api)
    simp

lemma abind_Inr: "abind m f s = Some (Inr z, u) \<longleftrightarrow> (\<exists>x t. m s = Some (Inr x, t) \<and> f x t = Some (Inr z, u))"
  by (auto simp: abind_def mbind_Some split: sum.splits) (metis sum.exhaust)+

lemma still_entered_Some: "still_entered epoch x s = Some (Inr y, t) \<longleftrightarrow> y = x \<and> t = s \<and> entry_failure epoch s = None"
  by (auto simp: still_entered_def)

lemma draw_entered:
  assumes "draw_and_open H epoch s = Some (Inr secrets, t)"
  shows "entry_failure epoch t = None"
  using assms
  by (auto simp: draw_and_open_def abind_Inr Let_def mbind_Some still_entered_Some split: sum.splits if_splits option.splits)

subsection \<open>execute\<close>

lemma unless_stale_Some: "unless_stale epoch m s = Some (y, t) \<longleftrightarrow>
    (case entry_failure epoch s of Some code \<Rightarrow> y = Refuses code \<and> t = s | None \<Rightarrow> m s = Some (y, t))"
  by (auto simp: unless_stale_def split: option.splits)

lemma entered: "entry_failure epoch s = None \<longleftrightarrow> \<not> destroyed s \<and> entry_epoch s = epoch"
  by (auto simp: entry_failure_def)

lemma allocate_step:
  assumes c: "client_sound K s" and idle: "current_op s = None" and alive: "\<not> destroyed s"
    and t: "t = s\<lparr>operations := (operations s)(next_op s := new_pending a request prior now g secrets), generation := g,
      next_op := Suc (next_op s), current_op := Some (next_op s)\<rparr>"
  shows "client_sound K t" "frame {} s t"
proof -
  obtain tid tstate v where secrets: "secrets = (tid, tstate, v)" by (cases secrets)
  have e: "fetches (next_op s) (effects s) = []" "settlements (next_op s) (effects s) = []"
    using client_soundD(2) [OF c] by simp_all
  have r: "\<not> Settled (next_op s) x \<in> set (effects s)" for x using e(2) by (simp add: in_settlements [symmetric])
  have ok: "op_ok K (next_op s) (effects s) (new_pending a request prior now g secrets)"
    by (simp add: op_ok_def live_ok_def secrets new_pending_def e r)
  have live: "is_live (new_pending a request prior now g secrets)" "op_generation (new_pending a request prior now g secrets) = g"
    by (simp_all add: secrets new_pending_def)
  show "client_sound K t" unfolding client_sound_def core_ok_def
  proof (intro conjI allI impI)
    fix q
    show "op_ok K q (effects t) (operations t q)" if "q < next_op t"
      using that ok client_soundD(1) [OF c, of q] by (auto simp: t less_Suc_eq)
    show "is_live (operations t q) \<longleftrightarrow> current_op t = Some q" using client_soundD(3) [OF c, of q] idle live by (auto simp: t)
  qed (use client_soundD(2,4,6) [OF c] alive live in \<open>auto simp: t retired_ok_def gone_ok_def\<close>)
  show "frame {} s t" by (auto simp: frame_def dangling_def t live)
qed

lemma register_step:
  assumes c: "client_sound K s" and x: "is_live (operations s p) \<Longrightarrow> op_phase (operations s p) = Hashing"
  shows "step_ok K {p} s (register p s)" "p \<notin> dangling s \<Longrightarrow> p \<notin> dangling (register p s)"
proof -
  show "step_ok K {p} s (register p s)"
  proof (cases "is_active p s \<and> \<not> cleanup_finished (operations s p)")
    case False
    then show ?thesis by (auto simp: register_def Let_def)
  next
    case True
    then have live: "is_live (operations s p)" by (simp add: is_active_def)
    have b: "p < next_op s" by (rule live_bound [OF c live])
    have F: "fetches p (effects s) = []" using live_okD [OF c live] x [OF live] by (simp add: live_ok_def)
    show ?thesis using True client_soundD(1) [OF c b] F live x [OF live]
      by (auto simp: register_def Let_def op_ok_def live_ok_def verifier_bytes_def secrets_gone_def intro!: op_step b)
  qed
  show "p \<notin> dangling s \<Longrightarrow> p \<notin> dangling (register p s)" by (auto simp: register_def Let_def dangling_def)
qed

lemma start_step:
  assumes page: "stays_in (api_ok K) H" and c: "client_sound K s" and idle: "current_op s = None" and alive: "\<not> destroyed s"
    and h: "start_operation H (\<lambda>g. new_pending a request prior now g secrets) view s = Some (y, t)"
  shows "step_ok K {} s t"
proof -
  let ?p = "next_op s"
  define b where "b = s\<lparr>operations := (operations s)(?p := new_pending a request prior now (Suc (generation s)) secrets),
    generation := Suc (generation s), next_op := Suc ?p, current_op := Some ?p\<rparr>"
  note B = allocate_step [OF c idle alive b_def]
  from h obtain u where u: "publish H (show_opening view) b = Some ((), u)" and t: "t = register ?p u"
    by (auto simp: start_operation_def mbind_Some b_def)
  have U: "client_sound K u" "frame {} b u" using publish_api [OF page u] B(1) by (auto simp: api_ok_def step_ok_def)
  have live: "is_live (operations b ?p)" "op_phase (operations b ?p) = Hashing"
    by (simp_all add: b_def new_pending_def split: prod.split)
  have hashing: "op_phase (operations u ?p) = Hashing" if "is_live (operations u ?p)"
    using frameD(7) [OF U(2), of ?p] that live(2) by (simp add: b_def)
  have R: "step_ok K {?p} u (register ?p u)" "?p \<notin> dangling u \<Longrightarrow> ?p \<notin> dangling (register ?p u)"
    using register_step [OF U(1), of ?p] hashing by blast+
  have "?p \<notin> dangling b" using live by (simp add: dangling_def)
  then have "?p \<notin> dangling u" using frameD(8) [OF U(2)] by blast
  then have d: "?p \<notin> dangling t" unfolding t by (rule R(2))
  have T: "client_sound K t" "frame {?p} u t" using R(1) U(1) by (auto simp: step_ok_def t)
  have "frame {?p} s t"
    by (rule frame_trans [OF frame_trans [OF frame_weaken [OF B(2) empty_subsetI] frame_weaken [OF U(2) empty_subsetI]] T(2)])
  then have "frame {} s t" using d by (intro frame_close [of ?p "{}"]) auto
  then show ?thesis using T(1) by (simp add: step_ok_def)
qed

lemma retire_previous_step:
  assumes page: "stays_in (api_ok K) H" and c: "client_sound K s" and h: "retire_previous H (current_op s) s = Some (x, t)"
  shows "client_sound K t" "frame {} s t" "entry_epoch t = entry_epoch s \<Longrightarrow> current_op t = None"
proof -
  have 1: "step_ok K {} s t" using h retire_step(1) [OF page] by (auto simp: retire_previous_def split: option.splits)
  then show "client_sound K t" "frame {} s t" using c by (auto simp: step_ok_def)
  show "current_op t = None" if "entry_epoch t = entry_epoch s"
    using h retire_step(2) [OF page _ c that] by (auto simp: retire_previous_def split: option.splits)
qed

lemma api_then: "api_ok K s t \<Longrightarrow> step_ok K {} t u \<Longrightarrow> step_ok K {} s u"
  using api_ok_step step_ok_trans by blast

lemma unless_stale_step:
  assumes "unless_stale epoch m s = Some (y, t)" "\<And>y t. entry_failure epoch s = None \<Longrightarrow> m s = Some (y, t) \<Longrightarrow> step_ok K X s t"
  shows "step_ok K X s t"
  using assms by (auto simp: unless_stale_Some split: option.splits)

lemma replace_operation_step:
  assumes page: "stays_in (api_ok K) H" and c: "client_sound K s" and now: "\<And>x. drawn = Inr x \<Longrightarrow> entry_failure epoch s = None"
    and h: "replace_operation H a request epoch prior previous drawn s = Some (y, t)"
    and previous: "entry_failure epoch s = None \<Longrightarrow> current_op s = previous"
  shows "step_ok K {} s t"
proof (cases "entry_failure epoch s")
  case (Some code)
  then have "t = s" using h now by (auto simp: replace_operation_def unless_stale_Some split: sum.splits)
  then show ?thesis by simp
next
  case None
  then have prev: "previous = current_op s" using previous by simp
  obtain u where u: "retire_previous H (current_op s) s = Some ((), u)"
    using h None by (auto simp: prev replace_operation_def unless_stale_Some mbind_Some split: sum.splits)
  note R = retire_previous_step [OF page c u]
  have "step_ok K {} u t"
  proof (cases drawn)
    case (Inl thrown)
    then have "unless_stale epoch (mbind (publish_failure H (or_else thrown ''CRYPTO_UNAVAILABLE'') prior) (\<lambda>_.
        mret (Refuses (or_else thrown ''CRYPTO_UNAVAILABLE'')))) u = Some (y, t)"
      using h None u by (auto simp: prev replace_operation_def mbind_Some unless_stale_Some)
    then show ?thesis
      by (rule unless_stale_step) (auto simp: mbind_Some entered intro: publish_failure_step [OF page])
  next
    case (Inr secrets)
    then have "unless_stale epoch (start_operation H (\<lambda>gen. new_pending a request prior (now_at H Entry_Time) gen secrets) prior) u = Some (y, t)"
      using h u by (auto simp: prev replace_operation_def mbind_Some)
    then show ?thesis
      by (rule unless_stale_step) (use R None in \<open>auto simp: entered intro!: start_step [OF page]\<close>)
  qed
  then show ?thesis using R(1,2) frame_trans by (auto simp: step_ok_def)
qed

lemma draw_and_replace_step:
  assumes page: "stays_in (api_ok K) H" and c: "client_sound K s" and ok: "entry_failure epoch s = None"
    and h: "draw_and_replace H a request epoch s = Some (y, t)"
  shows "step_ok K {} s t"
proof -
  from h obtain r u where u: "draw_and_open H epoch s = Some (r, u)"
    and r: "replace_operation H a request epoch (live_connection (connection s) (now_at H Entry_Time)) (current_op s) r u = Some (y, t)"
    by (auto simp: draw_and_replace_def mbind_Some)
  have A: "api_ok K s u" using apisD [OF apis_draw [OF page] u] .
  then have cu: "client_sound K u" using c by (auto simp: api_ok_def step_ok_def)
  have "step_ok K {} u t"
    by (rule replace_operation_step [OF page cu _ r]) (use u draw_entered A c ok in \<open>auto simp: api_ok_def calm_def entered\<close>)
  then show ?thesis by (rule api_then [OF A])
qed

definition follows :: "client_config \<Rightarrow> client \<Rightarrow> 'a run \<Rightarrow> bool" where
  \<comment> \<open>the method is sound after whatever the page did since a state\<close>
  "follows K s m \<longleftrightarrow> (\<forall>v y t. api_ok K s v \<longrightarrow> m v = Some (y, t) \<longrightarrow> step_ok K {} s t)"

lemma follows_mret: "follows K s (mret x)"
  by (auto simp: follows_def intro: api_ok_step)

lemma follows_if: "(b \<Longrightarrow> follows K s m) \<Longrightarrow> (\<not> b \<Longrightarrow> follows K s n) \<Longrightarrow> follows K s (if b then m else n)"
  by simp

lemma follows_mbind: "apis K m \<Longrightarrow> (\<And>x. follows K s (f x)) \<Longrightarrow> follows K s (mbind m f)"
  unfolding follows_def by (blast elim: mbindE intro: api_ok_trans dest: apisD)

lemma follows_stale: "follows K s m \<Longrightarrow> follows K s (unless_stale epoch m)"
  by (auto simp: follows_def unless_stale_Some intro: api_ok_step split: option.splits)

lemma follows_draw:
  assumes page: "stays_in (api_ok K) H" and c: "client_sound K s"
  shows "follows K s (unless_stale epoch (draw_and_replace H a request epoch))"
proof -
  have "step_ok K {} s t" if v: "api_ok K s v" and ok: "entry_failure epoch v = None" and run: "draw_and_replace H a request epoch v = Some (y, t)"
    for v y t
  proof -
    have "client_sound K v" using v c by (simp add: api_ok_def step_ok_def)
    from api_then [OF v draw_and_replace_step [OF page this ok run]] show ?thesis .
  qed
  then show ?thesis by (auto simp: follows_def unless_stale_Some intro: api_ok_step split: option.splits)
qed

lemma execute_entered_step:
  assumes page: "stays_in (api_ok K) H" and c: "client_sound K s" and h: "execute_entered H a request epoch s = Some (y, t)"
  shows "step_ok K {} s t"
proof -
  have "follows K s (execute_entered H a request epoch)" unfolding execute_entered_def
    by (intro follows_mbind follows_stale follows_if follows_mret follows_draw apis_activate apis_mget apis_expire apis_call_page page c)
  then show ?thesis using h api_ok_refl unfolding follows_def by blast
qed

lemma bumped_api:
  assumes "\<And>v. client_sound K v \<Longrightarrow> entry_epoch v = Suc (entry_epoch s) \<Longrightarrow> v = f s \<Longrightarrow> step_ok K {} v t" "step_ok K {} s (f s)"
    "entry_epoch (f s) = Suc (entry_epoch s)"
  shows "api_ok K s t"
proof -
  have "step_ok K {} s t" using assms step_ok_trans [OF assms(2)] by (auto simp: step_ok_def)
  moreover have "calm s t" if c: "client_sound K s"
  proof -
    have "client_sound K (f s)" using c assms(2) by (simp add: step_ok_def)
    then have "frame {} (f s) t" using assms(1) [of "f s"] assms(3) by (simp add: step_ok_def)
    then show ?thesis using frameD(1) assms(3) by (fastforce simp: calm_def)
  qed
  ultimately show ?thesis by (simp add: api_ok_def)
qed

lemma execute_api:
  assumes page: "stays_in (api_ok K) H"
  shows "apis K (execute K H name input)"
proof -
  have enter: "apis K (mbind (mstate (\<lambda>s. s\<lparr>entry_epoch := Suc (entry_epoch s)\<rparr>)) (\<lambda>_. mbind (mget entry_epoch) (\<lambda>epoch.
      execute_entered H a request epoch)))" for a request
    unfolding apis_def
  proof (intro allI impI)
    fix s y t
    assume h: "mbind (mstate (\<lambda>s. s\<lparr>entry_epoch := Suc (entry_epoch s)\<rparr>)) (\<lambda>_. mbind (mget entry_epoch) (\<lambda>epoch.
      execute_entered H a request epoch)) s = Some (y, t)"
    show "api_ok K s t"
    proof (rule bumped_api [of _ s "\<lambda>s. s\<lparr>entry_epoch := Suc (entry_epoch s)\<rparr>"])
      show "step_ok K {} v t" if "client_sound K v" "v = s\<lparr>entry_epoch := Suc (entry_epoch s)\<rparr>" for v
        using execute_entered_step [OF page that(1)] h that(2) by simp
      show "step_ok K {} s (s\<lparr>entry_epoch := Suc (entry_epoch s)\<rparr>)" by (rule quiet_step) (simp_all add: gone_ok_def)
    qed simp
  qed
  have stale: "apis K (unless_stale epoch m)" if "apis K m" for epoch m
    unfolding unless_stale_def by (intro apis_mbind apis_option that apis_mget apis_mret)
  have built: "apis K (case r of Inl e \<Rightarrow> mret (Refuses ''INVALID_REQUEST'')
       | Inr request \<Rightarrow> mbind (mget activation_in_progress) (\<lambda>activating.
           if activating then mbind (mstate (\<lambda>s. s\<lparr>activation_compromised := True\<rparr>)) (\<lambda>_. mret (Refuses ''REPLACED''))
           else mbind (mstate (\<lambda>s. s\<lparr>entry_epoch := Suc (entry_epoch s)\<rparr>)) (\<lambda>_. mbind (mget entry_epoch) (\<lambda>epoch.
             execute_entered H a request epoch))))" for r a
    using enter by (cases r) (auto intro!: apis_mbind apis_flags)
  show ?thesis unfolding execute_def
    by (intro apis_mbind apis_if apis_option apis_mget apis_mret apis_call_page page stale built)
qed

subsection \<open>disconnect, destroy, subscribe\<close>

lemma disconnect_api:
  assumes page: "stays_in (api_ok K) H"
  shows "apis K (disconnect H)"
proof -
  define f where "f s = clear_connection (s\<lparr>entry_epoch := Suc (entry_epoch s)\<rparr>)" for s
  have "keeps K {} (mbind (mget entry_epoch) (\<lambda>epoch. mbind (mget current_op) (\<lambda>p.
     mbind (case p of None \<Rightarrow> mret () | Some q \<Rightarrow> retire H q ''DISCONNECTED'' False True) (\<lambda>_.
     mbind (mget (entry_failure epoch)) (\<lambda>failure. case failure of
         Some code \<Rightarrow> mret (Leave_Refused code)
       | None \<Rightarrow> mbind (publish H DORMANT) (\<lambda>_. mret (Leaving epoch p)))))))" (is "keeps K {} ?rest")
    by (intro keeps_mbind keeps_mget) (auto split: option.split intro!: keeps_mbind page)
  note rest = keepsD [OF this]
  have step: "step_ok K {} s (f s)" for s by (rule quiet_step) (simp_all add: f_def clear_connection_def gone_ok_def)
  have "api_ok K s t" if h: "mbind (mstate f) (\<lambda>_. ?rest) s = Some (y, t)" for s y t
  proof (rule bumped_api [of _ s f])
    show "step_ok K {} v t" if "v = f s" for v using rest [of v y t] h that by simp
  qed (use step in \<open>simp_all add: f_def clear_connection_def\<close>)
  then have "apis K (mbind (mstate f) (\<lambda>_. ?rest))" by (simp add: apis_def)
  then show ?thesis unfolding disconnect_def f_def [symmetric, abs_def]
    by (rule apis_mbind [OF apis_mget apis_if [OF apis_mret]])
qed

definition halt_op :: "nat \<Rightarrow> client \<Rightarrow> client" where
  "halt_op p s = emit (Settled p (Rejected ''DESTROYED'')) ((on_op p (is_live_update (\<lambda>_. False)) s)\<lparr>current_op := None\<rparr>)"

definition shut :: "nat \<Rightarrow> client \<Rightarrow> client" where
  \<comment> \<open>the fields \<open>#destroyNow\<close> resets\<close>
  "shut g s = (clear_connection s)\<lparr>destroyed := True, generation := g, current_op := None,
     storage_open := False, storage_listening := False, page_listeners := [], operations := (\<lambda>p. no_timers (operations s p))\<rparr>"

lemma no_timers_wiped: "no_timers (wiped x) = wiped (no_timers x)"
  by (simp add: no_timers_def wiped_def clear_operation_timers_def)

lemma no_timers_simps [simp]:
  "is_live (no_timers x) = is_live x" "cleanup_finished (no_timers x) = cleanup_finished x" "revocable (no_timers x) = revocable x"
  "op_verifier (no_timers x) = op_verifier x" "op_state (no_timers x) = op_state x" "op_transaction_id (no_timers x) = op_transaction_id x"
  "op_ok K p es (no_timers x) = op_ok K p es x"
  by (simp_all add: no_timers_def revocable_def op_ok_def live_ok_def secrets_gone_def verifier_bytes_def)

lemma no_timers_no_pending [simp]: "no_timers no_pending = no_pending"
  by (simp add: no_timers_def no_pending_def)

lemma no_timers_live: "no_timers (is_live_update f x) = is_live_update f (no_timers x)"
  by (simp add: no_timers_def)

lemma no_timers_upd: "(\<lambda>q. no_timers (g q))(p := no_timers x) = (\<lambda>q. no_timers ((g(p := x)) q))"
  by auto

lemma shut_commutes:
  "emit e (shut g s) = shut g (emit e s)" "send_cancel p (shut g s) = shut g (send_cancel p s)"
  "finish_cleanup p (shut g s) = shut g (finish_cleanup p s)"
  "emit (Settled p (Rejected ''DESTROYED'')) (on_op p (is_live_update (\<lambda>_. False)) (shut g s)) = shut g (halt_op p s)"
  by (simp_all add: shut_def send_cancel_def Let_def finish_cleanup_def clear_connection_def on_op_def emit_def halt_op_def
      no_timers_wiped [symmetric] no_timers_live [symmetric] no_timers_upd del: fun_upd_apply)

lemma shut_folds:
  "fold send_cancel ps (shut g s) = shut g (fold send_cancel ps s)"
  "fold finish_cleanup ps (shut g s) = shut g (fold finish_cleanup ps s)"
  "fold (\<lambda>p s. emit (Settled p (Rejected ''DESTROYED'')) (on_op p (is_live_update (\<lambda>_. False)) s)) ps (shut g s) = shut g (fold halt_op ps s)"
  by (induction ps arbitrary: s) (simp_all add: shut_commutes)

lemma halt_step:
  assumes c: "client_sound K s" and p: "current_op s = Some p"
  shows "client_sound K (halt_op p s)" "frame {p} s (halt_op p s)" "current_op (halt_op p s) = None" "retired (halt_op p s) = retired s"
    "next_op (halt_op p s) = next_op s" "settlements p (effects (halt_op p s)) \<noteq> []" "destroy_called (halt_op p s) = destroy_called s"
proof -
  let ?a = "(on_op p (is_live_update (\<lambda>_. False)) s)\<lparr>current_op := None\<rparr>"
  have b: "p < next_op s" by (rule current_bound [OF c p])
  have live: "is_live (operations s p)" using client_soundD(3) [OF c] p by blast
  have ok: "op_ok K p (effects s) (is_live_update (\<lambda>_. False) (operations s p))"
    using client_soundD(1) [OF c b] by (auto simp: op_ok_def secrets_gone_def)
  have "client_sound K ?a" using c p b ok client_soundD(3) [OF c]
    by (auto simp: client_sound_def core_ok_def retired_ok_def gone_ok_def)
  moreover have "frame {p} s ?a" using live p by (auto simp: frame_def dangling_def)
  moreover have "settlements p (effects s) = []" using live_okD [OF c live] by (simp add: live_ok_def)
  ultimately show "client_sound K (halt_op p s)" "frame {p} s (halt_op p s)"
    unfolding halt_op_def using settle_step [of K ?a p "Rejected ''DESTROYED''"] b frame_trans by auto
qed (simp_all add: halt_op_def)

lemma cancels_step:
  assumes c: "client_sound K s" and ps: "\<forall>p \<in> set ps. p < next_op s \<and> \<not> is_live (operations s p) \<and> revocable (operations s p)"
  shows "step_ok K {} s (fold send_cancel ps s) \<and> operations (fold send_cancel ps s) = operations s
     \<and> retired (fold send_cancel ps s) = retired s \<and> held (fold send_cancel ps s) = held s \<and> destroy_called (fold send_cancel ps s) = destroy_called s"
  using assms
proof (induction ps arbitrary: s)
  case (Cons p ps)
  have 1: "step_ok K {} s (send_cancel p s)" using Cons.prems by (intro send_cancel_step) auto
  have fields: "operations (send_cancel p s) = operations s" "retired (send_cancel p s) = retired s" "next_op (send_cancel p s) = next_op s"
      "destroy_called (send_cancel p s) = destroy_called s"
    by (simp_all add: send_cancel_def Let_def)
  have "client_sound K (send_cancel p s)" using 1 Cons.prems(1) by (simp add: step_ok_def)
  from Cons.IH [OF this] show ?case using Cons.prems(2) fields step_ok_trans [OF 1] by simp
qed simp

lemma finishes_step:
  assumes c: "client_sound K s" and ps: "\<forall>p \<in> set ps. p < next_op s \<and> \<not> is_live (operations s p)"
  shows "step_ok K {} s (fold finish_cleanup ps s) \<and> set (retired (fold finish_cleanup ps s)) \<subseteq> set (retired s) - set ps
     \<and> held (fold finish_cleanup ps s) = held s \<and> destroy_called (fold finish_cleanup ps s) = destroy_called s
     \<and> (\<forall>p. cleanup_finished (operations s p) \<or> p \<in> set ps \<longrightarrow> cleanup_finished (operations (fold finish_cleanup ps s) p))"
  using assms
proof (induction ps arbitrary: s)
  case (Cons p ps)
  let ?t = "finish_cleanup p s"
  have 1: "step_ok K {} s ?t" using Cons.prems by (intro finish_step) auto
  have r: "set (retired ?t) \<subseteq> set (retired s) - {p}"
    using client_soundD(4) [OF Cons.prems(1)] by (auto simp: finish_cleanup_retired retired_ok_def)
  have f: "cleanup_finished (operations ?t q)" if "cleanup_finished (operations s q) \<or> q = p" for q
    using that by (cases "q = p") auto
  have "client_sound K ?t" using 1 Cons.prems(1) by (simp add: step_ok_def)
  from Cons.IH [OF this] have IH: "step_ok K {} ?t (fold finish_cleanup ps ?t) \<and> set (retired (fold finish_cleanup ps ?t)) \<subseteq> set (retired ?t) - set ps
     \<and> held (fold finish_cleanup ps ?t) = held ?t \<and> destroy_called (fold finish_cleanup ps ?t) = destroy_called ?t
     \<and> (\<forall>p. cleanup_finished (operations ?t p) \<or> p \<in> set ps \<longrightarrow> cleanup_finished (operations (fold finish_cleanup ps ?t) p))"
    using Cons.prems(2) by simp
  then show ?case using r f step_ok_trans [OF 1] by auto
qed simp

lemma shut_step:
  assumes c: "client_sound K s" and idle: "current_op s = None" "retired s = []" "destroy_called s"
  shows "client_sound K (shut g s)" "frame {} s (shut g s)"
  using assms client_soundD(2,3) [OF c]
  by (auto simp: client_sound_def core_ok_def retired_ok_def gone_ok_def shut_def clear_connection_def frame_def dangling_def)

lemma shut_fields [simp]: "effects (shut g s) = effects s" "operations (shut g s) p = no_timers (operations s p)"
  by (simp_all add: shut_def clear_connection_def)

lemma frame_closes: "frame X s t \<Longrightarrow> \<forall>p \<in> X. p \<notin> dangling t \<and> p < next_op s \<and> is_live (operations s p) \<and> \<not> is_live (operations t p) \<Longrightarrow> frame {} s t"
  by (auto simp: frame_def)

lemma shutdown_step:
  assumes c: "client_sound K s" and called: "destroy_called s"
  defines "running \<equiv> (case current_op s of None \<Rightarrow> [] | Some p \<Rightarrow> [p])"
  defines "s1 \<equiv> fold halt_op running s"
  defines "s3 \<equiv> fold finish_cleanup (running @ retired s) (fold send_cancel (filter (\<lambda>p. revocable (operations s1 p)) (running @ retired s)) s1)"
  shows "step_ok K {} s (shut g s3)"
proof -
  let ?X = "set running"
  have 1: "client_sound K s1 \<and> frame ?X s s1 \<and> current_op s1 = None \<and> retired s1 = retired s \<and> next_op s1 = next_op s
      \<and> destroy_called s1 \<and> (\<forall>p \<in> ?X. settlements p (effects s1) \<noteq> [])"
  proof (cases "current_op s")
    case None
    then show ?thesis using c called by (simp add: s1_def running_def)
  next
    case (Some p)
    then show ?thesis using halt_step [OF c Some] called by (simp add: s1_def running_def)
  qed
  have dead: "\<not> is_live (operations s1 p)" for p using 1 client_soundD(3) by auto
  have bound: "\<forall>p \<in> set (running @ retired s). p < next_op s1"
    using 1 client_soundD(4) [OF c] current_bound [OF c] by (auto simp: running_def retired_ok_def split: option.splits)
  define s2 where "s2 = fold send_cancel (filter (\<lambda>p. revocable (operations s1 p)) (running @ retired s)) s1"
  have 2: "step_ok K {} s1 s2 \<and> operations s2 = operations s1 \<and> retired s2 = retired s1 \<and> held s2 = held s1 \<and> destroy_called s2 = destroy_called s1"
    unfolding s2_def by (rule cancels_step) (use 1 dead bound in auto)
  have c2: "client_sound K s2" "frame {} s1 s2" using 1 2 by (auto simp: step_ok_def)
  have 3: "step_ok K {} s2 s3 \<and> set (retired s3) \<subseteq> set (retired s2) - set (running @ retired s) \<and> held s3 = held s2
      \<and> destroy_called s3 = destroy_called s2
      \<and> (\<forall>p. cleanup_finished (operations s2 p) \<or> p \<in> set (running @ retired s) \<longrightarrow> cleanup_finished (operations s3 p))"
    unfolding s3_def s2_def [symmetric] by (rule finishes_step [OF c2(1)]) (use 1 2 dead bound in \<open>auto simp: held_def\<close>)
  have c3: "client_sound K s3" "frame {} s2 s3" using 3 c2 by (auto simp: step_ok_def)
  have "p \<notin> set (retired s3)" for p using 1 2 3 by auto
  then have "retired s3 = []" by (cases "retired s3") auto
  then have end3: "retired s3 = []" "current_op s3 = None" "destroy_called s3" using 1 2 3 by (simp_all add: held_def)
  note S = shut_step [OF c3(1) end3(2,1,3)]
  note from1 = frame_trans [OF frame_trans [OF c2(2) c3(2)] S(2), of g]
  have "frame ?X s (shut g s3)" using 1 frame_weaken [OF from1 empty_subsetI] frame_trans by blast
  moreover have "p \<notin> dangling (shut g s3) \<and> p < next_op s \<and> is_live (operations s p) \<and> \<not> is_live (operations (shut g s3) p)" if "p \<in> ?X" for p
  proof -
    have cur: "current_op s = Some p" using that by (auto simp: running_def split: option.splits)
    have b: "p < next_op s1" using bound that by auto
    have "settlements p (effects (shut g s3)) = settlements p (effects s1)" "\<not> is_live (operations (shut g s3) p)"
      using settlements_kept [OF from1 b _ dead] by auto
    moreover have "cleanup_finished (operations (shut g s3) p)" using 3 that by auto
    moreover have "settlements p (effects s1) \<noteq> []" using 1 that by blast
    ultimately show ?thesis using current_bound [OF c cur] client_soundD(3) [OF c, of p] cur by (auto simp: dangling_def)
  qed
  ultimately have "frame {} s (shut g s3)" using frame_closes by blast
  then show ?thesis using S(1) by (simp add: step_ok_def)
qed

lemma destroy_now_step:
  assumes page: "stays_in (api_ok K) H" and called: "destroy_called s" and h: "destroy_now H s = Some (x, t)"
  shows "step_ok K {} s t"
proof (cases "client_sound K s")
  case True
  let ?c = "case current_op s of None \<Rightarrow> [] | Some p \<Rightarrow> [p]"
  have shut: "(clear_connection s)\<lparr>destroyed := True, generation := Suc (generation s), current_op := None,
       storage_open := False, storage_listening := False, page_listeners := [], operations := (\<lambda>p. no_timers (operations s p))\<rparr> = shut (Suc (generation s)) s"
    by (simp add: shut_def)
  from h have "publish H (show_failed ''DESTROYED'') (shut (Suc (generation s)) (fold finish_cleanup (?c @ retired s)
      (fold send_cancel (filter (\<lambda>p. revocable (operations (fold halt_op ?c s) p)) (?c @ retired s)) (fold halt_op ?c s)))) = Some (x, t)"
    by (simp only: destroy_now_def mbind_run split_conv shut shut_folds shut_fields no_timers_simps fst_conv snd_conv)
  then show ?thesis using publish_api [OF page] api_ok_step shutdown_step [OF True called] step_ok_trans by blast
qed (simp add: step_ok_def)

lemma destroy_api:
  assumes page: "stays_in (api_ok K) H"
  shows "apis K (destroy H)"
proof -
  have "api_ok K s t" if h: "mbind (mstate (\<lambda>s. s\<lparr>destroy_called := True, entry_epoch := Suc (entry_epoch s)\<rparr>)) (\<lambda>_. destroy_now H) s = Some (x, t)"
    for s x t
  proof (rule bumped_api [of _ s "\<lambda>s. s\<lparr>destroy_called := True, entry_epoch := Suc (entry_epoch s)\<rparr>"])
    show "step_ok K {} v t" if "v = s\<lparr>destroy_called := True, entry_epoch := Suc (entry_epoch s)\<rparr>" for v
      using destroy_now_step [OF page, of v] h that by simp
    show "step_ok K {} s (s\<lparr>destroy_called := True, entry_epoch := Suc (entry_epoch s)\<rparr>)"
      by (rule quiet_step) (simp_all add: gone_ok_def)
  qed simp
  then have "apis K (mbind (mstate (\<lambda>s. s\<lparr>destroy_called := True, entry_epoch := Suc (entry_epoch s)\<rparr>)) (\<lambda>_. destroy_now H))"
    by (simp add: apis_def)
  then show ?thesis unfolding destroy_def by (rule apis_mbind [OF apis_mget apis_if [OF apis_mret]])
qed

lemma snapshot_api [intro]: "stays_in (api_ok K) H \<Longrightarrow> apis K (get_snapshot H)"
  unfolding get_snapshot_def by blast

lemma subscribe_api:
  assumes page: "stays_in (api_ok K) H"
  shows "apis K (subscribe H l)"
proof -
  have heard: "apis K (\<lambda>s. map_option (Pair None) (hear H l v s))" for v
    using page by (auto simp: apis_def stays_in_def)
  have added: "api_ok K s (s\<lparr>page_listeners := ls\<rparr>)" if "\<not> destroyed s" for s ls
    using that by (intro api_ok_quiet) (simp_all add: gone_ok_def)
  have rest: "apis K (mbind (get_snapshot H) (\<lambda>v s. map_option (Pair None) (hear H l v s)))" using heard page by blast
  show ?thesis unfolding apis_def
  proof (intro allI impI)
    fix s x t assume h: "subscribe H l s = Some (x, t)"
    show "api_ok K s t"
    proof (cases "destroyed s")
      case True
      then show ?thesis using h by (simp add: subscribe_def)
    next
      case False
      then show ?thesis using h api_ok_trans [OF added apisD [OF rest]] by (simp add: subscribe_def)
    qed
  qed
qed

lemma call_api_ok:
  assumes page: "stays_in (api_ok K) H" and h: "call_api K H c s = Some t"
  shows "api_ok K s t"
proof -
  have "api_ok K s t" if "apis K m" "map_option snd (require_no_arguments n r m s) = Some t" for m n and r :: 'a
    using that apisD by (auto simp: require_no_arguments_def split: if_splits)
  note no_args = this
  have "api_ok K s (unsubscribe l s)" for l by (rule api_ok_quiet) (simp_all add: unsubscribe_def gone_ok_def)
  then show ?thesis using h page
    by (cases c) (auto simp: require_no_arguments_def split: if_splits
        intro: apisD [OF execute_api] apisD [OF disconnect_api] apisD [OF destroy_api] apisD [OF snapshot_api] apisD [OF subscribe_api])
qed

theorem api_sound: "api K s t \<Longrightarrow> api_ok K s t"
proof (induction rule: api.induct)
  case (api_call s t H c u)
  have "stays_in (api_ok K) H" using api_call by (auto simp: stays_in_def)
  then show ?case using call_api_ok api_call api_ok_trans by blast
qed simp

lemma host_sound: "stays_in (api K) H \<Longrightarrow> stays_in (api_ok K) H"
  using api_sound unfolding stays_in_def by blast

subsection \<open>The asynchronous parts\<close>

definition advances :: "client_config \<Rightarrow> client \<Rightarrow> client \<Rightarrow> bool" where
  "advances K s t \<longleftrightarrow> (client_sound K s \<longrightarrow> client_sound K t \<and> dangling t \<subseteq> dangling s \<and> next_op s \<le> next_op t \<and> (destroyed s \<longrightarrow> destroyed t))"

lemma advances_refl [simp]: "advances K s s"
  by (simp add: advances_def)

lemma advances_trans:
  assumes a: "advances K s t" and b: "advances K t u"
  shows "advances K s u"
  unfolding advances_def
proof
  assume c: "client_sound K s"
  have t: "client_sound K t" "dangling t \<subseteq> dangling s" "next_op s \<le> next_op t" "destroyed s \<longrightarrow> destroyed t"
    using a c by (simp_all add: advances_def)
  have u: "client_sound K u" "dangling u \<subseteq> dangling t" "next_op t \<le> next_op u" "destroyed t \<longrightarrow> destroyed u"
    using b t(1) by (simp_all add: advances_def)
  show "client_sound K u \<and> dangling u \<subseteq> dangling s \<and> next_op s \<le> next_op u \<and> (destroyed s \<longrightarrow> destroyed u)"
    using u(1) subset_trans [OF u(2) t(2)] le_trans [OF t(3) u(3)] t(4) u(4) by simp
qed

lemma step_advances:
  assumes "step_ok K {} s t"
  shows "advances K s t"
  unfolding advances_def
proof
  assume "client_sound K s"
  then have c: "client_sound K t" and f: "frame {} s t" using assms by (simp_all add: step_ok_def)
  show "client_sound K t \<and> dangling t \<subseteq> dangling s \<and> next_op s \<le> next_op t \<and> (destroyed s \<longrightarrow> destroyed t)"
    using c frameD(2) [OF f] frameD(3) [OF f] frameD(8) [OF f] by simp
qed

lemma keeps_advances: "keeps K {} m \<Longrightarrow> m s = Some (x, t) \<Longrightarrow> advances K s t"
  by (rule step_advances) (rule keepsD)

lemma op_advances:
  assumes "client_sound K s \<Longrightarrow> p < next_op s \<and> op_ok K p (effects s) (f (operations s p))"
    and "is_live (f (operations s p)) = is_live (operations s p)" "cleanup_finished (f (operations s p)) = cleanup_finished (operations s p)"
    "op_generation (f (operations s p)) = op_generation (operations s p)"
  shows "advances K s (on_op p f s)"
proof -
  have "step_ok K {p} s (on_op p f s)" by (rule op_step) (use assms in auto)
  moreover have "dangling (on_op p f s) = dangling s" using assms(2,3) by (auto simp: dangling_def)
  ultimately show ?thesis by (auto simp: advances_def step_ok_def)
qed

lemma fetch_advances:
  assumes "client_sound K s \<Longrightarrow> p < next_op s \<and> op_ok K p (effects s @ [Fetch p u b]) (f (operations s p))"
    and "is_live (f (operations s p)) = is_live (operations s p)" "cleanup_finished (f (operations s p)) = cleanup_finished (operations s p)"
    "op_generation (f (operations s p)) = op_generation (operations s p)"
  shows "advances K s (emit (Fetch p u b) (on_op p f s))"
proof -
  have "step_ok K {p} s (emit (Fetch p u b) (on_op p f s))" by (rule fetch_step) (use assms in auto)
  moreover have "dangling (emit (Fetch p u b) (on_op p f s)) = dangling s" using assms(2,3) by (auto simp: dangling_def)
  ultimately show ?thesis by (auto simp: advances_def step_ok_def)
qed

lemma sound_advances: "advances K s t \<Longrightarrow> client_sound K s \<Longrightarrow> client_sound K t"
  by (simp add: advances_def)

lemma op_okD:
  assumes "client_sound K s" "p < next_op s"
  shows "op_ok K p (effects s) (operations s p)" using client_soundD(1) [OF assms] .

lemma finish_advances: "p < next_op s \<Longrightarrow> \<not> is_live (operations s p) \<Longrightarrow> advances K s (finish_cleanup p s)"
  by (intro step_advances finish_step)

lemma ensure_advances: "p < next_op s \<Longrightarrow> \<not> is_live (operations s p) \<Longrightarrow> advances K s (ensure_cleanup p s)"
  by (intro step_advances ensure_cleanup_step)

lemma fail_advances: "stays_in (api_ok K) H \<Longrightarrow> fail_active H p code cleanup s = Some (x, t) \<Longrightarrow> advances K s t"
  by (rule keeps_advances [OF keeps_fail_active])

subsubsection \<open>Registering\<close>

lemma end_register_advances: "p < next_op s \<Longrightarrow> advances K s (end_register p s)"
  unfolding end_register_def by (rule op_advances) (auto dest!: client_soundD(1) [of K s p] simp: op_ok_def live_ok_def verifier_bytes_def secrets_gone_def)

lemma register_throws_advances:
  assumes page: "stays_in (api_ok K) H" and p: "p < next_op s" and h: "register_throws H p thrown s = Some (x, t)"
  shows "advances K s t"
proof -
  let ?u = "end_register p s"
  note 1 = end_register_advances [OF p, of K]
  have p': "p < next_op ?u" using p by (simp add: end_register_def)
  have "advances K ?u t"
  proof (cases "is_live (operations ?u p)")
    case False
    then have "t = clean_up p ?u" using h by (simp add: register_throws_def)
    then show ?thesis using False p' by (simp add: clean_up_def finish_advances ensure_advances)
  next
    case True
    then show ?thesis using h fail_advances [OF page] by (simp add: register_throws_def)
  qed
  then show ?thesis by (rule advances_trans [OF 1])
qed

lemma seal_advances:
  assumes page: "stays_in (api_ok K) H" and p: "p < next_op s" and at: "register_task (operations s p) = At_Seal"
    and h: "seal_settles H p r s = Some (x, t)"
  shows "advances K s t"
proof (cases r)
  case (Inl thrown)
  then show ?thesis using h register_throws_advances [OF page p] by (simp add: seal_settles_def)
next
  case (Inr request)
  have "advances K s (on_op p (\<lambda>x. x\<lparr>op_request := request, opens_result := True, register_task := At_Digest (verifier_bytes x)\<rparr>) s)"
    by (rule op_advances) (use p at in \<open>auto dest!: client_soundD(1) [of K s p] simp: op_ok_def live_ok_def verifier_bytes_def secrets_gone_def\<close>)
  then show ?thesis using h Inr by (simp add: seal_settles_def)
qed

lemma digest_advances:
  assumes page: "stays_in (api_ok K) H" and p: "p < next_op s" and at: "register_task (operations s p) = At_Digest bs"
    and c: "client_sound K s" and h: "digest_settles K H p bs ok s = Some (x, t)"
  shows "advances K s t"
proof -
  let ?c = "client_base64url (config_digest K bs)"
  note O = client_soundD(1) [OF c p]
  consider "\<not> ok \<or> \<not> BASE64URL_32 ?c" | "ok" "BASE64URL_32 ?c" "\<not> is_active p s" | "ok" "BASE64URL_32 ?c" "is_active p s" by blast
  then show ?thesis
  proof cases
    case 1
    then show ?thesis using h register_throws_advances [OF page p] by (auto simp: digest_settles_def Let_def split: if_splits)
  next
    case 2
    let ?u = "on_op p (\<lambda>x. x\<lparr>registration_outcome := Not_Started, register_task := Register_Over\<rparr>) s"
    have dead: "\<not> is_live (operations s p)" using 2 live_active [OF c] by blast
    have "advances K s ?u" by (rule op_advances) (use p O in \<open>auto simp: op_ok_def live_ok_def verifier_bytes_def secrets_gone_def\<close>)
    moreover have "advances K ?u (finish_cleanup p ?u)" by (rule finish_advances) (use p dead in auto)
    ultimately show ?thesis using h 2 advances_trans by (auto simp: digest_settles_def Let_def)
  next
    case 3
    let ?x = "operations s p"
    have live: "is_live ?x" using 3 live_active [OF c] by blast
    note L = live_okD [OF c live]
    obtain v where v: "op_verifier ?x = JStr v" using O L by (auto simp: op_ok_def live_ok_def)
    have bs: "bs = utf8_encode v" using L at v by (simp add: live_ok_def verifier_bytes_def)
    have f: "fetches p (effects s) = []" using O at by (auto simp: op_ok_def)
    have st: "settlements p (effects s) = []" "redeem_task ?x = Before_Redeem"
      using L O f by (auto simp: live_ok_def op_ok_def was_redeemed_def)
    have "advances K s (emit (Fetch p TRANSACTIONS_URL (registration_body (config_client_id K) (JStr ?c) (page_operation (the (op_adapter ?x)))
            (op_request ?x) (op_state ?x) (op_transaction_id ?x)))
         (on_op p (\<lambda>x. x\<lparr>op_challenge := JStr ?c, op_phase := Registering, register_task := At_Response\<rparr>) s))"
    proof (rule fetch_advances, intro conjI p)
      have none: "\<not> Settled p r \<in> set (effects s)" for r using st(1) by (simp add: in_settlements [symmetric])
      have E: "exchange K v (op_state ?x) (op_transaction_id ?x) [(TRANSACTIONS_URL, registration_body (config_client_id K)
          (JStr (client_base64url (config_digest K (utf8_encode v)))) (page_operation (the (op_adapter ?x))) (op_request ?x) (op_state ?x)
          (op_transaction_id ?x))]" by (rule exchange_register)
      have EX: "\<exists>w ts ti. exchange K w ts ti [(TRANSACTIONS_URL, registration_body (config_client_id K)
          (JStr (client_base64url (config_digest K (utf8_encode v)))) (page_operation (the (op_adapter ?x))) (op_request ?x) (op_state ?x)
          (op_transaction_id ?x))]" using E by blast
      show "op_ok K p (effects s @ [Fetch p TRANSACTIONS_URL (registration_body (config_client_id K) (JStr ?c) (page_operation (the (op_adapter ?x)))
            (op_request ?x) (op_state ?x) (op_transaction_id ?x))]) (?x\<lparr>op_challenge := JStr ?c, op_phase := Registering, register_task := At_Response\<rparr>)"
        using L f v bs st live none E EX by (auto simp: op_ok_def live_ok_def verifier_bytes_def)
    qed simp_all
    then show ?thesis using h 3 by (simp add: digest_settles_def Let_def)
  qed
qed

lemma registration_fails_advances:
  assumes page: "stays_in (api_ok K) H" and p: "p < next_op s" and h: "registration_fails H p how s = Some (x, t)"
  shows "advances K s t"
proof -
  let ?u = "on_op p (registration_outcome_update (\<lambda>_. how)) s"
  have 1: "advances K s ?u" by (rule op_advances) (use p in \<open>auto dest: client_soundD(1)\<close>)
  obtain v where v: "(if is_live (operations ?u p) then fail_active H p ''RELAY_ERROR'' (how \<noteq> Definitive_Failure)
       else mstate (if how = Definitive_Failure then finish_cleanup p else ensure_cleanup p)) ?u = Some ((), v)"
    and t: "t = on_op p (\<lambda>x. x\<lparr>operation_timer := False, register_task := Register_Over\<rparr>) v"
    using h by (auto simp: registration_fails_def mbind_Some)
  have 2: "advances K ?u v"
  proof (cases "is_live (operations ?u p)")
    case True
    then show ?thesis using v fail_advances [OF page] by simp
  next
    case False
    then show ?thesis using v p by (auto intro: finish_advances ensure_advances split: if_splits)
  qed
  have 3: "advances K v t" if c: "client_sound K s"
    unfolding t
  proof (rule op_advances)
    have "p < next_op v" using advances_trans [OF 1 2] c p by (auto simp: advances_def)
    then show "p < next_op v \<and> op_ok K p (effects v) (operations v p\<lparr>operation_timer := False, register_task := Register_Over\<rparr>)"
      if "client_sound K v" using client_soundD(1) [OF that] by (auto simp: op_ok_def live_ok_def verifier_bytes_def secrets_gone_def)
  qed simp_all
  show ?thesis using advances_trans [OF advances_trans [OF 1 2] 3] by (auto simp: advances_def)
qed

lemma registration_answers_advances:
  assumes page: "stays_in (api_ok K) H" and p: "p < next_op s" and at: "register_task (operations s p) = At_Response"
    and h: "registration_answers H p answer s = Some (x, t)"
  shows "advances K s t"
proof -
  have "advances K s (on_op p (\<lambda>x. x\<lparr>registration_outcome := Ambiguous, register_task := At_Body r\<rparr>) s)" for r
    by (rule op_advances) (use p at in \<open>auto dest!: client_soundD(1) [of K s p] simp: op_ok_def live_ok_def verifier_bytes_def secrets_gone_def\<close>)
  then show ?thesis using h registration_fails_advances [OF page p]
    by (auto simp: registration_answers_def split: option.splits if_splits)
qed

subsubsection \<open>Redeeming\<close>

lemma redeem_ok:
  assumes O: "op_ok K p es x" and L: "live_ok (fetches p es) (settlements p es) x" "is_live x" "op_phase x = Waiting_Callback"
  shows "op_ok K p (es @ [Fetch p REDEEM_URL (redeem_body code (op_verifier x) (op_state x) (op_transaction_id x))])
    (x\<lparr>op_phase := Redeeming, poll_timer := False, redeem_task := At_Redeem_Response\<rparr>)"
proof -
  obtain v where v: "op_verifier x = JStr v" "exchange K v (op_state x) (op_transaction_id x) (fetches p es)"
    using O L by (auto simp: op_ok_def live_ok_def)
  have "length (fetches p es) = 1" using L by (cases "fetches p es") (auto simp: live_ok_def)
  note E = exchange_redeem [OF v(2) this, of code]
  have EX: "\<exists>w ts ti. exchange K w ts ti (fetches p es @ [(REDEEM_URL, redeem_body code (JStr v) (op_state x) (op_transaction_id x))])"
    using E by blast
  have r: "was_redeemed p (es @ [Fetch p REDEEM_URL b])" for b by (simp add: was_redeemed_def)
  have task: "register_task x \<noteq> At_Response" "\<forall>r. register_task x \<noteq> At_Body r" "register_task x \<noteq> At_Seal" "\<forall>bs. register_task x \<noteq> At_Digest bs"
    using O L by (auto simp: op_ok_def live_ok_def)
  show ?thesis using O L v(1) E EX r task by (simp add: op_ok_def live_ok_def verifier_bytes_def secrets_gone_def)
qed

lemma consume_advances:
  assumes page: "stays_in (api_ok K) H" and h: "consume_callback H p evidence s = Some (x, t)"
  shows "advances K s t"
proof (cases "client_sound K s \<and> is_active p s \<and> op_phase (operations s p) = Waiting_Callback \<and> storage_open s \<and> \<not> callback_busy (operations s p)")
  case False
  then show ?thesis using h by (auto simp: consume_callback_def Let_def advances_def)
next
  case True
  then have c: "client_sound K s" and live: "is_live (operations s p)" and ph: "op_phase (operations s p) = Waiting_Callback"
    using live_active by blast+
  have p: "p < next_op s" by (rule live_bound [OF c live])
  let ?x = "operations s p"
  show ?thesis
  proof (cases "\<exists>contents. stored_item H = Some (Some contents)")
    case False
    then show ?thesis using h True fail_advances [OF page]
      by (auto simp: consume_callback_def mwhen_def split: option.splits if_splits)
  next
    case busy: True
    then obtain contents where item: "stored_item H = Some (Some contents)" by blast
    define a where "a = on_op p (callback_busy_update (\<lambda>_. True)) s"
    define b where "b = (if removes_item H then emit (Removed (callback_key ?x)) else id) a"
    have A: "advances K s a" unfolding a_def by (rule op_advances) (use p c in \<open>auto dest: client_soundD(1)\<close>)
    have B: "advances K a b" unfolding b_def by (auto intro!: step_advances page_effect)
    have bx: "operations b p = ?x\<lparr>callback_busy := True\<rparr>" "next_op b = next_op s" by (simp_all add: a_def b_def)
    from h True item obtain u where u: "call_page H Removing_Record b = Some ((), u)"
      and r: "(case callback_record contents (op_state ?x) (now_at H Record_Time) of
           Inl _ \<Rightarrow> fail_active H p ''CALLBACK_ERROR'' True
         | Inr code \<Rightarrow>
             if \<not> removes_item H then fail_active H p ''CALLBACK_ERROR'' True
             else mbind (mget (is_active p)) (\<lambda>active. mwhen active (mstate (\<lambda>s.
               emit (Fetch p REDEEM_URL (redeem_body code (op_verifier ?x) (op_state ?x) (op_transaction_id ?x)))
               (on_op p (\<lambda>x. x\<lparr>op_phase := Redeeming, poll_timer := False, redeem_task := At_Redeem_Response\<rparr>) s))))) u = Some (x, t)"
      by (auto simp: consume_callback_def mbind_Some a_def b_def)
    have su: "step_ok K {} b u" using call_page_ok [OF page u] by (simp add: api_ok_def)
    have cb: "client_sound K b" using sound_advances [OF B sound_advances [OF A c]] .
    then have cu: "client_sound K u" "frame {} b u" using su by (simp_all add: step_ok_def)
    have U: "advances K s u" using advances_trans [OF advances_trans [OF A B] step_advances [OF su]] .
    have "advances K u t"
    proof (cases "\<exists>code. callback_record contents (op_state ?x) (now_at H Record_Time) = Inr code \<and> removes_item H \<and> is_active p u")
      case False
      then show ?thesis using r fail_advances [OF page] by (auto simp: mwhen_def split: sum.splits if_splits)
    next
      case True
      then obtain code where code: "callback_record contents (op_state ?x) (now_at H Record_Time) = Inr code" "removes_item H" "is_active p u" by blast
      have lu: "is_live (operations u p)" using code(3) live_active [OF cu(1)] by blast
      have ux: "operations u p = ?x\<lparr>callback_busy := True\<rparr>" using frameD(7) [OF cu(2)] lu p bx by simp
      have t: "t = emit (Fetch p REDEEM_URL (redeem_body code (op_verifier (operations u p)) (op_state (operations u p)) (op_transaction_id (operations u p))))
          (on_op p (\<lambda>x. x\<lparr>op_phase := Redeeming, poll_timer := False, redeem_task := At_Redeem_Response\<rparr>) u)"
        using r code by (simp add: ux mwhen_def)
      have pu: "p < next_op u" by (rule live_bound [OF cu(1) lu])
      have "op_phase (operations u p) = Waiting_Callback" using ux ph by simp
      note R = redeem_ok [OF client_soundD(1) [OF cu(1) pu] live_okD [OF cu(1) lu] lu this]
      show ?thesis unfolding t by (rule fetch_advances) (use R pu in simp_all)
    qed
    then show ?thesis by (rule advances_trans [OF U])
  qed
qed

lemma registration_read_advances:
  assumes page: "stays_in (api_ok K) H" and p: "p < next_op s" and at: "register_task (operations s p) = At_Body r" and c: "client_sound K s"
    and h: "registration_read H p contents s = Some (x, t)"
  shows "advances K s t"
proof (cases "rbind contents (registration_reply (op_transaction_id (operations s p)) (now_at H Record_Time))")
  case (Inl e)
  then show ?thesis using h registration_fails_advances [OF page p] by (simp add: registration_read_def)
next
  case (Inr expires)
  let ?f = "\<lambda>x. x\<lparr>operation_timer := False, transaction_expires := Some expires, registration_outcome := Was_Registered, register_task := Register_Over\<rparr>"
  let ?u = "on_op p ?f s"
  have 1: "advances K s ?u"
    by (rule op_advances) (use p c in \<open>auto dest!: client_soundD(1) [of K s p] simp: op_ok_def live_ok_def verifier_bytes_def secrets_gone_def\<close>)
  note cu = sound_advances [OF 1 c]
  have "advances K ?u t"
  proof (cases "is_active p ?u")
    case False
    then have "\<not> is_live (operations ?u p)" "t = ensure_cleanup p ?u" using live_active [OF cu] h Inr by (auto simp: registration_read_def)
    then show ?thesis using p by (auto intro: ensure_advances)
  next
    case True
    let ?g = "\<lambda>x. x\<lparr>op_phase := Waiting_Callback, expiry_timer := True, poll_timer := True\<rparr>"
    have live: "is_live (operations s p)" using True live_active [OF cu] by simp
    have 2: "advances K ?u (on_op p ?g ?u)"
      by (rule op_advances) (use p live_okD [OF c live] at client_soundD(1) [OF c p] in
        \<open>auto simp: op_ok_def live_ok_def verifier_bytes_def secrets_gone_def\<close>)
    have "advances K (on_op p ?g ?u) t" using h Inr True consume_advances [OF page] by (simp add: registration_read_def)
    then show ?thesis by (rule advances_trans [OF 2])
  qed
  then show ?thesis by (rule advances_trans [OF 1])
qed

lemma complete_advances:
  assumes page: "stays_in (api_ok K) H" and c: "client_sound K s" and redeemed: "was_redeemed p (effects s)"
    and h: "complete_op H p v s = Some (x, t)"
  shows "advances K s t"
proof (cases "is_active p s \<and> x = None")
  case False
  then have "t = s" using h by (cases "is_active p s") (auto simp: complete_op_def Let_def mbind_Some split: sum.splits)
  then show ?thesis by simp
next
  case True
  then have live: "is_live (operations s p)" using live_active [OF c] by blast
  let ?x = "operations s p"
  define a where "a = deactivate p s"
  have "a = (deactivate p s)\<lparr>generation := generation s\<rparr>" by (simp add: a_def deactivate_def on_op_def)
  note A = deactivate_ok [OF c live this]
  from h True obtain prepared u where u: "(case prepared of
               Some c \<Rightarrow> install_connection H c
             | None \<Rightarrow> if page_kind (the (op_adapter ?x)) = Account_Kind then mbind (mstate clear_connection) (\<lambda>_. publish H DORMANT)
                 else restore_prior_connection H (prior_connection ?x)) a = Some ((), u)"
    and t: "t = finish_cleanup p (emit (Settled p (Resolved (case page_kind (the (op_adapter ?x)) of
        Connect_Kind \<Rightarrow> clone_frozen (fld v ''identity'') | Account_Kind \<Rightarrow> JUndefined | Typed_Kind \<Rightarrow> v))) u)"
    by (auto simp: complete_op_def Let_def mbind_Some a_def split: sum.splits)
  have alive: "\<not> destroyed a" using A(6) live_not_destroyed [OF c live] by simp
  have q: "step_ok K {} a (f a)" if "\<And>s. operations (f s) = operations s \<and> current_op (f s) = current_op s \<and> next_op (f s) = next_op s
      \<and> retired (f s) = retired s \<and> generation (f s) = generation s \<and> effects (f s) = effects s \<and> entry_epoch (f s) = entry_epoch s \<and> destroyed (f s) = destroyed s" for f
    by (rule quiet_step) (use that [of a] alive in \<open>simp_all add: gone_ok_def\<close>)
  have pub: "publish H w b = Some ((), u) \<Longrightarrow> step_ok K {} b u" for w b using keepsD [OF keeps_publish [OF page]] .
  have "step_ok K {} a u"
  proof (cases prepared)
    case (Some d)
    then show ?thesis using u pub step_ok_trans [OF q [of "\<lambda>s. (clear_connection s)\<lparr>connection := Some d, connection_timer := Some d\<rparr>"]]
      by (simp add: install_connection_def clear_connection_def)
  next
    case None
    show ?thesis
    proof (cases "page_kind (the (op_adapter ?x)) = Account_Kind")
      case True
      then show ?thesis using u None pub step_ok_trans [OF q [of clear_connection]] by (simp add: clear_connection_def)
    next
      case False
      show ?thesis
      proof (cases "live_connection (prior_connection ?x) (now_at H Restore_Time)")
        case no: None
        then show ?thesis using u None False pub step_ok_trans [OF q [of clear_connection]]
          by (simp add: restore_prior_connection_def clear_connection_def)
      next
        case (Some d)
        then show ?thesis using u None False pub step_ok_trans [OF q [of "\<lambda>s. s\<lparr>connection := Some d\<rparr>"]]
          by (simp add: restore_prior_connection_def)
      qed
    qed
  qed
  then have U: "client_sound K u" "frame {} a u" using A(1) by (auto simp: step_ok_def)
  have bound: "p < next_op a" using live_bound [OF c live] A(8) by simp
  have pu: "\<not> is_live (operations u p)" "p < next_op u" "settlements p (effects u) = []"
    using settlements_kept [OF U(2) bound _ A(4)] A(5) by auto
  have ru: "was_redeemed p (effects u)" using redeemed_kept [OF U(2)] redeemed A(10) by simp
  let ?e = "emit (Settled p (Resolved (case page_kind (the (op_adapter ?x)) of
        Connect_Kind \<Rightarrow> clone_frozen (fld v ''identity'') | Account_Kind \<Rightarrow> JUndefined | Typed_Kind \<Rightarrow> v))) u"
  have E: "client_sound K ?e" "frame {p} u ?e" by (rule settle_step [OF U(1) pu(2,1,3) ru])+
  have F: "step_ok K {} ?e t" unfolding t by (rule finish_step) (use pu in auto)
  then have T: "client_sound K t" "frame {} ?e t" using E(1) by (auto simp: step_ok_def)
  have fr: "frame {p} s t"
    by (rule frame_trans [OF frame_trans [OF frame_trans [OF A(2) frame_weaken [OF U(2) empty_subsetI]] E(2)] frame_weaken [OF T(2) empty_subsetI]])
  have "\<not> is_live (operations t p)" "p \<notin> dangling t" using pu by (simp_all add: t dangling_def)
  then have "frame {} s t" using fr live by (blast intro: frame_close)
  then show ?thesis using T(1) by (intro step_advances) (simp add: step_ok_def)
qed

lemma redeem_task_ok: "op_ok K p es x \<Longrightarrow> redeem_task x \<noteq> Before_Redeem \<Longrightarrow> op_ok K p es (redeem_task_update (\<lambda>_. r) x) \<and> was_redeemed p es"
  by (auto simp: op_ok_def live_ok_def verifier_bytes_def secrets_gone_def)

lemma redeem_task_advances: "p < next_op s \<Longrightarrow> redeem_task (operations s p) \<noteq> Before_Redeem \<Longrightarrow> advances K s (on_op p (redeem_task_update (\<lambda>_. r)) s)"
  by (rule op_advances) (auto dest: client_soundD(1) redeem_task_ok)

lemma redeem_throws_advances:
  assumes page: "stays_in (api_ok K) H" and p: "p < next_op s" and at: "redeem_task (operations s p) \<noteq> Before_Redeem"
    and h: "redeem_throws H p code s = Some (x, t)"
  shows "advances K s t"
proof -
  have "fail_active H p code True (on_op p (redeem_task_update (\<lambda>_. Redeem_Over)) s) = Some (x, t)"
    using h by (simp add: redeem_throws_def)
  then show ?thesis by (rule advances_trans [OF redeem_task_advances [OF p at] fail_advances [OF page]])
qed

lemma result_ready_advances:
  assumes page: "stays_in (api_ok K) H" and p: "p < next_op s" and at: "redeem_task (operations s p) \<noteq> Before_Redeem" and c: "client_sound K s"
    and h: "result_ready H p v s = Some (x, t)"
  shows "advances K s t"
proof -
  let ?u = "on_op p (redeem_task_update (\<lambda>_. Redeem_Over)) s"
  note 1 = redeem_task_advances [OF p at, of K Redeem_Over]
  from h obtain r w where w: "complete_op H p v ?u = Some (r, w)"
    and t: "(case r of None \<Rightarrow> mret () | Some code \<Rightarrow> fail_active H p code True) w = Some (x, t)"
    by (auto simp: result_ready_def mbind_Some)
  have "was_redeemed p (effects ?u)" using client_soundD(1) [OF c p] redeem_task_ok at by simp
  from complete_advances [OF page sound_advances [OF 1 c] this w] have 2: "advances K ?u w" .
  have "advances K w t" using t fail_advances [OF page] by (cases r) auto
  then show ?thesis by (rule advances_trans [OF advances_trans [OF 1 2]])
qed

lemma redeem_answers_advances:
  assumes page: "stays_in (api_ok K) H" and p: "p < next_op s" and at: "redeem_task (operations s p) = At_Redeem_Response"
    and h: "redeem_answers H p answer s = Some (x, t)"
  shows "advances K s t"
proof -
  have n: "redeem_task (operations s p) \<noteq> Before_Redeem" using at by simp
  show ?thesis using h redeem_throws_advances [OF page p n] redeem_task_advances [OF p n]
    by (auto simp: redeem_answers_def split: option.splits if_splits)
qed

lemma redeem_read_advances:
  assumes page: "stays_in (api_ok K) H" and p: "p < next_op s" and n: "redeem_task (operations s p) \<noteq> Before_Redeem" and c: "client_sound K s"
    and h: "redeem_read H p contents s = Some (x, t)"
  shows "advances K s t"
  using h redeem_throws_advances [OF page p n] redeem_task_advances [OF p n] result_ready_advances [OF page p n c]
  by (auto simp: redeem_read_def split: sum.splits if_splits)

lemma opening_advances:
  assumes page: "stays_in (api_ok K) H" and p: "p < next_op s" and n: "redeem_task (operations s p) \<noteq> Before_Redeem" and c: "client_sound K s"
    and h: "opening_settles H p r s = Some (x, t)"
  shows "advances K s t"
  using h redeem_throws_advances [OF page p n] result_ready_advances [OF page p n c]
  by (auto simp: opening_settles_def split: sum.splits)

subsubsection \<open>Timers, events and cleanups\<close>

lemma timer_advances:
  assumes page: "stays_in (api_ok K) H" and p: "p < next_op s"
  shows "operation_timer_fires H p s = Some (x, t) \<Longrightarrow> advances K s t" "expiry_timer_fires H p s = Some (x, t) \<Longrightarrow> advances K s t"
proof -
  have 1: "advances K s (on_op p (operation_timer_update (\<lambda>_. False)) s)"
    by (rule op_advances) (use p in \<open>auto dest: client_soundD(1)\<close>)
  have 2: "advances K s (on_op p (expiry_timer_update (\<lambda>_. False)) s)"
    by (rule op_advances) (use p in \<open>auto dest: client_soundD(1)\<close>)
  show "operation_timer_fires H p s = Some (x, t) \<Longrightarrow> advances K s t" using 1 advances_trans [OF 1] fail_advances [OF page]
    by (auto simp: operation_timer_fires_def mwhen_def split: if_splits)
  show "expiry_timer_fires H p s = Some (x, t) \<Longrightarrow> advances K s t" using advances_trans [OF 2] fail_advances [OF page]
    by (auto simp: expiry_timer_fires_def)
qed

lemma connection_timer_advances:
  assumes page: "stays_in (api_ok K) H" and h: "connection_timer_fires H s = Some (x, t)"
  shows "advances K s t"
proof -
  have q: "step_ok K {} s (f s)" if "\<And>s. operations (f s) = operations s \<and> current_op (f s) = current_op s \<and> next_op (f s) = next_op s
      \<and> retired (f s) = retired s \<and> generation (f s) = generation s \<and> effects (f s) = effects s \<and> entry_epoch (f s) = entry_epoch s \<and> destroyed (f s) = destroyed s"
      "\<And>s. gone_ok s \<Longrightarrow> gone_ok (f s)" for f
    by (rule quiet_step) (use that [of s] in simp_all)
  have 1: "step_ok K {} s (s\<lparr>connection_timer := None\<rparr>)" by (rule q) (simp_all add: gone_ok_def)
  have 2: "step_ok K {} s (s\<lparr>connection := None, connection_timer := None\<rparr>)" by (rule q) (simp_all add: gone_ok_def)
  show ?thesis
    using h step_advances [OF 1] step_advances [OF step_ok_trans [OF 2 keepsD [OF keeps_publish [OF page]]]]
    by (auto simp: connection_timer_fires_def split: if_splits)
qed

lemma cleanup_dead: "client_sound K s \<Longrightarrow> cleanup_task (operations s p) \<noteq> No_Cleanup \<Longrightarrow> p < next_op s \<and> \<not> is_live (operations s p)"
  using no_task_unbound [of K s p] live_okD [of K s p] by (auto simp: live_ok_def)

lemma end_cleanup_advances: "p < next_op s \<Longrightarrow> \<not> is_live (operations s p) \<Longrightarrow> advances K s (end_cleanup p s)"
  unfolding end_cleanup_def
  by (rule advances_trans [OF finish_advances op_advances]) (auto dest: client_soundD(1))

lemma cancel_answers_advances:
  assumes c: "client_sound K s" and at: "cleanup_task (operations s p) \<noteq> No_Cleanup"
  shows "advances K s (cancel_answers H p code s)"
proof -
  note D = cleanup_dead [OF c at]
  have "advances K s (on_op p (\<lambda>x. x\<lparr>retry_timer := True, cleanup_task := At_Retry\<rparr>) s)"
    by (rule op_advances) (use D client_soundD(1) [OF c, of p] in auto)
  then show ?thesis using D by (auto simp: cancel_answers_def Let_def intro: end_cleanup_advances)
qed

lemma retry_advances:
  assumes c: "client_sound K s" and at: "cleanup_task (operations s p) \<noteq> No_Cleanup"
  shows "advances K s (retry_cleanup H p s)"
proof -
  note D = cleanup_dead [OF c at]
  have 1: "advances K s (on_op p (\<lambda>x. x\<lparr>retry_timer := False, retry_delay := min (retry_delay x * 2) 4000\<rparr>) s)"
    by (rule op_advances) (use D client_soundD(1) [OF c, of p] in auto)
  have 2: "advances K s (on_op p (retry_timer_update (\<lambda>_. False)) s)"
    by (rule op_advances) (use D client_soundD(1) [OF c, of p] in auto)
  have 3: "advances K u (cancel_once p u)" if "p < next_op u" "\<not> is_live (operations u p)" for u
    using that by (intro step_advances cancel_once_step)
  show ?thesis using D advances_trans [OF 1 3] advances_trans [OF 2 end_cleanup_advances] by (simp add: retry_cleanup_def Let_def)
qed

subsection \<open>Every reachable client\<close>

lemma task_bound:
  assumes "client_sound K s"
  shows "register_task (operations s p) \<noteq> Register_Over \<Longrightarrow> p < next_op s" "redeem_task (operations s p) \<noteq> Before_Redeem \<Longrightarrow> p < next_op s"
    "operation_timer (operations s p) \<Longrightarrow> p < next_op s" "expiry_timer (operations s p) \<Longrightarrow> p < next_op s"
  using no_task_unbound [OF assms, of p] by blast+

lemma storage_event_advances:
  assumes page: "stays_in (api_ok K) H" and h: "storage_event H key s = Some (x, t)"
  shows "advances K s t"
  using h consume_advances [OF page] by (auto simp: storage_event_def mwhen_def split: option.splits if_splits)

lemma done_unit_Some: "done_unit r = Some t \<longleftrightarrow> r = Some ((), t)"
  by (cases r) (auto simp: done_unit_def)

lemma run_task_advances:
  assumes page: "stays_in (api_ok K) H" and c: "client_sound K s" and h: "run_task K H q s = Some t"
  shows "advances K s t"
proof (cases q)
  case (Seal_Settles p r)
  then show ?thesis using h seal_advances [OF page task_bound(1) [OF c]] by (auto simp: done_unit_Some split: register_point.splits)
next
  case (Digest_Settles p ok)
  then show ?thesis using h digest_advances [OF page task_bound(1) [OF c] _ c] by (auto simp: done_unit_Some split: register_point.splits)
next
  case (Register_Response p r)
  then show ?thesis using h registration_answers_advances [OF page task_bound(1) [OF c]] by (auto simp: done_unit_Some split: register_point.splits)
next
  case (Register_Body p aborted)
  then show ?thesis using h registration_read_advances [OF page task_bound(1) [OF c] _ c]
    by (auto simp: done_unit_Some bind_eq_Some_conv split: register_point.splits)
next
  case (Poll p)
  then show ?thesis using h consume_advances [OF page] by (auto simp: done_unit_Some split: if_splits)
next
  case (Storage_Event key)
  then show ?thesis using h storage_event_advances [OF page] by (auto simp: done_unit_Some split: if_splits)
next
  case (Redeem_Response p r)
  then show ?thesis using h redeem_answers_advances [OF page task_bound(2) [OF c]] by (auto simp: done_unit_Some split: redeem_point.splits)
next
  case (Redeem_Body p aborted)
  then obtain r y where "redeem_task (operations s p) = At_Redeem_Body r" and run: "redeem_read H p y s = Some ((), t)"
    using h by (auto simp: done_unit_Some bind_eq_Some_conv split: redeem_point.splits)
  then have "redeem_task (operations s p) \<noteq> Before_Redeem" by simp
  from redeem_read_advances [OF page task_bound(2) [OF c this] this c run] show ?thesis .
next
  case (Opening_Settles p r)
  then obtain v where "redeem_task (operations s p) = At_Opening v" and run: "opening_settles H p r s = Some ((), t)"
    using h by (auto simp: done_unit_Some split: redeem_point.splits)
  then have "redeem_task (operations s p) \<noteq> Before_Redeem" by simp
  from opening_advances [OF page task_bound(2) [OF c this] this c run] show ?thesis .
next
  case (Cancel_Response p code)
  then show ?thesis using h cancel_answers_advances [OF c] by (auto split: if_splits)
next
  case (Retry_Fires p)
  then show ?thesis using h retry_advances [OF c] by (auto simp: Let_def split: if_splits)
next
  case (Operation_Timer_Fires p)
  then show ?thesis using h timer_advances(1) [OF page task_bound(3) [OF c]] by (auto simp: done_unit_Some split: if_splits)
next
  case (Expiry_Timer_Fires p)
  then show ?thesis using h timer_advances(2) [OF page task_bound(4) [OF c]] by (auto simp: done_unit_Some split: if_splits)
next
  case Connection_Timer_Fires
  then show ?thesis using h connection_timer_advances [OF page] by (auto simp: done_unit_Some split: if_splits)
qed

lemma client_step_advances:
  assumes "client_step K s t" "client_sound K s"
  shows "advances K s t"
  using assms
proof (cases rule: client_step.cases)
  case (step_call H c)
  then have "step_ok K {} s t" using call_api_ok [OF host_sound] by (simp add: api_ok_def)
  then show ?thesis by (rule step_advances)
next
  case (step_task H q)
  then show ?thesis using run_task_advances [OF host_sound] assms(2) by blast
qed

lemma op_ok_no_pending: "op_ok K p [] no_pending"
  by (simp add: op_ok_def no_pending_def secrets_gone_def)

lemma new_client_sound: "client_sound K new_client" "dangling new_client = {}"
  by (simp_all add: client_sound_def core_ok_def retired_ok_def gone_ok_def new_client_def dangling_def)
    (simp add: no_pending_def)

lemma reachable_client_induct: "reachable_client K s \<Longrightarrow> client_step K s t \<Longrightarrow> reachable_client K t"
  unfolding reachable_client_def by (rule rtranclp.rtrancl_into_rtrancl)

lemma reachable_sound: "reachable_client K s \<Longrightarrow> client_sound K s \<and> dangling s = {}"
  unfolding reachable_client_def
proof (induction rule: rtranclp_induct)
  case base
  then show ?case using new_client_sound by blast
next
  case (step t u)
  then show ?case using client_step_advances [of K t u] by (auto simp: advances_def)
qed

end
