(* ===== verification/RelayClientSamples.thy ===== *)
theory RelayClientSamples
  imports RelayClientSteps
begin

section \<open>A run of the client\<close>

text \<open>
  A client with one adapter on a page that never calls back: it opens a connection, registers it and is
  destroyed. The properties of the client are applied to these states.
\<close>


definition connect_adapter :: adapter where
  "connect_adapter = \<lparr>page_build = (\<lambda>_. Inr (jobj [])), page_kind = Connect_Kind, page_operation = ''connect'', page_parse = Inr, page_seals = False\<rparr>"

definition connect_config :: client_config where
  "connect_config = \<lparr>config_adapters = (\<lambda>name. if name = ''connect'' then Some connect_adapter else None), config_client_id = js ''sample'',
     config_digest = (\<lambda>_. replicate 32 0)\<rparr>"

definition quiet_page :: host where
  "quiet_page = \<lparr>reenter = (\<lambda>_ s. Some s), hear = (\<lambda>_ _ s. Some s), now_at = (\<lambda>_. 0), storage_usable = True, listener_added = True,
     stored_item = Some None, removes_item = True, crypto_found = True, page_random = (\<lambda>_. Inr (replicate 32 7)), window_throws = None,
     stored_keys = [], stored_text = (\<lambda>_. None)\<rparr>"

definition sample_run :: "client option" where
  "sample_run = Option.bind (call_api connect_config quiet_page (Connect 0) new_client) (run_task connect_config quiet_page (Digest_Settles 0 True))"


lemma sample_stays: "stays_in (api K) quiet_page"
  by (auto simp: stays_in_def quiet_page_def intro: api_refl)

lemma sample_page [simp]: "call_page quiet_page q s = Some ((), s)"
  by (simp add: call_page_def quiet_page_def)

lemma sample_fields [simp]:
  "hear quiet_page l v s = Some s" "now_at quiet_page q = 0" "storage_usable quiet_page" "listener_added quiet_page" "crypto_found quiet_page"
  "page_random quiet_page r = Inr (replicate 32 7)" "window_throws quiet_page = None" "stored_keys quiet_page = []"
  "config_adapters connect_config ''connect'' = Some connect_adapter" "config_digest connect_config bs = replicate 32 0"
  "page_build connect_adapter w = Inr (jobj [])" "page_seals connect_adapter = False" "page_kind connect_adapter = Connect_Kind"
  by (simp_all add: quiet_page_def connect_config_def connect_adapter_def)

lemma sample_tell [simp]: "tell quiet_page ls v s = Some s"
  by (induction ls) simp_all

lemma quiet_publish: "\<not> publishing s \<Longrightarrow> notifications s = [] \<Longrightarrow>
    publish quiet_page v s = Some ((), s\<lparr>shown_state := snapshot_from v, notifications := [], publishing := False\<rparr>)"
  by (simp add: publish_def Let_def drain.simps)

lemma sample_secrets: "LOWER_HEX_32 (bytes_hex (replicate 32 7))" "BASE64URL_32 (client_base64url (replicate 32 7))"
    "BASE64URL_32 (client_base64url (replicate 32 0))"
  by code_simp+

lemma still_entered_run: "entry_failure epoch s = None \<Longrightarrow> still_entered epoch x s = Some (Inr x, s)"
  by (simp add: still_entered_def mret_def)

lemma abind_run: "m s = Some (Inr x, t) \<Longrightarrow> abind m f s = f x t"
  by (simp add: abind_def mbind_def)

lemma mbind_then: "m s = Some (x, t) \<Longrightarrow> mbind m f s = f x t"
  by (simp add: mbind_def)

lemma sample_bytes: "entry_failure epoch s = None \<Longrightarrow> secure_bytes quiet_page epoch q s = Some (Inr (replicate 32 7), s)"
  by (simp add: secure_bytes_def mbind_then [OF sample_page] still_entered_run take_replicate)

lemma sample_draw: "entry_failure epoch s = None \<Longrightarrow> draw_and_open quiet_page epoch s =
   Some (Inr (bytes_hex (replicate 32 7), bytes_hex (replicate 32 7), client_base64url (replicate 32 7)),
     emit (Opened (transaction_url (bytes_hex (replicate 32 7)))) s)"
  using sample_secrets
  by (simp add: draw_and_open_def abind_run [of _ _ "()"] mbind_then [OF sample_page] still_entered_run abind_run [OF sample_bytes] Let_def entered)

lemma unless_fresh: "entry_failure epoch s = None \<Longrightarrow> unless_stale epoch m s = m s"
  by (simp add: unless_stale_def)

lemma sample_activate: "\<not> channel_activated s \<Longrightarrow> \<not> destroyed s \<Longrightarrow> \<not> activation_compromised s \<Longrightarrow> activate_callback_channel quiet_page s =
   Some ((), s\<lparr>channel_activated := True, activation_in_progress := False, storage_open := True, storage_listening := True\<rparr>)"
  by (simp add: activate_callback_channel_def mbind_then [OF sample_page] halted_def mwhen_def open_storage_def remove_expired_callback_records_def
     listen_for_callbacks_def activation_settles_def mbind_def mstate_def mget_def mret_def)

definition sample_opened :: client where
  "sample_opened = (let tid = bytes_hex (replicate 32 7);
     x = new_pending connect_adapter (jobj []) None 0 1 (tid, tid, client_base64url (replicate 32 7)) in
     new_client\<lparr>entry_epoch := 1, channel_activated := True, storage_open := True, storage_listening := True,
       effects := [Opened (transaction_url tid)], operations := (\<lambda>_. no_pending)(0 := x\<lparr>operation_timer := True, register_task := At_Digest (verifier_bytes x)\<rparr>),
       generation := 1, next_op := 1, current_op := Some 0, shown_state := snapshot_from (show_opening None)\<rparr>)"

lemma sample_expire: "connection s = None \<Longrightarrow> expire_connection_if_needed quiet_page s = Some ((), s)"
  by (simp add: expire_connection_if_needed_def mret_def)

lemma sample_register: "\<not> destroyed s \<Longrightarrow> current_op s = Some p \<Longrightarrow> operations s p = new_pending connect_adapter r v n (generation s) x \<Longrightarrow>
    register p s = on_op p (\<lambda>x. x\<lparr>operation_timer := True, register_task := At_Digest (verifier_bytes x)\<rparr>) s"
  by (simp add: register_def Let_def is_active_def new_pending_def on_op_def split: prod.splits)

lemma sample_execute: "execute connect_config quiet_page ''connect'' JUndefined new_client = Some (Promises 0, sample_opened)"
  by (simp add: execute_def new_client_def mbind_then [OF sample_page] unless_fresh entered execute_entered_def mbind_then [OF sample_activate]
     mbind_then [OF sample_expire] draw_and_replace_def live_connection_def mbind_then [OF sample_draw] replace_operation_def retire_previous_def
     start_operation_def mbind_then [OF quiet_publish] sample_register sample_opened_def on_op_def Let_def DORMANT_def emit_def mret_def)

lemma opened_reachable: "reachable_client connect_config sample_opened"
proof -
  have "call_api connect_config quiet_page (Connect 0) new_client = Some sample_opened"
    by (simp add: require_no_arguments_def sample_execute)
  then have "client_step connect_config new_client sample_opened" by (rule step_call [OF sample_stays])
  then show ?thesis unfolding reachable_client_def by (rule r_into_rtranclp)
qed

definition sample_registered :: client where
  "sample_registered = the (run_task connect_config quiet_page (Digest_Settles 0 True) sample_opened)"

lemma sample_run: "run_task connect_config quiet_page (Digest_Settles 0 True) sample_opened = Some sample_registered"
    "length (fetches 0 (effects sample_registered)) = 1" "next_op sample_registered = 1" "\<not> destroy_called sample_registered"
    "\<not> publishing sample_registered" "notifications sample_registered = []"
  using sample_secrets(3)
  by (simp_all add: sample_registered_def sample_opened_def Let_def done_unit_def digest_settles_def new_pending_def is_active_def new_client_def
      on_op_def emit_def mret_def mbind_def mget_def mstate_def)

lemma registered_reachable: "reachable_client connect_config sample_registered"
  by (rule reachable_client_induct [OF opened_reachable step_task [OF sample_stays sample_run(1)]])

definition sample_destroyed :: client where
  "sample_destroyed = the (call_api connect_config quiet_page (Destroy 0) sample_registered)"

lemma publishing_simps [simp]:
  "publishing (on_op p f s) = publishing s" "publishing (emit e s) = publishing s" "publishing (finish_cleanup p s) = publishing s"
  "publishing (send_cancel p s) = publishing s"
  "notifications (on_op p f s) = notifications s" "notifications (emit e s) = notifications s" "notifications (finish_cleanup p s) = notifications s"
  "notifications (send_cancel p s) = notifications s"
  by (simp_all add: on_op_def emit_def finish_cleanup_def send_cancel_def Let_def)

lemma publishing_folds [simp]:
  "publishing (fold finish_cleanup ps s) = publishing s" "notifications (fold finish_cleanup ps s) = notifications s"
  "publishing (fold send_cancel ps s) = publishing s" "notifications (fold send_cancel ps s) = notifications s"
  "publishing (fold halt_op ps s) = publishing s" "notifications (fold halt_op ps s) = notifications s"
  "next_op (fold finish_cleanup ps s) = next_op s" "next_op (fold send_cancel ps s) = next_op s" "next_op (fold halt_op ps s) = next_op s"
  by (induction ps arbitrary: s) (simp_all add: halt_op_def send_cancel_def Let_def)

lemma sample_destroys: "\<not> destroy_called s \<Longrightarrow> \<not> publishing s \<Longrightarrow> notifications s = [] \<Longrightarrow>
    \<exists>t. destroy quiet_page s = Some ((), t) \<and> destroyed t \<and> next_op t = next_op s \<and> current_op t = None
      \<and> \<not> publishing t \<and> notifications t = []"
  by (simp add: destroy_def destroy_now_def shut_def [symmetric] shut_folds del: shut_fields)
    (subst quiet_publish; simp add: shut_def clear_connection_def)

lemma destroyed_run: "call_api connect_config quiet_page (Destroy 0) sample_registered = Some sample_destroyed" "destroyed sample_destroyed"
    "next_op sample_destroyed = 1"
  using sample_destroys [OF sample_run(4-6)] sample_run(3) by (auto simp: sample_destroyed_def require_no_arguments_def)

lemma destroyed_reachable: "reachable_client connect_config sample_destroyed"
  by (rule reachable_client_induct [OF registered_reachable step_call [OF sample_stays destroyed_run(1)]])

lemma destroyed_steps: "client_step connect_config sample_destroyed (unsubscribe 0 sample_destroyed)"
  by (rule step_call [OF sample_stays, where c = "Unsubscribe 0"]) simp

end
