(* ===== verification/RelayClientProperties.thy ===== *)
theory RelayClientProperties
  imports RelayClientSamples
begin

section \<open>What the page's relay client guarantees\<close>

text \<open>
  Properties of every reachable state of the client: what it discloses of an operation's secrets and in
  which order, how its operations end, and that a destroyed client does nothing more.
\<close>

subsection \<open>A destroyed client\<close>

definition silent :: "client \<Rightarrow> client \<Rightarrow> bool" where
  "silent s t \<longleftrightarrow> effects t = effects s \<and> shown_state t = shown_state s \<and> destroyed t"

lemma shown_simps [simp]:
  "shown_state (on_op p f s) = shown_state s" "shown_state (finish_cleanup p s) = shown_state s"
  by (simp_all add: on_op_def finish_cleanup_def)

lemma silent_basic:
  "destroyed s \<Longrightarrow> silent s s" "silent s t \<Longrightarrow> silent t u \<Longrightarrow> silent s u"
  "destroyed s \<Longrightarrow> silent s (on_op p f s)" "destroyed s \<Longrightarrow> silent s (finish_cleanup p s)" "destroyed s \<Longrightarrow> silent s (ensure_cleanup p s)"
  by (simp_all add: silent_def ensure_cleanup_def Let_def)

lemma silent_end: "destroyed s \<Longrightarrow> silent s (end_cleanup p s)"
  by (simp add: silent_def end_cleanup_def)

lemma idle_fail: "\<not> is_active p s \<Longrightarrow> fail_active H p code cleanup s = Some ((), s)"
  by (simp add: fail_active_def mwhen_def mret_def)

lemma gone: "destroyed s \<Longrightarrow> \<not> is_active p s"
  by (simp add: is_active_def)

lemma gone_op: "destroyed s \<Longrightarrow> \<not> is_active p (on_op q f s)" "destroyed s \<Longrightarrow> destroyed (on_op q f s)"
  by (simp_all add: is_active_def)

lemma register_throws_silent:
  "client_sound K s \<Longrightarrow> destroyed s \<Longrightarrow> register_throws H p thrown s = Some (x, t) \<Longrightarrow> silent s t"
  using live_not_destroyed [of K s p]
  by (auto simp: register_throws_def end_register_def clean_up_def silent_def ensure_cleanup_def Let_def split: if_splits)

lemma registration_fails_silent:
  "client_sound K s \<Longrightarrow> destroyed s \<Longrightarrow> registration_fails H p how s = Some (x, t) \<Longrightarrow> silent s t"
  using live_not_destroyed [of K s p]
  by (auto simp: registration_fails_def mbind_Some silent_def ensure_cleanup_def Let_def split: if_splits)

lemma registration_read_silent:
  assumes c: "client_sound K s" and d: "destroyed s" and h: "registration_read H p contents s = Some (x, t)"
  shows "silent s t"
proof (cases "rbind contents (registration_reply (op_transaction_id (operations s p)) (now_at H Record_Time))")
  case (Inl e)
  then show ?thesis using h registration_fails_silent [OF c d] by (simp add: registration_read_def)
next
  case (Inr expires)
  then show ?thesis using h d by (simp add: registration_read_def gone_op silent_def ensure_cleanup_def Let_def)
qed

lemma redeem_throws_silent: "destroyed s \<Longrightarrow> redeem_throws H p code s = Some (x, t) \<Longrightarrow> silent s t"
  by (auto simp: redeem_throws_def idle_fail gone_op silent_def)

lemma result_ready_silent: "destroyed s \<Longrightarrow> result_ready H p v s = Some (x, t) \<Longrightarrow> silent s t"
  by (auto simp: result_ready_def mbind_Some complete_op_def gone_op silent_def)

lemma redeem_read_silent:
  assumes d: "destroyed s" and h: "redeem_read H p contents s = Some (x, t)"
  shows "silent s t"
proof (cases "rbind (rbind contents (redeem_reply (op_transaction_id (operations s p))))
    (\<lambda>v. case op_adapter (operations s p) of None \<Rightarrow> Inl (client_error ''RELAY_ERROR'') | Some a \<Rightarrow> page_parse a v)")
  case (Inl e)
  then show ?thesis using h redeem_throws_silent [OF d] by (simp add: redeem_read_def)
next
  case (Inr v)
  then show ?thesis using h result_ready_silent [OF d] silent_basic(3) [OF d] by (auto simp: redeem_read_def split: if_splits)
qed

lemma run_task_silent:
  assumes c: "client_sound K s" and d: "destroyed s" and h: "run_task K H q s = Some t"
  shows "silent s t"
proof -
  note s = silent_basic(1) [OF d] silent_basic(3) [OF d] silent_basic(3-5) [OF d] silent_end [OF d]
  show ?thesis
  proof (cases q)
    case (Seal_Settles p r)
    then show ?thesis using h register_throws_silent [OF c d] s(3)
      by (auto simp: done_unit_Some seal_settles_def split: register_point.splits sum.splits)
  next
    case (Digest_Settles p ok)
    then show ?thesis using h register_throws_silent [OF c d] gone [OF d]
      by (auto simp: done_unit_Some digest_settles_def Let_def silent_def d split: register_point.splits if_splits)
  next
    case (Register_Response p r)
    then show ?thesis using h registration_fails_silent [OF c d] s(3)
      by (auto simp: done_unit_Some registration_answers_def split: register_point.splits option.splits if_splits)
  next
    case (Register_Body p aborted)
    then show ?thesis using h registration_read_silent [OF c d]
      by (auto simp: done_unit_Some bind_eq_Some_conv split: register_point.splits)
  next
    case (Poll p)
    then show ?thesis using h gone [OF d] s(1) by (auto simp: done_unit_Some consume_callback_def split: if_splits)
  next
    case (Storage_Event key)
    then show ?thesis using h gone [OF d] s(1) by (auto simp: done_unit_Some storage_event_def mwhen_def mret_def split: if_splits option.splits)
  next
    case (Redeem_Response p r)
    then show ?thesis using h redeem_throws_silent [OF d] s(3)
      by (auto simp: done_unit_Some redeem_answers_def split: redeem_point.splits option.splits if_splits)
  next
    case (Redeem_Body p aborted)
    then show ?thesis using h redeem_read_silent [OF d]
      by (auto simp: done_unit_Some bind_eq_Some_conv split: redeem_point.splits)
  next
    case (Opening_Settles p r)
    then show ?thesis using h redeem_throws_silent [OF d] result_ready_silent [OF d]
      by (auto simp: done_unit_Some opening_settles_def split: redeem_point.splits sum.splits)
  next
    case (Cancel_Response p code)
    then show ?thesis using h s(3,6) by (auto simp: cancel_answers_def Let_def split: if_splits)
  next
    case (Retry_Fires p)
    then show ?thesis using h d by (auto simp: retry_cleanup_def Let_def end_cleanup_def silent_def split: if_splits)
  next
    case (Operation_Timer_Fires p)
    then show ?thesis using h d by (auto simp: done_unit_Some operation_timer_fires_def mwhen_def idle_fail gone_op silent_def split: if_splits)
  next
    case (Expiry_Timer_Fires p)
    then show ?thesis using h d by (auto simp: done_unit_Some expiry_timer_fires_def idle_fail gone_op silent_def split: if_splits)
  next
    case Connection_Timer_Fires
    then show ?thesis using h client_soundD(5) [OF c] d by (auto simp: gone_ok_def split: if_splits)
  qed
qed

lemma execute_gone: "destroyed s \<Longrightarrow> execute K H name input s = Some (Refuses ''DESTROYED'', s)"
  by (simp add: execute_def mret_def)

lemma call_api_silent:
  assumes c: "client_sound K s" and d: "destroyed s" and h: "call_api K H q s = Some t"
  shows "silent s t"
proof -
  have "connection s = None" "destroy_called s" using client_soundD(5) [OF c] d by (simp_all add: gone_ok_def)
  then show ?thesis using h d execute_gone [OF d]
    by (cases q) (auto simp: require_no_arguments_def disconnect_def destroy_def get_snapshot_def expire_connection_if_needed_def
        subscribe_def unsubscribe_def silent_def mret_def mget_def mbind_def split: if_splits)
qed

lemma client_step_silent: "client_sound K s \<Longrightarrow> destroyed s \<Longrightarrow> client_step K s t \<Longrightarrow> silent s t"
  by (erule client_step.cases) (auto intro: call_api_silent run_task_silent)

subsection \<open>The guarantees\<close>







subsection \<open>A clock that calls back\<close>

text \<open>
  The terminal state is not terminal within one call: \<open>#expireConnectionIfNeeded\<close> reads the clock and
  then publishes without asking again whether the client was destroyed meanwhile. A page whose clock
  destroys the client at that moment sees a destroyed client that shows itself as dormant.
\<close>

definition destroying_clock :: "page_connection \<Rightarrow> host" where
  "destroying_clock c = quiet_page\<lparr>reenter := (\<lambda>q s. if q = Expiry_Clock then call_api connect_config quiet_page (Destroy 0) s else Some s),
     now_at := (\<lambda>_. expires_at_wall c)\<rparr>"

theorem destroyed_client_shown_as_dormant:
  assumes "connection s = Some c" "\<not> destroy_called s" "\<not> publishing s" "notifications s = []"
  shows "stays_in (api connect_config) (destroying_clock c)"
    and "\<exists>v t. get_snapshot (destroying_clock c) s = Some (v, t) \<and> destroyed t \<and> shown_status v = ''dormant''"
proof -
  show "stays_in (api connect_config) (destroying_clock c)"
    using api_call [OF api_refl sample_stays] by (auto simp: stays_in_def destroying_clock_def api_refl simp del: call_api.simps split: if_splits)
  obtain t where t: "destroy quiet_page s = Some ((), t)" "destroyed t" "current_op t = None" "\<not> publishing t" "notifications t = []"
    using sample_destroys [OF assms(2-4)] by blast
  have told: "tell (destroying_clock c) ls v w = Some w" for ls v w
    by (induction ls) (simp_all add: destroying_clock_def)
  have p: "\<exists>w. publish (destroying_clock c) DORMANT (clear_connection t) = Some ((), w) \<and> destroyed w \<and> shown_state w = snapshot_from DORMANT"
    using t by (simp add: publish_def Let_def drain.simps told clear_connection_def)
  have "call_page (destroying_clock c) Expiry_Clock s = Some ((), t)" using t(1)
    by (simp add: call_page_def destroying_clock_def require_no_arguments_def)
  then show "\<exists>v t. get_snapshot (destroying_clock c) s = Some (v, t) \<and> destroyed t \<and> shown_status v = ''dormant''"
    using assms(1) t p
    by (auto simp: get_snapshot_def expire_connection_if_needed_def mbind_then destroying_clock_def snapshot_from_def DORMANT_def clear_connection_def mbind_Some)
qed

end
