(* ===== verification/InputValidation.thy ===== *)
theory InputValidation
  imports JsonText
begin

section \<open>Input validation of the native wrappers: wasm/src/input-validation.mjs\<close>

text \<open>
  The guards every wrapper of the native module passes its arguments through. A wrapper's error is made
  by the constructor it was created with, from a code and a message: \<open>Made\<close>. The native module is a
  parameter: its exports, its allocator and its memory, a list of bytes; what is asked of it is a log.
  Of a value the guards see whether it is a typed array (with what its buffer and its prototypes say),
  a number, a bigint, a string, or something else with the text \<open>String\<close> gives.
\<close>

subsection \<open>Values\<close>

datatype buffer =
    Array_Buffer bool bool \<comment> \<open>resizable, detached\<close>
  | Shared_Buffer bool \<comment> \<open>growable\<close>

record typed_array =
  is_uint8 :: bool
  elements :: "byte list"
  own_length :: bool \<comment> \<open>a \<open>length\<close> property on the array or on a prototype before \<open>%TypedArray%.prototype\<close>\<close>
  out_of_bounds :: bool \<comment> \<open>its buffer was shrunk under it\<close>
  array_buffer :: buffer
  array_text :: jstring

datatype argument =
    Typed typed_array
  | Number_Value jnum
  | Big_Value int
  | Text_Value jstring
  | Other_Value jstring

record engine =
  \<comment> \<open>the getters found when the module was loaded\<close>
  has_resizable :: bool
  has_detached :: bool
  has_growable :: bool

definition decimal :: "int \<Rightarrow> jstring" where
  "decimal n = (if n < 0 then 45 # decimal_digits (nat (- n)) else decimal_digits (nat n))"

definition string_of :: "argument \<Rightarrow> jstring" where
  "string_of v = (case v of Typed a \<Rightarrow> array_text a | Number_Value n \<Rightarrow> num_to_string n | Big_Value n \<Rightarrow> decimal n
     | Text_Value s \<Rightarrow> s | Other_Value s \<Rightarrow> s)"

datatype thrown =
    Made nat jstring \<comment> \<open>\<open>makeError(code, message)\<close>\<close>
  | Range_Thrown
  | Trapped \<comment> \<open>by the native code\<close>

definition INVALID_ARGUMENT :: nat where "INVALID_ARGUMENT = 2"
definition NOT_SUPPORTED :: nat where "NOT_SUPPORTED = 3"
definition OUT_OF_MEMORY :: nat where "OUT_OF_MEMORY = 4"
definition INVALID_PRIVATE_KEY :: nat where "INVALID_PRIVATE_KEY = 400"
definition INVALID_PUBLIC_KEY :: nat where "INVALID_PUBLIC_KEY = 401"
definition CURVE_NAMES :: "string list" where
  "CURVE_NAMES = [''secp256k1'', ''ed25519'', ''P-256'', ''P-384'', ''X25519'']"
definition PRIVATE_KEY_LENGTH :: "nat list" where "PRIVATE_KEY_LENGTH = [32, 32, 32, 48, 32]"
definition PUBLIC_KEY_LENGTHS :: "nat list list" where
  "PUBLIC_KEY_LENGTHS = [[33, 65], [32], [33, 65], [49, 97], [32]]"

subsection \<open>Binary data\<close>

definition unreachable :: "typed_array \<Rightarrow> bool" where
  \<comment> \<open>its bytes are gone: the buffer is detached or was shrunk below the array\<close>
  "unreachable a \<longleftrightarrow> out_of_bounds a \<or> (\<exists>r. array_buffer a = Array_Buffer r True)"

lemma unreachable_code [code]:
  "unreachable a \<longleftrightarrow> out_of_bounds a \<or> (case array_buffer a of Array_Buffer r d \<Rightarrow> d | Shared_Buffer g \<Rightarrow> False)"
  by (auto simp: unreachable_def split: buffer.splits)

definition array_bytes :: "typed_array \<Rightarrow> byte list" where
  "array_bytes a = (if unreachable a then [] else elements a)"

definition intrinsic_length :: "argument \<Rightarrow> nat option" where
  "intrinsic_length v = (case v of Typed a \<Rightarrow> Some (length (array_bytes a)) | _ \<Rightarrow> None)"

definition is_detached :: "engine \<Rightarrow> typed_array \<Rightarrow> bool" where
  \<comment> \<open>without the getter: an empty array that cannot be copied\<close>
  "is_detached e a = (if has_detached e then (case array_buffer a of Array_Buffer r d \<Rightarrow> d | Shared_Buffer g \<Rightarrow> False)
     else array_bytes a = [] \<and> unreachable a)"

definition has_fixed_size :: "engine \<Rightarrow> typed_array \<Rightarrow> bool" where
  "has_fixed_size e a = (case array_buffer a of
       Array_Buffer r d \<Rightarrow> \<not> (has_resizable e \<and> r)
     | Shared_Buffer g \<Rightarrow> \<not> (has_growable e \<and> g))"

definition is_bytes :: "engine \<Rightarrow> argument \<Rightarrow> bool" where
  "is_bytes e v = (case v of
       Typed a \<Rightarrow> is_uint8 a \<and> \<not> own_length a \<and> \<not> is_detached e a \<and> has_fixed_size e a
     | _ \<Rightarrow> False)"

definition require_bytes :: "engine \<Rightarrow> argument \<Rightarrow> jstring \<Rightarrow> nat \<Rightarrow> thrown + argument" where
  "require_bytes e v name code = (if is_bytes e v then Inr v else Inl (Made code (name @ js '' must be a Uint8Array'')))"

definition fresh_array :: "byte list \<Rightarrow> typed_array" where
  \<comment> \<open>\<open>new Uint8Array(value)\<close>\<close>
  "fresh_array bs = \<lparr>is_uint8 = True, elements = bs, own_length = False, out_of_bounds = False,
     array_buffer = Array_Buffer False False, array_text = join_with 44 (map (\<lambda>b. decimal_digits (unat b)) bs)\<rparr>"

definition bytes_of :: "argument \<Rightarrow> byte list" where
  "bytes_of v = (case v of Typed a \<Rightarrow> array_bytes a | _ \<Rightarrow> [])"

definition snapshot_bytes :: "engine \<Rightarrow> argument \<Rightarrow> jstring \<Rightarrow> nat \<Rightarrow> thrown + argument" where
  "snapshot_bytes e v name code = rbind (require_bytes e v name code) (\<lambda>_. Inr (Typed (fresh_array (bytes_of v))))"

definition byte_length :: "engine \<Rightarrow> argument \<Rightarrow> jstring \<Rightarrow> nat \<Rightarrow> thrown + nat" where
  "byte_length e v name code = rbind (require_bytes e v name code) (\<lambda>_. Inr (length (bytes_of v)))"

datatype lengths = Exactly nat | One_Of "nat list"

definition describe_lengths :: "lengths \<Rightarrow> jstring" where
  "describe_lengths ls = (case ls of
       Exactly n \<Rightarrow> decimal_digits n
     | One_Of ns \<Rightarrow> (case map decimal_digits ns of [] \<Rightarrow> [] | t # ts \<Rightarrow> t @ concat (map (\<lambda>u. js '' or '' @ u) ts)))"

definition length_allowed :: "argument \<Rightarrow> lengths \<Rightarrow> bool" where
  "length_allowed v ls = (case intrinsic_length v of
       None \<Rightarrow> False
     | Some n \<Rightarrow> (case ls of Exactly m \<Rightarrow> n = m | One_Of ms \<Rightarrow> n \<in> set ms))"

definition bytes_of_length :: "engine \<Rightarrow> argument \<Rightarrow> lengths \<Rightarrow> jstring \<Rightarrow> nat \<Rightarrow> thrown + argument" where
  "bytes_of_length e v ls name code = rbind (require_bytes e v name code) (\<lambda>_.
     if length_allowed v ls then Inr v else Inl (Made code (name @ js '' must be '' @ describe_lengths ls @ js '' bytes'')))"

definition bytes_in_range :: "engine \<Rightarrow> argument \<Rightarrow> nat \<Rightarrow> nat \<Rightarrow> jstring \<Rightarrow> nat \<Rightarrow> thrown + argument" where
  "bytes_in_range e v lo hi name code = rbind (require_bytes e v name code) (\<lambda>_.
     let n = length (bytes_of v) in
     if n < lo \<or> hi < n then Inl (Made code (name @ js '' must be '' @ decimal_digits lo @ [45] @ decimal_digits hi @ js '' bytes''))
     else Inr v)"

subsection \<open>Strings and numbers\<close>

definition require_string :: "argument \<Rightarrow> jstring \<Rightarrow> thrown + jstring" where
  "require_string v name = (case v of Text_Value s \<Rightarrow> Inr s | _ \<Rightarrow> Inl (Made INVALID_ARGUMENT (name @ js '' must be a string'')))"

fun unpaired_after :: "bool \<Rightarrow> jstring \<Rightarrow> bool" where
  \<comment> \<open>\<open>UNPAIRED_SURROGATE\<close> matches at some position; \<open>high\<close>: the unit before is a high surrogate\<close>
  "unpaired_after high [] = False"
| "unpaired_after high (c # s) =
     (is_high_surrogate c \<and> \<not> (case s of [] \<Rightarrow> False | d # ds \<Rightarrow> is_low_surrogate d)
      \<or> is_low_surrogate c \<and> \<not> high \<or> unpaired_after (is_high_surrogate c) s)"

definition UNPAIRED_SURROGATE :: "jstring \<Rightarrow> bool" where
  "UNPAIRED_SURROGATE s = unpaired_after False s"

definition c_string :: "argument \<Rightarrow> jstring \<Rightarrow> thrown + jstring" where
  "c_string v name = rbind (require_string v name) (\<lambda>s.
     if 0 \<in> set s then Inl (Made INVALID_ARGUMENT (name @ js '' must not contain a NUL character''))
     else if UNPAIRED_SURROGATE s then Inl (Made INVALID_ARGUMENT (name @ js '' must be well-formed Unicode''))
     else Inr s)"

definition is_c_string :: "argument \<Rightarrow> bool" where
  "is_c_string v = (case v of Text_Value s \<Rightarrow> 0 \<notin> set s \<and> \<not> UNPAIRED_SURROGATE s | _ \<Rightarrow> False)"

definition require_integer :: "argument \<Rightarrow> jstring \<Rightarrow> int \<Rightarrow> int \<Rightarrow> nat \<Rightarrow> thrown + jnum" where
  "require_integer v name lo hi code = (let e = Inl (Made code (name @ js '' must be an integer from '' @ decimal lo @ js '' to '' @ decimal hi)) in
     case v of
       Number_Value n \<Rightarrow> if num_is_integer n \<and> of_int lo \<le> num_real n \<and> num_real n \<le> of_int hi then Inr n else e
     | _ \<Rightarrow> e)"

definition uint32 :: "argument \<Rightarrow> jstring \<Rightarrow> thrown + jnum" where
  "uint32 v name = require_integer v name 0 0xffffffff INVALID_ARGUMENT"

definition hex_digits_value :: "jstring \<Rightarrow> nat" where
  "hex_digits_value ds = foldl (\<lambda>a c. 16 * a + the (hex_value c)) 0 ds"

definition big_of_text :: "jstring \<Rightarrow> int option" where
  \<comment> \<open>\<open>BigInt(value)\<close> of a text \<open>/^(0|[1-9][0-9]*|0x[0-9a-fA-F]+)$/\<close>\<close>
  "big_of_text s =
     (if s = [48] \<or> s \<noteq> [] \<and> hd s \<noteq> 48 \<and> list_all is_digit s then Some (int (digits_value s))
      else if take 2 s = [48, 120] \<and> drop 2 s \<noteq> [] \<and> list_all (\<lambda>c. hex_value c \<noteq> None) (drop 2 s)
      then Some (int (hex_digits_value (drop 2 s)))
      else None)"

definition unsigned_big_int :: "argument \<Rightarrow> jstring \<Rightarrow> nat \<Rightarrow> thrown + int" where
  "unsigned_big_int v name bits =
     (let not_integer = Made INVALID_ARGUMENT (name @ js '' must be a non-negative integer'');
          n = (case v of
             Big_Value n \<Rightarrow> Some n
           | Number_Value x \<Rightarrow> if num_is_safe_integer x then Some \<lfloor>num_real x\<rfloor> else None
           | Text_Value s \<Rightarrow> big_of_text s
           | _ \<Rightarrow> None) in
      case n of
        None \<Rightarrow> Inl not_integer
      | Some n \<Rightarrow> if n < 0 \<or> 2 ^ bits \<le> n
          then Inl (Made INVALID_ARGUMENT (name @ js '' must be a non-negative integer below 2^'' @ decimal_digits bits)) else Inr n)"

definition same_primitive :: "argument \<Rightarrow> argument \<Rightarrow> bool" where
  \<comment> \<open>\<open>includes\<close> of a list of numbers and strings\<close>
  "same_primitive a b = (case (a, b) of
       (Number_Value m, Number_Value n) \<Rightarrow> num_eq m n \<or> m = NaN \<and> n = NaN
     | (Text_Value s, Text_Value t) \<Rightarrow> s = t
     | _ \<Rightarrow> False)"

definition one_of :: "argument \<Rightarrow> argument list \<Rightarrow> jstring \<Rightarrow> thrown + argument" where
  "one_of v allowed name = (if list_ex (same_primitive v) allowed then Inr v
     else Inl (Made INVALID_ARGUMENT (name @ js '' must be one of ''
       @ (case map string_of allowed of [] \<Rightarrow> [] | t # ts \<Rightarrow> t @ concat (map (\<lambda>u. [44, 32] @ u) ts)))))"

subsection \<open>Curves\<close>

definition curve_index :: "argument \<Rightarrow> nat option" where
  \<comment> \<open>an integer from 0 to 4, minus zero included\<close>
  "curve_index v = (case v of
       Number_Value n \<Rightarrow> if num_is_integer n \<and> 0 \<le> num_real n \<and> num_real n < of_nat (length CURVE_NAMES) then Some (nat \<lfloor>num_real n\<rfloor>) else None
     | _ \<Rightarrow> None)"

definition require_curve :: "argument \<Rightarrow> nat list option \<Rightarrow> thrown + nat" where
  \<comment> \<open>answers the index of the curve\<close>
  "require_curve v allowed =
     (let refused = (\<lambda>label. Inl (Made NOT_SUPPORTED (js ''Curve '' @ label @ js '' is not supported here''))) in
      case curve_index v of
        None \<Rightarrow> refused (string_of v)
      | Some k \<Rightarrow> if (case allowed of None \<Rightarrow> True | Some ks \<Rightarrow> k \<in> set ks) then Inr k else refused (js (CURVE_NAMES ! k)))"

definition private_key_length :: "argument \<Rightarrow> thrown + nat" where
  "private_key_length curve = rbind (require_curve curve None) (\<lambda>k. Inr (PRIVATE_KEY_LENGTH ! k))"

definition public_key_lengths :: "argument \<Rightarrow> thrown + nat list" where
  "public_key_lengths curve = rbind (require_curve curve None) (\<lambda>k. Inr (PUBLIC_KEY_LENGTHS ! k))"

subsection \<open>Keys, checked by the native module\<close>

datatype native_event =
    Allocated nat nat
  | Checked string nat "byte list" \<comment> \<open>with the bytes at the pointer when it was called\<close>
  | Wiped nat nat
  | Copy_Cleared
  | Freed nat

record memory =
  heap :: "byte list"
  native_log :: "native_event list"

record native_module =
  export_of :: "string \<Rightarrow> (nat \<Rightarrow> nat \<Rightarrow> nat \<Rightarrow> byte list \<Rightarrow> int option \<times> byte list) option"
    \<comment> \<open>pointer, length, curve, memory; \<open>None\<close> of the result: a trap\<close>
  hd_alloc :: "nat \<Rightarrow> byte list \<Rightarrow> nat \<times> byte list" \<comment> \<open>the memory may grow; pointer 0: there is none\<close>
  hd_secure_wipe :: "nat \<Rightarrow> nat \<Rightarrow> byte list \<Rightarrow> byte list"
  hd_dealloc :: "nat \<Rightarrow> byte list \<Rightarrow> byte list"

definition log_native :: "native_event \<Rightarrow> (byte list \<Rightarrow> byte list) \<Rightarrow> memory \<Rightarrow> memory" where
  "log_native x f m = m\<lparr>heap := f (heap m), native_log := native_log m @ [x]\<rparr>"

definition run_check :: "(nat \<Rightarrow> nat \<Rightarrow> nat \<Rightarrow> byte list \<Rightarrow> int option \<times> byte list) \<Rightarrow> string \<Rightarrow> nat \<Rightarrow> byte list \<Rightarrow> nat \<Rightarrow> memory \<Rightarrow> (thrown + bool) \<times> memory" where
  \<comment> \<open>the \<open>try\<close>: \<open>HEAPU8.set\<close> and the call\<close>
  "run_check check name p copy curve m =
     (if length (heap m) < p + length copy then (Inl Range_Thrown, m)
      else let h = take p (heap m) @ copy @ drop (p + length copy) (heap m); (r, h') = check p (length copy) curve h in
        ((case r of None \<Rightarrow> Inl Trapped | Some n \<Rightarrow> Inr (n = 0)),
         log_native (Checked name p (take (length copy) (drop p h))) (\<lambda>_. h') m))"

definition release :: "native_module \<Rightarrow> bool \<Rightarrow> nat \<Rightarrow> nat \<Rightarrow> memory \<Rightarrow> memory" where
  \<comment> \<open>the \<open>finally\<close>\<close>
  "release W secret p n m = log_native (Freed p) (hd_dealloc W p)
     (if secret then log_native Copy_Cleared id (log_native (Wiped p n) (hd_secure_wipe W p n) m) else m)"

definition native_key_check :: "native_module \<Rightarrow> string \<Rightarrow> argument \<Rightarrow> nat \<Rightarrow> bool \<Rightarrow> memory \<Rightarrow> (thrown + bool) \<times> memory" where
  "native_key_check W name v curve secret m = (case export_of W name of
       None \<Rightarrow> (Inl (Made NOT_SUPPORTED (js ''Function '' @ js name @ js '' is not available in this build'')), m)
     | Some check \<Rightarrow> (let copy = bytes_of v; n = max 1 (length copy); (p, h) = hd_alloc W n (heap m) in
         if p = 0 then (Inl (Made OUT_OF_MEMORY (js ''Out of memory'')), m\<lparr>heap := h\<rparr>)
         else let (r, m') = run_check check name p copy curve (log_native (Allocated p n) (\<lambda>_. h) m) in (r, release W secret p n m')))"

definition checked_key :: "native_module \<Rightarrow> string \<Rightarrow> bool \<Rightarrow> thrown \<Rightarrow> argument \<Rightarrow> nat \<Rightarrow> memory \<Rightarrow> (thrown + argument) \<times> memory" where
  "checked_key W export secret refusal v k m = (case native_key_check W export v k secret m of
       (Inl x, m') \<Rightarrow> (Inl x, m')
     | (Inr ok, m') \<Rightarrow> (if ok then Inr v else Inl refusal, m'))"

definition private_key :: "engine \<Rightarrow> native_module \<Rightarrow> argument \<Rightarrow> argument \<Rightarrow> jstring \<Rightarrow> memory \<Rightarrow> (thrown + argument) \<times> memory" where
  "private_key e W v curve name m =
     (case rbind (require_curve curve None) (\<lambda>k.
        rbind (bytes_of_length e v (Exactly (PRIVATE_KEY_LENGTH ! k)) name INVALID_PRIVATE_KEY) (\<lambda>_. Inr k)) of
        Inl x \<Rightarrow> (Inl x, m)
      | Inr k \<Rightarrow> checked_key W ''_hd_curve_validate_privkey'' True
          (Made INVALID_PRIVATE_KEY (name @ js '' is not a valid '' @ js (CURVE_NAMES ! k) @ js '' private key'')) v k m)"

definition chosen_lengths :: "argument \<Rightarrow> nat list option \<Rightarrow> thrown + nat list" where
  \<comment> \<open>the default of the parameter \<open>lengths\<close>\<close>
  "chosen_lengths curve given = (case given of None \<Rightarrow> public_key_lengths curve | Some ls \<Rightarrow> Inr ls)"

definition is_public_key :: "engine \<Rightarrow> native_module \<Rightarrow> argument \<Rightarrow> argument \<Rightarrow> nat list option \<Rightarrow> memory \<Rightarrow> (thrown + bool) \<times> memory" where
  "is_public_key e W v curve given m =
     (case rbind (chosen_lengths curve given) (\<lambda>ls. rbind (require_curve curve None) (\<lambda>k.
        rbind (require_bytes e v (js ''publicKey'') INVALID_PUBLIC_KEY) (\<lambda>_. Inr (ls, k)))) of
        Inl x \<Rightarrow> (Inl x, m)
      | Inr (ls, k) \<Rightarrow> if length_allowed v (One_Of ls) then native_key_check W ''_hd_curve_validate_pubkey'' v k False m
          else (Inr False, m))"

definition public_key :: "engine \<Rightarrow> native_module \<Rightarrow> argument \<Rightarrow> argument \<Rightarrow> jstring \<Rightarrow> nat list option \<Rightarrow> memory \<Rightarrow> (thrown + argument) \<times> memory" where
  "public_key e W v curve name given m =
     (case rbind (chosen_lengths curve given) (\<lambda>ls. rbind (require_curve curve None) (\<lambda>k.
        rbind (bytes_of_length e v (One_Of ls) name INVALID_PUBLIC_KEY) (\<lambda>_. Inr k))) of
        Inl x \<Rightarrow> (Inl x, m)
      | Inr k \<Rightarrow> checked_key W ''_hd_curve_validate_pubkey'' False
          (Made INVALID_PUBLIC_KEY (name @ js '' is not a valid '' @ js (CURVE_NAMES ! k) @ js '' public key'')) v k m)"

end
