(* ===== verification/InputValidationProperties.thy ===== *)
theory InputValidationProperties
  imports InputValidation
begin

section \<open>What reaches the native code\<close>

text \<open>
  The facts about wasm/src/input-validation.mjs: a key is accepted only with the size of its curve and
  after the native check of exactly its bytes, and no copy of a private key stays behind; a string is
  accepted exactly when the native code reads back what the caller wrote; integers are exact.
\<close>

subsection \<open>Strings\<close>

lemma surrogate_exclusive: "is_high_surrogate c \<Longrightarrow> \<not> is_low_surrogate c"
  by (simp add: is_high_surrogate_def is_low_surrogate_def)

lemma unpaired_iff: "UNPAIRED_SURROGATE s \<longleftrightarrow> \<not> utf16_ok s"
  unfolding UNPAIRED_SURROGATE_def
proof (induction s rule: utf16_ok.induct)
  case (3 c d ds)
  have "is_low_surrogate d \<Longrightarrow> is_high_surrogate d = False" using surrogate_exclusive [of d] by blast
  then show ?case using 3 surrogate_exclusive [of c] by (cases "is_high_surrogate c") auto
qed auto

definition native_reads :: "byte list \<Rightarrow> jstring option" where
  \<comment> \<open>a C string read from memory as UTF-8: up to the first NUL\<close>
  "native_reads mem = map_option (\<lambda>cs. concat (map utf16_scalar cs)) (decode_scalars (map unat (takeWhile (\<lambda>b. b \<noteq> 0) mem)))"

lemma length_usv_scalars: "js_wf s \<Longrightarrow> length (concat (map utf16_scalar (usv_scalars s))) = length s"
  by (induction s rule: usv_scalars.induct) (auto simp: utf16_pair_scalar, simp_all add: utf16_scalar_def)

lemma usv_scalars_restored: "js_wf s \<Longrightarrow> concat (map utf16_scalar (usv_scalars s)) = s \<Longrightarrow> utf16_ok s"
proof (induction s rule: utf16_ok.induct)
  case (2 c)
  then show ?case by (auto simp: utf16_scalar_def is_high_surrogate_def is_low_surrogate_def split: if_splits)
next
  case (3 c d ds)
  have r: "utf16_scalar 65533 = [65533]" "\<not> is_high_surrogate 65533" "\<not> is_low_surrogate 65533"
    by (simp_all add: utf16_scalar_def is_high_surrogate_def is_low_surrogate_def)
  have "c < 65536" using 3(3) by simp
  then have u: "utf16_scalar c = [c]" by (simp add: utf16_scalar_def)
  consider (pair) "is_high_surrogate c" "is_low_surrogate d" | (high) "is_high_surrogate c" "\<not> is_low_surrogate d"
    | (low) "\<not> is_high_surrogate c" "is_low_surrogate c" | (unit) "\<not> is_high_surrogate c" "\<not> is_low_surrogate c" by blast
  then show ?case
  proof cases
    case pair
    then show ?thesis using 3 by (simp add: utf16_pair_scalar)
  next
    case high
    then show ?thesis using 3(4) r by auto
  next
    case low
    then show ?thesis using 3(4) r by auto
  next
    case unit
    then show ?thesis using 3 u by simp
  qed
qed simp

lemma zero_byte: "is_scalar_value c \<Longrightarrow> 0 \<in> set (utf8_scalar c) \<longleftrightarrow> c = 0"
proof -
  assume "is_scalar_value c"
  then have c: "c < 0x110000" by (simp add: is_scalar_value_def) linarith
  have z: "byte_of n = 0 \<longleftrightarrow> n = 0" if "n < 256" for n
    using unat_byte_of [OF that] by (metis byte_of_unat unsigned_0)
  have m: "c mod 64 < 64" "c div 64 mod 64 < 64" "c div 4096 mod 64 < 64" by simp_all
  consider "c < 0x80" | "0x80 \<le> c" "c < 0x800" | "0x800 \<le> c" "c < 0x10000" | "0x10000 \<le> c" by linarith
  then show ?thesis
  proof cases
    case 1 then show ?thesis using z [of c] by (auto simp: utf8_scalar_def)
  next
    case 2
    then have "c div 64 < 32" by linarith
    with 2 m show ?thesis using z [of "192 + c div 64"] z [of "128 + c mod 64"] by (auto simp: utf8_scalar_def)
  next
    case 3
    then have "c div 4096 < 16" by linarith
    with 3 m show ?thesis using z [of "224 + c div 4096"] z [of "128 + c div 64 mod 64"] z [of "128 + c mod 64"] by (auto simp: utf8_scalar_def)
  next
    case 4
    with c have "c div 262144 < 5" by linarith
    with 4 m show ?thesis using z [of "240 + c div 262144"] z [of "128 + c div 4096 mod 64"] z [of "128 + c div 64 mod 64"] z [of "128 + c mod 64"]
      by (auto simp: utf8_scalar_def)
  qed
qed

lemma zero_unit: "js_wf s \<Longrightarrow> 0 \<in> set (usv_scalars s) \<longleftrightarrow> 0 \<in> set s"
proof (induction s rule: usv_scalars.induct)
  case (3 c d ds)
  then show ?case using pair_scalar_bounds [of c d]
    by (auto simp: is_high_surrogate_def is_low_surrogate_def)
qed (auto simp: is_high_surrogate_def is_low_surrogate_def)

lemma native_reads_prefix:
  assumes "js_wf s" "usv_scalars s = xs @ ys" "0 \<notin> set xs" "ys = [] \<or> hd ys = 0"
  shows "native_reads (utf8_encode s @ 0 # rest) = Some (concat (map utf16_scalar xs))"
proof -
  have v: "\<forall>c\<in>set (xs @ ys). is_scalar_value c" using usv_scalars_valid [OF assms(1)] assms(2) by simp
  then have "0 \<notin> set (concat (map utf8_scalar xs))" using zero_byte assms(3) by fastforce
  moreover have "concat (map utf8_scalar ys) @ 0 # rest = 0 # tl (concat (map utf8_scalar ys) @ 0 # rest)"
    using assms(4) by (cases ys) (auto simp: utf8_scalar_def byte_of_def)
  ultimately have "takeWhile (\<lambda>b. b \<noteq> 0) (utf8_encode s @ 0 # rest) = concat (map utf8_scalar xs)"
    unfolding utf8_encode_def assms(2) map_append concat_append append_assoc
    by (metis (mono_tags, lifting) append_Nil2 takeWhile.simps(2) takeWhile_append2)
  then show ?thesis using decode_utf8_scalars [of xs] v by (simp add: native_reads_def)
qed

text \<open>C40: a string passes the C string guard exactly when the native code, which reads its UTF-8 bytes
  up to the first NUL, reads the string the caller passed; the test that answers instead of throwing
  agrees with the guard.\<close>

theorem c_string_reads_back:
  assumes "js_wf s"
  shows "(c_string (Text_Value s) name = Inr s \<longleftrightarrow> native_reads (utf8_encode s @ 0 # rest) = Some s)
    \<and> (is_c_string v \<longleftrightarrow> is_ok (c_string v name))"
proof (intro conjI)
  have ok: "c_string (Text_Value s) name = Inr s \<longleftrightarrow> 0 \<notin> set s \<and> utf16_ok s"
    by (simp add: c_string_def require_string_def unpaired_iff)
  show "c_string (Text_Value s) name = Inr s \<longleftrightarrow> native_reads (utf8_encode s @ 0 # rest) = Some s"
  proof (cases "0 \<in> set s")
    case True
    then obtain xs ys where u: "usv_scalars s = xs @ 0 # ys" "0 \<notin> set xs"
      using zero_unit [OF assms] split_list_first by metis
    have "length (concat (map utf16_scalar xs)) < length s"
      using length_usv_scalars [OF assms] by (simp add: u(1) utf16_scalar_def)
    then have "concat (map utf16_scalar xs) \<noteq> s" by auto
    with True ok native_reads_prefix [OF assms, of xs "0 # ys" rest] u show ?thesis by simp
  next
    case False
    then have "native_reads (utf8_encode s @ 0 # rest) = Some (concat (map utf16_scalar (usv_scalars s)))"
      using native_reads_prefix [OF assms, of "usv_scalars s" "[]" rest] zero_unit [OF assms] by simp
    with False ok show ?thesis using utf16_usv_scalars usv_scalars_restored assms by auto
  qed
  show "is_c_string v \<longleftrightarrow> is_ok (c_string v name)"
    by (cases v) (simp_all add: is_c_string_def c_string_def require_string_def)
qed

lemma c_string_reads_back_witness:
  "(c_string (Text_Value [112, 0xd83d, 0xde00]) [] = Inr [112, 0xd83d, 0xde00] \<longleftrightarrow>
      native_reads (utf8_encode [112, 0xd83d, 0xde00] @ 0 # [65]) = Some [112, 0xd83d, 0xde00])
    \<and> (is_c_string (Text_Value [112, 0, 119]) \<longleftrightarrow> is_ok (c_string (Text_Value [112, 0, 119]) []))"
  by (rule c_string_reads_back) simp

subsection \<open>Integers\<close>

lemma digits_value_decimal: "digits_value (decimal_digits n) = n"
proof (induction n rule: decimal_digits.induct)
  case (1 n)
  then show ?case by (subst decimal_digits.simps) (simp add: digits_value_def)
qed

lemma decimal_digits_shape: "decimal_digits n \<noteq> [] \<and> list_all is_digit (decimal_digits n) \<and> (hd (decimal_digits n) = 48 \<longleftrightarrow> n = 0)"
proof (induction n rule: decimal_digits.induct)
  case (1 n)
  have d: "is_digit (48 + n mod 10)" "n < 10 \<Longrightarrow> is_digit (48 + n)" by (simp_all add: is_digit_def)
  then show ?case using 1 by (subst (1 2 3) decimal_digits.simps) (auto simp: hd_append)
qed

lemma big_of_decimal: "big_of_text (decimal_digits n) = Some (int n)"
proof (cases "n = 0")
  case True
  then show ?thesis by (simp add: big_of_text_def decimal_digits.simps digits_value_def)
next
  case False
  then show ?thesis using decimal_digits_shape [of n] by (simp add: big_of_text_def digits_value_decimal)
qed

text \<open>An accepted integer is within its bits; a decimal text and a bigint are taken at their value.\<close>

theorem unsigned_big_int_exact:
  "(unsigned_big_int v name bits = Inr n \<longrightarrow> 0 \<le> n \<and> n < 2 ^ bits)
   \<and> (unsigned_big_int (Text_Value (decimal_digits k)) name bits = Inr (int k) \<longleftrightarrow> k < 2 ^ bits)
   \<and> (unsigned_big_int (Big_Value i) name bits = Inr i \<longleftrightarrow> 0 \<le> i \<and> i < 2 ^ bits)"
  by (auto simp: unsigned_big_int_def big_of_decimal not_le split: option.splits argument.splits if_splits)

subsection \<open>Keys\<close>

lemma run_check_log:
  "run_check check name p copy curve m = (r, m') \<Longrightarrow> \<exists>mid. native_log m' = native_log m @ mid \<and> (mid = [] \<or> mid = [Checked name p copy])"
  by (auto simp: run_check_def Let_def log_native_def split: if_splits prod.splits)

lemma run_check_accepts:
  assumes "run_check check name p copy curve m = (Inr True, m')"
  shows "\<exists>h h'. check p (length copy) curve h = (Some 0, h') \<and> take (length copy) (drop p h) = copy \<and> length h = length (heap m)"
proof -
  let ?h = "take p (heap m) @ copy @ drop (p + length copy) (heap m)"
  have l: "p + length copy \<le> length (heap m)" and "fst (check p (length copy) curve ?h) = Some 0"
    using assms by (auto simp: run_check_def Let_def split: if_splits prod.splits option.splits)
  then have "check p (length copy) curve ?h = (Some 0, snd (check p (length copy) curve ?h))" by (metis prod.collapse)
  with l show ?thesis by (intro exI [of _ ?h] exI [of _ "snd (check p (length copy) curve ?h)"] conjI) auto
qed

definition block_released :: "nat \<Rightarrow> byte list \<Rightarrow> native_event list \<Rightarrow> bool" where
  \<comment> \<open>one allocation, at most one check, of the whole key, then wiped and freed, the copy cleared\<close>
  "block_released n bs es \<longleftrightarrow> (\<exists>p mid name. p \<noteq> 0 \<and> (mid = [] \<or> mid = [Checked name p bs])
     \<and> es = Allocated p n # mid @ [Wiped p n, Copy_Cleared, Freed p])"

lemma native_key_check_log:
  assumes "native_key_check W name v curve True m = (r, m')"
  shows "\<exists>es. native_log m' = native_log m @ es \<and> (es = [] \<or> block_released (max 1 (length (bytes_of v))) (bytes_of v) es)"
proof (cases "export_of W name")
  case (Some check)
  let ?n = "max 1 (length (bytes_of v))"
  obtain p h where a: "hd_alloc W ?n (heap m) = (p, h)" by force
  show ?thesis
  proof (cases "p = 0")
    case False
    obtain r' m1 where c: "run_check check name p (bytes_of v) curve (log_native (Allocated p ?n) (\<lambda>_. h) m) = (r', m1)" by force
    obtain mid where mid: "native_log m1 = native_log m @ Allocated p ?n # mid" "mid = [] \<or> mid = [Checked name p (bytes_of v)]"
      using run_check_log [OF c] by (auto simp: log_native_def)
    have "native_log m' = native_log m1 @ [Wiped p ?n, Copy_Cleared, Freed p]"
      using assms Some a c False by (auto simp: native_key_check_def Let_def release_def log_native_def)
    with mid False show ?thesis by (intro exI [of _ "Allocated p ?n # mid @ [Wiped p ?n, Copy_Cleared, Freed p]"]) (auto simp: block_released_def)
  qed (use assms Some a in \<open>auto simp: native_key_check_def Let_def\<close>)
qed (use assms in \<open>auto simp: native_key_check_def\<close>)

lemma native_key_check_accepts:
  assumes "native_key_check W name v curve secret m = (Inr True, m')"
  shows "\<exists>check p h h'. export_of W name = Some check \<and> check p (length (bytes_of v)) curve h = (Some 0, h')
     \<and> take (length (bytes_of v)) (drop p h) = bytes_of v"
  using assms by (auto simp: native_key_check_def Let_def split: option.splits prod.splits if_splits dest!: run_check_accepts)

lemma private_key_cases:
  assumes "private_key e W v curve name m = (r, m')"
  obtains (refused) x where "r = Inl x" "m' = m"
  | (checked) k refusal where "curve_index curve = Some k" "is_bytes e v" "length (bytes_of v) = PRIVATE_KEY_LENGTH ! k"
      "k < length PRIVATE_KEY_LENGTH" "checked_key W ''_hd_curve_validate_privkey'' True refusal v k m = (r, m')"
proof (cases "rbind (require_curve curve None) (\<lambda>k.
        rbind (bytes_of_length e v (Exactly (PRIVATE_KEY_LENGTH ! k)) name INVALID_PRIVATE_KEY) (\<lambda>_. Inr k))")
  case (Inl x)
  then show thesis using assms by (intro refused [of x]) (auto simp: private_key_def)
next
  case (Inr k)
  then have k: "curve_index curve = Some k" "is_bytes e v" "length_allowed v (Exactly (PRIVATE_KEY_LENGTH ! k))"
    by (auto simp: rbind_Inr_iff require_curve_def bytes_of_length_def require_bytes_def Let_def split: option.splits if_splits)
  moreover have "length (bytes_of v) = PRIVATE_KEY_LENGTH ! k"
    using k(3) by (cases v) (auto simp: length_allowed_def intrinsic_length_def bytes_of_def)
  moreover have "k < length PRIVATE_KEY_LENGTH"
    using k(1) by (auto simp: curve_index_def CURVE_NAMES_def PRIVATE_KEY_LENGTH_def split: argument.splits if_splits) linarith
  ultimately show thesis using checked assms Inr by (auto simp: private_key_def)
qed

lemma checked_key_outcome:
  assumes "checked_key W export True refusal v k m = (r, m')"
  shows "\<exists>es. native_log m' = native_log m @ es \<and> (es = [] \<or> block_released (max 1 (length (bytes_of v))) (bytes_of v) es)"
    "r = Inr w \<Longrightarrow> w = v \<and> (\<exists>check p h h'. export_of W export = Some check \<and> check p (length (bytes_of v)) k h = (Some 0, h')
       \<and> take (length (bytes_of v)) (drop p h) = bytes_of v)"
proof -
  obtain q where q: "native_key_check W export v k True m = (q, m')" "r = Inr w \<Longrightarrow> q = Inr True \<and> w = v"
    using assms by (auto simp: checked_key_def split: prod.splits sum.splits if_splits)
  show "\<exists>es. native_log m' = native_log m @ es \<and> (es = [] \<or> block_released (max 1 (length (bytes_of v))) (bytes_of v) es)"
    by (rule native_key_check_log [OF q(1)])
  assume "r = Inr w"
  with q native_key_check_accepts [of W export v k True m m']
  show "w = v \<and> (\<exists>check p h h'. export_of W export = Some check \<and> check p (length (bytes_of v)) k h = (Some 0, h')
       \<and> take (length (bytes_of v)) (drop p h) = bytes_of v)" by simp
qed

text \<open>C39: however the check of a private key ends, with the key, an invalid argument, no memory, a range
  error or a trap of the native code, its one copy in the native memory was wiped and then freed, and
  the copy in JavaScript cleared; and a key is accepted only on a known curve, as a plain attached
  array of fixed size, with exactly the bytes of the curve's scalar, after the native check, called
  with that length, had exactly these bytes at its pointer and answered zero.\<close>

theorem private_key_checked_and_wiped:
  assumes "private_key e W v curve name m = (r, m')"
  shows "(\<exists>es. native_log m' = native_log m @ es \<and> (es = [] \<or> block_released (length (bytes_of v)) (bytes_of v) es))
    \<and> (r = Inr w \<longrightarrow> w = v \<and> is_bytes e v \<and> (\<exists>k check p h h'. curve_index curve = Some k
        \<and> length (bytes_of v) = PRIVATE_KEY_LENGTH ! k \<and> export_of W ''_hd_curve_validate_privkey'' = Some check
        \<and> check p (length (bytes_of v)) k h = (Some 0, h') \<and> take (length (bytes_of v)) (drop p h) = bytes_of v))"
  using assms
proof (cases rule: private_key_cases)
  case (checked k refusal)
  have "PRIVATE_KEY_LENGTH ! k \<in> set PRIVATE_KEY_LENGTH" using checked(4) by (rule nth_mem)
  then have "max 1 (length (bytes_of v)) = length (bytes_of v)" using checked(3) by (auto simp: PRIVATE_KEY_LENGTH_def)
  with checked_key_outcome(1) [OF checked(5)] checked_key_outcome(2) [OF checked(5)] checked(1-3) show ?thesis by metis
qed simp

definition tiny_module :: native_module where
  \<comment> \<open>a key is valid when its bytes are all one; blocks start at 8\<close>
  "tiny_module = \<lparr>export_of = (\<lambda>name. Some (\<lambda>p n k h. (Some (if take n (drop p h) = replicate n 1 then 0 else 1), h))),
     hd_alloc = (\<lambda>n h. (8, h)), hd_secure_wipe = (\<lambda>p n h. take p h @ replicate n 0 @ drop (p + n) h), hd_dealloc = (\<lambda>p h. h)\<rparr>"

definition tiny_engine :: engine where
  "tiny_engine = \<lparr>has_resizable = True, has_detached = True, has_growable = True\<rparr>"

lemma tiny_key:
  "private_key tiny_engine tiny_module (Typed (fresh_array (replicate 32 1))) (Number_Value (Fin 0)) [] \<lparr>heap = replicate 64 0, native_log = []\<rparr>
     = (Inr (Typed (fresh_array (replicate 32 1))), \<lparr>heap = replicate 64 0,
        native_log = [Allocated 8 32, Checked ''_hd_curve_validate_privkey'' 8 (replicate 32 1), Wiped 8 32, Copy_Cleared, Freed 8]\<rparr>)"
proof -
  have "curve_index (Number_Value (Fin 0)) = Some 0"
    by (simp add: curve_index_def num_is_integer_def num_is_finite_def num_real_def CURVE_NAMES_def)
  moreover have "bytes_of (Typed (fresh_array bs)) = bs" "is_bytes tiny_engine (Typed (fresh_array bs))"
      "length_allowed (Typed (fresh_array bs)) (Exactly n) \<longleftrightarrow> length bs = n" for bs n
    by (simp_all add: bytes_of_def array_bytes_def unreachable_def fresh_array_def is_bytes_def is_detached_def has_fixed_size_def
        tiny_engine_def length_allowed_def intrinsic_length_def)
  ultimately show ?thesis
    by (simp add: private_key_def require_curve_def Let_def bytes_of_length_def require_bytes_def PRIVATE_KEY_LENGTH_def checked_key_def
        native_key_check_def tiny_module_def run_check_def log_native_def release_def flip: replicate_add)
qed

lemma private_key_checked_and_wiped_witness:
  "is_bytes tiny_engine (Typed (fresh_array (replicate 32 1)))
   \<and> (\<exists>es. native_log (snd (private_key tiny_engine tiny_module (Typed (fresh_array (replicate 32 1))) (Number_Value (Fin 0)) []
        \<lparr>heap = replicate 64 0, native_log = []\<rparr>)) = es \<and> (es = [] \<or> block_released 32 (replicate 32 1) es))"
proof -
  have b: "bytes_of (Typed (fresh_array (replicate 32 1))) = replicate 32 1"
    by (simp add: bytes_of_def array_bytes_def unreachable_def fresh_array_def)
  from private_key_checked_and_wiped [OF tiny_key, of "Typed (fresh_array (replicate 32 1))"] show ?thesis
    unfolding tiny_key b by auto
qed

end
