(* ===== verification/Spec2Isabelle.thy ===== *)
theory Spec2Isabelle
  imports WireProperties WireApi RegistryProperties SealedEnvelopes ConsentMemory Rng OriginRelay
    Confirmation OperationsExecuteProperties RelayRegistryProperties RelayServerProperties ClientPartsProperties RelayClientProperties
    InputValidationProperties
begin

section \<open>The wallet transaction pipeline of wallet-ui\<close>

text \<open>
  \<^bold>\<open>The program.\<close> A web page (the client) asks a wallet, a page of another origin, to connect, to open
  sealed fields or to sign. The two never exchange messages directly: the client registers a
  transaction with a relay service and opens the wallet with its id; the wallet fetches the
  transaction from the relay, checks it, shows it to a person, executes it, posts the result and is
  redirected to the client's callback page with a one-time code; the callback page leaves the code in
  the browser's storage; the client finds it there and redeems it at the relay with the verifier of
  the challenge it registered. Paths below are under \<open>src/wallet-ui/\<close>.

  \<^bold>\<open>Shared by the parts.\<close>
  \<^item> \<open>Prelude\<close>: results with the thrown value on the left (\<open>js_error\<close>, \<open>result\<close>), \<open>checks\<close> for the guard
    lists the sources are written in, JavaScript strings as lists of UTF-16 code units.
  \<^item> \<open>JsString\<close>, \<open>JsNumber\<close>, \<open>JsValue\<close>: the part of the language the sources use: UTF-8 and surrogates,
    IEEE doubles as exact rationals with rounding, values with prototypes, property lists, accessors,
    symbols and sparse arrays. \<open>jval_wf\<close> is the invariant of every value (no property twice, code
    units below 65536). \<open>Timestamps\<close>: \<open>Date.parse\<close> and \<open>toISOString\<close> on calendar texts.
  \<^item> \<open>JsonText\<close>, \<open>JsonFacts\<close>, \<open>JsonRoundtrip\<close>, \<open>JsonErrors\<close>, \<open>JsonPlain\<close>, \<open>JsonParse\<close>: the four strict
    JSON readers of the program as one reader with a dialect (what its guard refuses, which error it
    throws), the canonical writer, and the language's own \<open>JSON.parse\<close>. Shown: what a reader
    returns is bounded and free of duplicates, every reader answers, canonical text is read back,
    and the strict readers are restrictions of \<open>JSON.parse\<close>.

  \<^bold>\<open>The messages: client/wire.mjs, client/asset-review-policy.mjs.\<close> \<open>WireGuards\<close> (\<open>exactRecord\<close>,
  \<open>exactLiteral\<close>, \<open>exactPattern\<close>), \<open>WireEncoding\<close> and \<open>Codecs\<close> (base64, base64url, base32, CID),
  \<open>WireMessages\<close>, \<open>WireFields\<close> and \<open>WireApi\<close> (one function per validator, builder and parser, in the
  guards' order). \<open>WireFacts\<close> holds the locale \<open>normaliser\<close> (a validator accepts its own result
  unchanged, with exactly its message's fields) and its interpretation on every validator; \<open>Codecs\<close>
  the locale \<open>canonical_codec\<close>. \<open>WireProperties\<close> says what each accepted message promises.

  \<^bold>\<open>The wallet: origin-app/.\<close>
  \<^item> \<open>OriginGuards\<close>: the record guard and the frozen copy its modules share.
  \<^item> \<open>Registry\<close>, \<open>RegistryFacts\<close>, \<open>RegistryProperties\<close> (registry.mjs): the reviewed clients, their policies,
    the checks when the module loads and the lookup. Shown: the shipped registry loads, and a lookup
    succeeds exactly for a reviewed client, origin and operation.
  \<^item> \<open>OriginRelay\<close> (relay.mjs): the bounded response reader and the wallet's requests; the state is the
    approved redirect. Shown: the reader's outcomes, and that the wallet navigates only to what the
    relay answered to its last result, once.
  \<^item> \<open>SealedEnvelopes\<close> (sealed-envelopes.mjs), \<open>ConsentMemory\<close> (consent-memory.mjs; the state is the one
    stored value, the locale \<open>grant_store\<close> its contract), \<open>Rng\<close> (rng.mjs; the state is the buffers seen).
  \<^item> \<open>Operations\<close>, \<open>OperationsProperties\<close> (operations.mjs): the table of operations, the checks of a fetched
    transaction and the binding of sealed fields to the site. \<open>Confirmation\<close>: the description shown to
    the person and the dialog, whose single settlement is the locale \<open>one_shot\<close>.
    \<open>OperationsExecute\<close>, \<open>OperationsExecuteFacts\<close>, \<open>PublicationSample\<close>, \<open>OperationsExecuteProperties\<close>:
    the execution of a confirmed operation, with the challenge the wallet fetches for a publication.
    Shown: what is accepted is reviewed, alive and hashed; what is handed over is a result the relay's
    parser of that operation accepts unchanged; a publication is signed only within its challenge.

  \<^bold>\<open>The relay service: relay/src/.\<close>
  \<^item> \<open>RelayJson\<close> (json.ts), \<open>RelayRegistry\<close>, \<open>RelayRegistryProperties\<close> (registry.ts): both sides resolve the
    same triples from the same registry file.
  \<^item> \<open>RelayStore\<close>, \<open>RelayStoreProperties\<close> (store.ts): a table as the list of its rows, a method as a function
    from table to table, rolled back when it throws. Shown: the invariant of reachable tables, that every
    history is a run of the abstract lifecycle (registered, answered, closed, forgotten), and when a
    redemption succeeds and what it returns.
  \<^item> \<open>RelayServer\<close>, \<open>RateLimits\<close>, \<open>RelaySamples\<close>, \<open>RelayServerProperties\<close> (server.ts): the limiter, the
    routes and both parts of each handler, before and after the request body, as steps of a server whose
    state is the table, the limiter's buckets and the timers. Shown: the limiter's bound, that every
    stored row was checked, and that an answer is readable only by the origin that asked.

  \<^bold>\<open>The client: client/relay-client.mjs, client/callback.mjs.\<close> \<open>ClientParts\<close>, \<open>ClientPartsProperties\<close>: what
  has no state, and the callback page. \<open>RelayClient\<close>, \<open>RelayClientEntry\<close>: the object's private fields as a
  record, its methods as functions on it, its asynchronous methods cut at the awaits into tasks, and
  the step relation \<open>client_step\<close> with the page as a host that may call back into the client at every
  site after which the code checks its epoch again. \<open>RelayClientFacts\<close>, \<open>RelayClientSteps\<close>: the invariant
  \<open>client_sound\<close> and the relation \<open>frame\<close> a call into the page keeps; \<open>RelayClientSamples\<close>: a run.
  \<open>RelayClientProperties\<close>: what holds in every reachable state about requests and verifiers, about
  operations and their settlement, and about a destroyed client.

  \<^bold>\<open>The native boundary: wasm/src/input-validation.mjs\<close> (under \<open>src/\<close>, not wallet-ui). \<open>InputValidation\<close>: the
  guards every wrapper of the WebAssembly module passes its arguments through, and the native checks of
  keys as calls into a module with a memory and a log. \<open>InputValidationProperties\<close>: a private key is
  accepted only after the check of exactly its bytes and its copy is always wiped, and which strings
  and integers pass.

  \<^bold>\<open>How the parts meet.\<close> The wallet's registry and the relay's agree; what the wallet hands over, the
  relay's parser accepts unchanged; what the relay stores, its parsers accepted, so each side's
  validators accept it unchanged; the record the callback page writes is what the client reads; and
  the store redeems a result only for the verifier whose digest was registered, which the client sends
  only after its own registration.

  \<^bold>\<open>Bounds, fuel, non-termination.\<close> The loops of the strict readers have fuel one more than the length of
  the text, each turn consumes a unit, and exhaustion is an error value of its own, proved never to
  appear; nesting is bounded by the reader's own limit. \<open>JSON.parse\<close> has the same
  fuel. The publishing loop of the client may run for ever when a listener always publishes: it is
  a \<open>partial_function\<close> and a method that never returns is \<open>None\<close>; so are reads from the network of which
  the last has not arrived. 32-bit arithmetic is kept where the code has it (the constant-time
  comparison of the wallet); times are whole milliseconds.

  \<^bold>\<open>Parameters.\<close> Code outside the repository is an argument: the URL parser and \<open>Math.hypot\<close>
  (\<open>wire_host\<close>), SHA-256, the native module (\<open>native_wallet\<close>, of which it is only assumed that it
  returns values of the runtime), the network, timers, clocks, storage and window (\<open>host\<close>,
  \<open>execution\<close>, \<open>clocks\<close>), \<open>isIP\<close>. What is assumed of one is a named hypothesis of the theorem that uses it.

  \<^bold>\<open>Not modelled.\<close> origin-app/controller.mjs and app.mjs (they drive the document and call the modelled
  parts in turn), account.mjs and remember-wallet.mjs (handles of the native module, passkeys and
  IndexedDB), the page library's bindings to the browser, the wallet application and its views (user
  interface), the WebAssembly API, and the C++ library (marshalling to, and
  code of, another language), generated and bundled code, and the release scripts. SQLite is the table
  it keeps; sockets and process start are left out; the teardown of response bodies is represented by
  the outcome of a read.
\<close>

end
